(* ===== verification/FTPM_Prelude.thy ===== *)
theory FTPM_Prelude
  imports Main "HOL-Library.Word"
begin

unbundle bit_operations_syntax

text \<open>
  Shared vocabulary of the development: the fixed-width integers of the C code, the
  values a routine yields when it trips an assertion, the response codes, and the
  generic lemmas on lists, words and counting that the component theories use.

  The firmware is built with \<^verbatim>\<open>NO_LONGJMP\<close>
  (\<^verbatim>\<open>include/ftpm/GpMacros.h\<close>), so \<^verbatim>\<open>pAssert\<close> and \<^verbatim>\<open>FAIL\<close>
  put the TPM into failure mode and then fall through.  What runs after that point runs
  with a violated precondition; the model stops there instead and returns
  \<open>Inl\<close> of the failure code.  The component theorems show that no assertion
  is violated from a well-formed state, so that nothing is lost by stopping.
\<close>

section \<open>Types of the C code\<close>

type_synonym BYTE = "8 word"
type_synonym UINT8 = "8 word"
type_synonym UINT16 = "16 word"
type_synonym UINT32 = "32 word"
type_synonym UINT64 = "64 word"

type_synonym TPM_HANDLE = "32 word"
type_synonym TPM_RC = "32 word"
type_synonym TPM_ALG_ID = "16 word"
type_synonym TPM_CC = "32 word"

text \<open>
  Failure codes of \<^verbatim>\<open>TpmError.h\<close> that occur in the modelled code, together with a
  failed C library \<^verbatim>\<open>assert\<close> of the platform code (\<open>PLATFORM_ASSERT\<close>) and
  three outcomes that C leaves open: an access outside an object
  (\<open>OUT_OF_BOUNDS\<close>), a shift by the width of its operand or more
  (\<open>UNDEFINED_SHIFT\<close>) and a loop that has not ended within the fuel of its model
  (\<open>NO_FUEL\<close>).
\<close>

datatype fatal =
    FATAL_ERROR_INTERNAL
  | FATAL_ERROR_PARAMETER
  | FATAL_ERROR_NV_UNRECOVERABLE
  | FATAL_ERROR_COUNTER_OVERFLOW
  | FATAL_ERROR_ASSERT
  | PLATFORM_ASSERT
  | OUT_OF_BOUNDS
  | UNDEFINED_SHIFT
  | NO_FUEL

type_synonym 'a fallible = "fatal + 'a"

definition bindE :: "'a fallible \<Rightarrow> ('a \<Rightarrow> 'b fallible) \<Rightarrow> 'b fallible" where
  "bindE m f = (case m of Inl e \<Rightarrow> Inl e | Inr x \<Rightarrow> f x)"

lemma bindE_simps [simp]:
  "bindE (Inl e) f = Inl e"
  "bindE (Inr x) f = f x"
  by (simp_all add: bindE_def)

lemma bindE_eq_Inr_iff: "bindE m f = Inr y \<longleftrightarrow> (\<exists>x. m = Inr x \<and> f x = Inr y)"
  by (cases m) auto

section \<open>Response codes (TpmTypes.h)\<close>

abbreviation TPM_RC_SUCCESS :: TPM_RC where "TPM_RC_SUCCESS \<equiv> 0x000"
abbreviation TPM_RC_FAILURE :: TPM_RC where "TPM_RC_FAILURE \<equiv> 0x101"
abbreviation TPM_RC_HANDLE :: TPM_RC where "TPM_RC_HANDLE \<equiv> 0x08B"
abbreviation TPM_RC_CONTEXT_GAP :: TPM_RC where "TPM_RC_CONTEXT_GAP \<equiv> 0x901"
abbreviation TPM_RC_OBJECT_MEMORY :: TPM_RC where "TPM_RC_OBJECT_MEMORY \<equiv> 0x902"
abbreviation TPM_RC_SESSION_MEMORY :: TPM_RC where "TPM_RC_SESSION_MEMORY \<equiv> 0x903"
abbreviation TPM_RC_SESSION_HANDLES :: TPM_RC where "TPM_RC_SESSION_HANDLES \<equiv> 0x905"
abbreviation TPM_RC_TOO_MANY_CONTEXTS :: TPM_RC where "TPM_RC_TOO_MANY_CONTEXTS \<equiv> 0x12E"
abbreviation TPM_RC_NV_RATE :: TPM_RC where "TPM_RC_NV_RATE \<equiv> 0x920"
abbreviation TPM_RC_NV_UNAVAILABLE :: TPM_RC where "TPM_RC_NV_UNAVAILABLE \<equiv> 0x923"
abbreviation TPM_RC_NV_SPACE :: TPM_RC where "TPM_RC_NV_SPACE \<equiv> 0x14B"
abbreviation TPM_RC_NV_DEFINED :: TPM_RC where "TPM_RC_NV_DEFINED \<equiv> 0x14C"
abbreviation TPM_RC_NV_LOCKED :: TPM_RC where "TPM_RC_NV_LOCKED \<equiv> 0x148"
abbreviation TPM_RC_NV_AUTHORIZATION :: TPM_RC where "TPM_RC_NV_AUTHORIZATION \<equiv> 0x149"
abbreviation TPM_RC_NV_UNINITIALIZED :: TPM_RC where "TPM_RC_NV_UNINITIALIZED \<equiv> 0x14A"

section \<open>Startup types (Global.h)\<close>

datatype STARTUP_TYPE = SU_RESET | SU_RESTART | SU_RESUME

section \<open>Lists\<close>

text \<open>Counting the elements of an array that satisfy a test, and how one store changes it.\<close>

definition count_if :: "('a \<Rightarrow> bool) \<Rightarrow> 'a list \<Rightarrow> nat" where
  "count_if P xs = length (filter P xs)"

lemma count_if_simps [simp]:
  "count_if P [] = 0"
  "count_if P (x # xs) = (if P x then Suc (count_if P xs) else count_if P xs)"
  by (simp_all add: count_if_def)

lemma count_if_le_length: "count_if P xs \<le> length xs"
  by (simp add: count_if_def)

lemma count_if_update:
  "i < length xs \<Longrightarrow>
   count_if P (xs[i := y]) + (if P (xs ! i) then 1 else 0) = count_if P xs + (if P y then 1 else 0)"
proof (induction xs arbitrary: i)
  case Nil
  then show ?case by simp
next
  case (Cons x xs)
  then show ?case by (cases i) auto
qed

lemma count_if_pos_iff: "0 < count_if P xs \<longleftrightarrow> (\<exists>i < length xs. P (xs ! i))"
  by (simp add: count_if_def filter_empty_conv) (metis in_set_conv_nth)

lemma count_if_zero_iff: "count_if P xs = 0 \<longleftrightarrow> (\<forall>i < length xs. \<not> P (xs ! i))"
  by (simp add: count_if_def filter_empty_conv all_set_conv_all_nth)

lemma count_if_replicate [simp]: "count_if P (replicate n x) = (if P x then n else 0)"
  by (induction n) auto

lemma count_if_compl: "count_if P xs + count_if (\<lambda>x. \<not> P x) xs = length xs"
  by (induction xs) auto

text \<open>
  \<open>first_index P xs\<close> is the index at which a C loop
  \<^verbatim>\<open>for(i = 0; i < N; i++) if(P(xs[i])) break;\<close> stops: the first hit, or the length.
\<close>

primrec first_index :: "('a \<Rightarrow> bool) \<Rightarrow> 'a list \<Rightarrow> nat" where
  "first_index P [] = 0"
| "first_index P (x # xs) = (if P x then 0 else Suc (first_index P xs))"

lemma first_index_le: "first_index P xs \<le> length xs"
  by (induction xs) auto

lemma first_index_hit: "first_index P xs < length xs \<Longrightarrow> P (xs ! first_index P xs)"
  by (induction xs) auto

lemma first_index_least: "i < first_index P xs \<Longrightarrow> \<not> P (xs ! i)"
proof (induction xs arbitrary: i)
  case Nil
  then show ?case by simp
next
  case (Cons x xs)
  then show ?case by (cases i) (auto split: if_splits)
qed

lemma first_index_less_iff:
  "first_index P xs < length xs \<longleftrightarrow> (\<exists>i < length xs. P (xs ! i))"
proof
  assume "first_index P xs < length xs"
  then show "\<exists>i < length xs. P (xs ! i)" using first_index_hit by blast
next
  assume "\<exists>i < length xs. P (xs ! i)"
  then obtain i where "i < length xs" "P (xs ! i)" by blast
  then have "\<not> i < first_index P xs" using first_index_least by blast
  with \<open>i < length xs\<close> show "first_index P xs < length xs" by simp
qed

lemma all_nth_less_Suc:
  "(\<forall>i < Suc n. P i) \<longleftrightarrow> (\<forall>i < n. P i) \<and> P n"
  by (auto simp: less_Suc_eq)

lemma nth_update_if: "j < length xs \<Longrightarrow> xs[i := v] ! j = (if i = j then v else xs ! j)"
  by (cases "i < length xs") (simp_all add: nth_list_update)

section \<open>Words\<close>

lemma unat_lt: "unat (w :: 'a::len word) < 2 ^ LENGTH('a)"
  by (rule unsigned_less)

lemma unat_byte_lt: "unat (b :: BYTE) < 256"
  using unat_lt [of b] by simp

lemma unat_ucast_byte [simp]:
  "unat (ucast (b :: BYTE) :: UINT16) = unat b"
  "unat (ucast (b :: BYTE) :: UINT32) = unat b"
  by (simp_all add: unsigned_ucast_eq take_bit_eq_mod less_trans [OF unat_byte_lt])

lemma unat_ucast_32_64 [simp]: "unat (ucast (b :: UINT32) :: UINT64) = unat b"
  using unat_lt [of b] by (simp add: unsigned_ucast_eq take_bit_eq_mod)

lemma unat_byte_of: "unat (ucast (i :: 'a::len word) :: BYTE) = unat i mod 256"
  by (simp add: unsigned_ucast_eq take_bit_eq_mod)

lemma unat_ucast_16_32 [simp]: "unat (ucast (b :: UINT16) :: UINT32) = unat b"
  using unat_lt [of b] by (simp add: unsigned_ucast_eq take_bit_eq_mod)

lemma unat_ucast_16_64 [simp]: "unat (ucast (b :: UINT16) :: UINT64) = unat b"
  using unat_lt [of b] by (simp add: unsigned_ucast_eq take_bit_eq_mod)

lemma unat_shift: "unat (drop_bit n (i :: 'a::len word)) = unat i div 2 ^ n"
  by (subst unat_drop_bit_eq) (simp add: drop_bit_eq_div)

end
