(* ===== verification/FTPM_Bytes.thy ===== *)
theory FTPM_Bytes
  imports FTPM_Prelude
begin

text \<open>
  The byte-level support code: bit vectors (\<^verbatim>\<open>Bits.c\<close>), memory moves, comparison
  and the \<^verbatim>\<open>TPM2B\<close> helpers, and the big-endian conversions (\<^verbatim>\<open>Memory.c\<close>).
  A memory object is a list of bytes and an access outside it is \<open>OUT_OF_BOUNDS\<close>;
  the address space in which \<^verbatim>\<open>MemoryCopy\<close> moves overlapping ranges is a function
  from addresses to bytes.
\<close>

section \<open>Accesses to a memory object\<close>

definition buf_read :: "BYTE list \<Rightarrow> nat \<Rightarrow> nat \<Rightarrow> BYTE list fallible" where
  "buf_read buf off n = (if off + n \<le> length buf then Inr (take n (drop off buf)) else Inl OUT_OF_BOUNDS)"

definition buf_write :: "BYTE list \<Rightarrow> nat \<Rightarrow> BYTE list \<Rightarrow> BYTE list fallible" where
  "buf_write buf off bs =
     (if off + length bs \<le> length buf
      then Inr (take off buf @ bs @ drop (off + length bs) buf) else Inl OUT_OF_BOUNDS)"

lemma buf_write_length: "buf_write buf off bs = Inr buf' \<Longrightarrow> length buf' = length buf"
  by (auto simp: buf_write_def split: if_splits)

lemma buf_read_after_write: "buf_write buf off bs = Inr buf' \<Longrightarrow> buf_read buf' off (length bs) = Inr bs"
  by (auto simp: buf_write_def buf_read_def split: if_splits)

lemma buf_write_before: "buf_write buf off bs = Inr buf' \<Longrightarrow> n \<le> off \<Longrightarrow> take n buf' = take n buf"
  by (auto simp: buf_write_def min_def split: if_splits)

section \<open>Bits.c\<close>

definition TestBit :: "UINT32 \<Rightarrow> BYTE list \<Rightarrow> UINT32 \<Rightarrow> bool fallible" where
  "TestBit bitNum bArray bytesInArray =
     (if bytesInArray > drop_bit 3 bitNum
      then (let k = unat (drop_bit 3 bitNum) in
            if k < length bArray
            then Inr ((bArray ! k) AND (push_bit (unat (bitNum AND 7)) 1) \<noteq> 0)
            else Inl OUT_OF_BOUNDS)
      else Inl FATAL_ERROR_PARAMETER)"

definition SetBit :: "UINT32 \<Rightarrow> BYTE list \<Rightarrow> UINT32 \<Rightarrow> BYTE list fallible" where
  "SetBit bitNum bArray bytesInArray =
     (if bytesInArray > drop_bit 3 bitNum
      then (let k = unat (drop_bit 3 bitNum) in
            if k < length bArray
            then Inr (bArray[k := (bArray ! k) OR (push_bit (unat (bitNum AND 7)) 1)])
            else Inl OUT_OF_BOUNDS)
      else Inl FATAL_ERROR_PARAMETER)"

definition ClearBit :: "UINT32 \<Rightarrow> BYTE list \<Rightarrow> UINT32 \<Rightarrow> BYTE list fallible" where
  "ClearBit bitNum bArray bytesInArray =
     (if bytesInArray > drop_bit 3 bitNum
      then (let k = unat (drop_bit 3 bitNum) in
            if k < length bArray
            then Inr (bArray[k := (bArray ! k) AND NOT (push_bit (unat (bitNum AND 7)) 1)])
            else Inl OUT_OF_BOUNDS)
      else Inl FATAL_ERROR_PARAMETER)"

text \<open>The contract of a bit vector: it stands for a set of bit numbers.\<close>

definition bits_of :: "BYTE list \<Rightarrow> nat set" where
  "bits_of bArray = {k. k < 8 * length bArray \<and> bit (bArray ! (k div 8)) (k mod 8)}"

lemma unat_drop_bit_3: "unat (drop_bit 3 (w :: UINT32)) = unat w div 8"
  by (simp add: drop_bit_eq_div unat_div)

lemma unat_and_7: "unat ((w :: UINT32) AND 7) = unat w mod 8"
proof -
  have "w AND 7 = take_bit 3 w"
    by (simp add: take_bit_eq_mask mask_eq_exp_minus_1)
  then show ?thesis
    by (simp add: take_bit_eq_mod unat_mod)
qed

lemma drop_bit_3_less:
  "(n :: UINT32) > drop_bit 3 b \<longleftrightarrow> unat b div 8 < unat n"
  by (simp add: word_less_nat_alt unat_drop_bit_3)

lemma and_push_bit_1:
  "(x :: BYTE) AND push_bit n 1 = 0 \<longleftrightarrow> \<not> bit x n"
  "(x :: BYTE) AND 2 ^ n = 0 \<longleftrightarrow> \<not> bit x n"
  by (simp_all add: bit_iff_and_push_bit_not_eq_0)

lemma bits_of_update:
  assumes "k < length a"
  shows "bits_of (a[k := x]) =
         {j \<in> bits_of a. j div 8 \<noteq> k} \<union> {j. j div 8 = k \<and> bit x (j mod 8)}"
  using assms by (auto simp: bits_of_def nth_list_update)

lemma div_mod_8_eq: "(j :: nat) div 8 = b div 8 \<Longrightarrow> j mod 8 = b mod 8 \<Longrightarrow> j = b"
  by (metis div_mult_mod_eq)

lemmas bit_vector_simps = drop_bit_3_less unat_drop_bit_3 unat_and_7 Let_def

lemma TestBit_spec:
  assumes "unat bitNum < 8 * unat n" "unat n = length bArray"
  shows "TestBit bitNum bArray n = Inr (unat bitNum \<in> bits_of bArray)"
proof -
  have "unat bitNum div 8 < unat n" using assms by (simp add: less_mult_imp_div_less mult.commute)
  then show ?thesis using assms by (auto simp: TestBit_def bit_vector_simps and_push_bit_1 bits_of_def)
qed

lemma SetBit_spec:
  assumes "unat bitNum < 8 * unat n" "unat n = length bArray"
  shows "\<exists>a. SetBit bitNum bArray n = Inr a \<and> length a = length bArray \<and>
             bits_of a = insert (unat bitNum) (bits_of bArray)"
proof -
  have k: "unat bitNum div 8 < unat n" using assms by (simp add: less_mult_imp_div_less mult.commute)
  have "bits_of (bArray[unat bitNum div 8 := bArray ! (unat bitNum div 8) OR push_bit (unat bitNum mod 8) 1])
      = insert (unat bitNum) (bits_of bArray)"
    using assms k
    by (subst bits_of_update) (auto simp: bits_of_def bit_simps intro: div_mod_8_eq)
  then show ?thesis using k assms by (simp add: SetBit_def bit_vector_simps)
qed

lemma ClearBit_spec:
  assumes "unat bitNum < 8 * unat n" "unat n = length bArray"
  shows "\<exists>a. ClearBit bitNum bArray n = Inr a \<and> length a = length bArray \<and>
             bits_of a = bits_of bArray - {unat bitNum}"
proof -
  have k: "unat bitNum div 8 < unat n" using assms by (simp add: less_mult_imp_div_less mult.commute)
  have "bits_of (bArray[unat bitNum div 8 := bArray ! (unat bitNum div 8) AND NOT (push_bit (unat bitNum mod 8) 1)])
      = bits_of bArray - {unat bitNum}"
    using assms k
    by (subst bits_of_update) (auto simp: bits_of_def bit_simps dest: div_mod_8_eq)
  then show ?thesis using k assms by (simp add: ClearBit_def bit_vector_simps)
qed
section \<open>Memory.c: moves, comparison, TPM2B\<close>

type_synonym address_space = "nat \<Rightarrow> BYTE"

text \<open>The C library's \<^verbatim>\<open>memmove\<close>: the source is read in full before the target changes.\<close>

definition memmove :: "address_space \<Rightarrow> nat \<Rightarrow> nat \<Rightarrow> nat \<Rightarrow> address_space" where
  "memmove m dest src n = (\<lambda>a. if dest \<le> a \<and> a < dest + n then m (src + (a - dest)) else m a)"

definition MemoryCopy :: "address_space \<Rightarrow> nat \<Rightarrow> nat \<Rightarrow> nat \<Rightarrow> address_space" where
  "MemoryCopy m dest src sSize = (if dest \<noteq> src then memmove m dest src sSize else m)"

definition MemorySet :: "address_space \<Rightarrow> nat \<Rightarrow> BYTE \<Rightarrow> nat \<Rightarrow> address_space" where
  "MemorySet m dest value n = (\<lambda>a. if dest \<le> a \<and> a < dest + n then value else m a)"

lemma MemoryCopy_apply:
  "MemoryCopy m dest src n a = (if dest \<le> a \<and> a < dest + n then m (src + (a - dest)) else m a)"
  by (auto simp: MemoryCopy_def memmove_def)

text \<open>
  \<^verbatim>\<open>MemoryEqual\<close> accumulates the differences of all bytes, without an early exit.
\<close>

fun MemoryEqual_loop :: "BYTE list \<Rightarrow> BYTE list \<Rightarrow> nat \<Rightarrow> BYTE \<Rightarrow> BYTE fallible" where
  "MemoryEqual_loop b1 b2 0 equal = Inr equal"
| "MemoryEqual_loop (x # b1) (y # b2) (Suc n) equal = MemoryEqual_loop b1 b2 n (equal OR (x XOR y))"
| "MemoryEqual_loop _ _ (Suc n) equal = Inl OUT_OF_BOUNDS"

definition MemoryEqual :: "BYTE list \<Rightarrow> BYTE list \<Rightarrow> nat \<Rightarrow> bool fallible" where
  "MemoryEqual buffer1 buffer2 n =
     (case MemoryEqual_loop buffer1 buffer2 n 0 of Inl e \<Rightarrow> Inl e | Inr equal \<Rightarrow> Inr (equal = 0))"

record TPM2B =
  b_size :: UINT16
  b_buffer :: "BYTE list"

definition MemoryCopy2B :: "TPM2B option \<Rightarrow> TPM2B option \<Rightarrow> UINT32 \<Rightarrow> (TPM2B \<times> UINT16) fallible" where
  "MemoryCopy2B dest source dSize =
     (case dest of None \<Rightarrow> Inl FATAL_ERROR_PARAMETER
      | Some d \<Rightarrow>
        (case source of None \<Rightarrow> Inr (d\<lparr>b_size := 0\<rparr>, 0)
         | Some s \<Rightarrow>
           if \<not> ucast (b_size s) \<le> dSize then Inl FATAL_ERROR_PARAMETER
           else (case buf_read (b_buffer s) 0 (unat (b_size s)) of Inl e \<Rightarrow> Inl e
                 | Inr bs \<Rightarrow>
                   (case buf_write (b_buffer d) 0 bs of Inl e \<Rightarrow> Inl e
                    | Inr buf \<Rightarrow> Inr (\<lparr>b_size = b_size s, b_buffer = buf\<rparr>, b_size s)))))"

definition MemoryConcat2B :: "TPM2B \<Rightarrow> TPM2B \<Rightarrow> UINT32 \<Rightarrow> TPM2B fallible" where
  "MemoryConcat2B aInOut bIn aMaxSize =
     (if \<not> ucast (b_size bIn) \<le> aMaxSize - ucast (b_size aInOut) then Inl FATAL_ERROR_PARAMETER
      else (case buf_read (b_buffer bIn) 0 (unat (b_size bIn)) of Inl e \<Rightarrow> Inl e
            | Inr bs \<Rightarrow>
              (case buf_write (b_buffer aInOut) (unat (b_size aInOut)) bs of Inl e \<Rightarrow> Inl e
               | Inr buf \<Rightarrow> Inr \<lparr>b_size = b_size aInOut + b_size bIn, b_buffer = buf\<rparr>)))"

definition MemoryEqual2B :: "TPM2B \<Rightarrow> TPM2B \<Rightarrow> bool fallible" where
  "MemoryEqual2B aIn bIn =
     (if b_size aIn \<noteq> b_size bIn then Inr False
      else MemoryEqual (b_buffer aIn) (b_buffer bIn) (unat (b_size aIn)))"

text \<open>
  The length given to \<^verbatim>\<open>MemorySet\<close> is a signed difference converted to
  \<^verbatim>\<open>size_t\<close>: padding to a size below the current one writes outside every object.
\<close>

definition MemoryPad2B :: "TPM2B \<Rightarrow> UINT16 \<Rightarrow> TPM2B fallible" where
  "MemoryPad2B b newSize =
     (if newSize < b_size b then Inl OUT_OF_BOUNDS
      else (case buf_write (b_buffer b) (unat (b_size b)) (replicate (unat newSize - unat (b_size b)) 0) of
              Inl e \<Rightarrow> Inl e
            | Inr buf \<Rightarrow> Inr \<lparr>b_size = newSize, b_buffer = buf\<rparr>))"

text \<open>The octet string a \<^verbatim>\<open>TPM2B\<close> denotes, and its well-formedness for a buffer bound.\<close>

definition b_octets :: "TPM2B \<Rightarrow> BYTE list" where
  "b_octets b = take (unat (b_size b)) (b_buffer b)"

definition b_wf :: "nat \<Rightarrow> TPM2B \<Rightarrow> bool" where
  "b_wf mx b \<longleftrightarrow> unat (b_size b) \<le> mx \<and> mx \<le> length (b_buffer b)"

lemma or_xor_eq_0: "(e :: BYTE) OR (x XOR y) = 0 \<longleftrightarrow> e = 0 \<and> x = y"
  by (auto simp: or_eq_0_iff bit_eq_iff bit_or_iff bit_xor_iff)

lemma MemoryEqual_loop_spec:
  "n \<le> length b1 \<Longrightarrow> n \<le> length b2 \<Longrightarrow>
   \<exists>e. MemoryEqual_loop b1 b2 n equal = Inr e \<and> (e = 0 \<longleftrightarrow> equal = 0 \<and> take n b1 = take n b2)"
  by (induction b1 b2 n equal rule: MemoryEqual_loop.induct) (auto simp: or_xor_eq_0)

lemma MemoryEqual_spec:
  "n \<le> length b1 \<Longrightarrow> n \<le> length b2 \<Longrightarrow> MemoryEqual b1 b2 n = Inr (take n b1 = take n b2)"
  using MemoryEqual_loop_spec [of n b1 b2 0] by (auto simp: MemoryEqual_def)

lemma MemoryEqual2B_spec:
  "b_wf m a \<Longrightarrow> b_wf n b \<Longrightarrow> MemoryEqual2B a b = Inr (b_octets a = b_octets b)"
  by (auto simp: MemoryEqual2B_def b_wf_def b_octets_def MemoryEqual_spec dest: arg_cong [where f = length]
      simp: word_unat_eq_iff)

lemma MemoryCopy2B_spec:
  assumes "b_wf n s" "unat (b_size s) \<le> unat dSize" "unat dSize \<le> length (b_buffer d)"
  shows "\<exists>r. MemoryCopy2B (Some d) (Some s) dSize = Inr (r, b_size s) \<and> b_octets r = b_octets s \<and>
             b_wf (unat dSize) r"
  using assms
  by (auto simp: MemoryCopy2B_def b_wf_def b_octets_def buf_read_def buf_write_def word_le_nat_alt)

lemma MemoryConcat2B_spec:
  assumes "b_wf (unat mx) a" "b_wf n b" "unat (b_size a) + unat (b_size b) \<le> unat mx" "unat mx < 2 ^ 16"
  shows "\<exists>r. MemoryConcat2B a b mx = Inr r \<and> b_octets r = b_octets a @ b_octets b \<and> b_wf (unat mx) r"
proof -
  have sub: "unat (mx - ucast (b_size a)) = unat mx - unat (b_size a)"
    using assms by (subst unat_sub) (simp_all add: word_le_nat_alt)
  have add: "unat (b_size a + b_size b) = unat (b_size a) + unat (b_size b)"
    using assms by (simp add: unat_word_ariths)
  show ?thesis
    using assms
    by (auto simp: MemoryConcat2B_def b_wf_def b_octets_def buf_read_def buf_write_def word_le_nat_alt sub add)
qed

lemma MemoryConcat2B_reject:
  assumes "b_wf (unat mx) a" "unat mx < unat (b_size a) + unat (b_size b)"
  shows "MemoryConcat2B a b mx = Inl FATAL_ERROR_PARAMETER"
proof -
  have "unat (mx - ucast (b_size a)) = unat mx - unat (b_size a)"
    using assms by (subst unat_sub) (simp_all add: word_le_nat_alt b_wf_def)
  moreover have "\<not> unat (b_size b) \<le> unat mx - unat (b_size a)"
    using assms by (auto simp: b_wf_def)
  ultimately show ?thesis by (simp add: MemoryConcat2B_def word_le_nat_alt)
qed

lemma MemoryPad2B_spec:
  assumes "b_wf n b" "b_size b \<le> newSize" "unat newSize \<le> n"
  shows "\<exists>r. MemoryPad2B b newSize = Inr r \<and> b_wf n r \<and>
             b_octets r = b_octets b @ replicate (unat newSize - unat (b_size b)) 0"
  using assms
  by (auto simp: MemoryPad2B_def b_wf_def b_octets_def buf_write_def word_le_nat_alt not_less)

section \<open>Memory.c: big-endian conversions\<close>

definition Uint16ToByteArray :: "UINT16 \<Rightarrow> BYTE list \<Rightarrow> BYTE list" where
  "Uint16ToByteArray i a =
     (let a = a[1 := ucast i]; i = drop_bit 8 i;
          a = a[0 := ucast i] in a)"

definition Uint32ToByteArray :: "UINT32 \<Rightarrow> BYTE list \<Rightarrow> BYTE list" where
  "Uint32ToByteArray i a =
     (let a = a[3 := ucast i]; i = drop_bit 8 i;
          a = a[2 := ucast i]; i = drop_bit 8 i;
          a = a[1 := ucast i]; i = drop_bit 8 i;
          a = a[0 := ucast i] in a)"

definition Uint64ToByteArray :: "UINT64 \<Rightarrow> BYTE list \<Rightarrow> BYTE list" where
  "Uint64ToByteArray i a =
     (let a = a[7 := ucast i]; i = drop_bit 8 i;
          a = a[6 := ucast i]; i = drop_bit 8 i;
          a = a[5 := ucast i]; i = drop_bit 8 i;
          a = a[4 := ucast i]; i = drop_bit 8 i;
          a = a[3 := ucast i]; i = drop_bit 8 i;
          a = a[2 := ucast i]; i = drop_bit 8 i;
          a = a[1 := ucast i]; i = drop_bit 8 i;
          a = a[0 := ucast i] in a)"

definition ByteArrayToUint8 :: "BYTE list \<Rightarrow> UINT8" where
  "ByteArrayToUint8 a = a ! 0"

definition ByteArrayToUint16 :: "BYTE list \<Rightarrow> UINT16" where
  "ByteArrayToUint16 a = push_bit 8 (ucast (a ! 0)) + ucast (a ! 1)"

definition ByteArrayToUint32 :: "BYTE list \<Rightarrow> UINT32" where
  "ByteArrayToUint32 a =
     push_bit 8 (push_bit 8 (push_bit 8 (ucast (a ! 0)) + ucast (a ! 1)) + ucast (a ! 2)) + ucast (a ! 3)"

definition ByteArrayToUint64 :: "BYTE list \<Rightarrow> UINT64" where
  "ByteArrayToUint64 a =
     push_bit 32 (ucast (ByteArrayToUint32 a)) + ucast (ByteArrayToUint32 (drop 4 a))"

text \<open>Both directions, through the value of a big-endian byte string.\<close>

definition be_val :: "BYTE list \<Rightarrow> nat" where
  "be_val bs = foldl (\<lambda>v b. 256 * v + unat b) 0 bs"

lemma be_val_simps [simp]: "be_val [] = 0"
  "be_val (bs @ [b]) = 256 * be_val bs + unat b"
  by (simp_all add: be_val_def)

lemma be_val_lt: "be_val bs < 256 ^ length bs"
proof (induction bs rule: rev_induct)
  case (snoc b bs)
  then show ?case using unat_byte_lt [of b] by simp
qed simp

lemma digit_256_inj: "256 * x + a = 256 * y + b \<Longrightarrow> a < 256 \<Longrightarrow> b < 256 \<Longrightarrow> x = y \<and> a = (b :: nat)"
  by (metis add.commute div_mult_self4 div_less mod_mult_self4 mod_less mult.commute add_0 zero_neq_numeral)

lemma be_val_inj: "length as = length bs \<Longrightarrow> be_val as = be_val bs \<Longrightarrow> as = bs"
proof (induction as arbitrary: bs rule: rev_induct)
  case Nil
  then show ?case by simp
next
  case (snoc a as)
  then obtain b bs' where bs: "bs = bs' @ [b]" by (cases bs rule: rev_cases) auto
  have "256 * be_val as + unat a = 256 * be_val bs' + unat b" using snoc.prems bs by simp
  then have "be_val as = be_val bs' \<and> unat a = unat b"
    by (rule digit_256_inj) (rule unat_byte_lt)+
  then show ?case using snoc bs by (simp add: word_unat_eq_iff)
qed



lemma length_2_conv: "length a = 2 \<longleftrightarrow> (\<exists>x y. a = [x, y])"
  by (auto simp: eval_nat_numeral length_Suc_conv)

lemma length_4_conv: "length a = 4 \<longleftrightarrow> (\<exists>x y z w. a = [x, y, z, w])"
  by (auto simp: eval_nat_numeral length_Suc_conv)

lemma length_8_conv: "length a = 8 \<longleftrightarrow> (\<exists>x y z w p q r s. a = [x, y, z, w, p, q, r, s])"
  by (auto simp: eval_nat_numeral length_Suc_conv)

lemma unat_shift_add:
  "256 * unat (w :: UINT16) + unat (v :: UINT16) < 2 ^ 16 \<Longrightarrow> unat (push_bit 8 w + v) = 256 * unat w + unat v"
  "256 * unat (x :: UINT32) + unat (y :: UINT32) < 2 ^ 32 \<Longrightarrow> unat (push_bit 8 x + y) = 256 * unat x + unat y"
  by (simp_all add: push_bit_eq_mult unat_word_ariths mult.commute)

lemma unat_shift_32_add:
  "2 ^ 32 * unat (w :: UINT64) + unat (v :: UINT64) < 2 ^ 64 \<Longrightarrow> unat (push_bit 32 w + v) = 2 ^ 32 * unat w + unat v"
  by (simp add: push_bit_eq_mult unat_word_ariths mult.commute)

lemma be_val_2: "be_val [a, b] = 256 * unat a + unat b"
  by (simp add: be_val_def)

lemma be_val_4: "be_val [a, b, c, d] = 256 * (256 * (256 * unat a + unat b) + unat c) + unat d"
  by (simp add: be_val_def)

lemma be_val_append: "be_val (as @ bs) = 256 ^ length bs * be_val as + be_val bs"
  by (induction bs rule: rev_induct) (simp_all flip: append_assoc add: algebra_simps)

lemma ByteArrayToUint16_val: "length a = 2 \<Longrightarrow> unat (ByteArrayToUint16 a) = be_val a"
  using be_val_lt [of a]
  by (auto simp: length_2_conv ByteArrayToUint16_def be_val_2 unat_shift_add)

lemma ByteArrayToUint32_val: "length a = 4 \<Longrightarrow> unat (ByteArrayToUint32 a) = be_val a"
  using be_val_lt [of a]
  by (auto simp: length_4_conv ByteArrayToUint32_def be_val_4 unat_shift_add)

lemma ByteArrayToUint64_val: 
  assumes "length a = 8" shows "unat (ByteArrayToUint64 a) = be_val a"
proof -
  have d: "length (drop 4 a) = 4" using assms by simp
  have l: "ByteArrayToUint32 a = ByteArrayToUint32 (take 4 a)" by (simp add: ByteArrayToUint32_def)
  have u: "unat (ByteArrayToUint32 (take 4 a)) = be_val (take 4 a)"
    "unat (ByteArrayToUint32 (drop 4 a)) = be_val (drop 4 a)"
    using assms ByteArrayToUint32_val by simp_all
  have e: "be_val a = 2 ^ 32 * be_val (take 4 a) + be_val (drop 4 a)"
    using be_val_append [of "take 4 a" "drop 4 a"] d by simp
  have "be_val a < 2 ^ 64" using be_val_lt [of a] assms by simp
  then have "2 ^ 32 * unat (ucast (ByteArrayToUint32 (take 4 a)) :: UINT64)
      + unat (ucast (ByteArrayToUint32 (drop 4 a)) :: UINT64) < 2 ^ 64"
    by (simp only: unat_ucast_32_64 u e)
  from unat_shift_32_add [OF this] show ?thesis
    by (simp only: ByteArrayToUint64_def l unat_ucast_32_64 u e)
qed


lemma be_val_8: "be_val [a, b, c, d, e, f, g, h] =
    256 * (256 * (256 * (256 * (256 * (256 * (256 * unat a + unat b) + unat c) + unat d) + unat e) + unat f) + unat g) + unat h"
  by (simp add: be_val_def)

text \<open>One step of the conversion loops: the low byte is stored and the rest is shifted down.\<close>

lemma low_byte_step: "256 * unat (drop_bit 8 w) + unat (ucast (w :: 'a::len word) :: BYTE) = unat w"
  by (simp only: unat_byte_of unat_shift) simp

lemma last_byte: "unat w < 256 \<Longrightarrow> unat (ucast (w :: 'a::len word) :: BYTE) = unat w"
  by (simp add: unat_byte_of)

lemma top_byte_lt:
  "unat (drop_bit 8 (i :: UINT16)) < 256"
  "unat (drop_bit 8 (drop_bit 8 (drop_bit 8 (j :: UINT32)))) < 256"
  "unat (drop_bit 8 (drop_bit 8 (drop_bit 8 (drop_bit 8 (drop_bit 8 (drop_bit 8 (drop_bit 8 (k :: UINT64)))))))) < 256"
  using unat_lt [of i] unat_lt [of j] unat_lt [of k]
  by (simp_all add: unat_shift less_mult_imp_div_less)

lemma be_val_Uint16ToByteArray: "length a = 2 \<Longrightarrow> be_val (Uint16ToByteArray i a) = unat i"
  by (clarsimp simp: length_2_conv Uint16ToByteArray_def Let_def be_val_2
      simp del: drop_bit_drop_bit)
     (simp only: last_byte top_byte_lt low_byte_step)

lemma be_val_Uint32ToByteArray: "length a = 4 \<Longrightarrow> be_val (Uint32ToByteArray i a) = unat i"
  by (clarsimp simp: length_4_conv Uint32ToByteArray_def Let_def be_val_4
      simp del: drop_bit_drop_bit distrib_left_numeral)
     (simp only: last_byte top_byte_lt low_byte_step)

lemma be_val_Uint64ToByteArray: "length a = 8 \<Longrightarrow> be_val (Uint64ToByteArray i a) = unat i"
  by (clarsimp simp: length_8_conv Uint64ToByteArray_def Let_def be_val_8
      simp del: drop_bit_drop_bit distrib_left_numeral)
     (simp only: last_byte top_byte_lt low_byte_step)

lemma length_UintToByteArray [simp]:
  "length (Uint16ToByteArray i a) = length a"
  "length (Uint32ToByteArray j a) = length a"
  "length (Uint64ToByteArray k a) = length a"
  by (simp_all add: Uint16ToByteArray_def Uint32ToByteArray_def Uint64ToByteArray_def Let_def)

lemmas be_val_conversions =
  ByteArrayToUint16_val ByteArrayToUint32_val ByteArrayToUint64_val
  be_val_Uint16ToByteArray be_val_Uint32ToByteArray be_val_Uint64ToByteArray

end
