(* ===== verification/FTPM_Handle.thy ===== *)
theory FTPM_Handle
  imports FTPM_Bytes
begin

text \<open>
  Handles (\<^verbatim>\<open>Handle.c\<close>): the handle type octet, the enumeration of the permanent
  handles, and the capability lists over them.  The interface \<open>cap_scan\<close> is the
  contract of every capability list of the firmware: walk the candidates upward, collect
  the ones that exist until the list is full, and say whether there are more.
\<close>

section \<open>Handle constants (TpmTypes.h)\<close>

abbreviation TPM_HT_PCR :: UINT8 where "TPM_HT_PCR \<equiv> 0x00"
abbreviation TPM_HT_NV_INDEX :: UINT8 where "TPM_HT_NV_INDEX \<equiv> 0x01"
abbreviation TPM_HT_HMAC_SESSION :: UINT8 where "TPM_HT_HMAC_SESSION \<equiv> 0x02"
abbreviation TPM_HT_LOADED_SESSION :: UINT8 where "TPM_HT_LOADED_SESSION \<equiv> 0x02"
abbreviation TPM_HT_POLICY_SESSION :: UINT8 where "TPM_HT_POLICY_SESSION \<equiv> 0x03"
abbreviation TPM_HT_SAVED_SESSION :: UINT8 where "TPM_HT_SAVED_SESSION \<equiv> 0x03"
abbreviation TPM_HT_PERMANENT :: UINT8 where "TPM_HT_PERMANENT \<equiv> 0x40"
abbreviation TPM_HT_TRANSIENT :: UINT8 where "TPM_HT_TRANSIENT \<equiv> 0x80"
abbreviation TPM_HT_PERSISTENT :: UINT8 where "TPM_HT_PERSISTENT \<equiv> 0x81"

abbreviation HR_HANDLE_MASK :: UINT32 where "HR_HANDLE_MASK \<equiv> 0x00FFFFFF"
abbreviation HR_RANGE_MASK :: UINT32 where "HR_RANGE_MASK \<equiv> 0xFF000000"

abbreviation TPM_RH_FIRST :: TPM_HANDLE where "TPM_RH_FIRST \<equiv> 0x40000000"
abbreviation TPM_RH_OWNER :: TPM_HANDLE where "TPM_RH_OWNER \<equiv> 0x40000001"
abbreviation TPM_RH_NULL :: TPM_HANDLE where "TPM_RH_NULL \<equiv> 0x40000007"
abbreviation TPM_RS_PW :: TPM_HANDLE where "TPM_RS_PW \<equiv> 0x40000009"
abbreviation TPM_RH_LOCKOUT :: TPM_HANDLE where "TPM_RH_LOCKOUT \<equiv> 0x4000000A"
abbreviation TPM_RH_ENDORSEMENT :: TPM_HANDLE where "TPM_RH_ENDORSEMENT \<equiv> 0x4000000B"
abbreviation TPM_RH_PLATFORM :: TPM_HANDLE where "TPM_RH_PLATFORM \<equiv> 0x4000000C"
abbreviation TPM_RH_PLATFORM_NV :: TPM_HANDLE where "TPM_RH_PLATFORM_NV \<equiv> 0x4000000D"
abbreviation TPM_RH_FW_OWNER :: TPM_HANDLE where "TPM_RH_FW_OWNER \<equiv> 0x40000140"
abbreviation TPM_RH_FW_ENDORSEMENT :: TPM_HANDLE where "TPM_RH_FW_ENDORSEMENT \<equiv> 0x40000141"
abbreviation TPM_RH_FW_PLATFORM :: TPM_HANDLE where "TPM_RH_FW_PLATFORM \<equiv> 0x40000142"
abbreviation TPM_RH_FW_NULL :: TPM_HANDLE where "TPM_RH_FW_NULL \<equiv> 0x40000143"
abbreviation SVN_OWNER_FIRST :: TPM_HANDLE where "SVN_OWNER_FIRST \<equiv> 0x40010000"
abbreviation SVN_OWNER_LAST :: TPM_HANDLE where "SVN_OWNER_LAST \<equiv> 0x4001FFFF"
abbreviation SVN_ENDORSEMENT_FIRST :: TPM_HANDLE where "SVN_ENDORSEMENT_FIRST \<equiv> 0x40020000"
abbreviation SVN_ENDORSEMENT_LAST :: TPM_HANDLE where "SVN_ENDORSEMENT_LAST \<equiv> 0x4002FFFF"
abbreviation SVN_PLATFORM_FIRST :: TPM_HANDLE where "SVN_PLATFORM_FIRST \<equiv> 0x40030000"
abbreviation SVN_PLATFORM_LAST :: TPM_HANDLE where "SVN_PLATFORM_LAST \<equiv> 0x4003FFFF"
abbreviation SVN_NULL_FIRST :: TPM_HANDLE where "SVN_NULL_FIRST \<equiv> 0x40040000"
abbreviation TPM_RH_LAST :: TPM_HANDLE where "TPM_RH_LAST \<equiv> 0x4004FFFF"

abbreviation HMAC_SESSION_FIRST :: TPM_HANDLE where "HMAC_SESSION_FIRST \<equiv> 0x02000000"
abbreviation POLICY_SESSION_FIRST :: TPM_HANDLE where "POLICY_SESSION_FIRST \<equiv> 0x03000000"
abbreviation TRANSIENT_FIRST :: TPM_HANDLE where "TRANSIENT_FIRST \<equiv> 0x80000000"
abbreviation PERSISTENT_FIRST :: TPM_HANDLE where "PERSISTENT_FIRST \<equiv> 0x81000000"
abbreviation PLATFORM_PERSISTENT :: TPM_HANDLE where "PLATFORM_PERSISTENT \<equiv> 0x81800000"
abbreviation PERSISTENT_LAST :: TPM_HANDLE where "PERSISTENT_LAST \<equiv> 0x81FFFFFF"

abbreviation TPM_ALG_ERROR :: TPM_ALG_ID where "TPM_ALG_ERROR \<equiv> 0x0000"
abbreviation TPM_ALG_SHA1 :: TPM_ALG_ID where "TPM_ALG_SHA1 \<equiv> 0x0004"
abbreviation TPM_ALG_SHA256 :: TPM_ALG_ID where "TPM_ALG_SHA256 \<equiv> 0x000B"
abbreviation TPM_ALG_SHA384 :: TPM_ALG_ID where "TPM_ALG_SHA384 \<equiv> 0x000C"
abbreviation TPM_ALG_SHA512 :: TPM_ALG_ID where "TPM_ALG_SHA512 \<equiv> 0x000D"
abbreviation TPM_ALG_NULL :: TPM_ALG_ID where "TPM_ALG_NULL \<equiv> 0x0010"

text \<open>
  \<^verbatim>\<open>MAX_CAP_DATA\<close> is 1016 octets; a handle takes 4 of them and a tagged policy 72
  (a handle, a hash identifier and a 64-octet digest, padded).
\<close>

abbreviation MAX_CAP_HANDLES :: nat where "MAX_CAP_HANDLES \<equiv> 254"
abbreviation MAX_TAGGED_POLICIES :: nat where "MAX_TAGGED_POLICIES \<equiv> 14"

section \<open>Operations of Handle.c\<close>

definition HandleGetType :: "TPM_HANDLE \<Rightarrow> UINT8" where
  "HandleGetType handle = ucast (drop_bit 24 (handle AND HR_RANGE_MASK))"

text \<open>The gaps that one iteration of the scan steps over, in the order of the code.\<close>

definition NextPermanentHandle_skip :: "TPM_HANDLE \<Rightarrow> TPM_HANDLE" where
  "NextPermanentHandle_skip inHandle =
     (let inHandle = (if inHandle > TPM_RH_FW_NULL \<and> inHandle < SVN_OWNER_FIRST then SVN_OWNER_FIRST else inHandle);
          inHandle = (if inHandle > SVN_OWNER_FIRST \<and> inHandle \<le> SVN_OWNER_LAST then SVN_ENDORSEMENT_FIRST else inHandle);
          inHandle = (if inHandle > SVN_ENDORSEMENT_FIRST \<and> inHandle \<le> SVN_ENDORSEMENT_LAST then SVN_PLATFORM_FIRST else inHandle);
          inHandle = (if inHandle > SVN_PLATFORM_FIRST \<and> inHandle \<le> SVN_PLATFORM_LAST then SVN_NULL_FIRST else inHandle)
      in if inHandle > SVN_NULL_FIRST then TPM_RH_LAST else inHandle)"

definition permanent_cases :: "TPM_HANDLE list" where
  "permanent_cases =
     [TPM_RH_OWNER, TPM_RH_NULL, TPM_RS_PW, TPM_RH_LOCKOUT, TPM_RH_ENDORSEMENT, TPM_RH_PLATFORM,
      TPM_RH_PLATFORM_NV,
      TPM_RH_FW_OWNER, TPM_RH_FW_ENDORSEMENT, TPM_RH_FW_PLATFORM, TPM_RH_FW_NULL,
      SVN_OWNER_FIRST, SVN_ENDORSEMENT_FIRST, SVN_PLATFORM_FIRST, SVN_NULL_FIRST]"

lemma skip_unat:
  "unat (NextPermanentHandle_skip h) =
    (let n = unat h in
     if 0x40000143 < n \<and> n < 0x40010000 then 0x40010000
     else if 0x40010000 < n \<and> n \<le> 0x4001FFFF then 0x40020000
     else if 0x40020000 < n \<and> n \<le> 0x4002FFFF then 0x40030000
     else if 0x40030000 < n \<and> n \<le> 0x4003FFFF then 0x40040000
     else if 0x40040000 < n then 0x4004FFFF else n)"
  by (simp add: NextPermanentHandle_skip_def Let_def word_less_nat_alt word_le_nat_alt)

lemma skip_ge: "unat h \<le> 0x4004FFFF \<Longrightarrow> unat h \<le> unat (NextPermanentHandle_skip h) \<and> unat (NextPermanentHandle_skip h) \<le> 0x4004FFFF"
  by (auto simp: skip_unat Let_def)

lemma unat_plus_1: "unat (h :: UINT32) \<le> 0x4004FFFF \<Longrightarrow> unat (h + 1) = unat h + 1"
  by (simp add: unat_word_ariths)

function NextPermanentHandle_loop :: "TPM_HANDLE \<Rightarrow> TPM_HANDLE" where
  "NextPermanentHandle_loop inHandle =
     (if \<not> inHandle \<le> TPM_RH_LAST then 0
      else if NextPermanentHandle_skip inHandle \<in> set permanent_cases
           then NextPermanentHandle_skip inHandle
           else NextPermanentHandle_loop (NextPermanentHandle_skip inHandle + 1))"
  by auto
termination
proof (relation "measure (\<lambda>h. 0x40050000 - unat h)")
  fix h :: TPM_HANDLE
  assume "\<not> \<not> h \<le> TPM_RH_LAST"
  then have "unat h \<le> 0x4004FFFF" by (simp add: word_le_nat_alt)
  then show "(NextPermanentHandle_skip h + 1, h) \<in> measure (\<lambda>h. 0x40050000 - unat h)"
    using skip_ge [of h] unat_plus_1 [of "NextPermanentHandle_skip h"] by (simp, linarith)
qed simp

declare NextPermanentHandle_loop.simps [simp del]

definition NextPermanentHandle :: "TPM_HANDLE \<Rightarrow> TPM_HANDLE" where
  "NextPermanentHandle inHandle =
     NextPermanentHandle_loop (if inHandle < TPM_RH_FIRST then TPM_RH_FIRST else inHandle)"

text \<open>
  The loops \<^verbatim>\<open>for(i = NextPermanentHandle(handle); i != 0; i = NextPermanentHandle(i + 1))\<close>
  run on fuel; one more than the number of implemented handles is enough, as
  \<open>PermanentCapGetHandles_spec\<close> and \<open>PermanentHandleGetPolicy_spec\<close> show.
\<close>

abbreviation permanent_fuel :: nat where "permanent_fuel \<equiv> 16"

fun PermanentCapGetHandles_loop ::
  "nat \<Rightarrow> nat \<times> TPM_HANDLE \<Rightarrow> TPM_HANDLE list \<Rightarrow> (TPM_HANDLE list \<times> bool) fallible" where
  "PermanentCapGetHandles_loop count (0, i) handleList = Inl NO_FUEL"
| "PermanentCapGetHandles_loop count (Suc fuel, i) handleList =
     (if i = 0 then Inr (handleList, False)
      else if length handleList < count
           then PermanentCapGetHandles_loop count (fuel, NextPermanentHandle (i + 1)) (handleList @ [i])
           else Inr (handleList, True))"

definition PermanentCapGetHandles :: "TPM_HANDLE \<Rightarrow> UINT32 \<Rightarrow> (TPM_HANDLE list \<times> bool) fallible" where
  "PermanentCapGetHandles handle count =
     (if HandleGetType handle \<noteq> TPM_HT_PERMANENT then Inl FATAL_ERROR_PARAMETER
      else PermanentCapGetHandles_loop (min (unat count) MAX_CAP_HANDLES)
             (permanent_fuel, NextPermanentHandle handle) [])"

fun PermanentCapGetOneHandle_loop :: "nat \<Rightarrow> TPM_HANDLE \<Rightarrow> TPM_HANDLE \<Rightarrow> bool fallible" where
  "PermanentCapGetOneHandle_loop 0 i handle = Inl NO_FUEL"
| "PermanentCapGetOneHandle_loop (Suc fuel) i handle =
     (if i = 0 then Inr False
      else if i = handle then Inr True
      else PermanentCapGetOneHandle_loop fuel (NextPermanentHandle (i + 1)) handle)"

definition PermanentCapGetOneHandle :: "TPM_HANDLE \<Rightarrow> bool fallible" where
  "PermanentCapGetOneHandle handle =
     (if HandleGetType handle \<noteq> TPM_HT_PERMANENT then Inl FATAL_ERROR_PARAMETER
      else PermanentCapGetOneHandle_loop permanent_fuel (NextPermanentHandle handle) handle)"

text \<open>
  \<^verbatim>\<open>EntityGetAuthPolicy\<close> is an argument here: it yields the hash algorithm and the
  policy digest of an entity, \<^verbatim>\<open>TPM_ALG_ERROR\<close> when the entity has no policy.
\<close>

record TPMS_TAGGED_POLICY =
  tp_handle :: TPM_HANDLE
  tp_hashAlg :: TPM_ALG_ID
  tp_digest :: "BYTE list"

fun PermanentHandleGetPolicy_loop ::
  "(TPM_HANDLE \<Rightarrow> TPM_ALG_ID \<times> BYTE list) \<Rightarrow> nat \<Rightarrow> nat \<times> TPM_HANDLE \<Rightarrow>
   TPMS_TAGGED_POLICY list \<Rightarrow> (TPMS_TAGGED_POLICY list \<times> bool) fallible" where
  "PermanentHandleGetPolicy_loop getPolicy count (0, handle) policyList = Inl NO_FUEL"
| "PermanentHandleGetPolicy_loop getPolicy count (Suc fuel, handle) policyList =
     (if handle = 0 then Inr (policyList, False)
      else if fst (getPolicy handle) = TPM_ALG_ERROR
           then PermanentHandleGetPolicy_loop getPolicy count (fuel, NextPermanentHandle (handle + 1)) policyList
      else if length policyList < count
           then PermanentHandleGetPolicy_loop getPolicy count (fuel, NextPermanentHandle (handle + 1))
                  (policyList @ [\<lparr>tp_handle = handle, tp_hashAlg = fst (getPolicy handle),
                                  tp_digest = snd (getPolicy handle)\<rparr>])
      else Inr (policyList, True))"

definition PermanentHandleGetPolicy ::
  "(TPM_HANDLE \<Rightarrow> TPM_ALG_ID \<times> BYTE list) \<Rightarrow> TPM_HANDLE \<Rightarrow> UINT32 \<Rightarrow>
   (TPMS_TAGGED_POLICY list \<times> bool) fallible" where
  "PermanentHandleGetPolicy getPolicy handle count =
     (if HandleGetType handle \<noteq> TPM_HT_PERMANENT then Inl FATAL_ERROR_PARAMETER
      else PermanentHandleGetPolicy_loop getPolicy (min (unat count) MAX_TAGGED_POLICIES)
             (permanent_fuel, NextPermanentHandle handle) [])"

definition PermanentHandleGetOnePolicy ::
  "(TPM_HANDLE \<Rightarrow> TPM_ALG_ID \<times> BYTE list) \<Rightarrow> TPM_HANDLE \<Rightarrow> TPMS_TAGGED_POLICY option fallible" where
  "PermanentHandleGetOnePolicy getPolicy handle =
     (if HandleGetType handle \<noteq> TPM_HT_PERMANENT then Inl FATAL_ERROR_PARAMETER
      else if NextPermanentHandle handle = handle
           then if fst (getPolicy handle) = TPM_ALG_ERROR then Inr None
                else Inr (Some \<lparr>tp_handle = handle, tp_hashAlg = fst (getPolicy handle),
                                tp_digest = snd (getPolicy handle)\<rparr>)
           else Inr None)"

section \<open>The scan finds the next implemented handle\<close>

lemma skip_gap:
  assumes "unat h \<le> 0x4004FFFF" "p \<in> set permanent_cases"
  shows "NextPermanentHandle_skip h \<le> p \<longleftrightarrow> h \<le> p"
  using assms(2,1)
  by (simp only: permanent_cases_def set_simps insert_iff empty_iff simp_thms, elim disjE)
     (simp_all add: word_le_nat_alt skip_unat Let_def)

lemma step_over:
  assumes "unat h \<le> 0x4004FFFF" "h \<notin> set permanent_cases" "p \<in> set permanent_cases"
  shows "h + 1 \<le> p \<longleftrightarrow> h \<le> p"
proof -
  have "h \<noteq> p" using assms by blast
  then show ?thesis using unat_plus_1 [OF assms(1)]
    by (simp add: word_le_nat_alt word_unat_eq_iff) linarith
qed

lemma filter_from_member:
  assumes "q \<in> set permanent_cases"
  shows "\<exists>ps. filter (\<lambda>p. q \<le> p) permanent_cases = q # ps"
  using assms
  by (simp only: permanent_cases_def set_simps insert_iff empty_iff simp_thms, elim disjE) simp_all

definition first_or_0 :: "TPM_HANDLE list \<Rightarrow> TPM_HANDLE" where
  "first_or_0 ps = (case ps of [] \<Rightarrow> 0 | p # _ \<Rightarrow> p)"

lemma NextPermanentHandle_loop_spec:
  "NextPermanentHandle_loop h = first_or_0 (filter (\<lambda>p. h \<le> p) permanent_cases)"
proof (induction h rule: NextPermanentHandle_loop.induct)
  case (1 h)
  let ?s = "NextPermanentHandle_skip h"
  show ?case
  proof (cases "h \<le> TPM_RH_LAST")
    case False
    then have "filter (\<lambda>p. h \<le> p) permanent_cases = []"
      by (auto simp: filter_empty_conv permanent_cases_def word_le_nat_alt)
    then show ?thesis using False by (simp add: first_or_0_def NextPermanentHandle_loop.simps [of h])
  next
    case True
    then have le: "unat h \<le> 0x4004FFFF" by (simp add: word_le_nat_alt)
    have f: "filter (\<lambda>p. h \<le> p) permanent_cases = filter (\<lambda>p. ?s \<le> p) permanent_cases"
      by (rule filter_cong) (simp_all add: skip_gap [OF le])
    show ?thesis
    proof (cases "?s \<in> set permanent_cases")
      case True
      then show ?thesis using filter_from_member [OF True] f \<open>h \<le> TPM_RH_LAST\<close>
        by (auto simp: first_or_0_def NextPermanentHandle_loop.simps [of h])
    next
      case False
      have "filter (\<lambda>p. ?s \<le> p) permanent_cases = filter (\<lambda>p. ?s + 1 \<le> p) permanent_cases"
        using skip_ge [OF le] by (intro filter_cong) (simp_all add: step_over [OF _ False])
      then show ?thesis using 1 True False f by (simp add: NextPermanentHandle_loop.simps [of h])
    qed
  qed
qed

section \<open>The contract of a capability list\<close>

text \<open>
  \<open>rest s i\<close> are the candidates the loop still visits from position \<open>i\<close> on, and
  \<open>item s x\<close> is the entry candidate \<open>x\<close> contributes, if any.  A loop that
  appends each entry while the list has room, and stops with "more" when an entry is left
  over, returns the first \<open>c\<close> entries and says whether any remain.
\<close>

locale cap_scan =
  fixes ok :: "'s \<Rightarrow> 'i \<Rightarrow> bool"
    and rest :: "'s \<Rightarrow> 'i \<Rightarrow> 'x list"
    and item :: "'s \<Rightarrow> 'x \<Rightarrow> 'h option"
    and loop :: "'s \<Rightarrow> nat \<Rightarrow> 'i \<Rightarrow> 'h list \<Rightarrow> ('h list \<times> bool) fallible"
  assumes scan_end: "ok s i \<Longrightarrow> rest s i = [] \<Longrightarrow> loop s c i acc = Inr (acc, False)"
    and scan_step: "ok s i \<Longrightarrow> rest s i = x # xs \<Longrightarrow>
      \<exists>j. ok s j \<and> rest s j = xs \<and>
        loop s c i acc =
          (case item s x of None \<Rightarrow> loop s c j acc
           | Some h \<Rightarrow> if length acc < c then loop s c j (acc @ [h]) else Inr (acc, True))"
begin

lemma collects_from:
  "ok s i \<Longrightarrow> length acc \<le> c \<Longrightarrow> List.map_filter (item s) (rest s i) = hs \<Longrightarrow>
   loop s c i acc = Inr (acc @ take (c - length acc) hs, c < length acc + length hs)"
proof (induction "rest s i" arbitrary: i acc hs)
  case Nil
  then show ?case using scan_end [of s i c acc] by (auto simp: map_filter_simps)
next
  case (Cons x xs)
  obtain j where j: "ok s j" "rest s j = xs"
    "loop s c i acc =
       (case item s x of None \<Rightarrow> loop s c j acc
        | Some h \<Rightarrow> if length acc < c then loop s c j (acc @ [h]) else Inr (acc, True))"
    using scan_step [OF Cons.prems(1) Cons.hyps(2) [symmetric]] by blast
  note IH = Cons.hyps(1) [OF j(2) [symmetric] j(1)]
  show ?case
  proof (cases "item s x")
    case None
    then show ?thesis using IH [of acc hs] j Cons.prems Cons.hyps(2) [symmetric] by (simp add: map_filter_simps)
  next
    case (Some h)
    then obtain gs where gs: "hs = h # gs" "List.map_filter (item s) (rest s j) = gs"
      using Cons.prems(3) Cons.hyps(2) [symmetric] j(2) by (auto simp: map_filter_simps)
    show ?thesis
    proof (cases "length acc < c")
      case True
      then have "take (c - length acc) (h # gs) = h # take (c - Suc (length acc)) gs"
        by (simp add: take_Cons')
      then show ?thesis using IH [of "acc @ [h]" gs] j Some True gs by simp
    next
      case False
      then show ?thesis using j Some Cons.prems(2) gs by simp
    qed
  qed
qed

lemma collects:
  "ok s i \<Longrightarrow> loop s c i [] =
     (let hs = List.map_filter (item s) (rest s i) in Inr (take c hs, c < length hs))"
  using collects_from [of s i "[]" c] by (simp add: Let_def)

end

text \<open>A loop over an index range with a test per index is such a list.\<close>

locale index_scan =
  fixes good :: "'s \<Rightarrow> bool"
    and bound :: nat
    and entry :: "'s \<Rightarrow> nat \<Rightarrow> 'h option"
    and loop :: "'s \<Rightarrow> nat \<Rightarrow> nat \<Rightarrow> 'h list \<Rightarrow> ('h list \<times> bool) fallible"
  assumes index_end: "good s \<Longrightarrow> bound \<le> i \<Longrightarrow> loop s c i acc = Inr (acc, False)"
    and index_step: "good s \<Longrightarrow> i < bound \<Longrightarrow>
      loop s c i acc =
        (case entry s i of None \<Rightarrow> loop s c (Suc i) acc
         | Some h \<Rightarrow> if length acc < c then loop s c (Suc i) (acc @ [h]) else Inr (acc, True))"

sublocale index_scan \<subseteq> cap_scan "\<lambda>s i. good s" "\<lambda>s i. [i..<bound]" entry loop
proof
  fix s i c and acc :: "'h list"
  assume "good s" "[i..<bound] = []"
  then show "loop s c i acc = Inr (acc, False)" using index_end [of s i c acc] by auto
next
  fix s i c x xs and acc :: "'h list"
  assume "good s" "[i..<bound] = x # xs"
  then show "\<exists>j. good s \<and> [j..<bound] = xs \<and>
      loop s c i acc =
        (case entry s x of None \<Rightarrow> loop s c j acc
         | Some h \<Rightarrow> if length acc < c then loop s c j (acc @ [h]) else Inr (acc, True))"
    using index_step [of s i c acc] by (auto simp: upt_eq_Cons_conv)
qed

section \<open>The lists of permanent handles\<close>

lemma filter_above_head:
  fixes xs :: "'a::linorder list"
  shows "sorted_wrt (<) xs \<Longrightarrow> filter (\<lambda>p. h \<le> p) xs = q # ps \<Longrightarrow> filter (\<lambda>p. q < p) xs = ps"
proof (induction xs)
  case (Cons x xs)
  show ?case
  proof (cases "h \<le> x")
    case True
    then have "\<forall>p \<in> set xs. h \<le> p" using Cons.prems by auto
    then show ?thesis using Cons.prems True by (auto simp: filter_id_conv)
  next
    case False
    then have f: "filter (\<lambda>p. h \<le> p) xs = q # ps" using Cons.prems by simp
    then have "q \<in> set xs" by (metis list.set_intros(1) filter_is_subset subsetD)
    then show ?thesis using Cons.IH [OF _ f] Cons.prems by (auto dest: order.asym)
  qed
qed simp

lemma permanent_cases_sorted: "sorted_wrt (<) permanent_cases"
  by (simp add: permanent_cases_def)

lemma permanent_cases_range: "p \<in> set permanent_cases \<Longrightarrow> p \<noteq> 0 \<and> unat p \<le> 0x4004FFFF \<and> TPM_RH_FIRST \<le> p"
  by (simp only: permanent_cases_def set_simps insert_iff empty_iff simp_thms, elim disjE) simp_all

definition permanent_from :: "TPM_HANDLE \<Rightarrow> TPM_HANDLE list" where
  "permanent_from h = filter (\<lambda>p. h \<le> p) permanent_cases"

lemma NextPermanentHandle_eq: "NextPermanentHandle h = first_or_0 (permanent_from h)"
proof (cases "h < TPM_RH_FIRST")
  case True
  then have "permanent_from h = permanent_from TPM_RH_FIRST"
    unfolding permanent_from_def
    by (intro filter_cong) (auto dest!: permanent_cases_range elim: order.strict_trans2 [THEN order.strict_implies_order])
  then show ?thesis using True by (simp add: NextPermanentHandle_def NextPermanentHandle_loop_spec permanent_from_def)
qed (simp add: NextPermanentHandle_def NextPermanentHandle_loop_spec permanent_from_def)

lemma permanent_from_next:
  assumes "permanent_from h = q # ps"
  shows "q \<noteq> 0" "h \<le> q" "permanent_from (q + 1) = ps"
proof -
  have q: "q \<in> set (permanent_from h)" using assms by simp
  then show "q \<noteq> 0" "h \<le> q" using permanent_cases_range by (auto simp: permanent_from_def)
  have "unat q \<le> 0x4004FFFF" using q permanent_cases_range by (auto simp: permanent_from_def)
  then have "(\<lambda>p. q + 1 \<le> p) = (\<lambda>p. q < p)"
    using unat_plus_1 [of q] by (auto simp: fun_eq_iff word_le_nat_alt word_less_nat_alt)
  then show "permanent_from (q + 1) = ps"
    using filter_above_head [OF permanent_cases_sorted] assms by (simp add: permanent_from_def)
qed

lemma length_permanent_from: "length (permanent_from h) < permanent_fuel"
  using length_filter_le [of "\<lambda>p. h \<le> p" permanent_cases]
  by (simp add: permanent_from_def permanent_cases_def del: filter.simps)

text \<open>A position of the loops: the fuel left, and the head of what is left to report.\<close>

definition permanent_pos :: "nat \<times> TPM_HANDLE \<Rightarrow> bool" where
  "permanent_pos fi \<longleftrightarrow> (\<exists>h. snd fi = first_or_0 (permanent_from h) \<and> length (permanent_from h) < fst fi)"

definition permanent_rest :: "nat \<times> TPM_HANDLE \<Rightarrow> TPM_HANDLE list" where
  "permanent_rest fi = (if snd fi = 0 then [] else permanent_from (snd fi))"

lemma permanent_rest_first:
  "permanent_rest (f, first_or_0 (permanent_from h)) = permanent_from h"
proof (cases "permanent_from h")
  case (Cons q ps)
  have "q \<in> set permanent_cases" using Cons by (metis list.set_intros(1) filter_is_subset subsetD permanent_from_def)
  then obtain rs where "permanent_from q = q # rs" using filter_from_member by (auto simp: permanent_from_def)
  then show ?thesis
    using Cons permanent_from_next(1,3) [OF Cons] permanent_from_next(3) [of q q rs]
    by (simp add: permanent_rest_def first_or_0_def)
qed (simp add: permanent_rest_def first_or_0_def)


lemma permanent_pos_start: "permanent_pos (permanent_fuel, NextPermanentHandle h)"
  using length_permanent_from by (auto simp: permanent_pos_def NextPermanentHandle_eq)

lemma permanent_pos_step:
  assumes "permanent_pos fi" "permanent_rest fi = h # hs"
  obtains f where "fi = (Suc f, h)" "h \<noteq> 0" "permanent_pos (f, NextPermanentHandle (h + 1))"
    "permanent_rest (f, NextPermanentHandle (h + 1)) = hs"
proof -
  obtain g where g: "snd fi = first_or_0 (permanent_from g)" "length (permanent_from g) < fst fi"
    using assms(1) by (auto simp: permanent_pos_def)
  then have p: "permanent_from g = h # hs"
    using assms(2) permanent_rest_first [of "fst fi" g] by (metis prod.collapse)
  moreover obtain f where "fst fi = Suc f" using g(2) by (cases "fst fi") auto
  moreover have "permanent_from (h + 1) = hs" by (rule permanent_from_next(3) [OF p])
  ultimately show ?thesis
    using that [of f] g permanent_from_next(1) [OF p] permanent_rest_first [of f "h + 1"]
    by (auto simp: permanent_pos_def NextPermanentHandle_eq first_or_0_def prod_eq_iff)
qed

lemma permanent_pos_end:
  assumes "permanent_pos fi" "permanent_rest fi = []"
  obtains f where "fi = (Suc f, 0)"
proof -
  obtain g where g: "snd fi = first_or_0 (permanent_from g)" "length (permanent_from g) < fst fi"
    using assms(1) by (auto simp: permanent_pos_def)
  then have "permanent_from g = []"
    using assms(2) permanent_rest_first [of "fst fi" g] by (metis prod.collapse)
  then show ?thesis using that g by (cases fi; cases "fst fi") (auto simp: first_or_0_def)
qed

interpretation permanent_list:
  cap_scan "\<lambda>(_ :: unit). permanent_pos" "\<lambda>_. permanent_rest" "\<lambda>_. Some" "\<lambda>_. PermanentCapGetHandles_loop"
proof
  fix fi c and acc :: "TPM_HANDLE list"
  assume "permanent_pos fi" "permanent_rest fi = []"
  then show "PermanentCapGetHandles_loop c fi acc = Inr (acc, False)"
    using permanent_pos_end [of fi] by (metis PermanentCapGetHandles_loop.simps(2))
next
  fix fi c x xs and acc :: "TPM_HANDLE list"
  assume "permanent_pos fi" "permanent_rest fi = x # xs"
  then obtain f where "fi = (Suc f, x)" "x \<noteq> 0" "permanent_pos (f, NextPermanentHandle (x + 1))"
    "permanent_rest (f, NextPermanentHandle (x + 1)) = xs" by (rule permanent_pos_step)
  then show "\<exists>j. permanent_pos j \<and> permanent_rest j = xs \<and>
      PermanentCapGetHandles_loop c fi acc =
        (case Some x of None \<Rightarrow> PermanentCapGetHandles_loop c j acc
         | Some h \<Rightarrow> if length acc < c then PermanentCapGetHandles_loop c j (acc @ [h]) else Inr (acc, True))"
    by (intro exI [of _ "(f, NextPermanentHandle (x + 1))"]) simp
qed

definition tagged_policy :: "(TPM_HANDLE \<Rightarrow> TPM_ALG_ID \<times> BYTE list) \<Rightarrow> TPM_HANDLE \<Rightarrow> TPMS_TAGGED_POLICY option" where
  "tagged_policy getPolicy h =
     (if fst (getPolicy h) = TPM_ALG_ERROR then None
      else Some \<lparr>tp_handle = h, tp_hashAlg = fst (getPolicy h), tp_digest = snd (getPolicy h)\<rparr>)"

interpretation policy_list:
  cap_scan "\<lambda>_. permanent_pos" "\<lambda>_. permanent_rest" tagged_policy PermanentHandleGetPolicy_loop
proof
  fix g fi c and acc :: "TPMS_TAGGED_POLICY list"
  assume "permanent_pos fi" "permanent_rest fi = []"
  then show "PermanentHandleGetPolicy_loop g c fi acc = Inr (acc, False)"
    using permanent_pos_end [of fi] by (metis PermanentHandleGetPolicy_loop.simps(2))
next
  fix g fi c x xs and acc :: "TPMS_TAGGED_POLICY list"
  assume "permanent_pos fi" "permanent_rest fi = x # xs"
  then obtain f where "fi = (Suc f, x)" "x \<noteq> 0" "permanent_pos (f, NextPermanentHandle (x + 1))"
    "permanent_rest (f, NextPermanentHandle (x + 1)) = xs" by (rule permanent_pos_step)
  then show "\<exists>j. permanent_pos j \<and> permanent_rest j = xs \<and>
      PermanentHandleGetPolicy_loop g c fi acc =
        (case tagged_policy g x of None \<Rightarrow> PermanentHandleGetPolicy_loop g c j acc
         | Some h \<Rightarrow> if length acc < c then PermanentHandleGetPolicy_loop g c j (acc @ [h]) else Inr (acc, True))"
    by (intro exI [of _ "(f, NextPermanentHandle (x + 1))"]) (simp add: tagged_policy_def)
qed

lemma map_filter_Some: "List.map_filter Some xs = xs"
  by (induction xs) (simp_all add: map_filter_simps)

lemma PermanentCapGetHandles_spec:
  assumes "HandleGetType h = TPM_HT_PERMANENT"
  shows "PermanentCapGetHandles h count =
    (let c = min (unat count) MAX_CAP_HANDLES; ps = permanent_from h in Inr (take c ps, c < length ps))"
  using assms permanent_list.collects [OF permanent_pos_start]
    permanent_rest_first [of permanent_fuel h]
  by (simp add: PermanentCapGetHandles_def NextPermanentHandle_eq Let_def map_filter_Some)

lemma PermanentHandleGetPolicy_spec:
  assumes "HandleGetType h = TPM_HT_PERMANENT"
  shows "PermanentHandleGetPolicy g h count =
    (let c = min (unat count) MAX_TAGGED_POLICIES; ps = List.map_filter (tagged_policy g) (permanent_from h)
     in Inr (take c ps, c < length ps))"
  using assms policy_list.collects [OF permanent_pos_start]
    permanent_rest_first [of permanent_fuel h]
  by (simp add: PermanentHandleGetPolicy_def NextPermanentHandle_eq Let_def)

lemma PermanentHandleGetOnePolicy_spec:
  assumes "HandleGetType h = TPM_HT_PERMANENT"
  shows "PermanentHandleGetOnePolicy g h =
    Inr (if h \<in> set permanent_cases then tagged_policy g h else None)"
proof -
  have "NextPermanentHandle h = h \<longleftrightarrow> h \<in> set permanent_cases"
  proof
    assume "h \<in> set permanent_cases"
    then show "NextPermanentHandle h = h"
      using filter_from_member by (force simp: NextPermanentHandle_eq permanent_from_def first_or_0_def)
  next
    assume "NextPermanentHandle h = h"
    moreover have "h \<noteq> 0" using assms by (auto simp: HandleGetType_def)
    ultimately have "h \<in> set (permanent_from h)"
      by (cases "permanent_from h") (auto simp: NextPermanentHandle_eq first_or_0_def)
    then show "h \<in> set permanent_cases" by (simp add: permanent_from_def)
  qed
  then show ?thesis using assms by (simp add: PermanentHandleGetOnePolicy_def tagged_policy_def)
qed

lemma PermanentCapGetOneHandle_loop_spec:
  "permanent_pos (f, i) \<Longrightarrow>
   PermanentCapGetOneHandle_loop f i handle = Inr (handle \<in> set (permanent_rest (f, i)))"
proof (induction f i handle rule: PermanentCapGetOneHandle_loop.induct)
  case (1 i handle)
  then show ?case by (auto simp: permanent_pos_def)
next
  case (2 f i handle)
  show ?case
  proof (cases "permanent_rest (Suc f, i)")
    case Nil
    then show ?thesis using permanent_pos_end [OF 2(2) Nil] by auto
  next
    case (Cons q qs)
    from permanent_pos_step [OF 2(2) Cons]
    obtain "i = q" "q \<noteq> 0" "permanent_pos (f, NextPermanentHandle (q + 1))"
      "permanent_rest (f, NextPermanentHandle (q + 1)) = qs" by auto
    then show ?thesis using 2(1) Cons by auto
  qed
qed

lemma PermanentCapGetOneHandle_spec:
  assumes "HandleGetType h = TPM_HT_PERMANENT"
  shows "PermanentCapGetOneHandle h = Inr (h \<in> set permanent_cases)"
  using assms PermanentCapGetOneHandle_loop_spec [OF permanent_pos_start, of h h]
    permanent_rest_first [of permanent_fuel h]
  by (simp add: PermanentCapGetOneHandle_def NextPermanentHandle_eq permanent_from_def)


section \<open>Handle types and indices as arithmetic\<close>

lemma handle_and_mask: "h AND HR_HANDLE_MASK = take_bit 24 (h :: UINT32)"
  by (simp add: take_bit_eq_mask mask_eq_exp_minus_1)

lemma unat_handle_index: "unat (h AND HR_HANDLE_MASK) = unat (h :: UINT32) mod 2 ^ 24"
  by (simp add: handle_and_mask unsigned_take_bit_eq take_bit_eq_mod unat_mod)

lemma unat_HandleGetType: "unat (HandleGetType h) = unat h div 2 ^ 24"
proof -
  have m: "HR_RANGE_MASK = push_bit 24 (mask 8)" by (simp add: mask_eq_exp_minus_1)
  have "drop_bit 24 (h AND HR_RANGE_MASK) = drop_bit 24 h"
    unfolding m by (rule bit_word_eqI) (auto simp: bit_simps dest: bit_imp_le_length)
  then show ?thesis
    using unat_lt [of h]
    by (simp add: HandleGetType_def unat_byte_of unat_shift less_mult_imp_div_less)
qed

end
