(* ===== verification/FTPM_Session.thy ===== *)
theory FTPM_Session
  imports FTPM_Handle
begin

text \<open>
  Authorization sessions (\<^verbatim>\<open>Session.c\<close>): the context array that tracks up to 64
  active sessions, the three session slots in RAM, the 64-bit context counter from which
  saved contexts take their identifiers, and the search for the oldest saved session.
  An entry of the context array is 0 when free, a slot number plus one when loaded, and
  otherwise the low 16 bits of the identifier under which the session was saved.
\<close>

section \<open>State\<close>

abbreviation MAX_ACTIVE_SESSIONS :: nat where "MAX_ACTIVE_SESSIONS \<equiv> 64"
abbreviation MAX_LOADED_SESSIONS :: nat where "MAX_LOADED_SESSIONS \<equiv> 3"

record SESSION_ATTRIBUTES =
  isPolicy :: bool
  isAudit :: bool
  isBound :: bool
  isCpHashDefined :: bool
  isNameHashDefined :: bool
  isParametersHashDefined :: bool
  isTemplateHashDefined :: bool
  isAuthValueNeeded :: bool
  isPasswordNeeded :: bool
  isPPRequired :: bool
  isTrialPolicy :: bool
  isDaBound :: bool
  isLockoutBound :: bool
  includeAuth :: bool
  checkNvWritten :: bool
  nvWrittenState :: bool

record TPMT_SYM_DEF =
  sym_algorithm :: TPM_ALG_ID
  sym_keyBits :: UINT16
  sym_mode :: TPM_ALG_ID

text \<open>
  A \<^verbatim>\<open>TPM2B\<close> field of a session is its octet string.  The members of the unions
  \<^verbatim>\<open>u1\<close> (bound entity, cpHash, nameHash, templateHash, pHash) and \<^verbatim>\<open>u2\<close>
  (audit digest, policy digest) share their storage and so share one field.
\<close>

record SESSION =
  attributes :: SESSION_ATTRIBUTES
  s_pcrCounter :: UINT32
  startTime :: UINT64
  timeout :: UINT64
  epoch :: UINT32
  commandCode :: TPM_CC
  authHashAlg :: TPM_ALG_ID
  commandLocality :: UINT8
  symmetric :: TPMT_SYM_DEF
  sessionKey :: "BYTE list"
  nonceTPM :: "BYTE list"
  u1 :: "BYTE list"
  u2 :: "BYTE list"

record SESSION_SLOT =
  occupied :: bool
  session :: SESSION

record session_state =
  contextArray :: "UINT16 list"
  contextCounter :: UINT64
  s_sessions :: "SESSION_SLOT list"
  s_oldestSavedSession :: nat
  s_freeSessionSlots :: int

definition zero_attributes :: SESSION_ATTRIBUTES where
  "zero_attributes =
     \<lparr>isPolicy = False, isAudit = False, isBound = False, isCpHashDefined = False,
      isNameHashDefined = False, isParametersHashDefined = False, isTemplateHashDefined = False,
      isAuthValueNeeded = False, isPasswordNeeded = False, isPPRequired = False,
      isTrialPolicy = False, isDaBound = False, isLockoutBound = False, includeAuth = False,
      checkNvWritten = False, nvWrittenState = False\<rparr>"

definition zero_session :: SESSION where
  "zero_session =
     \<lparr>attributes = zero_attributes, s_pcrCounter = 0, startTime = 0, timeout = 0, epoch = 0,
      commandCode = 0, authHashAlg = 0, commandLocality = 0,
      symmetric = \<lparr>sym_algorithm = 0, sym_keyBits = 0, sym_mode = 0\<rparr>,
      sessionKey = [], nonceTPM = [], u1 = [], u2 = []\<rparr>"

section \<open>Startup and the oldest saved session\<close>

fun ContextIdSetOldest_loop :: "UINT16 \<Rightarrow> UINT16 list \<Rightarrow> nat \<Rightarrow> UINT16 \<Rightarrow> nat \<Rightarrow> nat" where
  "ContextIdSetOldest_loop lowBits [] i smallest oldest = oldest"
| "ContextIdSetOldest_loop lowBits (entry # rest) i smallest oldest =
     (if unat entry > MAX_LOADED_SESSIONS
      then if entry - lowBits \<le> smallest
           then ContextIdSetOldest_loop lowBits rest (Suc i) (entry - lowBits) i
           else ContextIdSetOldest_loop lowBits rest (Suc i) smallest oldest
      else ContextIdSetOldest_loop lowBits rest (Suc i) smallest oldest)"

definition ContextIdSetOldest :: "session_state \<Rightarrow> session_state" where
  "ContextIdSetOldest st =
     st\<lparr>s_oldestSavedSession :=
          ContextIdSetOldest_loop (ucast (contextCounter st)) (contextArray st) 0 0xFFFF
            (MAX_ACTIVE_SESSIONS + 1)\<rparr>"

definition SessionStartup :: "STARTUP_TYPE \<Rightarrow> session_state \<Rightarrow> session_state" where
  "SessionStartup type st =
     (let st = st\<lparr>s_sessions := map (\<lambda>s. s\<lparr>occupied := False\<rparr>) (s_sessions st),
                  s_freeSessionSlots := int MAX_LOADED_SESSIONS\<rparr>
      in if type = SU_RESUME \<or> type = SU_RESTART
         then ContextIdSetOldest
                (st\<lparr>contextArray :=
                     map (\<lambda>e. if unat e \<le> MAX_LOADED_SESSIONS then 0 else e) (contextArray st)\<rparr>)
         else st\<lparr>contextArray := map (\<lambda>_. 0) (contextArray st),
                 contextCounter := word_of_nat (MAX_LOADED_SESSIONS + 1),
                 s_oldestSavedSession := MAX_ACTIVE_SESSIONS + 1\<rparr>)"

section \<open>Access\<close>

definition is_session_handle :: "TPM_HANDLE \<Rightarrow> bool" where
  "is_session_handle handle \<longleftrightarrow>
     HandleGetType handle = TPM_HT_POLICY_SESSION \<or> HandleGetType handle = TPM_HT_HMAC_SESSION"

definition handle_index :: "TPM_HANDLE \<Rightarrow> nat" where
  "handle_index handle = unat (handle AND HR_HANDLE_MASK)"

definition SessionIsLoaded :: "TPM_HANDLE \<Rightarrow> session_state \<Rightarrow> bool fallible" where
  "SessionIsLoaded handle st =
     (if \<not> is_session_handle handle then Inl FATAL_ERROR_PARAMETER
      else let i = handle_index handle in
           Inr (\<not> (i \<ge> MAX_ACTIVE_SESSIONS \<or> contextArray st ! i = 0
                   \<or> unat (contextArray st ! i) > MAX_LOADED_SESSIONS)))"

definition SessionIsSaved :: "TPM_HANDLE \<Rightarrow> session_state \<Rightarrow> bool fallible" where
  "SessionIsSaved handle st =
     (if \<not> is_session_handle handle then Inl FATAL_ERROR_PARAMETER
      else let i = handle_index handle in
           Inr (\<not> (i \<ge> MAX_ACTIVE_SESSIONS \<or> contextArray st ! i = 0
                   \<or> unat (contextArray st ! i) \<le> MAX_LOADED_SESSIONS)))"

record TPMS_CONTEXT =
  sequence :: UINT64
  savedHandle :: TPM_HANDLE

abbreviation MAX_CONTEXT_GAP :: UINT64 where "MAX_CONTEXT_GAP \<equiv> 0x10000"

definition SequenceNumberForSavedContextIsValid :: "TPMS_CONTEXT \<Rightarrow> session_state \<Rightarrow> bool" where
  "SequenceNumberForSavedContextIsValid context st =
     (let handle = handle_index (savedHandle context) in
      \<not> (handle \<ge> MAX_ACTIVE_SESSIONS
         \<or> unat (contextArray st ! handle) \<le> MAX_LOADED_SESSIONS
         \<or> contextArray st ! handle \<noteq> ucast (sequence context)
         \<or> sequence context > contextCounter st
         \<or> contextCounter st - sequence context > MAX_CONTEXT_GAP))"

definition SessionPCRValueIsCurrent :: "UINT32 \<Rightarrow> SESSION \<Rightarrow> bool" where
  "SessionPCRValueIsCurrent gr_pcrCounter ses =
     (if s_pcrCounter ses \<noteq> 0 \<and> s_pcrCounter ses \<noteq> gr_pcrCounter then False else True)"

text \<open>The slot a loaded session's handle leads to; the code returns a pointer into it.\<close>

definition SessionGet :: "TPM_HANDLE \<Rightarrow> session_state \<Rightarrow> nat fallible" where
  "SessionGet handle st =
     (if \<not> is_session_handle handle then Inl FATAL_ERROR_PARAMETER
      else let slotIndex = handle_index handle in
           if \<not> slotIndex < MAX_ACTIVE_SESSIONS then Inl FATAL_ERROR_PARAMETER
           else let sessionIndex = unat (contextArray st ! slotIndex - 1) in
                if \<not> sessionIndex < MAX_LOADED_SESSIONS then Inl FATAL_ERROR_PARAMETER
                else Inr sessionIndex)"

section \<open>Creating a session\<close>

definition ContextIdSessionCreate :: "nat \<Rightarrow> session_state \<Rightarrow> (TPM_RC \<times> TPM_HANDLE \<times> session_state) fallible" where
  "ContextIdSessionCreate sessionIndex st =
     (if \<not> sessionIndex < MAX_LOADED_SESSIONS then Inl FATAL_ERROR_PARAMETER
      else if s_oldestSavedSession st < MAX_ACTIVE_SESSIONS \<and> s_freeSessionSlots st = 1
              \<and> ucast (contextCounter st) = contextArray st ! s_oldestSavedSession st
           then Inr (TPM_RC_CONTEXT_GAP, 0, st)
      else let handle = first_index (\<lambda>e. e = 0) (contextArray st) in
           if handle < MAX_ACTIVE_SESSIONS
           then Inr (TPM_RC_SUCCESS, word_of_nat handle,
                     st\<lparr>contextArray := (contextArray st)[handle := word_of_nat (sessionIndex + 1)]\<rparr>)
           else Inr (TPM_RC_SESSION_HANDLES, word_of_nat handle, st))"

text \<open>Hash algorithms of the build (\<^verbatim>\<open>CryptHash.c\<close>, \<^verbatim>\<open>TpmProfile_Common.h\<close>).\<close>

definition CryptHashGetDigestSize :: "TPM_ALG_ID \<Rightarrow> nat" where
  "CryptHashGetDigestSize hashAlg =
     (if hashAlg = TPM_ALG_SHA1 then 20 else if hashAlg = TPM_ALG_SHA256 then 32
      else if hashAlg = TPM_ALG_SHA384 then 48 else if hashAlg = TPM_ALG_SHA512 then 64 else 0)"

text \<open>
  What a session takes from the rest of the TPM when it is created: random octets, the
  authorization value, Name and dictionary-attack exemption of an entity, the key
  derivation function, and the current time and epoch.
\<close>

record session_env =
  env_CryptRandomGenerate :: "nat \<Rightarrow> BYTE list"
  env_EntityGetAuthValue :: "TPM_HANDLE \<Rightarrow> BYTE list"
  env_EntityGetName :: "TPM_HANDLE \<Rightarrow> BYTE list"
  env_IsDAExempted :: "TPM_HANDLE \<Rightarrow> bool"
  env_CryptKDFa :: "TPM_ALG_ID \<Rightarrow> BYTE list \<Rightarrow> BYTE list \<Rightarrow> BYTE list \<Rightarrow> nat \<Rightarrow> BYTE list"
  env_time :: UINT64
  env_timeEpoch :: UINT32

abbreviation NAME_BUFFER_SIZE :: nat where "NAME_BUFFER_SIZE \<equiv> 68"

fun xor_at :: "nat \<Rightarrow> BYTE list \<Rightarrow> BYTE list \<Rightarrow> BYTE list" where
  "xor_at i [] name = name"
| "xor_at i (a # auth) name = xor_at (Suc i) auth (name[i := name ! i XOR a])"

definition SessionComputeBoundEntity :: "session_env \<Rightarrow> TPM_HANDLE \<Rightarrow> BYTE list fallible" where
  "SessionComputeBoundEntity env entityHandle =
     (let bind = env_EntityGetName env entityHandle;
          auth = env_EntityGetAuthValue env entityHandle in
      if length bind > NAME_BUFFER_SIZE \<or> length auth > NAME_BUFFER_SIZE then Inl OUT_OF_BOUNDS
      else let name = bind @ replicate (NAME_BUFFER_SIZE - length bind) 0 in
           Inr (xor_at (NAME_BUFFER_SIZE - length auth) auth name))"

definition SessionSetStartTime :: "session_env \<Rightarrow> SESSION \<Rightarrow> SESSION" where
  "SessionSetStartTime env ses = ses\<lparr>startTime := env_time env, epoch := env_timeEpoch env, timeout := 0\<rparr>"

abbreviation TPM_SE_HMAC :: UINT8 where "TPM_SE_HMAC \<equiv> 0x00"
abbreviation TPM_SE_POLICY :: UINT8 where "TPM_SE_POLICY \<equiv> 0x01"
abbreviation TPM_SE_TRIAL :: UINT8 where "TPM_SE_TRIAL \<equiv> 0x03"

abbreviation KEY_BUFFER_SIZE :: nat where "KEY_BUFFER_SIZE \<equiv> 132"
abbreviation NONCE_BUFFER_SIZE :: nat where "NONCE_BUFFER_SIZE \<equiv> 64"

text \<open>
  \<open>SessionCreate_init\<close> fills the fresh slot, in the order of the code, and is
  where its assertions on buffer sizes are.
\<close>

definition SessionCreate_init ::
  "session_env \<Rightarrow> UINT8 \<Rightarrow> TPM_ALG_ID \<Rightarrow> BYTE list \<Rightarrow> TPMT_SYM_DEF \<Rightarrow> TPM_HANDLE \<Rightarrow> BYTE list \<Rightarrow> SESSION fallible" where
  "SessionCreate_init env sessionType authHash nonceCaller symm bind seed =
     (let ses = zero_session\<lparr>authHashAlg := authHash\<rparr>;
          ses = (if sessionType = TPM_SE_HMAC then ses
                 else let ses = ses\<lparr>attributes := (attributes ses)\<lparr>isPolicy := True\<rparr>\<rparr>;
                          ses = (if sessionType = TPM_SE_TRIAL
                                 then ses\<lparr>attributes := (attributes ses)\<lparr>isTrialPolicy := True\<rparr>\<rparr> else ses);
                          ses = SessionSetStartTime env ses
                      in ses\<lparr>u2 := replicate (CryptHashGetDigestSize (authHashAlg ses)) 0\<rparr>);
          ses = ses\<lparr>nonceTPM := env_CryptRandomGenerate env (length nonceCaller)\<rparr> in
      if length nonceCaller > NONCE_BUFFER_SIZE then Inl FATAL_ERROR_PARAMETER
      else
        let ses = ses\<lparr>symmetric := symm\<rparr>;
            key = env_EntityGetAuthValue env bind @ seed in
        if (bind \<noteq> TPM_RH_NULL \<or> seed \<noteq> []) \<and> length key > KEY_BUFFER_SIZE then Inl FATAL_ERROR_PARAMETER
        else
          let ses = (if bind \<noteq> TPM_RH_NULL \<or> seed \<noteq> []
                     then ses\<lparr>sessionKey :=
                            env_CryptKDFa env (authHashAlg ses) key (nonceTPM ses) nonceCaller
                              (CryptHashGetDigestSize (authHashAlg ses) * 8)\<rparr>
                     else ses) in
          case (if bind \<noteq> TPM_RH_NULL \<and> sessionType = TPM_SE_HMAC
                then (case SessionComputeBoundEntity env bind of
                        Inl e \<Rightarrow> Inl e
                      | Inr be \<Rightarrow> Inr (ses\<lparr>attributes := (attributes ses)\<lparr>isBound := True\<rparr>, u1 := be\<rparr>))
                else Inr ses) of
            Inl e \<Rightarrow> Inl e
          | Inr ses \<Rightarrow>
              let da = (bind \<noteq> TPM_RH_NULL \<and> \<not> env_IsDAExempted env bind) in
              Inr (ses\<lparr>attributes := (attributes ses)\<lparr>isDaBound := da,
                         isLockoutBound := (da \<and> bind = TPM_RH_LOCKOUT)\<rparr>\<rparr>))"

definition SessionCreate ::
  "session_env \<Rightarrow> UINT8 \<Rightarrow> TPM_ALG_ID \<Rightarrow> BYTE list \<Rightarrow> TPMT_SYM_DEF \<Rightarrow> TPM_HANDLE \<Rightarrow> BYTE list \<Rightarrow>
   session_state \<Rightarrow> (TPM_RC \<times> TPM_HANDLE \<times> BYTE list \<times> session_state) fallible" where
  "SessionCreate env sessionType authHash nonceCaller symm bind seed st =
     (if \<not> (sessionType = TPM_SE_HMAC \<or> sessionType = TPM_SE_POLICY \<or> sessionType = TPM_SE_TRIAL)
      then Inl FATAL_ERROR_PARAMETER
      else if s_freeSessionSlots st = 0 then Inr (TPM_RC_SESSION_MEMORY, 0, [], st)
      else let slotIndex = first_index (\<lambda>s. \<not> occupied s) (s_sessions st) in
        if slotIndex \<ge> MAX_LOADED_SESSIONS then Inl FATAL_ERROR_INTERNAL
        else case ContextIdSessionCreate slotIndex st of
            Inl e \<Rightarrow> Inl e
          | Inr (result, sessionHandle, st) \<Rightarrow>
              if result \<noteq> TPM_RC_SUCCESS then Inr (result, sessionHandle, [], st)
              else case SessionCreate_init env sessionType authHash nonceCaller symm bind seed of
                  Inl e \<Rightarrow> Inl e
                | Inr ses \<Rightarrow>
                    Inr (TPM_RC_SUCCESS,
                         sessionHandle + (if sessionType = TPM_SE_HMAC then HMAC_SESSION_FIRST
                                          else POLICY_SESSION_FIRST),
                         nonceTPM ses,
                         st\<lparr>s_freeSessionSlots := s_freeSessionSlots st - 1,
                            s_sessions := (s_sessions st)[slotIndex := \<lparr>occupied = True, session = ses\<rparr>]\<rparr>))"

section \<open>Saving, loading and flushing\<close>

definition set_occupied :: "nat \<Rightarrow> bool \<Rightarrow> SESSION_SLOT list \<Rightarrow> SESSION_SLOT list" where
  "set_occupied i b slots = slots[i := (slots ! i)\<lparr>occupied := b\<rparr>]"

definition SessionContextSave ::
  "TPM_HANDLE \<Rightarrow> session_state \<Rightarrow> (TPM_RC \<times> UINT64 option \<times> session_state) fallible" where
  "SessionContextSave handle st =
     (case SessionIsLoaded handle st of
        Inl e \<Rightarrow> Inl e
      | Inr loaded \<Rightarrow>
        if \<not> loaded then Inl FATAL_ERROR_PARAMETER
        else if s_oldestSavedSession st < MAX_ACTIVE_SESSIONS
                \<and> contextArray st ! s_oldestSavedSession st = ucast (contextCounter st)
             then Inr (TPM_RC_CONTEXT_GAP, None, st)
        else let contextID = contextCounter st; contextIndex = handle_index handle in
          if \<not> contextIndex < MAX_ACTIVE_SESSIONS then Inl FATAL_ERROR_PARAMETER
          else let slotIndex = unat (contextArray st ! contextIndex - 1);
                   st = st\<lparr>contextArray := (contextArray st)[contextIndex := ucast (contextCounter st)]\<rparr>;
                   st = st\<lparr>contextCounter := contextCounter st + 1\<rparr> in
               if contextCounter st = 0
               then Inr (TPM_RC_TOO_MANY_CONTEXTS, Some contextID, st\<lparr>contextCounter := contextCounter st - 1\<rparr>)
               else let st = (if (ucast (contextCounter st) :: UINT16) = 0
                              then st\<lparr>contextCounter := contextCounter st + 4\<rparr> else st);
                        st = (if s_oldestSavedSession st \<ge> MAX_ACTIVE_SESSIONS
                              then st\<lparr>s_oldestSavedSession := contextIndex\<rparr> else st);
                        st = st\<lparr>s_sessions := set_occupied slotIndex False (s_sessions st),
                                s_freeSessionSlots := s_freeSessionSlots st + 1\<rparr>
                    in Inr (TPM_RC_SUCCESS, Some contextID, st))"

definition SessionContextLoad ::
  "SESSION \<Rightarrow> TPM_HANDLE \<Rightarrow> session_state \<Rightarrow> (TPM_RC \<times> session_state) fallible" where
  "SessionContextLoad ses handle st =
     (if \<not> is_session_handle handle then Inl FATAL_ERROR_PARAMETER
      else if s_freeSessionSlots st = 0 then Inr (TPM_RC_SESSION_MEMORY, st)
      else let slotIndex = first_index (\<lambda>s. \<not> occupied s) (s_sessions st) in
        if \<not> slotIndex < MAX_LOADED_SESSIONS then Inl FATAL_ERROR_PARAMETER
        else let contextIndex = handle_index handle in
          if s_oldestSavedSession st < MAX_ACTIVE_SESSIONS \<and> s_freeSessionSlots st = 1
             \<and> ucast (contextCounter st) = contextArray st ! s_oldestSavedSession st
             \<and> contextIndex \<noteq> s_oldestSavedSession st
          then Inr (TPM_RC_CONTEXT_GAP, st)
          else if \<not> contextIndex < MAX_ACTIVE_SESSIONS then Inl FATAL_ERROR_PARAMETER
          else let st = st\<lparr>contextArray := (contextArray st)[contextIndex := word_of_nat (slotIndex + 1)]\<rparr>;
                   st = (if contextIndex = s_oldestSavedSession st then ContextIdSetOldest st else st)
               in Inr (TPM_RC_SUCCESS,
                       st\<lparr>s_sessions := (s_sessions st)[slotIndex := \<lparr>occupied = True, session = ses\<rparr>],
                          s_freeSessionSlots := s_freeSessionSlots st - 1\<rparr>))"

definition SessionFlush :: "TPM_HANDLE \<Rightarrow> session_state \<Rightarrow> session_state fallible" where
  "SessionFlush handle st =
     (case (SessionIsLoaded handle st, SessionIsSaved handle st) of
        (Inr loaded, Inr saved) \<Rightarrow>
          if \<not> (loaded \<or> saved) then Inl FATAL_ERROR_PARAMETER
          else let contextIndex = handle_index handle in
            if \<not> contextIndex < length (contextArray st) then Inl FATAL_ERROR_PARAMETER
            else let slotIndex = contextArray st ! contextIndex;
                     st = st\<lparr>contextArray := (contextArray st)[contextIndex := 0]\<rparr> in
                 if unat slotIndex > MAX_LOADED_SESSIONS
                 then Inr (if contextIndex = s_oldestSavedSession st then ContextIdSetOldest st else st)
                 else Inr (st\<lparr>s_sessions := set_occupied (unat (slotIndex - 1)) False (s_sessions st),
                              s_freeSessionSlots := s_freeSessionSlots st + 1\<rparr>)
      | _ \<Rightarrow> Inl FATAL_ERROR_PARAMETER)"

section \<open>Policy reset and capability queries\<close>

definition SessionResetPolicyData :: "SESSION \<Rightarrow> SESSION" where
  "SessionResetPolicyData ses =
     (let oldAttributes = attributes ses;
          ses = ses\<lparr>commandCode := 0, commandLocality := 0, u1 := [], timeout := 0, s_pcrCounter := 0,
                    u2 := replicate (length (u2 ses)) 0, attributes := zero_attributes\<rparr>
      in ses\<lparr>attributes := (attributes ses)\<lparr>isPolicy := True, isTrialPolicy := isTrialPolicy oldAttributes,
               isDaBound := isDaBound oldAttributes, isLockoutBound := isLockoutBound oldAttributes\<rparr>\<rparr>)"

definition TPM2_PolicyRestart :: "TPM_HANDLE \<Rightarrow> session_state \<Rightarrow> (TPM_RC \<times> session_state) fallible" where
  "TPM2_PolicyRestart handle st =
     (case SessionGet handle st of
        Inl e \<Rightarrow> Inl e
      | Inr k \<Rightarrow> Inr (TPM_RC_SUCCESS,
          st\<lparr>s_sessions := (s_sessions st)[k := (s_sessions st ! k)
                \<lparr>session := SessionResetPolicyData (session (s_sessions st ! k))\<rparr>]\<rparr>))"

function SessionCapGetLoaded_loop ::
  "session_state \<Rightarrow> nat \<Rightarrow> nat \<Rightarrow> TPM_HANDLE list \<Rightarrow> (TPM_HANDLE list \<times> bool) fallible" where
  "SessionCapGetLoaded_loop st count i handleList =
     (if i < MAX_ACTIVE_SESSIONS
      then if contextArray st ! i \<noteq> 0 \<and> unat (contextArray st ! i) \<le> MAX_LOADED_SESSIONS
           then if length handleList < count
                then case SessionGet (word_of_nat i + HMAC_SESSION_FIRST) st of
                       Inl e \<Rightarrow> Inl e
                     | Inr k \<Rightarrow>
                         SessionCapGetLoaded_loop st count (Suc i)
                           (handleList @
                            [if isPolicy (attributes (session (s_sessions st ! k)))
                             then word_of_nat i + POLICY_SESSION_FIRST
                             else word_of_nat i + HMAC_SESSION_FIRST])
                else Inr (handleList, True)
           else SessionCapGetLoaded_loop st count (Suc i) handleList
      else Inr (handleList, False))"
  by pat_completeness auto
termination by (relation "measure (\<lambda>(_, _, i, _). MAX_ACTIVE_SESSIONS - i)") auto

function SessionCapGetSaved_loop ::
  "session_state \<Rightarrow> nat \<Rightarrow> nat \<Rightarrow> TPM_HANDLE list \<Rightarrow> (TPM_HANDLE list \<times> bool) fallible" where
  "SessionCapGetSaved_loop st count i handleList =
     (if i < MAX_ACTIVE_SESSIONS
      then if contextArray st ! i \<noteq> 0 \<and> unat (contextArray st ! i) > MAX_LOADED_SESSIONS
           then if length handleList < count
                then SessionCapGetSaved_loop st count (Suc i) (handleList @ [word_of_nat i + HMAC_SESSION_FIRST])
                else Inr (handleList, True)
           else SessionCapGetSaved_loop st count (Suc i) handleList
      else Inr (handleList, False))"
  by pat_completeness auto
termination by (relation "measure (\<lambda>(_, _, i, _). MAX_ACTIVE_SESSIONS - i)") auto

declare SessionCapGetLoaded_loop.simps [simp del] SessionCapGetSaved_loop.simps [simp del]

definition SessionCapGetLoaded ::
  "TPM_HANDLE \<Rightarrow> UINT32 \<Rightarrow> session_state \<Rightarrow> (TPM_HANDLE list \<times> bool) fallible" where
  "SessionCapGetLoaded handle count st =
     (if HandleGetType handle \<noteq> TPM_HT_LOADED_SESSION then Inl FATAL_ERROR_PARAMETER
      else SessionCapGetLoaded_loop st (min (unat count) MAX_CAP_HANDLES) (handle_index handle) [])"

definition SessionCapGetSaved ::
  "TPM_HANDLE \<Rightarrow> UINT32 \<Rightarrow> session_state \<Rightarrow> (TPM_HANDLE list \<times> bool) fallible" where
  "SessionCapGetSaved handle count st =
     (if HandleGetType handle \<noteq> TPM_HT_SAVED_SESSION then Inl FATAL_ERROR_PARAMETER
      else SessionCapGetSaved_loop st (min (unat count) MAX_CAP_HANDLES) (handle_index handle) [])"

definition SessionCapGetOneLoaded :: "TPM_HANDLE \<Rightarrow> session_state \<Rightarrow> bool fallible" where
  "SessionCapGetOneLoaded handle st =
     (if HandleGetType handle \<noteq> TPM_HT_LOADED_SESSION then Inl FATAL_ERROR_PARAMETER
      else Inr (handle_index handle < MAX_ACTIVE_SESSIONS \<and> contextArray st ! handle_index handle \<noteq> 0))"

definition SessionCapGetOneSaved :: "TPM_HANDLE \<Rightarrow> session_state \<Rightarrow> bool fallible" where
  "SessionCapGetOneSaved handle st =
     (if HandleGetType handle \<noteq> TPM_HT_SAVED_SESSION then Inl FATAL_ERROR_PARAMETER
      else Inr (handle_index handle < MAX_ACTIVE_SESSIONS \<and> contextArray st ! handle_index handle \<noteq> 0))"

definition SessionCapGetLoadedNumber :: "session_state \<Rightarrow> UINT32" where
  "SessionCapGetLoadedNumber st = word_of_int (int MAX_LOADED_SESSIONS - s_freeSessionSlots st)"

definition SessionCapGetLoadedAvail :: "session_state \<Rightarrow> UINT32" where
  "SessionCapGetLoadedAvail st = word_of_int (s_freeSessionSlots st)"

definition SessionCapGetActiveNumber :: "session_state \<Rightarrow> UINT32" where
  "SessionCapGetActiveNumber st = foldl (\<lambda>num e. if e \<noteq> 0 then num + 1 else num) 0 (contextArray st)"

definition SessionCapGetActiveAvail :: "session_state \<Rightarrow> UINT32" where
  "SessionCapGetActiveAvail st = foldl (\<lambda>num e. if e = 0 then num + 1 else num) 0 (contextArray st)"

definition IsCpHashUnionOccupied :: "SESSION_ATTRIBUTES \<Rightarrow> bool" where
  "IsCpHashUnionOccupied attrs \<longleftrightarrow>
     isBound attrs \<or> isCpHashDefined attrs \<or> isNameHashDefined attrs
     \<or> isParametersHashDefined attrs \<or> isTemplateHashDefined attrs"

end
