(* ===== verification/FTPM_Session_Inv.thy ===== *)
theory FTPM_Session_Inv
  imports FTPM_Session
begin

text \<open>
  The invariant of the session subsystem and the abstract machine it refines.  The 16-bit
  entries of the context array stand for 64-bit identifiers; the ghost function
  \<open>ids\<close> gives the full identifier of each saved entry.  The invariant bounds the
  distance between a saved identifier and the counter (the context gap) by $2^{16}$, which
  is what makes the 16-bit encoding unambiguous.
\<close>

section \<open>Arithmetic of the 16-bit context slots\<close>

abbreviation slot_range :: nat where "slot_range \<equiv> 65536"

lemma unat_low16: "unat (ucast (c :: UINT64) :: UINT16) = unat c mod slot_range"
  by (simp add: unsigned_ucast_eq take_bit_eq_mod)

lemma mod_add_cancel_less:
  fixes x y c n :: nat
  assumes "(x + c) mod n = (y + c) mod n" "x < n" "y < n"
  shows "x = y"
proof -
  obtain p q where "x + c + n * p = y + c + n * q"
    using assms(1) by (auto simp: nat_mod_eq_iff)
  then have "x + n * p = y + n * q" by simp
  then have "(x + n * p) mod n = (y + n * q) mod n" by simp
  then show ?thesis using assms by simp
qed

text \<open>The subtraction of \<^verbatim>\<open>ContextIdSetOldest\<close> recovers the age order of the identifiers.\<close>

lemma entry_age:
  fixes e l :: UINT16
  assumes "d < c" "c \<le> d + slot_range" "unat e = d mod slot_range" "unat l = c mod slot_range"
  shows "unat (e - l) = d + slot_range - c"
proof (rule mod_add_cancel_less)
  have "(unat (e - l) + unat l) mod slot_range = unat (e - l + l)"
    by (subst unat_word_ariths) simp
  also have "\<dots> = unat e" by simp
  finally have "(unat (e - l) + c) mod slot_range = d mod slot_range"
    using assms(3,4) by (metis mod_add_right_eq)
  also have "\<dots> = (d + slot_range - c + c) mod slot_range" using assms(2) by simp
  finally show "(unat (e - l) + c) mod slot_range = (d + slot_range - c + c) mod slot_range" .
  show "unat (e - l) < slot_range" using unat_lt [of "e - l"] by simp
  show "d + slot_range - c < slot_range" using assms(1) by simp
qed

text \<open>Equal low bits mean that the gap is at its maximum.\<close>

lemma low_bits_eq_iff:
  fixes d c n :: nat
  assumes "d < c" "c \<le> d + n"
  shows "d mod n = c mod n \<longleftrightarrow> c = d + n"
proof
  assume eq: "d mod n = c mod n"
  show "c = d + n"
  proof (rule ccontr)
    assume "c \<noteq> d + n"
    then have "c - d < n" using assms by simp
    moreover have "(c - d + d) mod n = (0 + d) mod n" using assms eq by simp
    ultimately have "c - d = 0" using assms by (intro mod_add_cancel_less [of "c - d" d n 0]) simp_all
    then show False using assms by simp
  qed
qed simp

section \<open>Invariants\<close>

abbreviation is_saved :: "UINT16 \<Rightarrow> bool" where "is_saved e \<equiv> 3 < unat e"
abbreviation is_loaded :: "UINT16 \<Rightarrow> bool" where "is_loaded e \<equiv> 0 < unat e \<and> unat e \<le> 3"

definition ctx_inv :: "(nat \<Rightarrow> nat) \<Rightarrow> UINT16 list \<Rightarrow> nat \<Rightarrow> bool" where
  "ctx_inv ids arr c \<longleftrightarrow>
     length arr = MAX_ACTIVE_SESSIONS \<and> 3 < c mod slot_range \<and>
     (\<forall>i < MAX_ACTIVE_SESSIONS. is_saved (arr ! i) \<longrightarrow>
        ids i < c \<and> c \<le> ids i + slot_range \<and> unat (arr ! i) = ids i mod slot_range) \<and>
     (\<forall>i < MAX_ACTIVE_SESSIONS. \<forall>j < MAX_ACTIVE_SESSIONS.
        is_saved (arr ! i) \<longrightarrow> is_saved (arr ! j) \<longrightarrow> ids i = ids j \<longrightarrow> i = j)"

definition oldest_inv :: "(nat \<Rightarrow> nat) \<Rightarrow> UINT16 list \<Rightarrow> nat \<Rightarrow> bool" where
  "oldest_inv ids arr old \<longleftrightarrow>
     (if \<exists>i < MAX_ACTIVE_SESSIONS. is_saved (arr ! i)
      then old < MAX_ACTIVE_SESSIONS \<and> is_saved (arr ! old) \<and>
           (\<forall>i < MAX_ACTIVE_SESSIONS. is_saved (arr ! i) \<longrightarrow> ids old \<le> ids i)
      else MAX_ACTIVE_SESSIONS \<le> old)"

definition slot_inv :: "UINT16 list \<Rightarrow> SESSION_SLOT list \<Rightarrow> int \<Rightarrow> bool" where
  "slot_inv arr slots free \<longleftrightarrow>
     length slots = MAX_LOADED_SESSIONS \<and>
     free = int (count_if (\<lambda>s. \<not> occupied s) slots) \<and>
     (\<forall>i < MAX_ACTIVE_SESSIONS. is_loaded (arr ! i) \<longrightarrow> occupied (slots ! (unat (arr ! i) - 1))) \<and>
     (\<forall>i < MAX_ACTIVE_SESSIONS. \<forall>j < MAX_ACTIVE_SESSIONS.
        is_loaded (arr ! i) \<longrightarrow> arr ! i = arr ! j \<longrightarrow> i = j) \<and>
     (\<forall>k < MAX_LOADED_SESSIONS. occupied (slots ! k) \<longrightarrow>
        (\<exists>i < MAX_ACTIVE_SESSIONS. unat (arr ! i) = Suc k))"

definition session_inv :: "(nat \<Rightarrow> nat) \<Rightarrow> session_state \<Rightarrow> bool" where
  "session_inv ids st \<longleftrightarrow>
     ctx_inv ids (contextArray st) (unat (contextCounter st)) \<and>
     oldest_inv ids (contextArray st) (s_oldestSavedSession st) \<and>
     slot_inv (contextArray st) (s_sessions st) (s_freeSessionSlots st)"

section \<open>The oldest saved session\<close>

lemma ContextIdSetOldest_loop_keep:
  "\<not> (\<exists>k < length es. is_saved (es ! k) \<and> es ! k - low \<le> smallest) \<Longrightarrow>
   ContextIdSetOldest_loop low es i smallest old = old"
proof (induction low es i smallest old rule: ContextIdSetOldest_loop.induct)
  case (1 low i smallest old)
  then show ?case by simp
next
  case (2 low e es i smallest old)
  then have "\<not> (is_saved e \<and> e - low \<le> smallest)"
    "\<not> (\<exists>k < length es. is_saved (es ! k) \<and> es ! k - low \<le> smallest)"
    by (auto simp: nth_Cons split: nat.splits)
  then show ?case using 2 by auto
qed

lemma ContextIdSetOldest_loop_min:
  "\<exists>k < length es. is_saved (es ! k) \<and> es ! k - low \<le> smallest \<Longrightarrow>
   \<exists>k < length es. ContextIdSetOldest_loop low es i smallest old = i + k \<and> is_saved (es ! k) \<and>
      es ! k - low \<le> smallest \<and> (\<forall>j < length es. is_saved (es ! j) \<longrightarrow> es ! k - low \<le> es ! j - low)"
proof (induction low es i smallest old rule: ContextIdSetOldest_loop.induct)
  case (1 low i smallest old)
  then show ?case by simp
next
  case (2 low e es i smallest old)
  show ?case
  proof (cases "is_saved e \<and> e - low \<le> smallest")
    case take: True
    show ?thesis
    proof (cases "\<exists>k < length es. is_saved (es ! k) \<and> es ! k - low \<le> e - low")
      case True
      from 2(1) [OF _ _ this] take obtain k where
        k: "k < length es" "ContextIdSetOldest_loop low es (Suc i) (e - low) i = Suc i + k"
           "is_saved (es ! k)" "es ! k - low \<le> e - low"
           "\<forall>j < length es. is_saved (es ! j) \<longrightarrow> es ! k - low \<le> es ! j - low" by auto
      then show ?thesis using take
        by (intro exI [of _ "Suc k"]) (auto simp: nth_Cons split: nat.splits intro: order_trans)
    next
      case False
      have "ContextIdSetOldest_loop low es (Suc i) (e - low) i = i"
        using False by (rule ContextIdSetOldest_loop_keep)
      then show ?thesis using take False
        by (intro exI [of _ 0]) (auto simp: nth_Cons split: nat.splits)
    qed
  next
    case skip: False
    then have ex: "\<exists>k < length es. is_saved (es ! k) \<and> es ! k - low \<le> smallest"
      using 2(4) by (auto simp: nth_Cons less_Suc_eq_0_disj)
    have l: "ContextIdSetOldest_loop low (e # es) i smallest old = ContextIdSetOldest_loop low es (Suc i) smallest old"
      using skip by auto
    have "\<exists>k < length es. ContextIdSetOldest_loop low es (Suc i) smallest old = Suc i + k \<and> is_saved (es ! k) \<and>
      es ! k - low \<le> smallest \<and> (\<forall>j < length es. is_saved (es ! j) \<longrightarrow> es ! k - low \<le> es ! j - low)"
      using 2(2) [OF _ _ ex] 2(3) [OF _ ex] skip by blast
    then obtain k where "k < length es" "ContextIdSetOldest_loop low es (Suc i) smallest old = Suc i + k"
      "is_saved (es ! k)" "es ! k - low \<le> smallest"
      "\<forall>j < length es. is_saved (es ! j) \<longrightarrow> es ! k - low \<le> es ! j - low" by blast
    then show ?thesis using l skip
      by (intro exI [of _ "Suc k"]) (auto simp: nth_Cons split: nat.splits intro: order_trans)
  qed
qed


lemma max_slot: "(w :: UINT16) \<le> 0xFFFF"
  using unat_lt [of w] by (simp add: word_le_nat_alt)

lemma ctx_inv_age:
  assumes "ctx_inv ids arr (unat c)" "i < 64" "is_saved (arr ! i)"
  shows "unat (arr ! i - (ucast (c :: UINT64) :: UINT16)) = ids i + slot_range - unat c"
  using assms by (intro entry_age) (auto simp: ctx_inv_def unat_low16)

lemma oldest_inv_SetOldest:
  assumes "ctx_inv ids arr (unat c)"
  shows "oldest_inv ids arr (ContextIdSetOldest_loop (ucast (c :: UINT64)) arr 0 0xFFFF 65)"
proof (cases "\<exists>i < 64. is_saved (arr ! i)")
  case True
  have len: "length arr = 64" using assms by (simp add: ctx_inv_def)
  have "\<exists>k < length arr. is_saved (arr ! k) \<and> arr ! k - (ucast c :: UINT16) \<le> 0xFFFF"
    using True len by (auto intro: max_slot)
  from ContextIdSetOldest_loop_min [OF this, of 0 65] obtain k where
    k: "k < 64" "ContextIdSetOldest_loop (ucast c) arr 0 0xFFFF 65 = k" "is_saved (arr ! k)"
       "\<forall>j < 64. is_saved (arr ! j) \<longrightarrow> arr ! k - (ucast c :: UINT16) \<le> arr ! j - ucast c"
    using len by auto
  have "ids k \<le> ids j" if "j < 64" "is_saved (arr ! j)" for j
  proof -
    have "unat (arr ! k - (ucast c :: UINT16)) \<le> unat (arr ! j - (ucast c :: UINT16))"
      using k(4) that by (simp add: word_le_nat_alt)
    moreover have "unat c \<le> ids k + slot_range" "unat c \<le> ids j + slot_range"
      using assms k(1,3) that by (auto simp: ctx_inv_def)
    ultimately show ?thesis
      by (simp add: ctx_inv_age [OF assms that] ctx_inv_age [OF assms k(1,3)])
  qed
  then show ?thesis using True k by (auto simp: oldest_inv_def)
next
  case False
  then have "ContextIdSetOldest_loop (ucast c) arr 0 0xFFFF 65 = 65"
    using assms by (intro ContextIdSetOldest_loop_keep) (auto simp: ctx_inv_def)
  then show ?thesis using False by (auto simp: oldest_inv_def)
qed

lemma ctx_inv_unsave:
  assumes "ctx_inv ids arr c" "\<not> is_saved v"
  shows "ctx_inv ids (arr[i := v]) c"
proof -
  have "length arr = 64" using assms by (simp add: ctx_inv_def)
  then have "is_saved (arr[i := v] ! j) \<longleftrightarrow> i \<noteq> j \<and> is_saved (arr ! j)"
    "is_saved (arr ! j) \<Longrightarrow> i \<noteq> j \<Longrightarrow> arr[i := v] ! j = arr ! j" if "j < 64" for j
    using assms(2) that by (auto simp: nth_update_if)
  then show ?thesis using assms by (simp add: ctx_inv_def)
qed

lemma oldest_inv_unsave:
  assumes "oldest_inv ids arr old" "length arr = 64" "\<not> is_saved v" "i \<noteq> old"
  shows "oldest_inv ids (arr[i := v]) old"
proof -
  have sv: "is_saved (arr[i := v] ! j) \<longleftrightarrow> i \<noteq> j \<and> is_saved (arr ! j)" if "j < 64" for j
    using assms that by (auto simp: nth_update_if)
  show ?thesis
  proof (cases "\<exists>j < 64. is_saved (arr ! j)")
    case True
    then have "old < 64" "is_saved (arr ! old)" "\<forall>j < 64. is_saved (arr ! j) \<longrightarrow> ids old \<le> ids j"
      using assms(1) by (simp_all add: oldest_inv_def)
    then show ?thesis using sv assms(4) by (auto simp: oldest_inv_def)
  next
    case False
    then show ?thesis using assms(1) sv by (auto simp: oldest_inv_def)
  qed
qed

lemma oldest_inv_recompute:
  assumes "ctx_inv ids arr (unat c)" "oldest_inv ids arr old" "\<not> is_saved v"
  shows "oldest_inv ids (arr[i := v])
    (if i = old then ContextIdSetOldest_loop (ucast (c :: UINT64)) (arr[i := v]) 0 0xFFFF 65 else old)"
proof (cases "i = old")
  case True
  show ?thesis unfolding if_P [OF True] by (intro oldest_inv_SetOldest ctx_inv_unsave assms)
next
  case False
  have "length arr = 64" using assms by (simp add: ctx_inv_def)
  then show ?thesis unfolding if_not_P [OF False] using assms False by (intro oldest_inv_unsave)
qed

section \<open>The slot table\<close>

lemma unat_slot_number: "k < 3 \<Longrightarrow> unat (word_of_nat (k + 1) :: UINT16) = Suc k"
  by (subst unsigned_of_nat) (simp add: take_bit_eq_mod)

lemma slot_invI:
  assumes "length slots = 3" "free = int (count_if (\<lambda>s. \<not> occupied s) slots)"
    "\<And>i. i < 64 \<Longrightarrow> is_loaded (arr ! i) \<Longrightarrow> occupied (slots ! (unat (arr ! i) - 1))"
    "\<And>i j. i < 64 \<Longrightarrow> j < 64 \<Longrightarrow> is_loaded (arr ! i) \<Longrightarrow> arr ! i = arr ! j \<Longrightarrow> i = j"
    "\<And>k. k < 3 \<Longrightarrow> occupied (slots ! k) \<Longrightarrow> \<exists>i < 64. unat (arr ! i) = Suc k"
  shows "slot_inv arr slots free"
  using assms by (auto simp: slot_inv_def)

lemma slot_invD:
  assumes "slot_inv arr slots free"
  shows "length slots = 3" "free = int (count_if (\<lambda>s. \<not> occupied s) slots)"
    "i < 64 \<Longrightarrow> is_loaded (arr ! i) \<Longrightarrow> occupied (slots ! (unat (arr ! i) - 1))"
    "i < 64 \<Longrightarrow> j < 64 \<Longrightarrow> is_loaded (arr ! i) \<Longrightarrow> arr ! i = arr ! j \<Longrightarrow> i = j"
    "k < 3 \<Longrightarrow> occupied (slots ! k) \<Longrightarrow> \<exists>i < 64. unat (arr ! i) = Suc k"
  using assms by (auto simp: slot_inv_def)

lemma slot_inv_load:
  assumes inv: "slot_inv arr slots free" and len: "length arr = 64" and i: "i < 64" "\<not> is_loaded (arr ! i)"
    and k: "k < 3" "\<not> occupied (slots ! k)" "occupied s"
    and w: "unat w = Suc k"
  shows "slot_inv (arr[i := w]) (slots[k := s]) (free - 1)"
proof (rule slot_invI)
  note D = slot_invD [OF inv]
  have other: "unat (arr ! j) \<noteq> Suc k" if "j < 64" for j
  proof
    assume "unat (arr ! j) = Suc k"
    then show False using D(3) [OF that] k by simp
  qed
  have n: "arr[i := w] ! j = (if i = j then w else arr ! j)" if "j < 64" for j
    using that len by (simp add: nth_update_if)
  have m: "slots[k := s] ! x = (if k = x then s else slots ! x)" if "x < 3" for x
    using that D(1) by (simp add: nth_update_if)
  show "length (slots[k := s]) = 3" using D(1) by simp
  show "free - 1 = int (count_if (\<lambda>s. \<not> occupied s) (slots[k := s]))"
    using D(1,2) k count_if_update [of k slots "\<lambda>s. \<not> occupied s" s] by simp
  show "occupied (slots[k := s] ! (unat (arr[i := w] ! j) - 1))"
    if j: "j < 64" "is_loaded (arr[i := w] ! j)" for j
  proof (cases "i = j")
    case True
    then show ?thesis using n [OF j(1)] w k m [OF k(1)] by simp
  next
    case False
    then have l: "is_loaded (arr ! j)" using n [OF j(1)] j(2) by simp
    then have "unat (arr ! j) - 1 < 3" by linarith
    from m [OF this] show ?thesis using False n [OF j(1)] D(3) [OF j(1) l] k(3) by simp
  qed
  show "a = b" if ab: "a < 64" "b < 64" "is_loaded (arr[i := w] ! a)" "arr[i := w] ! a = arr[i := w] ! b" for a b
  proof (cases "i = a \<or> i = b")
    case True
    then show ?thesis using ab(4) n [OF ab(1)] n [OF ab(2)] w other [OF ab(1)] other [OF ab(2)]
      by metis
  next
    case False
    then show ?thesis using ab n [OF ab(1)] n [OF ab(2)] D(4) [OF ab(1,2)] by simp
  qed
  show "\<exists>j < 64. unat (arr[i := w] ! j) = Suc x" if x: "x < 3" "occupied (slots[k := s] ! x)" for x
  proof (cases "x = k")
    case True
    then show ?thesis using i(1) n [OF i(1)] w by (intro exI [of _ i]) simp
  next
    case False
    then obtain j where j: "j < 64" "unat (arr ! j) = Suc x" using x m [OF x(1)] D(5) [OF x(1)] by auto
    then have "j \<noteq> i" using i(2) x(1) by auto
    then show ?thesis using j n [OF j(1)] by (intro exI [of _ j]) simp
  qed
qed

lemma slot_inv_unload:
  assumes inv: "slot_inv arr slots free" and len: "length arr = 64" and i: "i < 64" "is_loaded (arr ! i)"
    and v: "\<not> is_loaded v"
  shows "slot_inv (arr[i := v]) (set_occupied (unat (arr ! i) - 1) False slots) (free + 1)"
proof (rule slot_invI)
  note D = slot_invD [OF inv]
  let ?k = "unat (arr ! i) - 1"
  let ?slots = "set_occupied ?k False slots"
  have k: "?k < 3" "occupied (slots ! ?k)" using i D(3) [of i] by auto
  have n: "arr[i := v] ! j = (if i = j then v else arr ! j)" if "j < 64" for j
    using that len by (simp add: nth_update_if)
  show "length ?slots = 3" using D(1) by (simp add: set_occupied_def)
  show "free + 1 = int (count_if (\<lambda>s. \<not> occupied s) ?slots)"
    using D(1,2) k count_if_update [of ?k slots "\<lambda>s. \<not> occupied s" "(slots ! ?k)\<lparr>occupied := False\<rparr>"]
    by (simp add: set_occupied_def)
  show "occupied (?slots ! (unat (arr[i := v] ! j) - 1))" if "j < 64" "is_loaded (arr[i := v] ! j)" for j
  proof -
    have j: "j \<noteq> i" "is_loaded (arr ! j)" using that n [OF that(1)] v by (auto split: if_splits)
    have "unat (arr ! j) \<noteq> unat (arr ! i)" using D(4) [OF that(1) i(1) j(2)] j(1) by (metis word_unat_eq_iff)
    then have "?k \<noteq> unat (arr ! j) - 1" "unat (arr ! j) - 1 < 3" using i(2) j(2) by linarith+
    then show ?thesis using j that(1) n [OF that(1)] D(3) [OF that(1) j(2)] D(1)
      by (simp add: set_occupied_def nth_update_if)
  qed
  show "a = b" if "a < 64" "b < 64" "is_loaded (arr[i := v] ! a)" "arr[i := v] ! a = arr[i := v] ! b" for a b
    using that n [OF that(1)] n [OF that(2)] v D(4) [OF that(1,2)] by (auto split: if_splits)
  show "\<exists>j < 64. unat (arr[i := v] ! j) = Suc m" if m: "m < 3" "occupied (?slots ! m)" for m
  proof -
    have "m \<noteq> ?k" "occupied (slots ! m)" using m D(1) k by (auto simp: set_occupied_def nth_update_if split: if_splits)
    then obtain j where "j < 64" "unat (arr ! j) = Suc m" using D(5) [OF m(1)] by blast
    then show ?thesis using n \<open>m \<noteq> ?k\<close> by (intro exI [of _ j]) auto
  qed
qed

lemma slot_inv_other:
  assumes inv: "slot_inv arr slots free" and len: "length arr = 64" and i: "i < 64" "\<not> is_loaded (arr ! i)"
    and v: "\<not> is_loaded v"
  shows "slot_inv (arr[i := v]) slots free"
proof (rule slot_invI)
  note D = slot_invD [OF inv]
  have n: "arr[i := v] ! j = (if i = j then v else arr ! j)" if "j < 64" for j
    using that len by (simp add: nth_update_if)
  show "length slots = 3" "free = int (count_if (\<lambda>s. \<not> occupied s) slots)" using D(1,2) by auto
  show "occupied (slots ! (unat (arr[i := v] ! j) - 1))" if "j < 64" "is_loaded (arr[i := v] ! j)" for j
    using that n [OF that(1)] v D(3) [OF that(1)] by (auto split: if_splits)
  show "a = b" if "a < 64" "b < 64" "is_loaded (arr[i := v] ! a)" "arr[i := v] ! a = arr[i := v] ! b" for a b
    using that n [OF that(1)] n [OF that(2)] v D(4) [OF that(1,2)] by (auto split: if_splits)
  show "\<exists>j < 64. unat (arr[i := v] ! j) = Suc m" if m: "m < 3" "occupied (slots ! m)" for m
  proof -
    obtain j where "j < 64" "unat (arr ! j) = Suc m" using D(5) [OF m] by blast
    then show ?thesis using n i m(1) by (intro exI [of _ j]) auto
  qed
qed


section \<open>Startup\<close>

lemma session_inv_startup_reset:
  assumes "length (contextArray st) = 64" "length (s_sessions st) = 3"
  shows "session_inv ids (SessionStartup SU_RESET st)"
  using assms
  by (auto simp: session_inv_def SessionStartup_def ctx_inv_def oldest_inv_def slot_inv_def Let_def
      count_if_def filter_map comp_def)

lemma session_inv_startup_resume:
  assumes inv: "ctx_inv ids (contextArray st) (unat (contextCounter st))" and len: "length (s_sessions st) = 3"
    and t: "type = SU_RESUME \<or> type = SU_RESTART"
  shows "session_inv ids (SessionStartup type st)"
proof -
  let ?arr = "map (\<lambda>e. if unat e \<le> 3 then 0 else e) (contextArray st)"
  have l: "length (contextArray st) = 64" using inv by (simp add: ctx_inv_def)
  have "ctx_inv ids ?arr (unat (contextCounter st))"
    using inv l by (auto simp: ctx_inv_def)
  moreover from this have "oldest_inv ids ?arr (ContextIdSetOldest_loop (ucast (contextCounter st)) ?arr 0 0xFFFF 65)"
    by (rule oldest_inv_SetOldest)
  moreover have "slot_inv ?arr (map (\<lambda>s. s\<lparr>occupied := False\<rparr>) (s_sessions st)) 3"
    using l len by (auto simp: slot_inv_def count_if_def filter_map comp_def)
  ultimately show ?thesis using t
    by (auto simp: session_inv_def SessionStartup_def Let_def ContextIdSetOldest_def)
qed

section \<open>Creating, saving, loading and flushing keep the invariant\<close>

lemmas session_handle_simps = is_session_handle_def handle_index_def

lemma free_slot_exists:
  assumes "slot_inv arr slots free" "free \<noteq> 0"
  shows "first_index (\<lambda>s. \<not> occupied s) slots < 3"
    "\<not> occupied (slots ! first_index (\<lambda>s. \<not> occupied s) slots)"
proof -
  have "0 < count_if (\<lambda>s. \<not> occupied s) slots" using assms by (auto simp: slot_inv_def)
  then have "first_index (\<lambda>s. \<not> occupied s) slots < length slots"
    by (simp add: count_if_pos_iff first_index_less_iff)
  then show "first_index (\<lambda>s. \<not> occupied s) slots < 3"
    "\<not> occupied (slots ! first_index (\<lambda>s. \<not> occupied s) slots)"
    using assms first_index_hit [of "\<lambda>s. \<not> occupied s" slots] by (auto simp: slot_inv_def)
qed

lemma no_free_slot:
  assumes "slot_inv arr slots free"
  shows "free = 0 \<longleftrightarrow> (\<forall>k < 3. occupied (slots ! k))"
  using assms count_if_zero_iff [of "\<lambda>s. \<not> occupied s" slots] by (auto simp: slot_inv_def)


lemma session_invD:
  assumes "session_inv ids st"
  shows "ctx_inv ids (contextArray st) (unat (contextCounter st))"
    "oldest_inv ids (contextArray st) (s_oldestSavedSession st)"
    "slot_inv (contextArray st) (s_sessions st) (s_freeSessionSlots st)"
    "length (contextArray st) = 64" "length (s_sessions st) = 3"
  using assms by (auto simp: session_inv_def ctx_inv_def slot_inv_def)

lemma SessionIsLoaded_iff:
  "is_session_handle h \<Longrightarrow> SessionIsLoaded h st = Inr (handle_index h < 64 \<and> is_loaded (contextArray st ! handle_index h))"
  by (auto simp: SessionIsLoaded_def Let_def word_unat_eq_iff)

lemma SessionIsSaved_iff:
  "is_session_handle h \<Longrightarrow> SessionIsSaved h st = Inr (handle_index h < 64 \<and> is_saved (contextArray st ! handle_index h))"
  by (auto simp: SessionIsSaved_def Let_def word_unat_eq_iff)

text \<open>A session takes the first free slot and the first free context entry.\<close>

lemma session_inv_take_slot:
  assumes inv: "session_inv ids st" and i: "i < 64" "contextArray st ! i = 0" and k: "k < 3" "\<not> occupied (s_sessions st ! k)"
  shows "session_inv ids
    (st\<lparr>contextArray := (contextArray st)[i := word_of_nat (k + 1)], s_freeSessionSlots := s_freeSessionSlots st - 1,
        s_sessions := (s_sessions st)[k := \<lparr>occupied = True, session = ses\<rparr>]\<rparr>)"
proof -
  note D = session_invD [OF inv]
  have w: "unat (word_of_nat (k + 1) :: UINT16) = Suc k" using k by (intro unat_slot_number)
  have ns: "\<not> is_saved (word_of_nat (k + 1) :: UINT16)" unfolding w using k by simp
  have "i \<noteq> s_oldestSavedSession st"
    using D(2) i by (auto simp: oldest_inv_def split: if_splits)
  then have "oldest_inv ids ((contextArray st)[i := word_of_nat (k + 1)]) (s_oldestSavedSession st)"
    using D ns by (intro oldest_inv_unsave)
  moreover have "slot_inv ((contextArray st)[i := word_of_nat (k + 1)])
      ((s_sessions st)[k := \<lparr>occupied = True, session = ses\<rparr>]) (s_freeSessionSlots st - 1)"
    using D i k w by (intro slot_inv_load) simp_all
  ultimately show ?thesis using ctx_inv_unsave [OF D(1) ns, of i] by (simp add: session_inv_def)
qed

lemma SessionCreate_cases:
  assumes inv: "session_inv ids st" and ok: "SessionCreate env ty alg nc symm b seed st = Inr (rc, h, nonce, st')"
  shows "(rc \<noteq> TPM_RC_SUCCESS \<and> st' = st) \<or>
    (rc = TPM_RC_SUCCESS \<and>
     (\<exists>i k ses. i < 64 \<and> contextArray st ! i = 0 \<and> k < 3 \<and> \<not> occupied (s_sessions st ! k) \<and>
        SessionCreate_init env ty alg nc symm b seed = Inr ses \<and> nonce = nonceTPM ses \<and>
        h = word_of_nat i + (if ty = TPM_SE_HMAC then HMAC_SESSION_FIRST else POLICY_SESSION_FIRST) \<and>
        st' = st\<lparr>contextArray := (contextArray st)[i := word_of_nat (k + 1)],
                 s_freeSessionSlots := s_freeSessionSlots st - 1,
                 s_sessions := (s_sessions st)[k := \<lparr>occupied = True, session = ses\<rparr>]\<rparr>))"
proof (cases "s_freeSessionSlots st = 0")
  case True
  then show ?thesis using ok by (auto simp: SessionCreate_def split: if_splits)
next
  case False
  let ?k = "first_index (\<lambda>s. \<not> occupied s) (s_sessions st)"
  let ?i = "first_index (\<lambda>e. e = 0) (contextArray st)"
  note k = free_slot_exists [OF session_invD(3) [OF inv] False]
  have i: "contextArray st ! ?i = 0" if "?i < 64"
    using first_index_hit [of "\<lambda>e. e = 0" "contextArray st"] that session_invD(4) [OF inv] by simp
  show ?thesis
    using ok False k i
    by (auto simp: SessionCreate_def ContextIdSessionCreate_def Let_def split: if_splits sum.splits)
qed


text \<open>The counter step of a save: one up, and four more when the low 16 bits wrap to zero.\<close>

definition next_id :: "nat \<Rightarrow> nat" where
  "next_id c = (if Suc c mod slot_range = 0 then c + 5 else c + 1)"

lemma wrap_gap:
  fixes c d n :: nat
  assumes "Suc c mod n = 0" "d < c" "c < d + n" "3 < d mod n"
  shows "c + 5 \<le> d + n"
proof -
  obtain q where q: "Suc c = n * q" using assms(1) by (metis mod_0_imp_dvd dvd_def)
  then obtain r where r: "q = Suc r" by (cases q) auto
  have le: "n * r \<le> d" "d < n * r + n" using assms q r by auto
  have "d mod n = (d - n * r) mod n"
    using le(1) by (metis le_add_diff_inverse mod_mult_self2 add.commute)
  also have "\<dots> = d - n * r" using le by simp
  finally show ?thesis using assms(4) le q r by simp
qed

lemma next_id_low:
  assumes "3 < c mod slot_range"
  shows "3 < next_id c mod slot_range"
proof (cases "Suc c mod slot_range = 0")
  case True
  have "(c + 5) mod slot_range = (Suc c mod slot_range + 4) mod slot_range"
    by (simp only: mod_add_left_eq) (simp add: add.commute)
  then show ?thesis using True by (simp add: next_id_def)
next
  case False
  then have "Suc c mod slot_range = Suc (c mod slot_range)" by (metis mod_Suc)
  then show ?thesis using assms False by (simp add: next_id_def)
qed

lemma ctx_inv_save:
  assumes inv: "ctx_inv ids arr c" and i: "i < 64" "\<not> is_saved (arr ! i)"
    and gap: "\<And>j. j < 64 \<Longrightarrow> is_saved (arr ! j) \<Longrightarrow> c \<noteq> ids j + slot_range"
    and w: "unat w = c mod slot_range"
  shows "ctx_inv (ids(i := c)) (arr[i := w]) (next_id c)"
proof -
  have l: "length arr = 64" and low: "3 < c mod slot_range" using inv by (simp_all add: ctx_inv_def)
  have n: "arr[i := w] ! j = (if i = j then w else arr ! j)" if "j < 64" for j
    using that l by (simp add: nth_update_if)
  have J: "ids j < c" "c < ids j + slot_range" "unat (arr ! j) = ids j mod slot_range"
    if "j < 64" "is_saved (arr ! j)" for j
    using inv that gap [OF that] by (auto simp: ctx_inv_def le_less)
  have K: "c + 1 \<le> next_id c" "next_id c \<le> c + 5" by (simp_all add: next_id_def)
  have G: "next_id c \<le> ids j + slot_range" if "j < 64" "is_saved (arr ! j)" for j
    using J [OF that] that(2) wrap_gap [of c slot_range "ids j"] by (auto simp: next_id_def)
  have A: "(ids(i := c)) j < next_id c \<and> next_id c \<le> (ids(i := c)) j + slot_range \<and>
      unat (arr[i := w] ! j) = (ids(i := c)) j mod slot_range"
    if "j < 64" "is_saved (arr[i := w] ! j)" for j
  proof (cases "i = j")
    case True
    then show ?thesis using K w n [OF that(1)] by simp
  next
    case False
    then have "is_saved (arr ! j)" using that n [OF that(1)] by simp
    from J [OF that(1) this] G [OF that(1) this] show ?thesis using False K n [OF that(1)] by simp
  qed
  have B: "a = b" if ab: "a < 64" "b < 64" "is_saved (arr[i := w] ! a)" "is_saved (arr[i := w] ! b)"
      "(ids(i := c)) a = (ids(i := c)) b" for a b
  proof (cases "i = a \<or> i = b")
    case True
    then show ?thesis using ab n [OF ab(1)] n [OF ab(2)] J(1) [of a] J(1) [of b] by (cases "i = a"; cases "i = b") auto
  next
    case False
    then show ?thesis using ab n [OF ab(1)] n [OF ab(2)] inv by (simp add: ctx_inv_def)
  qed
  show ?thesis using l next_id_low [OF low] A B by (simp add: ctx_inv_def)
qed

lemma oldest_inv_save:
  assumes "oldest_inv ids arr old" "ctx_inv ids arr c" "i < 64" "\<not> is_saved (arr ! i)" "is_saved w"
  shows "oldest_inv (ids(i := c)) (arr[i := w]) (if 64 \<le> old then i else old)"
proof -
  have l: "length arr = 64" using assms by (simp add: ctx_inv_def)
  have n: "arr[i := w] ! j = (if i = j then w else arr ! j)" if "j < 64" for j
    using that l by (simp add: nth_update_if)
  have c: "ids j < c" if "j < 64" "is_saved (arr ! j)" for j
    using that assms(2) by (auto simp: ctx_inv_def)
  have ex: "\<exists>j < 64. is_saved (arr[i := w] ! j)" using assms n [of i] by (intro exI [of _ i]) simp
  show ?thesis
  proof (cases "\<exists>j < 64. is_saved (arr ! j)")
    case True
    then have old: "old < 64" "is_saved (arr ! old)" "\<forall>j < 64. is_saved (arr ! j) \<longrightarrow> ids old \<le> ids j"
      using assms(1) by (simp_all add: oldest_inv_def)
    then have "old \<noteq> i" using assms(4) by auto
    then show ?thesis using ex old n c [OF old(1,2)] by (simp add: oldest_inv_def)
  next
    case False
    then have "64 \<le> old" using assms(1) by (simp add: oldest_inv_def)
    moreover have "j = i" if "j < 64" "is_saved (arr[i := w] ! j)" for j
      using False that n [OF that(1)] by (auto split: if_splits)
    ultimately show ?thesis using ex assms n [of i] by (auto simp: oldest_inv_def)
  qed
qed


lemma unat_counter_step:
  fixes c :: UINT64
  assumes "c \<noteq> 0xFFFFFFFFFFFFFFFF"
  shows "c + 1 \<noteq> 0" "unat (c + 1) = Suc (unat c)"
    "unat (if (ucast (c + 1) :: UINT16) = 0 then c + 1 + 4 else c + 1) = next_id (unat c)"
proof -
  have m: "unat c \<noteq> 0xFFFFFFFFFFFFFFFF" using assms by (simp add: word_unat_eq_iff)
  have lt: "Suc (unat c) < 2 ^ 64" using m unat_lt [of c] by simp
  then show u: "unat (c + 1) = Suc (unat c)" by (subst unat_word_ariths) simp
  then show "c + 1 \<noteq> 0" by (metis Zero_not_Suc unsigned_0)
  have low: "(ucast (c + 1) :: UINT16) = 0 \<longleftrightarrow> Suc (unat c) mod slot_range = 0"
    by (simp only: word_unat_eq_iff unat_low16 u unsigned_0)
  show "unat (if (ucast (c + 1) :: UINT16) = 0 then c + 1 + 4 else c + 1) = next_id (unat c)"
  proof (cases "Suc (unat c) mod slot_range = 0")
    case True
    then obtain q where q: "Suc (unat c) = slot_range * q" by (metis mod_0_imp_dvd dvd_def)
    then have "q < 2 ^ 48" using lt by simp
    then have "Suc (unat c) + 4 < 2 ^ 64" using q by simp
    then have "unat (c + 1 + 4) = unat c + 5" using u by (subst unat_word_ariths) simp
    then show ?thesis using True by (simp only: low simp_thms if_True next_id_def)
  next
    case False
    then show ?thesis using u by (simp only: low if_False next_id_def)
  qed
qed

text \<open>The test of the code for the context gap says exactly that the gap is at its maximum.\<close>

definition gap_full :: "(nat \<Rightarrow> nat) \<Rightarrow> session_state \<Rightarrow> bool" where
  "gap_full ids st \<longleftrightarrow>
     (\<exists>j < 64. is_saved (contextArray st ! j) \<and> unat (contextCounter st) = ids j + slot_range)"

lemma gap_full_iff:
  assumes inv: "session_inv ids st"
  shows "gap_full ids st \<longleftrightarrow> s_oldestSavedSession st < 64 \<and>
    contextArray st ! s_oldestSavedSession st = ucast (contextCounter st)"
proof (cases "\<exists>j < 64. is_saved (contextArray st ! j)")
  case True
  let ?o = "s_oldestSavedSession st" and ?c = "unat (contextCounter st)"
  have o: "?o < 64" "is_saved (contextArray st ! ?o)"
    and m: "\<And>j. j < 64 \<Longrightarrow> is_saved (contextArray st ! j) \<Longrightarrow> ids ?o \<le> ids j"
    using session_invD(2) [OF inv] True by (simp_all add: oldest_inv_def)
  have J: "ids j < ?c" "?c \<le> ids j + slot_range" "unat (contextArray st ! j) = ids j mod slot_range"
    if "j < 64" "is_saved (contextArray st ! j)" for j
    using session_invD(1) [OF inv] that by (simp_all add: ctx_inv_def)
  have "contextArray st ! ?o = ucast (contextCounter st) \<longleftrightarrow> ?c = ids ?o + slot_range"
    using low_bits_eq_iff [OF J(1,2) [OF o]] J(3) [OF o] by (simp only: word_unat_eq_iff unat_low16)
  moreover have "?c = ids ?o + slot_range" if "j < 64" "is_saved (contextArray st ! j)" "?c = ids j + slot_range" for j
    using m [OF that(1,2)] J(2) [OF o] that(3) by linarith
  ultimately show ?thesis using o unfolding gap_full_def by blast
next
  case False
  from session_invD(2) [OF inv] have "64 \<le> s_oldestSavedSession st"
    unfolding oldest_inv_def if_not_P [OF False] .
  then show ?thesis using False by (auto simp: gap_full_def)
qed

lemma SessionContextSave_gap:
  assumes inv: "session_inv ids st" and h: "SessionIsLoaded h st = Inr True" and gap: "gap_full ids st"
  shows "SessionContextSave h st = Inr (TPM_RC_CONTEXT_GAP, None, st)"
  using h gap gap_full_iff [OF inv] by (simp add: SessionContextSave_def)

lemma SessionIsLoadedD:
  assumes "SessionIsLoaded h st = Inr True"
  shows "is_session_handle h" "handle_index h < 64" "is_loaded (contextArray st ! handle_index h)"
  using assms by (auto simp: SessionIsLoaded_def Let_def word_unat_eq_iff split: if_splits)

lemma SessionIsSavedD:
  assumes "SessionIsSaved h st = Inr True"
  shows "is_session_handle h" "handle_index h < 64" "is_saved (contextArray st ! handle_index h)"
  using assms by (auto simp: SessionIsSaved_def Let_def word_unat_eq_iff split: if_splits)

lemma unat_minus_1: "0 < unat (w :: UINT16) \<Longrightarrow> unat (w - 1) = unat w - 1"
  by (subst unat_sub) (simp_all add: word_le_nat_alt)

lemma SessionContextSave_result:
  assumes inv: "session_inv ids st" and h: "SessionIsLoaded h st = Inr True"
    and gap: "\<not> gap_full ids st" and c: "contextCounter st \<noteq> 0xFFFFFFFFFFFFFFFF"
  defines "i \<equiv> handle_index h"
  shows "SessionContextSave h st = Inr (TPM_RC_SUCCESS, Some (contextCounter st),
     st\<lparr>contextArray := (contextArray st)[i := ucast (contextCounter st)],
        contextCounter := (if (ucast (contextCounter st + 1) :: UINT16) = 0
                           then contextCounter st + 1 + 4 else contextCounter st + 1),
        s_sessions := set_occupied (unat (contextArray st ! i) - 1) False (s_sessions st),
        s_oldestSavedSession := (if 64 \<le> s_oldestSavedSession st then i else s_oldestSavedSession st),
        s_freeSessionSlots := s_freeSessionSlots st + 1\<rparr>)"
proof -
  note L = SessionIsLoadedD [OF h]
  have g: "\<not> (s_oldestSavedSession st < 64 \<and> contextArray st ! s_oldestSavedSession st = ucast (contextCounter st))"
    using gap gap_full_iff [OF inv] by blast
  show ?thesis
    using h L g unat_counter_step(1) [OF c] unat_minus_1 [of "contextArray st ! i"]
    unfolding SessionContextSave_def Let_def i_def by (simp add: not_less)
qed


lemma session_inv_save:
  assumes inv: "session_inv ids st" and h: "SessionIsLoaded h st = Inr True"
    and c: "contextCounter st \<noteq> 0xFFFFFFFFFFFFFFFF"
    and ok: "SessionContextSave h st = Inr (TPM_RC_SUCCESS, cid, st')"
  shows "session_inv (ids(handle_index h := unat (contextCounter st))) st' \<and> cid = Some (contextCounter st) \<and>
    contextArray st' = (contextArray st)[handle_index h := ucast (contextCounter st)] \<and>
    unat (contextCounter st') = next_id (unat (contextCounter st))"
proof -
  let ?i = "handle_index h" and ?c = "unat (contextCounter st)"
  let ?w = "ucast (contextCounter st) :: UINT16"
  note D = session_invD [OF inv] and L = SessionIsLoadedD [OF h]
  have gap: "\<not> gap_full ids st" using SessionContextSave_gap [OF inv h] ok by auto
  have w: "unat ?w = ?c mod slot_range" by (rule unat_low16)
  have sv: "is_saved ?w" using D(1) unfolding w by (simp add: ctx_inv_def)
  have "ctx_inv (ids(?i := ?c)) ((contextArray st)[?i := ?w]) (next_id ?c)"
    using D(1) L gap w by (intro ctx_inv_save) (auto simp: gap_full_def)
  moreover have "oldest_inv (ids(?i := ?c)) ((contextArray st)[?i := ?w])
      (if 64 \<le> s_oldestSavedSession st then ?i else s_oldestSavedSession st)"
    using D L sv by (intro oldest_inv_save) auto
  moreover have "slot_inv ((contextArray st)[?i := ?w])
      (set_occupied (unat (contextArray st ! ?i) - 1) False (s_sessions st)) (s_freeSessionSlots st + 1)"
    using D L sv by (intro slot_inv_unload) auto
  ultimately show ?thesis
    using ok SessionContextSave_result [OF inv h gap c] unat_counter_step(3) [OF c]
    by (auto simp: session_inv_def)
qed

lemma session_inv_load:
  assumes inv: "session_inv ids st" and h: "SessionIsSaved h st = Inr True"
    and ok: "SessionContextLoad ses h st = Inr (TPM_RC_SUCCESS, st')"
  shows "session_inv ids st' \<and> contextCounter st' = contextCounter st \<and>
    (\<exists>k < 3. contextArray st' = (contextArray st)[handle_index h := word_of_nat (k + 1)] \<and>
       s_sessions st' = (s_sessions st)[k := \<lparr>occupied = True, session = ses\<rparr>])"
proof -
  let ?i = "handle_index h" and ?k = "first_index (\<lambda>s. \<not> occupied s) (s_sessions st)"
  let ?w = "word_of_nat (?k + 1) :: UINT16"
  note D = session_invD [OF inv] and L = SessionIsSavedD [OF h]
  have f: "s_freeSessionSlots st \<noteq> 0" using ok L by (auto simp: SessionContextLoad_def)
  note k = free_slot_exists [OF D(3) f]
  have w: "unat ?w = Suc ?k" using k(1) by (intro unat_slot_number)
  have ns: "\<not> is_saved ?w" unfolding w using k(1) by simp
  let ?arr = "(contextArray st)[?i := ?w]"
  have C: "ctx_inv ids ?arr (unat (contextCounter st))" by (rule ctx_inv_unsave [OF D(1) ns])
  let ?old = "if ?i = s_oldestSavedSession st
              then ContextIdSetOldest_loop (ucast (contextCounter st)) ?arr 0 0xFFFF 65 else s_oldestSavedSession st"
  have O: "oldest_inv ids ?arr ?old"
    by (rule oldest_inv_recompute [OF D(1,2) ns])
  have S: "slot_inv ?arr ((s_sessions st)[?k := \<lparr>occupied = True, session = ses\<rparr>]) (s_freeSessionSlots st - 1)"
    using D L k w by (intro slot_inv_load) auto
  have "st' = st\<lparr>contextArray := ?arr, s_oldestSavedSession := ?old,
      s_sessions := (s_sessions st)[?k := \<lparr>occupied = True, session = ses\<rparr>],
      s_freeSessionSlots := s_freeSessionSlots st - 1\<rparr>"
    using ok L k by (auto simp: SessionContextLoad_def Let_def ContextIdSetOldest_def split: if_splits)
  then show ?thesis using C O S k(1) by (auto simp: session_inv_def)
qed

lemma session_inv_flush:
  assumes inv: "session_inv ids st" and ok: "SessionFlush h st = Inr st'"
  shows "session_inv ids st' \<and> contextCounter st' = contextCounter st \<and> handle_index h < 64 \<and>
    contextArray st' = (contextArray st)[handle_index h := 0]"
proof -
  let ?i = "handle_index h"
  let ?arr = "(contextArray st)[?i := 0]"
  note D = session_invD [OF inv]
  have i: "?i < 64" "contextArray st ! ?i \<noteq> 0"
    using ok by (auto simp: SessionFlush_def SessionIsLoaded_def SessionIsSaved_def Let_def split: if_splits sum.splits)
  have C: "ctx_inv ids ?arr (unat (contextCounter st))" by (rule ctx_inv_unsave [OF D(1)]) simp
  show ?thesis
  proof (cases "is_saved (contextArray st ! ?i)")
    case True
    let ?old = "if ?i = s_oldestSavedSession st
                then ContextIdSetOldest_loop (ucast (contextCounter st)) ?arr 0 0xFFFF 65 else s_oldestSavedSession st"
    have O: "oldest_inv ids ?arr ?old"
      by (rule oldest_inv_recompute [OF D(1,2)]) simp
    have S: "slot_inv ?arr (s_sessions st) (s_freeSessionSlots st)"
      using D i True by (intro slot_inv_other) auto
    have "st' = st\<lparr>contextArray := ?arr, s_oldestSavedSession := ?old\<rparr>"
      using ok i True D(4)
      by (auto simp: SessionFlush_def Let_def ContextIdSetOldest_def split: if_splits sum.splits)
    then show ?thesis using C O S i by (simp add: session_inv_def)
  next
    case False
    then have l: "is_loaded (contextArray st ! ?i)" using i by (simp add: word_unat_eq_iff)
    have "?i \<noteq> s_oldestSavedSession st"
      using D(2) i False by (auto simp: oldest_inv_def split: if_splits)
    then have O: "oldest_inv ids ?arr (s_oldestSavedSession st)"
      using oldest_inv_unsave [OF D(2,4), of 0 ?i] by simp
    have S: "slot_inv ?arr (set_occupied (unat (contextArray st ! ?i) - 1) False (s_sessions st)) (s_freeSessionSlots st + 1)"
      using D i l by (intro slot_inv_unload) auto
    have "st' = st\<lparr>contextArray := ?arr,
        s_sessions := set_occupied (unat (contextArray st ! ?i) - 1) False (s_sessions st),
        s_freeSessionSlots := s_freeSessionSlots st + 1\<rparr>"
      using ok i False l D(4) unat_minus_1 [of "contextArray st ! ?i"]
      by (auto simp: SessionFlush_def Let_def split: if_splits sum.splits)
    then show ?thesis using C O S i by (simp add: session_inv_def)
  qed
qed

end
