(* ===== verification/FTPM_Session_Spec.thy ===== *)
theory FTPM_Session_Spec
  imports FTPM_Session_Inv
begin

text \<open>
  What the session subsystem promises: an abstract machine in which each of the 64 context
  entries is free, loaded with its session data, or saved under a full 64-bit identifier.
  The operations of \<^verbatim>\<open>Session.c\<close> refine it, and over every run of them a saved
  context is accepted again at most once and the context gap can always be cleared.
\<close>

section \<open>The abstract machine\<close>

datatype session_status = Free | Loaded SESSION | Saved nat

definition status :: "(nat \<Rightarrow> nat) \<Rightarrow> session_state \<Rightarrow> nat \<Rightarrow> session_status" where
  "status ids st i =
     (if \<not> i < MAX_ACTIVE_SESSIONS \<or> contextArray st ! i = 0 then Free
      else if is_saved (contextArray st ! i) then Saved (ids i)
      else Loaded (session (s_sessions st ! (unat (contextArray st ! i) - 1))))"

inductive abs_step :: "(nat \<Rightarrow> session_status) \<times> nat \<Rightarrow> (nat \<Rightarrow> session_status) \<times> nat \<Rightarrow> bool" where
  abs_create: "m i = Free \<Longrightarrow> abs_step (m, c) (m(i := Loaded ses), c)"
| abs_save: "m i = Loaded ses \<Longrightarrow> (\<forall>j d. m j = Saved d \<longrightarrow> c < d + slot_range) \<Longrightarrow>
    abs_step (m, c) (m(i := Saved c), next_id c)"
| abs_load: "m i = Saved d \<Longrightarrow> abs_step (m, c) (m(i := Loaded ses), c)"
| abs_flush: "m i \<noteq> Free \<Longrightarrow> abs_step (m, c) (m(i := Free), c)"
| abs_policy_restart: "m i = Loaded ses \<Longrightarrow> abs_step (m, c) (m(i := Loaded (SessionResetPolicyData ses)), c)"
| abs_resume: "abs_step (m, c) (\<lambda>i. case m i of Loaded _ \<Rightarrow> Free | x \<Rightarrow> x, c)"

inductive_cases abs_stepE: "abs_step (m, c) (m', c')"

definition abs_state :: "(nat \<Rightarrow> nat) \<Rightarrow> session_state \<Rightarrow> (nat \<Rightarrow> session_status) \<times> nat" where
  "abs_state ids st = (status ids st, unat (contextCounter st))"

lemma status_Saved_iff:
  "status ids st i = Saved d \<longleftrightarrow> i < 64 \<and> is_saved (contextArray st ! i) \<and> d = ids i"
  by (auto simp: status_def)

lemma status_Free_iff: "i < 64 \<Longrightarrow> status ids st i = Free \<longleftrightarrow> contextArray st ! i = 0"
  by (auto simp: status_def)

lemma status_Loaded_iff:
  "status ids st i = Loaded ses \<longleftrightarrow>
     i < 64 \<and> is_loaded (contextArray st ! i) \<and> ses = session (s_sessions st ! (unat (contextArray st ! i) - 1))"
  by (auto simp: status_def word_unat_eq_iff)

text \<open>Storing a session into a free slot and pointing entry \<open>i\<close> to it.\<close>

lemma status_into_slot:
  assumes inv: "session_inv ids st" and i: "i < 64" "\<not> is_loaded (contextArray st ! i)"
    and k: "k < 3" "\<not> occupied (s_sessions st ! k)"
    and arr: "contextArray st' = (contextArray st)[i := word_of_nat (k + 1)]"
    and sl: "s_sessions st' = (s_sessions st)[k := \<lparr>occupied = True, session = ses\<rparr>]"
  shows "status ids st' = (status ids st)(i := Loaded ses)"
proof
  fix j
  note D = session_invD [OF inv]
  let ?w = "word_of_nat (k + 1) :: UINT16"
  have w: "unat ?w = Suc k" using k by (intro unat_slot_number)
  show "status ids st' j = ((status ids st)(i := Loaded ses)) j"
  proof (cases "j < 64 \<and> j \<noteq> i")
    case False
    then show ?thesis
    proof (cases "j = i")
      case True
      have e: "contextArray st' ! i = ?w" using arr D(4) i by simp
      have "status ids st' i = Loaded ses"
        unfolding status_Loaded_iff e w using i k D(5) sl by simp
      then show ?thesis using True by simp
    qed (simp add: status_def)
  next
    case True
    then have e: "contextArray st' ! j = contextArray st ! j" using arr by simp
    have "k \<noteq> unat (contextArray st ! j) - 1" if "is_loaded (contextArray st ! j)"
      using slot_invD(3) [OF D(3), of j] True that k by auto
    then show ?thesis using True e sl D(5) by (auto simp: status_def word_unat_eq_iff nth_update_if)
  qed
qed

lemma status_clear_slot:
  assumes inv: "session_inv ids st" and i: "i < 64"
    and arr: "contextArray st' = (contextArray st)[i := v]"
    and sl: "\<forall>k < 3. session (s_sessions st' ! k) = session (s_sessions st ! k)"
    and ids: "\<forall>j. j \<noteq> i \<longrightarrow> ids' j = ids j" and v: "\<not> is_loaded v"
  shows "status ids' st' = (status ids st)(i := if v = 0 then Free else Saved (ids' i))"
proof
  fix j
  note D = session_invD [OF inv]
  show "status ids' st' j = ((status ids st)(i := if v = 0 then Free else Saved (ids' i))) j"
  proof (cases "j = i")
    case True
    then show ?thesis using arr D(4) i v by (auto simp: status_def word_unat_eq_iff)
  next
    case False
    then have e: "contextArray st' ! j = contextArray st ! j" using arr by simp
    then show ?thesis using False sl ids by (auto simp: status_def word_unat_eq_iff)
  qed
qed


section \<open>Each operation refines a step\<close>

lemma create_refines:
  assumes inv: "session_inv ids st" and ok: "SessionCreate env ty alg nc symm b seed st = Inr (rc, h, nonce, st')"
  shows "session_inv ids st' \<and> (abs_state ids st' = abs_state ids st \<or> abs_step (abs_state ids st) (abs_state ids st'))"
  using SessionCreate_cases [OF inv ok]
proof (elim disjE conjE exE)
  fix i k ses
  assume i: "i < 64" "contextArray st ! i = 0" and k: "k < 3" "\<not> occupied (s_sessions st ! k)"
    and st': "st' = st\<lparr>contextArray := (contextArray st)[i := word_of_nat (k + 1)],
      s_freeSessionSlots := s_freeSessionSlots st - 1,
      s_sessions := (s_sessions st)[k := \<lparr>occupied = True, session = ses\<rparr>]\<rparr>"
  have "status ids st' = (status ids st)(i := Loaded ses)"
    by (rule status_into_slot [OF inv i(1) _ k]) (simp_all add: st' i)
  moreover have "contextCounter st' = contextCounter st" by (simp add: st')
  moreover have "status ids st i = Free" using i by (simp add: status_def)
  ultimately have "abs_step (abs_state ids st) (abs_state ids st')"
    by (simp add: abs_state_def abs_create)
  then show ?thesis using session_inv_take_slot [OF inv i k, of ses] by (simp add: st')
qed (use inv in simp)

lemma save_refines:
  assumes inv: "session_inv ids st" and h: "SessionIsLoaded h st = Inr True"
    and c: "contextCounter st \<noteq> 0xFFFFFFFFFFFFFFFF"
    and ok: "SessionContextSave h st = Inr (TPM_RC_SUCCESS, cid, st')"
  defines "ids' \<equiv> ids(handle_index h := unat (contextCounter st))"
  shows "session_inv ids' st' \<and> abs_step (abs_state ids st) (abs_state ids' st') \<and>
    status ids' st' = (status ids st)(handle_index h := Saved (unat (contextCounter st)))"
proof -
  let ?i = "handle_index h" and ?w = "ucast (contextCounter st) :: UINT16"
  note D = session_invD [OF inv] and L = SessionIsLoadedD [OF h]
  note S = session_inv_save [OF inv h c ok]
  have gap: "\<not> gap_full ids st" using SessionContextSave_gap [OF inv h] ok by auto
  have w: "is_saved ?w" using D(1) unfolding unat_low16 by (simp add: ctx_inv_def)
  have sl: "\<forall>k < 3. session (s_sessions st' ! k) = session (s_sessions st ! k)"
    using ok SessionContextSave_result [OF inv h gap c] D(5) by (auto simp: set_occupied_def nth_update_if)
  have st: "status ids' st' = (status ids st)(?i := Saved (unat (contextCounter st)))"
    using status_clear_slot [OF inv L(2), of st' ?w ids'] S sl w by (auto simp: ids'_def)
  obtain ses where "status ids st ?i = Loaded ses" using L unfolding status_Loaded_iff by blast
  moreover have "unat (contextCounter st) < d + slot_range" if "status ids st j = Saved d" for j d
    using that gap D(1) by (auto simp: status_Saved_iff gap_full_def ctx_inv_def le_less)
  ultimately have "abs_step (status ids st, unat (contextCounter st))
      ((status ids st)(?i := Saved (unat (contextCounter st))), next_id (unat (contextCounter st)))"
    by (blast intro: abs_save)
  then show ?thesis using S st unfolding abs_state_def ids'_def by simp
qed

lemma load_refines:
  assumes inv: "session_inv ids st" and h: "SessionIsSaved h st = Inr True"
    and ok: "SessionContextLoad ses h st = Inr (rc, st')"
  shows "session_inv ids st' \<and>
    (if rc = TPM_RC_SUCCESS
     then status ids st' = (status ids st)(handle_index h := Loaded ses) \<and>
          abs_step (abs_state ids st) (abs_state ids st')
     else st' = st)"
proof (cases "rc = TPM_RC_SUCCESS")
  case False
  then have "st' = st"
    using ok by (auto simp: SessionContextLoad_def Let_def split: if_splits)
  then show ?thesis using False inv by simp
next
  case True
  note L = SessionIsSavedD [OF h]
  have ok': "SessionContextLoad ses h st = Inr (TPM_RC_SUCCESS, st')" using ok True by simp
  let ?k = "first_index (\<lambda>s. \<not> occupied s) (s_sessions st)"
  have f: "s_freeSessionSlots st \<noteq> 0" using ok' L by (auto simp: SessionContextLoad_def)
  note k = free_slot_exists [OF session_invD(3) [OF inv] f]
  have e: "contextArray st' = (contextArray st)[handle_index h := word_of_nat (?k + 1)]"
    "s_sessions st' = (s_sessions st)[?k := \<lparr>occupied = True, session = ses\<rparr>]"
    "contextCounter st' = contextCounter st"
    using ok' L k by (auto simp: SessionContextLoad_def Let_def ContextIdSetOldest_def split: if_splits)
  have "status ids st' = (status ids st)(handle_index h := Loaded ses)"
    using L by (intro status_into_slot [OF inv L(2) _ k e(1,2)]) simp
  moreover have "status ids st (handle_index h) = Saved (ids (handle_index h))"
    using L by (simp add: status_Saved_iff)
  ultimately show ?thesis using True session_inv_load [OF inv h ok'] e(3)
    by (auto simp: abs_state_def intro: abs_load)
qed

lemma flush_refines:
  assumes inv: "session_inv ids st" and ok: "SessionFlush h st = Inr st'"
  shows "session_inv ids st' \<and> status ids st' = (status ids st)(handle_index h := Free) \<and>
    abs_step (abs_state ids st) (abs_state ids st')"
proof -
  note F = session_inv_flush [OF inv ok]
  have sl: "\<forall>k < 3. session (s_sessions st' ! k) = session (s_sessions st ! k)"
    using ok session_invD(5) [OF inv]
    by (auto simp: SessionFlush_def Let_def ContextIdSetOldest_def set_occupied_def nth_update_if
        split: if_splits sum.splits)
  have "status ids st' = (status ids st)(handle_index h := Free)"
    using status_clear_slot [OF inv, of "handle_index h" st' 0 ids] F sl by simp
  moreover have "status ids st (handle_index h) \<noteq> Free"
    using ok F by (auto simp: status_def SessionFlush_def SessionIsLoaded_def SessionIsSaved_def Let_def
        split: if_splits sum.splits)
  ultimately show ?thesis using F by (auto simp: abs_state_def intro: abs_flush)
qed


section \<open>Runs\<close>

text \<open>
  A step of the session subsystem between two TPM resets.  Contexts are loaded under the
  check of \<^verbatim>\<open>TPM2_ContextLoad\<close>; the ghost identifiers change only when a context is
  saved.  The counter value $2^{64}-1$, at which saving fails for good, is left out.
\<close>

inductive session_step :: "(nat \<Rightarrow> nat) \<times> session_state \<Rightarrow> (nat \<Rightarrow> nat) \<times> session_state \<Rightarrow> bool" where
  step_create: "SessionCreate env ty alg nc symm b seed st = Inr (rc, h, nonce, st') \<Longrightarrow>
    session_step (ids, st) (ids, st')"
| step_save: "SessionIsLoaded h st = Inr True \<Longrightarrow> contextCounter st \<noteq> 0xFFFFFFFFFFFFFFFF \<Longrightarrow>
    SessionContextSave h st = Inr (TPM_RC_SUCCESS, cid, st') \<Longrightarrow>
    session_step (ids, st) (ids(handle_index h := unat (contextCounter st)), st')"
| step_load: "is_session_handle (savedHandle ctx) \<Longrightarrow> SequenceNumberForSavedContextIsValid ctx st \<Longrightarrow>
    SessionContextLoad ses (savedHandle ctx) st = Inr (rc, st') \<Longrightarrow> session_step (ids, st) (ids, st')"
| step_flush: "SessionFlush h st = Inr st' \<Longrightarrow> session_step (ids, st) (ids, st')"
| step_restart: "TPM2_PolicyRestart h st = Inr (rc, st') \<Longrightarrow> session_step (ids, st) (ids, st')"
| step_resume: "type = SU_RESUME \<or> type = SU_RESTART \<Longrightarrow>
    session_step (ids, st) (ids, SessionStartup type st)"

inductive_cases session_stepE: "session_step (ids, st) (ids', st')"

inductive session_reachable :: "(nat \<Rightarrow> nat) \<times> session_state \<Rightarrow> bool" where
  reach_reset: "length (contextArray st) = 64 \<Longrightarrow> length (s_sessions st) = 3 \<Longrightarrow>
    session_reachable (ids, SessionStartup SU_RESET st)"
| reach_step: "session_reachable s \<Longrightarrow> session_step s s' \<Longrightarrow> session_reachable s'"

lemma valid_context_saved:
  assumes "is_session_handle (savedHandle ctx)" "SequenceNumberForSavedContextIsValid ctx st"
  shows "SessionIsSaved (savedHandle ctx) st = Inr True"
  using assms by (auto simp: SequenceNumberForSavedContextIsValid_def SessionIsSaved_iff Let_def)

lemma restart_frame:
  assumes "TPM2_PolicyRestart h st = Inr (rc, st')"
  shows "is_session_handle h \<and> handle_index h < 64 \<and> is_loaded (contextArray st ! handle_index h) \<and>
    (let k = unat (contextArray st ! handle_index h) - 1 in
     st' = st\<lparr>s_sessions := (s_sessions st)
       [k := (s_sessions st ! k)\<lparr>session := SessionResetPolicyData (session (s_sessions st ! k))\<rparr>]\<rparr>)"
proof -
  let ?e = "contextArray st ! handle_index h"
  have g: "is_session_handle h" "handle_index h < 64" "unat (?e - 1) < 3"
    using assms by (auto simp: TPM2_PolicyRestart_def SessionGet_def Let_def split: sum.splits if_splits)
  have "?e \<noteq> 0"
  proof
    assume "?e = 0"
    then show False using g(3) by (simp add: unsigned_minus_1_eq_mask mask_eq_exp_minus_1)
  qed
  then have "0 < unat ?e" by (simp add: word_unat_eq_iff)
  then have "unat (?e - 1) = unat ?e - 1" "is_loaded ?e" using g(3) unat_minus_1 by auto
  then show ?thesis using assms g
    by (auto simp: TPM2_PolicyRestart_def SessionGet_def Let_def split: sum.splits if_splits)
qed

lemma slot_inv_session_data:
  assumes "slot_inv arr slots free"
  shows "slot_inv arr (slots[k := (slots ! k)\<lparr>session := ses\<rparr>]) free"
proof -
  let ?s = "slots[k := (slots ! k)\<lparr>session := ses\<rparr>]"
  have o: "occupied (?s ! j) = occupied (slots ! j)" if "j < length slots" for j
    using that by (simp add: nth_update_if)
  have "count_if (\<lambda>s. \<not> occupied s) ?s = count_if (\<lambda>s. \<not> occupied s) slots"
    using count_if_update [of k slots "\<lambda>s. \<not> occupied s" "(slots ! k)\<lparr>session := ses\<rparr>"]
    by (cases "k < length slots") (auto simp: list_update_beyond not_less split: if_splits)
  then show ?thesis using assms o by (auto simp: slot_inv_def)
qed

lemma session_inv_restart:
  assumes "session_inv ids st" "TPM2_PolicyRestart h st = Inr (rc, st')"
  shows "session_inv ids st' \<and> contextArray st' = contextArray st \<and> contextCounter st' = contextCounter st \<and>
    s_freeSessionSlots st' = s_freeSessionSlots st"
proof -
  obtain k ses where "st' = st\<lparr>s_sessions := (s_sessions st)[k := (s_sessions st ! k)\<lparr>session := ses\<rparr>]\<rparr>"
    using restart_frame [OF assms(2)] by (auto simp: Let_def)
  then show ?thesis using assms(1) slot_inv_session_data by (simp add: session_inv_def)
qed

lemma restart_refines:
  assumes inv: "session_inv ids st" and ok: "TPM2_PolicyRestart h st = Inr (rc, st')"
  shows "abs_step (abs_state ids st) (abs_state ids st')"
proof -
  let ?i = "handle_index h"
  let ?k = "unat (contextArray st ! ?i) - 1"
  let ?ses = "session (s_sessions st ! ?k)"
  note D = session_invD [OF inv]
  have i: "?i < 64" "is_loaded (contextArray st ! ?i)"
    and st': "st' = st\<lparr>s_sessions := (s_sessions st)[?k := (s_sessions st ! ?k)\<lparr>session := SessionResetPolicyData ?ses\<rparr>]\<rparr>"
    using restart_frame [OF ok] by (auto simp: Let_def)
  have m: "s_sessions st' ! x = (if ?k = x then (s_sessions st ! ?k)\<lparr>session := SessionResetPolicyData ?ses\<rparr> else s_sessions st ! x)"
    if "x < 3" for x using that D(5) by (simp add: st' nth_update_if)
  have "status ids st' j = ((status ids st)(?i := Loaded (SessionResetPolicyData ?ses))) j" for j
  proof (cases "j < 64 \<and> is_loaded (contextArray st ! j)")
    case False
    then show ?thesis using i by (auto simp: status_def st' word_unat_eq_iff)
  next
    case True
    then have lt: "unat (contextArray st ! j) - 1 < 3" by linarith
    have "?k = unat (contextArray st ! j) - 1 \<longleftrightarrow> j = ?i"
      using slot_invD(4) [OF D(3), of j ?i] True i by (auto simp: word_unat_eq_iff)
    then show ?thesis using True m [OF lt] by (auto simp: status_def st' word_unat_eq_iff)
  qed
  then have "status ids st' = (status ids st)(?i := Loaded (SessionResetPolicyData ?ses))" by blast
  moreover have "status ids st ?i = Loaded ?ses" using i by (simp add: status_Loaded_iff)
  ultimately show ?thesis using abs_policy_restart [of "status ids st" ?i ?ses] by (simp add: abs_state_def st')
qed

lemma startup_resume_entry:
  assumes "type = SU_RESUME \<or> type = SU_RESTART"
  shows "contextArray (SessionStartup type st) = map (\<lambda>e. if unat e \<le> 3 then 0 else e) (contextArray st)"
    "contextCounter (SessionStartup type st) = contextCounter st"
    "s_freeSessionSlots (SessionStartup type st) = 3"
  using assms by (auto simp: SessionStartup_def Let_def ContextIdSetOldest_def)

lemma resume_refines:
  assumes "session_inv ids st" "type = SU_RESUME \<or> type = SU_RESTART"
  shows "abs_step (abs_state ids st) (abs_state ids (SessionStartup type st))"
proof -
  have "status ids (SessionStartup type st) = (\<lambda>i. case status ids st i of Loaded _ \<Rightarrow> Free | x \<Rightarrow> x)"
    using session_invD(4) [OF assms(1)] startup_resume_entry(1) [OF assms(2), of st]
    by (auto simp: fun_eq_iff status_def word_unat_eq_iff)
  then show ?thesis using startup_resume_entry(2) [OF assms(2), of st] abs_resume by (simp add: abs_state_def)
qed

lemma session_inv_step:
  assumes "session_step (ids, st) (ids', st')" "session_inv ids st"
  shows "session_inv ids' st'"
  using assms(1)
  by (elim session_stepE)
     (blast dest: create_refines [OF assms(2)] save_refines [OF assms(2)]
        load_refines [OF assms(2) valid_context_saved] flush_refines [OF assms(2)]
        session_inv_restart [OF assms(2)]
        intro: session_inv_startup_resume session_invD [OF assms(2)])+

lemma session_reachable_inv: "session_reachable s \<Longrightarrow> session_inv (fst s) (snd s)"
proof (induction rule: session_reachable.induct)
  case (reach_reset st ids)
  then show ?case using session_inv_startup_reset by simp
next
  case (reach_step s s')
  then show ?case using session_inv_step [of "fst s" "snd s" "fst s'" "snd s'"] by simp
qed

text \<open>Identifiers in the window below the counter are determined by their low 16 bits.\<close>

lemma window_unique:
  fixes c d e n :: nat
  assumes "d < c" "c \<le> d + n" "e < c" "c \<le> e + n" "d mod n = e mod n"
  shows "d = e"
proof -
  have "d + n - c = e + n - c"
  proof (rule mod_add_cancel_less)
    show "(d + n - c + c) mod n = (e + n - c + c) mod n" using assms by simp
  qed (use assms in simp_all)
  then show ?thesis using assms by simp
qed

lemma valid_context_iff:
  assumes inv: "session_inv ids st" and lt: "sequence ctx < contextCounter st"
  shows "SequenceNumberForSavedContextIsValid ctx st \<longleftrightarrow>
    status ids st (handle_index (savedHandle ctx)) = Saved (unat (sequence ctx))"
proof -
  let ?i = "handle_index (savedHandle ctx)" and ?c = "unat (contextCounter st)" and ?s = "unat (sequence ctx)"
  have lt': "?s < ?c" using lt by (simp add: word_less_nat_alt)
  have sub: "unat (contextCounter st - sequence ctx) = ?c - ?s"
    using lt by (intro unat_sub) simp
  have e: "contextArray st ! ?i = ucast (sequence ctx) \<longleftrightarrow> unat (contextArray st ! ?i) = ?s mod slot_range"
    by (simp only: word_unat_eq_iff unat_low16)
  have g: "contextCounter st - sequence ctx > MAX_CONTEXT_GAP \<longleftrightarrow> \<not> ?c \<le> ?s + slot_range"
    using lt' by (auto simp: word_less_nat_alt sub)
  have J: "ids ?i < ?c" "?c \<le> ids ?i + slot_range" "unat (contextArray st ! ?i) = ids ?i mod slot_range"
    if "?i < 64" "is_saved (contextArray st ! ?i)"
    using session_invD(1) [OF inv] that by (simp_all add: ctx_inv_def)
  have "SequenceNumberForSavedContextIsValid ctx st \<longleftrightarrow>
      ?i < 64 \<and> is_saved (contextArray st ! ?i) \<and> unat (contextArray st ! ?i) = ?s mod slot_range \<and> ?c \<le> ?s + slot_range"
    using lt unfolding SequenceNumberForSavedContextIsValid_def Let_def e g
    by (auto simp: not_less not_le)
  also have "\<dots> \<longleftrightarrow> ?i < 64 \<and> is_saved (contextArray st ! ?i) \<and> ?s = ids ?i"
    using J lt' window_unique [of ?s ?c slot_range "ids ?i"] by metis
  finally show ?thesis unfolding status_Saved_iff .
qed


section \<open>A saved context is accepted once\<close>

lemma abs_step_saved:
  assumes "abs_step (m, c) (m', c')" "s < c" "m i \<noteq> Saved s"
  shows "s < c' \<and> m' i \<noteq> Saved s"
  using assms(1) by (elim abs_stepE) (use assms(2,3) in \<open>auto simp: next_id_def split: session_status.splits\<close>)

lemma step_refines:
  assumes step: "session_step (ids, st) (ids', st')" and inv: "session_inv ids st"
  shows "abs_state ids' st' = abs_state ids st \<or> abs_step (abs_state ids st) (abs_state ids' st')"
  using step
proof (elim session_stepE)
  fix ctx ses rc
  assume "is_session_handle (savedHandle ctx)" "SequenceNumberForSavedContextIsValid ctx st"
    "SessionContextLoad ses (savedHandle ctx) st = Inr (rc, st')" "ids' = ids"
  then show ?thesis using load_refines [OF inv valid_context_saved] by metis
qed (use inv in \<open>blast dest: create_refines save_refines flush_refines restart_refines intro: resume_refines\<close>)+

lemma step_saved:
  assumes step: "session_step (ids, st) (ids', st')" and inv: "session_inv ids st"
    and s: "s < unat (contextCounter st)" "status ids st i \<noteq> Saved s"
  shows "s < unat (contextCounter st') \<and> status ids' st' i \<noteq> Saved s"
  using step_refines [OF step inv] s
    abs_step_saved [of "status ids st" "unat (contextCounter st)" "status ids' st'" "unat (contextCounter st')" s i]
  by (auto simp: abs_state_def)

lemma steps_saved:
  assumes "session_step\<^sup>*\<^sup>* x y" "session_inv (fst x) (snd x)"
    "s < unat (contextCounter (snd x))" "status (fst x) (snd x) i \<noteq> Saved s"
  shows "session_inv (fst y) (snd y) \<and> s < unat (contextCounter (snd y)) \<and> status (fst y) (snd y) i \<noteq> Saved s"
  using assms
proof (induction rule: rtranclp_induct)
  case (step y z)
  then show ?case
    using step_saved [of "fst y" "snd y" "fst z" "snd z" s i] session_inv_step [of "fst y" "snd y" "fst z" "snd z"]
    by simp
qed simp

lemma context_accepted_once:
  assumes inv: "session_inv ids st" and h: "is_session_handle (savedHandle ctx)"
    and lt: "sequence ctx < contextCounter st"
    and valid: "SequenceNumberForSavedContextIsValid ctx st"
    and load: "SessionContextLoad ses (savedHandle ctx) st = Inr (TPM_RC_SUCCESS, st1)"
    and steps: "session_step\<^sup>*\<^sup>* (ids, st1) (ids2, st2)"
  shows "\<not> SequenceNumberForSavedContextIsValid ctx st2"
proof -
  note L = load_refines [OF inv valid_context_saved [OF h valid] load]
  have "contextCounter st1 = contextCounter st"
    using session_inv_load [OF inv valid_context_saved [OF h valid] load] by simp
  then have "session_inv ids2 st2 \<and> unat (sequence ctx) < unat (contextCounter st2) \<and>
      status ids2 st2 (handle_index (savedHandle ctx)) \<noteq> Saved (unat (sequence ctx))"
    using steps_saved [OF steps, of "unat (sequence ctx)" "handle_index (savedHandle ctx)"] L lt
    by (simp add: word_less_nat_alt)
  then show ?thesis using valid_context_iff [of ids2 st2 ctx] by (simp add: word_less_nat_alt)
qed

section \<open>The context gap can always be cleared\<close>

definition gap_inv :: "(nat \<Rightarrow> nat) \<Rightarrow> session_state \<Rightarrow> bool" where
  "gap_inv ids st \<longleftrightarrow> session_inv ids st \<and> (gap_full ids st \<longrightarrow> 0 < s_freeSessionSlots st)"

lemma free_nonneg: "session_inv ids st \<Longrightarrow> 0 \<le> s_freeSessionSlots st"
  using session_invD(3) by (auto simp: slot_inv_def)

lemma gap_full_mono:
  assumes "gap_full ids st'" "contextCounter st' = contextCounter st"
    "\<And>j. j < 64 \<Longrightarrow> is_saved (contextArray st' ! j) \<Longrightarrow> is_saved (contextArray st ! j)"
  shows "gap_full ids st"
  using assms by (auto simp: gap_full_def)

lemma gap_inv_create:
  assumes inv: "gap_inv ids st" and ok: "SessionCreate env ty alg nc symm b seed st = Inr (rc, h, nonce, st')"
  shows "gap_inv ids st'"
proof -
  have si: "session_inv ids st" using inv by (simp add: gap_inv_def)
  have si': "session_inv ids st'" using create_refines [OF si ok] by simp
  show ?thesis
  proof (cases "gap_full ids st' \<and> rc = TPM_RC_SUCCESS")
    case False
    then show ?thesis using SessionCreate_cases [OF si ok] inv si' by (auto simp: gap_inv_def)
  next
    case True
    from SessionCreate_cases [OF si ok] True obtain i k ses where
      i: "i < 64" and k: "k < 3" and
      st': "st' = st\<lparr>contextArray := (contextArray st)[i := word_of_nat (k + 1)],
        s_freeSessionSlots := s_freeSessionSlots st - 1,
        s_sessions := (s_sessions st)[k := \<lparr>occupied = True, session = ses\<rparr>]\<rparr>" by blast
    have ns: "\<not> is_saved (word_of_nat (k + 1) :: UINT16)" unfolding unat_slot_number [OF k] using k by simp
    have g: "gap_full ids st"
      using True ns session_invD(4) [OF si]
      by (intro gap_full_mono [of ids st' st]) (auto simp: st' nth_update_if split: if_splits)
    then have "s_freeSessionSlots st \<noteq> 1"
      using ok True gap_full_iff [OF si]
      by (auto simp: SessionCreate_def ContextIdSessionCreate_def Let_def split: if_splits sum.splits)
    then show ?thesis using g inv si' by (simp add: gap_inv_def st')
  qed
qed

lemma oldest_of_full_gap:
  assumes inv: "session_inv ids st" and j: "j < 64" "is_saved (contextArray st ! j)"
    and full: "unat (contextCounter st) = ids j + slot_range"
  shows "j = s_oldestSavedSession st"
proof -
  let ?o = "s_oldestSavedSession st"
  note D = session_invD [OF inv]
  have o: "?o < 64" "is_saved (contextArray st ! ?o)" "ids ?o \<le> ids j"
    using D(2) j by (auto simp: oldest_inv_def split: if_splits)
  moreover have "unat (contextCounter st) \<le> ids ?o + slot_range" using D(1) o by (simp add: ctx_inv_def)
  ultimately have "ids ?o = ids j" using full by linarith
  then show ?thesis using D(1) o(1,2) j by (simp add: ctx_inv_def)
qed

lemma gap_inv_load:
  assumes inv: "gap_inv ids st" and h: "SessionIsSaved h st = Inr True"
    and ok: "SessionContextLoad ses h st = Inr (rc, st')"
  shows "gap_inv ids st'"
proof (cases "rc = TPM_RC_SUCCESS \<and> gap_full ids st'")
  case False
  then show ?thesis
    using load_refines [OF _ h ok] inv by (auto simp: gap_inv_def split: if_splits)
next
  case True
  have si: "session_inv ids st" using inv by (simp add: gap_inv_def)
  note L = SessionIsSavedD [OF h]
  have ok': "SessionContextLoad ses h st = Inr (TPM_RC_SUCCESS, st')" using ok True by simp
  obtain k where k: "k < 3" "contextArray st' = (contextArray st)[handle_index h := word_of_nat (k + 1)]"
    and c: "contextCounter st' = contextCounter st" and si': "session_inv ids st'"
    using session_inv_load [OF si h ok'] by blast
  have ns: "\<not> is_saved (word_of_nat (k + 1) :: UINT16)" unfolding unat_slot_number [OF k(1)] using k by simp
  from True obtain j where j: "j < 64" "is_saved (contextArray st' ! j)" "unat (contextCounter st) = ids j + slot_range"
    by (auto simp: gap_full_def c)
  then have j': "j \<noteq> handle_index h" "is_saved (contextArray st ! j)"
    using k(2) ns session_invD(4) [OF si] by (auto simp: nth_update_if split: if_splits)
  then have "j = s_oldestSavedSession st" using oldest_of_full_gap [OF si j(1) _ j(3)] by blast
  moreover have g: "gap_full ids st" using j j' by (auto simp: gap_full_def)
  ultimately have "s_freeSessionSlots st \<noteq> 1"
    using ok' j'(1) L gap_full_iff [OF si] by (auto simp: SessionContextLoad_def Let_def split: if_splits)
  moreover have "s_freeSessionSlots st' = s_freeSessionSlots st - 1"
    using ok' by (auto simp: SessionContextLoad_def Let_def ContextIdSetOldest_def split: if_splits)
  ultimately show ?thesis using inv g si' by (auto simp: gap_inv_def)
qed

lemma gap_inv_flush:
  assumes inv: "gap_inv ids st" and ok: "SessionFlush h st = Inr st'"
  shows "gap_inv ids st'"
proof -
  have si: "session_inv ids st" using inv by (simp add: gap_inv_def)
  note F = session_inv_flush [OF si ok]
  have "s_freeSessionSlots st \<le> s_freeSessionSlots st'"
    using ok by (auto simp: SessionFlush_def Let_def ContextIdSetOldest_def split: if_splits sum.splits)
  moreover have "gap_full ids st' \<Longrightarrow> gap_full ids st"
    using F session_invD(4) [OF si] by (intro gap_full_mono [of ids st' st]) (auto simp: nth_update_if split: if_splits)
  ultimately show ?thesis using inv F by (auto simp: gap_inv_def)
qed

lemma gap_inv_step:
  assumes step: "session_step (ids, st) (ids', st')" and inv: "gap_inv ids st"
  shows "gap_inv ids' st'"
proof -
  have si: "session_inv ids st" using inv by (simp add: gap_inv_def)
  have si': "session_inv ids' st'" using session_inv_step [OF step si] .
  show ?thesis using step
  proof (elim session_stepE)
    fix h cid
    assume h: "SessionIsLoaded h st = Inr True" "contextCounter st \<noteq> 0xFFFFFFFFFFFFFFFF"
      and ok: "SessionContextSave h st = Inr (TPM_RC_SUCCESS, cid, st')"
    have gap: "\<not> gap_full ids st" using SessionContextSave_gap [OF si h(1)] ok by auto
    have "s_freeSessionSlots st' = s_freeSessionSlots st + 1"
      using ok SessionContextSave_result [OF si h(1) gap h(2)] by auto
    then show ?thesis using si' free_nonneg [OF si] by (simp add: gap_inv_def)
  next
    fix h rc assume "TPM2_PolicyRestart h st = Inr (rc, st')" "ids' = ids"
    then show ?thesis using session_inv_restart [OF si] inv by (auto simp: gap_inv_def gap_full_def)
  next
    fix type assume "st' = SessionStartup type st" "type = SU_RESUME \<or> type = SU_RESTART"
    then show ?thesis using si' startup_resume_entry(3) by (simp add: gap_inv_def)
  qed (use inv in \<open>blast intro: gap_inv_create gap_inv_flush gap_inv_load valid_context_saved\<close>)+
qed

lemma session_reachable_gap_inv: "session_reachable s \<Longrightarrow> gap_inv (fst s) (snd s)"
proof (induction rule: session_reachable.induct)
  case (reach_reset st ids)
  then show ?case using session_inv_startup_reset by (simp add: gap_inv_def gap_full_def SessionStartup_def Let_def)
next
  case (reach_step s s')
  then show ?case using gap_inv_step [of "fst s" "snd s" "fst s'" "snd s'"] by simp
qed

lemma full_gap_oldest_saved:
  assumes inv: "session_inv ids st" and full: "gap_full ids st"
    and h: "is_session_handle h" "handle_index h = s_oldestSavedSession st"
  shows "SessionIsSaved h st = Inr True"
proof -
  obtain j where j: "j < 64" "is_saved (contextArray st ! j)" "unat (contextCounter st) = ids j + slot_range"
    using full by (auto simp: gap_full_def)
  then show ?thesis using oldest_of_full_gap [OF inv j] h by (simp add: SessionIsSaved_iff)
qed

lemma load_oldest_clears_gap:
  assumes inv: "gap_inv ids st" and full: "gap_full ids st"
    and h: "is_session_handle h" "handle_index h = s_oldestSavedSession st"
  shows "\<exists>st'. SessionContextLoad ses h st = Inr (TPM_RC_SUCCESS, st') \<and> \<not> gap_full ids st'"
proof -
  have si: "session_inv ids st" and f: "0 < s_freeSessionSlots st" using inv full by (auto simp: gap_inv_def)
  obtain j where j: "j < 64" "is_saved (contextArray st ! j)" "unat (contextCounter st) = ids j + slot_range"
    using full by (auto simp: gap_full_def)
  have jo: "j = handle_index h" using oldest_of_full_gap [OF si j] h by simp
  have sv: "SessionIsSaved h st = Inr True" by (rule full_gap_oldest_saved [OF si full h])
  note k = free_slot_exists [OF session_invD(3) [OF si]]
  obtain st' where ok: "SessionContextLoad ses h st = Inr (TPM_RC_SUCCESS, st')"
    using h f k j(1) jo by (auto simp: SessionContextLoad_def Let_def)
  obtain k where k: "k < 3" "contextArray st' = (contextArray st)[handle_index h := word_of_nat (k + 1)]"
    and c: "contextCounter st' = contextCounter st"
    using session_inv_load [OF si sv ok] by blast
  have ns: "\<not> is_saved (word_of_nat (k + 1) :: UINT16)" unfolding unat_slot_number [OF k(1)] using k by simp
  have "\<not> gap_full ids st'"
  proof
    assume "gap_full ids st'"
    then obtain x where x: "x < 64" "is_saved (contextArray st' ! x)" "unat (contextCounter st) = ids x + slot_range"
      by (auto simp: gap_full_def c)
    then have "x \<noteq> handle_index h" "is_saved (contextArray st ! x)"
      using k(2) ns session_invD(4) [OF si] by (auto simp: nth_update_if split: if_splits)
    then show False using oldest_of_full_gap [OF si x(1) _ x(3)] h(2) by simp
  qed
  then show ?thesis using ok by blast
qed

lemma load_keeps_loaded:
  assumes inv: "session_inv ids st" and h: "SessionIsSaved h st = Inr True"
    and ok: "SessionContextLoad ses h st = Inr (TPM_RC_SUCCESS, st')"
    and g: "SessionIsLoaded g st = Inr True"
  shows "SessionIsLoaded g st' = Inr True"
proof -
  note G = SessionIsLoadedD [OF g] and H = SessionIsSavedD [OF h]
  have "handle_index g \<noteq> handle_index h" using G H by auto
  then have "contextArray st' ! handle_index g = contextArray st ! handle_index g"
    using session_inv_load [OF inv h ok] by auto
  then show ?thesis using G by (simp add: SessionIsLoaded_iff)
qed

section \<open>Assertions never fail on a well-formed state\<close>

lemma session_handle_of_index:
  assumes "i < 64"
  shows "unat (word_of_nat i + HMAC_SESSION_FIRST) = i + 0x02000000"
    "unat (word_of_nat i + POLICY_SESSION_FIRST) = i + 0x03000000"
  using assms by (simp_all add: unat_word_ariths unsigned_of_nat take_bit_eq_mod)

lemma handle_of_index_simps:
  assumes "i < 64"
  shows "HandleGetType (word_of_nat i + HMAC_SESSION_FIRST) = TPM_HT_HMAC_SESSION"
    "HandleGetType (word_of_nat i + POLICY_SESSION_FIRST) = TPM_HT_POLICY_SESSION"
    "handle_index (word_of_nat i + HMAC_SESSION_FIRST) = i"
    "handle_index (word_of_nat i + POLICY_SESSION_FIRST) = i"
  using assms session_handle_of_index [OF assms] mod_mult_self1 [of i 2 "16777216"] mod_mult_self1 [of i 3 "16777216"]
  by (simp_all add: word_unat_eq_iff unat_HandleGetType handle_index_def unat_handle_index
      del: unsigned_numeral add: div_add1_eq)

lemma SessionGet_loaded:
  assumes "is_session_handle h" "handle_index h < 64" "is_loaded (contextArray st ! handle_index h)"
  shows "SessionGet h st = Inr (unat (contextArray st ! handle_index h) - 1)"
  using assms by (auto simp: SessionGet_def Let_def unat_minus_1)

lemma SessionComputeBoundEntity_ok:
  assumes "length (env_EntityGetName env b) \<le> NAME_BUFFER_SIZE" "length (env_EntityGetAuthValue env b) \<le> NAME_BUFFER_SIZE"
  obtains be where "SessionComputeBoundEntity env b = Inr be"
  using assms by (simp add: SessionComputeBoundEntity_def Let_def)

lemma SessionCreate_init_ok:
  assumes nc: "length nc \<le> NONCE_BUFFER_SIZE"
    and key: "length (env_EntityGetAuthValue env b) + length seed \<le> KEY_BUFFER_SIZE"
    and nm: "length (env_EntityGetName env b) \<le> NAME_BUFFER_SIZE" "length (env_EntityGetAuthValue env b) \<le> NAME_BUFFER_SIZE"
  shows "\<exists>ses. SessionCreate_init env ty alg nc symm b seed = Inr ses"
proof -
  obtain be where be: "SessionComputeBoundEntity env b = Inr be" using SessionComputeBoundEntity_ok [OF nm] .
  have n: "\<not> length nc > NONCE_BUFFER_SIZE" "\<not> length (env_EntityGetAuthValue env b @ seed) > KEY_BUFFER_SIZE"
    using nc key by simp_all
  show ?thesis
    unfolding SessionCreate_init_def Let_def be using n
    by (simp only: if_False simp_thms sum.case split: if_split sum.split) blast
qed

lemma SessionCreate_no_fail:
  assumes inv: "session_inv ids st" and ty: "ty = TPM_SE_HMAC \<or> ty = TPM_SE_POLICY \<or> ty = TPM_SE_TRIAL"
    and nc: "length nc \<le> NONCE_BUFFER_SIZE"
    and key: "length (env_EntityGetAuthValue env b) + length seed \<le> KEY_BUFFER_SIZE"
    and nm: "length (env_EntityGetName env b) \<le> NAME_BUFFER_SIZE" "length (env_EntityGetAuthValue env b) \<le> NAME_BUFFER_SIZE"
  shows "\<exists>r. SessionCreate env ty alg nc symm b seed st = Inr r"
proof -
  obtain ses where ses: "SessionCreate_init env ty alg nc symm b seed = Inr ses"
    using SessionCreate_init_ok [OF nc key nm] by blast
  show ?thesis
  proof (cases "s_freeSessionSlots st = 0")
    case True
    then show ?thesis using ty by (auto simp: SessionCreate_def)
  next
    case False
    note k = free_slot_exists [OF session_invD(3) [OF inv] False]
    then show ?thesis using ty ses False
      by (auto simp: SessionCreate_def ContextIdSessionCreate_def Let_def)
  qed
qed

lemma SessionContextSave_no_fail:
  assumes "session_inv ids st" "SessionIsLoaded h st = Inr True"
  shows "\<exists>r. SessionContextSave h st = Inr r"
  using assms SessionIsLoadedD [OF assms(2)] by (auto simp: SessionContextSave_def Let_def)

lemma SessionContextLoad_no_fail:
  assumes "session_inv ids st" "SessionIsSaved h st = Inr True"
  shows "\<exists>r. SessionContextLoad ses h st = Inr r"
  using assms SessionIsSavedD [OF assms(2)] free_slot_exists [OF session_invD(3) [OF assms(1)]]
  by (auto simp: SessionContextLoad_def Let_def)

lemma SessionFlush_no_fail:
  assumes "session_inv ids st" "SessionIsLoaded h st = Inr True \<or> SessionIsSaved h st = Inr True"
  shows "\<exists>r. SessionFlush h st = Inr r"
proof -
  have "is_session_handle h" "handle_index h < 64" using assms(2) SessionIsLoadedD SessionIsSavedD by blast+
  then show ?thesis using assms session_invD(4) [OF assms(1)]
    by (auto simp: SessionFlush_def Let_def SessionIsLoaded_iff SessionIsSaved_iff)
qed

section \<open>Capability lists of sessions\<close>

definition loaded_entry :: "session_state \<Rightarrow> nat \<Rightarrow> TPM_HANDLE option" where
  "loaded_entry st i =
     (if is_loaded (contextArray st ! i)
      then Some (if isPolicy (attributes (session (s_sessions st ! (unat (contextArray st ! i) - 1))))
                 then word_of_nat i + POLICY_SESSION_FIRST else word_of_nat i + HMAC_SESSION_FIRST)
      else None)"

definition saved_entry :: "session_state \<Rightarrow> nat \<Rightarrow> TPM_HANDLE option" where
  "saved_entry st i = (if is_saved (contextArray st ! i) then Some (word_of_nat i + HMAC_SESSION_FIRST) else None)"

interpretation loaded_list: index_scan "\<lambda>_. True" 64 loaded_entry SessionCapGetLoaded_loop
proof
  fix s c and i :: nat and acc :: "TPM_HANDLE list"
  assume i: "i < 64"
  show "SessionCapGetLoaded_loop s c i acc =
      (case loaded_entry s i of None \<Rightarrow> SessionCapGetLoaded_loop s c (Suc i) acc
       | Some h \<Rightarrow> if length acc < c then SessionCapGetLoaded_loop s c (Suc i) (acc @ [h]) else Inr (acc, True))"
    using i SessionGet_loaded [of "word_of_nat i + HMAC_SESSION_FIRST" s] handle_of_index_simps [OF i]
    by (subst SessionCapGetLoaded_loop.simps)
       (auto simp: loaded_entry_def is_session_handle_def word_unat_eq_iff)
qed (subst SessionCapGetLoaded_loop.simps, simp)

interpretation saved_list: index_scan "\<lambda>_. True" 64 saved_entry SessionCapGetSaved_loop
proof
  fix s c and i :: nat and acc :: "TPM_HANDLE list"
  assume i: "i < 64"
  show "SessionCapGetSaved_loop s c i acc =
      (case saved_entry s i of None \<Rightarrow> SessionCapGetSaved_loop s c (Suc i) acc
       | Some h \<Rightarrow> if length acc < c then SessionCapGetSaved_loop s c (Suc i) (acc @ [h]) else Inr (acc, True))"
    using i by (subst SessionCapGetSaved_loop.simps) (auto simp: saved_entry_def word_unat_eq_iff)
qed (subst SessionCapGetSaved_loop.simps, simp)

lemma SessionCapGetLoaded_spec:
  assumes "HandleGetType h = TPM_HT_LOADED_SESSION"
  shows "SessionCapGetLoaded h count st =
    (let c = min (unat count) MAX_CAP_HANDLES; hs = List.map_filter (loaded_entry st) [handle_index h..<64]
     in Inr (take c hs, c < length hs))"
  using assms loaded_list.collects [OF TrueI] by (simp add: SessionCapGetLoaded_def Let_def)

lemma SessionCapGetSaved_spec:
  assumes "HandleGetType h = TPM_HT_SAVED_SESSION"
  shows "SessionCapGetSaved h count st =
    (let c = min (unat count) MAX_CAP_HANDLES; hs = List.map_filter (saved_entry st) [handle_index h..<64]
     in Inr (take c hs, c < length hs))"
  using assms saved_list.collects [OF TrueI] by (simp add: SessionCapGetSaved_def Let_def)

section \<open>Example states\<close>

text \<open>
  A session created on a freshly reset TPM, then saved, then loaded again; and a state in
  which the context gap is at its maximum.
\<close>

definition ex_env :: session_env where
  "ex_env = \<lparr>env_CryptRandomGenerate = (\<lambda>n. replicate n 7), env_EntityGetAuthValue = (\<lambda>_. []),
     env_EntityGetName = (\<lambda>_. []), env_IsDAExempted = (\<lambda>_. True),
     env_CryptKDFa = (\<lambda>_ _ _ _ n. replicate (n div 8) 1), env_time = 5, env_timeEpoch = 1\<rparr>"

definition ex_init :: session_state where
  "ex_init = SessionStartup SU_RESET
     \<lparr>contextArray = replicate 64 0, contextCounter = 0,
      s_sessions = replicate 3 \<lparr>occupied = False, session = zero_session\<rparr>,
      s_oldestSavedSession = 0, s_freeSessionSlots = 0\<rparr>"

definition ex_created :: session_state where
  "ex_created = (case SessionCreate ex_env TPM_SE_HMAC TPM_ALG_SHA256 (replicate 16 0)
       \<lparr>sym_algorithm = TPM_ALG_NULL, sym_keyBits = 0, sym_mode = 0\<rparr> TPM_RH_NULL [] ex_init of
     Inr (_, _, _, st) \<Rightarrow> st | Inl _ \<Rightarrow> ex_init)"

definition ex_saved :: session_state where
  "ex_saved = (case SessionContextSave HMAC_SESSION_FIRST ex_created of Inr (_, _, st) \<Rightarrow> st | Inl _ \<Rightarrow> ex_init)"


definition ex_context :: TPMS_CONTEXT where
  "ex_context = \<lparr>sequence = 4, savedHandle = HMAC_SESSION_FIRST\<rparr>"

definition ex_reloaded :: session_state where
  "ex_reloaded = (case SessionContextLoad zero_session HMAC_SESSION_FIRST ex_saved of Inr (_, st) \<Rightarrow> st | Inl _ \<Rightarrow> ex_init)"

definition ex_gap :: session_state where
  "ex_gap = \<lparr>contextArray = [4, 1] @ replicate 62 0, contextCounter = 65540,
     s_sessions = \<lparr>occupied = True, session = zero_session\<rparr> # replicate 2 \<lparr>occupied = False, session = zero_session\<rparr>,
     s_oldestSavedSession = 0, s_freeSessionSlots = 2\<rparr>"

lemma ex_create_eval:
  "SessionCreate ex_env TPM_SE_HMAC TPM_ALG_SHA256 (replicate 16 0)
     \<lparr>sym_algorithm = TPM_ALG_NULL, sym_keyBits = 0, sym_mode = 0\<rparr> TPM_RH_NULL [] ex_init =
   Inr (TPM_RC_SUCCESS, HMAC_SESSION_FIRST, replicate 16 7, ex_created)"
  by code_simp

lemma ex_save_eval:
  "SessionIsLoaded HMAC_SESSION_FIRST ex_created = Inr True" "contextCounter ex_created = 4"
  "SessionContextSave HMAC_SESSION_FIRST ex_created = Inr (TPM_RC_SUCCESS, Some 4, ex_saved)"
  by code_simp+

lemma ex_load_eval:
  "contextCounter ex_saved = 5" "is_session_handle HMAC_SESSION_FIRST" "handle_index HMAC_SESSION_FIRST = 0"
  "SessionContextLoad zero_session HMAC_SESSION_FIRST ex_saved = Inr (TPM_RC_SUCCESS, ex_reloaded)"
  "SequenceNumberForSavedContextIsValid ex_context ex_saved"
  by code_simp+

lemma ex_created_reachable: "session_reachable (\<lambda>_. 0, ex_created)"
proof -
  have "session_reachable (\<lambda>_. 0, ex_init)" unfolding ex_init_def by (rule reach_reset) simp_all
  then show ?thesis by (rule reach_step) (rule step_create [OF ex_create_eval])
qed

lemma ex_saved_reachable: "session_reachable ((\<lambda>_. 0)(0 := 4), ex_saved)"
proof -
  have "session_step (\<lambda>_. 0, ex_created) ((\<lambda>_. 0)(handle_index HMAC_SESSION_FIRST := unat (contextCounter ex_created)), ex_saved)"
    by (rule step_save [OF ex_save_eval(1) _ ex_save_eval(3)]) (simp add: ex_save_eval)
  then have "session_step (\<lambda>_. 0, ex_created) ((\<lambda>_. 0)(0 := 4), ex_saved)"
    by (simp only: ex_load_eval ex_save_eval unsigned_numeral) simp
  then show ?thesis by (rule reach_step [OF ex_created_reachable])
qed

lemma ex_gap_inv: "gap_inv (\<lambda>_. 4) ex_gap"
proof -
  have sv: "is_saved (contextArray ex_gap ! i) \<longleftrightarrow> i = 0" and ld: "is_loaded (contextArray ex_gap ! i) \<longleftrightarrow> i = 1"
    if "i < 64" for i
    using that by (auto simp: ex_gap_def nth_Cons split: nat.splits)
  have e: "contextArray ex_gap ! 0 = 4" "contextArray ex_gap ! 1 = 1" by (simp_all add: ex_gap_def)
  have ex: "\<exists>i < 64. is_saved (contextArray ex_gap ! i)" using e by (intro exI [of _ 0]) simp
  have o: "s_oldestSavedSession ex_gap = 0" by (simp add: ex_gap_def)
  have "ctx_inv (\<lambda>_. 4) (contextArray ex_gap) (unat (contextCounter ex_gap))"
    using sv e by (auto simp: ctx_inv_def) (simp_all add: ex_gap_def)
  moreover have "oldest_inv (\<lambda>_. 4) (contextArray ex_gap) (s_oldestSavedSession ex_gap)"
    unfolding oldest_inv_def if_P [OF ex] using e o by simp
  moreover have "slot_inv (contextArray ex_gap) (s_sessions ex_gap) (s_freeSessionSlots ex_gap)"
  proof (rule slot_invI)
    show "a = b" if "a < 64" "b < 64" "is_loaded (contextArray ex_gap ! a)" "contextArray ex_gap ! a = contextArray ex_gap ! b" for a b
      using that ld by metis
    show "\<exists>i < 64. unat (contextArray ex_gap ! i) = Suc k" if "k < 3" "occupied (s_sessions ex_gap ! k)" for k
      using that e by (intro exI [of _ 1]) (auto simp: ex_gap_def nth_Cons split: nat.splits)
    show "occupied (s_sessions ex_gap ! (unat (contextArray ex_gap ! i) - 1))" if "i < 64" "is_loaded (contextArray ex_gap ! i)" for i
      using that ld e by (auto simp: ex_gap_def)
  qed (simp_all add: ex_gap_def)
  ultimately show ?thesis by (simp add: gap_inv_def session_inv_def) (simp add: ex_gap_def)
qed

section \<open>Properties\<close>

text \<open>
  C1. A saved session context is accepted at most once.  In every reachable state, when
  \<^verbatim>\<open>TPM2_ContextLoad\<close>'s check accepts a context whose sequence number was handed out
  before (it is below the counter) and the context is loaded, then no sequence of session
  operations leads to a state in which the same context passes the check again.
\<close>

theorem context_loaded_once:
  assumes "session_reachable (ids, st)" and "is_session_handle (savedHandle ctx)"
    and "sequence ctx < contextCounter st"
    and "SequenceNumberForSavedContextIsValid ctx st"
    and "SessionContextLoad ses (savedHandle ctx) st = Inr (TPM_RC_SUCCESS, st1)"
    and "session_step\<^sup>*\<^sup>* (ids, st1) (ids2, st2)"
  shows "\<not> SequenceNumberForSavedContextIsValid ctx st2"
  using context_accepted_once [OF _ assms(2-6)] session_reachable_inv [OF assms(1)] by simp

theorem context_loaded_once_witness:
  "SequenceNumberForSavedContextIsValid ex_context ex_saved \<and>
   SessionContextLoad zero_session HMAC_SESSION_FIRST ex_saved = Inr (TPM_RC_SUCCESS, ex_reloaded) \<and>
   \<not> SequenceNumberForSavedContextIsValid ex_context ex_reloaded"
proof -
  have c: "savedHandle ex_context = HMAC_SESSION_FIRST" "sequence ex_context = 4" by (simp_all add: ex_context_def)
  have "\<not> SequenceNumberForSavedContextIsValid ex_context ex_reloaded"
    by (rule context_loaded_once [OF ex_saved_reachable _ _ _ _ rtranclp.rtrancl_refl, of _ zero_session])
       (simp_all add: c ex_load_eval)
  then show ?thesis by (simp add: ex_load_eval)
qed



text \<open>
  C3. The session subsystem keeps its invariant: in every reachable state the context array,
  the slots, the free count and the oldest index agree, every saved identifier lies within
  $2^{16}$ of the counter, and a slot is free whenever the context gap is at its maximum.
\<close>

theorem session_invariant:
  assumes "session_reachable (ids, st)"
  shows "session_inv ids st \<and> (gap_full ids st \<longrightarrow> 0 < s_freeSessionSlots st)"
  using session_reachable_gap_inv [OF assms] by (simp add: gap_inv_def)

theorem session_invariant_witness:
  "session_inv (\<lambda>_. 0) ex_created"
  using session_invariant [OF ex_created_reachable] by simp

text \<open>
  C4. A full context gap can always be cleared: when saving is refused with
  \<^verbatim>\<open>TPM_RC_CONTEXT_GAP\<close>, the oldest saved session can be loaded, and saving succeeds
  afterwards.
\<close>

theorem context_gap_recoverable:
  assumes "gap_inv ids st" and "SessionContextSave h st = Inr (TPM_RC_CONTEXT_GAP, None, st)"
    and "is_session_handle ho" and "handle_index ho = s_oldestSavedSession st"
    and "contextCounter st \<noteq> 0xFFFFFFFFFFFFFFFF"
  shows "\<exists>st' st''. SessionContextLoad ses ho st = Inr (TPM_RC_SUCCESS, st') \<and>
     SessionContextSave h st' = Inr (TPM_RC_SUCCESS, Some (contextCounter st), st'')"
proof -
  have si: "session_inv ids st" using assms(1) by (simp add: gap_inv_def)
  have ld: "SessionIsLoaded h st = Inr True"
    using assms(2) by (auto simp: SessionContextSave_def split: sum.splits if_splits)
  have full: "gap_full ids st"
  proof (rule ccontr)
    assume "\<not> gap_full ids st"
    then show False using SessionContextSave_result [OF si ld _ assms(5)] assms(2) by simp
  qed
  obtain st' where ok: "SessionContextLoad ses ho st = Inr (TPM_RC_SUCCESS, st')" and ng: "\<not> gap_full ids st'"
    using load_oldest_clears_gap [OF assms(1) full assms(3,4)] by blast
  have sv: "SessionIsSaved ho st = Inr True" by (rule full_gap_oldest_saved [OF si full assms(3,4)])
  note I = session_inv_load [OF si sv ok]
  have "SessionIsLoaded h st' = Inr True"
    by (rule load_keeps_loaded [OF si sv ok ld])
  then show ?thesis using SessionContextSave_result [of ids st' h] I ng assms(5) ok by auto
qed

theorem context_gap_recoverable_witness:
  "\<exists>st' st''. SessionContextLoad zero_session 0x02000000 ex_gap = Inr (TPM_RC_SUCCESS, st') \<and>
     SessionContextSave 0x02000001 st' = Inr (TPM_RC_SUCCESS, Some 65540, st'')"
proof -
  have "SessionContextSave 0x02000001 ex_gap = Inr (TPM_RC_CONTEXT_GAP, None, ex_gap)" by code_simp
  moreover have "is_session_handle 0x02000000" "handle_index 0x02000000 = s_oldestSavedSession ex_gap"
    "contextCounter ex_gap = 65540" by code_simp+
  ultimately show ?thesis using context_gap_recoverable [OF ex_gap_inv, of "0x02000001" "0x02000000" zero_session] by simp
qed





text \<open>
  C6. \<^verbatim>\<open>ContextIdSetOldest\<close> finds the oldest saved session: the entry whose 64-bit
  identifier is least, although the array only holds the low 16 bits, or an index past the
  array when no session is saved.
\<close>

theorem ContextIdSetOldest_correct:
  assumes "ctx_inv ids (contextArray st) (unat (contextCounter st))"
  defines "old \<equiv> s_oldestSavedSession (ContextIdSetOldest st)"
  shows "if \<exists>i < MAX_ACTIVE_SESSIONS. is_saved (contextArray st ! i)
    then old < MAX_ACTIVE_SESSIONS \<and> is_saved (contextArray st ! old) \<and>
         (\<forall>i < MAX_ACTIVE_SESSIONS. is_saved (contextArray st ! i) \<longrightarrow> ids old \<le> ids i)
    else MAX_ACTIVE_SESSIONS \<le> old"
  using oldest_inv_SetOldest [OF assms(1)] by (simp add: oldest_inv_def old_def ContextIdSetOldest_def)

theorem ContextIdSetOldest_correct_witness:
  "s_oldestSavedSession (ContextIdSetOldest ex_gap) < MAX_ACTIVE_SESSIONS"
proof -
  have "ctx_inv (\<lambda>_. 4) (contextArray ex_gap) (unat (contextCounter ex_gap))"
    using ex_gap_inv by (simp add: gap_inv_def session_inv_def)
  moreover have "\<exists>i < MAX_ACTIVE_SESSIONS. is_saved (contextArray ex_gap ! i)"
    by (intro exI [of _ 0]) (simp add: ex_gap_def)
  ultimately show ?thesis using ContextIdSetOldest_correct [of "\<lambda>_. 4" ex_gap] by simp
qed

text \<open>
  C8. The session capability lists are exact: from the start handle on, in ascending order,
  \<^verbatim>\<open>SessionCapGetLoaded\<close> reports the loaded and \<^verbatim>\<open>SessionCapGetSaved\<close> the saved
  sessions, at most as many as asked for and as fit, and "more" exactly when some are left.
\<close>

theorem session_capability_lists:
  assumes "HandleGetType hl = TPM_HT_LOADED_SESSION" and "HandleGetType hs = TPM_HT_SAVED_SESSION"
  shows "SessionCapGetLoaded hl count st =
      (let c = min (unat count) MAX_CAP_HANDLES; es = List.map_filter (loaded_entry st) [handle_index hl..<MAX_ACTIVE_SESSIONS]
       in Inr (take c es, c < length es)) \<and>
    SessionCapGetSaved hs count st =
      (let c = min (unat count) MAX_CAP_HANDLES; es = List.map_filter (saved_entry st) [handle_index hs..<MAX_ACTIVE_SESSIONS]
       in Inr (take c es, c < length es))"
  using SessionCapGetLoaded_spec [OF assms(1)] SessionCapGetSaved_spec [OF assms(2)] by blast

theorem session_capability_lists_witness:
  "SessionCapGetLoaded HMAC_SESSION_FIRST 1 ex_gap = Inr ([0x02000001], False)"
proof -
  have t: "HandleGetType HMAC_SESSION_FIRST = TPM_HT_LOADED_SESSION" "HandleGetType POLICY_SESSION_FIRST = TPM_HT_SAVED_SESSION"
    by code_simp+
  have "List.map_filter (loaded_entry ex_gap) [handle_index HMAC_SESSION_FIRST..<MAX_ACTIVE_SESSIONS] = [0x02000001]"
    by code_simp
  then show ?thesis using session_capability_lists [OF t, of 1 ex_gap] by (simp add: Let_def)
qed


text \<open>
  C10. When the context counter is at its last value, \<^verbatim>\<open>SessionContextSave\<close> fails with
  \<^verbatim>\<open>TPM_RC_TOO_MANY_CONTEXTS\<close> after it has overwritten the context entry: the session
  is no longer loaded, but its slot stays occupied and is not counted as free.
\<close>

theorem session_lost_on_counter_exhaustion:
  assumes "SessionIsLoaded h st = Inr True" and "contextCounter st = 0xFFFFFFFFFFFFFFFF"
    and "length (contextArray st) = MAX_ACTIVE_SESSIONS" and "MAX_ACTIVE_SESSIONS \<le> s_oldestSavedSession st"
  shows "\<exists>st'. SessionContextSave h st = Inr (TPM_RC_TOO_MANY_CONTEXTS, Some (contextCounter st), st') \<and>
    SessionIsLoaded h st' = Inr False \<and> s_sessions st' = s_sessions st \<and> s_freeSessionSlots st' = s_freeSessionSlots st"
proof -
  note L = SessionIsLoadedD [OF assms(1)]
  show ?thesis using assms L by (simp add: SessionContextSave_def Let_def SessionIsLoaded_iff)
qed

theorem session_lost_on_counter_exhaustion_witness:
  "\<exists>st'. SessionContextSave HMAC_SESSION_FIRST (ex_created\<lparr>contextCounter := 0xFFFFFFFFFFFFFFFF\<rparr>)
     = Inr (TPM_RC_TOO_MANY_CONTEXTS, Some 0xFFFFFFFFFFFFFFFF, st') \<and> s_freeSessionSlots st' = 2"
proof -
  have "SessionIsLoaded HMAC_SESSION_FIRST (ex_created\<lparr>contextCounter := 0xFFFFFFFFFFFFFFFF\<rparr>) = Inr True"
    "length (contextArray ex_created) = MAX_ACTIVE_SESSIONS" "MAX_ACTIVE_SESSIONS \<le> s_oldestSavedSession ex_created"
    "s_freeSessionSlots ex_created = 2"
    by code_simp+
  then show ?thesis
    using session_lost_on_counter_exhaustion [of HMAC_SESSION_FIRST "ex_created\<lparr>contextCounter := 0xFFFFFFFFFFFFFFFF\<rparr>"]
    by auto
qed

end
