(* ===== verification/FTPM_NVMem.thy ===== *)
theory FTPM_NVMem
  imports FTPM_Handle
begin

text \<open>
  The NV memory of the platform (\<^verbatim>\<open>NVMem.c\<close>): the RAM image of the 32 KiB NV space,
  its accessors, and the encrypted file that backs it.  Addresses are natural numbers; sums
  of offsets wrap at $2^{32}$ as \<^verbatim>\<open>unsigned int\<close> does.  The file is its content, the
  block cipher and the success of each file operation are arguments.
\<close>

section \<open>Little-endian integers in memory\<close>

abbreviation u32 :: "nat \<Rightarrow> nat" where "u32 n \<equiv> n mod 2 ^ 32"

primrec le_bytes :: "nat \<Rightarrow> nat \<Rightarrow> BYTE list" where
  "le_bytes 0 n = []"
| "le_bytes (Suc k) n = word_of_nat (n mod 256) # le_bytes k (n div 256)"

primrec le_nat :: "BYTE list \<Rightarrow> nat" where
  "le_nat [] = 0"
| "le_nat (b # bs) = unat b + 256 * le_nat bs"

lemma length_le_bytes [simp]: "length (le_bytes k n) = k"
  by (induction k arbitrary: n) auto

lemma unat_byte_of_nat: "unat (word_of_nat (n mod 256) :: BYTE) = n mod 256"
  by (subst unsigned_of_nat) (simp add: take_bit_eq_mod)

lemma le_nat_le_bytes: "le_nat (le_bytes k n) = n mod 256 ^ k"
proof (induction k arbitrary: n)
  case (Suc k)
  then show ?case by (simp add: unat_byte_of_nat mod_mult2_eq)
qed simp

lemma le_nat_lt: "le_nat bs < 256 ^ length bs"
proof (induction bs)
  case (Cons b bs)
  then have "256 * Suc (le_nat bs) \<le> 256 * 256 ^ length bs" by (intro mult_le_mono2) simp
  then show ?case using unat_byte_lt [of b] by simp
qed simp

lemma le_bytes_le_nat: "le_bytes (length bs) (le_nat bs) = bs"
proof (induction bs)
  case (Cons b bs)
  have "(unat b + 256 * le_nat bs) mod 256 = unat b" "(unat b + 256 * le_nat bs) div 256 = le_nat bs"
    using unat_byte_lt [of b] by simp_all
  then show ?case using Cons by simp
qed simp

text \<open>Reading and writing a range of the address space.\<close>

definition mem_get :: "address_space \<Rightarrow> nat \<Rightarrow> nat \<Rightarrow> BYTE list" where
  "mem_get m a n = map m [a..<a + n]"

definition mem_put :: "address_space \<Rightarrow> nat \<Rightarrow> BYTE list \<Rightarrow> address_space" where
  "mem_put m a bs = (\<lambda>x. if a \<le> x \<and> x < a + length bs then bs ! (x - a) else m x)"

lemma length_mem_get [simp]: "length (mem_get m a n) = n"
  by (simp add: mem_get_def)

lemma mem_get_0 [simp]: "mem_get m a 0 = []"
  by (simp add: mem_get_def)

lemma nth_mem_get: "i < n \<Longrightarrow> mem_get m a n ! i = m (a + i)"
  by (simp add: mem_get_def)

lemma mem_get_put_same: "length bs = n \<Longrightarrow> mem_get (mem_put m a bs) a n = bs"
  by (rule nth_equalityI) (auto simp: nth_mem_get mem_put_def)

lemma mem_get_put_other: "b + n \<le> a \<or> a + length bs \<le> b \<Longrightarrow> mem_get (mem_put m a bs) b n = mem_get m b n"
  by (rule nth_equalityI) (auto simp: nth_mem_get mem_put_def)

lemma mem_get_append: "mem_get m a (n + k) = mem_get m a n @ mem_get m (a + n) k"
  by (rule nth_equalityI) (auto simp: nth_mem_get nth_append)

lemma mem_get_cong: "(\<And>x. a \<le> x \<Longrightarrow> x < a + n \<Longrightarrow> m x = m' x) \<Longrightarrow> mem_get m a n = mem_get m' a n"
  by (rule nth_equalityI) (auto simp: nth_mem_get)

section \<open>State of the platform NV\<close>

abbreviation NV_MEMORY_SIZE :: nat where "NV_MEMORY_SIZE \<equiv> 32768"

record plat_nv =
  p_NV :: address_space
  s_NvFile :: bool
  p_file :: "BYTE list option"
  s_NeedsManufacture :: bool
  s_NvIsAvailable :: bool
  s_NV_unrecoverable :: bool
  s_NV_recoverable :: bool

text \<open>
  Whether the FatFs calls succeed, what a failed read leaves in the ciphertext buffer, and
  the AES-CBC routine with the fixed key and IV.
\<close>

record file_io =
  io_open :: bool
  io_create :: bool
  io_read :: bool
  io_write :: bool
  io_stale :: "BYTE list"
  io_encrypt :: "BYTE list \<Rightarrow> BYTE list"
  io_decrypt :: "BYTE list \<Rightarrow> BYTE list"

section \<open>Access to the NV image\<close>

definition plat_NvMemoryRead :: "nat \<Rightarrow> nat \<Rightarrow> address_space \<Rightarrow> BYTE list fallible" where
  "plat_NvMemoryRead startOffset n nv =
     (if u32 (startOffset + n) \<le> NV_MEMORY_SIZE
      then if startOffset + n \<le> NV_MEMORY_SIZE then Inr (mem_get nv startOffset n) else Inl OUT_OF_BOUNDS
      else Inl PLATFORM_ASSERT)"

definition plat_NvGetChangedStatus :: "nat \<Rightarrow> BYTE list \<Rightarrow> address_space \<Rightarrow> bool fallible" where
  "plat_NvGetChangedStatus startOffset data nv =
     (if u32 (startOffset + length data) \<le> NV_MEMORY_SIZE
      then if startOffset + length data \<le> NV_MEMORY_SIZE
           then Inr (mem_get nv startOffset (length data) \<noteq> data) else Inl OUT_OF_BOUNDS
      else Inl PLATFORM_ASSERT)"

definition plat_NvMemoryWrite :: "nat \<Rightarrow> BYTE list \<Rightarrow> address_space \<Rightarrow> address_space fallible" where
  "plat_NvMemoryWrite startOffset data nv =
     (if u32 (startOffset + length data) \<le> NV_MEMORY_SIZE
      then if startOffset + length data \<le> NV_MEMORY_SIZE
           then Inr (mem_put nv startOffset data) else Inl OUT_OF_BOUNDS
      else Inl PLATFORM_ASSERT)"

definition plat_NvMemoryClear :: "nat \<Rightarrow> nat \<Rightarrow> address_space \<Rightarrow> address_space fallible" where
  "plat_NvMemoryClear startOffset n nv =
     (if u32 (startOffset + n) \<le> NV_MEMORY_SIZE
      then if startOffset + n \<le> NV_MEMORY_SIZE then Inr (MemorySet nv startOffset 0xFF n) else Inl OUT_OF_BOUNDS
      else Inl PLATFORM_ASSERT)"

definition plat_NvMemoryMove :: "nat \<Rightarrow> nat \<Rightarrow> nat \<Rightarrow> address_space \<Rightarrow> address_space fallible" where
  "plat_NvMemoryMove sourceOffset destOffset n nv =
     (if u32 (sourceOffset + n) \<le> NV_MEMORY_SIZE \<and> u32 (destOffset + n) \<le> NV_MEMORY_SIZE
      then if sourceOffset + n \<le> NV_MEMORY_SIZE \<and> destOffset + n \<le> NV_MEMORY_SIZE
           then Inr (memmove nv destOffset sourceOffset n) else Inl OUT_OF_BOUNDS
      else Inl PLATFORM_ASSERT)"

section \<open>The NV file\<close>

definition NvFileCommit :: "file_io \<Rightarrow> plat_nv \<Rightarrow> (bool \<times> plat_nv) fallible" where
  "NvFileCommit io st =
     (if \<not> s_NvFile st then Inr (True, st)
      else let enc = io_encrypt io (mem_get (p_NV st) 0 NV_MEMORY_SIZE);
               old = (case p_file st of None \<Rightarrow> [] | Some c \<Rightarrow> c) in
           if io_write io
           then Inr (True, st\<lparr>p_file := Some (enc @ drop NV_MEMORY_SIZE old)\<rparr>)
           else Inl PLATFORM_ASSERT)"

definition plat_NVEnable :: "file_io \<Rightarrow> plat_nv \<Rightarrow> (int \<times> plat_nv) fallible" where
  "plat_NVEnable io st =
     (let st = st\<lparr>s_NV_unrecoverable := False, s_NV_recoverable := False\<rparr> in
      if s_NvFile st then Inr (0, st)
      else let st = st\<lparr>p_NV := MemorySet (p_NV st) 0 0xFF NV_MEMORY_SIZE\<rparr> in
        case (if p_file st \<noteq> None \<and> io_open io
              then let st = st\<lparr>s_NvFile := True\<rparr>; c = the (p_file st) in
                   if length c = NV_MEMORY_SIZE
                   then Inr (st\<lparr>s_NeedsManufacture := \<not> io_read io,
                                p_NV := mem_put (p_NV st) 0 (io_decrypt io (if io_read io then c else io_stale io))\<rparr>)
                   else (case NvFileCommit io st of Inl e \<Rightarrow> Inl e
                         | Inr (_, st) \<Rightarrow> Inr (st\<lparr>s_NeedsManufacture := True\<rparr>))
              else if io_create io
              then (case NvFileCommit io (st\<lparr>s_NvFile := True, p_file := Some []\<rparr>) of Inl e \<Rightarrow> Inl e
                    | Inr (_, st) \<Rightarrow> Inr (st\<lparr>s_NeedsManufacture := True\<rparr>))
              else Inl PLATFORM_ASSERT) of
          Inl e \<Rightarrow> Inl e
        | Inr st \<Rightarrow>
            if s_NV_unrecoverable st then Inr (- 1, st)
            else Inr (if s_NV_recoverable st then 1 else 0, st\<lparr>s_NvIsAvailable := True\<rparr>))"

text \<open>
  Closing the file.  Deleting its content is attempted with mode \<^verbatim>\<open>"w"\<close>, which
  \<^verbatim>\<open>NvFileOpen\<close> rejects with a message while the old handle is still set; the file
  keeps its content.
\<close>

definition plat_NVDisable :: "bool \<Rightarrow> plat_nv \<Rightarrow> plat_nv" where
  "plat_NVDisable delete st = st\<lparr>s_NvFile := False, s_NvIsAvailable := False\<rparr>"

definition plat_GetNvReadyState :: "plat_nv \<Rightarrow> nat" where
  "plat_GetNvReadyState st = (if \<not> s_NvIsAvailable st then 1 else if \<not> s_NvFile st then 1 else 0)"

definition plat_NvCommit :: "file_io \<Rightarrow> plat_nv \<Rightarrow> (nat \<times> plat_nv) fallible" where
  "plat_NvCommit io st =
     (case NvFileCommit io st of Inl e \<Rightarrow> Inl e | Inr (ok, st) \<Rightarrow> Inr (if ok then 0 else 1, st))"

definition plat_SetNvAvail :: "plat_nv \<Rightarrow> plat_nv" where
  "plat_SetNvAvail st = st\<lparr>s_NvIsAvailable := True\<rparr>"

definition plat_ClearNvAvail :: "plat_nv \<Rightarrow> plat_nv" where
  "plat_ClearNvAvail st = st\<lparr>s_NvIsAvailable := False\<rparr>"

definition plat_NvErrors :: "bool \<Rightarrow> bool \<Rightarrow> plat_nv \<Rightarrow> plat_nv" where
  "plat_NvErrors recoverable unrecoverable st =
     st\<lparr>s_NV_unrecoverable := unrecoverable, s_NV_recoverable := recoverable\<rparr>"

definition plat_NVNeedsManufacture :: "plat_nv \<Rightarrow> bool" where
  "plat_NVNeedsManufacture st = s_NeedsManufacture st"

section \<open>Properties\<close>


definition ex_io :: file_io where
  "ex_io = \<lparr>io_open = True, io_create = True, io_read = True, io_write = True, io_stale = [],
     io_encrypt = rev, io_decrypt = rev\<rparr>"

definition ex_plat :: plat_nv where
  "ex_plat = \<lparr>p_NV = (\<lambda>a. word_of_nat a), s_NvFile = True, p_file = None, s_NeedsManufacture = True,
     s_NvIsAvailable = True, s_NV_unrecoverable = False, s_NV_recoverable = False\<rparr>"




end
