(* ===== verification/FTPM_Codec.thy ===== *)
theory FTPM_Codec
  imports FTPM_Handle
begin

unbundle bit_operations_syntax

text \<open>
  The primitives of \<^verbatim>\<open>Marshal.c\<close> and \<^verbatim>\<open>Unmarshal.c\<close>, and the contract between
  the two sides of a type.

  An output buffer is the pair of the octets written so far and the octets that are left
  (\<^verbatim>\<open>*size\<close>); a marshaler returns the number of octets it wrote.  The model is for calls
  with a buffer and a size, as the response marshaling makes them.  An unmarshaler consumes a
  prefix of its input, whose length is \<^verbatim>\<open>*size\<close>, or returns a response code.  A
  \<^verbatim>\<open>TPM2B\<close> is the list of its octets.
\<close>

abbreviation TPM_RC_INSUFFICIENT :: TPM_RC where "TPM_RC_INSUFFICIENT \<equiv> 0x09A"
abbreviation TPM_RC_SIZE :: TPM_RC where "TPM_RC_SIZE \<equiv> 0x095"
abbreviation TPM_RC_VALUE :: TPM_RC where "TPM_RC_VALUE \<equiv> 0x084"

section \<open>Marshalers and unmarshalers\<close>

type_synonym outbuf = "BYTE list \<times> nat"
type_synonym marshaler = "outbuf \<Rightarrow> (UINT16 \<times> outbuf) fallible"
type_synonym 'a unmarshaler = "BYTE list \<Rightarrow> TPM_RC + ('a \<times> BYTE list)"

text \<open>\<open>put os\<close> is the common body of the marshalers of plain data: check the size, copy, advance.\<close>

definition put :: "BYTE list \<Rightarrow> marshaler" where
  "put os = (\<lambda>(out, left).
     if length os \<le> left then Inr (word_of_nat (length os), out @ os, left - length os)
     else Inl FATAL_ERROR_PARAMETER)"

text \<open>\<^verbatim>\<open>written += a; written += b;\<close>\<close>

definition andM :: "marshaler \<Rightarrow> marshaler \<Rightarrow> marshaler" where
  "andM a b = (\<lambda>out. bindE (a out) (\<lambda>(w1, out). bindE (b out) (\<lambda>(w2, out). Inr (w1 + w2, out))))"

definition doneM :: marshaler where
  "doneM = (\<lambda>out. Inr (0, out))"

definition failM :: "fatal \<Rightarrow> marshaler" where
  "failM e = (\<lambda>out. Inl e)"

definition bindU :: "TPM_RC + ('a \<times> BYTE list) \<Rightarrow> ('a \<Rightarrow> 'b unmarshaler) \<Rightarrow> TPM_RC + ('b \<times> BYTE list)" where
  "bindU m f = (case m of Inl rc \<Rightarrow> Inl rc | Inr (x, rest) \<Rightarrow> f x rest)"

text \<open>\<^verbatim>\<open>rc = u(...); if (rc == TPM_RC_SUCCESS) if (!ok(*target)) rc = bad;\<close>\<close>

definition checked :: "'a unmarshaler \<Rightarrow> ('a \<Rightarrow> bool) \<Rightarrow> TPM_RC \<Rightarrow> 'a unmarshaler" where
  "checked u ok bad = (\<lambda>bs. bindU (u bs) (\<lambda>x rest. if ok x then Inr (x, rest) else Inl bad))"

lemma bindU_eq_Inr_iff:
  "bindU m f = Inr y \<longleftrightarrow> (\<exists>x rest. m = Inr (x, rest) \<and> f x rest = Inr y)"
  by (auto simp: bindU_def split: sum.split)

lemma bindU_simps [simp]:
  "bindU (Inl rc) f = Inl rc"
  "bindU (Inr (x, rest)) f = f x rest"
  by (simp_all add: bindU_def)

section \<open>The contract of a type\<close>

text \<open>\<open>emits m os\<close>: the marshaler writes the octets \<open>os\<close>, or trips the size assertion.\<close>

definition emits :: "marshaler \<Rightarrow> BYTE list \<Rightarrow> bool" where
  "emits m os \<longleftrightarrow> (\<forall>out. m out = put os out)"

lemma emits_put: "emits (put os) os"
  by (simp add: emits_def)

lemma emits_doneM: "emits doneM []"
  by (simp add: emits_def doneM_def put_def split: prod.split)

lemma emits_andM: "emits a os \<Longrightarrow> emits b os' \<Longrightarrow> emits (andM a b) (os @ os')"
proof -
  assume a: "emits a os" and b: "emits b os'"
  have "andM a b (out, left) = put (os @ os') (out, left)" for out left
    using a b by (simp add: emits_def andM_def put_def) arith
  then show ?thesis by (simp add: emits_def)
qed

lemma emitsD: "emits m os \<Longrightarrow> m (out, left) =
    (if length os \<le> left then Inr (word_of_nat (length os), out @ os, left - length os) else Inl FATAL_ERROR_PARAMETER)"
  by (simp add: emits_def put_def)

lemma emits_unique:
  assumes "emits m os" and "emits m os'"
  shows "os = os'"
proof -
  have "fst (snd (projr (m ([], length os + length os')))) = os" by (simp add: emitsD [OF assms(1)])
  moreover have "fst (snd (projr (m ([], length os + length os')))) = os'" by (simp add: emitsD [OF assms(2)])
  ultimately show ?thesis by simp
qed

locale codec =
  fixes marshal :: "'a \<Rightarrow> marshaler" and unmarshal :: "'a unmarshaler" and ok :: "'a \<Rightarrow> bool" and bound :: nat
  assumes sound: "unmarshal bs = Inr (x, rest) \<Longrightarrow> ok x \<and> (\<exists>os. emits (marshal x) os \<and> bs = os @ rest)"
    and complete: "ok x \<Longrightarrow> \<exists>os. emits (marshal x) os \<and> length os \<le> bound \<and> (\<forall>rest. unmarshal (os @ rest) = Inr (x, rest))"
begin

lemma round_trip:
  assumes "ok x" and "marshal x ([], n) = Inr (w, os, left)"
  shows "unmarshal (os @ rest) = Inr (x, rest)"
  using complete [OF assms(1)] assms(2) by (auto simp: emitsD split: if_splits)

lemma canonical:
  assumes "unmarshal bs = Inr (x, rest)" and "length bs \<le> n + length rest"
  shows "\<exists>os. bs = os @ rest \<and> marshal x ([], n) = Inr (word_of_nat (length os), os, n - length os)"
  using sound [OF assms(1)] assms(2) by (auto simp: emitsD)

lemma unmarshal_emitted:
  assumes "ok x" and "emits (marshal x) os"
  shows "unmarshal (os @ rest) = Inr (x, rest)"
proof -
  from complete [OF assms(1)] obtain os' where "emits (marshal x) os'" and "unmarshal (os' @ rest) = Inr (x, rest)" by auto
  then show ?thesis using emits_unique [OF assms(2)] by simp
qed

lemma bounded: "ok x \<Longrightarrow> emits (marshal x) os \<Longrightarrow> length os \<le> bound"
  using complete [of x] emits_unique by blast

lemma injective:
  "ok x \<Longrightarrow> ok y \<Longrightarrow> emits (marshal x) os \<Longrightarrow> emits (marshal y) os \<Longrightarrow> x = y"
  using unmarshal_emitted [of x os "[]"] unmarshal_emitted [of y os "[]"] by simp

text \<open>
  The unmarshaler accepts exactly the encodings of the well-formed values, each of which has one
  encoding; a buffer of \<open>bound\<close> octets is large enough to marshal them.
\<close>

lemma exact:
  "unmarshal bs = Inr (x, rest) \<longleftrightarrow>
     ok x \<and> (\<exists>os. marshal x ([], bound) = Inr (word_of_nat (length os), os, bound - length os) \<and> bs = os @ rest)"
proof
  assume u: "unmarshal bs = Inr (x, rest)"
  then obtain os where os: "ok x" "emits (marshal x) os" "bs = os @ rest" using sound by blast
  then have "marshal x ([], bound) = Inr (word_of_nat (length os), os, bound - length os)"
    using bounded [OF os(1,2)] emitsD [OF os(2), of "[]" bound] by simp
  then show "ok x \<and> (\<exists>os. marshal x ([], bound) = Inr (word_of_nat (length os), os, bound - length os) \<and> bs = os @ rest)"
    using os by blast
next
  assume "ok x \<and> (\<exists>os. marshal x ([], bound) = Inr (word_of_nat (length os), os, bound - length os) \<and> bs = os @ rest)"
  then show "unmarshal bs = Inr (x, rest)" using round_trip by blast
qed

text \<open>No encoding is a proper prefix of the encoding of another value.\<close>

lemma prefix_free:
  "ok x \<Longrightarrow> ok y \<Longrightarrow> emits (marshal x) os \<Longrightarrow> emits (marshal y) (os @ os') \<Longrightarrow> os' = []"
  using unmarshal_emitted [of x os os'] unmarshal_emitted [of y "os @ os'" "[]"] by simp

end

lemma codec_weaken:
  assumes "codec m u P k" and "\<And>x. P x \<longleftrightarrow> Q x" and "k \<le> l"
  shows "codec m u Q l"
  using assms unfolding codec_def by (meson le_trans)

lemma codec_step:
  assumes c: "codec m1 u1 P1 k"
    and r: "\<And>x. P1 x \<Longrightarrow> codec m (u x) (R x) l"
    and f: "\<And>x s. P1 x \<Longrightarrow> R x s \<Longrightarrow> f s = x"
  shows "codec (\<lambda>s. andM (m1 (f s)) (m s)) (\<lambda>bs. bindU (u1 bs) u) (\<lambda>s. P1 (f s) \<and> R (f s) s) (k + l)"
proof
  fix bs s rest
  assume "bindU (u1 bs) u = Inr (s, rest)"
  then obtain x r' where u1: "u1 bs = Inr (x, r')" and u: "u x r' = Inr (s, rest)"
    by (auto simp: bindU_eq_Inr_iff)
  from codec.sound [OF c u1] obtain os where P1: "P1 x" and os: "emits (m1 x) os" "bs = os @ r'" by auto
  from codec.sound [OF r [OF P1] u] obtain os' where R: "R x s" and os': "emits (m s) os'" "r' = os' @ rest" by auto
  have x: "f s = x" using f [OF P1 R] .
  have "emits (andM (m1 (f s)) (m s)) (os @ os')" using os os' x by (simp add: emits_andM)
  moreover have "bs = (os @ os') @ rest" using os(2) os'(2) by simp
  ultimately show "(P1 (f s) \<and> R (f s) s) \<and> (\<exists>os. emits (andM (m1 (f s)) (m s)) os \<and> bs = os @ rest)"
    using P1 R x by blast
next
  fix s
  assume s: "P1 (f s) \<and> R (f s) s"
  from codec.complete [OF c] s obtain os where os: "emits (m1 (f s)) os" "length os \<le> k"
    "\<forall>rest. u1 (os @ rest) = Inr (f s, rest)" by blast
  from codec.complete [OF r] s obtain os' where os': "emits (m s) os'" "length os' \<le> l"
    "\<forall>rest. u (f s) (os' @ rest) = Inr (s, rest)" by blast
  have "emits (andM (m1 (f s)) (m s)) (os @ os')" using os os' by (simp add: emits_andM)
  moreover have "\<forall>rest. bindU (u1 ((os @ os') @ rest)) u = Inr (s, rest)" using os os' by simp
  moreover have "length (os @ os') \<le> k + l" using os(2) os'(2) by simp
  ultimately show "\<exists>os. emits (andM (m1 (f s)) (m s)) os \<and> length os \<le> k + l \<and>
      (\<forall>rest. bindU (u1 (os @ rest)) u = Inr (s, rest))" by blast
qed

lemma codec_done: "codec (\<lambda>s. doneM) (\<lambda>bs. Inr (c, bs)) (\<lambda>s. s = c) 0"
  by unfold_locales (auto intro!: exI [of _ "[]"] simp: emits_doneM)

lemma codec_fail: "codec m (\<lambda>bs. Inl rc) (\<lambda>x. False) k"
  by unfold_locales auto

lemma codec_if:
  assumes "b \<Longrightarrow> codec m u P k"
  shows "codec m (\<lambda>bs. if b then u bs else Inl rc) (\<lambda>s. b \<and> P s) k"
  using assms codec_fail [of m rc k] by (cases b) simp_all

lemma codec_checked:
  assumes c: "codec m u P k"
  shows "codec m (checked u Q rc) (\<lambda>x. P x \<and> Q x) k"
proof
  fix bs x rest
  assume "checked u Q rc bs = Inr (x, rest)"
  then have "u bs = Inr (x, rest)" and "Q x" by (auto simp: checked_def bindU_eq_Inr_iff split: if_splits)
  then show "(P x \<and> Q x) \<and> (\<exists>os. emits (m x) os \<and> bs = os @ rest)" using codec.sound [OF c] by blast
next
  fix x
  assume x: "P x \<and> Q x"
  with codec.complete [OF c] obtain os where os: "emits (m x) os" "length os \<le> k"
    "\<forall>rest. u (os @ rest) = Inr (x, rest)" by blast
  then have "\<forall>rest. checked u Q rc (os @ rest) = Inr (x, rest)" using x by (simp add: checked_def)
  with os(1,2) show "\<exists>os. emits (m x) os \<and> length os \<le> k \<and> (\<forall>rest. checked u Q rc (os @ rest) = Inr (x, rest))" by blast
qed

lemma codec_checked_any: "codec m u (\<lambda>x. True) k \<Longrightarrow> codec m (checked u Q rc) Q k"
  using codec_checked [of m u "\<lambda>x. True" k Q rc] by simp

lemma codec_cong:
  assumes c: "codec m u P k" and m: "\<And>x. P x \<Longrightarrow> m x = m' x"
  shows "codec m' u P k"
proof
  fix bs x rest
  assume "u bs = Inr (x, rest)"
  then show "P x \<and> (\<exists>os. emits (m' x) os \<and> bs = os @ rest)" using codec.sound [OF c] m by metis
next
  fix x
  assume "P x"
  then show "\<exists>os. emits (m' x) os \<and> length os \<le> k \<and> (\<forall>rest. u (os @ rest) = Inr (x, rest))"
    using codec.complete [OF c] m by metis
qed

text \<open>A type that holds another one: a member of a union, a structure with one field.\<close>

lemma codec_member:
  assumes c: "codec m u P k" and M: "\<And>x. P x \<Longrightarrow> M (C x) = m x"
  shows "codec M (\<lambda>bs. bindU (u bs) (\<lambda>x rest. Inr (C x, rest))) (\<lambda>y. \<exists>x. y = C x \<and> P x) k"
proof
  fix bs y rest
  assume "bindU (u bs) (\<lambda>x rest. Inr (C x, rest)) = Inr (y, rest)"
  then obtain x where "u bs = Inr (x, rest)" and "y = C x" by (auto simp: bindU_eq_Inr_iff)
  then show "(\<exists>x. y = C x \<and> P x) \<and> (\<exists>os. emits (M y) os \<and> bs = os @ rest)"
    using codec.sound [OF c] M by metis
next
  fix y
  assume "\<exists>x. y = C x \<and> P x"
  then obtain x where x: "P x" "y = C x" by auto
  with codec.complete [OF c] obtain os where "emits (m x) os" "length os \<le> k" "\<forall>rest. u (os @ rest) = Inr (x, rest)" by blast
  then show "\<exists>os. emits (M y) os \<and> length os \<le> k \<and> (\<forall>rest. bindU (u (os @ rest)) (\<lambda>x rest. Inr (C x, rest)) = Inr (y, rest))"
    using x M by auto
qed

lemma codec_cond:
  assumes "b \<Longrightarrow> codec m u P k" and "\<not> b \<Longrightarrow> codec m' u' P' l"
  shows "codec (\<lambda>x. if b then m x else m' x) (\<lambda>bs. if b then u bs else u' bs) (\<lambda>x. if b then P x else P' x) (max k l)"
  using assms by (cases b) (auto intro: codec_weaken)

text \<open>Structures with two to six fields; the type of a field may depend on the first one.\<close>

lemma codec_pair:
  assumes "codec m1 u1 P1 k1" and "\<And>x. P1 x \<Longrightarrow> codec (m2 x) (u2 x) (P2 x) k2"
  shows "codec (\<lambda>(x, y). andM (m1 x) (m2 x y))
           (\<lambda>bs. bindU (u1 bs) (\<lambda>x bs. bindU (u2 x bs) (\<lambda>y bs. Inr ((x, y), bs))))
           (\<lambda>(x, y). P1 x \<and> P2 x y) (k1 + k2)"
proof -
  have "codec (\<lambda>s. andM (m1 (fst s)) (m2 (fst s) (snd s)))
      (\<lambda>bs. bindU (u1 bs) (\<lambda>x bs. bindU (u2 x bs) (\<lambda>y bs. Inr ((x, y), bs))))
      (\<lambda>s. P1 (fst s) \<and> (\<exists>y. s = (fst s, y) \<and> P2 (fst s) y)) (k1 + k2)"
    by (rule codec_step [OF assms(1)], rule codec_member [OF assms(2)]) auto
  then show ?thesis by (auto elim!: codec_weaken simp: case_prod_beta')
qed

lemma bindU_assoc: "bindU (bindU m f) g = bindU m (\<lambda>x bs. bindU (f x bs) g)"
  by (auto simp: bindU_def split: sum.split)

lemma codec_struct2:
  assumes c1: "codec m1 u1 P1 k1"
    and c2: "\<And>x. P1 x \<Longrightarrow> codec (m2 x) (u2 x) (P2 x) k2"
    and M: "\<And>x y. P1 x \<Longrightarrow> P2 x y \<Longrightarrow> M (C x y) = andM (m1 x) (m2 x y)"
    and U: "\<And>bs. U bs = bindU (u1 bs) (\<lambda>x bs. bindU (u2 x bs) (\<lambda>y bs. Inr (C x y, bs)))"
    and Q: "\<And>x y. Q (C x y) \<longleftrightarrow> P1 x \<and> P2 x y"
    and ex: "\<And>s. \<exists>x y. s = C x y"
    and le: "k1 + k2 \<le> k"
  shows "codec M U Q k"
proof -
  let ?P = "\<lambda>s. \<exists>p. s = case_prod C p \<and> (case p of (x, y) \<Rightarrow> P1 x \<and> P2 x y)"
  have "codec M (\<lambda>bs. bindU (bindU (u1 bs) (\<lambda>x bs. bindU (u2 x bs) (\<lambda>y bs. Inr ((x, y), bs)))) (\<lambda>s bs. Inr (case_prod C s, bs)))
      ?P (k1 + k2)"
    by (rule codec_member [OF codec_pair [OF c1 c2]]) (auto simp: M)
  then have "codec M U ?P (k1 + k2)" by (simp add: bindU_assoc U [abs_def])
  moreover have "?P s \<longleftrightarrow> Q s" for s
  proof -
    obtain x y where s: "s = C x y" using ex by blast
    show ?thesis
    proof
      assume "?P s"
      then obtain x' y' where "s = C x' y'" and "P1 x' \<and> P2 x' y'" by auto
      then show "Q s" by (simp add: Q)
    next
      assume "Q s"
      then have "P1 x \<and> P2 x y" by (simp add: s Q)
      then show "?P s" using s by (intro exI [of _ "(x, y)"]) simp
    qed
  qed
  ultimately show ?thesis using le by (rule codec_weaken)
qed

lemma codec_struct3:
  assumes c1: "codec m1 u1 P1 k1"
    and c2: "\<And>x. P1 x \<Longrightarrow> codec (m2 x) (u2 x) (P2 x) k2"
    and c3: "\<And>x. P1 x \<Longrightarrow> codec (m3 x) (u3 x) (P3 x) k3"
    and M: "\<And>x y z. P1 x \<Longrightarrow> P2 x y \<Longrightarrow> P3 x z \<Longrightarrow> M (C x y z) = andM (m1 x) (andM (m2 x y) (m3 x z))"
    and U: "\<And>bs. U bs = bindU (u1 bs) (\<lambda>x bs. bindU (u2 x bs) (\<lambda>y bs. bindU (u3 x bs) (\<lambda>z bs. Inr (C x y z, bs))))"
    and Q: "\<And>x y z. Q (C x y z) \<longleftrightarrow> P1 x \<and> P2 x y \<and> P3 x z"
    and ex: "\<And>s. \<exists>x y z. s = C x y z"
    and le: "k1 + k2 + k3 \<le> k"
  shows "codec M U Q k"
proof -
  have pair: "codec (\<lambda>(y, z). andM (m2 x y) (m3 x z))
      (\<lambda>bs. bindU (u2 x bs) (\<lambda>y bs. bindU (u3 x bs) (\<lambda>z bs. Inr ((y, z), bs))))
      (\<lambda>(y, z). P2 x y \<and> P3 x z) (k2 + k3)" if "P1 x" for x
    using codec_pair [OF c2 [OF that] c3 [OF that]] .
  show ?thesis
    by (rule codec_struct2 [where C = "\<lambda>x p. case_prod (C x) p", OF c1 pair])
       (use ex le in \<open>auto simp: M U Q bindU_assoc\<close>)
qed

lemma codec_struct4:
  assumes c1: "codec m1 u1 P1 k1"
    and c2: "\<And>x. P1 x \<Longrightarrow> codec (m2 x) (u2 x) (P2 x) k2"
    and c3: "\<And>x. P1 x \<Longrightarrow> codec (m3 x) (u3 x) (P3 x) k3"
    and c4: "\<And>x. P1 x \<Longrightarrow> codec (m4 x) (u4 x) (P4 x) k4"
    and M: "\<And>x y z v. P1 x \<Longrightarrow> P2 x y \<Longrightarrow> P3 x z \<Longrightarrow> P4 x v \<Longrightarrow> M (C x y z v) = andM (m1 x) (andM (m2 x y) (andM (m3 x z) (m4 x v)))"
    and U: "\<And>bs. U bs = bindU (u1 bs) (\<lambda>x bs. bindU (u2 x bs) (\<lambda>y bs. bindU (u3 x bs) (\<lambda>z bs. bindU (u4 x bs) (\<lambda>v bs. Inr (C x y z v, bs)))))"
    and Q: "\<And>x y z v. Q (C x y z v) \<longleftrightarrow> P1 x \<and> P2 x y \<and> P3 x z \<and> P4 x v"
    and ex: "\<And>s. \<exists>x y z v. s = C x y z v"
    and le: "k1 + k2 + k3 + k4 \<le> k"
  shows "codec M U Q k"
proof -
  have pair: "codec (\<lambda>(z, v). andM (m3 x z) (m4 x v))
      (\<lambda>bs. bindU (u3 x bs) (\<lambda>z bs. bindU (u4 x bs) (\<lambda>v bs. Inr ((z, v), bs))))
      (\<lambda>(z, v). P3 x z \<and> P4 x v) (k3 + k4)" if "P1 x" for x
    using codec_pair [OF c3 [OF that] c4 [OF that]] .
  show ?thesis
    by (rule codec_struct3 [where C = "\<lambda>x y p. case_prod (C x y) p", OF c1 c2 pair])
       (use ex le in \<open>auto simp: M U Q bindU_assoc\<close>)
qed

lemma codec_struct5:
  assumes c1: "codec m1 u1 P1 k1"
    and c2: "\<And>x. P1 x \<Longrightarrow> codec (m2 x) (u2 x) (P2 x) k2"
    and c3: "\<And>x. P1 x \<Longrightarrow> codec (m3 x) (u3 x) (P3 x) k3"
    and c4: "\<And>x. P1 x \<Longrightarrow> codec (m4 x) (u4 x) (P4 x) k4"
    and c5: "\<And>x. P1 x \<Longrightarrow> codec (m5 x) (u5 x) (P5 x) k5"
    and M: "\<And>x y z v w. P1 x \<Longrightarrow> P2 x y \<Longrightarrow> P3 x z \<Longrightarrow> P4 x v \<Longrightarrow> P5 x w \<Longrightarrow> M (C x y z v w) = andM (m1 x) (andM (m2 x y) (andM (m3 x z) (andM (m4 x v) (m5 x w))))"
    and U: "\<And>bs. U bs = bindU (u1 bs) (\<lambda>x bs. bindU (u2 x bs) (\<lambda>y bs. bindU (u3 x bs) (\<lambda>z bs. bindU (u4 x bs) (\<lambda>v bs. bindU (u5 x bs) (\<lambda>w bs. Inr (C x y z v w, bs))))))"
    and Q: "\<And>x y z v w. Q (C x y z v w) \<longleftrightarrow> P1 x \<and> P2 x y \<and> P3 x z \<and> P4 x v \<and> P5 x w"
    and ex: "\<And>s. \<exists>x y z v w. s = C x y z v w"
    and le: "k1 + k2 + k3 + k4 + k5 \<le> k"
  shows "codec M U Q k"
proof -
  have pair: "codec (\<lambda>(v, w). andM (m4 x v) (m5 x w))
      (\<lambda>bs. bindU (u4 x bs) (\<lambda>v bs. bindU (u5 x bs) (\<lambda>w bs. Inr ((v, w), bs))))
      (\<lambda>(v, w). P4 x v \<and> P5 x w) (k4 + k5)" if "P1 x" for x
    using codec_pair [OF c4 [OF that] c5 [OF that]] .
  show ?thesis
    by (rule codec_struct4 [where C = "\<lambda>x y z p. case_prod (C x y z) p", OF c1 c2 c3 pair])
       (use ex le in \<open>auto simp: M U Q bindU_assoc\<close>)
qed

lemma codec_struct6:
  assumes c1: "codec m1 u1 P1 k1"
    and c2: "\<And>x. P1 x \<Longrightarrow> codec (m2 x) (u2 x) (P2 x) k2"
    and c3: "\<And>x. P1 x \<Longrightarrow> codec (m3 x) (u3 x) (P3 x) k3"
    and c4: "\<And>x. P1 x \<Longrightarrow> codec (m4 x) (u4 x) (P4 x) k4"
    and c5: "\<And>x. P1 x \<Longrightarrow> codec (m5 x) (u5 x) (P5 x) k5"
    and c6: "\<And>x. P1 x \<Longrightarrow> codec (m6 x) (u6 x) (P6 x) k6"
    and M: "\<And>x y z v w q. P1 x \<Longrightarrow> P2 x y \<Longrightarrow> P3 x z \<Longrightarrow> P4 x v \<Longrightarrow> P5 x w \<Longrightarrow> P6 x q \<Longrightarrow> M (C x y z v w q) = andM (m1 x) (andM (m2 x y) (andM (m3 x z) (andM (m4 x v) (andM (m5 x w) (m6 x q)))))"
    and U: "\<And>bs. U bs = bindU (u1 bs) (\<lambda>x bs. bindU (u2 x bs) (\<lambda>y bs. bindU (u3 x bs) (\<lambda>z bs. bindU (u4 x bs) (\<lambda>v bs. bindU (u5 x bs) (\<lambda>w bs. bindU (u6 x bs) (\<lambda>q bs. Inr (C x y z v w q, bs)))))))"
    and Q: "\<And>x y z v w q. Q (C x y z v w q) \<longleftrightarrow> P1 x \<and> P2 x y \<and> P3 x z \<and> P4 x v \<and> P5 x w \<and> P6 x q"
    and ex: "\<And>s. \<exists>x y z v w q. s = C x y z v w q"
    and le: "k1 + k2 + k3 + k4 + k5 + k6 \<le> k"
  shows "codec M U Q k"
proof -
  have pair: "codec (\<lambda>(w, q). andM (m5 x w) (m6 x q))
      (\<lambda>bs. bindU (u5 x bs) (\<lambda>w bs. bindU (u6 x bs) (\<lambda>q bs. Inr ((w, q), bs))))
      (\<lambda>(w, q). P5 x w \<and> P6 x q) (k5 + k6)" if "P1 x" for x
    using codec_pair [OF c5 [OF that] c6 [OF that]] .
  show ?thesis
    by (rule codec_struct5 [where C = "\<lambda>x y z v p. case_prod (C x y z v) p", OF c1 c2 c3 c4 pair])
       (use ex le in \<open>auto simp: M U Q bindU_assoc\<close>)
qed

section \<open>Integers and octet strings\<close>

definition UINT8_Marshal :: "UINT8 \<Rightarrow> marshaler" where
  "UINT8_Marshal source = put [source]"

definition UINT16_Marshal :: "UINT16 \<Rightarrow> marshaler" where
  "UINT16_Marshal source = put [ucast (drop_bit 8 source AND 0xff), ucast (drop_bit 0 source AND 0xff)]"

definition UINT32_Marshal :: "UINT32 \<Rightarrow> marshaler" where
  "UINT32_Marshal source =
     put [ucast (drop_bit 24 source AND 0xff), ucast (drop_bit 16 source AND 0xff),
          ucast (drop_bit 8 source AND 0xff), ucast (drop_bit 0 source AND 0xff)]"

definition UINT64_Marshal :: "UINT64 \<Rightarrow> marshaler" where
  "UINT64_Marshal source =
     put [ucast (drop_bit 56 source AND 0xff), ucast (drop_bit 48 source AND 0xff),
          ucast (drop_bit 40 source AND 0xff), ucast (drop_bit 32 source AND 0xff),
          ucast (drop_bit 24 source AND 0xff), ucast (drop_bit 16 source AND 0xff),
          ucast (drop_bit 8 source AND 0xff), ucast (drop_bit 0 source AND 0xff)]"

definition UINT8_Unmarshal :: "UINT8 unmarshaler" where
  "UINT8_Unmarshal bs = (if length bs < 1 then Inl TPM_RC_INSUFFICIENT else Inr (bs ! 0, drop 1 bs))"

definition UINT16_Unmarshal :: "UINT16 unmarshaler" where
  "UINT16_Unmarshal bs =
     (if length bs < 2 then Inl TPM_RC_INSUFFICIENT
      else Inr (push_bit 8 (ucast (bs ! 0)) OR push_bit 0 (ucast (bs ! 1)), drop 2 bs))"

definition UINT32_Unmarshal :: "UINT32 unmarshaler" where
  "UINT32_Unmarshal bs =
     (if length bs < 4 then Inl TPM_RC_INSUFFICIENT
      else Inr (push_bit 24 (ucast (bs ! 0)) OR push_bit 16 (ucast (bs ! 1)) OR
                push_bit 8 (ucast (bs ! 2)) OR push_bit 0 (ucast (bs ! 3)), drop 4 bs))"

definition UINT64_Unmarshal :: "UINT64 unmarshaler" where
  "UINT64_Unmarshal bs =
     (if length bs < 8 then Inl TPM_RC_INSUFFICIENT
      else Inr (push_bit 56 (ucast (bs ! 0)) OR push_bit 48 (ucast (bs ! 1)) OR
                push_bit 40 (ucast (bs ! 2)) OR push_bit 32 (ucast (bs ! 3)) OR
                push_bit 24 (ucast (bs ! 4)) OR push_bit 16 (ucast (bs ! 5)) OR
                push_bit 8 (ucast (bs ! 6)) OR push_bit 0 (ucast (bs ! 7)), drop 8 bs))"

lemma mask_8: "(0xff :: 'a::len word) = mask 8"
  by (simp add: mask_eq_exp_minus_1)


lemma octet_bit: "bit (ucast (drop_bit k (w :: 'a::len word) AND 0xff) :: BYTE) n \<longleftrightarrow> n < 8 \<and> bit w (k + n)"
  using bit_imp_le_length [of w "k + n"]
  by (auto simp: mask_8 bit_unsigned_iff bit_and_iff bit_mask_iff bit_drop_bit_eq possible_bit_word)

lemma piece_bit:
  "bit (push_bit k (ucast (b :: BYTE)) :: 'a::len word) n \<longleftrightarrow> n < LENGTH('a) \<and> k \<le> n \<and> n < k + 8 \<and> bit b (n - k)"
proof -
  have "bit b (n - k) \<Longrightarrow> n - k < 8" using bit_imp_le_length [of b "n - k"] by simp
  then show ?thesis by (auto simp: bit_push_bit_iff bit_unsigned_iff possible_bit_word)
qed

lemma codec_word:
  assumes enc: "\<And>w. length (enc w) = k"
    and dec: "\<And>w rest. dec (enc w @ rest) = w"
    and inv: "\<And>os rest. length os = k \<Longrightarrow> enc (dec (os @ rest)) = os"
  shows "codec (\<lambda>w. put (enc w)) (\<lambda>bs. if length bs < k then Inl rc else Inr (dec bs, drop k bs)) (\<lambda>w. True) k"
proof
  fix bs x rest
  assume "(if length bs < k then Inl rc else Inr (dec bs, drop k bs)) = Inr (x, rest)"
  then have bs: "k \<le> length bs" "x = dec bs" "rest = drop k bs" by (simp_all split: if_splits)
  have "enc x = take k bs" using inv [of "take k bs" "drop k bs"] bs by simp
  then have "bs = enc x @ rest" using bs(3) by simp
  then show "True \<and> (\<exists>os. emits (put (enc x)) os \<and> bs = os @ rest)" using emits_put by blast
next
  fix x
  have "\<forall>rest. (if length (enc x @ rest) < k then Inl rc else Inr (dec (enc x @ rest), drop k (enc x @ rest))) = Inr (x, rest)"
    using enc dec by simp
  then show "\<exists>os. emits (put (enc x)) os \<and> length os \<le> k \<and>
      (\<forall>rest. (if length (os @ rest) < k then Inl rc else Inr (dec (os @ rest), drop k (os @ rest))) = Inr (x, rest))"
    using emits_put enc by (metis order_refl)
qed

lemma piece_octet_bit:
  "bit (push_bit k (ucast (ucast (drop_bit k w AND 0xff) :: BYTE)) :: 'a::len word) n \<longleftrightarrow>
   k \<le> n \<and> n < k + 8 \<and> bit (w :: 'a word) n"
  using bit_imp_le_length [of w n] by (auto simp: piece_bit octet_bit)

lemmas octet_simps = bit_or_iff bit_drop_bit_eq octet_bit octet_bit [of 0, simplified] piece_bit piece_bit [of 0, simplified]

lemmas piece_simps = bit_or_iff piece_octet_bit piece_octet_bit [of 0, simplified]

lemma codec_UINT8: "codec UINT8_Marshal UINT8_Unmarshal (\<lambda>x. True) 1"
  unfolding UINT8_Marshal_def UINT8_Unmarshal_def by (rule codec_word) (auto simp: length_Suc_conv)

lemma codec_UINT16: "codec UINT16_Marshal UINT16_Unmarshal (\<lambda>x. True) 2"
  unfolding UINT16_Marshal_def UINT16_Unmarshal_def
proof (rule codec_word, goal_cases)
  case (2 w rest)
  show ?case by (rule bit_word_eqI) (simp add: piece_simps, linarith)
next
  case (3 os rest)
  then show ?case by (auto simp: length_2_conv octet_simps intro!: bit_word_eqI)
qed simp

lemma codec_UINT32: "codec UINT32_Marshal UINT32_Unmarshal (\<lambda>x. True) 4"
  unfolding UINT32_Marshal_def UINT32_Unmarshal_def
proof (rule codec_word, goal_cases)
  case (2 w rest)
  show ?case by (rule bit_word_eqI) (simp add: piece_simps, linarith)
next
  case (3 os rest)
  then show ?case by (auto simp: length_4_conv octet_simps intro!: bit_word_eqI)
qed simp

lemma codec_UINT64: "codec UINT64_Marshal UINT64_Unmarshal (\<lambda>x. True) 8"
  unfolding UINT64_Marshal_def UINT64_Unmarshal_def
proof (rule codec_word, goal_cases)
  case (2 w rest)
  show ?case by (rule bit_word_eqI) (simp add: piece_simps, linarith)
next
  case (3 os rest)
  then show ?case by (auto simp: length_8_conv octet_simps intro!: bit_word_eqI)
qed simp

definition Array_Marshal :: "BYTE list \<Rightarrow> marshaler" where
  "Array_Marshal source = put source"

definition Array_Unmarshal :: "nat \<Rightarrow> BYTE list unmarshaler" where
  "Array_Unmarshal targetSize bs =
     (if length bs < targetSize then Inl TPM_RC_INSUFFICIENT else Inr (take targetSize bs, drop targetSize bs))"

definition TPM2B_Marshal :: "BYTE list \<Rightarrow> marshaler" where
  "TPM2B_Marshal source = andM (UINT16_Marshal (word_of_nat (length source))) (Array_Marshal source)"

definition TPM2B_Unmarshal :: "UINT16 \<Rightarrow> BYTE list unmarshaler" where
  "TPM2B_Unmarshal targetSize bs =
     bindU (UINT16_Unmarshal bs) (\<lambda>size rest.
       if size \<le> targetSize then Array_Unmarshal (unat size) rest else Inl TPM_RC_SIZE)"

lemma codec_Array: "codec Array_Marshal (Array_Unmarshal n) (\<lambda>b. length b = n) n"
  by unfold_locales
     (auto simp: Array_Marshal_def Array_Unmarshal_def split: if_splits
           intro: emits_put exI [of _ "take n bs" for bs])

lemma codec_TPM2B: "codec TPM2B_Marshal (TPM2B_Unmarshal mx) (\<lambda>b. length b \<le> unat mx) (2 + unat mx)"
  unfolding TPM2B_Marshal_def TPM2B_Unmarshal_def
proof (rule codec_weaken, rule codec_step [where f = "\<lambda>b. word_of_nat (length b)", OF codec_UINT16])
  show "codec Array_Marshal (\<lambda>rest. if size \<le> mx then Array_Unmarshal (unat size) rest else Inl TPM_RC_SIZE)
      (\<lambda>b. size \<le> mx \<and> length b = unat size) (unat mx)" for size
    by (rule codec_if, rule codec_weaken [OF codec_Array]) (simp_all add: word_le_nat_alt)
next
  fix b :: "BYTE list"
  have "length b = unat (word_of_nat (length b) :: UINT16) \<longleftrightarrow> length b < 65536"
    using unat_lt [of "word_of_nat (length b) :: UINT16"] by (auto simp: unat_of_nat)
  then show "(True \<and> word_of_nat (length b) \<le> mx \<and> length b = unat (word_of_nat (length b) :: UINT16)) \<longleftrightarrow> length b \<le> unat mx"
    using unat_lt [of mx] by (auto simp: word_le_nat_alt unat_of_nat)
qed simp_all

text \<open>
  The lists \<^verbatim>\<open>TPML_*\<close>: the count, bounded when it is read, and the elements in a loop.
\<close>

primrec elements_Marshal :: "('a \<Rightarrow> marshaler) \<Rightarrow> 'a list \<Rightarrow> marshaler" where
  "elements_Marshal m [] = doneM"
| "elements_Marshal m (x # xs) = andM (m x) (elements_Marshal m xs)"

primrec elements_Unmarshal :: "'a unmarshaler \<Rightarrow> nat \<Rightarrow> 'a list unmarshaler" where
  "elements_Unmarshal u 0 = (\<lambda>bs. Inr ([], bs))"
| "elements_Unmarshal u (Suc n) =
     (\<lambda>bs. bindU (u bs) (\<lambda>x bs. bindU (elements_Unmarshal u n bs) (\<lambda>xs bs. Inr (x # xs, bs))))"

definition TPML_Marshal :: "('a \<Rightarrow> marshaler) \<Rightarrow> 'a list \<Rightarrow> marshaler" where
  "TPML_Marshal m xs = andM (UINT32_Marshal (word_of_nat (length xs))) (elements_Marshal m xs)"

definition TPML_Unmarshal :: "'a unmarshaler \<Rightarrow> UINT32 \<Rightarrow> UINT32 \<Rightarrow> 'a list unmarshaler" where
  "TPML_Unmarshal u mn mx bs =
     bindU (UINT32_Unmarshal bs) (\<lambda>count bs.
       if mn \<le> count \<and> count \<le> mx then elements_Unmarshal u (unat count) bs else Inl TPM_RC_SIZE)"

text \<open>
  The structures \<^verbatim>\<open>TPM2B_*\<close> that hold a marshaled structure.  The marshaler leaves two octets
  out, writes the structure, and then the size in front of it; that the two octets fit is
  checked last.  The size member is the length of the octets of the structure.
\<close>

definition sized_Marshal :: "('a \<Rightarrow> marshaler) \<Rightarrow> 'a \<Rightarrow> marshaler" where
  "sized_Marshal m x = (\<lambda>(out, left).
     bindE (m x (out @ [0, 0], left)) (\<lambda>(written, out', left).
     bindE (UINT16_Marshal written (out, left)) (\<lambda>(w, sized, left).
       Inr (written + w, sized @ drop (length sized) out', left))))"

definition sized_Unmarshal :: "'a unmarshaler \<Rightarrow> 'a unmarshaler" where
  "sized_Unmarshal u bs =
     bindU (UINT16_Unmarshal bs) (\<lambda>size start.
       if size \<noteq> 0 then
         bindU (u start) (\<lambda>x rest.
           if unat size = length start - length rest then Inr (x, rest) else Inl TPM_RC_SIZE)
       else Inl TPM_RC_SIZE)"

lemma codec_elements:
  assumes c: "codec m u P k"
  shows "codec (elements_Marshal m) (elements_Unmarshal u n) (\<lambda>xs. length xs = n \<and> (\<forall>x \<in> set xs. P x)) (n * k)"
proof (induction n)
  case 0
  have "codec (elements_Marshal m) (\<lambda>bs. Inr ([], bs)) (\<lambda>xs. xs = []) 0" by (rule codec_cong [OF codec_done]) simp
  then show ?case unfolding elements_Unmarshal.simps by (rule codec_weaken) auto
next
  case (Suc n)
  have "codec (\<lambda>xs. andM (m (hd xs)) (elements_Marshal m (tl xs))) (elements_Unmarshal u (Suc n))
      (\<lambda>s. P (hd s) \<and> (\<exists>xs. s = hd s # xs \<and> length xs = n \<and> (\<forall>x \<in> set xs. P x))) (k + n * k)"
    unfolding elements_Unmarshal.simps
    by (rule codec_step [OF c], rule codec_member [OF Suc.IH]) auto
  then have "codec (\<lambda>xs. andM (m (hd xs)) (elements_Marshal m (tl xs))) (elements_Unmarshal u (Suc n))
      (\<lambda>xs. length xs = Suc n \<and> (\<forall>x \<in> set xs. P x)) (Suc n * k)"
  proof (rule codec_weaken)
    fix s
    show "P (hd s) \<and> (\<exists>xs. s = hd s # xs \<and> length xs = n \<and> (\<forall>x \<in> set xs. P x)) \<longleftrightarrow>
        length s = Suc n \<and> (\<forall>x \<in> set s. P x)"
      by (cases s) auto
  qed simp
  then show ?case by (rule codec_cong) (auto simp: length_Suc_conv)
qed

lemma codec_TPML:
  fixes m :: "'a \<Rightarrow> marshaler"
  assumes c: "codec m u P k"
  shows "codec (TPML_Marshal m) (TPML_Unmarshal u mn mx)
    (\<lambda>xs. unat mn \<le> length xs \<and> length xs \<le> unat mx \<and> (\<forall>x \<in> set xs. P x)) (4 + unat mx * k)"
  unfolding TPML_Marshal_def TPML_Unmarshal_def
proof (rule codec_weaken, rule codec_step [where f = "\<lambda>xs. word_of_nat (length xs)", OF codec_UINT32])
  show "codec (elements_Marshal m) (\<lambda>bs. if mn \<le> count \<and> count \<le> mx then elements_Unmarshal u (unat count) bs else Inl TPM_RC_SIZE)
      (\<lambda>xs. (mn \<le> count \<and> count \<le> mx) \<and> length xs = unat count \<and> (\<forall>x \<in> set xs. P x)) (unat mx * k)" for count
    by (rule codec_if, rule codec_weaken [OF codec_elements [OF c]]) (simp_all add: word_le_nat_alt mult_le_mono1)
next
  fix xs :: "'a list"
  have "length xs = unat (word_of_nat (length xs) :: UINT32) \<longleftrightarrow> length xs < 2 ^ 32"
    using unat_lt [of "word_of_nat (length xs) :: UINT32"] by (auto simp: unat_of_nat)
  then show "(True \<and> (mn \<le> word_of_nat (length xs) \<and> word_of_nat (length xs) \<le> mx) \<and>
        length xs = unat (word_of_nat (length xs) :: UINT32) \<and> (\<forall>x \<in> set xs. P x)) \<longleftrightarrow>
      unat mn \<le> length xs \<and> length xs \<le> unat mx \<and> (\<forall>x \<in> set xs. P x)"
    using unat_lt [of mx] by (auto simp: word_le_nat_alt unat_of_nat)
qed simp_all

lemma emits_UINT16: "\<exists>os. length os = 2 \<and> emits (UINT16_Marshal w) os \<and> (\<forall>rest. UINT16_Unmarshal (os @ rest) = Inr (w, rest))"
proof -
  obtain os where os: "emits (UINT16_Marshal w) os" "\<forall>rest. UINT16_Unmarshal (os @ rest) = Inr (w, rest)"
    using codec.complete [OF codec_UINT16, of w] by auto
  have "os = [ucast (drop_bit 8 w AND 0xff), ucast (drop_bit 0 w AND 0xff)]"
    using os(1) emits_put unfolding UINT16_Marshal_def by (rule emits_unique)
  then have "length os = 2" by simp
  with os show ?thesis by blast
qed

lemma emits_sized:
  assumes os: "emits (m x) os" and sz: "emits (UINT16_Marshal (word_of_nat (length os))) sz" "length sz = 2"
  shows "emits (sized_Marshal m x) (sz @ os)"
proof -
  have "sized_Marshal m x (out, left) = put (sz @ os) (out, left)" for out left
    by (auto simp: sized_Marshal_def put_def emitsD [OF os] emitsD [OF sz(1)] sz(2))
  then show ?thesis by (simp add: emits_def)
qed

lemma codec_sized:
  assumes c: "codec m u P k" and k: "k < 65536" and ne: "\<And>x rest. u [] \<noteq> Inr (x, rest)"
  shows "codec (sized_Marshal m) (sized_Unmarshal u) P (2 + k)"
proof
  fix bs x rest
  assume "sized_Unmarshal u bs = Inr (x, rest)"
  then obtain size start where size: "UINT16_Unmarshal bs = Inr (size, start)" and u: "u start = Inr (x, rest)"
    and len: "unat size = length start - length rest"
    by (auto simp: sized_Unmarshal_def bindU_eq_Inr_iff split: if_splits)
  from codec.sound [OF codec_UINT16 size] obtain sz where sz: "emits (UINT16_Marshal size) sz" "bs = sz @ start" by auto
  from codec.sound [OF c u] obtain os where P: "P x" and os: "emits (m x) os" "start = os @ rest" by auto
  have "unat size = length os" using len os(2) by simp
  then have "size = word_of_nat (length os)" by (simp flip: \<open>unat size = length os\<close>)
  moreover have "length sz = 2" using emits_UINT16 [of size] emits_unique [OF sz(1)] by auto
  ultimately have "emits (sized_Marshal m x) (sz @ os)" using emits_sized [where m = m, OF os(1)] sz(1) by simp
  then show "P x \<and> (\<exists>os. emits (sized_Marshal m x) os \<and> bs = os @ rest)" using P sz(2) os(2) by auto
next
  fix x
  assume P: "P x"
  from codec.complete [OF c P] obtain os where os: "emits (m x) os" "length os \<le> k" "\<forall>rest. u (os @ rest) = Inr (x, rest)" by blast
  obtain sz where sz: "length sz = 2" "emits (UINT16_Marshal (word_of_nat (length os))) sz"
      "\<forall>rest. UINT16_Unmarshal (sz @ rest) = Inr (word_of_nat (length os), rest)"
    using emits_UINT16 by blast
  have "os \<noteq> []" using os(3) ne by fastforce
  then have n: "unat (word_of_nat (length os) :: UINT16) = length os" "(word_of_nat (length os) :: UINT16) \<noteq> 0"
    using os(2) k by (simp_all add: unat_of_nat word_unat_eq_iff)
  have "\<forall>rest. sized_Unmarshal u ((sz @ os) @ rest) = Inr (x, rest)"
    using os(3) sz(3) n by (simp add: sized_Unmarshal_def)
  moreover have "emits (sized_Marshal m x) (sz @ os)" using emits_sized [where m = m, OF os(1) sz(2,1)] .
  moreover have "length (sz @ os) \<le> 2 + k" using os(2) sz(1) by simp
  ultimately show "\<exists>os. emits (sized_Marshal m x) os \<and> length os \<le> 2 + k \<and> (\<forall>rest. sized_Unmarshal u (os @ rest) = Inr (x, rest))"
    by blast
qed

end
