(* ===== verification/FTPM_Hierarchy.thy ===== *)
theory FTPM_Hierarchy
  imports FTPM_Session FTPM_NVMem FTPM_Codec
begin

text \<open>
  \<^verbatim>\<open>Hierarchy.c\<close>: hierarchy handles with their firmware and SVN modifiers, hierarchy enables,
  proofs and primary seeds.  A \<^verbatim>\<open>TPM2B\<close> is the list of its octets.  The random number
  generator is a function from its state, and the key derivation function an argument; the
  secrets of \<^verbatim>\<open>VendorInfo.c\<close> are modelled.
\<close>

abbreviation (input) TPM_RC_HIERARCHY :: TPM_RC where "TPM_RC_HIERARCHY \<equiv> 0x085"
abbreviation (input) TPM_RC_FW_LIMITED :: TPM_RC where "TPM_RC_FW_LIMITED \<equiv> 0x0A8"
abbreviation (input) TPM_RC_SVN_LIMITED :: TPM_RC where "TPM_RC_SVN_LIMITED \<equiv> 0x0A9"

section \<open>Handles\<close>

datatype HIERARCHY_MODIFIER = HM_NONE | HM_FW_LIMITED | HM_SVN_LIMITED (min_svn: UINT16)

definition DecomposeHandle :: "TPM_HANDLE \<Rightarrow> TPM_HANDLE \<times> HIERARCHY_MODIFIER" where
  "DecomposeHandle handle =
     (if handle = TPM_RH_FW_OWNER then (TPM_RH_OWNER, HM_FW_LIMITED)
      else if handle = TPM_RH_FW_ENDORSEMENT then (TPM_RH_ENDORSEMENT, HM_FW_LIMITED)
      else if handle = TPM_RH_FW_PLATFORM then (TPM_RH_PLATFORM, HM_FW_LIMITED)
      else if handle = TPM_RH_FW_NULL then (TPM_RH_NULL, HM_FW_LIMITED)
      else let high = handle AND 0xFFFF0000; svn = HM_SVN_LIMITED (ucast (handle AND 0x0000FFFF)) in
        if high = 0x40010000 then (TPM_RH_OWNER, svn)
        else if high = 0x40020000 then (TPM_RH_ENDORSEMENT, svn)
        else if high = 0x40030000 then (TPM_RH_PLATFORM, svn)
        else if high = 0x40040000 then (TPM_RH_NULL, svn)
        else (handle, HM_NONE))"

definition HierarchyNormalizeHandle :: "TPM_HANDLE \<Rightarrow> TPM_HANDLE" where
  "HierarchyNormalizeHandle handle = fst (DecomposeHandle handle)"

definition HierarchyIsFirmwareLimited :: "TPM_HANDLE \<Rightarrow> bool" where
  "HierarchyIsFirmwareLimited handle = (case snd (DecomposeHandle handle) of HM_FW_LIMITED \<Rightarrow> True | _ \<Rightarrow> False)"

definition HierarchyIsSvnLimited :: "TPM_HANDLE \<Rightarrow> bool" where
  "HierarchyIsSvnLimited handle = (case snd (DecomposeHandle handle) of HM_SVN_LIMITED _ \<Rightarrow> True | _ \<Rightarrow> False)"

section \<open>The state\<close>

text \<open>
  The members of \<^verbatim>\<open>gp\<close>, \<^verbatim>\<open>gc\<close> and \<^verbatim>\<open>gr\<close> that belong to the hierarchies, the image of the first
  in NV, and the state of the random number generator.
\<close>

record hier_persistent =
  disableClear :: bool
  EPSeed :: "BYTE list"
  SPSeed :: "BYTE list"
  PPSeed :: "BYTE list"
  phProof :: "BYTE list"
  shProof :: "BYTE list"
  ehProof :: "BYTE list"
  ownerAuth :: "BYTE list"
  endorsementAuth :: "BYTE list"
  lockoutAuth :: "BYTE list"
  ownerAlg :: TPM_ALG_ID
  ownerPolicy :: "BYTE list"
  endorsementAlg :: TPM_ALG_ID
  endorsementPolicy :: "BYTE list"
  lockoutAlg :: TPM_ALG_ID
  lockoutPolicy :: "BYTE list"

record 'r hier_state =
  hgp :: hier_persistent
  hnv :: hier_persistent
  shEnable :: bool
  ehEnable :: bool
  phEnableNV :: bool
  g_phEnable :: bool
  platformAuth :: "BYTE list"
  platformAlg :: TPM_ALG_ID
  platformPolicy :: "BYTE list"
  nullProof :: "BYTE list"
  nullSeed :: "BYTE list"
  rand :: 'r

type_synonym 'r random = "nat \<Rightarrow> 'r \<Rightarrow> BYTE list \<times> 'r"

abbreviation (input) PRIMARY_SEED_SIZE :: nat where "PRIMARY_SEED_SIZE \<equiv> 64"
abbreviation (input) PROOF_SIZE :: nat where "PROOF_SIZE \<equiv> 64"

definition draw :: "'r random \<Rightarrow> nat \<Rightarrow> (BYTE list \<Rightarrow> 'r hier_state \<Rightarrow> 'r hier_state) \<Rightarrow> 'r hier_state \<Rightarrow> 'r hier_state" where
  "draw CryptRandomGenerate n f st =
     (let (bs, r) = CryptRandomGenerate n (rand st) in f bs (st\<lparr>rand := r\<rparr>))"

abbreviation "upd_hgp f st \<equiv> st\<lparr>hgp := f (hgp st)\<rparr>"

text \<open>Every member is written to NV at the end, so that NV has the whole structure.\<close>

definition HierarchyPreInstall_Init :: "'r random \<Rightarrow> 'r hier_state \<Rightarrow> 'r hier_state" where
  "HierarchyPreInstall_Init R st =
     (let st = upd_hgp (\<lambda>g. g\<lparr>disableClear := False\<rparr>) st;
          st = draw R PRIMARY_SEED_SIZE (\<lambda>b. upd_hgp (\<lambda>g. g\<lparr>EPSeed := b\<rparr>)) st;
          st = draw R PRIMARY_SEED_SIZE (\<lambda>b. upd_hgp (\<lambda>g. g\<lparr>SPSeed := b\<rparr>)) st;
          st = draw R PRIMARY_SEED_SIZE (\<lambda>b. upd_hgp (\<lambda>g. g\<lparr>PPSeed := b\<rparr>)) st;
          st = upd_hgp (\<lambda>g. g\<lparr>ownerAuth := [], endorsementAuth := [], lockoutAuth := [],
                 ownerAlg := TPM_ALG_NULL, ownerPolicy := [], endorsementAlg := TPM_ALG_NULL, endorsementPolicy := [],
                 lockoutAlg := TPM_ALG_NULL, lockoutPolicy := []\<rparr>) st;
          st = draw R PROOF_SIZE (\<lambda>b. upd_hgp (\<lambda>g. g\<lparr>phProof := b\<rparr>)) st;
          st = draw R PROOF_SIZE (\<lambda>b. upd_hgp (\<lambda>g. g\<lparr>shProof := b\<rparr>)) st;
          st = draw R PROOF_SIZE (\<lambda>b. upd_hgp (\<lambda>g. g\<lparr>ehProof := b\<rparr>)) st
      in st\<lparr>hnv := hgp st\<rparr>)"

definition HierarchyStartup :: "'r random \<Rightarrow> STARTUP_TYPE \<Rightarrow> 'r hier_state \<Rightarrow> 'r hier_state" where
  "HierarchyStartup R type st =
     (let st = st\<lparr>g_phEnable := True\<rparr>;
          st = (if type \<noteq> SU_RESUME
                then st\<lparr>platformAuth := [], platformPolicy := [], platformAlg := TPM_ALG_NULL,
                        shEnable := True, ehEnable := True, phEnableNV := True\<rparr> else st)
      in if type \<noteq> SU_RESTART \<and> type \<noteq> SU_RESUME
         then draw R PRIMARY_SEED_SIZE (\<lambda>b st. st\<lparr>nullSeed := b\<rparr>) (draw R PROOF_SIZE (\<lambda>b st. st\<lparr>nullProof := b\<rparr>) st)
         else st)"

section \<open>Secrets\<close>

text \<open>The firmware identity of \<^verbatim>\<open>VendorInfo.c\<close>.\<close>

record vendor_info =
  currentHash :: UINT32
  currentSvn :: UINT16

definition plat_SetTpmFirmwareSvn :: "UINT16 \<Rightarrow> vendor_info \<Rightarrow> vendor_info" where
  "plat_SetTpmFirmwareSvn svn v = v\<lparr>currentSvn := (if svn < 255 then svn else 255)\<rparr>"

definition plat_GetTpmFirmwareSvnSecret :: "vendor_info \<Rightarrow> UINT16 \<Rightarrow> nat \<Rightarrow> BYTE list option" where
  "plat_GetTpmFirmwareSvnSecret v svn n =
     (if svn > currentSvn v then None else Some (map (\<lambda>i. le_bytes 2 (unat svn) ! (i mod 2)) [0..<n]))"

definition plat_GetTpmFirmwareSecret :: "vendor_info \<Rightarrow> nat \<Rightarrow> BYTE list option" where
  "plat_GetTpmFirmwareSecret v n = Some (map (\<lambda>i. le_bytes 4 (unat (currentHash v)) ! (i mod 4)) [0..<n])"

abbreviation (input) HIERARCHY_PROOF_SECRET_LABEL :: string where "HIERARCHY_PROOF_SECRET_LABEL \<equiv> ''H_PROOF_SECRET''"
abbreviation (input) HIERARCHY_SEED_SECRET_LABEL :: string where "HIERARCHY_SEED_SECRET_LABEL \<equiv> ''H_SEED_SECRET''"
abbreviation (input) HIERARCHY_FW_SECRET_LABEL :: string where "HIERARCHY_FW_SECRET_LABEL \<equiv> ''H_FW_SECRET''"
abbreviation (input) HIERARCHY_SVN_SECRET_LABEL :: string where "HIERARCHY_SVN_SECRET_LABEL \<equiv> ''H_SVN_SECRET''"

definition GetAdditionalSecret :: "vendor_info \<Rightarrow> HIERARCHY_MODIFIER \<Rightarrow> TPM_RC + (BYTE list \<times> string)" where
  "GetAdditionalSecret v modifier =
     (case modifier of
        HM_FW_LIMITED \<Rightarrow> (case plat_GetTpmFirmwareSecret v PRIMARY_SEED_SIZE of
            None \<Rightarrow> Inl TPM_RC_FW_LIMITED | Some s \<Rightarrow> Inr (s, HIERARCHY_FW_SECRET_LABEL))
      | HM_SVN_LIMITED svn \<Rightarrow> (case plat_GetTpmFirmwareSvnSecret v svn PRIMARY_SEED_SIZE of
            None \<Rightarrow> Inl TPM_RC_SVN_LIMITED | Some s \<Rightarrow> Inr (s, HIERARCHY_SVN_SECRET_LABEL))
      | HM_NONE \<Rightarrow> Inr ([], ''''))"

type_synonym kdfa = "TPM_ALG_ID \<Rightarrow> BYTE list \<Rightarrow> string \<Rightarrow> BYTE list \<Rightarrow> string \<Rightarrow> nat \<Rightarrow> BYTE list"

definition MixAdditionalSecret ::
  "kdfa \<Rightarrow> vendor_info \<Rightarrow> HIERARCHY_MODIFIER \<Rightarrow> string \<Rightarrow> BYTE list \<Rightarrow> TPM_RC + BYTE list" where
  "MixAdditionalSecret CryptKDFa v modifier base_secret_label base_secret =
     (case GetAdditionalSecret v modifier of
        Inl rc \<Rightarrow> Inl rc
      | Inr (additional_secret, additional_secret_label) \<Rightarrow>
          if additional_secret = [] then Inr base_secret
          else Inr (CryptKDFa TPM_ALG_SHA512 base_secret base_secret_label additional_secret additional_secret_label
                      (length base_secret * 8)))"

definition HierarchyGetProof :: "kdfa \<Rightarrow> vendor_info \<Rightarrow> TPM_HANDLE \<Rightarrow> 'r hier_state \<Rightarrow> TPM_RC + BYTE list" where
  "HierarchyGetProof CryptKDFa v hierarchy st =
     (let (base, modifier) = DecomposeHandle hierarchy;
          base_proof = (if base = TPM_RH_PLATFORM then phProof (hgp st)
                        else if base = TPM_RH_ENDORSEMENT then ehProof (hgp st)
                        else if base = TPM_RH_OWNER then shProof (hgp st)
                        else nullProof st)
      in MixAdditionalSecret CryptKDFa v modifier HIERARCHY_PROOF_SECRET_LABEL base_proof)"

definition HierarchyGetPrimarySeed :: "kdfa \<Rightarrow> vendor_info \<Rightarrow> TPM_HANDLE \<Rightarrow> 'r hier_state \<Rightarrow> TPM_RC + BYTE list" where
  "HierarchyGetPrimarySeed CryptKDFa v hierarchy st =
     (let (base, modifier) = DecomposeHandle hierarchy;
          base_seed = (if base = TPM_RH_PLATFORM then PPSeed (hgp st)
                       else if base = TPM_RH_OWNER then SPSeed (hgp st)
                       else if base = TPM_RH_ENDORSEMENT then EPSeed (hgp st)
                       else nullSeed st)
      in MixAdditionalSecret CryptKDFa v modifier HIERARCHY_SEED_SECRET_LABEL base_seed)"

definition ValidateHierarchy :: "vendor_info \<Rightarrow> TPM_HANDLE \<Rightarrow> 'r hier_state \<Rightarrow> TPM_RC" where
  "ValidateHierarchy v hierarchy st =
     (let (base, modifier) = DecomposeHandle hierarchy in
      if (case modifier of HM_SVN_LIMITED svn \<Rightarrow> svn > currentSvn v | _ \<Rightarrow> False) then TPM_RC_SVN_LIMITED
      else if base = TPM_RH_PLATFORM then if g_phEnable st then TPM_RC_SUCCESS else TPM_RC_HIERARCHY
      else if base = TPM_RH_OWNER then if shEnable st then TPM_RC_SUCCESS else TPM_RC_HIERARCHY
      else if base = TPM_RH_ENDORSEMENT then if ehEnable st then TPM_RC_SUCCESS else TPM_RC_HIERARCHY
      else if base = TPM_RH_NULL then TPM_RC_SUCCESS
      else TPM_RC_VALUE)"

definition HierarchyIsEnabled :: "vendor_info \<Rightarrow> TPM_HANDLE \<Rightarrow> 'r hier_state \<Rightarrow> bool" where
  "HierarchyIsEnabled v hierarchy st = (ValidateHierarchy v hierarchy st = TPM_RC_SUCCESS)"

end
