(* ===== verification/FTPM_NVDynamic.thy ===== *)
theory FTPM_NVDynamic
  imports FTPM_NVMem
begin

text \<open>
  The dynamic NV area (\<^verbatim>\<open>NVDynamic.c\<close>) and the reserved-data accessors it uses
  (\<^verbatim>\<open>NVReserved.c\<close>).  NV indices and persistent objects form a list of entries in the
  NV image: each entry starts with its size in octets and its handle, the list ends with a
  zero size followed by the maximal counter value.  Orderly indices keep their attributes
  and data in a second list in RAM.  Everything here is at the level of octets; the lists
  these octets stand for are in \<open>FTPM_NVList\<close>.
\<close>

section \<open>Constants and structures\<close>

abbreviation RAM_INDEX_SPACE :: nat where "RAM_INDEX_SPACE \<equiv> 512"
abbreviation NV_REF_INIT :: nat where "NV_REF_INIT \<equiv> 0xFFFFFFFF"
abbreviation SIZEOF_NV_INDEX :: nat where "SIZEOF_NV_INDEX \<equiv> 148"
abbreviation SIZEOF_NV_ENTRY_HEADER :: nat where "SIZEOF_NV_ENTRY_HEADER \<equiv> 8"
abbreviation SIZEOF_NV_RAM_HEADER :: nat where "SIZEOF_NV_RAM_HEADER \<equiv> 12"
abbreviation SIZEOF_NV_LIST_TERMINATOR :: nat where "SIZEOF_NV_LIST_TERMINATOR \<equiv> 12"
abbreviation OFFSET_ATTRIBUTES :: nat where "OFFSET_ATTRIBUTES \<equiv> 8"
abbreviation OFFSET_AUTHVALUE :: nat where "OFFSET_AUTHVALUE \<equiv> 80"
abbreviation MIN_EVICT_OBJECTS :: nat where "MIN_EVICT_OBJECTS \<equiv> 7"
abbreviation MIN_COUNTER_INDICES :: nat where "MIN_COUNTER_INDICES \<equiv> 8"
abbreviation TPM_RH_UNASSIGNED :: TPM_HANDLE where "TPM_RH_UNASSIGNED \<equiv> 0x40000008"

abbreviation PERSISTENT_FIRST :: TPM_HANDLE where "PERSISTENT_FIRST \<equiv> 0x81000000"
abbreviation PLATFORM_PERSISTENT :: TPM_HANDLE where "PLATFORM_PERSISTENT \<equiv> 0x81800000"
abbreviation PERSISTENT_LAST :: TPM_HANDLE where "PERSISTENT_LAST \<equiv> 0x81FFFFFF"

abbreviation UT_NV :: UINT8 where "UT_NV \<equiv> 1"
abbreviation UT_ORDERLY :: UINT8 where "UT_ORDERLY \<equiv> 3"

text \<open>Bit numbers of \<^verbatim>\<open>TPMA_NV\<close> and the index types.\<close>

abbreviation NV_WRITELOCKED :: nat where "NV_WRITELOCKED \<equiv> 11"
abbreviation NV_WRITEDEFINE :: nat where "NV_WRITEDEFINE \<equiv> 13"
abbreviation NV_GLOBALLOCK :: nat where "NV_GLOBALLOCK \<equiv> 15"
abbreviation NV_ORDERLY :: nat where "NV_ORDERLY \<equiv> 26"
abbreviation NV_CLEAR_STCLEAR :: nat where "NV_CLEAR_STCLEAR \<equiv> 27"
abbreviation NV_READLOCKED :: nat where "NV_READLOCKED \<equiv> 28"
abbreviation NV_WRITTEN :: nat where "NV_WRITTEN \<equiv> 29"
abbreviation NV_PLATFORMCREATE :: nat where "NV_PLATFORMCREATE \<equiv> 30"

definition GET_TPM_NT :: "UINT32 \<Rightarrow> UINT32" where
  "GET_TPM_NT attributes = drop_bit 4 attributes AND 0xF"

definition IsNvOrdinaryIndex :: "UINT32 \<Rightarrow> bool" where
  "IsNvOrdinaryIndex attributes \<longleftrightarrow> GET_TPM_NT attributes = 0"

definition IsNvCounterIndex :: "UINT32 \<Rightarrow> bool" where
  "IsNvCounterIndex attributes \<longleftrightarrow> GET_TPM_NT attributes = 1"

text \<open>
  Sizes that depend on the compiler's layout of the big structures: where the dynamic area
  starts (the orderly RAM image lies right before it), the size of \<^verbatim>\<open>OBJECT\<close>, and the
  offset of its \<^verbatim>\<open>evictHandle\<close>.  Its attributes are its first member.
\<close>

record nv_layout =
  NV_USER_DYNAMIC :: nat
  SIZEOF_OBJECT :: nat
  OFFSET_EVICTHANDLE :: nat

definition NV_INDEX_RAM_DATA :: "nv_layout \<Rightarrow> nat" where
  "NV_INDEX_RAM_DATA L = NV_USER_DYNAMIC L - RAM_INDEX_SPACE"

definition NV_EVICT_OBJECT_SIZE :: "nv_layout \<Rightarrow> nat" where
  "NV_EVICT_OBJECT_SIZE L = 4 + 4 + SIZEOF_OBJECT L"

abbreviation NV_INDEX_COUNTER_SIZE :: nat where "NV_INDEX_COUNTER_SIZE \<equiv> 4 + SIZEOF_NV_INDEX + 8"
abbreviation NV_RAM_INDEX_COUNTER_SIZE :: nat where "NV_RAM_INDEX_COUNTER_SIZE \<equiv> SIZEOF_NV_RAM_HEADER + 8"

text \<open>The \<^verbatim>\<open>TPM2B\<close> members are kept as the 66 octets of their structure.\<close>

record TPMS_NV_PUBLIC =
  nvIndex :: TPM_HANDLE
  nameAlg :: TPM_ALG_ID
  nv_attributes :: UINT32
  authPolicy :: "BYTE list"
  dataSize :: UINT16

record NV_INDEX =
  publicArea :: TPMS_NV_PUBLIC
  authValue :: "BYTE list"

definition NV_INDEX_bytes :: "NV_INDEX \<Rightarrow> BYTE list" where
  "NV_INDEX_bytes ix =
     (let p = publicArea ix in
      le_bytes 4 (unat (nvIndex p)) @ le_bytes 2 (unat (nameAlg p)) @ [0, 0] @
      le_bytes 4 (unat (nv_attributes p)) @ authPolicy p @ le_bytes 2 (unat (dataSize p)) @
      authValue ix @ [0, 0])"

definition NV_INDEX_of_bytes :: "BYTE list \<Rightarrow> NV_INDEX" where
  "NV_INDEX_of_bytes bs =
     \<lparr>publicArea = \<lparr>nvIndex = word_of_nat (le_nat (take 4 bs)),
                    nameAlg = word_of_nat (le_nat (take 2 (drop 4 bs))),
                    nv_attributes = word_of_nat (le_nat (take 4 (drop 8 bs))),
                    authPolicy = take 66 (drop 12 bs),
                    dataSize = word_of_nat (le_nat (take 2 (drop 78 bs)))\<rparr>,
      authValue = take 66 (drop 80 bs)\<rparr>"

record nv_state =
  s_NV :: address_space
  s_evictNvEnd :: nat
  s_maxCounter :: UINT64
  s_indexOrderlyRam :: address_space
  s_cachedNvRef :: nat
  s_cachedNvRamRef :: "nat option"
  s_cachedNvIndex :: NV_INDEX
  g_NvStatus :: TPM_RC
  g_updateNV :: UINT8
  g_clearOrderly :: bool

section \<open>NVReserved.c\<close>

definition NvInitStatic :: "nv_state \<Rightarrow> nv_state" where
  "NvInitStatic st = st\<lparr>s_evictNvEnd := NV_MEMORY_SIZE\<rparr>"

definition NvCheckState :: "plat_nv \<Rightarrow> nv_state \<Rightarrow> nv_state" where
  "NvCheckState plat st =
     st\<lparr>g_NvStatus := (if plat_GetNvReadyState plat = 0 then TPM_RC_SUCCESS
                       else if plat_GetNvReadyState plat = 1 then TPM_RC_NV_UNAVAILABLE
                       else TPM_RC_NV_RATE)\<rparr>"

definition NvRead :: "nat \<Rightarrow> nat \<Rightarrow> nv_state \<Rightarrow> BYTE list fallible" where
  "NvRead nvOffset n st =
     (if \<not> u32 (nvOffset + n) < NV_MEMORY_SIZE then Inl FATAL_ERROR_PARAMETER
      else plat_NvMemoryRead nvOffset n (s_NV st))"

definition NvWrite :: "nat \<Rightarrow> BYTE list \<Rightarrow> nv_state \<Rightarrow> (bool \<times> nv_state) fallible" where
  "NvWrite nvOffset data st =
     (if u32 (nvOffset + length data) \<le> NV_MEMORY_SIZE
      then let st = st\<lparr>g_updateNV := g_updateNV st OR UT_NV\<rparr> in
           bindE (plat_NvMemoryWrite nvOffset data (s_NV st)) (\<lambda>nv. Inr (True, st\<lparr>s_NV := nv\<rparr>))
      else Inr (False, st))"

section \<open>Walking the list of entries\<close>

text \<open>
  The loops \<^verbatim>\<open>while((addr = Next(&iter, &handle)) != 0) { body }\<close>.  The body may end the
  loop, move the iterator, or change the state; the address of the last entry visited, if
  the loop was ended by the body, the iterator and the state are the result.
\<close>

fun scan_while ::
  "nat \<Rightarrow> ('s \<Rightarrow> 'i \<Rightarrow> (('a \<times> TPM_HANDLE) option \<times> 'i) fallible) \<Rightarrow>
   ('a \<Rightarrow> TPM_HANDLE \<Rightarrow> 'i \<Rightarrow> 's \<Rightarrow> (bool \<times> 'i \<times> 's) fallible) \<Rightarrow>
   'i \<Rightarrow> 's \<Rightarrow> ('a option \<times> 'i \<times> 's) fallible" where
  "scan_while 0 next body iter s = Inl NO_FUEL"
| "scan_while (Suc fuel) next body iter s =
     (case next s iter of
        Inl e \<Rightarrow> Inl e
      | Inr (None, iter) \<Rightarrow> Inr (None, iter, s)
      | Inr (Some (addr, handle), iter) \<Rightarrow>
          (case body addr handle iter s of
             Inl e \<Rightarrow> Inl e
           | Inr (stop, iter, s) \<Rightarrow>
               if stop then Inr (Some addr, iter, s) else scan_while fuel next body iter s))"

text \<open>An entry takes at least 8 octets, so that 4097 iterations cover any list in NV.\<close>

abbreviation NV_FUEL :: nat where "NV_FUEL \<equiv> 4097"
abbreviation RAM_FUEL :: nat where "RAM_FUEL \<equiv> 44"

definition NvNext :: "nv_layout \<Rightarrow> nv_state \<Rightarrow> nat \<Rightarrow> ((nat \<times> TPM_HANDLE) option \<times> nat) fallible" where
  "NvNext L st iter =
     (let iter = (if iter = NV_REF_INIT then NV_USER_DYNAMIC L else iter);
          currentAddr = u32 (iter + 4) in
      bindE (NvRead iter SIZEOF_NV_ENTRY_HEADER st) (\<lambda>header.
      if le_nat (take 4 header) = 0 then Inr (None, iter)
      else Inr (Some (currentAddr, word_of_nat (le_nat (drop 4 header))),
                u32 (iter + le_nat (take 4 header)))))"

definition NvNextByType ::
  "nv_layout \<Rightarrow> UINT8 \<Rightarrow> nv_state \<Rightarrow> nat \<Rightarrow> ((nat \<times> TPM_HANDLE) option \<times> nat) fallible" where
  "NvNextByType L type st iter =
     bindE (scan_while NV_FUEL (\<lambda>_. NvNext L st)
              (\<lambda>addr nvHandle iter _. Inr (HandleGetType nvHandle = type, iter, nvHandle)) iter 0)
       (\<lambda>(addr, iter, nvHandle). Inr (case addr of None \<Rightarrow> None | Some a \<Rightarrow> Some (a, nvHandle), iter))"

definition NvGetEnd :: "nv_layout \<Rightarrow> nv_state \<Rightarrow> nat fallible" where
  "NvGetEnd L st =
     bindE (scan_while NV_FUEL (\<lambda>_. NvNext L st) (\<lambda>_ _ iter s. Inr (False, iter, s)) NV_REF_INIT ())
       (\<lambda>(_, iter, _). Inr iter)"

definition NvGetFreeBytes :: "nv_layout \<Rightarrow> nv_state \<Rightarrow> nat fallible" where
  "NvGetFreeBytes L st = bindE (NvGetEnd L st) (\<lambda>e. Inr (u32 (s_evictNvEnd st + 2 ^ 32 - e)))"

definition NvFindHandle :: "nv_layout \<Rightarrow> TPM_HANDLE \<Rightarrow> nv_state \<Rightarrow> nat fallible" where
  "NvFindHandle L handle st =
     bindE (scan_while NV_FUEL (\<lambda>_. NvNext L st)
              (\<lambda>_ nextHandle iter s. Inr (nextHandle = handle, iter, s)) NV_REF_INIT ())
       (\<lambda>(addr, _, _). Inr (case addr of None \<Rightarrow> 0 | Some a \<Rightarrow> a))"

definition NvIndexIsDefined :: "nv_layout \<Rightarrow> TPM_HANDLE \<Rightarrow> nv_state \<Rightarrow> bool fallible" where
  "NvIndexIsDefined L nvHandle st = bindE (NvFindHandle L nvHandle st) (\<lambda>r. Inr (r \<noteq> 0))"

definition NvReadNvIndexInfo :: "nat \<Rightarrow> nv_state \<Rightarrow> NV_INDEX fallible" where
  "NvReadNvIndexInfo ref st = bindE (NvRead ref SIZEOF_NV_INDEX st) (\<lambda>bs. Inr (NV_INDEX_of_bytes bs))"

definition NvReadObject :: "nv_layout \<Rightarrow> nat \<Rightarrow> nv_state \<Rightarrow> BYTE list fallible" where
  "NvReadObject L ref st = NvRead (u32 (ref + 4)) (SIZEOF_OBJECT L) st"

definition NvFindEvict :: "nv_layout \<Rightarrow> TPM_HANDLE \<Rightarrow> nv_state \<Rightarrow> (nat \<times> BYTE list option) fallible" where
  "NvFindEvict L nvHandle st =
     bindE (NvFindHandle L nvHandle st) (\<lambda>found.
     if found \<noteq> 0 then bindE (NvReadObject L found st) (\<lambda>obj. Inr (found, Some obj))
     else Inr (found, None))"

definition NvReadNvIndexAttributes :: "nat \<Rightarrow> nv_state \<Rightarrow> UINT32 fallible" where
  "NvReadNvIndexAttributes locator st =
     bindE (NvRead (u32 (locator + OFFSET_ATTRIBUTES)) 4 st) (\<lambda>bs. Inr (word_of_nat (le_nat bs)))"

section \<open>Counting\<close>

definition NvCapGetIndexNumber :: "nv_layout \<Rightarrow> nv_state \<Rightarrow> nat fallible" where
  "NvCapGetIndexNumber L st =
     bindE (scan_while NV_FUEL (\<lambda>_. NvNextByType L TPM_HT_NV_INDEX st)
              (\<lambda>_ _ iter num. Inr (False, iter, num + 1)) NV_REF_INIT 0) (\<lambda>(_, _, num). Inr num)"

definition NvCapGetPersistentNumber :: "nv_layout \<Rightarrow> nv_state \<Rightarrow> nat fallible" where
  "NvCapGetPersistentNumber L st =
     bindE (scan_while NV_FUEL (\<lambda>_. NvNextByType L TPM_HT_PERSISTENT st)
              (\<lambda>_ _ iter num. Inr (False, iter, num + 1)) NV_REF_INIT 0) (\<lambda>(_, _, num). Inr num)"

definition NvCapGetCounterNumber :: "nv_layout \<Rightarrow> nv_state \<Rightarrow> nat fallible" where
  "NvCapGetCounterNumber L st =
     bindE (scan_while NV_FUEL (\<lambda>_. NvNextByType L TPM_HT_NV_INDEX st)
              (\<lambda>addr _ iter num. bindE (NvReadNvIndexAttributes addr st) (\<lambda>attributes.
                 Inr (False, iter, if IsNvCounterIndex attributes then num + 1 else num))) NV_REF_INIT 0)
       (\<lambda>(_, _, num). Inr num)"

section \<open>Adding and deleting entries\<close>

definition NvTestSpace :: "nv_layout \<Rightarrow> nat \<Rightarrow> bool \<Rightarrow> bool \<Rightarrow> nv_state \<Rightarrow> bool fallible" where
  "NvTestSpace L sz isIndex isCounter st =
     bindE (NvGetFreeBytes L st) (\<lambda>remainBytes.
     bindE (if isIndex
            then bindE (NvCapGetPersistentNumber L st) (\<lambda>persistentNum.
                   Inr (if persistentNum < MIN_EVICT_OBJECTS
                        then (MIN_EVICT_OBJECTS - persistentNum) * NV_EVICT_OBJECT_SIZE L else 0))
            else Inr 0) (\<lambda>forObjects.
     bindE (if \<not> isIndex \<or> \<not> isCounter
            then bindE (NvCapGetCounterNumber L st) (\<lambda>counterNum.
                   Inr (if counterNum < MIN_COUNTER_INDICES
                        then (MIN_COUNTER_INDICES - counterNum) * NV_INDEX_COUNTER_SIZE else 0))
            else Inr 0) (\<lambda>forCounters.
     let reserved = u32 (4 + SIZEOF_NV_LIST_TERMINATOR + forObjects + forCounters) in
     Inr (reserved < remainBytes \<and> sz \<le> remainBytes \<and> u32 (sz + reserved) \<le> remainBytes))))"

definition NvWriteNvListEnd :: "nat \<Rightarrow> nv_state \<Rightarrow> (nat \<times> nv_state) fallible" where
  "NvWriteNvListEnd e st =
     (let listEndMarker = le_bytes 4 0 @ le_bytes 8 (unat (s_maxCounter st)) in
      if \<not> u32 (e + SIZEOF_NV_LIST_TERMINATOR) \<le> s_evictNvEnd st then Inl FATAL_ERROR_PARAMETER
      else bindE (NvWrite e listEndMarker st) (\<lambda>(_, st).
           Inr (u32 (e + SIZEOF_NV_LIST_TERMINATOR), st)))"

text \<open>\<open>entity\<close> is the buffer that is written; \<^verbatim>\<open>bufferSize\<close> is its length.\<close>

definition NvAdd :: "nv_layout \<Rightarrow> nat \<Rightarrow> TPM_HANDLE \<Rightarrow> BYTE list \<Rightarrow> nv_state \<Rightarrow> (TPM_RC \<times> nv_state) fallible" where
  "NvAdd L totalSize handle entity st =
     (if g_NvStatus st \<noteq> TPM_RC_SUCCESS then Inr (g_NvStatus st, st)
      else bindE (NvGetEnd L st) (\<lambda>newAddr.
        let nextAddr = u32 (newAddr + 4) in
        bindE (if handle \<noteq> TPM_RH_UNASSIGNED
               then bindE (NvWrite nextAddr (le_bytes 4 (unat handle)) st) (\<lambda>(_, st). Inr (u32 (nextAddr + 4), st))
               else Inr (nextAddr, st)) (\<lambda>(nextAddr, st).
        bindE (NvWrite nextAddr entity st) (\<lambda>(_, st).
        let nextAddr = u32 (nextAddr + totalSize);
            totalSize = u32 (nextAddr + 2 ^ 32 - newAddr) in
        bindE (NvWrite newAddr (le_bytes 4 totalSize) st) (\<lambda>(_, st).
        bindE (NvWriteNvListEnd nextAddr st) (\<lambda>(_, st). Inr (TPM_RC_SUCCESS, st)))))))"

definition NvDelete :: "nv_layout \<Rightarrow> nat \<Rightarrow> nv_state \<Rightarrow> (TPM_RC \<times> nv_state) fallible" where
  "NvDelete L entityRef st =
     (let entryRef = u32 (entityRef + 2 ^ 32 - 4) in
      bindE (NvGetEnd L st) (\<lambda>endRef.
      if g_NvStatus st \<noteq> TPM_RC_SUCCESS then Inr (g_NvStatus st, st)
      else bindE (NvRead entryRef 4 st) (\<lambda>sz.
        let entrySize = le_nat sz; nextAddr = u32 (entryRef + entrySize) in
        bindE (if nextAddr < endRef
               then if \<not> nextAddr > entryRef then Inl FATAL_ERROR_PARAMETER
                    else bindE (plat_NvMemoryMove nextAddr entryRef (endRef - nextAddr) (s_NV st))
                           (\<lambda>nv. Inr (st\<lparr>s_NV := nv\<rparr>))
               else Inr st) (\<lambda>st.
        let endRef = u32 (endRef + 2 ^ 32 - entrySize) in
        bindE (NvWriteNvListEnd endRef st) (\<lambda>(endRef, st).
        bindE (plat_NvMemoryClear endRef entrySize (s_NV st)) (\<lambda>nv.
        Inr (TPM_RC_SUCCESS, st\<lparr>s_NV := nv\<rparr>)))))))"

section \<open>The list of orderly indices in RAM\<close>

text \<open>A reference into the RAM buffer is an offset; the null pointer is \<open>None\<close>.\<close>

definition NvRamNext :: "nv_state \<Rightarrow> nat option \<Rightarrow> ((nat \<times> TPM_HANDLE) option \<times> nat option) fallible" where
  "NvRamNext st iter =
     (let currentAddr = (case iter of None \<Rightarrow> 0 | Some a \<Rightarrow> a) in
      if currentAddr + SIZEOF_NV_RAM_HEADER > RAM_INDEX_SPACE then Inr (None, Some currentAddr)
      else let header = mem_get (s_indexOrderlyRam st) currentAddr SIZEOF_NV_RAM_HEADER in
           if le_nat (take 4 header) = 0 then Inr (None, Some currentAddr)
           else Inr (Some (currentAddr, word_of_nat (le_nat (take 4 (drop 4 header)))),
                     Some (currentAddr + le_nat (take 4 header))))"

definition NvRamGetEnd :: "nv_state \<Rightarrow> nat fallible" where
  "NvRamGetEnd st =
     bindE (scan_while RAM_FUEL (\<lambda>_. NvRamNext st) (\<lambda>_ _ iter s. Inr (False, iter, s)) None ())
       (\<lambda>(_, iter, _). Inr (case iter of None \<Rightarrow> 0 | Some a \<Rightarrow> a))"

definition NvRamTestSpaceIndex :: "nat \<Rightarrow> nv_state \<Rightarrow> bool fallible" where
  "NvRamTestSpaceIndex sz st =
     bindE (NvRamGetEnd st) (\<lambda>e.
     let remaining = u32 (RAM_INDEX_SPACE + 2 ^ 32 - e); needed = u32 (SIZEOF_NV_RAM_HEADER + sz) in
     Inr (remaining \<ge> needed))"

definition NvRamGetIndex :: "TPM_HANDLE \<Rightarrow> nv_state \<Rightarrow> nat option fallible" where
  "NvRamGetIndex handle st =
     bindE (scan_while RAM_FUEL (\<lambda>_. NvRamNext st)
              (\<lambda>_ foundHandle iter s. Inr (handle = foundHandle, iter, s)) None ())
       (\<lambda>(addr, _, _). Inr addr)"

definition NvUpdateIndexOrderlyData :: "nv_layout \<Rightarrow> nv_state \<Rightarrow> nv_state fallible" where
  "NvUpdateIndexOrderlyData L st =
     bindE (NvWrite (NV_INDEX_RAM_DATA L) (mem_get (s_indexOrderlyRam st) 0 RAM_INDEX_SPACE) st)
       (\<lambda>(_, st). Inr st)"

definition NvAddRAM :: "TPMS_NV_PUBLIC \<Rightarrow> nv_state \<Rightarrow> nv_state fallible" where
  "NvAddRAM index st =
     bindE (NvRamGetEnd st) (\<lambda>e.
     let hsize = SIZEOF_NV_RAM_HEADER + unat (dataSize index);
         header = le_bytes 4 hsize @ le_bytes 4 (unat (nvIndex index)) @ le_bytes 4 (unat (nv_attributes index)) in
     if \<not> e + hsize - 1 < RAM_INDEX_SPACE then Inl FATAL_ERROR_PARAMETER
     else let ram = mem_put (s_indexOrderlyRam st) e header;
              ram = MemorySet ram (e + SIZEOF_NV_RAM_HEADER) 0 (unat (dataSize index));
              e = e + hsize;
              ram = (if e + 4 < RAM_INDEX_SPACE then MemorySet ram e 0 4 else ram)
          in Inr (st\<lparr>s_indexOrderlyRam := ram, g_updateNV := g_updateNV st OR UT_ORDERLY\<rparr>))"

definition NvDeleteRAM :: "TPM_HANDLE \<Rightarrow> nv_state \<Rightarrow> nv_state fallible" where
  "NvDeleteRAM handle st =
     bindE (NvRamGetEnd st) (\<lambda>lastUsed.
     bindE (NvRamGetIndex handle st) (\<lambda>node.
     case node of None \<Rightarrow> Inl FATAL_ERROR_PARAMETER
     | Some nodeAddress \<Rightarrow>
         let sz = le_nat (mem_get (s_indexOrderlyRam st) nodeAddress 4);
             nextNode = nodeAddress + sz in
         if lastUsed < nextNode \<or> RAM_INDEX_SPACE < lastUsed then Inl OUT_OF_BOUNDS
         else let ram = MemoryCopy (s_indexOrderlyRam st) nodeAddress nextNode (lastUsed - nextNode);
                  ram = MemorySet ram (lastUsed - sz) 0 sz
              in Inr (st\<lparr>s_indexOrderlyRam := ram, g_updateNV := g_updateNV st OR UT_ORDERLY\<rparr>)))"

definition NvReadRamIndexAttributes :: "nat option \<Rightarrow> nv_state \<Rightarrow> UINT32 fallible" where
  "NvReadRamIndexAttributes ref st =
     (case ref of None \<Rightarrow> Inl OUT_OF_BOUNDS
      | Some a \<Rightarrow> if a + 12 \<le> RAM_INDEX_SPACE
                  then Inr (word_of_nat (le_nat (mem_get (s_indexOrderlyRam st) (a + 8) 4)))
                  else Inl OUT_OF_BOUNDS)"

definition NvWriteRamIndexAttributes :: "nat option \<Rightarrow> UINT32 \<Rightarrow> nv_state \<Rightarrow> nv_state fallible" where
  "NvWriteRamIndexAttributes ref attributes st =
     (case ref of None \<Rightarrow> Inl OUT_OF_BOUNDS
      | Some a \<Rightarrow> if a + 12 \<le> RAM_INDEX_SPACE
                  then Inr (st\<lparr>s_indexOrderlyRam :=
                              mem_put (s_indexOrderlyRam st) (a + 8) (le_bytes 4 (unat attributes))\<rparr>)
                  else Inl OUT_OF_BOUNDS)"

section \<open>Attributes and the index cache\<close>

definition NvConditionallyWrite :: "nat \<Rightarrow> BYTE list \<Rightarrow> nv_state \<Rightarrow> (TPM_RC \<times> nv_state) fallible" where
  "NvConditionallyWrite entryAddr data st =
     bindE (plat_NvGetChangedStatus entryAddr data (s_NV st)) (\<lambda>isDifferent.
     if isDifferent
     then if g_NvStatus st = TPM_RC_SUCCESS
          then bindE (NvWrite entryAddr data st) (\<lambda>(_, st). Inr (g_NvStatus st, st))
          else Inr (g_NvStatus st, st)
     else Inr (TPM_RC_SUCCESS, st))"

definition NvWriteNvIndexAttributes :: "nat \<Rightarrow> UINT32 \<Rightarrow> nv_state \<Rightarrow> (TPM_RC \<times> nv_state) fallible" where
  "NvWriteNvIndexAttributes locator attributes st =
     NvConditionallyWrite (u32 (locator + OFFSET_ATTRIBUTES)) (le_bytes 4 (unat attributes)) st"

definition NvWriteIndexAttributes ::
  "TPM_HANDLE \<Rightarrow> nat \<Rightarrow> UINT32 \<Rightarrow> nv_state \<Rightarrow> (TPM_RC \<times> nv_state) fallible" where
  "NvWriteIndexAttributes handle locator attributes st =
     (if bit attributes NV_ORDERLY
      then bindE (NvRamGetIndex handle st) (\<lambda>ram.
           bindE (NvWriteRamIndexAttributes ram attributes st) (\<lambda>st. Inr (TPM_RC_SUCCESS, st)))
      else NvWriteNvIndexAttributes locator attributes st)"

definition NvWriteIndexAuth :: "nat \<Rightarrow> BYTE list \<Rightarrow> nv_state \<Rightarrow> (TPM_RC \<times> nv_state) fallible" where
  "NvWriteIndexAuth locator auth st =
     bindE (if locator = s_cachedNvRef st
            then if \<not> length auth \<le> 64 then Inl FATAL_ERROR_PARAMETER
                 else Inr (st\<lparr>s_cachedNvIndex := (s_cachedNvIndex st)
                        \<lparr>authValue := le_bytes 2 (length auth) @ auth @
                                      drop (2 + length auth) (authValue (s_cachedNvIndex st))\<rparr>\<rparr>)
            else Inr st) (\<lambda>st.
     NvConditionallyWrite (u32 (locator + OFFSET_AUTHVALUE)) (le_bytes 2 (length auth) @ auth) st)"

definition NvIndexCacheInit :: "nv_state \<Rightarrow> nv_state" where
  "NvIndexCacheInit st =
     st\<lparr>s_cachedNvRef := NV_REF_INIT, s_cachedNvRamRef := None,
        s_cachedNvIndex := (s_cachedNvIndex st)\<lparr>publicArea :=
          (publicArea (s_cachedNvIndex st))\<lparr>nvIndex := TPM_RH_UNASSIGNED\<rparr>\<rparr>\<rparr>"

definition NvGetIndexInfo :: "nv_layout \<Rightarrow> TPM_HANDLE \<Rightarrow> nv_state \<Rightarrow> (NV_INDEX option \<times> nat \<times> nv_state) fallible" where
  "NvGetIndexInfo L nvHandle st =
     (if nvIndex (publicArea (s_cachedNvIndex st)) \<noteq> nvHandle
      then let st = st\<lparr>s_cachedNvIndex := (s_cachedNvIndex st)\<lparr>publicArea :=
                         (publicArea (s_cachedNvIndex st))\<lparr>nvIndex := TPM_RH_UNASSIGNED\<rparr>\<rparr>,
                       s_cachedNvRamRef := None\<rparr> in
        bindE (NvFindHandle L nvHandle st) (\<lambda>ref.
        let st = st\<lparr>s_cachedNvRef := ref\<rparr> in
        if ref = 0 then Inr (None, 0, st)
        else bindE (NvReadNvIndexInfo ref st) (\<lambda>ix.
          let st = st\<lparr>s_cachedNvIndex := ix\<rparr> in
          if bit (nv_attributes (publicArea ix)) NV_ORDERLY
          then bindE (NvRamGetIndex nvHandle st) (\<lambda>ram.
               bindE (NvReadRamIndexAttributes ram st) (\<lambda>a.
               let ix = ix\<lparr>publicArea := (publicArea ix)\<lparr>nv_attributes := a\<rparr>\<rparr> in
               Inr (Some ix, ref, st\<lparr>s_cachedNvRamRef := ram, s_cachedNvIndex := ix\<rparr>)))
          else Inr (Some ix, ref, st)))
      else Inr (Some (s_cachedNvIndex st), s_cachedNvRef st, st))"

section \<open>Index data\<close>

definition ram_get :: "nat option \<Rightarrow> nat \<Rightarrow> nat \<Rightarrow> nv_state \<Rightarrow> BYTE list fallible" where
  "ram_get ref off n st =
     (case ref of None \<Rightarrow> Inl OUT_OF_BOUNDS
      | Some a \<Rightarrow> if a + off + n \<le> RAM_INDEX_SPACE then Inr (mem_get (s_indexOrderlyRam st) (a + off) n)
                  else Inl OUT_OF_BOUNDS)"

definition ram_put :: "nat option \<Rightarrow> nat \<Rightarrow> BYTE list \<Rightarrow> nv_state \<Rightarrow> nv_state fallible" where
  "ram_put ref off bs st =
     (case ref of None \<Rightarrow> Inl OUT_OF_BOUNDS
      | Some a \<Rightarrow> if a + off + length bs \<le> RAM_INDEX_SPACE
                  then Inr (st\<lparr>s_indexOrderlyRam := mem_put (s_indexOrderlyRam st) (a + off) bs\<rparr>)
                  else Inl OUT_OF_BOUNDS)"

text \<open>The size in the RAM header less header and offset is computed in 64 unsigned bits.\<close>

definition NvGetIndexData :: "NV_INDEX \<Rightarrow> nat \<Rightarrow> nat \<Rightarrow> nat \<Rightarrow> nv_state \<Rightarrow> BYTE list fallible" where
  "NvGetIndexData ix locator offset sz st =
     (let p = publicArea ix; nvAttributes = nv_attributes p in
      if \<not> bit nvAttributes NV_WRITTEN then Inl FATAL_ERROR_PARAMETER
      else if bit nvAttributes NV_ORDERLY
      then bindE (NvRamGetIndex (nvIndex p) st) (\<lambda>ramAddr.
           case ramAddr of None \<Rightarrow> Inl FATAL_ERROR_PARAMETER
           | Some a \<Rightarrow>
               let hsize = le_nat (mem_get (s_indexOrderlyRam st) a 4) in
               if sz \<le> (hsize + 2 ^ 64 - SIZEOF_NV_RAM_HEADER - offset) mod 2 ^ 64
               then ram_get ramAddr (SIZEOF_NV_RAM_HEADER + offset) sz st
               else Inl FATAL_ERROR_PARAMETER)
      else if \<not> (offset \<le> unat (dataSize p) \<and> sz \<le> unat (dataSize p) - offset) then Inl FATAL_ERROR_PARAMETER
      else NvRead (u32 (locator + SIZEOF_NV_INDEX + offset)) sz st)"

function NvHashIndexData_loop ::
  "(BYTE list \<Rightarrow> 'h \<Rightarrow> 'h) \<Rightarrow> NV_INDEX \<Rightarrow> nat \<Rightarrow> nv_state \<Rightarrow> nat \<Rightarrow> int \<Rightarrow> 'h \<Rightarrow> 'h fallible" where
  "NvHashIndexData_loop CryptDigestUpdate ix locator st offset i hashState =
     (if i > 0
      then let readSize = (if i < 64 then nat i else 64) in
           (case NvGetIndexData ix locator offset readSize st of
              Inl e \<Rightarrow> Inl e
            | Inr buffer \<Rightarrow> NvHashIndexData_loop CryptDigestUpdate ix locator st (u32 (offset + readSize))
                             (i - int readSize) (CryptDigestUpdate buffer hashState))
      else Inr hashState)"
  by pat_completeness auto
termination
  by (relation "measure (\<lambda>(_, _, _, _, _, i, _). nat i)") (auto split: if_splits)

declare NvHashIndexData_loop.simps [simp del]

definition NvHashIndexData ::
  "(BYTE list \<Rightarrow> 'h \<Rightarrow> 'h) \<Rightarrow> 'h \<Rightarrow> NV_INDEX \<Rightarrow> nat \<Rightarrow> nat \<Rightarrow> UINT16 \<Rightarrow> nv_state \<Rightarrow> 'h fallible" where
  "NvHashIndexData CryptDigestUpdate hashState ix locator offset sz st =
     (let ds = dataSize (publicArea ix) in
      if offset > unat ds then Inr hashState
      else let sz = (if u32 (offset + unat sz) > unat ds then ds - word_of_nat offset else sz)
           in NvHashIndexData_loop CryptDigestUpdate ix locator st offset (sint sz) hashState)"

definition NvGetUINT64Data :: "NV_INDEX \<Rightarrow> nat \<Rightarrow> nv_state \<Rightarrow> UINT64 fallible" where
  "NvGetUINT64Data ix locator st =
     bindE (NvGetIndexData ix locator 0 8 st) (\<lambda>bs. Inr (ByteArrayToUint64 bs))"

text \<open>
  The index that is written is always the cached one: every caller passes the pointer that
  \<^verbatim>\<open>NvGetIndexInfo\<close> returned, which is the address of the cache.
\<close>

definition NvWriteIndexData_written :: "nat \<Rightarrow> nv_state \<Rightarrow> (TPM_RC \<times> nv_state) fallible" where
  "NvWriteIndexData_written sz st =
     (let p = publicArea (s_cachedNvIndex st) in
      if bit (nv_attributes p) NV_WRITTEN then Inr (TPM_RC_SUCCESS, st)
      else let attributes = set_bit NV_WRITTEN (nv_attributes p);
               st = st\<lparr>s_cachedNvIndex := (s_cachedNvIndex st)\<lparr>publicArea := p\<lparr>nv_attributes := attributes\<rparr>\<rparr>\<rparr> in
        if \<not> bit attributes NV_ORDERLY
        then bindE (NvWriteNvIndexAttributes (s_cachedNvRef st) attributes st) (\<lambda>(result, st).
             if result \<noteq> TPM_RC_SUCCESS then Inr (result, st)
             else if IsNvOrdinaryIndex attributes \<and> unat (dataSize p) > sz
             then bindE (plat_NvMemoryClear (u32 (s_cachedNvRef st + SIZEOF_NV_INDEX)) (unat (dataSize p)) (s_NV st))
                    (\<lambda>nv. Inr (TPM_RC_SUCCESS, st\<lparr>s_NV := nv\<rparr>))
             else Inr (TPM_RC_SUCCESS, st))
        else bindE (ram_put (s_cachedNvRamRef st) 8 (le_bytes 4 (unat attributes)) st) (\<lambda>st.
             if IsNvCounterIndex attributes
             then Inr (TPM_RC_SUCCESS, st\<lparr>g_updateNV := g_updateNV st OR UT_ORDERLY\<rparr>)
             else if IsNvOrdinaryIndex attributes
             then bindE (ram_put (s_cachedNvRamRef st) SIZEOF_NV_RAM_HEADER (replicate (unat (dataSize p)) 0) st)
                    (\<lambda>st. Inr (TPM_RC_SUCCESS, st))
             else Inr (TPM_RC_SUCCESS, st)))"

definition NvWriteIndexData :: "nat \<Rightarrow> BYTE list \<Rightarrow> nv_state \<Rightarrow> (TPM_RC \<times> nv_state) fallible" where
  "NvWriteIndexData offset data st =
     (let ds = unat (dataSize (publicArea (s_cachedNvIndex st))) in
      if \<not> (offset \<le> ds \<and> length data \<le> ds - offset) then Inl FATAL_ERROR_PARAMETER
      else bindE (NvWriteIndexData_written (length data) st) (\<lambda>(result, st).
        if result \<noteq> TPM_RC_SUCCESS then Inr (result, st)
        else if bit (nv_attributes (publicArea (s_cachedNvIndex st))) NV_ORDERLY
        then bindE (ram_put (s_cachedNvRamRef st) (SIZEOF_NV_RAM_HEADER + offset) data st) (\<lambda>st.
             Inr (TPM_RC_SUCCESS, st\<lparr>g_clearOrderly := True\<rparr>))
        else NvConditionallyWrite (u32 (s_cachedNvRef st + SIZEOF_NV_INDEX + offset)) data st))"

definition NvWriteUINT64Data :: "UINT64 \<Rightarrow> nv_state \<Rightarrow> (TPM_RC \<times> nv_state) fallible" where
  "NvWriteUINT64Data intValue st = NvWriteIndexData 0 (Uint64ToByteArray intValue (replicate 8 0)) st"

definition NvIsPlatformPersistentHandle :: "TPM_HANDLE \<Rightarrow> bool" where
  "NvIsPlatformPersistentHandle handle \<longleftrightarrow> handle \<ge> PLATFORM_PERSISTENT \<and> handle \<le> PERSISTENT_LAST"

definition NvIsOwnerPersistentHandle :: "TPM_HANDLE \<Rightarrow> bool" where
  "NvIsOwnerPersistentHandle handle \<longleftrightarrow> handle \<ge> PERSISTENT_FIRST \<and> handle < PLATFORM_PERSISTENT"

definition NvIndexIsAccessible ::
  "nv_layout \<Rightarrow> bool \<Rightarrow> bool \<Rightarrow> TPM_HANDLE \<Rightarrow> nv_state \<Rightarrow> (TPM_RC \<times> nv_state) fallible" where
  "NvIndexIsAccessible L shEnable phEnableNV handle st =
     bindE (NvGetIndexInfo L handle st) (\<lambda>(ix, _, st).
     case ix of None \<Rightarrow> Inr (TPM_RC_HANDLE, st)
     | Some ix \<Rightarrow>
         if \<not> shEnable \<or> \<not> phEnableNV
         then if \<not> bit (nv_attributes (publicArea ix)) NV_PLATFORMCREATE
              then if \<not> shEnable then Inr (TPM_RC_HANDLE, st) else Inr (TPM_RC_SUCCESS, st)
              else if \<not> phEnableNV then Inr (TPM_RC_HANDLE, st) else Inr (TPM_RC_SUCCESS, st)
         else Inr (TPM_RC_SUCCESS, st))"

section \<open>The maximal counter value\<close>

definition NvReadMaxCount :: "nv_state \<Rightarrow> UINT64" where
  "NvReadMaxCount st = s_maxCounter st"

definition NvUpdateMaxCount :: "UINT64 \<Rightarrow> nv_state \<Rightarrow> nv_state" where
  "NvUpdateMaxCount count st = (if count > s_maxCounter st then st\<lparr>s_maxCounter := count\<rparr> else st)"

definition NvSetMaxCount :: "UINT64 \<Rightarrow> nv_state \<Rightarrow> nv_state" where
  "NvSetMaxCount v st = st\<lparr>s_maxCounter := v\<rparr>"

definition NvGetMaxCount :: "nv_layout \<Rightarrow> nv_state \<Rightarrow> UINT64 fallible" where
  "NvGetMaxCount L st =
     bindE (scan_while NV_FUEL (\<lambda>_. NvNext L st) (\<lambda>_ _ iter s. Inr (False, iter, s)) NV_REF_INIT ())
       (\<lambda>(_, iter, _). bindE (NvRead (u32 (iter + 4)) 8 st) (\<lambda>bs. Inr (word_of_nat (le_nat bs))))"

section \<open>Defining and deleting indices and persistent objects\<close>

definition NvDefineIndex :: "nv_layout \<Rightarrow> TPMS_NV_PUBLIC \<Rightarrow> BYTE list \<Rightarrow> nv_state \<Rightarrow> (TPM_RC \<times> nv_state) fallible" where
  "NvDefineIndex L pub auth st =
     (let orderly = bit (nv_attributes pub) NV_ORDERLY;
          entrySize = (if \<not> orderly then (SIZEOF_NV_INDEX + unat (dataSize pub)) mod 2 ^ 16 else SIZEOF_NV_INDEX) in
      bindE (NvTestSpace L entrySize True (IsNvCounterIndex (nv_attributes pub)) st) (\<lambda>space.
      if \<not> space then Inr (TPM_RC_NV_SPACE, st)
      else bindE (if orderly then NvRamTestSpaceIndex (unat (dataSize pub)) st else Inr True) (\<lambda>space.
        if \<not> space then Inr (TPM_RC_NV_SPACE, st)
        else bindE (NvAdd L entrySize TPM_RH_UNASSIGNED (NV_INDEX_bytes \<lparr>publicArea = pub, authValue = auth\<rparr>) st)
          (\<lambda>(result, st).
           if result = TPM_RC_SUCCESS \<and> orderly
           then bindE (NvAddRAM pub st) (\<lambda>st. Inr (result, st))
           else Inr (result, st)))))"

text \<open>
  A persistent object is kept as the octets of its \<^verbatim>\<open>OBJECT\<close>: the attributes come
  first, with the evict bit 4 and the hierarchy bits 1 to 3.
\<close>

definition bytes_put :: "nat \<Rightarrow> BYTE list \<Rightarrow> BYTE list \<Rightarrow> BYTE list" where
  "bytes_put off bs xs = take off xs @ bs @ drop (off + length bs) xs"

definition obj_attributes :: "BYTE list \<Rightarrow> UINT32" where
  "obj_attributes obj = word_of_nat (le_nat (take 4 obj))"

definition obj_evict :: "bool \<Rightarrow> BYTE list \<Rightarrow> BYTE list" where
  "obj_evict b obj =
     bytes_put 0 (le_bytes 4 (unat (if b then set_bit 4 (obj_attributes obj) else unset_bit 4 (obj_attributes obj)))) obj"

definition NvAddEvictObject ::
  "nv_layout \<Rightarrow> TPM_HANDLE \<Rightarrow> BYTE list \<Rightarrow> nv_state \<Rightarrow> (TPM_RC \<times> BYTE list \<times> nv_state) fallible" where
  "NvAddEvictObject L evictHandle obj st =
     (let temp = take 4 (drop (OFFSET_EVICTHANDLE L) obj) in
      bindE (NvTestSpace L (SIZEOF_OBJECT L + 4) False False st) (\<lambda>space.
      if \<not> space then Inr (TPM_RC_NV_SPACE, obj, st)
      else let obj = bytes_put (OFFSET_EVICTHANDLE L) (le_bytes 4 (unat evictHandle)) (obj_evict True obj) in
        bindE (NvAdd L (SIZEOF_OBJECT L) evictHandle obj st) (\<lambda>(result, st).
        Inr (result, bytes_put (OFFSET_EVICTHANDLE L) temp (obj_evict False obj), st))))"

definition NvGetEvictObject ::
  "nv_layout \<Rightarrow> TPM_HANDLE \<Rightarrow> BYTE list \<Rightarrow> nv_state \<Rightarrow> (TPM_RC \<times> BYTE list) fallible" where
  "NvGetEvictObject L handle obj st =
     bindE (NvFindEvict L handle st) (\<lambda>(entityAddr, found).
     let obj = obj_evict True (case found of Some x \<Rightarrow> x | None \<Rightarrow> obj) in
     Inr (if entityAddr = 0 then TPM_RC_HANDLE else TPM_RC_SUCCESS, obj))"

definition NvDeleteIndex :: "nv_layout \<Rightarrow> NV_INDEX option \<Rightarrow> nat \<Rightarrow> nv_state \<Rightarrow> (TPM_RC \<times> nv_state) fallible" where
  "NvDeleteIndex L ixo entityAddr st =
     (case ixo of None \<Rightarrow> Inr (TPM_RC_SUCCESS, st)
      | Some ix \<Rightarrow>
          let a = nv_attributes (publicArea ix) in
          bindE (if IsNvCounterIndex a \<and> bit a NV_WRITTEN
                 then bindE (NvGetUINT64Data ix entityAddr st) (\<lambda>v. Inr (NvUpdateMaxCount v st))
                 else Inr st) (\<lambda>st.
          bindE (NvDelete L entityAddr st) (\<lambda>(result, st).
          if result \<noteq> TPM_RC_SUCCESS then Inr (result, st)
          else bindE (if bit a NV_ORDERLY then NvDeleteRAM (nvIndex (publicArea ix)) st else Inr st) (\<lambda>st.
               Inr (TPM_RC_SUCCESS, NvIndexCacheInit st)))))"

definition NvDeleteEvict :: "nv_layout \<Rightarrow> TPM_HANDLE \<Rightarrow> nv_state \<Rightarrow> (TPM_RC \<times> nv_state) fallible" where
  "NvDeleteEvict L handle st =
     bindE (NvFindHandle L handle st) (\<lambda>entityAddr.
     if entityAddr \<noteq> 0 then NvDelete L entityAddr st else Inr (TPM_RC_SUCCESS, st))"

section \<open>Operations on all entries\<close>

text \<open>
  The body of the loop of \<^verbatim>\<open>NvFlushHierarchy\<close>: the result, whether the entry was
  deleted, and the state.  The loop starts again after a deletion, so that a pass stops at
  the first deletion and there is one pass more than there are deletions.
\<close>

definition NvFlushHierarchy_entry ::
  "nv_layout \<Rightarrow> TPM_HANDLE \<Rightarrow> nat \<Rightarrow> TPM_HANDLE \<Rightarrow> nv_state \<Rightarrow> (TPM_RC \<times> bool \<times> nv_state) fallible" where
  "NvFlushHierarchy_entry L hierarchy currentAddr entityHandle st =
     (if HandleGetType entityHandle = TPM_HT_NV_INDEX
      then if hierarchy = TPM_RH_ENDORSEMENT \<or> hierarchy = TPM_RH_PLATFORM then Inr (TPM_RC_SUCCESS, False, st)
           else bindE (NvReadNvIndexInfo currentAddr st) (\<lambda>ix.
             if \<not> bit (nv_attributes (publicArea ix)) NV_PLATFORMCREATE
             then bindE (NvDeleteIndex L (Some ix) currentAddr st) (\<lambda>(result, st). Inr (result, True, st))
             else Inr (TPM_RC_SUCCESS, False, st))
      else if HandleGetType entityHandle = TPM_HT_PERSISTENT
      then bindE (NvRead (u32 (currentAddr + 4)) 4 st) (\<lambda>bs.
           let attributes = (word_of_nat (le_nat bs) :: UINT32) in
           if hierarchy = TPM_RH_PLATFORM \<and> bit attributes 2
              \<or> hierarchy = TPM_RH_OWNER \<and> bit attributes 3
              \<or> hierarchy = TPM_RH_ENDORSEMENT \<and> bit attributes 1
           then bindE (NvDelete L currentAddr st) (\<lambda>(result, st). Inr (result, True, st))
           else Inr (TPM_RC_SUCCESS, False, st))
      else Inl FATAL_ERROR_INTERNAL)"

definition NvFlushHierarchy_pass ::
  "nv_layout \<Rightarrow> TPM_HANDLE \<Rightarrow> nv_state \<Rightarrow> (TPM_RC \<times> bool \<times> nv_state) fallible" where
  "NvFlushHierarchy_pass L hierarchy st =
     bindE (scan_while NV_FUEL (\<lambda>(_, _, st). NvNext L st)
              (\<lambda>currentAddr entityHandle iter (_, _, st).
                 bindE (NvFlushHierarchy_entry L hierarchy currentAddr entityHandle st) (\<lambda>(result, deleted, st).
                 Inr (result \<noteq> TPM_RC_SUCCESS \<or> deleted, iter, (result, deleted, st))))
              NV_REF_INIT (TPM_RC_SUCCESS, False, st))
       (\<lambda>(_, _, r). Inr r)"

primrec NvFlushHierarchy_loop ::
  "nat \<Rightarrow> nv_layout \<Rightarrow> TPM_HANDLE \<Rightarrow> nv_state \<Rightarrow> (TPM_RC \<times> nv_state) fallible" where
  "NvFlushHierarchy_loop 0 L hierarchy st = Inl NO_FUEL"
| "NvFlushHierarchy_loop (Suc fuel) L hierarchy st =
     bindE (NvFlushHierarchy_pass L hierarchy st) (\<lambda>(result, deleted, st).
     if result = TPM_RC_SUCCESS \<and> deleted then NvFlushHierarchy_loop fuel L hierarchy st
     else Inr (result, st))"

definition NvFlushHierarchy :: "nv_layout \<Rightarrow> TPM_HANDLE \<Rightarrow> nv_state \<Rightarrow> (TPM_RC \<times> nv_state) fallible" where
  "NvFlushHierarchy L hierarchy st = NvFlushHierarchy_loop NV_FUEL L hierarchy st"

definition NvSetGlobalLock_nv :: "nv_layout \<Rightarrow> nv_state \<Rightarrow> (TPM_RC \<times> nv_state) fallible" where
  "NvSetGlobalLock_nv L st =
     bindE (scan_while NV_FUEL (\<lambda>(_, st). NvNextByType L TPM_HT_NV_INDEX st)
              (\<lambda>currentAddr _ iter (result, st).
                 bindE (NvReadNvIndexAttributes currentAddr st) (\<lambda>attributes.
                 if \<not> bit attributes NV_ORDERLY \<and> bit attributes NV_GLOBALLOCK
                 then bindE (NvWriteNvIndexAttributes currentAddr (set_bit NV_WRITELOCKED attributes) st)
                        (\<lambda>(result, st). Inr (result \<noteq> TPM_RC_SUCCESS, iter, (result, st)))
                 else Inr (False, iter, (result, st))))
              NV_REF_INIT (TPM_RC_SUCCESS, st))
       (\<lambda>(_, _, r). Inr r)"

definition NvSetGlobalLock_ram :: "nv_state \<Rightarrow> nv_state fallible" where
  "NvSetGlobalLock_ram st =
     bindE (scan_while RAM_FUEL NvRamNext
              (\<lambda>currentRamAddr _ ramIter st.
                 bindE (NvReadRamIndexAttributes (Some currentRamAddr) st) (\<lambda>attributes.
                 if bit attributes NV_GLOBALLOCK
                 then bindE (NvWriteRamIndexAttributes (Some currentRamAddr) (set_bit NV_WRITELOCKED attributes) st)
                        (\<lambda>st. Inr (False, ramIter, st))
                 else Inr (False, ramIter, st)))
              None st)
       (\<lambda>(_, _, st). Inr st)"

definition NvSetGlobalLock :: "nv_layout \<Rightarrow> nv_state \<Rightarrow> (TPM_RC \<times> nv_state) fallible" where
  "NvSetGlobalLock L st =
     bindE (NvSetGlobalLock_nv L st) (\<lambda>(result, st).
     if result \<noteq> TPM_RC_SUCCESS then Inr (result, st)
     else bindE (NvSetGlobalLock_ram st) (\<lambda>st. Inr (result, st)))"

section \<open>Capability queries\<close>

text \<open>A \<^verbatim>\<open>TPML_HANDLE\<close> is the list of its first \<^verbatim>\<open>count\<close> handles.\<close>

fun InsertSort_shift :: "nat \<Rightarrow> nat \<Rightarrow> TPM_HANDLE list \<Rightarrow> TPM_HANDLE list" where
  "InsertSort_shift i j hs = (if j > i then InsertSort_shift i (j - 1) (hs[j := hs ! (j - 1)]) else hs)"

declare InsertSort_shift.simps [simp del]

definition InsertSort :: "TPM_HANDLE list \<Rightarrow> nat \<Rightarrow> TPM_HANDLE \<Rightarrow> TPM_HANDLE list" where
  "InsertSort handleList count entityHandle =
     (if count = 0 then handleList
      else if handleList = [] then [entityHandle]
      else let originalCount = length handleList;
               hs = (if originalCount < count then handleList @ [0] else handleList);
               i = first_index (\<lambda>h. h > entityHandle) handleList;
               hs = (if i < originalCount then InsertSort_shift i (length hs - 1) hs else hs)
           in if i < originalCount \<or> length hs > originalCount then hs[i := entityHandle] else hs)"

definition NvCapGet_scan ::
  "nv_layout \<Rightarrow> UINT8 \<Rightarrow> TPM_HANDLE \<Rightarrow> nat \<Rightarrow> nv_state \<Rightarrow> (bool \<times> TPM_HANDLE list) fallible" where
  "NvCapGet_scan L type handle count st =
     bindE (scan_while NV_FUEL (\<lambda>_. NvNextByType L type st)
              (\<lambda>_ h iter (more, handleList).
                 if h < handle then Inr (False, iter, (more, handleList))
                 else Inr (False, iter, (more \<or> length handleList = count, InsertSort handleList count h)))
              NV_REF_INIT (False, []))
       (\<lambda>(_, _, r). Inr r)"

definition NvCapGetPersistent :: "nv_layout \<Rightarrow> TPM_HANDLE \<Rightarrow> UINT32 \<Rightarrow> nv_state \<Rightarrow> (bool \<times> TPM_HANDLE list) fallible" where
  "NvCapGetPersistent L handle count st =
     (if HandleGetType handle \<noteq> TPM_HT_PERSISTENT then Inl FATAL_ERROR_PARAMETER
      else NvCapGet_scan L TPM_HT_PERSISTENT handle (min (unat count) MAX_CAP_HANDLES) st)"

definition NvCapGetIndex :: "nv_layout \<Rightarrow> TPM_HANDLE \<Rightarrow> UINT32 \<Rightarrow> nv_state \<Rightarrow> (bool \<times> TPM_HANDLE list) fallible" where
  "NvCapGetIndex L handle count st =
     (if HandleGetType handle \<noteq> TPM_HT_NV_INDEX then Inl FATAL_ERROR_PARAMETER
      else NvCapGet_scan L TPM_HT_NV_INDEX handle (min (unat count) MAX_CAP_HANDLES) st)"

definition NvCapGetOne_scan :: "nv_layout \<Rightarrow> UINT8 \<Rightarrow> TPM_HANDLE \<Rightarrow> nv_state \<Rightarrow> bool fallible" where
  "NvCapGetOne_scan L type handle st =
     bindE (scan_while NV_FUEL (\<lambda>_. NvNextByType L type st)
              (\<lambda>_ h iter s. Inr (h = handle, iter, s)) NV_REF_INIT ())
       (\<lambda>(addr, _, _). Inr (addr \<noteq> None))"

definition NvCapGetOnePersistent :: "nv_layout \<Rightarrow> TPM_HANDLE \<Rightarrow> nv_state \<Rightarrow> bool fallible" where
  "NvCapGetOnePersistent L handle st =
     (if HandleGetType handle \<noteq> TPM_HT_PERSISTENT then Inl FATAL_ERROR_PARAMETER
      else NvCapGetOne_scan L TPM_HT_PERSISTENT handle st)"

definition NvCapGetOneIndex :: "nv_layout \<Rightarrow> TPM_HANDLE \<Rightarrow> nv_state \<Rightarrow> bool fallible" where
  "NvCapGetOneIndex L handle st =
     (if HandleGetType handle \<noteq> TPM_HT_NV_INDEX then Inl FATAL_ERROR_PARAMETER
      else NvCapGetOne_scan L TPM_HT_NV_INDEX handle st)"

definition NvCapGetPersistentAvail :: "nv_layout \<Rightarrow> nv_state \<Rightarrow> nat fallible" where
  "NvCapGetPersistentAvail L st =
     bindE (NvCapGetCounterNumber L st) (\<lambda>counterNum.
     bindE (NvGetFreeBytes L st) (\<lambda>availNVSpace.
     let avail = (if counterNum < MIN_COUNTER_INDICES
                  then let reserved = SIZEOF_NV_LIST_TERMINATOR + (MIN_COUNTER_INDICES - counterNum) * NV_INDEX_COUNTER_SIZE
                       in if reserved > availNVSpace then 0 else availNVSpace - reserved
                  else availNVSpace)
     in Inr (avail div NV_EVICT_OBJECT_SIZE L)))"

definition NvCapGetCounterAvail :: "nv_layout \<Rightarrow> nv_state \<Rightarrow> nat fallible" where
  "NvCapGetCounterAvail L st =
     bindE (NvCapGetPersistentNumber L st) (\<lambda>persistentNum.
     bindE (NvGetFreeBytes L st) (\<lambda>availNVSpace.
     let avail = (if persistentNum < MIN_EVICT_OBJECTS
                  then let reserved = u32 (SIZEOF_NV_LIST_TERMINATOR +
                                           (MIN_EVICT_OBJECTS - persistentNum) * NV_EVICT_OBJECT_SIZE L)
                       in if reserved > availNVSpace then 0 else availNVSpace - reserved
                  else availNVSpace) in
     bindE (NvRamGetEnd st) (\<lambda>e.
     let availRAMSpace = u32 (RAM_INDEX_SPACE + 2 ^ 32 - e) in
     Inr (if avail div NV_INDEX_COUNTER_SIZE > availRAMSpace div NV_RAM_INDEX_COUNTER_SIZE
          then availRAMSpace div NV_RAM_INDEX_COUNTER_SIZE
          else avail div NV_INDEX_COUNTER_SIZE))))"

section \<open>Startup and manufacture\<close>

abbreviation SU_NONE_VALUE :: UINT16 where "SU_NONE_VALUE \<equiv> 0xFFFF"
abbreviation MAX_ORDERLY_COUNT :: UINT64 where "MAX_ORDERLY_COUNT \<equiv> 0xFF"

definition NvSetStartupAttributes :: "UINT32 \<Rightarrow> STARTUP_TYPE \<Rightarrow> UINT32" where
  "NvSetStartupAttributes attributes type =
     (let a = unset_bit NV_READLOCKED attributes;
          a = (if \<not> IsNvCounterIndex a
                  \<and> (bit a NV_CLEAR_STCLEAR \<or> bit a NV_ORDERLY \<and> type = SU_RESET)
               then unset_bit NV_WRITTEN a else a)
      in if \<not> bit a NV_WRITTEN \<or> \<not> bit a NV_WRITEDEFINE then unset_bit NV_WRITELOCKED a else a)"

definition NvEntityStartup_nv :: "nv_layout \<Rightarrow> STARTUP_TYPE \<Rightarrow> nv_state \<Rightarrow> nv_state fallible" where
  "NvEntityStartup_nv L type st =
     bindE (scan_while NV_FUEL (NvNextByType L TPM_HT_NV_INDEX)
              (\<lambda>currentAddr _ iter st.
                 bindE (NvReadNvIndexAttributes currentAddr st) (\<lambda>attributes.
                 if bit attributes NV_ORDERLY then Inr (False, iter, st)
                 else bindE (NvWriteNvIndexAttributes currentAddr (NvSetStartupAttributes attributes type) st)
                        (\<lambda>(_, st). Inr (False, iter, st))))
              NV_REF_INIT st)
       (\<lambda>(_, _, st). Inr st)"

definition NvEntityStartup_ram :: "STARTUP_TYPE \<Rightarrow> UINT16 \<Rightarrow> nv_state \<Rightarrow> nv_state fallible" where
  "NvEntityStartup_ram type g_prevOrderlyState st =
     bindE (scan_while RAM_FUEL NvRamNext
              (\<lambda>currentRamAddr _ ramIter st.
                 bindE (NvReadRamIndexAttributes (Some currentRamAddr) st) (\<lambda>attributes.
                 let attributes = NvSetStartupAttributes attributes type in
                 bindE (NvWriteRamIndexAttributes (Some currentRamAddr) attributes st) (\<lambda>st.
                 if IsNvCounterIndex attributes \<and> g_prevOrderlyState = SU_NONE_VALUE
                 then bindE (ram_get (Some currentRamAddr) SIZEOF_NV_RAM_HEADER 8 st) (\<lambda>bs.
                      bindE (ram_put (Some currentRamAddr) SIZEOF_NV_RAM_HEADER
                               (Uint64ToByteArray (ByteArrayToUint64 bs OR MAX_ORDERLY_COUNT) bs) st) (\<lambda>st.
                      Inr (False, ramIter, st)))
                 else Inr (False, ramIter, st))))
              None st)
       (\<lambda>(_, _, st). Inr st)"

definition NvEntityStartup :: "nv_layout \<Rightarrow> STARTUP_TYPE \<Rightarrow> UINT16 \<Rightarrow> nv_state \<Rightarrow> nv_state fallible" where
  "NvEntityStartup L type g_prevOrderlyState st =
     bindE (NvRead (NV_INDEX_RAM_DATA L) RAM_INDEX_SPACE st) (\<lambda>bs.
     let st = st\<lparr>s_indexOrderlyRam := mem_put (s_indexOrderlyRam st) 0 bs\<rparr> in
     bindE (NvGetMaxCount L st) (\<lambda>maxCount.
     let st = NvSetMaxCount maxCount st in
     if type = SU_RESUME then Inr st
     else bindE (NvEntityStartup_nv L type st) (NvEntityStartup_ram type g_prevOrderlyState)))"

definition NvManufacture :: "nv_layout \<Rightarrow> nv_state \<Rightarrow> nv_state fallible" where
  "NvManufacture L st =
     (let st = NvInitStatic st;
          st = st\<lparr>s_indexOrderlyRam := MemorySet (s_indexOrderlyRam st) 0 0 RAM_INDEX_SPACE\<rparr> in
      bindE (NvUpdateIndexOrderlyData L st) (\<lambda>st.
      bindE (NvWriteNvListEnd (NV_USER_DYNAMIC L) (NvSetMaxCount 0 st)) (\<lambda>(_, st). Inr st)))"

end
