(* ===== verification/FTPM_NVList.thy ===== *)
theory FTPM_NVList
  imports FTPM_NVDynamic
begin

text \<open>
  What the octets of the dynamic NV area and of the orderly RAM stand for: a list of
  payloads, each starting with a handle.  The locale \<open>entry_walk\<close> is the contract between
  an iterator such as \<^verbatim>\<open>NvNext\<close> or \<^verbatim>\<open>NvRamNext\<close> and the loops that use it;
  its rules give the result of every loop over the list once and for all.  Both iterators
  are shown to meet the contract.
\<close>

section \<open>Iterators over a list of entries\<close>

text \<open>The iterator that skips the entries of other types, as \<^verbatim>\<open>NvNextByType\<close> does.\<close>

definition typed_next ::
  "nat \<Rightarrow> (TPM_HANDLE \<Rightarrow> bool) \<Rightarrow> ('s \<Rightarrow> 'i \<Rightarrow> (('a \<times> TPM_HANDLE) option \<times> 'i) fallible) \<Rightarrow>
   's \<Rightarrow> 'i \<Rightarrow> (('a \<times> TPM_HANDLE) option \<times> 'i) fallible" where
  "typed_next fuel T next s iter =
     bindE (scan_while fuel (\<lambda>_. next s) (\<lambda>addr h iter _. Inr (T h, iter, h)) iter 0)
       (\<lambda>(addr, iter, h). Inr (case addr of None \<Rightarrow> None | Some a \<Rightarrow> Some (a, h), iter))"

lemma NvNextByType_typed_next:
  "NvNextByType L type = typed_next NV_FUEL (\<lambda>h. HandleGetType h = type) (NvNext L)"
  by (intro ext) (simp add: NvNextByType_def typed_next_def)

lemma scan_while_start:
  "next s i = next s j \<Longrightarrow> scan_while fuel next body i s = scan_while fuel next body j s"
  by (cases fuel) simp_all

lemma list_split_first:
  obtains "\<forall>y \<in> set ys. \<not> P y"
  | us z vs where "ys = us @ z # vs" "\<forall>y \<in> set us. \<not> P y" "P z"
  by (metis split_list_first_prop)

locale entry_walk =
  fixes nxt :: "'s \<Rightarrow> 'i \<Rightarrow> (('a \<times> TPM_HANDLE) option \<times> 'i) fallible"
    and start :: 'i
    and pos :: "'e list \<Rightarrow> 'i"
    and addr :: "'e list \<Rightarrow> 'a"
    and hnd :: "'e \<Rightarrow> TPM_HANDLE"
    and good :: "'s \<Rightarrow> 'e list \<Rightarrow> bool"
  assumes nxt_entry: "good s (xs @ y # ys) \<Longrightarrow> nxt s (pos xs) = Inr (Some (addr xs, hnd y), pos (xs @ [y]))"
    and nxt_end: "good s xs \<Longrightarrow> nxt s (pos xs) = Inr (None, pos xs)"
    and nxt_start: "good s xs \<Longrightarrow> nxt s start = nxt s (pos [])"
begin

text \<open>Searching: the loop runs to the end, or stops at the first hit.\<close>

lemma scan_none:
  assumes "good s (xs @ ys)" "\<forall>y \<in> set ys. \<not> P (hnd y)" "length ys < fuel"
  shows "scan_while fuel (\<lambda>_. nxt s) (\<lambda>_ h i \<sigma>. Inr (P h, i, g h \<sigma>)) (pos xs) \<sigma> =
    Inr (None, pos (xs @ ys), fold (\<lambda>y. g (hnd y)) ys \<sigma>)"
  using assms
proof (induction ys arbitrary: xs \<sigma> fuel)
  case Nil
  then show ?case by (cases fuel) (simp_all add: nxt_end)
next
  case (Cons y ys)
  then obtain k where "fuel = Suc k" by (cases fuel) simp_all
  with Cons.prems Cons.IH [of "xs @ [y]" k "g (hnd y) \<sigma>"] show ?case
    by (simp add: nxt_entry)
qed

lemma scan_hit:
  assumes "good s (xs @ ys @ z # zs)" "\<forall>y \<in> set ys. \<not> P (hnd y)" "P (hnd z)" "length ys < fuel"
  shows "scan_while fuel (\<lambda>_. nxt s) (\<lambda>_ h i \<sigma>. Inr (P h, i, g h \<sigma>)) (pos xs) \<sigma> =
    Inr (Some (addr (xs @ ys)), pos (xs @ ys @ [z]), g (hnd z) (fold (\<lambda>y. g (hnd y)) ys \<sigma>))"
  using assms
proof (induction ys arbitrary: xs \<sigma> fuel)
  case Nil
  then obtain k where "fuel = Suc k" by (cases fuel) simp_all
  with Nil show ?case by (simp add: nxt_entry)
next
  case (Cons y ys)
  then obtain k where "fuel = Suc k" by (cases fuel) simp_all
  with Cons.prems Cons.IH [of "xs @ [y]" k "g (hnd y) \<sigma>"] show ?case
    by (simp add: nxt_entry)
qed

lemma scan_none_start:
  assumes "good s ys" "\<forall>y \<in> set ys. \<not> P (hnd y)" "length ys < fuel"
  shows "scan_while fuel (\<lambda>_. nxt s) (\<lambda>_ h i \<sigma>. Inr (P h, i, g h \<sigma>)) start \<sigma> =
    Inr (None, pos ys, fold (\<lambda>y. g (hnd y)) ys \<sigma>)"
  using scan_none [of s "[]" ys P fuel g \<sigma>] assms
    scan_while_start [of "\<lambda>_. nxt s" \<sigma> start "pos []", OF nxt_start [OF assms(1)]] by simp

lemma scan_hit_start:
  assumes "good s (ys @ z # zs)" "\<forall>y \<in> set ys. \<not> P (hnd y)" "P (hnd z)" "length ys < fuel"
  shows "scan_while fuel (\<lambda>_. nxt s) (\<lambda>_ h i \<sigma>. Inr (P h, i, g h \<sigma>)) start \<sigma> =
    Inr (Some (addr ys), pos (ys @ [z]), g (hnd z) (fold (\<lambda>y. g (hnd y)) ys \<sigma>))"
  using scan_hit [of s "[]" ys z zs P fuel g \<sigma>] assms
    scan_while_start [of "\<lambda>_. nxt s" \<sigma> start "pos []", OF nxt_start [OF assms(1)]] by simp

text \<open>A loop that passes over entries without effect until its body stops it.\<close>

lemma scan_until:
  assumes "good (view \<sigma>) (xs @ us @ z # vs)" "length us < fuel"
    and "\<And>as u bs. us = as @ u # bs \<Longrightarrow>
      body (addr (xs @ as)) (hnd u) (pos (xs @ as @ [u])) \<sigma> = Inr (False, pos (xs @ as @ [u]), \<sigma>)"
    and "body (addr (xs @ us)) (hnd z) (pos (xs @ us @ [z])) \<sigma> = Inr (True, i, \<sigma>')"
  shows "scan_while fuel (\<lambda>\<sigma>. nxt (view \<sigma>)) body (pos xs) \<sigma> = Inr (Some (addr (xs @ us)), i, \<sigma>')"
  using assms
proof (induction us arbitrary: xs fuel)
  case Nil
  then obtain k where "fuel = Suc k" by (cases fuel) simp_all
  with Nil show ?case by (simp add: nxt_entry)
next
  case (Cons u us)
  then obtain k where k: "fuel = Suc k" "length us < k" by (cases fuel) simp_all
  have "body (addr xs) (hnd u) (pos (xs @ [u])) \<sigma> = Inr (False, pos (xs @ [u]), \<sigma>)"
    using Cons.prems(3) [of "[]" u us] by simp
  moreover have "scan_while k (\<lambda>\<sigma>. nxt (view \<sigma>)) body (pos (xs @ [u])) \<sigma> = Inr (Some (addr ((xs @ [u]) @ us)), i, \<sigma>')"
  proof (rule Cons.IH)
    show "body (addr ((xs @ [u]) @ as)) (hnd v) (pos ((xs @ [u]) @ as @ [v])) \<sigma> =
        Inr (False, pos ((xs @ [u]) @ as @ [v]), \<sigma>)" if "us = as @ v # bs" for as v bs
      using Cons.prems(3) [of "u # as" v bs] that by simp
  qed (use Cons.prems k in simp_all)
  ultimately show ?case using Cons.prems(1) k by (simp add: nxt_entry)
qed

lemma scan_fail:
  assumes "good (view \<sigma>) (xs @ us @ z # vs)" "length us < fuel"
    and "\<And>as u bs. us = as @ u # bs \<Longrightarrow>
      body (addr (xs @ as)) (hnd u) (pos (xs @ as @ [u])) \<sigma> = Inr (False, pos (xs @ as @ [u]), \<sigma>)"
    and "body (addr (xs @ us)) (hnd z) (pos (xs @ us @ [z])) \<sigma> = Inl e"
  shows "scan_while fuel (\<lambda>\<sigma>. nxt (view \<sigma>)) body (pos xs) \<sigma> = Inl e"
  using assms
proof (induction us arbitrary: xs fuel)
  case Nil
  then obtain k where "fuel = Suc k" by (cases fuel) simp_all
  with Nil show ?case by (simp add: nxt_entry)
next
  case (Cons u us)
  then obtain k where k: "fuel = Suc k" "length us < k" by (cases fuel) simp_all
  have "body (addr xs) (hnd u) (pos (xs @ [u])) \<sigma> = Inr (False, pos (xs @ [u]), \<sigma>)"
    using Cons.prems(3) [of "[]" u us] by simp
  moreover have "scan_while k (\<lambda>\<sigma>. nxt (view \<sigma>)) body (pos (xs @ [u])) \<sigma> = Inl e"
  proof (rule Cons.IH)
    show "body (addr ((xs @ [u]) @ as)) (hnd v) (pos ((xs @ [u]) @ as @ [v])) \<sigma> =
        Inr (False, pos ((xs @ [u]) @ as @ [v]), \<sigma>)" if "us = as @ v # bs" for as v bs
      using Cons.prems(3) [of "u # as" v bs] that by simp
  qed (use Cons.prems k in simp_all)
  ultimately show ?case using Cons.prems(1) k by (simp add: nxt_entry)
qed

lemma typed_none:
  assumes "good s (xs @ ys)" "\<forall>y \<in> set ys. \<not> T (hnd y)" "length ys < fuel"
  shows "typed_next fuel T nxt s (pos xs) = Inr (None, pos (xs @ ys))"
  unfolding typed_next_def by (subst scan_none [OF assms]) simp

lemma typed_hit:
  assumes "good s (xs @ ys @ z # zs)" "\<forall>y \<in> set ys. \<not> T (hnd y)" "T (hnd z)" "length ys < fuel"
  shows "typed_next fuel T nxt s (pos xs) = Inr (Some (addr (xs @ ys), hnd z), pos (xs @ ys @ [z]))"
  unfolding typed_next_def by (subst scan_hit [OF assms]) simp

text \<open>Whether there is an entry of a type with a property.\<close>

lemma typed_find:
  assumes "good s (xs @ ys)" "length ys < fuel" "length ys < k"
  shows "\<exists>a i. scan_while fuel (\<lambda>_. typed_next k T nxt s) (\<lambda>_ h i \<sigma>. Inr (P h, i, \<sigma>)) (pos xs) \<sigma> = Inr (a, i, \<sigma>) \<and>
    (a \<noteq> None \<longleftrightarrow> (\<exists>y \<in> set ys. T (hnd y) \<and> P (hnd y)))"
  using assms
proof (induction "length ys" arbitrary: xs ys fuel rule: less_induct)
  case less
  obtain n where n: "fuel = Suc n" using less.prems by (cases fuel) simp_all
  show ?case
  proof (cases rule: list_split_first [of ys "\<lambda>y. T (hnd y)"])
    case 1
    then show ?thesis using typed_none [OF less.prems(1)] less.prems n by auto
  next
    case (2 us z vs)
    have t: "typed_next k T nxt s (pos xs) = Inr (Some (addr (xs @ us), hnd z), pos (xs @ us @ [z]))"
      by (rule typed_hit) (use less.prems 2 in auto)
    show ?thesis
    proof (cases "P (hnd z)")
      case True
      then show ?thesis using t n 2 by auto
    next
      case False
      then show ?thesis using t n 2 less.hyps [of vs "xs @ us @ [z]" n] less.prems by auto
    qed
  qed
qed

text \<open>
  Visiting every entry: \<open>I xs ys \<sigma>\<close> holds with the visited entries \<open>xs\<close>, as the body left
  them, and the entries \<open>ys\<close> still to come.
\<close>

lemma scan_inv:
  assumes good: "\<And>xs ys \<sigma>. I xs ys \<sigma> \<Longrightarrow> good (view \<sigma>) (xs @ ys)"
    and step: "\<And>xs y ys \<sigma>. I xs (y # ys) \<sigma> \<Longrightarrow>
      \<exists>y' \<sigma>'. body (addr xs) (hnd y) (pos (xs @ [y])) \<sigma> = Inr (False, pos (xs @ [y']), \<sigma>') \<and> I (xs @ [y']) ys \<sigma>'"
  shows "I xs ys \<sigma> \<Longrightarrow> length ys < fuel \<Longrightarrow>
    \<exists>zs \<sigma>'. scan_while fuel (\<lambda>\<sigma>. nxt (view \<sigma>)) body (pos xs) \<sigma> = Inr (None, pos zs, \<sigma>') \<and> I zs [] \<sigma>'"
proof (induction ys arbitrary: xs \<sigma> fuel)
  case Nil
  then show ?case using good [OF Nil(1)] by (cases fuel) (auto simp: nxt_end)
next
  case (Cons y ys)
  then obtain k where k: "fuel = Suc k" "length ys < k" by (cases fuel) simp_all
  obtain y' \<sigma>' where "body (addr xs) (hnd y) (pos (xs @ [y])) \<sigma> = Inr (False, pos (xs @ [y']), \<sigma>')"
    and "I (xs @ [y']) ys \<sigma>'" using step [OF Cons.prems(1)] by blast
  with Cons.IH [of "xs @ [y']" \<sigma>' k] k show ?case
    by (simp add: nxt_entry [OF good [OF Cons.prems(1)]])
qed

lemma scan_inv_start:
  assumes "\<And>xs ys \<sigma>. I xs ys \<sigma> \<Longrightarrow> good (view \<sigma>) (xs @ ys)"
    and "\<And>xs y ys \<sigma>. I xs (y # ys) \<sigma> \<Longrightarrow>
      \<exists>y' \<sigma>'. body (addr xs) (hnd y) (pos (xs @ [y])) \<sigma> = Inr (False, pos (xs @ [y']), \<sigma>') \<and> I (xs @ [y']) ys \<sigma>'"
    and "I [] ys \<sigma>" "length ys < fuel"
  shows "\<exists>zs \<sigma>'. scan_while fuel (\<lambda>\<sigma>. nxt (view \<sigma>)) body start \<sigma> = Inr (None, pos zs, \<sigma>') \<and> I zs [] \<sigma>'"
proof -
  have "scan_while fuel (\<lambda>\<sigma>. nxt (view \<sigma>)) body start \<sigma> = scan_while fuel (\<lambda>\<sigma>. nxt (view \<sigma>)) body (pos []) \<sigma>"
    by (rule scan_while_start, rule nxt_start, rule assms(1) [OF assms(3)])
  then show ?thesis using scan_inv [of I view body "[]" ys \<sigma> fuel] assms by auto
qed

text \<open>The same for the entries of one type; the others are passed over.\<close>

lemma typed_inv:
  assumes good: "\<And>xs ys \<sigma>. I xs ys \<sigma> \<Longrightarrow> good (view \<sigma>) (xs @ ys)"
    and skip: "\<And>xs y ys \<sigma>. I xs (y # ys) \<sigma> \<Longrightarrow> \<not> T (hnd y) \<Longrightarrow> I (xs @ [y]) ys \<sigma>"
    and step: "\<And>xs y ys \<sigma>. I xs (y # ys) \<sigma> \<Longrightarrow> T (hnd y) \<Longrightarrow>
      \<exists>y' \<sigma>'. body (addr xs) (hnd y) (pos (xs @ [y])) \<sigma> = Inr (False, pos (xs @ [y']), \<sigma>') \<and> I (xs @ [y']) ys \<sigma>'"
  shows "I xs ys \<sigma> \<Longrightarrow> length ys < fuel \<Longrightarrow> length ys < k \<Longrightarrow>
    \<exists>zs \<sigma>'. scan_while fuel (\<lambda>\<sigma>. typed_next k T nxt (view \<sigma>)) body (pos xs) \<sigma> = Inr (None, pos zs, \<sigma>') \<and> I zs [] \<sigma>'"
proof (induction "length ys" arbitrary: xs ys \<sigma> fuel rule: less_induct)
  case less
  obtain n where n: "fuel = Suc n" using less.prems by (cases fuel) simp_all
  have skips: "I xs (us @ vs) \<sigma> \<Longrightarrow> \<forall>u \<in> set us. \<not> T (hnd u) \<Longrightarrow> I (xs @ us) vs \<sigma>" for us vs xs
  proof (induction us arbitrary: xs)
    case (Cons u us)
    then show ?case using skip [of xs u "us @ vs" \<sigma>] Cons.IH [of "xs @ [u]"] by simp
  qed simp
  show ?case
  proof (cases rule: list_split_first [of ys "\<lambda>y. T (hnd y)"])
    case 1
    then show ?thesis
      using skips [of xs ys "[]"] typed_none [OF good [OF less.prems(1)]] less.prems n by auto
  next
    case (2 us z vs)
    from 2 skips [of xs us "z # vs"] less.prems have I: "I (xs @ us) (z # vs) \<sigma>" by simp
    obtain z' \<sigma>' where b: "body (addr (xs @ us)) (hnd z) (pos (xs @ us @ [z])) \<sigma> = Inr (False, pos (xs @ us @ [z']), \<sigma>')"
      and I': "I (xs @ us @ [z']) vs \<sigma>'" using step [OF I 2(3)] by auto
    have "typed_next k T nxt (view \<sigma>) (pos xs) = Inr (Some (addr (xs @ us), hnd z), pos (xs @ us @ [z]))"
      by (rule typed_hit) (use good [OF less.prems(1)] 2 less.prems(3) in auto)
    with b less.hyps [OF _ I', of n] 2 less.prems n show ?thesis by simp
  qed
qed

lemma typed_inv_start:
  assumes "\<And>xs ys \<sigma>. I xs ys \<sigma> \<Longrightarrow> good (view \<sigma>) (xs @ ys)"
    and "\<And>xs y ys \<sigma>. I xs (y # ys) \<sigma> \<Longrightarrow> \<not> T (hnd y) \<Longrightarrow> I (xs @ [y]) ys \<sigma>"
    and "\<And>xs y ys \<sigma>. I xs (y # ys) \<sigma> \<Longrightarrow> T (hnd y) \<Longrightarrow>
      \<exists>y' \<sigma>'. body (addr xs) (hnd y) (pos (xs @ [y])) \<sigma> = Inr (False, pos (xs @ [y']), \<sigma>') \<and> I (xs @ [y']) ys \<sigma>'"
    and "I [] ys \<sigma>" "length ys < fuel" "length ys < k"
  shows "\<exists>zs \<sigma>'. scan_while fuel (\<lambda>\<sigma>. typed_next k T nxt (view \<sigma>)) body start \<sigma> = Inr (None, pos zs, \<sigma>') \<and> I zs [] \<sigma>'"
proof -
  have "typed_next k T nxt (view \<sigma>) start = typed_next k T nxt (view \<sigma>) (pos [])"
    unfolding typed_next_def
    by (subst scan_while_start [of "\<lambda>_. nxt (view \<sigma>)" 0 start "pos []"])
      (rule nxt_start [OF assms(1) [OF assms(4)]], rule refl)
  then have "scan_while fuel (\<lambda>\<sigma>. typed_next k T nxt (view \<sigma>)) body start \<sigma> =
      scan_while fuel (\<lambda>\<sigma>. typed_next k T nxt (view \<sigma>)) body (pos []) \<sigma>"
    by (rule scan_while_start)
  then show ?thesis using typed_inv [of I view T body "[]" ys \<sigma> fuel k] assms by auto
qed

end

section \<open>Lists of payloads in memory\<close>

definition entry_bytes :: "BYTE list \<Rightarrow> BYTE list" where
  "entry_bytes p = le_bytes 4 (4 + length p) @ p"

definition list_bytes :: "BYTE list list \<Rightarrow> BYTE list" where
  "list_bytes ps = concat (map entry_bytes ps)"

definition entry_handle :: "BYTE list \<Rightarrow> TPM_HANDLE" where
  "entry_handle p = word_of_nat (le_nat (take 4 p))"

text \<open>The octets at an address.\<close>

definition holds_at :: "address_space \<Rightarrow> nat \<Rightarrow> BYTE list \<Rightarrow> bool" where
  "holds_at m a bs \<longleftrightarrow> mem_get m a (length bs) = bs"

lemma length_entry_bytes [simp]: "length (entry_bytes p) = 4 + length p"
  by (simp add: entry_bytes_def)

lemma list_bytes_simps [simp]:
  "list_bytes [] = []" "list_bytes (p # ps) = entry_bytes p @ list_bytes ps"
  "list_bytes (ps @ qs) = list_bytes ps @ list_bytes qs"
  by (simp_all add: list_bytes_def)

lemma length_list_bytes_ge: "(\<forall>p \<in> set ps. 4 \<le> length p) \<Longrightarrow> 8 * length ps \<le> length (list_bytes ps)"
  by (induction ps) auto

lemma holds_at_Nil [simp]: "holds_at m a []"
  by (simp add: holds_at_def)

lemma holds_at_append: "holds_at m a (xs @ ys) \<longleftrightarrow> holds_at m a xs \<and> holds_at m (a + length xs) ys"
  by (simp add: holds_at_def mem_get_append)

lemma holds_at_get: "holds_at m a bs \<Longrightarrow> n = length bs \<Longrightarrow> mem_get m a n = bs"
  by (simp add: holds_at_def)

lemma holds_at_self: "holds_at m a (mem_get m a n)"
  by (simp add: holds_at_def)

lemma holds_at_nth: "holds_at m a bs \<longleftrightarrow> (\<forall>i < length bs. m (a + i) = bs ! i)"
  by (auto simp: holds_at_def list_eq_iff_nth_eq nth_mem_get)

lemma holds_at_take_drop:
  assumes "holds_at m a bs" "k + n \<le> length bs"
  shows "mem_get m (a + k) n = take n (drop k bs)"
  using assms by (auto simp: holds_at_nth intro!: nth_equalityI simp: nth_mem_get add.assoc)

lemma holds_at_put_same: "holds_at (mem_put m a bs) a bs"
  by (simp add: holds_at_def mem_get_put_same)

lemma holds_at_put_other:
  "b + length xs \<le> a \<or> a + length bs \<le> b \<Longrightarrow> holds_at (mem_put m a bs) b xs \<longleftrightarrow> holds_at m b xs"
  by (simp add: holds_at_def mem_get_put_other)

lemma holds_at_cong: "(\<And>x. a \<le> x \<Longrightarrow> x < a + length bs \<Longrightarrow> m x = m' x) \<Longrightarrow> holds_at m a bs \<longleftrightarrow> holds_at m' a bs"
  unfolding holds_at_def by (metis mem_get_cong)

text \<open>A part of the octets is overwritten.\<close>

lemma length_bytes_put [simp]: "off + length bs \<le> length xs \<Longrightarrow> length (bytes_put off bs xs) = length xs"
  by (simp add: bytes_put_def)

lemma holds_at_put_inside:
  assumes "holds_at m a xs" "off + length bs \<le> length xs"
  shows "holds_at (mem_put m (a + off) bs) a (bytes_put off bs xs)"
  using assms by (auto simp: holds_at_nth mem_put_def bytes_put_def nth_append)

section \<open>The list in NV\<close>

definition nv_pos :: "nv_layout \<Rightarrow> BYTE list list \<Rightarrow> nat" where
  "nv_pos L ps = NV_USER_DYNAMIC L + length (list_bytes ps)"

definition terminator :: "UINT64 \<Rightarrow> BYTE list" where
  "terminator mc = le_bytes 4 0 @ le_bytes 8 (unat mc)"

definition wf_payloads :: "BYTE list list \<Rightarrow> bool" where
  "wf_payloads ps \<longleftrightarrow> (\<forall>p \<in> set ps. 4 \<le> length p)"

text \<open>
  The dynamic area holds the payloads \<open>ps\<close> and the maximal counter \<open>mc\<close>, and all of it
  lies in the NV memory.
\<close>

definition nv_list :: "nv_layout \<Rightarrow> nv_state \<Rightarrow> BYTE list list \<Rightarrow> UINT64 \<Rightarrow> bool" where
  "nv_list L st ps mc \<longleftrightarrow>
     s_evictNvEnd st = NV_MEMORY_SIZE \<and> RAM_INDEX_SPACE \<le> NV_USER_DYNAMIC L \<and>
     nv_pos L ps + SIZEOF_NV_LIST_TERMINATOR \<le> NV_MEMORY_SIZE \<and> wf_payloads ps \<and>
     holds_at (s_NV st) (NV_USER_DYNAMIC L) (list_bytes ps @ terminator mc)"

definition nv_good :: "nv_layout \<Rightarrow> nv_state \<Rightarrow> BYTE list list \<Rightarrow> bool" where
  "nv_good L st ps \<longleftrightarrow> (\<exists>mc. nv_list L st ps mc)"

lemma length_terminator [simp]: "length (terminator mc) = 12"
  by (simp add: terminator_def)

lemma wf_payloads_simps [simp]:
  "wf_payloads []" "wf_payloads (p # ps) \<longleftrightarrow> 4 \<le> length p \<and> wf_payloads ps"
  "wf_payloads (ps @ qs) \<longleftrightarrow> wf_payloads ps \<and> wf_payloads qs"
  by (auto simp: wf_payloads_def)

lemma nv_pos_simps [simp]:
  "nv_pos L [] = NV_USER_DYNAMIC L"
  "nv_pos L (ps @ [p]) = nv_pos L ps + 4 + length p"
  by (simp_all add: nv_pos_def)

lemma nv_pos_append: "nv_pos L (ps @ qs) = nv_pos L ps + length (list_bytes qs)"
  by (simp add: nv_pos_def)

lemma nv_list_count: "nv_list L st ps mc \<Longrightarrow> length ps < NV_FUEL"
  using length_list_bytes_ge [of ps] by (auto simp: nv_list_def nv_pos_def wf_payloads_def)

lemma NvRead_ok: "a + n < NV_MEMORY_SIZE \<Longrightarrow> NvRead a n st = Inr (mem_get (s_NV st) a n)"
  by (simp add: NvRead_def plat_NvMemoryRead_def)

lemma NvWrite_ok:
  "a + length d \<le> NV_MEMORY_SIZE \<Longrightarrow>
   NvWrite a d st = Inr (True, st\<lparr>g_updateNV := g_updateNV st OR UT_NV, s_NV := mem_put (s_NV st) a d\<rparr>)"
  by (simp add: NvWrite_def plat_NvMemoryWrite_def)

lemma nv_list_at:
  assumes "nv_list L st (xs @ y # ys) mc"
  shows "holds_at (s_NV st) (nv_pos L xs) (entry_bytes y)"
    "holds_at (s_NV st) (nv_pos L xs + 4) y"
    "nv_pos L xs + 4 + length y + 12 \<le> NV_MEMORY_SIZE" "4 \<le> length y"
  using assms by (auto simp: nv_list_def nv_pos_def holds_at_append entry_bytes_def add.assoc)

lemma nv_list_end:
  assumes "nv_list L st ps mc"
  shows "holds_at (s_NV st) (nv_pos L ps) (terminator mc)" "nv_pos L ps + 12 \<le> NV_MEMORY_SIZE"
  using assms by (auto simp: nv_list_def nv_pos_def holds_at_append)

lemma le_nat_le_bytes_small: "n < 256 ^ k \<Longrightarrow> le_nat (le_bytes k n) = n"
  by (simp add: le_nat_le_bytes)

lemma entry_header:
  assumes "nv_list L st (xs @ y # ys) mc"
  shows "mem_get (s_NV st) (nv_pos L xs) 8 = le_bytes 4 (4 + length y) @ take 4 y"
proof -
  have "mem_get (s_NV st) (nv_pos L xs + 0) 8 = take 8 (drop 0 (entry_bytes y))"
    by (rule holds_at_take_drop) (use nv_list_at [OF assms] in simp_all)
  then show ?thesis by (simp add: entry_bytes_def)
qed

lemma NvNext_entry:
  assumes "nv_list L st (xs @ y # ys) mc"
  shows "NvNext L st (nv_pos L xs) = Inr (Some (nv_pos L xs + 4, entry_handle y), nv_pos L (xs @ [y]))"
  using nv_list_at(3,4) [OF assms]
  by (simp add: NvNext_def Let_def NvRead_ok entry_header [OF assms] le_nat_le_bytes_small entry_handle_def)

lemma NvNext_end:
  assumes "nv_list L st ps mc"
  shows "NvNext L st (nv_pos L ps) = Inr (None, nv_pos L ps)"
proof -
  have "mem_get (s_NV st) (nv_pos L ps + 0) 8 = take 8 (drop 0 (terminator mc))"
    by (rule holds_at_take_drop) (use nv_list_end [OF assms] in simp_all)
  then show ?thesis using nv_list_end(2) [OF assms]
    by (simp add: NvNext_def Let_def NvRead_ok terminator_def le_nat_le_bytes_small)
qed

interpretation nv: entry_walk "NvNext L" NV_REF_INIT "nv_pos L" "\<lambda>ps. nv_pos L ps + 4" entry_handle "nv_good L"
  for L
proof
  show "nv_good L s ps \<Longrightarrow> NvNext L s NV_REF_INIT = NvNext L s (nv_pos L [])" for s ps
    by (auto simp: nv_good_def nv_list_def NvNext_def nv_pos_def)
qed (auto simp: nv_good_def NvNext_entry NvNext_end)

section \<open>Queries\<close>

lemma nv_goodI: "nv_list L st ps mc \<Longrightarrow> nv_good L st ps"
  by (auto simp: nv_good_def)

lemma NvGetEnd_ok: "nv_list L st ps mc \<Longrightarrow> NvGetEnd L st = Inr (nv_pos L ps)"
  using nv.scan_none_start [of L st ps "\<lambda>_. False" NV_FUEL "\<lambda>_ \<sigma>. \<sigma>" "()"]
  by (simp add: NvGetEnd_def nv_goodI nv_list_count)

lemma u32_diff: "b \<le> a \<Longrightarrow> a < 2 ^ 32 \<Longrightarrow> u32 (a + 2 ^ 32 - b) = a - b"
proof -
  assume "b \<le> a" "a < 2 ^ 32"
  then have "a + 2 ^ 32 - b = (a - b) + 2 ^ 32" "a - b < 2 ^ 32" by linarith+
  then show ?thesis by (metis mod_add_self2 mod_less)
qed

lemma NvGetFreeBytes_ok:
  assumes "nv_list L st ps mc" shows "NvGetFreeBytes L st = Inr (NV_MEMORY_SIZE - nv_pos L ps)"
proof -
  have "s_evictNvEnd st = NV_MEMORY_SIZE" "nv_pos L ps \<le> NV_MEMORY_SIZE"
    using assms by (auto simp: nv_list_def)
  then show ?thesis using u32_diff [of "nv_pos L ps" "s_evictNvEnd st"]
    by (simp add: NvGetFreeBytes_def NvGetEnd_ok [OF assms])
qed

lemma NvFindHandle_none:
  assumes "nv_list L st ps mc" "h \<notin> entry_handle ` set ps"
  shows "NvFindHandle L h st = Inr 0"
proof -
  have "\<forall>y \<in> set ps. entry_handle y \<noteq> h" using assms(2) by blast
  with nv.scan_none_start [of L st ps "\<lambda>x. x = h" NV_FUEL "\<lambda>_ \<sigma>. \<sigma>" "()"] assms(1) show ?thesis
    by (simp add: NvFindHandle_def nv_goodI nv_list_count)
qed

lemma NvFindHandle_hit:
  assumes "nv_list L st (xs @ p # ys) mc" "entry_handle p \<notin> entry_handle ` set xs"
  shows "NvFindHandle L (entry_handle p) st = Inr (nv_pos L xs + 4)"
proof -
  have "\<forall>y \<in> set xs. entry_handle y \<noteq> entry_handle p" using assms(2) by (metis imageI)
  with nv.scan_hit_start [of L st xs p ys "\<lambda>x. x = entry_handle p" NV_FUEL "\<lambda>_ \<sigma>. \<sigma>" "()"] assms(1)
    nv_list_count [OF assms(1)] show ?thesis
    by (simp add: NvFindHandle_def nv_goodI)
qed

lemma NvGetMaxCount_ok:
  assumes "nv_list L st ps mc"
  shows "NvGetMaxCount L st =
    (if nv_pos L ps + SIZEOF_NV_LIST_TERMINATOR < NV_MEMORY_SIZE then Inr mc else Inl FATAL_ERROR_PARAMETER)"
proof -
  have s: "scan_while NV_FUEL (\<lambda>_. NvNext L st) (\<lambda>_ _ iter s. Inr (False, iter, s)) NV_REF_INIT () =
      Inr (None, nv_pos L ps, ())"
    using nv.scan_none_start [of L st ps "\<lambda>_. False" NV_FUEL "\<lambda>_ \<sigma>. \<sigma>" "()"] assms
    by (simp add: nv_goodI nv_list_count)
  have "mem_get (s_NV st) (nv_pos L ps + 4) 8 = take 8 (drop 4 (terminator mc))"
    by (rule holds_at_take_drop) (use nv_list_end [OF assms] in simp_all)
  then have "mem_get (s_NV st) (nv_pos L ps + 4) 8 = le_bytes 8 (unat mc)" by (simp add: terminator_def)
  moreover have "le_nat (le_bytes 8 (unat mc)) = unat mc"
    using unat_lt [of mc] by (simp add: le_nat_le_bytes_small)
  ultimately show ?thesis
    unfolding NvGetMaxCount_def s bindE_simps prod.case using nv_list_end(2) [OF assms]
    by (cases "nv_pos L ps + 12 < NV_MEMORY_SIZE") (simp_all add: NvRead_def plat_NvMemoryRead_def)
qed

text \<open>Counting entries of a type that satisfy a test on the entry.\<close>

lemma nv_count_typed:
  assumes l: "nv_list L st ps mc"
    and b: "\<And>xs y ys n. ps = xs @ y # ys \<Longrightarrow> HandleGetType (entry_handle y) = type \<Longrightarrow>
      body (nv_pos L xs + 4) (entry_handle y) (nv_pos L (xs @ [y])) n =
      Inr (False, nv_pos L (xs @ [y]), if Q y then n + 1 else n)"
  shows "\<exists>i. scan_while NV_FUEL (\<lambda>_. NvNextByType L type st) body NV_REF_INIT (0::nat) =
    Inr (None, i, count_if (\<lambda>p. HandleGetType (entry_handle p) = type \<and> Q p) ps)"
proof -
  let ?I = "\<lambda>xs ys n. xs @ ys = ps \<and> n = count_if (\<lambda>p. HandleGetType (entry_handle p) = type \<and> Q p) xs"
  have "\<exists>zs n. scan_while NV_FUEL (\<lambda>_::nat. typed_next NV_FUEL (\<lambda>h. HandleGetType h = type) (NvNext L) st)
      body NV_REF_INIT 0 = Inr (None, nv_pos L zs, n) \<and> ?I zs [] n"
  proof (rule nv.typed_inv_start [where view = "\<lambda>_. st" and ys = ps])
    fix xs y ys n
    assume "?I xs (y # ys) n" "HandleGetType (entry_handle y) = type"
    then show "\<exists>y' n'. body (nv_pos L xs + 4) (entry_handle y) (nv_pos L (xs @ [y])) n =
        Inr (False, nv_pos L (xs @ [y']), n') \<and> ?I (xs @ [y']) ys n'"
      using b [of xs y ys n] by (intro exI [of _ y]) (auto simp: count_if_def)
  qed (use l in \<open>auto simp: nv_goodI nv_list_count count_if_def\<close>)
  then show ?thesis by (auto simp: NvNextByType_typed_next)
qed

definition num_type :: "UINT8 \<Rightarrow> BYTE list list \<Rightarrow> nat" where
  "num_type type ps = count_if (\<lambda>p. HandleGetType (entry_handle p) = type) ps"

definition entry_attributes :: "BYTE list \<Rightarrow> UINT32" where
  "entry_attributes p = word_of_nat (le_nat (take 4 (drop 8 p)))"

definition is_index :: "BYTE list \<Rightarrow> bool" where
  "is_index p \<longleftrightarrow> HandleGetType (entry_handle p) = TPM_HT_NV_INDEX"

definition num_counters :: "BYTE list list \<Rightarrow> nat" where
  "num_counters ps = count_if (\<lambda>p. is_index p \<and> IsNvCounterIndex (entry_attributes p)) ps"

lemma NvCapGetIndexNumber_ok:
  "nv_list L st ps mc \<Longrightarrow> NvCapGetIndexNumber L st = Inr (num_type TPM_HT_NV_INDEX ps)"
  using nv_count_typed [of L st ps mc TPM_HT_NV_INDEX "\<lambda>_ _ i n. Inr (False, i, n + 1)" "\<lambda>_. True"]
  by (auto simp: NvCapGetIndexNumber_def num_type_def)

lemma NvCapGetPersistentNumber_ok:
  "nv_list L st ps mc \<Longrightarrow> NvCapGetPersistentNumber L st = Inr (num_type TPM_HT_PERSISTENT ps)"
  using nv_count_typed [of L st ps mc TPM_HT_PERSISTENT "\<lambda>_ _ i n. Inr (False, i, n + 1)" "\<lambda>_. True"]
  by (auto simp: NvCapGetPersistentNumber_def num_type_def)

text \<open>Reading inside the payload of an entry.\<close>

lemma nv_read_payload:
  assumes "nv_list L st (xs @ y # ys) mc" "k + n \<le> length y"
  shows "NvRead (nv_pos L xs + 4 + k) n st = Inr (take n (drop k y))"
  using holds_at_take_drop [OF nv_list_at(2) [OF assms(1)] assms(2)] nv_list_at(3) [OF assms(1)] assms(2)
  by (simp add: NvRead_ok)

lemma NvReadNvIndexAttributes_ok:
  assumes "nv_list L st (xs @ y # ys) mc" "12 \<le> length y"
  shows "NvReadNvIndexAttributes (nv_pos L xs + 4) st = Inr (entry_attributes y)"
  using nv_read_payload [OF assms(1), of 8 4] nv_list_at(3) [OF assms(1)] assms(2)
  by (simp add: NvReadNvIndexAttributes_def entry_attributes_def add.assoc)

lemma NvCapGetCounterNumber_ok:
  assumes l: "nv_list L st ps mc" and len: "\<forall>p \<in> set ps. is_index p \<longrightarrow> 12 \<le> length p"
  shows "NvCapGetCounterNumber L st = Inr (num_counters ps)"
proof -
  have "\<exists>i. scan_while NV_FUEL (\<lambda>_. NvNextByType L TPM_HT_NV_INDEX st)
      (\<lambda>addr _ iter num. bindE (NvReadNvIndexAttributes addr st) (\<lambda>attributes.
         Inr (False, iter, if IsNvCounterIndex attributes then num + 1 else num))) NV_REF_INIT 0 =
    Inr (None, i, count_if (\<lambda>p. HandleGetType (entry_handle p) = TPM_HT_NV_INDEX \<and>
       IsNvCounterIndex (entry_attributes p)) ps)"
    by (rule nv_count_typed [OF l])
      (use l len in \<open>auto simp: is_index_def NvReadNvIndexAttributes_ok\<close>)
  then show ?thesis by (auto simp: NvCapGetCounterNumber_def num_counters_def is_index_def)
qed

end
