(* ===== verification/FTPM_NVOps.thy ===== *)
theory FTPM_NVOps
  imports FTPM_NVList
begin

text \<open>
  Correctness of the operations on the dynamic NV area against the list of payloads of
  \<open>FTPM_NVList\<close>.
\<close>

section \<open>Adding an entry\<close>

lemma NvWriteNvListEnd_ok:
  "e + SIZEOF_NV_LIST_TERMINATOR \<le> NV_MEMORY_SIZE \<Longrightarrow> s_evictNvEnd st = NV_MEMORY_SIZE \<Longrightarrow>
   NvWriteNvListEnd e st = Inr (e + SIZEOF_NV_LIST_TERMINATOR,
     st\<lparr>g_updateNV := g_updateNV st OR UT_NV, s_NV := mem_put (s_NV st) e (terminator (s_maxCounter st))\<rparr>)"
  by (simp add: NvWriteNvListEnd_def NvWrite_ok terminator_def)

definition handle_prefix :: "TPM_HANDLE \<Rightarrow> BYTE list" where
  "handle_prefix h = (if h = TPM_RH_UNASSIGNED then [] else le_bytes 4 (unat h))"

text \<open>The memory after an addition: prefix, entity, size and terminator are stored.\<close>

definition add_mem :: "address_space \<Rightarrow> nat \<Rightarrow> BYTE list \<Rightarrow> nat \<Rightarrow> UINT64 \<Rightarrow> address_space" where
  "add_mem m a bs n mc =
     mem_put (mem_put (mem_put m (a + 4) bs) a (le_bytes 4 (4 + n))) (a + 4 + n) (terminator mc)"

lemma mem_put_append: "mem_put (mem_put m a xs) (a + length xs) ys = mem_put m a (xs @ ys)"
  by (auto simp: mem_put_def nth_append fun_eq_iff)

lemma mem_put_Nil [simp]: "mem_put m a [] = m"
  by (auto simp: mem_put_def fun_eq_iff)

lemma add_mem_holds:
  assumes "holds_at m d (list_bytes ps)" "a = d + length (list_bytes ps)" "length bs \<le> n"
  shows "holds_at (add_mem m a bs n mc) d
    (list_bytes (ps @ [bs @ mem_get m (a + 4 + length bs) (n - length bs)]) @ terminator mc)"
  using assms
  by (simp add: add_mem_def entry_bytes_def holds_at_append holds_at_put_other holds_at_put_same
      holds_at_self add.assoc)

lemma add_mem_below: "x < a \<Longrightarrow> add_mem m a bs n mc x = m x"
  by (simp add: add_mem_def mem_put_def)

lemma NvAdd_ok:
  fixes handle :: TPM_HANDLE
  defines "pre \<equiv> handle_prefix handle"
  assumes l: "nv_list L st ps mc" and ok: "g_NvStatus st = TPM_RC_SUCCESS"
    and len: "length entity \<le> tot" "4 \<le> length pre + tot"
    and room: "nv_pos L ps + 4 + length pre + tot + 12 \<le> NV_MEMORY_SIZE"
  shows "\<exists>rest st'. NvAdd L tot handle entity st = Inr (TPM_RC_SUCCESS, st') \<and>
    nv_list L st' (ps @ [pre @ entity @ rest]) (s_maxCounter st) \<and>
    length rest = tot - length entity \<and>
    st' = st\<lparr>s_NV := s_NV st', g_updateNV := g_updateNV st OR UT_NV\<rparr> \<and>
    (\<forall>x < nv_pos L ps. s_NV st' x = s_NV st x)"
proof -
  let ?a = "nv_pos L ps" and ?n = "length pre + tot"
  let ?m = "add_mem (s_NV st) ?a (pre @ entity) ?n (s_maxCounter st)"
  let ?st = "st\<lparr>s_NV := ?m, g_updateNV := g_updateNV st OR UT_NV\<rparr>"
  let ?rest = "mem_get (s_NV st) (?a + 4 + length (pre @ entity)) (?n - length (pre @ entity))"
  have size: "u32 (?a + 4 + ?n + 2 ^ 32 - ?a) = 4 + ?n"
    using u32_diff [of ?a "?a + 4 + ?n"] room by simp
  have e: "s_evictNvEnd st = NV_MEMORY_SIZE" using l by (simp add: nv_list_def)
  have "NvAdd L tot handle entity st = Inr (TPM_RC_SUCCESS, ?st)"
    using room ok len e size
    by (auto simp: NvAdd_def NvGetEnd_ok [OF l] NvWrite_ok NvWriteNvListEnd_ok pre_def handle_prefix_def
        add_mem_def mem_put_append [symmetric] add.assoc)
  moreover have "nv_list L ?st (ps @ [pre @ entity @ ?rest]) (s_maxCounter st)"
    using l room len add_mem_holds [of "s_NV st" "NV_USER_DYNAMIC L" ps ?a "pre @ entity" ?n "s_maxCounter st"]
    by (simp add: nv_list_def holds_at_append nv_pos_def)
  ultimately show ?thesis using len by (intro exI [of _ ?rest] exI [of _ ?st]) (simp add: add_mem_below)
qed

section \<open>Deleting an entry\<close>

definition del_mem :: "address_space \<Rightarrow> nat \<Rightarrow> nat \<Rightarrow> nat \<Rightarrow> UINT64 \<Rightarrow> address_space" where
  "del_mem m a n e mc =
     MemorySet (mem_put (memmove m a (a + n) (e - (a + n))) (e - n) (terminator mc)) (e - n + 12) 0xFF n"

lemma holds_at_memmove:
  "holds_at m (s + k) bs \<Longrightarrow> k + length bs \<le> n \<Longrightarrow> holds_at (memmove m d s n) (d + k) bs"
  by (auto simp: holds_at_nth memmove_def add.assoc)

lemma holds_at_MemorySet_below: "a + length bs \<le> d \<Longrightarrow> holds_at (MemorySet m d v n) a bs \<longleftrightarrow> holds_at m a bs"
  by (rule holds_at_cong) (simp add: MemorySet_def)

lemma holds_at_memmove_below: "a + length bs \<le> d \<Longrightarrow> holds_at (memmove m d s n) a bs \<longleftrightarrow> holds_at m a bs"
  by (rule holds_at_cong) (simp add: memmove_def)

lemma del_mem_holds:
  assumes "holds_at m d (list_bytes (xs @ y # ys))" "a = d + length (list_bytes xs)"
    "e = d + length (list_bytes (xs @ y # ys))" "n = 4 + length y"
  shows "holds_at (del_mem m a n e mc) d (list_bytes (xs @ ys) @ terminator mc)"
proof -
  have "holds_at m (a + n) (list_bytes ys)" using assms by (simp add: holds_at_append add.assoc)
  then have "holds_at (memmove m a (a + n) (e - (a + n))) a (list_bytes ys)"
    using holds_at_memmove [of m "a + n" 0 "list_bytes ys" "e - (a + n)" a] assms by simp
  then show ?thesis using assms
    by (simp add: del_mem_def holds_at_append holds_at_MemorySet_below holds_at_put_other
        holds_at_put_same holds_at_memmove_below add.assoc)
qed

lemma del_mem_below: "x < a \<Longrightarrow> a + n \<le> e \<Longrightarrow> del_mem m a n e mc x = m x"
  by (auto simp: del_mem_def MemorySet_def mem_put_def memmove_def)

lemma NvDelete_ok:
  assumes l: "nv_list L st (xs @ y # ys) mc" and ok: "g_NvStatus st = TPM_RC_SUCCESS"
  shows "\<exists>st'. NvDelete L (nv_pos L xs + 4) st = Inr (TPM_RC_SUCCESS, st') \<and>
    nv_list L st' (xs @ ys) (s_maxCounter st) \<and>
    st' = st\<lparr>s_NV := s_NV st', g_updateNV := g_updateNV st OR UT_NV\<rparr> \<and>
    (\<forall>x < nv_pos L xs. s_NV st' x = s_NV st x)"
proof -
  let ?a = "nv_pos L xs" and ?n = "4 + length y" and ?e = "nv_pos L (xs @ y # ys)"
  let ?m = "del_mem (s_NV st) ?a ?n ?e (s_maxCounter st)"
  let ?st = "st\<lparr>s_NV := ?m, g_updateNV := g_updateNV st OR UT_NV\<rparr>"
  have b: "?e + 12 \<le> NV_MEMORY_SIZE" "?e = ?a + ?n + length (list_bytes ys)" "s_evictNvEnd st = NV_MEMORY_SIZE"
    using l by (auto simp: nv_list_def nv_pos_def)
  have ref: "u32 (?a + 4 + 2 ^ 32 - 4) = ?a" using u32_diff [of 4 "?a + 4"] b by simp
  have e': "u32 (?e + 2 ^ 32 - ?n) = ?e - ?n" using u32_diff [of ?n ?e] b by simp
  have "mem_get (s_NV st) (?a + 0) 4 = take 4 (drop 0 (entry_bytes y))"
    by (rule holds_at_take_drop) (use nv_list_at [OF l] in simp_all)
  then have "NvRead ?a 4 st = Inr (le_bytes 4 ?n)" using nv_list_at(3) [OF l]
    by (simp add: NvRead_ok entry_bytes_def)
  moreover have "le_nat (le_bytes 4 ?n) = ?n" using nv_list_at(3) [OF l]
    by (intro le_nat_le_bytes_small) simp
  moreover have "memmove (s_NV st) ?a (?a + ?n) 0 = s_NV st" by (auto simp: memmove_def fun_eq_iff)
  ultimately have "NvDelete L (?a + 4) st = Inr (TPM_RC_SUCCESS, ?st)"
    using b ok nv_list_at(3) [OF l]
    unfolding NvDelete_def Let_def ref NvGetEnd_ok [OF l] bindE_simps
    by (simp add: e' plat_NvMemoryMove_def NvWriteNvListEnd_ok plat_NvMemoryClear_def del_mem_def)
  moreover have "nv_list L ?st (xs @ ys) (s_maxCounter st)"
    using l b del_mem_holds [of "s_NV st" "NV_USER_DYNAMIC L" xs y ys ?a ?e ?n "s_maxCounter st"]
    by (simp add: nv_list_def holds_at_append nv_pos_def)
  ultimately show ?thesis using b by (intro exI [of _ ?st]) (simp add: del_mem_below)
qed

section \<open>The list in the orderly RAM\<close>

abbreviation ram_end :: "BYTE list list \<Rightarrow> nat" where "ram_end rs \<equiv> length (list_bytes rs)"

definition ram_list :: "nv_state \<Rightarrow> BYTE list list \<Rightarrow> bool" where
  "ram_list st rs \<longleftrightarrow>
     (\<forall>r \<in> set rs. 8 \<le> length r) \<and> ram_end rs \<le> RAM_INDEX_SPACE \<and>
     holds_at (s_indexOrderlyRam st) 0 (list_bytes rs) \<and>
     (ram_end rs + SIZEOF_NV_RAM_HEADER \<le> RAM_INDEX_SPACE \<longrightarrow>
      holds_at (s_indexOrderlyRam st) (ram_end rs) (replicate 4 0))"

lemma ram_list_at:
  assumes "ram_list st (xs @ y # ys)"
  shows "holds_at (s_indexOrderlyRam st) (ram_end xs) (entry_bytes y)"
    "holds_at (s_indexOrderlyRam st) (ram_end xs + 4) y"
    "ram_end xs + 4 + length y \<le> RAM_INDEX_SPACE" "8 \<le> length y"
  using assms by (auto simp: ram_list_def holds_at_append entry_bytes_def)

lemma ram_list_count: "ram_list st rs \<Longrightarrow> length rs < RAM_FUEL"
proof -
  have "\<forall>r \<in> set rs. 8 \<le> length r \<Longrightarrow> 12 * length rs \<le> ram_end rs" by (induction rs) auto
  then show "ram_list st rs \<Longrightarrow> length rs < RAM_FUEL" by (auto simp: ram_list_def)
qed

lemma le_nat_zeros: "le_nat (replicate n 0) = 0"
  by (induction n) auto

lemma NvRamNext_entry:
  assumes "ram_list st (xs @ y # ys)"
  shows "NvRamNext st (Some (ram_end xs)) =
    Inr (Some (ram_end xs, entry_handle y), Some (ram_end (xs @ [y])))"
proof -
  note at = ram_list_at [OF assms]
  have "mem_get (s_indexOrderlyRam st) (ram_end xs + 0) 12 = take 12 (drop 0 (entry_bytes y))"
    by (rule holds_at_take_drop) (use at in simp_all)
  then have "mem_get (s_indexOrderlyRam st) (ram_end xs) 12 = le_bytes 4 (4 + length y) @ take 8 y"
    by (simp add: entry_bytes_def)
  then show ?thesis using at
    by (simp add: NvRamNext_def Let_def le_nat_le_bytes_small entry_handle_def min_def)
qed

lemma NvRamNext_end:
  assumes "ram_list st rs"
  shows "NvRamNext st (Some (ram_end rs)) = Inr (None, Some (ram_end rs))"
proof (cases "ram_end rs + 12 \<le> RAM_INDEX_SPACE")
  case True
  then have "mem_get (s_indexOrderlyRam st) (ram_end rs) 4 = replicate 4 0"
    using assms holds_at_get [of "s_indexOrderlyRam st" "ram_end rs" "replicate 4 0" 4]
    by (simp add: ram_list_def)
  then have "mem_get (s_indexOrderlyRam st) (ram_end rs) 12 =
      replicate 4 0 @ mem_get (s_indexOrderlyRam st) (ram_end rs + 4) 8"
    using mem_get_append [of "s_indexOrderlyRam st" "ram_end rs" 4 8] by simp
  then show ?thesis using True
    by (simp add: NvRamNext_def Let_def le_nat_zeros)
qed (simp add: NvRamNext_def Let_def)

interpretation ram: entry_walk NvRamNext None "\<lambda>rs. Some (ram_end rs)" ram_end entry_handle ram_list
  by unfold_locales (simp_all add: NvRamNext_entry NvRamNext_end, simp add: NvRamNext_def)

lemma NvRamGetEnd_ok: "ram_list st rs \<Longrightarrow> NvRamGetEnd st = Inr (ram_end rs)"
  using ram.scan_none_start [of st rs "\<lambda>_. False" RAM_FUEL "\<lambda>_ \<sigma>. \<sigma>" "()"]
  by (simp add: NvRamGetEnd_def ram_list_count)

lemma NvRamGetIndex_none:
  assumes "ram_list st rs" "h \<notin> entry_handle ` set rs"
  shows "NvRamGetIndex h st = Inr None"
proof -
  have "\<forall>y \<in> set rs. h \<noteq> entry_handle y" using assms(2) by blast
  with ram.scan_none_start [of st rs "\<lambda>x. h = x" RAM_FUEL "\<lambda>_ \<sigma>. \<sigma>" "()"] assms(1) show ?thesis
    by (simp add: NvRamGetIndex_def ram_list_count)
qed

lemma NvRamGetIndex_hit:
  assumes "ram_list st (xs @ r # ys)" "entry_handle r \<notin> entry_handle ` set xs"
  shows "NvRamGetIndex (entry_handle r) st = Inr (Some (ram_end xs))"
proof -
  have "\<forall>y \<in> set xs. entry_handle r \<noteq> entry_handle y" using assms(2) by (metis imageI)
  with ram.scan_hit_start [of st xs r ys "\<lambda>x. entry_handle r = x" RAM_FUEL "\<lambda>_ \<sigma>. \<sigma>" "()"] assms(1)
    ram_list_count [OF assms(1)] show ?thesis
    by (simp add: NvRamGetIndex_def)
qed

text \<open>A new entry of the RAM is zero; the end marker is written whenever it can be read.\<close>

definition ram_payload :: "TPMS_NV_PUBLIC \<Rightarrow> BYTE list" where
  "ram_payload pub = le_bytes 4 (unat (nvIndex pub)) @ le_bytes 4 (unat (nv_attributes pub)) @
     replicate (unat (dataSize pub)) 0"

lemma holds_at_MemorySet_same: "holds_at (MemorySet m a v n) a (replicate n v)"
  by (auto simp: holds_at_nth MemorySet_def)

lemma NvAddRAM_ok:
  assumes l: "ram_list st rs" and room: "ram_end rs + 12 + unat (dataSize pub) \<le> RAM_INDEX_SPACE"
  shows "\<exists>st'. NvAddRAM pub st = Inr st' \<and> ram_list st' (rs @ [ram_payload pub]) \<and>
    st' = st\<lparr>s_indexOrderlyRam := s_indexOrderlyRam st', g_updateNV := g_updateNV st OR UT_ORDERLY\<rparr>"
proof -
  let ?n = "12 + unat (dataSize pub)" and ?e = "ram_end rs"
  let ?h = "le_bytes 4 ?n @ le_bytes 4 (unat (nvIndex pub)) @ le_bytes 4 (unat (nv_attributes pub))"
  let ?m1 = "MemorySet (mem_put (s_indexOrderlyRam st) ?e ?h) (?e + 12) 0 (unat (dataSize pub))"
  let ?m = "if ?e + ?n + 4 < RAM_INDEX_SPACE then MemorySet ?m1 (?e + ?n) 0 4 else ?m1"
  let ?st = "st\<lparr>s_indexOrderlyRam := ?m, g_updateNV := g_updateNV st OR UT_ORDERLY\<rparr>"
  have "NvAddRAM pub st = Inr ?st" using room
    by (simp add: NvAddRAM_def NvRamGetEnd_ok [OF l] Let_def add.assoc)
  moreover have m1: "holds_at ?m1 0 (list_bytes (rs @ [ram_payload pub]))"
    using l holds_at_put_same [of "s_indexOrderlyRam st" ?e ?h] room
    by (simp add: ram_list_def holds_at_append holds_at_MemorySet_below holds_at_put_other entry_bytes_def
        ram_payload_def holds_at_MemorySet_same add.assoc)
  moreover have "holds_at (MemorySet ?m1 (?e + ?n) 0 4) 0 (list_bytes (rs @ [ram_payload pub]))"
    using m1 by (subst holds_at_MemorySet_below) (simp_all add: ram_payload_def)
  ultimately show ?thesis
    using l room holds_at_MemorySet_same [of ?m1 "?e + ?n" 0 4]
    by (intro exI [of _ ?st]) (auto simp: ram_list_def ram_payload_def add.assoc)
qed

lemma holds_at_prefix: "holds_at m a (replicate n v) \<Longrightarrow> k \<le> n \<Longrightarrow> holds_at m a (replicate k v)"
  by (auto simp: holds_at_nth)

lemma NvDeleteRAM_ok:
  assumes l: "ram_list st (xs @ r # ys)" and new: "entry_handle r \<notin> entry_handle ` set xs"
  shows "\<exists>st'. NvDeleteRAM (entry_handle r) st = Inr st' \<and> ram_list st' (xs @ ys) \<and>
    st' = st\<lparr>s_indexOrderlyRam := s_indexOrderlyRam st', g_updateNV := g_updateNV st OR UT_ORDERLY\<rparr>"
proof -
  let ?a = "ram_end xs" and ?n = "4 + length r" and ?e = "ram_end (xs @ r # ys)"
  let ?m1 = "MemoryCopy (s_indexOrderlyRam st) ?a (?a + ?n) (?e - (?a + ?n))"
  let ?m = "MemorySet ?m1 (?e - ?n) 0 ?n"
  let ?st = "st\<lparr>s_indexOrderlyRam := ?m, g_updateNV := g_updateNV st OR UT_ORDERLY\<rparr>"
  note at = ram_list_at [OF l]
  have le: "?e \<le> RAM_INDEX_SPACE" using l by (simp add: ram_list_def)
  have "mem_get (s_indexOrderlyRam st) (?a + 0) 4 = take 4 (drop 0 (entry_bytes r))"
    by (rule holds_at_take_drop) (use at in simp_all)
  then have "le_nat (mem_get (s_indexOrderlyRam st) ?a 4) = ?n"
    using at by (simp add: entry_bytes_def le_nat_le_bytes_small)
  then have "NvDeleteRAM (entry_handle r) st = Inr ?st" using le
    by (simp add: NvDeleteRAM_def NvRamGetEnd_ok [OF l] NvRamGetIndex_hit [OF l new] Let_def)
  moreover have m1: "?m1 = memmove (s_indexOrderlyRam st) ?a (?a + ?n) (?e - (?a + ?n))"
    by (simp add: MemoryCopy_def)
  have "holds_at ?m 0 (list_bytes (xs @ ys))"
    using l holds_at_memmove [of "s_indexOrderlyRam st" "?a + ?n" 0 "list_bytes ys" "?e - (?a + ?n)" ?a]
    unfolding m1
    by (simp add: ram_list_def holds_at_append holds_at_MemorySet_below holds_at_memmove_below add.assoc)
  moreover have "holds_at ?m (?e - ?n) (replicate 4 0)"
    by (rule holds_at_prefix [OF holds_at_MemorySet_same]) simp
  moreover have "?e - ?n = ram_end (xs @ ys)" by simp
  ultimately show ?thesis using l by (intro exI [of _ ?st]) (auto simp: ram_list_def)
qed

section \<open>Fields of an index\<close>

definition entry_dataSize :: "BYTE list \<Rightarrow> nat" where
  "entry_dataSize p = le_nat (take 2 (drop 78 p))"

definition entry_orderly :: "BYTE list \<Rightarrow> bool" where
  "entry_orderly p \<longleftrightarrow> is_index p \<and> bit (entry_attributes p) NV_ORDERLY"

definition is_persistent :: "BYTE list \<Rightarrow> bool" where
  "is_persistent p \<longleftrightarrow> HandleGetType (entry_handle p) = TPM_HT_PERSISTENT"

definition wf_entry :: "nv_layout \<Rightarrow> BYTE list \<Rightarrow> bool" where
  "wf_entry L p \<longleftrightarrow>
     is_index p \<and> length p = SIZEOF_NV_INDEX + (if entry_orderly p then 0 else entry_dataSize p) \<and>
       (IsNvCounterIndex (entry_attributes p) \<longrightarrow> entry_dataSize p = 8) \<or>
     is_persistent p \<and> length p = 4 + SIZEOF_OBJECT L"

text \<open>Attributes of an index in the orderly RAM.\<close>

definition ram_attributes :: "BYTE list \<Rightarrow> UINT32" where
  "ram_attributes r = word_of_nat (le_nat (take 4 (drop 4 r)))"

text \<open>
  The invariant of the NV subsystem: both lists are intact, every entry is an index or a
  persistent object of the right size, no handle occurs twice, and the RAM has an entry,
  of the right size, exactly for every orderly index.
\<close>

definition wf_ram :: "BYTE list list \<Rightarrow> BYTE list \<Rightarrow> bool" where
  "wf_ram ps r \<longleftrightarrow> (\<exists>p \<in> set ps. entry_orderly p \<and> entry_handle p = entry_handle r \<and>
     length r = 8 + entry_dataSize p \<and> bit (ram_attributes r) NV_ORDERLY \<and>
     GET_TPM_NT (ram_attributes r) = GET_TPM_NT (entry_attributes p))"

definition nv_inv :: "nv_layout \<Rightarrow> nv_state \<Rightarrow> BYTE list list \<Rightarrow> BYTE list list \<Rightarrow> UINT64 \<Rightarrow> bool" where
  "nv_inv L st ps rs mc \<longleftrightarrow>
     nv_list L st ps mc \<and> ram_list st rs \<and> 4 \<le> SIZEOF_OBJECT L \<and> SIZEOF_OBJECT L \<le> NV_MEMORY_SIZE \<and>
     (\<forall>p \<in> set ps. wf_entry L p) \<and> distinct (map entry_handle ps) \<and>
     (\<forall>r \<in> set rs. wf_ram ps r) \<and> distinct (map entry_handle rs) \<and>
     (\<forall>p \<in> set ps. entry_orderly p \<longrightarrow> entry_handle p \<in> entry_handle ` set rs)"

lemma wf_entry_length: "wf_entry L p \<Longrightarrow> is_index p \<Longrightarrow> SIZEOF_NV_INDEX \<le> length p"
  by (auto simp: wf_entry_def is_index_def is_persistent_def)

lemma nv_inv_index_length: "nv_inv L st ps rs mc \<Longrightarrow> p \<in> set ps \<Longrightarrow> is_index p \<Longrightarrow> SIZEOF_NV_INDEX \<le> length p"
  by (auto simp: nv_inv_def intro!: wf_entry_length)

lemma nv_inv_counters: "nv_inv L st ps rs mc \<Longrightarrow> NvCapGetCounterNumber L st = Inr (num_counters ps)"
  by (rule NvCapGetCounterNumber_ok [of L st ps mc]) (fastforce simp: nv_inv_def dest: nv_inv_index_length)+

text \<open>The layout of an index in NV.\<close>

definition wf_index :: "NV_INDEX \<Rightarrow> bool" where
  "wf_index ix \<longleftrightarrow> length (authPolicy (publicArea ix)) = 66 \<and> length (authValue ix) = 66"

lemma le_nat_le_bytes_word:
  "le_nat (le_bytes 4 (unat (w :: 32 word))) = unat w" "le_nat (le_bytes 2 (unat (v :: 16 word))) = unat v"
  using unat_lt [of w] unat_lt [of v] by (simp_all add: le_nat_le_bytes_small)

lemma length_NV_INDEX_bytes: "wf_index ix \<Longrightarrow> length (NV_INDEX_bytes ix) = SIZEOF_NV_INDEX"
  by (simp add: wf_index_def NV_INDEX_bytes_def Let_def)

lemma NV_INDEX_fields:
  assumes "wf_index ix"
  shows "entry_handle (NV_INDEX_bytes ix @ rest) = nvIndex (publicArea ix)"
    "entry_attributes (NV_INDEX_bytes ix @ rest) = nv_attributes (publicArea ix)"
    "entry_dataSize (NV_INDEX_bytes ix @ rest) = unat (dataSize (publicArea ix))"
  using assms
  by (simp_all add: entry_handle_def entry_attributes_def entry_dataSize_def NV_INDEX_bytes_def Let_def
      wf_index_def le_nat_le_bytes_word)

lemma NV_INDEX_round_trip: "wf_index ix \<Longrightarrow> NV_INDEX_of_bytes (NV_INDEX_bytes ix) = ix"
  by (simp add: NV_INDEX_of_bytes_def NV_INDEX_bytes_def Let_def wf_index_def le_nat_le_bytes_word)

lemma ram_payload_fields:
  "entry_handle (ram_payload pub) = nvIndex pub" "ram_attributes (ram_payload pub) = nv_attributes pub"
  "length (ram_payload pub) = 8 + unat (dataSize pub)"
  by (simp_all add: entry_handle_def ram_attributes_def ram_payload_def le_nat_le_bytes_word)

section \<open>The space test\<close>

definition reserved_bytes :: "nv_layout \<Rightarrow> BYTE list list \<Rightarrow> bool \<Rightarrow> bool \<Rightarrow> nat" where
  "reserved_bytes L ps isIndex isCounter =
     16 + (if isIndex then (MIN_EVICT_OBJECTS - num_type TPM_HT_PERSISTENT ps) * NV_EVICT_OBJECT_SIZE L else 0) +
     (if isIndex \<and> isCounter then 0 else (MIN_COUNTER_INDICES - num_counters ps) * NV_INDEX_COUNTER_SIZE)"

lemma NvTestSpace_ok:
  assumes i: "nv_inv L st ps rs mc" and "0 < sz"
  shows "NvTestSpace L sz isIndex isCounter st =
    Inr (nv_pos L ps + sz + reserved_bytes L ps isIndex isCounter \<le> NV_MEMORY_SIZE)"
proof -
  let ?r = "reserved_bytes L ps isIndex isCounter" and ?m = "NV_MEMORY_SIZE - nv_pos L ps"
  have l: "nv_list L st ps mc" and o: "SIZEOF_OBJECT L \<le> NV_MEMORY_SIZE" using i by (auto simp: nv_inv_def)
  have "(MIN_EVICT_OBJECTS - num_type TPM_HT_PERSISTENT ps) * NV_EVICT_OBJECT_SIZE L \<le> 7 * 32776"
    by (rule mult_le_mono) (use o in \<open>auto simp: NV_EVICT_OBJECT_SIZE_def\<close>)
  moreover have "(MIN_COUNTER_INDICES - num_counters ps) * NV_INDEX_COUNTER_SIZE \<le> 8 * 160"
    by (rule mult_le_mono) auto
  ultimately have r: "?r < 2 ^ 31" by (auto simp: reserved_bytes_def)
  have "NvTestSpace L sz isIndex isCounter st = Inr (u32 ?r < ?m \<and> sz \<le> ?m \<and> u32 (sz + u32 ?r) \<le> ?m)"
    by (auto simp: NvTestSpace_def NvGetFreeBytes_ok [OF l] NvCapGetPersistentNumber_ok [OF l]
        nv_inv_counters [OF i] reserved_bytes_def Let_def)
  also have "u32 ?r = ?r" using r by simp
  also have "(?r < ?m \<and> sz \<le> ?m \<and> u32 (sz + ?r) \<le> ?m) = (nv_pos L ps + sz + ?r \<le> NV_MEMORY_SIZE)"
    using r assms(2) by auto
  finally show ?thesis .
qed

section \<open>Defining an index\<close>

lemma ram_list_frame: "st' = st\<lparr>s_NV := m, g_updateNV := u\<rparr> \<Longrightarrow> ram_list st' rs \<longleftrightarrow> ram_list st rs"
  by (simp add: ram_list_def)

lemma nv_list_frame: "st' = st\<lparr>s_indexOrderlyRam := m, g_updateNV := u\<rparr> \<Longrightarrow> nv_list L st' ps mc \<longleftrightarrow> nv_list L st ps mc"
  by (simp add: nv_list_def)

definition index_payload :: "NV_INDEX \<Rightarrow> BYTE list \<Rightarrow> BYTE list" where
  "index_payload ix rest = NV_INDEX_bytes ix @ rest"

definition new_index :: "NV_INDEX \<Rightarrow> bool" where
  "new_index ix \<longleftrightarrow> wf_index ix \<and> HandleGetType (nvIndex (publicArea ix)) = TPM_HT_NV_INDEX \<and>
     unat (dataSize (publicArea ix)) \<le> 2048 \<and>
     (IsNvCounterIndex (nv_attributes (publicArea ix)) \<longrightarrow> dataSize (publicArea ix) = 8)"

definition storable :: "NV_INDEX \<Rightarrow> bool" where
  "storable ix \<longleftrightarrow> wf_index ix \<and> unat (dataSize (publicArea ix)) \<le> 2048"

lemma new_index_storable: "new_index ix \<Longrightarrow> storable ix"
  by (simp add: new_index_def storable_def)

definition index_orderly :: "NV_INDEX \<Rightarrow> bool" where
  "index_orderly ix \<longleftrightarrow> bit (nv_attributes (publicArea ix)) NV_ORDERLY"

definition index_room :: "nv_layout \<Rightarrow> BYTE list list \<Rightarrow> BYTE list list \<Rightarrow> NV_INDEX \<Rightarrow> bool" where
  "index_room L ps rs ix \<longleftrightarrow>
     (let ds = unat (dataSize (publicArea ix)) in
      nv_pos L ps + SIZEOF_NV_INDEX + (if index_orderly ix then 0 else ds) +
        reserved_bytes L ps True (IsNvCounterIndex (nv_attributes (publicArea ix))) \<le> NV_MEMORY_SIZE \<and>
      (index_orderly ix \<longrightarrow> ram_end rs + SIZEOF_NV_RAM_HEADER + ds \<le> RAM_INDEX_SPACE))"

lemma NvRamTestSpaceIndex_ok:
  assumes "ram_list st rs" "sz \<le> 65535"
  shows "NvRamTestSpaceIndex sz st = Inr (ram_end rs + SIZEOF_NV_RAM_HEADER + sz \<le> RAM_INDEX_SPACE)"
proof -
  have "ram_end rs \<le> RAM_INDEX_SPACE" using assms by (simp add: ram_list_def)
  then have "u32 (RAM_INDEX_SPACE + 2 ^ 32 - ram_end rs) = RAM_INDEX_SPACE - ram_end rs"
    using u32_diff [of "ram_end rs" RAM_INDEX_SPACE] by simp
  then show ?thesis using assms(2) \<open>ram_end rs \<le> RAM_INDEX_SPACE\<close>
    unfolding NvRamTestSpaceIndex_def NvRamGetEnd_ok [OF assms(1)] bindE_simps Let_def by auto
qed

text \<open>A list of entries stays well formed when an index with a new handle is appended.\<close>

lemma index_payload_fields:
  assumes "new_index ix"
  shows "entry_handle (index_payload ix rest) = nvIndex (publicArea ix)"
    "entry_attributes (index_payload ix rest) = nv_attributes (publicArea ix)"
    "entry_dataSize (index_payload ix rest) = unat (dataSize (publicArea ix))"
    "is_index (index_payload ix rest)" "entry_orderly (index_payload ix rest) \<longleftrightarrow> index_orderly ix"
    "length (index_payload ix rest) = SIZEOF_NV_INDEX + length rest"
  using assms
  by (auto simp: new_index_def index_payload_def NV_INDEX_fields is_index_def entry_orderly_def
      index_orderly_def length_NV_INDEX_bytes)

lemma wf_ram_mono: "wf_ram ps r \<Longrightarrow> set ps \<subseteq> set qs \<Longrightarrow> wf_ram qs r"
  unfolding wf_ram_def by blast

lemma nv_inv_ram_handles: "nv_inv L st ps rs mc \<Longrightarrow> entry_handle ` set rs \<subseteq> entry_handle ` set ps"
  unfolding nv_inv_def wf_ram_def by (metis (no_types, lifting) image_iff image_subsetI)

lemma nv_inv_append_index:
  assumes i: "nv_inv L st ps rs mc" and new: "new_index ix" "nvIndex (publicArea ix) \<notin> entry_handle ` set ps"
    and len: "length rest = (if index_orderly ix then 0 else unat (dataSize (publicArea ix)))"
    and l: "nv_list L st' (ps @ [index_payload ix rest]) mc'"
    and r: "ram_list st' (rs @ (if index_orderly ix then [ram_payload (publicArea ix)] else []))"
  shows "nv_inv L st' (ps @ [index_payload ix rest])
    (rs @ (if index_orderly ix then [ram_payload (publicArea ix)] else [])) mc'"
proof -
  note f = index_payload_fields [OF new(1), of rest]
  have "wf_entry L (index_payload ix rest)" using f len new(1) by (simp add: wf_entry_def new_index_def)
  moreover have "nvIndex (publicArea ix) \<notin> entry_handle ` set rs"
    using nv_inv_ram_handles [OF i] new(2) by blast
  moreover have "index_orderly ix \<Longrightarrow> wf_ram (ps @ [index_payload ix rest]) (ram_payload (publicArea ix))"
    unfolding wf_ram_def using f
    by (intro bexI [of _ "index_payload ix rest"]) (simp_all add: ram_payload_fields index_orderly_def)
  moreover have "\<forall>q \<in> set rs. wf_ram (ps @ [index_payload ix rest]) q"
    using i wf_ram_mono [of ps _ "ps @ [index_payload ix rest]"] by (auto simp: nv_inv_def)
  ultimately show ?thesis using i l r new(2) f unfolding nv_inv_def
    by (simp add: ram_payload_fields split: if_splits)
qed

lemma NvDefineIndex_add:
  assumes i: "nv_inv L st ps rs mc" and ok: "g_NvStatus st = TPM_RC_SUCCESS"
    and new: "storable ix" and room: "index_room L ps rs ix"
  shows "\<exists>rest st1.
    NvDefineIndex L (publicArea ix) (authValue ix) st =
      (if index_orderly ix then bindE (NvAddRAM (publicArea ix) st1) (\<lambda>st. Inr (TPM_RC_SUCCESS, st))
       else Inr (TPM_RC_SUCCESS, st1)) \<and>
    nv_list L st1 (ps @ [index_payload ix rest]) (s_maxCounter st) \<and>
    length rest = (if index_orderly ix then 0 else unat (dataSize (publicArea ix))) \<and>
    st1 = st\<lparr>s_NV := s_NV st1, g_updateNV := g_updateNV st OR UT_NV\<rparr>"
proof -
  let ?ds = "unat (dataSize (publicArea ix))" and ?o = "index_orderly ix"
  define sz where "sz = SIZEOF_NV_INDEX + (if ?o then 0 else ?ds)"
  have l: "nv_list L st ps mc" and r: "ram_list st rs" using i by (auto simp: nv_inv_def)
  have ds: "?ds \<le> 2048" and len: "length (NV_INDEX_bytes ix) = SIZEOF_NV_INDEX"
    using new by (auto simp: storable_def length_NV_INDEX_bytes)
  have p: "nv_pos L ps + sz + reserved_bytes L ps True (IsNvCounterIndex (nv_attributes (publicArea ix))) \<le> NV_MEMORY_SIZE"
    and q: "?o \<Longrightarrow> ram_end rs + SIZEOF_NV_RAM_HEADER + ?ds \<le> RAM_INDEX_SPACE"
    using room by (simp_all add: index_room_def sz_def Let_def)
  have "nv_pos L ps + 4 + length (handle_prefix TPM_RH_UNASSIGNED) + sz + 12 \<le> NV_MEMORY_SIZE"
    using p by (simp add: reserved_bytes_def handle_prefix_def)
  from NvAdd_ok [OF l ok _ _ this, of "NV_INDEX_bytes ix"] len
  obtain rest st1 where a: "NvAdd L sz TPM_RH_UNASSIGNED (NV_INDEX_bytes ix) st = Inr (TPM_RC_SUCCESS, st1)"
    and "nv_list L st1 (ps @ [index_payload ix rest]) (s_maxCounter st)"
    and "length rest = sz - SIZEOF_NV_INDEX"
    and "st1 = st\<lparr>s_NV := s_NV st1, g_updateNV := g_updateNV st OR UT_NV\<rparr>"
    by (auto simp: handle_prefix_def index_payload_def sz_def)
  moreover have "(if \<not> bit (nv_attributes (publicArea ix)) NV_ORDERLY then (SIZEOF_NV_INDEX + ?ds) mod 2 ^ 16
      else SIZEOF_NV_INDEX) = sz" using ds by (simp add: sz_def index_orderly_def)
  moreover have "NvTestSpace L sz True (IsNvCounterIndex (nv_attributes (publicArea ix))) st = Inr True"
    using NvTestSpace_ok [OF i, of sz] p by (simp add: sz_def)
  moreover have "?o \<Longrightarrow> NvRamTestSpaceIndex ?ds st = Inr True"
    using NvRamTestSpaceIndex_ok [OF r, of ?ds] q ds by simp
  moreover have eta: "\<lparr>publicArea = publicArea ix, authValue = authValue ix\<rparr> = ix" by simp
  ultimately show ?thesis
    by (intro exI [of _ rest] exI [of _ st1])
      (auto simp: NvDefineIndex_def index_orderly_def Let_def sz_def eta)
qed

text \<open>What the operations keep of the rest of the state.\<close>

definition same_control :: "nv_state \<Rightarrow> nv_state \<Rightarrow> bool" where
  "same_control st st' \<longleftrightarrow> s_cachedNvIndex st' = s_cachedNvIndex st \<and> s_cachedNvRef st' = s_cachedNvRef st \<and>
     g_NvStatus st' = g_NvStatus st \<and> s_maxCounter st' = s_maxCounter st \<and> s_evictNvEnd st' = s_evictNvEnd st"

lemma same_control_refl [simp]: "same_control st st"
  by (simp add: same_control_def)

lemma same_control_trans: "same_control st st' \<Longrightarrow> same_control st' st'' \<Longrightarrow> same_control st st''"
  by (simp add: same_control_def)

lemma same_control_frame:
  "st' = st\<lparr>s_NV := m, g_updateNV := u\<rparr> \<Longrightarrow> same_control st st'"
  "st' = st\<lparr>s_indexOrderlyRam := m, g_updateNV := u\<rparr> \<Longrightarrow> same_control st st'"
  by (simp_all add: same_control_def)

lemma NvDefineIndex_ok:
  assumes i: "nv_inv L st ps rs mc" and ok: "g_NvStatus st = TPM_RC_SUCCESS"
    and new: "new_index ix" "nvIndex (publicArea ix) \<notin> entry_handle ` set ps"
    and room: "index_room L ps rs ix"
  shows "\<exists>rest st'. NvDefineIndex L (publicArea ix) (authValue ix) st = Inr (TPM_RC_SUCCESS, st') \<and>
    nv_inv L st' (ps @ [index_payload ix rest])
      (rs @ (if index_orderly ix then [ram_payload (publicArea ix)] else [])) (s_maxCounter st) \<and>
    length rest = (if index_orderly ix then 0 else unat (dataSize (publicArea ix))) \<and> same_control st st'"
proof -
  obtain rest st1 where eval: "NvDefineIndex L (publicArea ix) (authValue ix) st =
      (if index_orderly ix then bindE (NvAddRAM (publicArea ix) st1) (\<lambda>st. Inr (TPM_RC_SUCCESS, st))
       else Inr (TPM_RC_SUCCESS, st1))"
    and l1: "nv_list L st1 (ps @ [index_payload ix rest]) (s_maxCounter st)"
    and len: "length rest = (if index_orderly ix then 0 else unat (dataSize (publicArea ix)))"
    and fr: "st1 = st\<lparr>s_NV := s_NV st1, g_updateNV := g_updateNV st OR UT_NV\<rparr>"
    using NvDefineIndex_add [OF i ok new_index_storable [OF new(1)] room] by blast
  have r1: "ram_list st1 rs" using i ram_list_frame [OF fr] by (simp add: nv_inv_def)
  note app = nv_inv_append_index [OF i new len]
  show ?thesis
  proof (cases "index_orderly ix")
    case True
    then obtain st2 where "NvAddRAM (publicArea ix) st1 = Inr st2" "ram_list st2 (rs @ [ram_payload (publicArea ix)])"
      and fr2: "st2 = st1\<lparr>s_indexOrderlyRam := s_indexOrderlyRam st2, g_updateNV := g_updateNV st1 OR UT_ORDERLY\<rparr>"
      using NvAddRAM_ok [OF r1, of "publicArea ix"] room by (auto simp: index_room_def Let_def)
    moreover have "same_control st st2"
      by (rule same_control_trans [OF same_control_frame(1) [OF fr] same_control_frame(2) [OF fr2]])
    ultimately show ?thesis using True eval l1 len nv_list_frame [OF fr2] app [of st2] by auto
  next
    case False
    then show ?thesis using eval l1 len r1 same_control_frame(1) [OF fr] app [of st1] by auto
  qed
qed

lemma NvDefineIndex_no_space:
  assumes i: "nv_inv L st ps rs mc" and new: "storable ix" and room: "\<not> index_room L ps rs ix"
  shows "NvDefineIndex L (publicArea ix) (authValue ix) st = Inr (TPM_RC_NV_SPACE, st)"
proof -
  let ?ds = "unat (dataSize (publicArea ix))" and ?o = "index_orderly ix"
  define sz where "sz = SIZEOF_NV_INDEX + (if ?o then 0 else ?ds)"
  have r: "ram_list st rs" and ds: "?ds \<le> 2048" using i new by (auto simp: nv_inv_def storable_def)
  have "(if \<not> bit (nv_attributes (publicArea ix)) NV_ORDERLY then (SIZEOF_NV_INDEX + ?ds) mod 2 ^ 16
      else SIZEOF_NV_INDEX) = sz" using ds by (simp add: sz_def index_orderly_def)
  moreover have "NvTestSpace L sz True (IsNvCounterIndex (nv_attributes (publicArea ix))) st =
      Inr (nv_pos L ps + sz + reserved_bytes L ps True (IsNvCounterIndex (nv_attributes (publicArea ix))) \<le> NV_MEMORY_SIZE)"
    by (rule NvTestSpace_ok [OF i]) (simp add: sz_def)
  moreover have "NvRamTestSpaceIndex ?ds st = Inr (ram_end rs + SIZEOF_NV_RAM_HEADER + ?ds \<le> RAM_INDEX_SPACE)"
    by (rule NvRamTestSpaceIndex_ok [OF r]) (use ds in simp)
  moreover have "index_room L ps rs ix \<longleftrightarrow>
      nv_pos L ps + sz + reserved_bytes L ps True (IsNvCounterIndex (nv_attributes (publicArea ix))) \<le> NV_MEMORY_SIZE \<and>
      (?o \<longrightarrow> ram_end rs + SIZEOF_NV_RAM_HEADER + ?ds \<le> RAM_INDEX_SPACE)"
    unfolding index_room_def Let_def sz_def by (simp only: add.assoc)
  ultimately show ?thesis using room unfolding NvDefineIndex_def index_orderly_def Let_def by auto
qed

end
