(* ===== verification/FTPM_NVSpec.thy ===== *)
theory FTPM_NVSpec
  imports FTPM_NVOps
begin

text \<open>
  Deleting entries, flushing a hierarchy, the maximal counter, capability queries and the
  startup of the NV subsystem, each against the two lists of payloads.
\<close>

section \<open>Deleting an index\<close>

text \<open>The RAM entries that belong to the indices of a list.\<close>

definition ram_of :: "BYTE list list \<Rightarrow> BYTE list list \<Rightarrow> BYTE list list" where
  "ram_of ps rs = filter (\<lambda>r. entry_handle r \<in> entry_handle ` set ps) rs"

lemma nv_inv_ram_of: "nv_inv L st ps rs mc \<Longrightarrow> ram_of ps rs = rs"
  using nv_inv_ram_handles by (fastforce simp: ram_of_def filter_id_conv)

lemma ram_of_ram_of: "set ps \<subseteq> set qs \<Longrightarrow> ram_of ps (ram_of qs rs) = ram_of ps rs"
  unfolding ram_of_def filter_filter by (rule filter_cong) auto

lemma distinct_handle_eq:
  "distinct (map entry_handle ps) \<Longrightarrow> p \<in> set ps \<Longrightarrow> q \<in> set ps \<Longrightarrow> entry_handle p = entry_handle q \<Longrightarrow> p = q"
  by (metis distinct_map inj_onD)

lemma wf_ram_remove:
  assumes "wf_ram ps r" "set qs \<subseteq> set ps" "entry_handle r \<in> entry_handle ` set qs"
    "distinct (map entry_handle ps)"
  shows "wf_ram qs r"
proof -
  obtain p where p: "p \<in> set ps" "entry_orderly p" "entry_handle p = entry_handle r"
      "length r = 8 + entry_dataSize p" "bit (ram_attributes r) NV_ORDERLY"
      "GET_TPM_NT (ram_attributes r) = GET_TPM_NT (entry_attributes p)"
    using assms(1) by (auto simp: wf_ram_def)
  obtain q where q: "q \<in> set qs" "entry_handle q = entry_handle r" using assms(3) by auto
  then have "q = p" using distinct_handle_eq [OF assms(4)] p assms(2) by auto
  then show ?thesis using p q by (auto simp: wf_ram_def)
qed

lemma nv_inv_ramD: "nv_inv L st ps rs mc \<Longrightarrow> r \<in> set rs \<Longrightarrow> wf_ram ps r"
  unfolding nv_inv_def by blast

lemma nv_inv_entryD: "nv_inv L st ps rs mc \<Longrightarrow> p \<in> set ps \<Longrightarrow> wf_entry L p"
  unfolding nv_inv_def by blast

lemma nv_inv_distinct:
  "nv_inv L st ps rs mc \<Longrightarrow> distinct (map entry_handle ps)"
  "nv_inv L st ps rs mc \<Longrightarrow> distinct (map entry_handle rs)"
  unfolding nv_inv_def by blast+

lemma nv_inv_orderlyD:
  assumes "nv_inv L st ps rs mc" "p \<in> set ps" "entry_orderly p"
  obtains r where "r \<in> set rs" "entry_handle r = entry_handle p"
  using assms unfolding nv_inv_def by (metis imageE)

lemma nv_inv_listD:
  "nv_inv L st ps rs mc \<Longrightarrow> nv_list L st ps mc"
  "nv_inv L st ps rs mc \<Longrightarrow> ram_list st rs"
  unfolding nv_inv_def by blast+

lemma nv_inv_remove:
  assumes i: "nv_inv L st (xs @ p # ys) rs mc" and l: "nv_list L st' (xs @ ys) mc'"
    and r: "ram_list st' (ram_of (xs @ ys) rs)"
  shows "nv_inv L st' (xs @ ys) (ram_of (xs @ ys) rs) mc'"
proof -
  note d = nv_inv_distinct [OF i]
  have sub: "set (xs @ ys) \<subseteq> set (xs @ p # ys)" by auto
  have "\<forall>q \<in> set (ram_of (xs @ ys) rs). wf_ram (xs @ ys) q"
  proof
    fix q assume "q \<in> set (ram_of (xs @ ys) rs)"
    then have q: "q \<in> set rs" "entry_handle q \<in> entry_handle ` set (xs @ ys)" by (simp_all add: ram_of_def)
    show "wf_ram (xs @ ys) q" by (rule wf_ram_remove [OF nv_inv_ramD [OF i q(1)] sub q(2) d(1)])
  qed
  moreover have "distinct (map entry_handle (ram_of (xs @ ys) rs))"
    using d(2) by (simp add: ram_of_def distinct_map_filter)
  moreover have "\<forall>q \<in> set (xs @ ys). entry_orderly q \<longrightarrow> entry_handle q \<in> entry_handle ` set (ram_of (xs @ ys) rs)"
  proof (intro ballI impI)
    fix q assume q: "q \<in> set (xs @ ys)" "entry_orderly q"
    then obtain s where "s \<in> set rs" "entry_handle s = entry_handle q"
      using nv_inv_orderlyD [OF i, of q] sub by blast
    then have "s \<in> set (ram_of (xs @ ys) rs)" using q(1) by (simp add: ram_of_def)
    then show "entry_handle q \<in> entry_handle ` set (ram_of (xs @ ys) rs)"
      using \<open>entry_handle s = entry_handle q\<close> by (metis imageI)
  qed
  moreover have "distinct (map entry_handle (xs @ ys))" using d(1) by simp
  moreover have "\<forall>q \<in> set (xs @ ys). wf_entry L q" using nv_inv_entryD [OF i] sub by blast
  ultimately show ?thesis using i l r unfolding nv_inv_def by blast
qed

text \<open>Without an orderly index there is nothing to remove from the RAM; with one there is.\<close>

lemma ram_of_not_orderly:
  assumes i: "nv_inv L st (xs @ p # ys) rs mc" and "\<not> entry_orderly p"
  shows "ram_of (xs @ ys) rs = rs"
  unfolding ram_of_def filter_id_conv
proof
  fix r assume "r \<in> set rs"
  then obtain q where "q \<in> set (xs @ p # ys)" "entry_orderly q" "entry_handle q = entry_handle r"
    using nv_inv_ramD [OF i] unfolding wf_ram_def by blast
  moreover from this assms(2) have "q \<in> set (xs @ ys)" by auto
  ultimately show "entry_handle r \<in> entry_handle ` set (xs @ ys)" by (metis imageI)
qed

lemma ram_of_orderly:
  assumes i: "nv_inv L st (xs @ p # ys) rs mc" and o: "entry_orderly p"
  obtains us r vs where "rs = us @ r # vs" "entry_handle r = entry_handle p"
    "ram_of (xs @ ys) rs = us @ vs" "entry_handle p \<notin> entry_handle ` set us"
    "length r = 8 + entry_dataSize p"
proof -
  obtain r where r: "r \<in> set rs" "entry_handle r = entry_handle p"
    by (rule nv_inv_orderlyD [OF i _ o]) simp
  then obtain us vs where rs: "rs = us @ r # vs" by (metis split_list)
  have d: "distinct (map entry_handle (us @ r # vs))" "distinct (map entry_handle (xs @ p # ys))"
    using nv_inv_distinct [OF i] rs by simp_all
  then have n: "entry_handle p \<notin> entry_handle ` set us" "entry_handle p \<notin> entry_handle ` set vs"
    "entry_handle p \<notin> entry_handle ` set (xs @ ys)" using r(2) by auto
  have keep: "entry_handle q \<in> entry_handle ` set (xs @ ys)" if q: "q \<in> set rs" "entry_handle q \<noteq> entry_handle p" for q
  proof -
    have "entry_handle q \<in> entry_handle ` set (xs @ p # ys)" using nv_inv_ram_handles [OF i] q(1) by blast
    then show ?thesis using q(2) by auto
  qed
  have "filter (\<lambda>q. entry_handle q \<in> entry_handle ` set (xs @ ys)) us = us"
    "filter (\<lambda>q. entry_handle q \<in> entry_handle ` set (xs @ ys)) vs = vs"
    unfolding filter_id_conv using n keep rs by (metis Un_iff image_eqI list.set_intros(2) set_append)+
  then have "ram_of (xs @ ys) rs = us @ vs" using n(3) r rs by (simp add: ram_of_def)
  moreover have "length r = 8 + entry_dataSize p"
  proof -
    obtain q where "q \<in> set (xs @ p # ys)" "entry_handle q = entry_handle r" "length r = 8 + entry_dataSize q"
      using nv_inv_ramD [OF i r(1)] unfolding wf_ram_def by blast
    then show ?thesis using distinct_handle_eq [OF d(2), of q p] r by simp
  qed
  ultimately show ?thesis using that rs r n by blast
qed

text \<open>
  A descriptor describes an entry when it has its handle, size and type.  The attributes
  of an orderly index may differ: they are kept in RAM.
\<close>

definition describes :: "NV_INDEX \<Rightarrow> BYTE list \<Rightarrow> bool" where
  "describes ix p \<longleftrightarrow> nvIndex (publicArea ix) = entry_handle p \<and>
     unat (dataSize (publicArea ix)) = entry_dataSize p \<and>
     (bit (nv_attributes (publicArea ix)) NV_ORDERLY \<longleftrightarrow> entry_orderly p) \<and>
     GET_TPM_NT (nv_attributes (publicArea ix)) = GET_TPM_NT (entry_attributes p)"

text \<open>The value of a counter: in the RAM for an orderly one, else behind the index.\<close>

definition stored_count :: "BYTE list list \<Rightarrow> BYTE list \<Rightarrow> UINT64" where
  "stored_count rs p =
     (if entry_orderly p
      then (case find (\<lambda>r. entry_handle r = entry_handle p) rs of
              None \<Rightarrow> 0 | Some r \<Rightarrow> ByteArrayToUint64 (take 8 (drop 8 r)))
      else ByteArrayToUint64 (take 8 (drop SIZEOF_NV_INDEX p)))"

lemma find_append_first: "\<forall>u \<in> set us. \<not> P u \<Longrightarrow> P r \<Longrightarrow> find P (us @ r # vs) = Some r"
  by (induction us) auto

lemma ram_read_payload:
  assumes "ram_list st (us @ r # vs)" "k + n \<le> length r"
  shows "ram_get (Some (ram_end us)) (4 + k) n st = Inr (take n (drop k r))"
proof -
  note at = ram_list_at [OF assms(1)]
  have "mem_get (s_indexOrderlyRam st) (ram_end us + 4 + k) n = take n (drop k r)"
    by (rule holds_at_take_drop [OF at(2) assms(2)])
  then show ?thesis using at(3) assms(2) by (simp add: ram_get_def add.assoc)
qed

lemma ram_header_size:
  assumes "ram_list st (us @ r # vs)"
  shows "le_nat (mem_get (s_indexOrderlyRam st) (ram_end us) 4) = 4 + length r"
proof -
  note at = ram_list_at [OF assms]
  have "mem_get (s_indexOrderlyRam st) (ram_end us + 0) 4 = take 4 (drop 0 (entry_bytes r))"
    by (rule holds_at_take_drop) (use at in simp_all)
  then show ?thesis using at by (simp add: entry_bytes_def le_nat_le_bytes_small)
qed

lemma IsNvCounterIndex_cong: "GET_TPM_NT a = GET_TPM_NT b \<Longrightarrow> IsNvCounterIndex a \<longleftrightarrow> IsNvCounterIndex b"
  by (simp add: IsNvCounterIndex_def)

lemma NvGetUINT64Data_ok:
  assumes i: "nv_inv L st (xs @ p # ys) rs mc" and p: "is_index p" "describes ix p"
    and a: "IsNvCounterIndex (nv_attributes (publicArea ix))" "bit (nv_attributes (publicArea ix)) NV_WRITTEN"
  shows "NvGetUINT64Data ix (nv_pos L xs + 4) st = Inr (stored_count rs p)"
proof -
  have w: "wf_entry L p" using nv_inv_entryD [OF i] by simp
  have c: "IsNvCounterIndex (entry_attributes p)"
    using IsNvCounterIndex_cong [of "nv_attributes (publicArea ix)" "entry_attributes p"] a(1) p(2)
    by (simp add: describes_def)
  have ds: "entry_dataSize p = 8" and len: "length p = SIZEOF_NV_INDEX + (if entry_orderly p then 0 else 8)"
    using w c p(1) by (auto simp: wf_entry_def is_index_def is_persistent_def)
  show ?thesis
  proof (cases "entry_orderly p")
    case True
    then obtain us r vs where rs: "rs = us @ r # vs" "entry_handle r = entry_handle p"
      "entry_handle p \<notin> entry_handle ` set us" "length r = 8 + entry_dataSize p" by (rule ram_of_orderly [OF i])
    have l: "ram_list st (us @ r # vs)" using nv_inv_listD(2) [OF i] rs by simp
    have "\<forall>u \<in> set us. entry_handle u \<noteq> entry_handle p" using rs(3) by (metis imageI)
    then have "stored_count rs p = ByteArrayToUint64 (take 8 (drop 8 r))"
      using rs True find_append_first [of us "\<lambda>r. entry_handle r = entry_handle p" r vs]
      by (simp add: stored_count_def)
    then show ?thesis
      using True a(2) p(2) ds NvRamGetIndex_hit [OF l] rs ram_header_size [OF l] ram_read_payload [OF l, of 8 8]
      by (simp add: NvGetUINT64Data_def NvGetIndexData_def Let_def describes_def)
  next
    case False
    then show ?thesis
      using a(2) p(2) ds len nv_read_payload [OF nv_inv_listD(1) [OF i], of SIZEOF_NV_INDEX 8]
        nv_list_at(3) [OF nv_inv_listD(1) [OF i]]
      by (simp add: NvGetUINT64Data_def NvGetIndexData_def Let_def describes_def stored_count_def add.assoc)
  qed
qed

definition deleted_count :: "NV_INDEX \<Rightarrow> BYTE list list \<Rightarrow> BYTE list \<Rightarrow> UINT64" where
  "deleted_count ix rs p =
     (let a = nv_attributes (publicArea ix) in
      if IsNvCounterIndex a \<and> bit a NV_WRITTEN then stored_count rs p else 0)"

lemma nv_list_maxCounter: "nv_list L (st\<lparr>s_maxCounter := v\<rparr>) ps mc \<longleftrightarrow> nv_list L st ps mc"
  by (simp add: nv_list_def)

lemma NvDeleteIndex_ok:
  assumes i: "nv_inv L st (xs @ p # ys) rs mc" and ok: "g_NvStatus st = TPM_RC_SUCCESS"
    and p: "is_index p" "describes ix p"
  shows "\<exists>st'. NvDeleteIndex L (Some ix) (nv_pos L xs + 4) st = Inr (TPM_RC_SUCCESS, st') \<and>
    nv_inv L st' (xs @ ys) (ram_of (xs @ ys) rs) (s_maxCounter st') \<and>
    s_maxCounter st' = max (s_maxCounter st) (deleted_count ix rs p) \<and>
    g_NvStatus st' = TPM_RC_SUCCESS \<and> nvIndex (publicArea (s_cachedNvIndex st')) = TPM_RH_UNASSIGNED"
proof -
  let ?a = "nv_attributes (publicArea ix)" and ?m = "max (s_maxCounter st) (deleted_count ix rs p)"
  let ?st0 = "st\<lparr>s_maxCounter := ?m\<rparr>"
  have m: "(if IsNvCounterIndex ?a \<and> bit ?a NV_WRITTEN
      then bindE (NvGetUINT64Data ix (nv_pos L xs + 4) st) (\<lambda>v. Inr (NvUpdateMaxCount v st)) else Inr st) = Inr ?st0"
    using NvGetUINT64Data_ok [OF i p]
    by (auto simp: NvUpdateMaxCount_def deleted_count_def max_def Let_def)
  have l0: "nv_list L ?st0 (xs @ p # ys) mc" using nv_inv_listD(1) [OF i] by (simp add: nv_list_maxCounter)
  obtain st1 where d: "NvDelete L (nv_pos L xs + 4) ?st0 = Inr (TPM_RC_SUCCESS, st1)"
    and l1: "nv_list L st1 (xs @ ys) ?m"
    and fr: "st1 = ?st0\<lparr>s_NV := s_NV st1, g_updateNV := g_updateNV ?st0 OR UT_NV\<rparr>"
    using NvDelete_ok [OF l0] ok by auto
  have s1: "s_maxCounter st1 = ?m" "g_NvStatus st1 = TPM_RC_SUCCESS" using ok by (subst fr, simp)+
  have r1: "ram_list st1 rs" using nv_inv_listD(2) [OF i] by (subst fr) (simp add: ram_list_def)
  obtain st2 where e: "(if bit ?a NV_ORDERLY then NvDeleteRAM (nvIndex (publicArea ix)) st1 else Inr st1) = Inr st2"
    and l2: "nv_list L st2 (xs @ ys) ?m" and r2: "ram_list st2 (ram_of (xs @ ys) rs)"
    and s2: "s_maxCounter st2 = ?m" "g_NvStatus st2 = TPM_RC_SUCCESS"
  proof (cases "entry_orderly p")
    case True
    then obtain us r vs where rs: "rs = us @ r # vs" "entry_handle r = entry_handle p"
      "ram_of (xs @ ys) rs = us @ vs" "entry_handle p \<notin> entry_handle ` set us" by (rule ram_of_orderly [OF i])
    obtain st2 where "NvDeleteRAM (entry_handle r) st1 = Inr st2" "ram_list st2 (us @ vs)"
      and fr2: "st2 = st1\<lparr>s_indexOrderlyRam := s_indexOrderlyRam st2, g_updateNV := g_updateNV st1 OR UT_ORDERLY\<rparr>"
      using NvDeleteRAM_ok [of st1 us r vs] r1 rs by auto
    moreover have "s_maxCounter st2 = ?m" "g_NvStatus st2 = TPM_RC_SUCCESS" using s1 by (subst fr2, simp)+
    ultimately show ?thesis using that [of st2] True p(2) rs l1 nv_list_frame [OF fr2] by (simp add: describes_def)
  next
    case False
    then show ?thesis using that [of st1] p(2) l1 r1 s1 ram_of_not_orderly [OF i] by (simp add: describes_def)
  qed
  let ?st = "NvIndexCacheInit st2"
  have "NvDeleteIndex L (Some ix) (nv_pos L xs + 4) st = Inr (TPM_RC_SUCCESS, ?st)"
    using m d e by (simp add: NvDeleteIndex_def Let_def)
  moreover have "nv_list L ?st (xs @ ys) ?m" "ram_list ?st (ram_of (xs @ ys) rs)"
    using l2 r2 by (simp_all add: nv_list_def ram_list_def NvIndexCacheInit_def)
  ultimately show ?thesis using nv_inv_remove [OF i] s2 by (auto simp: NvIndexCacheInit_def)
qed

section \<open>Deleting a persistent object\<close>

lemma persistent_not_orderly: "is_persistent p \<Longrightarrow> \<not> entry_orderly p"
  by (simp add: is_persistent_def entry_orderly_def is_index_def)

lemma NvDelete_persistent_ok:
  assumes i: "nv_inv L st (xs @ p # ys) rs mc" and ok: "g_NvStatus st = TPM_RC_SUCCESS" and p: "is_persistent p"
  shows "\<exists>st'. NvDelete L (nv_pos L xs + 4) st = Inr (TPM_RC_SUCCESS, st') \<and>
    nv_inv L st' (xs @ ys) (ram_of (xs @ ys) rs) (s_maxCounter st') \<and> same_control st st'"
proof -
  obtain st' where d: "NvDelete L (nv_pos L xs + 4) st = Inr (TPM_RC_SUCCESS, st')"
    and l: "nv_list L st' (xs @ ys) (s_maxCounter st)"
    and fr: "st' = st\<lparr>s_NV := s_NV st', g_updateNV := g_updateNV st OR UT_NV\<rparr>"
    using NvDelete_ok [OF nv_inv_listD(1) [OF i] ok] by blast
  have c: "same_control st st'" by (rule same_control_frame(1) [OF fr])
  have "ram_of (xs @ ys) rs = rs" by (rule ram_of_not_orderly [OF i persistent_not_orderly [OF p]])
  moreover have "ram_list st' rs" using nv_inv_listD(2) [OF i] ram_list_frame [OF fr] by simp
  ultimately have "nv_inv L st' (xs @ ys) (ram_of (xs @ ys) rs) (s_maxCounter st)"
    using nv_inv_remove [OF i l] by simp
  then show ?thesis using d c by (auto simp: same_control_def)
qed

section \<open>Flushing a hierarchy\<close>

definition object_attributes :: "BYTE list \<Rightarrow> UINT32" where
  "object_attributes p = word_of_nat (le_nat (take 4 (drop 4 p)))"

definition flushed :: "TPM_HANDLE \<Rightarrow> BYTE list \<Rightarrow> bool" where
  "flushed hierarchy p \<longleftrightarrow>
     is_index p \<and> hierarchy \<noteq> TPM_RH_ENDORSEMENT \<and> hierarchy \<noteq> TPM_RH_PLATFORM \<and>
       \<not> bit (entry_attributes p) NV_PLATFORMCREATE \<or>
     is_persistent p \<and>
       (hierarchy = TPM_RH_PLATFORM \<and> bit (object_attributes p) 2 \<or>
        hierarchy = TPM_RH_OWNER \<and> bit (object_attributes p) 3 \<or>
        hierarchy = TPM_RH_ENDORSEMENT \<and> bit (object_attributes p) 1)"

text \<open>The descriptor that is read from NV, and the counter value a deletion saves.\<close>

definition entry_index :: "BYTE list \<Rightarrow> NV_INDEX" where
  "entry_index p = NV_INDEX_of_bytes (take SIZEOF_NV_INDEX p)"

definition written_counter :: "BYTE list \<Rightarrow> bool" where
  "written_counter p \<longleftrightarrow> is_index p \<and> \<not> entry_orderly p \<and> IsNvCounterIndex (entry_attributes p) \<and>
     bit (entry_attributes p) NV_WRITTEN"

text \<open>Marked as a written counter by the attributes in NV.\<close>

definition marked_written :: "BYTE list \<Rightarrow> bool" where
  "marked_written p \<longleftrightarrow> is_index p \<and> IsNvCounterIndex (entry_attributes p) \<and> bit (entry_attributes p) NV_WRITTEN"

definition nv_count :: "BYTE list \<Rightarrow> UINT64" where
  "nv_count p = ByteArrayToUint64 (take 8 (drop SIZEOF_NV_INDEX p))"

lemma entry_index_attributes [simp]: "nv_attributes (publicArea (entry_index p)) = entry_attributes p"
  by (simp add: entry_index_def NV_INDEX_of_bytes_def entry_attributes_def min_def drop_take)

lemma entry_index_describes:
  assumes "is_index p" shows "describes (entry_index p) p"
proof -
  have "le_nat (take 2 (drop 78 p)) < 256 ^ 2"
    using le_nat_lt [of "take 2 (drop 78 p)"] power_increasing [of "length (take 2 (drop 78 p))" 2 "256 :: nat"] by simp
  then have "unat (word_of_nat (le_nat (take 2 (drop 78 p))) :: 16 word) = le_nat (take 2 (drop 78 p))"
    by (subst unsigned_of_nat) (simp add: take_bit_eq_mod)
  then show ?thesis using assms
    by (simp add: describes_def entry_orderly_def entry_dataSize_def entry_handle_def)
      (simp add: entry_index_def NV_INDEX_of_bytes_def drop_take)
qed

lemma deleted_count_written:
  "written_counter p \<Longrightarrow> deleted_count (entry_index p) rs p = nv_count p"
  by (simp add: deleted_count_def written_counter_def stored_count_def nv_count_def Let_def)

lemma deleted_count_unmarked: "is_index p \<Longrightarrow> \<not> marked_written p \<Longrightarrow> deleted_count (entry_index p) rs p = 0"
  by (auto simp: deleted_count_def marked_written_def Let_def)

lemma NvReadNvIndexInfo_ok:
  assumes "nv_list L st (xs @ p # ys) mc" "SIZEOF_NV_INDEX \<le> length p"
  shows "NvReadNvIndexInfo (nv_pos L xs + 4) st = Inr (entry_index p)"
  using nv_read_payload [OF assms(1), of 0 SIZEOF_NV_INDEX] assms(2)
  by (simp add: NvReadNvIndexInfo_def entry_index_def)

lemma wf_entry_types: "wf_entry L p \<Longrightarrow> is_index p \<noteq> is_persistent p"
  by (auto simp: wf_entry_def is_index_def is_persistent_def)

lemma flush_entry_keep_list:
  assumes l: "nv_list L st (xs @ p # ys) mc" and w: "wf_entry L p" and o: "4 \<le> SIZEOF_OBJECT L" and f: "\<not> flushed hierarchy p"
  shows "NvFlushHierarchy_entry L hierarchy (nv_pos L xs + 4) (entry_handle p) st = Inr (TPM_RC_SUCCESS, False, st)"
proof (cases "is_index p")
  case True
  then show ?thesis using f NvReadNvIndexInfo_ok [OF l wf_entry_length [OF w True]]
    by (auto simp: NvFlushHierarchy_entry_def flushed_def is_index_def)
next
  case False
  then have p: "is_persistent p" "length p = 4 + SIZEOF_OBJECT L" using w by (auto simp: wf_entry_def)
  then have "NvRead (nv_pos L xs + 4 + 4) 4 st = Inr (take 4 (drop 4 p))"
    using nv_read_payload [OF l, of 4 4] o by simp
  then show ?thesis using p f False nv_list_at(3) [OF l]
    by (auto simp: NvFlushHierarchy_entry_def flushed_def is_index_def is_persistent_def object_attributes_def Let_def add.assoc)
qed

lemma flush_entry_keep:
  assumes i: "nv_inv L st (xs @ p # ys) rs mc" and f: "\<not> flushed hierarchy p"
  shows "NvFlushHierarchy_entry L hierarchy (nv_pos L xs + 4) (entry_handle p) st = Inr (TPM_RC_SUCCESS, False, st)"
  using flush_entry_keep_list [OF nv_inv_listD(1) [OF i] nv_inv_entryD [OF i] _ f] i by (simp add: nv_inv_def)

lemma flush_entry_delete:
  assumes i: "nv_inv L st (xs @ p # ys) rs mc" and ok: "g_NvStatus st = TPM_RC_SUCCESS" and f: "flushed hierarchy p"
  shows "\<exists>st'. NvFlushHierarchy_entry L hierarchy (nv_pos L xs + 4) (entry_handle p) st = Inr (TPM_RC_SUCCESS, True, st') \<and>
    nv_inv L st' (xs @ ys) (ram_of (xs @ ys) rs) (s_maxCounter st') \<and> g_NvStatus st' = TPM_RC_SUCCESS \<and>
    s_maxCounter st \<le> s_maxCounter st' \<and> (written_counter p \<longrightarrow> nv_count p \<le> s_maxCounter st') \<and>
    (\<not> marked_written p \<longrightarrow> s_maxCounter st' = s_maxCounter st)"
proof -
  note l = nv_inv_listD(1) [OF i]
  have w: "wf_entry L p" and o: "4 \<le> SIZEOF_OBJECT L" using nv_inv_entryD [OF i] i by (simp_all add: nv_inv_def)
  show ?thesis
  proof (cases "is_index p")
    case True
    then have "\<not> is_persistent p" using wf_entry_types [OF w] by simp
    with True f have "hierarchy \<noteq> TPM_RH_ENDORSEMENT" "hierarchy \<noteq> TPM_RH_PLATFORM"
      "\<not> bit (entry_attributes p) NV_PLATFORMCREATE" by (auto simp: flushed_def)
    then show ?thesis
      using True NvReadNvIndexInfo_ok [OF l wf_entry_length [OF w True]]
        NvDeleteIndex_ok [OF i ok True entry_index_describes [OF True]] deleted_count_written [of p rs] deleted_count_unmarked [of p rs]
      by (auto simp: NvFlushHierarchy_entry_def is_index_def)
  next
    case False
    then have p: "is_persistent p" "length p = 4 + SIZEOF_OBJECT L" using w by (auto simp: wf_entry_def)
    then have "NvRead (nv_pos L xs + 4 + 4) 4 st = Inr (take 4 (drop 4 p))"
      using nv_read_payload [OF l, of 4 4] o by simp
    then show ?thesis using p f False nv_list_at(3) [OF l] NvDelete_persistent_ok [OF i ok p(1)] ok
      by (auto simp: NvFlushHierarchy_entry_def flushed_def is_index_def is_persistent_def object_attributes_def
          Let_def add.assoc same_control_def written_counter_def)
  qed
qed

text \<open>One pass deletes the first entry of the hierarchy, if there is one.\<close>

lemma flush_pass_none:
  assumes i: "nv_inv L st ps rs mc" and f: "\<forall>p \<in> set ps. \<not> flushed hierarchy p"
  shows "NvFlushHierarchy_pass L hierarchy st = Inr (TPM_RC_SUCCESS, False, st)"
proof -
  let ?body = "\<lambda>currentAddr entityHandle iter (_ :: TPM_RC, _ :: bool, st).
      bindE (NvFlushHierarchy_entry L hierarchy currentAddr entityHandle st) (\<lambda>(result, deleted, st).
      Inr (result \<noteq> TPM_RC_SUCCESS \<or> deleted, iter, (result, deleted, st)))"
  let ?I = "\<lambda>xs ys \<sigma>. xs @ ys = ps \<and> \<sigma> = (TPM_RC_SUCCESS, False, st)"
  have "\<exists>zs \<sigma>'. scan_while NV_FUEL (\<lambda>\<sigma>. NvNext L ((\<lambda>(_, _, st). st) \<sigma>)) ?body NV_REF_INIT (TPM_RC_SUCCESS, False, st) =
      Inr (None, nv_pos L zs, \<sigma>') \<and> ?I zs [] \<sigma>'"
  proof (rule nv.scan_inv_start [where ys = ps])
    fix xs y ys \<sigma>
    assume I: "?I xs (y # ys) \<sigma>"
    then show "\<exists>y' \<sigma>'. ?body (nv_pos L xs + 4) (entry_handle y) (nv_pos L (xs @ [y])) \<sigma> =
        Inr (False, nv_pos L (xs @ [y']), \<sigma>') \<and> ?I (xs @ [y']) ys \<sigma>'"
      using flush_entry_keep [of L st xs y ys rs mc hierarchy] i f by (intro exI [of _ y]) auto
  qed (use nv_inv_listD(1) [OF i] in \<open>auto simp: nv_goodI nv_list_count\<close>)
  then show ?thesis unfolding NvFlushHierarchy_pass_def by (auto simp: case_prod_unfold)
qed

lemma flush_pass_first:
  assumes i: "nv_inv L st (us @ p # vs) rs mc" and ok: "g_NvStatus st = TPM_RC_SUCCESS"
    and f: "\<forall>u \<in> set us. \<not> flushed hierarchy u" "flushed hierarchy p"
  shows "\<exists>st'. NvFlushHierarchy_pass L hierarchy st = Inr (TPM_RC_SUCCESS, True, st') \<and>
    nv_inv L st' (us @ vs) (ram_of (us @ vs) rs) (s_maxCounter st') \<and> g_NvStatus st' = TPM_RC_SUCCESS \<and>
    s_maxCounter st \<le> s_maxCounter st' \<and> (written_counter p \<longrightarrow> nv_count p \<le> s_maxCounter st') \<and>
    (\<not> marked_written p \<longrightarrow> s_maxCounter st' = s_maxCounter st)"
proof -
  let ?body = "\<lambda>currentAddr entityHandle iter (_ :: TPM_RC, _ :: bool, st).
      bindE (NvFlushHierarchy_entry L hierarchy currentAddr entityHandle st) (\<lambda>(result, deleted, st).
      Inr (result \<noteq> TPM_RC_SUCCESS \<or> deleted, iter, (result, deleted, st)))"
  let ?view = "\<lambda>(_ :: TPM_RC, _ :: bool, st :: nv_state). st"
  let ?\<sigma> = "(TPM_RC_SUCCESS, False, st)"
  note l = nv_inv_listD(1) [OF i]
  obtain st' where e: "NvFlushHierarchy_entry L hierarchy (nv_pos L us + 4) (entry_handle p) st = Inr (TPM_RC_SUCCESS, True, st')"
    and r: "nv_inv L st' (us @ vs) (ram_of (us @ vs) rs) (s_maxCounter st')" "g_NvStatus st' = TPM_RC_SUCCESS"
      "s_maxCounter st \<le> s_maxCounter st'" "written_counter p \<longrightarrow> nv_count p \<le> s_maxCounter st'"
      "\<not> marked_written p \<longrightarrow> s_maxCounter st' = s_maxCounter st"
    using flush_entry_delete [OF i ok f(2)] by blast
  have "scan_while NV_FUEL (\<lambda>\<sigma>. NvNext L (?view \<sigma>)) ?body NV_REF_INIT ?\<sigma> =
      scan_while NV_FUEL (\<lambda>\<sigma>. NvNext L (?view \<sigma>)) ?body (nv_pos L []) ?\<sigma>"
    by (rule scan_while_start) (use nv.nxt_start [OF nv_goodI [OF l]] in simp)
  also have "\<dots> = Inr (Some (nv_pos L ([] @ us) + 4), nv_pos L (us @ [p]), (TPM_RC_SUCCESS, True, st'))"
  proof (rule nv.scan_until [where z = p and vs = vs])
    show "?body (nv_pos L ([] @ as) + 4) (entry_handle u) (nv_pos L ([] @ as @ [u])) ?\<sigma> =
        Inr (False, nv_pos L ([] @ as @ [u]), ?\<sigma>)" if "us = as @ u # bs" for as u bs
      using flush_entry_keep [of L st as u "bs @ p # vs" rs mc hierarchy] i f(1) that by simp
  qed (use e nv_goodI [OF l] nv_list_count [OF l] in simp_all)
  finally show ?thesis using r unfolding NvFlushHierarchy_pass_def by (auto simp: case_prod_unfold)
qed

lemma NvFlushHierarchy_loop_ok:
  "nv_inv L st ps rs (s_maxCounter st) \<Longrightarrow> g_NvStatus st = TPM_RC_SUCCESS \<Longrightarrow> length ps < fuel \<Longrightarrow>
   \<exists>st'. NvFlushHierarchy_loop fuel L hierarchy st = Inr (TPM_RC_SUCCESS, st') \<and>
     nv_inv L st' (filter (\<lambda>p. \<not> flushed hierarchy p) ps) (ram_of (filter (\<lambda>p. \<not> flushed hierarchy p) ps) rs) (s_maxCounter st') \<and>
     s_maxCounter st \<le> s_maxCounter st' \<and> g_NvStatus st' = TPM_RC_SUCCESS \<and>
     (\<forall>p \<in> set ps. flushed hierarchy p \<and> written_counter p \<longrightarrow> nv_count p \<le> s_maxCounter st') \<and>
     ((\<forall>p \<in> set ps. flushed hierarchy p \<longrightarrow> \<not> marked_written p) \<longrightarrow> s_maxCounter st' = s_maxCounter st)"
proof (induction fuel arbitrary: st ps rs)
  case (Suc fuel)
  show ?case
  proof (cases rule: list_split_first [of ps "flushed hierarchy"])
    case 1
    moreover from this have "filter (\<lambda>p. \<not> flushed hierarchy p) ps = ps" by (simp add: filter_id_conv)
    ultimately show ?thesis using Suc.prems flush_pass_none [OF Suc.prems(1)] nv_inv_ram_of [OF Suc.prems(1)] by simp
  next
    case (2 us p vs)
    obtain st1 where p: "NvFlushHierarchy_pass L hierarchy st = Inr (TPM_RC_SUCCESS, True, st1)"
      and i1: "nv_inv L st1 (us @ vs) (ram_of (us @ vs) rs) (s_maxCounter st1)" "g_NvStatus st1 = TPM_RC_SUCCESS"
      and m1: "s_maxCounter st \<le> s_maxCounter st1" "written_counter p \<longrightarrow> nv_count p \<le> s_maxCounter st1"
        "\<not> marked_written p \<longrightarrow> s_maxCounter st1 = s_maxCounter st"
      using flush_pass_first [of L st us p vs rs] 2 Suc.prems by blast
    let ?k = "filter (\<lambda>p. \<not> flushed hierarchy p) (us @ vs)"
    have k: "filter (\<lambda>p. \<not> flushed hierarchy p) ps = ?k" using 2 by simp
    have rr: "ram_of ?k (ram_of (us @ vs) rs) = ram_of ?k rs" by (rule ram_of_ram_of) auto
    obtain st' where "NvFlushHierarchy_loop fuel L hierarchy st1 = Inr (TPM_RC_SUCCESS, st')"
      and "nv_inv L st' ?k (ram_of ?k rs) (s_maxCounter st')" "g_NvStatus st' = TPM_RC_SUCCESS" and m: "s_maxCounter st1 \<le> s_maxCounter st'"
      and c: "\<forall>p \<in> set (us @ vs). flushed hierarchy p \<and> written_counter p \<longrightarrow> nv_count p \<le> s_maxCounter st'"
      and c': "(\<forall>p \<in> set (us @ vs). flushed hierarchy p \<longrightarrow> \<not> marked_written p) \<longrightarrow> s_maxCounter st' = s_maxCounter st1"
      using Suc.IH [OF i1] Suc.prems(3) 2(1) unfolding rr by auto
    moreover have "s_maxCounter st \<le> s_maxCounter st'" using m1(1) m by (rule order_trans)
    moreover have "written_counter p \<longrightarrow> nv_count p \<le> s_maxCounter st'" using m1(2) m by (blast intro: order_trans)
    moreover have "(\<forall>q \<in> set ps. flushed hierarchy q \<longrightarrow> \<not> marked_written q) \<longrightarrow> s_maxCounter st' = s_maxCounter st"
      using c' m1(3) 2 by auto
    ultimately show ?thesis using p 2(1) unfolding k by auto
  qed
qed simp

lemma NvFlushHierarchy_ok:
  fixes hierarchy :: TPM_HANDLE
  assumes i: "nv_inv L st ps rs (s_maxCounter st)" and ok: "g_NvStatus st = TPM_RC_SUCCESS"
  defines "keep \<equiv> filter (\<lambda>p. \<not> flushed hierarchy p) ps"
  shows "\<exists>st'. NvFlushHierarchy L hierarchy st = Inr (TPM_RC_SUCCESS, st') \<and>
    nv_inv L st' keep (ram_of keep rs) (s_maxCounter st') \<and> s_maxCounter st \<le> s_maxCounter st' \<and>
    g_NvStatus st' = TPM_RC_SUCCESS \<and>
    (\<forall>p \<in> set ps. flushed hierarchy p \<and> written_counter p \<longrightarrow> nv_count p \<le> s_maxCounter st') \<and>
    ((\<forall>p \<in> set ps. flushed hierarchy p \<longrightarrow> \<not> marked_written p) \<longrightarrow> s_maxCounter st' = s_maxCounter st)"
  unfolding NvFlushHierarchy_def keep_def
  by (rule NvFlushHierarchy_loop_ok [OF i ok nv_list_count [OF nv_inv_listD(1) [OF i]]])

end
