(* ===== verification/FTPM_NVData.thy ===== *)
theory FTPM_NVData
  imports FTPM_NVSpec
begin

text \<open>
  Reading and writing inside the entries: attributes, index data, locks and the attribute
  changes of a startup; the lists of handles reported as capabilities.
\<close>

section \<open>Writing inside an entry\<close>

lemma mem_put_same:
  assumes "mem_get m a (length d) = d" shows "mem_put m a d = m"
proof
  fix x
  have "d ! (x - a) = m x" if "a \<le> x" "x < a + length d"
    using nth_mem_get [of "x - a" "length d" m a] assms that by simp
  then show "mem_put m a d x = m x" by (auto simp: mem_put_def)
qed

lemma holds_at_put_between:
  assumes "holds_at m a (xs @ ys @ zs)" "k + length d \<le> length ys" "b = a + length xs + k"
  shows "holds_at (mem_put m b d) a (xs @ bytes_put k d ys @ zs)"
  using assms holds_at_put_inside [of m "a + length xs" ys k d]
  by (simp add: holds_at_append holds_at_put_other add.assoc)

lemma entry_bytes_put:
  "k + length d \<le> length y \<Longrightarrow> bytes_put (4 + k) d (entry_bytes y) = entry_bytes (bytes_put k d y)"
  by (simp add: entry_bytes_def) (simp add: bytes_put_def)

lemma nv_list_put:
  assumes l: "nv_list L st (xs @ y # ys) mc" and k: "k + length d \<le> length y"
    and st': "s_NV st' = mem_put (s_NV st) (nv_pos L xs + 4 + k) d" "s_evictNvEnd st' = s_evictNvEnd st"
  shows "nv_list L st' (xs @ bytes_put k d y # ys) mc"
proof -
  have "holds_at (s_NV st') (NV_USER_DYNAMIC L)
      (list_bytes xs @ bytes_put (4 + k) d (entry_bytes y) @ list_bytes ys @ terminator mc)"
    unfolding st' by (rule holds_at_put_between) (use l k in \<open>simp_all add: nv_list_def nv_pos_def\<close>)
  then show ?thesis using l k st' by (simp add: nv_list_def nv_pos_def entry_bytes_put)
qed

lemma NvConditionallyWrite_ok:
  assumes l: "nv_list L st (xs @ y # ys) mc" and k: "k + length d \<le> length y" and ok: "g_NvStatus st = TPM_RC_SUCCESS"
  shows "\<exists>st'. NvConditionallyWrite (nv_pos L xs + 4 + k) d st = Inr (TPM_RC_SUCCESS, st') \<and>
    nv_list L st' (xs @ bytes_put k d y # ys) mc \<and>
    st' = st\<lparr>s_NV := mem_put (s_NV st) (nv_pos L xs + 4 + k) d, g_updateNV := g_updateNV st'\<rparr>"
proof (cases "mem_get (s_NV st) (nv_pos L xs + 4 + k) (length d) = d")
  case True
  then have "NvConditionallyWrite (nv_pos L xs + 4 + k) d st = Inr (TPM_RC_SUCCESS, st)"
    using nv_list_at(3) [OF l] k by (simp add: NvConditionallyWrite_def plat_NvGetChangedStatus_def)
  moreover have "st = st\<lparr>s_NV := mem_put (s_NV st) (nv_pos L xs + 4 + k) d, g_updateNV := g_updateNV st\<rparr>"
    using mem_put_same [OF True] by simp
  ultimately show ?thesis using nv_list_put [OF l k, of st] mem_put_same [OF True] by auto
next
  case False
  let ?st = "st\<lparr>g_updateNV := g_updateNV st OR UT_NV, s_NV := mem_put (s_NV st) (nv_pos L xs + 4 + k) d\<rparr>"
  have "NvConditionallyWrite (nv_pos L xs + 4 + k) d st = Inr (TPM_RC_SUCCESS, ?st)"
    using nv_list_at(3) [OF l] k False ok
    by (simp add: NvConditionallyWrite_def plat_NvGetChangedStatus_def NvWrite_ok)
  then show ?thesis using nv_list_put [OF l k, of ?st] by auto
qed

text \<open>When NV cannot be written, a write that would change something is refused.\<close>

lemma NvConditionallyWrite_unavailable:
  assumes l: "nv_list L st (xs @ y # ys) mc" and k: "k + length d \<le> length y" and no: "g_NvStatus st \<noteq> TPM_RC_SUCCESS"
  shows "NvConditionallyWrite (nv_pos L xs + 4 + k) d st =
    Inr (if take (length d) (drop k y) = d then TPM_RC_SUCCESS else g_NvStatus st, st)"
proof -
  have "mem_get (s_NV st) (nv_pos L xs + 4 + k) (length d) = take (length d) (drop k y)"
    by (rule holds_at_take_drop [OF nv_list_at(2) [OF l] k])
  then show ?thesis using nv_list_at(3) [OF l] k no
    by (simp add: NvConditionallyWrite_def plat_NvGetChangedStatus_def)
qed

definition set_attributes :: "UINT32 \<Rightarrow> BYTE list \<Rightarrow> BYTE list" where
  "set_attributes a p = bytes_put 8 (le_bytes 4 (unat a)) p"

lemma nth_bytes_put:
  "k + length d \<le> length y \<Longrightarrow> i < length y \<Longrightarrow>
   bytes_put k d y ! i = (if k \<le> i \<and> i < k + length d then d ! (i - k) else y ! i)"
  by (auto simp: bytes_put_def nth_append)

lemma take_drop_bytes_put:
  assumes "k + length d \<le> length y"
  shows "take (length d) (drop k (bytes_put k d y)) = d"
    "m + n \<le> k \<Longrightarrow> take n (drop m (bytes_put k d y)) = take n (drop m y)"
    "k + length d \<le> m \<Longrightarrow> drop m (bytes_put k d y) = drop m y"
proof -
  show "take (length d) (drop k (bytes_put k d y)) = d"
    using assms by (simp add: bytes_put_def)
  show "take n (drop m (bytes_put k d y)) = take n (drop m y)" if "m + n \<le> k"
    by (rule nth_equalityI) (use assms that in \<open>simp_all add: nth_bytes_put\<close>)
  show "drop m (bytes_put k d y) = drop m y" if "k + length d \<le> m"
    by (rule nth_equalityI) (use assms that in \<open>simp_all add: nth_bytes_put\<close>)
qed

lemma set_attributes_fields:
  assumes "12 \<le> length p"
  shows "length (set_attributes a p) = length p" "entry_handle (set_attributes a p) = entry_handle p"
    "entry_attributes (set_attributes a p) = a" "entry_dataSize (set_attributes a p) = entry_dataSize p"
    "is_index (set_attributes a p) = is_index p" "is_persistent (set_attributes a p) = is_persistent p"
proof -
  show h: "entry_handle (set_attributes a p) = entry_handle p"
    using take_drop_bytes_put(2) [of 8 "le_bytes 4 (unat a)" p 0 4] assms by (simp add: entry_handle_def set_attributes_def)
  show "entry_attributes (set_attributes a p) = a"
    using take_drop_bytes_put(1) [of 8 "le_bytes 4 (unat a)" p] assms
    by (simp add: entry_attributes_def set_attributes_def le_nat_le_bytes_word)
  show "entry_dataSize (set_attributes a p) = entry_dataSize p"
    using take_drop_bytes_put(3) [of 8 "le_bytes 4 (unat a)" p 78] assms by (simp add: entry_dataSize_def set_attributes_def)
qed (use assms take_drop_bytes_put(2) [of 8 "le_bytes 4 (unat a)" p 0 4] in
  \<open>simp_all add: set_attributes_def is_index_def is_persistent_def entry_handle_def\<close>)

lemma NvWriteNvIndexAttributes_ok:
  assumes l: "nv_list L st (xs @ y # ys) mc" and k: "12 \<le> length y" and ok: "g_NvStatus st = TPM_RC_SUCCESS"
  shows "\<exists>st'. NvWriteNvIndexAttributes (nv_pos L xs + 4) a st = Inr (TPM_RC_SUCCESS, st') \<and>
    nv_list L st' (xs @ set_attributes a y # ys) mc \<and>
    st' = st\<lparr>s_NV := mem_put (s_NV st) (nv_pos L xs + 4 + 8) (le_bytes 4 (unat a)), g_updateNV := g_updateNV st'\<rparr>"
  using NvConditionallyWrite_ok [OF l, of 8 "le_bytes 4 (unat a)"] k ok nv_list_at(3) [OF l]
  by (simp add: NvWriteNvIndexAttributes_def set_attributes_def)

section \<open>Rewriting every entry\<close>

text \<open>
  A loop over all indices whose body replaces each entry \<open>y\<close> by \<open>f y\<close> and keeps \<open>J\<close>.
\<close>

lemma nv_rewrite_scan:
  assumes l: "nv_list L (view \<sigma>) ps mc" and J: "J \<sigma>"
    and f: "\<And>y. y \<in> set ps \<Longrightarrow> is_index y \<Longrightarrow> length (f y) = length y" "\<And>y. y \<in> set ps \<Longrightarrow> \<not> is_index y \<Longrightarrow> f y = y"
    and step: "\<And>xs y ys \<tau>. nv_list L (view \<tau>) (xs @ y # ys) mc \<Longrightarrow> y \<in> set ps \<Longrightarrow> is_index y \<Longrightarrow> J \<tau> \<Longrightarrow>
      \<exists>\<tau>'. body (nv_pos L xs + 4) (entry_handle y) (nv_pos L (xs @ [y])) \<tau> = Inr (False, nv_pos L (xs @ [y]), \<tau>') \<and>
        nv_list L (view \<tau>') (xs @ f y # ys) mc \<and> J \<tau>'"
  shows "\<exists>i \<sigma>'. scan_while NV_FUEL (\<lambda>\<sigma>. NvNextByType L TPM_HT_NV_INDEX (view \<sigma>)) body NV_REF_INIT \<sigma> = Inr (None, i, \<sigma>') \<and>
    nv_list L (view \<sigma>') (map f ps) mc \<and> J \<sigma>'"
proof -
  let ?I = "\<lambda>xs ys \<tau>. nv_list L (view \<tau>) (xs @ ys) mc \<and> J \<tau> \<and> (\<exists>us. us @ ys = ps \<and> xs = map f us)"
  have "\<exists>zs \<sigma>'. scan_while NV_FUEL (\<lambda>\<sigma>. typed_next NV_FUEL (\<lambda>h. HandleGetType h = TPM_HT_NV_INDEX) (NvNext L) (view \<sigma>))
      body NV_REF_INIT \<sigma> = Inr (None, nv_pos L zs, \<sigma>') \<and> ?I zs [] \<sigma>'"
  proof (rule nv.typed_inv_start [where ys = ps])
    fix xs y ys \<tau>
    assume I: "?I xs (y # ys) \<tau>"
    then obtain us where us: "us @ y # ys = ps" "xs = map f us" by blast
    then have y: "y \<in> set ps" by auto
    show "?I (xs @ [y]) ys \<tau>" if "HandleGetType (entry_handle y) \<noteq> TPM_HT_NV_INDEX"
      using I us f(2) [OF y] that by (auto simp: is_index_def intro!: exI [of _ "us @ [y]"])
    show "\<exists>y' \<tau>'. body (nv_pos L xs + 4) (entry_handle y) (nv_pos L (xs @ [y])) \<tau> =
        Inr (False, nv_pos L (xs @ [y']), \<tau>') \<and> ?I (xs @ [y']) ys \<tau>'"
      if t: "HandleGetType (entry_handle y) = TPM_HT_NV_INDEX"
    proof -
      obtain \<tau>' where "body (nv_pos L xs + 4) (entry_handle y) (nv_pos L (xs @ [y])) \<tau> = Inr (False, nv_pos L (xs @ [y]), \<tau>')"
        "nv_list L (view \<tau>') (xs @ f y # ys) mc" "J \<tau>'"
        using step [of \<tau> xs y ys] I y t by (auto simp: is_index_def)
      then show ?thesis using us f(1) [OF y] t
        by (intro exI [of _ "f y"] exI [of _ \<tau>']) (auto simp: is_index_def intro!: exI [of _ "us @ [y]"])
    qed
  qed (use l J in \<open>auto simp: nv_goodI nv_list_count\<close>)
  then show ?thesis by (auto simp: NvNextByType_typed_next)
qed

lemma ram_rewrite_scan:
  assumes l: "ram_list (view \<sigma>) rs" and J: "J \<sigma>" and f: "\<And>r. r \<in> set rs \<Longrightarrow> length (f r) = length r"
    and step: "\<And>xs y ys \<tau>. ram_list (view \<tau>) (xs @ y # ys) \<Longrightarrow> y \<in> set rs \<Longrightarrow> J \<tau> \<Longrightarrow>
      \<exists>\<tau>'. body (ram_end xs) (entry_handle y) (Some (ram_end (xs @ [y]))) \<tau> = Inr (False, Some (ram_end (xs @ [y])), \<tau>') \<and>
        ram_list (view \<tau>') (xs @ f y # ys) \<and> J \<tau>'"
  shows "\<exists>i \<sigma>'. scan_while RAM_FUEL (\<lambda>\<sigma>. NvRamNext (view \<sigma>)) body None \<sigma> = Inr (None, i, \<sigma>') \<and>
    ram_list (view \<sigma>') (map f rs) \<and> J \<sigma>'"
proof -
  let ?I = "\<lambda>xs ys \<tau>. ram_list (view \<tau>) (xs @ ys) \<and> J \<tau> \<and> (\<exists>us. us @ ys = rs \<and> xs = map f us)"
  have "\<exists>zs \<sigma>'. scan_while RAM_FUEL (\<lambda>\<sigma>. NvRamNext (view \<sigma>)) body None \<sigma> = Inr (None, Some (ram_end zs), \<sigma>') \<and> ?I zs [] \<sigma>'"
  proof (rule ram.scan_inv_start [where ys = rs])
    fix xs y ys \<tau>
    assume I: "?I xs (y # ys) \<tau>"
    then obtain us where us: "us @ y # ys = rs" "xs = map f us" by blast
    then have y: "y \<in> set rs" by auto
    obtain \<tau>' where "body (ram_end xs) (entry_handle y) (Some (ram_end (xs @ [y]))) \<tau> = Inr (False, Some (ram_end (xs @ [y])), \<tau>')"
      "ram_list (view \<tau>') (xs @ f y # ys)" "J \<tau>'" using step [of \<tau> xs y ys] I y by auto
    then show "\<exists>y' \<tau>'. body (ram_end xs) (entry_handle y) (Some (ram_end (xs @ [y]))) \<tau> =
        Inr (False, Some (ram_end (xs @ [y'])), \<tau>') \<and> ?I (xs @ [y']) ys \<tau>'"
      using us f [OF y] by (intro exI [of _ "f y"] exI [of _ \<tau>']) (auto intro!: exI [of _ "us @ [y]"])
  qed (use l J ram_list_count [OF l] in auto)
  then show ?thesis by auto
qed

text \<open>Writing inside an entry of the RAM.\<close>

lemma ram_list_put:
  assumes l: "ram_list st (xs @ y # ys)" and k: "k + length d \<le> length y"
    and st': "s_indexOrderlyRam st' = mem_put (s_indexOrderlyRam st) (ram_end xs + 4 + k) d"
  shows "ram_list st' (xs @ bytes_put k d y # ys)"
proof -
  have "holds_at (s_indexOrderlyRam st') 0 (list_bytes xs @ bytes_put (4 + k) d (entry_bytes y) @ list_bytes ys)"
    unfolding st' by (rule holds_at_put_between) (use l k in \<open>simp_all add: ram_list_def\<close>)
  moreover have "holds_at (s_indexOrderlyRam st') (ram_end (xs @ y # ys)) (replicate 4 0) \<longleftrightarrow>
      holds_at (s_indexOrderlyRam st) (ram_end (xs @ y # ys)) (replicate 4 0)"
    unfolding st' by (rule holds_at_put_other) (use k in simp)
  ultimately show ?thesis using l k unfolding ram_list_def by (simp add: entry_bytes_put)
qed

definition set_ram_attributes :: "UINT32 \<Rightarrow> BYTE list \<Rightarrow> BYTE list" where
  "set_ram_attributes a r = bytes_put 4 (le_bytes 4 (unat a)) r"

lemma set_ram_attributes_fields:
  assumes "8 \<le> length r"
  shows "length (set_ram_attributes a r) = length r" "entry_handle (set_ram_attributes a r) = entry_handle r"
    "ram_attributes (set_ram_attributes a r) = a" "drop 8 (set_ram_attributes a r) = drop 8 r"
  using assms take_drop_bytes_put(2) [of 4 "le_bytes 4 (unat a)" r 0 4] take_drop_bytes_put(1) [of 4 "le_bytes 4 (unat a)" r]
    take_drop_bytes_put(3) [of 4 "le_bytes 4 (unat a)" r 8]
  by (simp_all add: set_ram_attributes_def entry_handle_def ram_attributes_def le_nat_le_bytes_word)

lemma NvReadRamIndexAttributes_ok:
  assumes "ram_list st (xs @ y # ys)"
  shows "NvReadRamIndexAttributes (Some (ram_end xs)) st = Inr (ram_attributes y)"
  using ram_list_at [OF assms] holds_at_take_drop [OF ram_list_at(2) [OF assms], of 4 4]
  by (simp add: NvReadRamIndexAttributes_def ram_attributes_def add.commute)

lemma NvWriteRamIndexAttributes_ok:
  assumes "ram_list st (xs @ y # ys)"
  shows "\<exists>st'. NvWriteRamIndexAttributes (Some (ram_end xs)) a st = Inr st' \<and> ram_list st' (xs @ set_ram_attributes a y # ys) \<and>
    st' = st\<lparr>s_indexOrderlyRam := s_indexOrderlyRam st'\<rparr>"
  using ram_list_at [OF assms] ram_list_put [OF assms, of 4 "le_bytes 4 (unat a)"]
  by (simp add: NvWriteRamIndexAttributes_def set_ram_attributes_def add.commute)

lemma ram_put_ok:
  assumes "ram_list st (xs @ y # ys)" "k + length d \<le> length y"
  shows "\<exists>st'. ram_put (Some (ram_end xs)) (4 + k) d st = Inr st' \<and> ram_list st' (xs @ bytes_put k d y # ys) \<and>
    st' = st\<lparr>s_indexOrderlyRam := s_indexOrderlyRam st'\<rparr>"
  using ram_list_at [OF assms(1)] assms(2) ram_list_put [OF assms]
  by (simp add: ram_put_def add.assoc)

section \<open>Startup\<close>

lemma GET_TPM_NT_alt: "GET_TPM_NT a = take_bit 4 (drop_bit 4 a)"
proof -
  have "(15 :: 32 word) = mask 4" by (simp add: mask_eq_exp_minus_1)
  then show ?thesis by (simp add: GET_TPM_NT_def take_bit_eq_mask)
qed

lemma GET_TPM_NT_high_bits [simp]:
  "8 \<le> n \<Longrightarrow> GET_TPM_NT (unset_bit n a) = GET_TPM_NT a"
  "8 \<le> n \<Longrightarrow> GET_TPM_NT (set_bit n a) = GET_TPM_NT a"
  by (auto simp: GET_TPM_NT_alt bit_take_bit_iff bit_drop_bit_eq bit_unset_bit_iff bit_set_bit_iff intro!: bit_eqI)

lemma NvSetStartupAttributes_bits:
  "bit (NvSetStartupAttributes a type) NV_ORDERLY \<longleftrightarrow> bit a NV_ORDERLY"
  "GET_TPM_NT (NvSetStartupAttributes a type) = GET_TPM_NT a"
  "\<not> bit (NvSetStartupAttributes a type) NV_READLOCKED"
  "bit (NvSetStartupAttributes a type) NV_WRITELOCKED \<longleftrightarrow>
     bit a NV_WRITELOCKED \<and> bit (NvSetStartupAttributes a type) NV_WRITTEN \<and> bit a NV_WRITEDEFINE"
  "bit (NvSetStartupAttributes a type) NV_WRITTEN \<longleftrightarrow>
     bit a NV_WRITTEN \<and> (IsNvCounterIndex a \<or> \<not> bit a NV_CLEAR_STCLEAR \<and> \<not> (bit a NV_ORDERLY \<and> type = SU_RESET))"
  "bit (NvSetStartupAttributes a type) NV_WRITEDEFINE \<longleftrightarrow> bit a NV_WRITEDEFINE"
  by (auto simp: NvSetStartupAttributes_def Let_def bit_unset_bit_iff IsNvCounterIndex_def)

definition startup_entry :: "STARTUP_TYPE \<Rightarrow> BYTE list \<Rightarrow> BYTE list" where
  "startup_entry type p =
     (if is_index p \<and> \<not> entry_orderly p then set_attributes (NvSetStartupAttributes (entry_attributes p) type) p else p)"

definition startup_ram :: "STARTUP_TYPE \<Rightarrow> UINT16 \<Rightarrow> BYTE list \<Rightarrow> BYTE list" where
  "startup_ram type prev r =
     (let r' = set_ram_attributes (NvSetStartupAttributes (ram_attributes r) type) r; c = take 8 (drop 8 r) in
      if IsNvCounterIndex (ram_attributes r) \<and> prev = SU_NONE_VALUE
      then bytes_put 8 (Uint64ToByteArray (ByteArrayToUint64 c OR MAX_ORDERLY_COUNT) c) r' else r')"

lemma NvEntityStartup_nv_ok:
  assumes l: "nv_list L st ps mc" and ok: "g_NvStatus st = TPM_RC_SUCCESS" and len: "\<forall>p \<in> set ps. is_index p \<longrightarrow> 12 \<le> length p"
  shows "\<exists>st'. NvEntityStartup_nv L type st = Inr st' \<and> nv_list L st' (map (startup_entry type) ps) mc \<and>
    st' = st\<lparr>s_NV := s_NV st', g_updateNV := g_updateNV st'\<rparr>"
proof -
  let ?J = "\<lambda>\<tau>. \<tau> = st\<lparr>s_NV := s_NV \<tau>, g_updateNV := g_updateNV \<tau>\<rparr>"
  let ?body = "\<lambda>currentAddr h iter st. bindE (NvReadNvIndexAttributes currentAddr st) (\<lambda>attributes.
      if bit attributes NV_ORDERLY then Inr (False, iter, st)
      else bindE (NvWriteNvIndexAttributes currentAddr (NvSetStartupAttributes attributes type) st)
             (\<lambda>(_, st). Inr (False, iter, st)))"
  have "\<exists>i \<sigma>'. scan_while NV_FUEL (\<lambda>\<sigma>. NvNextByType L TPM_HT_NV_INDEX \<sigma>) ?body NV_REF_INIT st = Inr (None, i, \<sigma>') \<and>
      nv_list L \<sigma>' (map (startup_entry type) ps) mc \<and> ?J \<sigma>'"
  proof (rule nv_rewrite_scan [where view = "\<lambda>\<sigma>. \<sigma>"])
    fix xs y ys \<tau>
    assume l': "nv_list L \<tau> (xs @ y # ys) mc" and y: "y \<in> set ps" "is_index y" and J: "?J \<tau>"
    have n: "12 \<le> length y" and s: "g_NvStatus \<tau> = TPM_RC_SUCCESS" using len y ok by (auto, subst J, simp)
    show "\<exists>\<tau>'. ?body (nv_pos L xs + 4) (entry_handle y) (nv_pos L (xs @ [y])) \<tau> = Inr (False, nv_pos L (xs @ [y]), \<tau>') \<and>
        nv_list L \<tau>' (xs @ startup_entry type y # ys) mc \<and> ?J \<tau>'"
    proof (cases "entry_orderly y")
      case True
      then show ?thesis using l' y J NvReadNvIndexAttributes_ok [OF l' n]
        by (intro exI [of _ \<tau>]) (simp add: startup_entry_def entry_orderly_def)
    next
      case False
      then have "\<not> bit (entry_attributes y) NV_ORDERLY" using y by (simp add: entry_orderly_def)
      moreover obtain \<tau>' where w: "NvWriteNvIndexAttributes (nv_pos L xs + 4) (NvSetStartupAttributes (entry_attributes y) type) \<tau> = Inr (TPM_RC_SUCCESS, \<tau>')"
        "nv_list L \<tau>' (xs @ startup_entry type y # ys) mc"
        and fr: "\<tau>' = \<tau>\<lparr>s_NV := mem_put (s_NV \<tau>) (nv_pos L xs + 4 + 8) (le_bytes 4 (unat (NvSetStartupAttributes (entry_attributes y) type))), g_updateNV := g_updateNV \<tau>'\<rparr>"
        using NvWriteNvIndexAttributes_ok [OF l' n s, of "NvSetStartupAttributes (entry_attributes y) type"] False y
        by (auto simp: startup_entry_def)
      moreover have "?J \<tau>'" by (subst fr, subst J, subst (2) fr) simp
      ultimately show ?thesis using NvReadNvIndexAttributes_ok [OF l' n] by (intro exI [of _ \<tau>']) simp
    qed
  qed (use l len in \<open>auto simp: startup_entry_def set_attributes_fields\<close>)
  then show ?thesis by (auto simp: NvEntityStartup_nv_def)
qed

lemma startup_ram_step:
  fixes type :: STARTUP_TYPE
  assumes l: "ram_list st (xs @ y # ys)" and c: "IsNvCounterIndex (ram_attributes y) \<longrightarrow> 16 \<le> length y"
  defines "a \<equiv> NvSetStartupAttributes (ram_attributes y) type"
  shows "\<exists>st'. bindE (NvWriteRamIndexAttributes (Some (ram_end xs)) a st) (\<lambda>st.
      if IsNvCounterIndex a \<and> prev = SU_NONE_VALUE
      then bindE (ram_get (Some (ram_end xs)) SIZEOF_NV_RAM_HEADER 8 st) (\<lambda>bs.
           bindE (ram_put (Some (ram_end xs)) SIZEOF_NV_RAM_HEADER
                    (Uint64ToByteArray (ByteArrayToUint64 bs OR MAX_ORDERLY_COUNT) bs) st) (\<lambda>st.
           Inr (False, i, st)))
      else Inr (False, i, st)) = Inr (False, i, st') \<and>
    ram_list st' (xs @ startup_ram type prev y # ys) \<and> st' = st\<lparr>s_indexOrderlyRam := s_indexOrderlyRam st'\<rparr>"
proof -
  have len: "8 \<le> length y" using ram_list_at [OF l] by simp
  note f = set_ram_attributes_fields [OF len, of a]
  have ca: "IsNvCounterIndex a \<longleftrightarrow> IsNvCounterIndex (ram_attributes y)"
    by (rule IsNvCounterIndex_cong) (simp add: a_def NvSetStartupAttributes_bits)
  obtain st1 where w: "NvWriteRamIndexAttributes (Some (ram_end xs)) a st = Inr st1"
    and l1: "ram_list st1 (xs @ set_ram_attributes a y # ys)" and fr1: "st1 = st\<lparr>s_indexOrderlyRam := s_indexOrderlyRam st1\<rparr>"
    using NvWriteRamIndexAttributes_ok [OF l] by blast
  show ?thesis
  proof (cases "IsNvCounterIndex a \<and> prev = SU_NONE_VALUE")
    case True
    then have n: "16 \<le> length (set_ram_attributes a y)" using c ca f by simp
    have g: "ram_get (Some (ram_end xs)) SIZEOF_NV_RAM_HEADER 8 st1 = Inr (take 8 (drop 8 y))"
      using ram_read_payload [OF l1, of 8 8] n f by simp
    let ?d = "Uint64ToByteArray (ByteArrayToUint64 (take 8 (drop 8 y)) OR MAX_ORDERLY_COUNT) (take 8 (drop 8 y))"
    have "length ?d = 8" using n f by simp
    then obtain st2 where "ram_put (Some (ram_end xs)) SIZEOF_NV_RAM_HEADER ?d st1 = Inr st2"
      "ram_list st2 (xs @ bytes_put 8 ?d (set_ram_attributes a y) # ys)"
      and fr2: "st2 = st1\<lparr>s_indexOrderlyRam := s_indexOrderlyRam st2\<rparr>"
      using ram_put_ok [OF l1, of 8 ?d] n by auto
    moreover have "st2 = st\<lparr>s_indexOrderlyRam := s_indexOrderlyRam st2\<rparr>"
      by (subst fr2, subst fr1) simp
    ultimately show ?thesis using True w g ca by (auto simp: startup_ram_def Let_def a_def)
  next
    case False
    then show ?thesis using w l1 fr1 ca by (auto simp: startup_ram_def Let_def a_def)
  qed
qed

lemma length_startup_ram:
  "8 \<le> length r \<Longrightarrow> (IsNvCounterIndex (ram_attributes r) \<longrightarrow> 16 \<le> length r) \<Longrightarrow> length (startup_ram type prev r) = length r"
  by (simp add: startup_ram_def Let_def set_ram_attributes_fields)

lemma NvEntityStartup_ram_ok:
  assumes l: "ram_list st rs" and c: "\<forall>r \<in> set rs. IsNvCounterIndex (ram_attributes r) \<longrightarrow> 16 \<le> length r"
  shows "\<exists>st'. NvEntityStartup_ram type prev st = Inr st' \<and> ram_list st' (map (startup_ram type prev) rs) \<and>
    st' = st\<lparr>s_indexOrderlyRam := s_indexOrderlyRam st'\<rparr>"
proof -
  let ?J = "\<lambda>\<tau>. \<tau> = st\<lparr>s_indexOrderlyRam := s_indexOrderlyRam \<tau>\<rparr>"
  let ?body = "\<lambda>currentRamAddr (_ :: TPM_HANDLE) ramIter st.
      bindE (NvReadRamIndexAttributes (Some currentRamAddr) st) (\<lambda>attributes.
      let attributes = NvSetStartupAttributes attributes type in
      bindE (NvWriteRamIndexAttributes (Some currentRamAddr) attributes st) (\<lambda>st.
      if IsNvCounterIndex attributes \<and> prev = SU_NONE_VALUE
      then bindE (ram_get (Some currentRamAddr) SIZEOF_NV_RAM_HEADER 8 st) (\<lambda>bs.
           bindE (ram_put (Some currentRamAddr) SIZEOF_NV_RAM_HEADER
                    (Uint64ToByteArray (ByteArrayToUint64 bs OR MAX_ORDERLY_COUNT) bs) st) (\<lambda>st.
           Inr (False, ramIter, st)))
      else Inr (False, ramIter, st)))"
  have "\<exists>i \<sigma>'. scan_while RAM_FUEL (\<lambda>\<sigma>. NvRamNext \<sigma>) ?body None st = Inr (None, i, \<sigma>') \<and>
      ram_list \<sigma>' (map (startup_ram type prev) rs) \<and> ?J \<sigma>'"
  proof (rule ram_rewrite_scan [where view = "\<lambda>\<sigma>. \<sigma>"])
    fix xs y ys \<tau>
    assume l': "ram_list \<tau> (xs @ y # ys)" and y: "y \<in> set rs" and J: "?J \<tau>"
    obtain \<tau>' where "?body (ram_end xs) (entry_handle y) (Some (ram_end (xs @ [y]))) \<tau> = Inr (False, Some (ram_end (xs @ [y])), \<tau>')"
      and "ram_list \<tau>' (xs @ startup_ram type prev y # ys)" and fr: "\<tau>' = \<tau>\<lparr>s_indexOrderlyRam := s_indexOrderlyRam \<tau>'\<rparr>"
      using startup_ram_step [OF l', of type prev "Some (ram_end (xs @ [y]))"] c y NvReadRamIndexAttributes_ok [OF l']
      by (auto simp: Let_def)
    moreover have "?J \<tau>'" by (subst fr, subst J) simp
    ultimately show "\<exists>\<tau>'. ?body (ram_end xs) (entry_handle y) (Some (ram_end (xs @ [y]))) \<tau> = Inr (False, Some (ram_end (xs @ [y])), \<tau>') \<and>
        ram_list \<tau>' (xs @ startup_ram type prev y # ys) \<and> ?J \<tau>'" by blast
  qed (use l c in \<open>auto simp: ram_list_def intro!: length_startup_ram\<close>)
  then show ?thesis by (auto simp: NvEntityStartup_ram_def)
qed

text \<open>The image of the orderly RAM that NV holds.\<close>

definition restored :: "nv_layout \<Rightarrow> nv_state \<Rightarrow> nv_state" where
  "restored L st = st\<lparr>s_indexOrderlyRam :=
     mem_put (s_indexOrderlyRam st) 0 (mem_get (s_NV st) (NV_INDEX_RAM_DATA L) RAM_INDEX_SPACE)\<rparr>"

definition ram_saved :: "nv_layout \<Rightarrow> nv_state \<Rightarrow> BYTE list list \<Rightarrow> bool" where
  "ram_saved L st rs \<longleftrightarrow> ram_list (restored L st) rs"

lemma NvUpdateIndexOrderlyData_ok:
  assumes l: "nv_list L st ps mc" and r: "ram_list st rs"
  shows "\<exists>st'. NvUpdateIndexOrderlyData L st = Inr st' \<and> nv_list L st' ps mc \<and> ram_list st' rs \<and> ram_saved L st' rs \<and>
    st' = st\<lparr>s_NV := s_NV st', g_updateNV := g_updateNV st OR UT_NV\<rparr>"
proof -
  let ?d = "mem_get (s_indexOrderlyRam st) 0 RAM_INDEX_SPACE"
  let ?st = "st\<lparr>g_updateNV := g_updateNV st OR UT_NV, s_NV := mem_put (s_NV st) (NV_INDEX_RAM_DATA L) ?d\<rparr>"
  have b: "NV_INDEX_RAM_DATA L + RAM_INDEX_SPACE = NV_USER_DYNAMIC L" "NV_USER_DYNAMIC L \<le> NV_MEMORY_SIZE"
    using l by (auto simp: nv_list_def nv_pos_def NV_INDEX_RAM_DATA_def)
  then have "NvUpdateIndexOrderlyData L st = Inr ?st"
    by (simp add: NvUpdateIndexOrderlyData_def NvWrite_ok)
  moreover have "nv_list L ?st ps mc"
    using l b holds_at_put_other [of "NV_USER_DYNAMIC L" "list_bytes ps @ terminator mc" "NV_INDEX_RAM_DATA L" ?d "s_NV st"]
    by (simp add: nv_list_def)
  moreover have "restored L ?st = ?st"
    using mem_put_same [of "s_indexOrderlyRam st" 0 ?d]
    by (simp add: restored_def mem_get_put_same)
  ultimately show ?thesis using r by (intro exI [of _ ?st]) (simp add: ram_saved_def ram_list_def)
qed

lemma NvManufacture_ok:
  assumes "RAM_INDEX_SPACE \<le> NV_USER_DYNAMIC L" "NV_USER_DYNAMIC L + 12 \<le> NV_MEMORY_SIZE"
    "4 \<le> SIZEOF_OBJECT L" "SIZEOF_OBJECT L \<le> NV_MEMORY_SIZE"
  shows "\<exists>st'. NvManufacture L st = Inr st' \<and> nv_inv L st' [] [] 0 \<and> ram_saved L st' [] \<and>
    s_maxCounter st' = 0 \<and> g_NvStatus st' = g_NvStatus st \<and> s_cachedNvIndex st' = s_cachedNvIndex st"
proof -
  let ?ram = "MemorySet (s_indexOrderlyRam st) 0 0 RAM_INDEX_SPACE"
  let ?d = "mem_get ?ram 0 RAM_INDEX_SPACE"
  let ?m = "mem_put (mem_put (s_NV st) (NV_INDEX_RAM_DATA L) ?d) (NV_USER_DYNAMIC L) (terminator 0)"
  let ?st = "st\<lparr>s_evictNvEnd := NV_MEMORY_SIZE, s_indexOrderlyRam := ?ram, s_maxCounter := 0, s_NV := ?m, g_updateNV := (g_updateNV st OR UT_NV) OR UT_NV\<rparr>"
  have b: "NV_INDEX_RAM_DATA L + RAM_INDEX_SPACE = NV_USER_DYNAMIC L"
    using assms by (simp add: NV_INDEX_RAM_DATA_def)
  have "NvManufacture L st = Inr ?st" using assms b
    by (simp add: NvManufacture_def NvInitStatic_def NvUpdateIndexOrderlyData_def NvWrite_ok NvSetMaxCount_def
        NvWriteNvListEnd_ok Let_def)
  moreover have z: "holds_at ?ram 0 (replicate 4 0)"
    by (rule holds_at_prefix [OF holds_at_MemorySet_same]) simp
  moreover have "nv_list L ?st [] 0"
    using assms by (simp add: nv_list_def holds_at_put_same)
  moreover have "ram_list ?st []" using z by (simp add: ram_list_def)
  moreover have "restored L ?st = ?st"
    using mem_put_same [of ?ram 0 ?d] b by (simp add: restored_def mem_get_put_same mem_get_put_other)
  ultimately show ?thesis using assms by (intro exI [of _ ?st]) (simp add: nv_inv_def ram_saved_def)
qed

text \<open>
  Startup reads the orderly data and the maximal counter back.  The counter is read with
  \<^verbatim>\<open>NvRead\<close>, which does not reach the last octet of NV: when the terminator ends there, the
  read fails.
\<close>

lemma NvEntityStartup_full:
  assumes l: "nv_list L st ps mc" and full: "nv_pos L ps + SIZEOF_NV_LIST_TERMINATOR = NV_MEMORY_SIZE"
  shows "NvEntityStartup L type prev st = Inl FATAL_ERROR_PARAMETER"
proof -
  have b: "NV_INDEX_RAM_DATA L + RAM_INDEX_SPACE < NV_MEMORY_SIZE"
    using l by (auto simp: nv_list_def nv_pos_def NV_INDEX_RAM_DATA_def)
  have "nv_list L (restored L st) ps mc" using l by (simp add: nv_list_def restored_def)
  from NvGetMaxCount_ok [OF this] full show ?thesis
    by (simp add: NvEntityStartup_def NvRead_ok [OF b] restored_def)
qed

lemma NvEntityStartup_ok:
  assumes l: "nv_list L st ps mc" and r: "ram_saved L st rs" and ok: "g_NvStatus st = TPM_RC_SUCCESS"
    and room: "nv_pos L ps + SIZEOF_NV_LIST_TERMINATOR < NV_MEMORY_SIZE"
    and len: "\<forall>p \<in> set ps. is_index p \<longrightarrow> 12 \<le> length p"
    and c: "\<forall>r \<in> set rs. IsNvCounterIndex (ram_attributes r) \<longrightarrow> 16 \<le> length r"
  shows "\<exists>st'. NvEntityStartup L type prev st = Inr st' \<and> s_maxCounter st' = mc \<and> g_NvStatus st' = TPM_RC_SUCCESS \<and>
    nv_list L st' (if type = SU_RESUME then ps else map (startup_entry type) ps) mc \<and>
    ram_list st' (if type = SU_RESUME then rs else map (startup_ram type prev) rs)"
proof -
  let ?st0 = "(restored L st)\<lparr>s_maxCounter := mc\<rparr>"
  have b: "NV_INDEX_RAM_DATA L + RAM_INDEX_SPACE < NV_MEMORY_SIZE"
    using l by (auto simp: nv_list_def nv_pos_def NV_INDEX_RAM_DATA_def)
  have l0: "nv_list L (restored L st) ps mc" using l by (simp add: nv_list_def restored_def)
  have l1: "nv_list L ?st0 ps mc" "ram_list ?st0 rs" "g_NvStatus ?st0 = TPM_RC_SUCCESS"
    using l0 r ok by (simp_all add: nv_list_def ram_saved_def ram_list_def restored_def)
  have e: "NvEntityStartup L type prev st = (if type = SU_RESUME then Inr ?st0
      else bindE (NvEntityStartup_nv L type ?st0) (NvEntityStartup_ram type prev))"
    using NvGetMaxCount_ok [OF l0] room
    by (simp add: NvEntityStartup_def NvRead_ok [OF b] restored_def NvSetMaxCount_def Let_def)
  show ?thesis
  proof (cases "type = SU_RESUME")
    case True
    then show ?thesis using e l1 by simp
  next
    case False
    obtain st1 where n: "NvEntityStartup_nv L type ?st0 = Inr st1" and l2: "nv_list L st1 (map (startup_entry type) ps) mc"
      and fr1: "st1 = ?st0\<lparr>s_NV := s_NV st1, g_updateNV := g_updateNV st1\<rparr>"
      using NvEntityStartup_nv_ok [OF l1(1,3) len] by blast
    have "ram_list st1 rs" "s_maxCounter st1 = mc" "g_NvStatus st1 = TPM_RC_SUCCESS"
      using l1 ram_list_frame [OF fr1] by (simp, (subst fr1, simp)+)
    moreover from NvEntityStartup_ram_ok [OF this(1) c] obtain st2 where
      "NvEntityStartup_ram type prev st1 = Inr st2" "ram_list st2 (map (startup_ram type prev) rs)"
      and fr2: "st2 = st1\<lparr>s_indexOrderlyRam := s_indexOrderlyRam st2\<rparr>" by blast
    moreover have "nv_list L st2 (map (startup_entry type) ps) mc" "s_maxCounter st2 = s_maxCounter st1" "g_NvStatus st2 = g_NvStatus st1"
      using l2 by (subst fr2, simp add: nv_list_def)+
    ultimately show ?thesis using False e n by simp
  qed
qed

end
