(* ===== verification/FTPM_NVCap.thy ===== *)
theory FTPM_NVCap
  imports FTPM_NVData "HOL-Library.Multiset"
begin

text \<open>
  The lists of NV indices and persistent objects that \<^verbatim>\<open>TPM2_GetCapability\<close> reports, the
  global write lock, and the description of an index that a command gets.
\<close>

section \<open>The insertion sort\<close>

lemma InsertSort_shift_spec:
  "i \<le> j \<Longrightarrow> j < length hs \<Longrightarrow> length (InsertSort_shift i j hs) = length hs \<and>
   (\<forall>k < length hs. InsertSort_shift i j hs ! k = (if i < k \<and> k \<le> j then hs ! (k - 1) else hs ! k))"
proof (induction j arbitrary: hs)
  case 0
  then show ?case by (simp add: InsertSort_shift.simps [of 0 0])
next
  case (Suc j)
  show ?case
  proof (cases "i = Suc j")
    case False
    then show ?thesis using Suc.IH [of "hs[Suc j := hs ! j]"] Suc.prems
      by (auto simp: InsertSort_shift.simps [of i "Suc j"] nth_update_if le_Suc_eq)
  qed (auto simp: InsertSort_shift.simps [of "Suc j" "Suc j"])
qed

definition ins :: "TPM_HANDLE \<Rightarrow> TPM_HANDLE list \<Rightarrow> TPM_HANDLE list" where
  "ins e hs = (let i = first_index (\<lambda>h. h > e) hs in take i hs @ e # drop i hs)"

lemma ins_insort: "sorted hs \<Longrightarrow> ins e hs = insort e hs"
proof (induction hs)
  case (Cons h hs)
  then show ?case
  proof (cases "h > e")
    case False
    then have "ins e (h # hs) = h # ins e hs" by (simp add: ins_def Let_def)
    then show ?thesis using False Cons insort_is_Cons [of "h # hs" "\<lambda>x. x" e] by (cases "e = h") (auto simp: insort_is_Cons)
  qed (auto simp: ins_def)
qed (simp add: ins_def)

lemma InsertSort_ins:
  assumes "length hs \<le> cnt"
  shows "InsertSort hs cnt e = take cnt (ins e hs)"
proof (cases "cnt = 0 \<or> hs = []")
  case True
  then show ?thesis using assms by (auto simp: InsertSort_def ins_def Let_def Suc_le_eq split: nat.split)
next
  case False
  let ?i = "first_index (\<lambda>h. h > e) hs"
  let ?hs = "if length hs < cnt then hs @ [0] else hs"
  have i: "?i \<le> length hs" by (rule first_index_le)
  have "length (InsertSort hs cnt e) = length ?hs \<and>
      (\<forall>k < length ?hs. InsertSort hs cnt e ! k = ins e hs ! k)"
  proof (cases "?i < length hs")
    case True
    then show ?thesis using False assms InsertSort_shift_spec [of ?i "length ?hs - 1" ?hs]
      by (auto simp: InsertSort_def ins_def Let_def nth_update_if nth_append nth_Cons' min_def)
  next
    case False': False
    then have "?i = length hs" using i by simp
    then show ?thesis using False assms
      by (auto simp: InsertSort_def ins_def Let_def nth_append nth_update_if)
  qed
  moreover have "length (ins e hs) = Suc (length hs)" using i by (simp add: ins_def Let_def)
  ultimately show ?thesis using assms by (intro nth_equalityI) (auto simp: min_def split: if_splits)
qed

lemma take_insort: "take n (insort e (take n S)) = take n (insort e S)" for S :: "'a :: linorder list"
proof (induction S arbitrary: n)
  case (Cons x S)
  then show ?case by (cases n) (auto simp: take_Cons' split: nat.split)
qed simp

lemma InsertSort_step:
  "InsertSort (take cnt (sort S)) cnt e = take cnt (sort (e # S))"
  by (simp add: InsertSort_ins ins_insort sorted_wrt_take sorted_sort take_insort)

section \<open>The lists of handles\<close>

definition handles_from :: "UINT8 \<Rightarrow> TPM_HANDLE \<Rightarrow> BYTE list list \<Rightarrow> TPM_HANDLE list" where
  "handles_from type handle ps =
     filter (\<lambda>h. HandleGetType h = type \<and> handle \<le> h) (map entry_handle ps)"

lemma NvCapGet_scan_ok:
  assumes l: "nv_list L st ps mc"
  shows "NvCapGet_scan L type handle cnt st =
    Inr (cnt < length (handles_from type handle ps), take cnt (sort (handles_from type handle ps)))"
proof -
  let ?body = "\<lambda>(_ :: nat) h iter (more, handleList).
      if h < handle then Inr (False, iter, (more, handleList))
      else Inr (False, iter, (more \<or> length handleList = cnt, InsertSort handleList cnt h))"
  let ?h = "\<lambda>xs. handles_from type handle (rev xs)"
  let ?I = "\<lambda>xs ys \<sigma>. xs @ ys = ps \<and> \<sigma> = (cnt < length (?h xs), take cnt (sort (?h xs)))"
  have "\<exists>zs \<sigma>'. scan_while NV_FUEL (\<lambda>_. typed_next NV_FUEL (\<lambda>h. HandleGetType h = type) (NvNext L) st) ?body NV_REF_INIT (False, []) =
      Inr (None, nv_pos L zs, \<sigma>') \<and> ?I zs [] \<sigma>'"
  proof (rule nv.typed_inv_start [where view = "\<lambda>_. st" and ys = ps])
    fix xs y ys \<sigma>
    assume I: "?I xs (y # ys) \<sigma>"
    show "?I (xs @ [y]) ys \<sigma>" if "HandleGetType (entry_handle y) \<noteq> type"
      using I that by (simp add: handles_from_def)
    show "\<exists>y' \<sigma>'. ?body (nv_pos L xs + 4) (entry_handle y) (nv_pos L (xs @ [y])) \<sigma> =
        Inr (False, nv_pos L (xs @ [y']), \<sigma>') \<and> ?I (xs @ [y']) ys \<sigma>'" if "HandleGetType (entry_handle y) = type"
      using I that InsertSort_step [of cnt "?h xs" "entry_handle y"]
      by (intro exI [of _ y]) (auto simp: handles_from_def min_def not_less)
  qed (use l in \<open>auto simp: nv_goodI nv_list_count handles_from_def\<close>)
  then have "NvCapGet_scan L type handle cnt st = Inr (cnt < length (?h ps), take cnt (sort (?h ps)))"
    by (auto simp: NvCapGet_scan_def NvNextByType_typed_next)
  moreover have "?h ps = rev (handles_from type handle ps)" by (simp add: handles_from_def rev_map rev_filter)
  moreover have "sort (rev xs) = sort xs" for xs :: "TPM_HANDLE list"
    by (rule properties_for_sort) simp_all
  ultimately show ?thesis by simp
qed

lemma NvCapGetOne_scan_ok:
  assumes l: "nv_list L st ps mc"
  shows "NvCapGetOne_scan L type handle st = Inr (HandleGetType handle = type \<and> handle \<in> entry_handle ` set ps)"
proof -
  have "NvNextByType L type st NV_REF_INIT = NvNextByType L type st (nv_pos L [])"
    unfolding NvNextByType_def
    by (subst scan_while_start [of "\<lambda>_. NvNext L st" 0 NV_REF_INIT "nv_pos L []"])
      (rule nv.nxt_start [OF nv_goodI [OF l]], rule refl)
  then have "scan_while NV_FUEL (\<lambda>_. NvNextByType L type st) body NV_REF_INIT \<sigma> =
      scan_while NV_FUEL (\<lambda>_. NvNextByType L type st) body (nv_pos L []) \<sigma>" for body and \<sigma> :: unit
    by (rule scan_while_start)
  then show ?thesis
    using nv.typed_find [of L st "[]" ps NV_FUEL NV_FUEL "\<lambda>h. HandleGetType h = type" "\<lambda>h. h = handle" "()"] nv_goodI [OF l] nv_list_count [OF l]
    by (auto simp: NvCapGetOne_scan_def NvNextByType_typed_next)
qed

section \<open>The description of an index\<close>

text \<open>What a command sees of an index: the attributes of an orderly one come from the RAM.\<close>

definition index_info :: "BYTE list list \<Rightarrow> BYTE list \<Rightarrow> NV_INDEX" where
  "index_info rs p =
     (if entry_orderly p
      then (case find (\<lambda>r. entry_handle r = entry_handle p) rs of
              None \<Rightarrow> entry_index p
            | Some r \<Rightarrow> (entry_index p)\<lparr>publicArea := (publicArea (entry_index p))\<lparr>nv_attributes := ram_attributes r\<rparr>\<rparr>)
      else entry_index p)"

definition uncached :: "TPM_HANDLE \<Rightarrow> nv_state \<Rightarrow> bool" where
  "uncached h st \<longleftrightarrow> nvIndex (publicArea (s_cachedNvIndex st)) \<noteq> h"

lemma nv_list_cache:
  "nv_list L (st\<lparr>s_cachedNvIndex := c, s_cachedNvRamRef := r\<rparr>) ps mc \<longleftrightarrow> nv_list L st ps mc"
  "nv_list L (st\<lparr>s_cachedNvRef := f\<rparr>) ps mc \<longleftrightarrow> nv_list L st ps mc"
  "ram_list (st\<lparr>s_cachedNvIndex := c, s_cachedNvRamRef := r, s_cachedNvRef := f\<rparr>) rs \<longleftrightarrow> ram_list st rs"
  by (simp_all add: nv_list_def ram_list_def)

lemma NvGetIndexInfo_none:
  assumes "nv_list L st ps mc" "uncached h st" "h \<notin> entry_handle ` set ps"
  shows "\<exists>c. NvGetIndexInfo L h st = Inr (None, 0, st\<lparr>s_cachedNvIndex := c, s_cachedNvRamRef := None, s_cachedNvRef := 0\<rparr>)"
proof -
  let ?st = "st\<lparr>s_cachedNvIndex := (s_cachedNvIndex st)\<lparr>publicArea := (publicArea (s_cachedNvIndex st))\<lparr>nvIndex := TPM_RH_UNASSIGNED\<rparr>\<rparr>,
                s_cachedNvRamRef := None\<rparr>"
  have "NvFindHandle L h ?st = Inr 0"
    by (rule NvFindHandle_none [OF _ assms(3)]) (use assms(1) in \<open>simp add: nv_list_cache\<close>)
  then show ?thesis using assms(2) by (auto simp: NvGetIndexInfo_def uncached_def Let_def)
qed

lemma NvGetIndexInfo_ok:
  assumes i: "nv_inv L st (xs @ p # ys) rs mc" and p: "is_index p" and u: "uncached (entry_handle p) st"
  shows "\<exists>st'. NvGetIndexInfo L (entry_handle p) st = Inr (Some (index_info rs p), nv_pos L xs + 4, st') \<and>
    s_cachedNvIndex st' = index_info rs p \<and> s_cachedNvRef st' = nv_pos L xs + 4 \<and>
    nv_inv L st' (xs @ p # ys) rs mc \<and> s_maxCounter st' = s_maxCounter st \<and> g_NvStatus st' = g_NvStatus st \<and>
    (entry_orderly p \<longrightarrow> (\<exists>us q vs. rs = us @ q # vs \<and> entry_handle q = entry_handle p \<and> entry_handle p \<notin> entry_handle ` set us \<and>
       length q = 8 + entry_dataSize p \<and> s_cachedNvRamRef st' = Some (ram_end us) \<and>
       nv_attributes (publicArea (index_info rs p)) = ram_attributes q))"
proof -
  let ?st = "st\<lparr>s_cachedNvIndex := (s_cachedNvIndex st)\<lparr>publicArea := (publicArea (s_cachedNvIndex st))\<lparr>nvIndex := TPM_RH_UNASSIGNED\<rparr>\<rparr>,
                s_cachedNvRamRef := None\<rparr>"
  let ?st1 = "?st\<lparr>s_cachedNvRef := nv_pos L xs + 4\<rparr>"
  let ?st2 = "?st1\<lparr>s_cachedNvIndex := entry_index p\<rparr>"
  have inv: "nv_inv L st' (xs @ p # ys) rs mc" if "s_NV st' = s_NV st" "s_indexOrderlyRam st' = s_indexOrderlyRam st" "s_evictNvEnd st' = s_evictNvEnd st" for st'
    using i that by (simp add: nv_inv_def nv_list_def ram_list_def)
  have l: "nv_list L ?st (xs @ p # ys) mc" "nv_list L ?st1 (xs @ p # ys) mc" and r: "ram_list ?st2 rs"
    using inv [of ?st] inv [of ?st1] inv [of ?st2] nv_inv_listD by auto
  have "entry_handle p \<notin> entry_handle ` set xs" using nv_inv_distinct(1) [OF i] by simp
  then have f: "NvFindHandle L (entry_handle p) ?st = Inr (nv_pos L xs + 4)"
    by (rule NvFindHandle_hit [OF l(1)])
  have w: "wf_entry L p" using nv_inv_entryD [OF i] by simp
  have g: "NvReadNvIndexInfo (nv_pos L xs + 4) ?st1 = Inr (entry_index p)"
    by (rule NvReadNvIndexInfo_ok [OF l(2) wf_entry_length [OF w p]])
  show ?thesis
  proof (cases "entry_orderly p")
    case True
    then obtain us q vs where rs: "rs = us @ q # vs" "entry_handle q = entry_handle p"
      "ram_of (xs @ ys) rs = us @ vs" "entry_handle p \<notin> entry_handle ` set us" "length q = 8 + entry_dataSize p"
      by (rule ram_of_orderly [OF i])
    have "\<forall>u \<in> set us. entry_handle u \<noteq> entry_handle p" using rs(4) by (metis imageI)
    then have info: "index_info rs p = (entry_index p)\<lparr>publicArea := (publicArea (entry_index p))\<lparr>nv_attributes := ram_attributes q\<rparr>\<rparr>"
      using rs True find_append_first [of us "\<lambda>r. entry_handle r = entry_handle p" q vs] by (simp add: index_info_def)
    have r': "ram_list ?st2 (us @ q # vs)" using r rs by simp
    have "NvRamGetIndex (entry_handle p) ?st2 = Inr (Some (ram_end us))"
      using NvRamGetIndex_hit [OF r'] rs by simp
    moreover have "NvReadRamIndexAttributes (Some (ram_end us)) ?st2 = Inr (ram_attributes q)"
      by (rule NvReadRamIndexAttributes_ok [OF r'])
    moreover have "bit (entry_attributes p) NV_ORDERLY" using True by (simp add: entry_orderly_def)
    ultimately have e: "NvGetIndexInfo L (entry_handle p) st = Inr (Some (index_info rs p), nv_pos L xs + 4,
        ?st2\<lparr>s_cachedNvRamRef := Some (ram_end us), s_cachedNvIndex := index_info rs p\<rparr>)"
      using u f g info by (simp add: NvGetIndexInfo_def uncached_def Let_def)
    show ?thesis
      by (rule exI [of _ "?st2\<lparr>s_cachedNvRamRef := Some (ram_end us), s_cachedNvIndex := index_info rs p\<rparr>"], intro conjI impI,
          rule e, simp, simp, rule inv, simp, simp, simp, simp, simp, rule exI [of _ us], rule exI [of _ q], rule exI [of _ vs])
        (use rs info in simp)
  next
    case False
    then have "\<not> bit (entry_attributes p) NV_ORDERLY" using p by (simp add: entry_orderly_def)
    then show ?thesis using u f g False
      by (auto simp: NvGetIndexInfo_def uncached_def Let_def index_info_def intro!: inv)
  qed
qed

end
