(* ===== verification/FTPM_NVWrite.thy ===== *)
theory FTPM_NVWrite
  imports FTPM_NVCap
begin

text \<open>
  Writing index data and reading it back, in NV and in the orderly RAM, and the global
  write lock.
\<close>

section \<open>The first write\<close>

lemma MemorySet_put: "MemorySet m a v n = mem_put m a (replicate n v)"
  by (auto simp: MemorySet_def mem_put_def fun_eq_iff)

text \<open>
  The first write sets \<^verbatim>\<open>TPMA_NV_WRITTEN\<close>; a partial one to an ordinary index fills the
  data first: with ones in NV, with zeros in RAM.
\<close>

definition first_write :: "nat \<Rightarrow> BYTE list \<Rightarrow> BYTE list" where
  "first_write sz p =
     (if bit (entry_attributes p) NV_WRITTEN then p
      else let q = set_attributes (set_bit NV_WRITTEN (entry_attributes p)) p in
        if IsNvOrdinaryIndex (entry_attributes p) \<and> sz < entry_dataSize p
        then bytes_put SIZEOF_NV_INDEX (replicate (entry_dataSize p) 0xFF) q else q)"

lemma length_first_write:
  "length p = SIZEOF_NV_INDEX + entry_dataSize p \<Longrightarrow> length (first_write sz p) = length p"
  by (auto simp: first_write_def Let_def set_attributes_fields)

text \<open>The cache holds the description of the entry at its reference.\<close>

definition cached_nv :: "nv_layout \<Rightarrow> nv_state \<Rightarrow> BYTE list list \<Rightarrow> BYTE list \<Rightarrow> bool" where
  "cached_nv L st xs p \<longleftrightarrow> s_cachedNvRef st = nv_pos L xs + 4 \<and> describes (s_cachedNvIndex st) p \<and>
     nv_attributes (publicArea (s_cachedNvIndex st)) = entry_attributes p"

text \<open>What a write to an index changes of the state, in NV and in RAM.\<close>

definition writes_nv :: "nv_state \<Rightarrow> nv_state \<Rightarrow> bool" where
  "writes_nv st st' \<longleftrightarrow>
     st' = st\<lparr>s_NV := s_NV st', g_updateNV := g_updateNV st', s_cachedNvIndex := s_cachedNvIndex st'\<rparr>"

definition writes_ram :: "nv_state \<Rightarrow> nv_state \<Rightarrow> bool" where
  "writes_ram st st' \<longleftrightarrow> st' = st\<lparr>s_indexOrderlyRam := s_indexOrderlyRam st', g_updateNV := g_updateNV st',
     s_cachedNvIndex := s_cachedNvIndex st', g_clearOrderly := g_clearOrderly st'\<rparr>"

lemma IsNvOrdinaryIndex_written [simp]: "IsNvOrdinaryIndex (set_bit NV_WRITTEN a) \<longleftrightarrow> IsNvOrdinaryIndex a"
  by (simp add: IsNvOrdinaryIndex_def)

lemma NvWriteIndexData_written_nv:
  assumes l: "nv_list L st (xs @ p # ys) mc" and ok: "g_NvStatus st = TPM_RC_SUCCESS"
    and p: "is_index p" "\<not> entry_orderly p" "length p = SIZEOF_NV_INDEX + entry_dataSize p" and c: "cached_nv L st xs p"
  shows "\<exists>st'. NvWriteIndexData_written sz st = Inr (TPM_RC_SUCCESS, st') \<and> nv_list L st' (xs @ first_write sz p # ys) mc \<and>
    s_cachedNvRef st' = s_cachedNvRef st \<and> g_NvStatus st' = TPM_RC_SUCCESS \<and> writes_nv st st' \<and>
    s_cachedNvIndex st' = (s_cachedNvIndex st)\<lparr>publicArea := (publicArea (s_cachedNvIndex st))
      \<lparr>nv_attributes := set_bit NV_WRITTEN (entry_attributes p)\<rparr>\<rparr>"
proof (cases "bit (entry_attributes p) NV_WRITTEN")
  case True
  then have "set_bit NV_WRITTEN (entry_attributes p) = entry_attributes p"
    by (auto simp: bit_set_bit_iff intro!: bit_eqI)
  then show ?thesis using True l ok c
    by (auto simp: NvWriteIndexData_written_def first_write_def cached_nv_def Let_def writes_nv_def)
next
  case False
  let ?a = "set_bit NV_WRITTEN (entry_attributes p)" and ?q = "set_attributes (set_bit NV_WRITTEN (entry_attributes p)) p"
  let ?st0 = "st\<lparr>s_cachedNvIndex := (s_cachedNvIndex st)\<lparr>publicArea := (publicArea (s_cachedNvIndex st))\<lparr>nv_attributes := ?a\<rparr>\<rparr>\<rparr>"
  have ds: "unat (dataSize (publicArea (s_cachedNvIndex st))) = entry_dataSize p"
    and at: "nv_attributes (publicArea (s_cachedNvIndex st)) = entry_attributes p" "s_cachedNvRef st = nv_pos L xs + 4"
    using c by (simp_all add: cached_nv_def describes_def)
  have o: "\<not> bit ?a NV_ORDERLY" using p by (simp add: entry_orderly_def bit_set_bit_iff)
  have l0: "nv_list L ?st0 (xs @ p # ys) mc" using l by (simp add: nv_list_def)
  obtain st1 where w: "NvWriteNvIndexAttributes (nv_pos L xs + 4) ?a ?st0 = Inr (TPM_RC_SUCCESS, st1)"
    and l1: "nv_list L st1 (xs @ ?q # ys) mc"
    and fr: "st1 = ?st0\<lparr>s_NV := mem_put (s_NV ?st0) (nv_pos L xs + 4 + 8) (le_bytes 4 (unat ?a)), g_updateNV := g_updateNV st1\<rparr>"
    using NvWriteNvIndexAttributes_ok [OF l0, of ?a] ok p by auto
  have s1: "s_cachedNvRef st1 = nv_pos L xs + 4" "g_NvStatus st1 = TPM_RC_SUCCESS" "s_cachedNvIndex st1 = s_cachedNvIndex ?st0"
    using at ok by (subst fr, simp)+
  have wr: "writes_nv st st1" unfolding writes_nv_def by (subst fr, subst (2 4) fr) simp
  have q: "length ?q = length p" using p by (simp add: set_attributes_fields)
  show ?thesis
  proof (cases "IsNvOrdinaryIndex (entry_attributes p) \<and> sz < entry_dataSize p")
    case True
    let ?d = "replicate (entry_dataSize p) (0xFF :: BYTE)"
    let ?st2 = "st1\<lparr>s_NV := mem_put (s_NV st1) (nv_pos L xs + 4 + SIZEOF_NV_INDEX) ?d\<rparr>"
    have "plat_NvMemoryClear (u32 (nv_pos L xs + 4 + SIZEOF_NV_INDEX)) (entry_dataSize p) (s_NV st1) = Inr (s_NV ?st2)"
      using nv_list_at(3) [OF l] p by (simp add: plat_NvMemoryClear_def MemorySet_put)
    moreover have "nv_list L ?st2 (xs @ bytes_put SIZEOF_NV_INDEX ?d ?q # ys) mc"
      by (rule nv_list_put [OF l1]) (use p q in simp_all)
    moreover have "writes_nv st ?st2" using wr by (cases st, cases st1) (simp add: writes_nv_def)
    ultimately show ?thesis using False True w s1 ds at o
      by (auto simp: NvWriteIndexData_written_def first_write_def Let_def intro!: exI [of _ ?st2])
  next
    case False': False
    then show ?thesis using False w s1 ds at o l1 wr
      by (auto simp: NvWriteIndexData_written_def first_write_def Let_def intro!: exI [of _ st1])
  qed
qed

lemma NvWriteIndexData_nv:
  assumes l: "nv_list L st (xs @ p # ys) mc" and ok: "g_NvStatus st = TPM_RC_SUCCESS"
    and p: "is_index p" "\<not> entry_orderly p" "length p = SIZEOF_NV_INDEX + entry_dataSize p" and c: "cached_nv L st xs p"
    and range: "offset + length data \<le> entry_dataSize p"
  shows "\<exists>st'. NvWriteIndexData offset data st = Inr (TPM_RC_SUCCESS, st') \<and>
    nv_list L st' (xs @ bytes_put (SIZEOF_NV_INDEX + offset) data (first_write (length data) p) # ys) mc \<and>
    s_cachedNvRef st' = s_cachedNvRef st \<and> writes_nv st st' \<and>
    s_cachedNvIndex st' = (s_cachedNvIndex st)\<lparr>publicArea := (publicArea (s_cachedNvIndex st))
      \<lparr>nv_attributes := set_bit NV_WRITTEN (entry_attributes p)\<rparr>\<rparr>"
proof -
  obtain st1 where w: "NvWriteIndexData_written (length data) st = Inr (TPM_RC_SUCCESS, st1)"
    and l1: "nv_list L st1 (xs @ first_write (length data) p # ys) mc"
    and s1: "s_cachedNvRef st1 = s_cachedNvRef st" "g_NvStatus st1 = TPM_RC_SUCCESS" and wr: "writes_nv st st1"
    and i1: "s_cachedNvIndex st1 = (s_cachedNvIndex st)\<lparr>publicArea := (publicArea (s_cachedNvIndex st))
      \<lparr>nv_attributes := set_bit NV_WRITTEN (entry_attributes p)\<rparr>\<rparr>"
    using NvWriteIndexData_written_nv [OF l ok p c, of "length data"] by blast
  have ds: "unat (dataSize (publicArea (s_cachedNvIndex st))) = entry_dataSize p" "s_cachedNvRef st = nv_pos L xs + 4"
    using c by (simp_all add: cached_nv_def describes_def)
  have o: "\<not> bit (set_bit NV_WRITTEN (entry_attributes p)) NV_ORDERLY" using p by (simp add: entry_orderly_def bit_set_bit_iff)
  obtain st2 where "NvConditionallyWrite (nv_pos L xs + 4 + (SIZEOF_NV_INDEX + offset)) data st1 = Inr (TPM_RC_SUCCESS, st2)"
    and "nv_list L st2 (xs @ bytes_put (SIZEOF_NV_INDEX + offset) data (first_write (length data) p) # ys) mc"
    and fr: "st2 = st1\<lparr>s_NV := mem_put (s_NV st1) (nv_pos L xs + 4 + (SIZEOF_NV_INDEX + offset)) data, g_updateNV := g_updateNV st2\<rparr>"
    using NvConditionallyWrite_ok [OF l1, of "SIZEOF_NV_INDEX + offset" data] s1 range p length_first_write [OF p(3), of "length data"] by auto
  moreover have "s_cachedNvRef st2 = s_cachedNvRef st1" "s_cachedNvIndex st2 = s_cachedNvIndex st1" by (subst fr, simp)+
  moreover have "writes_nv st st2" using wr fr by (cases st, cases st1, cases st2) (simp add: writes_nv_def)
  moreover have "u32 (nv_pos L xs + 4 + SIZEOF_NV_INDEX + offset) = nv_pos L xs + 4 + (SIZEOF_NV_INDEX + offset)"
    using nv_list_at(3) [OF l] p range by simp
  ultimately show ?thesis using w ds s1 i1 o range by (simp add: NvWriteIndexData_def Let_def)
qed

text \<open>Reading from the entry gives what was written.\<close>

lemma NvGetIndexData_nv:
  assumes l: "nv_list L st (xs @ p # ys) mc" and w: "bit (nv_attributes (publicArea ix)) NV_WRITTEN"
    and o: "\<not> bit (nv_attributes (publicArea ix)) NV_ORDERLY"
    and len: "SIZEOF_NV_INDEX + offset + n \<le> length p" and ds: "offset + n \<le> unat (dataSize (publicArea ix))"
  shows "NvGetIndexData ix (nv_pos L xs + 4) offset n st = Inr (take n (drop (SIZEOF_NV_INDEX + offset) p))"
proof -
  have "NvRead (nv_pos L xs + 4 + (SIZEOF_NV_INDEX + offset)) n st = Inr (take n (drop (SIZEOF_NV_INDEX + offset) p))"
    by (rule nv_read_payload [OF l]) (use len in simp)
  then show ?thesis using nv_list_at(3) [OF l] w o ds len
    by (simp add: NvGetIndexData_def Let_def add.assoc)
qed

section \<open>Orderly data\<close>

definition first_write_ram :: "BYTE list \<Rightarrow> BYTE list" where
  "first_write_ram r =
     (if bit (ram_attributes r) NV_WRITTEN then r
      else let q = set_ram_attributes (set_bit NV_WRITTEN (ram_attributes r)) r in
        if IsNvOrdinaryIndex (ram_attributes r) then bytes_put 8 (replicate (length r - 8) 0) q else q)"

definition cached_ram :: "nv_state \<Rightarrow> BYTE list list \<Rightarrow> BYTE list \<Rightarrow> bool" where
  "cached_ram st us r \<longleftrightarrow> s_cachedNvRamRef st = Some (ram_end us) \<and>
     nvIndex (publicArea (s_cachedNvIndex st)) = entry_handle r \<and>
     unat (dataSize (publicArea (s_cachedNvIndex st))) = length r - 8 \<and>
     nv_attributes (publicArea (s_cachedNvIndex st)) = ram_attributes r \<and> bit (ram_attributes r) NV_ORDERLY"

lemma length_first_write_ram: "8 \<le> length r \<Longrightarrow> length (first_write_ram r) = length r"
  by (auto simp: first_write_ram_def Let_def set_ram_attributes_fields)

lemma ordinary_not_counter: "IsNvOrdinaryIndex a \<Longrightarrow> \<not> IsNvCounterIndex a"
  by (simp add: IsNvOrdinaryIndex_def IsNvCounterIndex_def)

lemma NvWriteIndexData_written_ram:
  assumes l: "ram_list st (us @ r # vs)" and c: "cached_ram st us r"
  shows "\<exists>st'. NvWriteIndexData_written sz st = Inr (TPM_RC_SUCCESS, st') \<and> ram_list st' (us @ first_write_ram r # vs) \<and>
    s_cachedNvRamRef st' = s_cachedNvRamRef st \<and> s_cachedNvRef st' = s_cachedNvRef st \<and> writes_ram st st' \<and>
    s_cachedNvIndex st' = (s_cachedNvIndex st)\<lparr>publicArea := (publicArea (s_cachedNvIndex st))
      \<lparr>nv_attributes := set_bit NV_WRITTEN (ram_attributes r)\<rparr>\<rparr>"
proof (cases "bit (ram_attributes r) NV_WRITTEN")
  case True
  then have "set_bit NV_WRITTEN (ram_attributes r) = ram_attributes r"
    by (auto simp: bit_set_bit_iff intro!: bit_eqI)
  then show ?thesis using True l c
    by (auto simp: NvWriteIndexData_written_def first_write_ram_def cached_ram_def Let_def writes_ram_def)
next
  case False
  let ?a = "set_bit NV_WRITTEN (ram_attributes r)"
  let ?st0 = "st\<lparr>s_cachedNvIndex := (s_cachedNvIndex st)\<lparr>publicArea := (publicArea (s_cachedNvIndex st))\<lparr>nv_attributes := ?a\<rparr>\<rparr>\<rparr>"
  have len: "8 \<le> length r" using ram_list_at [OF l] by simp
  have at: "s_cachedNvRamRef st = Some (ram_end us)" "nv_attributes (publicArea (s_cachedNvIndex st)) = ram_attributes r"
    and ds: "unat (dataSize (publicArea (s_cachedNvIndex st))) = length r - 8" and o: "bit ?a NV_ORDERLY"
    using c by (simp_all add: cached_ram_def bit_set_bit_iff)
  have l0: "ram_list ?st0 (us @ r # vs)" using l by (simp add: ram_list_def)
  obtain st1 where w: "ram_put (Some (ram_end us)) (4 + 4) (le_bytes 4 (unat ?a)) ?st0 = Inr st1"
    and l1: "ram_list st1 (us @ set_ram_attributes ?a r # vs)" and fr: "st1 = ?st0\<lparr>s_indexOrderlyRam := s_indexOrderlyRam st1\<rparr>"
    using ram_put_ok [OF l0, of 4 "le_bytes 4 (unat ?a)"] len by (auto simp: set_ram_attributes_def)
  have s1: "s_cachedNvRamRef st1 = Some (ram_end us)" "s_cachedNvRef st1 = s_cachedNvRef st" "s_cachedNvIndex st1 = s_cachedNvIndex ?st0"
    using at by (subst fr, simp)+
  have wr: "writes_ram st st1" unfolding writes_ram_def by (subst fr, subst (2 3 4) fr) simp
  show ?thesis
  proof (cases "IsNvOrdinaryIndex (ram_attributes r)")
    case True
    have "8 + length (replicate (length r - 8) (0 :: BYTE)) \<le> length (set_ram_attributes ?a r)"
      using len by (simp add: set_ram_attributes_fields)
    from ram_put_ok [OF l1 this] obtain st2 where
      "ram_put (Some (ram_end us)) SIZEOF_NV_RAM_HEADER (replicate (length r - 8) 0) st1 = Inr st2"
      "ram_list st2 (us @ bytes_put 8 (replicate (length r - 8) 0) (set_ram_attributes ?a r) # vs)"
      and fr2: "st2 = st1\<lparr>s_indexOrderlyRam := s_indexOrderlyRam st2\<rparr>" by auto
    moreover have "s_cachedNvRamRef st2 = s_cachedNvRamRef st1" "s_cachedNvRef st2 = s_cachedNvRef st1" "s_cachedNvIndex st2 = s_cachedNvIndex st1"
      by (subst fr2, simp)+
    moreover have "writes_ram st st2" using wr fr2 by (cases st, cases st1, cases st2) (simp add: writes_ram_def)
    moreover have "\<not> IsNvCounterIndex ?a" "IsNvOrdinaryIndex ?a" using True ordinary_not_counter [of ?a] by simp_all
    ultimately show ?thesis using False True w s1 ds at o
      by (intro exI [of _ st2]) (simp add: NvWriteIndexData_written_def first_write_ram_def Let_def)
  next
    case False': False
    let ?st2 = "if IsNvCounterIndex ?a then st1\<lparr>g_updateNV := g_updateNV st1 OR UT_ORDERLY\<rparr> else st1"
    have "ram_list ?st2 (us @ set_ram_attributes ?a r # vs)" using l1 by (simp add: ram_list_def)
    moreover have "writes_ram st ?st2" using wr by (cases st, cases st1) (simp add: writes_ram_def)
    ultimately show ?thesis using False False' w s1 ds at o
      by (intro exI [of _ ?st2]) (simp add: NvWriteIndexData_written_def first_write_ram_def Let_def)
  qed
qed

lemma NvWriteIndexData_ram:
  assumes l: "ram_list st (us @ r # vs)" and c: "cached_ram st us r" and range: "offset + length data \<le> length r - 8"
  shows "\<exists>st'. NvWriteIndexData offset data st = Inr (TPM_RC_SUCCESS, st') \<and> g_clearOrderly st' \<and>
    ram_list st' (us @ bytes_put (8 + offset) data (first_write_ram r) # vs) \<and>
    s_cachedNvRef st' = s_cachedNvRef st \<and> writes_ram st st' \<and>
    s_cachedNvIndex st' = (s_cachedNvIndex st)\<lparr>publicArea := (publicArea (s_cachedNvIndex st))
      \<lparr>nv_attributes := set_bit NV_WRITTEN (ram_attributes r)\<rparr>\<rparr>"
proof -
  have len: "8 \<le> length r" using ram_list_at [OF l] by simp
  obtain st1 where w: "NvWriteIndexData_written (length data) st = Inr (TPM_RC_SUCCESS, st1)"
    and l1: "ram_list st1 (us @ first_write_ram r # vs)"
    and s1: "s_cachedNvRamRef st1 = s_cachedNvRamRef st" "s_cachedNvRef st1 = s_cachedNvRef st" and wr: "writes_ram st st1"
    and i1: "s_cachedNvIndex st1 = (s_cachedNvIndex st)\<lparr>publicArea := (publicArea (s_cachedNvIndex st))
      \<lparr>nv_attributes := set_bit NV_WRITTEN (ram_attributes r)\<rparr>\<rparr>"
    using NvWriteIndexData_written_ram [OF l c, of "length data"] by blast
  have "8 + offset + length data \<le> length (first_write_ram r)" using range len by (simp add: length_first_write_ram)
  from ram_put_ok [OF l1 this] obtain st2 where
    "ram_put (Some (ram_end us)) (SIZEOF_NV_RAM_HEADER + offset) data st1 = Inr st2"
    and l2: "ram_list st2 (us @ bytes_put (8 + offset) data (first_write_ram r) # vs)"
    and fr2: "st2 = st1\<lparr>s_indexOrderlyRam := s_indexOrderlyRam st2\<rparr>" by (auto simp: add.assoc)
  moreover have "s_cachedNvRef st2 = s_cachedNvRef st1" "s_cachedNvIndex st2 = s_cachedNvIndex st1" by (subst fr2, simp)+
  moreover have "writes_ram st (st2\<lparr>g_clearOrderly := True\<rparr>)"
    using wr fr2 by (cases st, cases st1, cases st2) (simp add: writes_ram_def)
  moreover have "ram_list (st2\<lparr>g_clearOrderly := True\<rparr>) (us @ bytes_put (8 + offset) data (first_write_ram r) # vs)"
    using l2 by (simp add: ram_list_def)
  ultimately show ?thesis using w s1 i1 c range
    by (intro exI [of _ "st2\<lparr>g_clearOrderly := True\<rparr>"]) (simp add: NvWriteIndexData_def Let_def cached_ram_def bit_set_bit_iff)
qed

lemma NvGetIndexData_ram:
  assumes l: "ram_list st (us @ r # vs)" and new: "entry_handle r \<notin> entry_handle ` set us"
    and ix: "nvIndex (publicArea ix) = entry_handle r" "bit (nv_attributes (publicArea ix)) NV_WRITTEN"
      "bit (nv_attributes (publicArea ix)) NV_ORDERLY"
    and range: "8 + offset + n \<le> length r"
  shows "NvGetIndexData ix locator offset n st = Inr (take n (drop (8 + offset) r))"
proof -
  have "n \<le> (4 + length r + 2 ^ 64 - SIZEOF_NV_RAM_HEADER - offset) mod 2 ^ 64"
  proof -
    have "4 + length r + 2 ^ 64 - SIZEOF_NV_RAM_HEADER - offset = (length r - 8 - offset) + 2 ^ 64" using range by simp
    moreover have "length r - 8 - offset < 2 ^ 64" using ram_list_at(3) [OF l] by simp
    ultimately have "(4 + length r + 2 ^ 64 - SIZEOF_NV_RAM_HEADER - offset) mod 2 ^ 64 = length r - 8 - offset"
      by (metis mod_add_self2 mod_less)
    then show ?thesis using range by simp
  qed
  moreover have "ram_get (Some (ram_end us)) (SIZEOF_NV_RAM_HEADER + offset) n st = Inr (take n (drop (8 + offset) r))"
    using ram_read_payload [OF l, of "8 + offset" n] range by (simp add: add.assoc)
  ultimately show ?thesis using ix NvRamGetIndex_hit [OF l new] ram_header_size [OF l]
    unfolding NvGetIndexData_def Let_def by simp
qed

section \<open>The global lock\<close>

definition lock_entry :: "BYTE list \<Rightarrow> BYTE list" where
  "lock_entry p = (if is_index p \<and> \<not> entry_orderly p \<and> bit (entry_attributes p) NV_GLOBALLOCK
     then set_attributes (set_bit NV_WRITELOCKED (entry_attributes p)) p else p)"

definition lock_ram :: "BYTE list \<Rightarrow> BYTE list" where
  "lock_ram r = (if bit (ram_attributes r) NV_GLOBALLOCK
     then set_ram_attributes (set_bit NV_WRITELOCKED (ram_attributes r)) r else r)"

lemma NvSetGlobalLock_nv_ok:
  assumes l: "nv_list L st ps mc" and ok: "g_NvStatus st = TPM_RC_SUCCESS" and len: "\<forall>p \<in> set ps. is_index p \<longrightarrow> 12 \<le> length p"
  shows "\<exists>st'. NvSetGlobalLock_nv L st = Inr (TPM_RC_SUCCESS, st') \<and> nv_list L st' (map lock_entry ps) mc \<and>
    st' = st\<lparr>s_NV := s_NV st', g_updateNV := g_updateNV st'\<rparr>"
proof -
  let ?J = "\<lambda>\<tau> :: TPM_RC \<times> nv_state. fst \<tau> = TPM_RC_SUCCESS \<and> snd \<tau> = st\<lparr>s_NV := s_NV (snd \<tau>), g_updateNV := g_updateNV (snd \<tau>)\<rparr>"
  let ?body = "\<lambda>currentAddr (_ :: TPM_HANDLE) (iter :: nat) (result, st).
      bindE (NvReadNvIndexAttributes currentAddr st) (\<lambda>attributes.
      if \<not> bit attributes NV_ORDERLY \<and> bit attributes NV_GLOBALLOCK
      then bindE (NvWriteNvIndexAttributes currentAddr (set_bit NV_WRITELOCKED attributes) st)
             (\<lambda>(result, st). Inr (result \<noteq> TPM_RC_SUCCESS, iter, (result, st)))
      else Inr (False, iter, (result, st)))"
  have "\<exists>i \<sigma>'. scan_while NV_FUEL (\<lambda>\<sigma>. NvNextByType L TPM_HT_NV_INDEX (snd \<sigma>)) ?body NV_REF_INIT (TPM_RC_SUCCESS, st) = Inr (None, i, \<sigma>') \<and>
      nv_list L (snd \<sigma>') (map lock_entry ps) mc \<and> ?J \<sigma>'"
  proof (rule nv_rewrite_scan)
    fix xs y ys \<tau>
    assume l': "nv_list L (snd \<tau>) (xs @ y # ys) mc" and y: "y \<in> set ps" "is_index y" and J: "?J \<tau>"
    obtain \<rho> where \<tau>: "\<tau> = (TPM_RC_SUCCESS, \<rho>)" and fr0: "\<rho> = st\<lparr>s_NV := s_NV \<rho>, g_updateNV := g_updateNV \<rho>\<rparr>"
      using J by (cases \<tau>) auto
    have n: "12 \<le> length y" using len y by auto
    have s: "g_NvStatus \<rho> = TPM_RC_SUCCESS" using ok by (subst fr0) simp
    have l'': "nv_list L \<rho> (xs @ y # ys) mc" using l' \<tau> by simp
    let ?a = "set_bit NV_WRITELOCKED (entry_attributes y)"
    show "\<exists>\<tau>'. ?body (nv_pos L xs + 4) (entry_handle y) (nv_pos L (xs @ [y])) \<tau> = Inr (False, nv_pos L (xs @ [y]), \<tau>') \<and>
        nv_list L (snd \<tau>') (xs @ lock_entry y # ys) mc \<and> ?J \<tau>'"
    proof (cases "\<not> bit (entry_attributes y) NV_ORDERLY \<and> bit (entry_attributes y) NV_GLOBALLOCK")
      case True
      then have e: "lock_entry y = set_attributes ?a y" using y by (simp add: lock_entry_def entry_orderly_def)
      obtain \<rho>' where "NvWriteNvIndexAttributes (nv_pos L xs + 4) ?a \<rho> = Inr (TPM_RC_SUCCESS, \<rho>')"
        "nv_list L \<rho>' (xs @ set_attributes ?a y # ys) mc"
        and fr: "\<rho>' = \<rho>\<lparr>s_NV := mem_put (s_NV \<rho>) (nv_pos L xs + 4 + 8) (le_bytes 4 (unat ?a)), g_updateNV := g_updateNV \<rho>'\<rparr>"
        using NvWriteNvIndexAttributes_ok [OF l'' n s, of ?a] by blast
      moreover have "\<rho>' = st\<lparr>s_NV := s_NV \<rho>', g_updateNV := g_updateNV \<rho>'\<rparr>" by (subst fr, subst fr0, subst (2) fr) simp
      ultimately show ?thesis using True \<tau> e NvReadNvIndexAttributes_ok [OF l'' n]
        by (intro exI [of _ "(TPM_RC_SUCCESS, \<rho>')"]) simp
    next
      case False
      then have "lock_entry y = y" using y by (auto simp: lock_entry_def entry_orderly_def)
      then show ?thesis using False \<tau> fr0 l'' NvReadNvIndexAttributes_ok [OF l'' n]
        by (intro exI [of _ \<tau>]) auto
    qed
  qed (use l len in \<open>auto simp: lock_entry_def set_attributes_fields\<close>)
  then show ?thesis by (auto simp: NvSetGlobalLock_nv_def case_prod_unfold)
qed

lemma NvSetGlobalLock_ram_ok:
  assumes l: "ram_list st rs"
  shows "\<exists>st'. NvSetGlobalLock_ram st = Inr st' \<and> ram_list st' (map lock_ram rs) \<and>
    st' = st\<lparr>s_indexOrderlyRam := s_indexOrderlyRam st'\<rparr>"
proof -
  let ?J = "\<lambda>\<tau>. \<tau> = st\<lparr>s_indexOrderlyRam := s_indexOrderlyRam \<tau>\<rparr>"
  let ?body = "\<lambda>currentRamAddr (_ :: TPM_HANDLE) ramIter st.
      bindE (NvReadRamIndexAttributes (Some currentRamAddr) st) (\<lambda>attributes.
      if bit attributes NV_GLOBALLOCK
      then bindE (NvWriteRamIndexAttributes (Some currentRamAddr) (set_bit NV_WRITELOCKED attributes) st)
             (\<lambda>st. Inr (False, ramIter, st))
      else Inr (False, ramIter, st))"
  have "\<exists>i \<sigma>'. scan_while RAM_FUEL (\<lambda>\<sigma>. NvRamNext \<sigma>) ?body None st = Inr (None, i, \<sigma>') \<and> ram_list \<sigma>' (map lock_ram rs) \<and> ?J \<sigma>'"
  proof (rule ram_rewrite_scan [where view = "\<lambda>\<sigma>. \<sigma>"])
    fix xs y ys \<tau>
    assume l': "ram_list \<tau> (xs @ y # ys)" and J: "?J \<tau>"
    obtain \<tau>' where "NvWriteRamIndexAttributes (Some (ram_end xs)) (set_bit NV_WRITELOCKED (ram_attributes y)) \<tau> = Inr \<tau>'"
      "ram_list \<tau>' (xs @ set_ram_attributes (set_bit NV_WRITELOCKED (ram_attributes y)) y # ys)"
      and fr: "\<tau>' = \<tau>\<lparr>s_indexOrderlyRam := s_indexOrderlyRam \<tau>'\<rparr>"
      using NvWriteRamIndexAttributes_ok [OF l'] by blast
    moreover have "?J \<tau>'" by (subst fr, subst J) simp
    ultimately show "\<exists>\<tau>'. ?body (ram_end xs) (entry_handle y) (Some (ram_end (xs @ [y]))) \<tau> = Inr (False, Some (ram_end (xs @ [y])), \<tau>') \<and>
        ram_list \<tau>' (xs @ lock_ram y # ys) \<and> ?J \<tau>'"
      using l' J NvReadRamIndexAttributes_ok [OF l']
      by (intro exI [of _ "if bit (ram_attributes y) NV_GLOBALLOCK then \<tau>' else \<tau>"]) (auto simp: lock_ram_def)
  qed (use l in \<open>auto simp: ram_list_def lock_ram_def set_ram_attributes_fields\<close>)
  then show ?thesis by (auto simp: NvSetGlobalLock_ram_def)
qed

lemma NvSetGlobalLock_ok:
  assumes i: "nv_list L st ps mc" "ram_list st rs" and ok: "g_NvStatus st = TPM_RC_SUCCESS"
    and len: "\<forall>p \<in> set ps. is_index p \<longrightarrow> 12 \<le> length p"
  shows "\<exists>st'. NvSetGlobalLock L st = Inr (TPM_RC_SUCCESS, st') \<and> nv_list L st' (map lock_entry ps) mc \<and> ram_list st' (map lock_ram rs) \<and>
    same_control st st'"
proof -
  obtain st1 where n: "NvSetGlobalLock_nv L st = Inr (TPM_RC_SUCCESS, st1)" "nv_list L st1 (map lock_entry ps) mc"
    and fr1: "st1 = st\<lparr>s_NV := s_NV st1, g_updateNV := g_updateNV st1\<rparr>"
    using NvSetGlobalLock_nv_ok [OF i(1) ok len] by blast
  have "ram_list st1 rs" using i(2) ram_list_frame [OF fr1] by simp
  then obtain st2 where "NvSetGlobalLock_ram st1 = Inr st2" "ram_list st2 (map lock_ram rs)"
    and fr2: "st2 = st1\<lparr>s_indexOrderlyRam := s_indexOrderlyRam st2\<rparr>" using NvSetGlobalLock_ram_ok by blast
  moreover have "nv_list L st2 (map lock_entry ps) mc" using n(2) by (subst fr2) (simp add: nv_list_def)
  moreover have "same_control st st1" by (rule same_control_frame(1) [OF fr1])
  moreover have "same_control st1 st2" by (subst fr2) (simp add: same_control_def)
  ultimately show ?thesis using n(1) by (auto simp: NvSetGlobalLock_def intro: same_control_trans)
qed

end
