(* ===== verification/FTPM_NVTheorems.thy ===== *)
theory FTPM_NVTheorems
  imports FTPM_NVWrite
begin

text \<open>
  The properties of the NV subsystem as a whole: the invariant of every reachable state,
  and the guarantees of the single operations.
\<close>

section \<open>Persistent objects\<close>

definition wf_layout :: "nv_layout \<Rightarrow> bool" where
  "wf_layout L \<longleftrightarrow> RAM_INDEX_SPACE \<le> NV_USER_DYNAMIC L \<and> NV_USER_DYNAMIC L + SIZEOF_NV_LIST_TERMINATOR \<le> NV_MEMORY_SIZE \<and>
     4 \<le> OFFSET_EVICTHANDLE L \<and> OFFSET_EVICTHANDLE L + 4 \<le> SIZEOF_OBJECT L \<and> SIZEOF_OBJECT L \<le> NV_MEMORY_SIZE"

definition object_payload :: "nv_layout \<Rightarrow> TPM_HANDLE \<Rightarrow> BYTE list \<Rightarrow> BYTE list" where
  "object_payload L h obj = le_bytes 4 (unat h) @ bytes_put (OFFSET_EVICTHANDLE L) (le_bytes 4 (unat h)) (obj_evict True obj)"

definition object_room :: "nv_layout \<Rightarrow> BYTE list list \<Rightarrow> bool" where
  "object_room L ps \<longleftrightarrow> nv_pos L ps + SIZEOF_OBJECT L + 4 + reserved_bytes L ps False False \<le> NV_MEMORY_SIZE"

lemma length_obj_evict [simp]: "4 \<le> length obj \<Longrightarrow> length (obj_evict b obj) = length obj"
  by (simp add: obj_evict_def)

lemma object_payload_fields:
  assumes "wf_layout L" "length obj = SIZEOF_OBJECT L" "HandleGetType h = TPM_HT_PERSISTENT"
  shows "length (object_payload L h obj) = 4 + SIZEOF_OBJECT L" "entry_handle (object_payload L h obj) = h"
    "is_persistent (object_payload L h obj)" "\<not> is_index (object_payload L h obj)" "\<not> entry_orderly (object_payload L h obj)"
  using assms
  by (auto simp: object_payload_def wf_layout_def entry_handle_def is_persistent_def is_index_def entry_orderly_def le_nat_le_bytes_word)

lemma nv_inv_append_persistent:
  assumes i: "nv_inv L st ps rs mc" and p: "is_persistent p" "length p = 4 + SIZEOF_OBJECT L" "entry_handle p \<notin> entry_handle ` set ps"
    and l: "nv_list L st' (ps @ [p]) mc'" and r: "ram_list st' rs"
  shows "nv_inv L st' (ps @ [p]) rs mc'"
proof -
  have "\<forall>q \<in> set rs. wf_ram (ps @ [p]) q"
    using nv_inv_ramD [OF i] wf_ram_mono [of ps _ "ps @ [p]"] by auto
  moreover have "wf_entry L p" using p by (simp add: wf_entry_def)
  ultimately show ?thesis using i l r p persistent_not_orderly [OF p(1)] unfolding nv_inv_def by simp
qed

lemma NvAddEvictObject_ok:
  assumes i: "nv_inv L st ps rs mc" and ok: "g_NvStatus st = TPM_RC_SUCCESS" and L: "wf_layout L"
    and obj: "length obj = SIZEOF_OBJECT L" "HandleGetType h = TPM_HT_PERSISTENT" "h \<notin> entry_handle ` set ps"
  shows "\<exists>rc obj' st'. NvAddEvictObject L h obj st = Inr (rc, obj', st') \<and>
    (if object_room L ps
     then rc = TPM_RC_SUCCESS \<and> nv_inv L st' (ps @ [object_payload L h obj]) rs (s_maxCounter st) \<and> same_control st st'
     else rc = TPM_RC_NV_SPACE \<and> st' = st)"
proof -
  let ?o = "bytes_put (OFFSET_EVICTHANDLE L) (le_bytes 4 (unat h)) (obj_evict True obj)"
  have t: "NvTestSpace L (SIZEOF_OBJECT L + 4) False False st = Inr (object_room L ps)"
    using NvTestSpace_ok [OF i, of "SIZEOF_OBJECT L + 4" False False] by (simp add: object_room_def add.assoc)
  show ?thesis
  proof (cases "object_room L ps")
    case True
    have hu: "h \<noteq> TPM_RH_UNASSIGNED" using obj(2) by (auto simp: HandleGetType_def)
    have "length ?o = SIZEOF_OBJECT L" using obj L by (simp add: wf_layout_def)
    moreover have "nv_pos L ps + 4 + length (handle_prefix h) + SIZEOF_OBJECT L + 12 \<le> NV_MEMORY_SIZE"
      using True hu by (simp add: object_room_def reserved_bytes_def handle_prefix_def)
    ultimately obtain st' rest where a: "NvAdd L (SIZEOF_OBJECT L) h ?o st = Inr (TPM_RC_SUCCESS, st')"
      and l: "nv_list L st' (ps @ [object_payload L h obj @ rest]) (s_maxCounter st)" "rest = []"
      and fr: "st' = st\<lparr>s_NV := s_NV st', g_updateNV := g_updateNV st OR UT_NV\<rparr>"
      using NvAdd_ok [OF nv_inv_listD(1) [OF i] ok, of ?o "SIZEOF_OBJECT L" h] hu
      by (auto simp: handle_prefix_def object_payload_def)
    have "nv_inv L st' (ps @ [object_payload L h obj]) rs (s_maxCounter st)"
    proof (rule nv_inv_append_persistent [OF i])
      show "ram_list st' rs" using nv_inv_listD(2) [OF i] ram_list_frame [OF fr] by simp
    qed (use object_payload_fields [OF L obj(1,2)] obj(3) l in auto)
    then show ?thesis using True t a same_control_frame(1) [OF fr] by (simp add: NvAddEvictObject_def Let_def)
  next
    case False
    then show ?thesis using t by (simp add: NvAddEvictObject_def Let_def)
  qed
qed

section \<open>Rewriting keeps the invariant\<close>

lemma nv_inv_map:
  assumes i: "nv_inv L st ps rs mc"
    and f: "\<And>p. p \<in> set ps \<Longrightarrow> length (f p) = length p \<and> entry_handle (f p) = entry_handle p \<and>
      (is_index p \<longrightarrow> entry_dataSize (f p) = entry_dataSize p \<and> (entry_orderly (f p) \<longleftrightarrow> entry_orderly p) \<and>
       GET_TPM_NT (entry_attributes (f p)) = GET_TPM_NT (entry_attributes p))"
    and g: "\<And>r. r \<in> set rs \<Longrightarrow> length (g r) = length r \<and> entry_handle (g r) = entry_handle r \<and>
      (bit (ram_attributes (g r)) NV_ORDERLY \<longleftrightarrow> bit (ram_attributes r) NV_ORDERLY) \<and>
      GET_TPM_NT (ram_attributes (g r)) = GET_TPM_NT (ram_attributes r)"
    and l: "nv_list L st' (map f ps) mc'" and r: "ram_list st' (map g rs)"
  shows "nv_inv L st' (map f ps) (map g rs) mc'"
proof -
  have h: "map entry_handle (map f ps) = map entry_handle ps" "map entry_handle (map g rs) = map entry_handle rs"
    using f g by auto
  have t: "is_index (f p) = is_index p" "is_persistent (f p) = is_persistent p" if "p \<in> set ps" for p
    using f [OF that] by (simp_all add: is_index_def is_persistent_def)
  have w: "wf_entry L (f p)" if p: "p \<in> set ps" for p
    using nv_inv_entryD [OF i p] f [OF p] t [OF p] IsNvCounterIndex_cong [of "entry_attributes (f p)" "entry_attributes p"]
    unfolding wf_entry_def by auto
  have o: "entry_orderly (f p) \<longleftrightarrow> entry_orderly p" if p: "p \<in> set ps" for p
    using f [OF p] t [OF p] by (auto simp: entry_orderly_def)
  have wr: "wf_ram (map f ps) (g q)" if q: "q \<in> set rs" for q
  proof -
    obtain p where p: "p \<in> set ps" "entry_orderly p" "entry_handle p = entry_handle q" "length q = 8 + entry_dataSize p"
      "bit (ram_attributes q) NV_ORDERLY" "GET_TPM_NT (ram_attributes q) = GET_TPM_NT (entry_attributes p)"
      using nv_inv_ramD [OF i q] unfolding wf_ram_def by blast
    have "is_index p" using p(2) by (simp add: entry_orderly_def)
    then show ?thesis unfolding wf_ram_def using p f [OF p(1)] g [OF q] by (intro bexI [of _ "f p"]) auto
  qed
  have orr: "entry_handle (f p) \<in> entry_handle ` set (map g rs)" if p: "p \<in> set ps" "entry_orderly (f p)" for p
  proof -
    obtain q where "q \<in> set rs" "entry_handle q = entry_handle p"
      using nv_inv_orderlyD [OF i p(1)] o [OF p(1)] p(2) by blast
    then show ?thesis using f [OF p(1)] g by (metis (no_types, lifting) image_eqI list.set_map)
  qed
  show ?thesis
    unfolding nv_inv_def h using i l r w wr orr nv_inv_distinct [OF i] by (auto simp: nv_inv_def)
qed

lemma startup_entry_keeps:
  assumes "wf_entry L p"
  shows "length (startup_entry type p) = length p \<and> entry_handle (startup_entry type p) = entry_handle p \<and>
    (is_index p \<longrightarrow> entry_dataSize (startup_entry type p) = entry_dataSize p \<and>
     (entry_orderly (startup_entry type p) \<longleftrightarrow> entry_orderly p) \<and>
     GET_TPM_NT (entry_attributes (startup_entry type p)) = GET_TPM_NT (entry_attributes p))"
  using wf_entry_length [OF assms]
  by (auto simp: startup_entry_def set_attributes_fields NvSetStartupAttributes_bits entry_orderly_def)

lemma lock_entry_keeps:
  assumes "wf_entry L p"
  shows "length (lock_entry p) = length p \<and> entry_handle (lock_entry p) = entry_handle p \<and>
    (is_index p \<longrightarrow> entry_dataSize (lock_entry p) = entry_dataSize p \<and>
     (entry_orderly (lock_entry p) \<longleftrightarrow> entry_orderly p) \<and>
     GET_TPM_NT (entry_attributes (lock_entry p)) = GET_TPM_NT (entry_attributes p))"
  using wf_entry_length [OF assms]
  by (auto simp: lock_entry_def set_attributes_fields entry_orderly_def bit_set_bit_iff)

lemma lock_ram_keeps:
  assumes "8 \<le> length r"
  shows "length (lock_ram r) = length r \<and> entry_handle (lock_ram r) = entry_handle r \<and>
    (bit (ram_attributes (lock_ram r)) NV_ORDERLY \<longleftrightarrow> bit (ram_attributes r) NV_ORDERLY) \<and>
    GET_TPM_NT (ram_attributes (lock_ram r)) = GET_TPM_NT (ram_attributes r)"
  using assms by (auto simp: lock_ram_def set_ram_attributes_fields bit_set_bit_iff)

lemma nv_inv_ram_length: "nv_inv L st ps rs mc \<Longrightarrow> r \<in> set rs \<Longrightarrow> 8 \<le> length r"
  using nv_inv_listD(2) by (auto simp: ram_list_def)

lemma nv_inv_long: "nv_inv L st ps rs mc \<Longrightarrow> \<forall>p \<in> set ps. is_index p \<longrightarrow> 12 \<le> length p"
  using nv_inv_index_length by fastforce

lemma NvSetGlobalLock_inv:
  assumes i: "nv_inv L st ps rs mc" and ok: "g_NvStatus st = TPM_RC_SUCCESS"
  shows "\<exists>st'. NvSetGlobalLock L st = Inr (TPM_RC_SUCCESS, st') \<and>
    nv_inv L st' (map lock_entry ps) (map lock_ram rs) mc \<and> same_control st st'"
proof -
  obtain st' where "NvSetGlobalLock L st = Inr (TPM_RC_SUCCESS, st')" and l: "nv_list L st' (map lock_entry ps) mc"
    and r: "ram_list st' (map lock_ram rs)" and "same_control st st'"
    using NvSetGlobalLock_ok [OF nv_inv_listD [OF i] ok nv_inv_long [OF i]] by blast
  moreover have "nv_inv L st' (map lock_entry ps) (map lock_ram rs) mc"
    by (rule nv_inv_map [OF i _ _ l r])
      (use lock_entry_keeps [OF nv_inv_entryD [OF i]] lock_ram_keeps [OF nv_inv_ram_length [OF i]] in blast)+
  ultimately show ?thesis by blast
qed

section \<open>Reachable states\<close>

text \<open>
  One step is one command: the cache of the index is reset, then one operation on the NV
  area runs.  Steps are taken while NV can be written; the operations of a command that finds
  NV unavailable are refused (\<open>nv_unavailable_refused\<close>).
\<close>

inductive nv_step :: "nv_layout \<Rightarrow> nv_state \<Rightarrow> nv_state \<Rightarrow> bool" for L where
  define_index: "g_NvStatus st = TPM_RC_SUCCESS \<Longrightarrow> new_index ix \<Longrightarrow>
    NvIndexIsDefined L (nvIndex (publicArea ix)) (NvIndexCacheInit st) = Inr False \<Longrightarrow>
    NvDefineIndex L (publicArea ix) (authValue ix) (NvIndexCacheInit st) = Inr (rc, st') \<Longrightarrow> nv_step L st st'"
| undefine_index: "g_NvStatus st = TPM_RC_SUCCESS \<Longrightarrow> HandleGetType h = TPM_HT_NV_INDEX \<Longrightarrow>
    NvGetIndexInfo L h (NvIndexCacheInit st) = Inr (Some ix, ref, st1) \<Longrightarrow>
    NvDeleteIndex L (Some ix) ref st1 = Inr (rc, st') \<Longrightarrow> nv_step L st st'"
| add_evict: "g_NvStatus st = TPM_RC_SUCCESS \<Longrightarrow> length obj = SIZEOF_OBJECT L \<Longrightarrow> HandleGetType h = TPM_HT_PERSISTENT \<Longrightarrow>
    NvFindHandle L h (NvIndexCacheInit st) = Inr 0 \<Longrightarrow>
    NvAddEvictObject L h obj (NvIndexCacheInit st) = Inr (rc, obj', st') \<Longrightarrow> nv_step L st st'"
| delete_evict: "g_NvStatus st = TPM_RC_SUCCESS \<Longrightarrow> HandleGetType h = TPM_HT_PERSISTENT \<Longrightarrow>
    NvDeleteEvict L h (NvIndexCacheInit st) = Inr (rc, st') \<Longrightarrow> nv_step L st st'"
| flush: "g_NvStatus st = TPM_RC_SUCCESS \<Longrightarrow> NvFlushHierarchy L hierarchy (NvIndexCacheInit st) = Inr (rc, st') \<Longrightarrow> nv_step L st st'"
| global_lock: "g_NvStatus st = TPM_RC_SUCCESS \<Longrightarrow> NvSetGlobalLock L (NvIndexCacheInit st) = Inr (rc, st') \<Longrightarrow> nv_step L st st'"
| save_orderly: "g_NvStatus st = TPM_RC_SUCCESS \<Longrightarrow> NvUpdateIndexOrderlyData L (NvIndexCacheInit st) = Inr st' \<Longrightarrow> nv_step L st st'"

inductive nv_reachable :: "nv_layout \<Rightarrow> nv_state \<Rightarrow> bool" for L where
  manufacture: "g_NvStatus st = TPM_RC_SUCCESS \<Longrightarrow> NvManufacture L st = Inr st' \<Longrightarrow> nv_reachable L st'"
| step: "nv_reachable L st \<Longrightarrow> nv_step L st st' \<Longrightarrow> nv_reachable L st'"

inductive_cases nv_stepE: "nv_step L st st'"

definition nv_ok :: "nv_layout \<Rightarrow> nv_state \<Rightarrow> bool" where
  "nv_ok L st \<longleftrightarrow> g_NvStatus st = TPM_RC_SUCCESS \<and> (\<exists>ps rs. nv_inv L st ps rs (s_maxCounter st))"

lemma nv_okI: "nv_inv L st ps rs mc \<Longrightarrow> s_maxCounter st = mc \<Longrightarrow> g_NvStatus st = TPM_RC_SUCCESS \<Longrightarrow> nv_ok L st"
  unfolding nv_ok_def by blast

lemma nv_inv_CacheInit: "nv_inv L (NvIndexCacheInit st) ps rs mc \<longleftrightarrow> nv_inv L st ps rs mc"
  by (simp add: nv_inv_def nv_list_def ram_list_def NvIndexCacheInit_def)

lemma CacheInit_fields [simp]:
  "g_NvStatus (NvIndexCacheInit st) = g_NvStatus st" "s_maxCounter (NvIndexCacheInit st) = s_maxCounter st"
  "HandleGetType h = TPM_HT_NV_INDEX \<Longrightarrow> uncached h (NvIndexCacheInit st)"
  by (auto simp: NvIndexCacheInit_def uncached_def HandleGetType_def)

text \<open>A search that fails shows that the handle is new, one that succeeds gives the entry.\<close>

lemma NvFindHandle_cases:
  assumes i: "nv_inv L st ps rs mc"
  obtains "h \<notin> entry_handle ` set ps" "NvFindHandle L h st = Inr 0"
  | xs p ys where "ps = xs @ p # ys" "entry_handle p = h" "NvFindHandle L h st = Inr (nv_pos L xs + 4)"
proof (cases "h \<in> entry_handle ` set ps")
  case True
  then obtain xs p ys where p: "ps = xs @ p # ys" "entry_handle p = h" by (metis imageE split_list)
  then have "entry_handle p \<notin> entry_handle ` set xs" using nv_inv_distinct(1) [OF i] by simp
  then show ?thesis using that(2) [OF p] NvFindHandle_hit [of L st xs p ys mc] nv_inv_listD(1) [OF i] p by simp
next
  case False
  then show ?thesis using that(1) NvFindHandle_none [OF nv_inv_listD(1) [OF i]] by blast
qed

lemma index_info_describes:
  assumes i: "nv_inv L st (xs @ p # ys) rs mc" and p: "is_index p"
  shows "describes (index_info rs p) p"
proof (cases "entry_orderly p")
  case True
  then obtain us q vs where rs: "rs = us @ q # vs" "entry_handle q = entry_handle p"
    "ram_of (xs @ ys) rs = us @ vs" "entry_handle p \<notin> entry_handle ` set us" by (rule ram_of_orderly [OF i])
  have "\<forall>u \<in> set us. entry_handle u \<noteq> entry_handle p" using rs(4) by (metis imageI)
  then have info: "index_info rs p = (entry_index p)\<lparr>publicArea := (publicArea (entry_index p))\<lparr>nv_attributes := ram_attributes q\<rparr>\<rparr>"
    using rs True find_append_first [of us "\<lambda>r. entry_handle r = entry_handle p" q vs] by (simp add: index_info_def)
  obtain p' where p': "p' \<in> set (xs @ p # ys)" "entry_handle p' = entry_handle q" "bit (ram_attributes q) NV_ORDERLY"
    "GET_TPM_NT (ram_attributes q) = GET_TPM_NT (entry_attributes p')"
    using nv_inv_ramD [OF i, of q] rs unfolding wf_ram_def by auto
  have "p' = p" by (rule distinct_handle_eq [OF nv_inv_distinct(1) [OF i]]) (use p' rs in auto)
  then show ?thesis using p' True entry_index_describes [OF p] info by (simp add: describes_def)
next
  case False
  then show ?thesis using entry_index_describes [OF p] by (simp add: index_info_def)
qed

lemma nv_ok_define:
  assumes ok: "nv_ok L st" and new: "new_index ix"
    and n: "NvIndexIsDefined L (nvIndex (publicArea ix)) (NvIndexCacheInit st) = Inr False"
    and d: "NvDefineIndex L (publicArea ix) (authValue ix) (NvIndexCacheInit st) = Inr (rc, st')"
  shows "nv_ok L st'"
proof -
  let ?st = "NvIndexCacheInit st"
  obtain ps rs where i: "nv_inv L ?st ps rs (s_maxCounter ?st)" and s: "g_NvStatus ?st = TPM_RC_SUCCESS"
    using ok by (auto simp: nv_ok_def nv_inv_CacheInit)
  have new': "nvIndex (publicArea ix) \<notin> entry_handle ` set ps"
    by (rule NvFindHandle_cases [OF i, of "nvIndex (publicArea ix)"]) (use n in \<open>auto simp: NvIndexIsDefined_def\<close>)
  show ?thesis
  proof (cases "index_room L ps rs ix")
    case True
    then show ?thesis using NvDefineIndex_ok [OF i s new new'] d s by (auto simp: same_control_def intro: nv_okI)
  next
    case False
    then show ?thesis using NvDefineIndex_no_space [OF i new_index_storable [OF new]] d i s by (auto simp: nv_ok_def)
  qed
qed

lemma nv_ok_undefine:
  assumes ok: "nv_ok L st" and h: "HandleGetType h = TPM_HT_NV_INDEX"
    and g: "NvGetIndexInfo L h (NvIndexCacheInit st) = Inr (Some ix, ref, st1)"
    and d: "NvDeleteIndex L (Some ix) ref st1 = Inr (rc, st')"
  shows "nv_ok L st'"
proof -
  let ?st = "NvIndexCacheInit st"
  obtain ps rs where i: "nv_inv L ?st ps rs (s_maxCounter ?st)" and s: "g_NvStatus ?st = TPM_RC_SUCCESS"
    using ok by (auto simp: nv_ok_def nv_inv_CacheInit)
  show ?thesis
  proof (rule NvFindHandle_cases [OF i, of h])
    assume "h \<notin> entry_handle ` set ps"
    then show ?thesis using NvGetIndexInfo_none [OF nv_inv_listD(1) [OF i], of h] g h by auto
  next
    fix xs p ys assume p: "ps = xs @ p # ys" "entry_handle p = h"
    then have ix: "is_index p" using h by (simp add: is_index_def)
    have i': "nv_inv L ?st (xs @ p # ys) rs (s_maxCounter ?st)" using i p by simp
    have st1: "ix = index_info rs p" "ref = nv_pos L xs + 4" "nv_inv L st1 (xs @ p # ys) rs (s_maxCounter ?st)" "g_NvStatus st1 = TPM_RC_SUCCESS"
      using NvGetIndexInfo_ok [OF i' ix] g p h s by auto
    show ?thesis using NvDeleteIndex_ok [OF st1(3,4) ix index_info_describes [OF i' ix]] d st1(1,2)
      by (auto intro: nv_okI)
  qed
qed

lemma nv_ok_delete_evict:
  assumes ok: "nv_ok L st" and h: "HandleGetType h = TPM_HT_PERSISTENT"
    and d: "NvDeleteEvict L h (NvIndexCacheInit st) = Inr (rc, st')"
  shows "nv_ok L st'"
proof -
  let ?st = "NvIndexCacheInit st"
  obtain ps rs where i: "nv_inv L ?st ps rs (s_maxCounter ?st)" and s: "g_NvStatus ?st = TPM_RC_SUCCESS"
    using ok by (auto simp: nv_ok_def nv_inv_CacheInit)
  show ?thesis
  proof (rule NvFindHandle_cases [OF i, of h])
    assume "NvFindHandle L h ?st = Inr 0"
    then show ?thesis using d i s by (auto simp: NvDeleteEvict_def nv_ok_def)
  next
    fix xs p ys assume p: "ps = xs @ p # ys" "entry_handle p = h" "NvFindHandle L h ?st = Inr (nv_pos L xs + 4)"
    then have "is_persistent p" using h by (simp add: is_persistent_def)
    then show ?thesis using NvDelete_persistent_ok [of L ?st xs p ys rs] i s p d
      by (auto simp: NvDeleteEvict_def same_control_def intro: nv_okI)
  qed
qed

lemma nv_ok_add_evict:
  assumes ok: "nv_ok L st" and L: "wf_layout L" and obj: "length obj = SIZEOF_OBJECT L" "HandleGetType h = TPM_HT_PERSISTENT"
    and n: "NvFindHandle L h (NvIndexCacheInit st) = Inr 0"
    and d: "NvAddEvictObject L h obj (NvIndexCacheInit st) = Inr (rc, obj', st')"
  shows "nv_ok L st'"
proof -
  let ?st = "NvIndexCacheInit st"
  obtain ps rs where i: "nv_inv L ?st ps rs (s_maxCounter ?st)" and s: "g_NvStatus ?st = TPM_RC_SUCCESS"
    using ok by (auto simp: nv_ok_def nv_inv_CacheInit)
  have "h \<notin> entry_handle ` set ps" by (rule NvFindHandle_cases [OF i, of h]) (use n in auto)
  then show ?thesis using NvAddEvictObject_ok [OF i s L obj] d s i
    by (auto simp: same_control_def intro: nv_okI split: if_splits)
qed

lemma nv_ok_start:
  assumes "nv_ok L st"
  obtains ps rs where "nv_inv L (NvIndexCacheInit st) ps rs (s_maxCounter (NvIndexCacheInit st))"
    "g_NvStatus (NvIndexCacheInit st) = TPM_RC_SUCCESS"
  using assms by (auto simp: nv_ok_def nv_inv_CacheInit)

lemma nv_ok_step:
  assumes "nv_step L st st'" "nv_ok L st" "wf_layout L"
  shows "nv_ok L st'"
proof -
  obtain ps rs where i: "nv_inv L (NvIndexCacheInit st) ps rs (s_maxCounter (NvIndexCacheInit st))"
    and s: "g_NvStatus (NvIndexCacheInit st) = TPM_RC_SUCCESS" by (rule nv_ok_start [OF assms(2)])
  show ?thesis using assms(1)
  proof cases
    case (flush hierarchy rc)
    then show ?thesis using NvFlushHierarchy_ok [OF i s, of hierarchy] by (auto intro: nv_okI)
  next
    case (global_lock rc)
    then show ?thesis using NvSetGlobalLock_inv [OF i s] by (auto simp: same_control_def intro: nv_okI)
  next
    case save_orderly
    obtain st1 where "NvUpdateIndexOrderlyData L (NvIndexCacheInit st) = Inr st1"
      and l: "nv_list L st1 ps (s_maxCounter (NvIndexCacheInit st))" "ram_list st1 rs"
      and fr: "st1 = (NvIndexCacheInit st)\<lparr>s_NV := s_NV st1, g_updateNV := g_updateNV (NvIndexCacheInit st) OR UT_NV\<rparr>"
      using NvUpdateIndexOrderlyData_ok [OF nv_inv_listD [OF i]] by blast
    moreover have "nv_inv L st1 ps rs (s_maxCounter (NvIndexCacheInit st))" using i l by (simp add: nv_inv_def)
    moreover have "s_maxCounter st1 = s_maxCounter (NvIndexCacheInit st)" "g_NvStatus st1 = TPM_RC_SUCCESS"
      using s by (subst fr, simp)+
    ultimately show ?thesis using save_orderly by (auto intro: nv_okI)
  qed (use assms(2,3) in \<open>blast intro: nv_ok_define nv_ok_undefine nv_ok_delete_evict nv_ok_add_evict\<close>)+
qed

lemma nv_reachable_ok:
  assumes "nv_reachable L st" "wf_layout L" shows "nv_ok L st"
  using assms(1)
proof induction
  case (manufacture st st')
  then show ?case using NvManufacture_ok [of L st] assms(2) by (auto simp: wf_layout_def intro: nv_okI)
next
  case (step st st')
  then show ?case using nv_ok_step assms(2) by blast
qed

section \<open>Example states\<close>

text \<open>A state that holds given lists, with the orderly data also saved in NV.\<close>

definition ex_empty_index :: NV_INDEX where
  "ex_empty_index = \<lparr>publicArea = \<lparr>nvIndex = TPM_RH_UNASSIGNED, nameAlg = 0, nv_attributes = 0,
      authPolicy = replicate 66 0, dataSize = 0\<rparr>, authValue = replicate 66 0\<rparr>"

definition state_of :: "nv_layout \<Rightarrow> BYTE list list \<Rightarrow> BYTE list list \<Rightarrow> UINT64 \<Rightarrow> nv_state" where
  "state_of L ps rs mc =
     \<lparr>s_NV = mem_put (mem_put (\<lambda>_. 0) (NV_INDEX_RAM_DATA L) (list_bytes rs)) (NV_USER_DYNAMIC L) (list_bytes ps @ terminator mc),
      s_evictNvEnd = NV_MEMORY_SIZE, s_maxCounter = mc, s_indexOrderlyRam = mem_put (\<lambda>_. 0) 0 (list_bytes rs),
      s_cachedNvRef = NV_REF_INIT, s_cachedNvRamRef = None, s_cachedNvIndex = ex_empty_index,
      g_NvStatus = TPM_RC_SUCCESS, g_updateNV = 0, g_clearOrderly = False\<rparr>"

lemma holds_at_zero: "a + length bs \<le> b \<Longrightarrow> holds_at (mem_put (\<lambda>_. 0) a bs) b (replicate n 0)"
  by (auto simp: holds_at_nth mem_put_def)

lemma state_of_ram:
  assumes "\<forall>r \<in> set rs. 8 \<le> length r" "ram_end rs \<le> RAM_INDEX_SPACE"
  shows "ram_list (state_of L ps rs mc) rs"
  using assms by (simp add: ram_list_def state_of_def holds_at_put_same holds_at_zero)

lemma state_of_nv:
  assumes "wf_layout L" "wf_payloads ps" "nv_pos L ps + SIZEOF_NV_LIST_TERMINATOR \<le> NV_MEMORY_SIZE"
  shows "nv_list L (state_of L ps rs mc) ps mc"
  using assms by (simp add: nv_list_def state_of_def holds_at_put_same wf_layout_def)

lemma state_of_saved:
  assumes L: "wf_layout L" and r: "\<forall>r \<in> set rs. 8 \<le> length r" "ram_end rs \<le> RAM_INDEX_SPACE"
  shows "ram_saved L (state_of L ps rs mc) rs"
proof -
  let ?st = "state_of L ps rs mc" and ?d = "NV_INDEX_RAM_DATA L"
  have d: "?d + RAM_INDEX_SPACE = NV_USER_DYNAMIC L" using L by (simp add: wf_layout_def NV_INDEX_RAM_DATA_def)
  have "s_NV ?st (?d + x) = s_indexOrderlyRam ?st x" if "x < RAM_INDEX_SPACE" for x
    using that d r(2) by (simp add: state_of_def mem_put_def)
  then have "mem_get (s_NV ?st) ?d RAM_INDEX_SPACE = mem_get (s_indexOrderlyRam ?st) 0 RAM_INDEX_SPACE"
    by (intro nth_equalityI) (simp_all add: nth_mem_get)
  then have "restored L ?st = ?st"
    using mem_put_same [of "s_indexOrderlyRam ?st" 0 "mem_get (s_indexOrderlyRam ?st) 0 RAM_INDEX_SPACE"]
    by (simp add: restored_def)
  then show ?thesis using state_of_ram [OF r] by (simp add: ram_saved_def)
qed

lemma state_of_inv:
  assumes L: "wf_layout L" and room: "nv_pos L ps + SIZEOF_NV_LIST_TERMINATOR \<le> NV_MEMORY_SIZE" "ram_end rs \<le> RAM_INDEX_SPACE"
    and w: "\<forall>p \<in> set ps. wf_entry L p" "distinct (map entry_handle ps)" "\<forall>r \<in> set rs. wf_ram ps r" "distinct (map entry_handle rs)"
      "\<forall>p \<in> set ps. entry_orderly p \<longrightarrow> entry_handle p \<in> entry_handle ` set rs"
  shows "nv_inv L (state_of L ps rs mc) ps rs mc"
proof -
  have "wf_payloads ps" using w(1) by (auto simp: wf_payloads_def wf_entry_def)
  moreover have "\<forall>r \<in> set rs. 8 \<le> length r" using w(3) by (auto simp: wf_ram_def)
  ultimately show ?thesis using L room w state_of_nv [OF L] state_of_ram [of rs L ps mc]
    by (auto simp: nv_inv_def wf_layout_def)
qed

lemma state_of_fields [simp]:
  "s_maxCounter (state_of L ps rs mc) = mc" "g_NvStatus (state_of L ps rs mc) = TPM_RC_SUCCESS"
  "HandleGetType h = TPM_HT_NV_INDEX \<Longrightarrow> uncached h (state_of L ps rs mc)"
  by (auto simp: state_of_def uncached_def ex_empty_index_def HandleGetType_def)

definition ex_layout :: nv_layout where
  "ex_layout = \<lparr>NV_USER_DYNAMIC = 4096, SIZEOF_OBJECT = 1024, OFFSET_EVICTHANDLE = 1000\<rparr>"

definition ex_index :: "TPM_HANDLE \<Rightarrow> UINT32 \<Rightarrow> NV_INDEX" where
  "ex_index h a = \<lparr>publicArea = \<lparr>nvIndex = h, nameAlg = 0x000B, nv_attributes = a,
      authPolicy = replicate 66 0, dataSize = 8\<rparr>, authValue = replicate 66 0\<rparr>"

lemma ex_layout_wf: "wf_layout ex_layout"
  by (simp add: wf_layout_def ex_layout_def)

lemma ex_index_new: "HandleGetType h = TPM_HT_NV_INDEX \<Longrightarrow> new_index (ex_index h a)"
  by (simp add: new_index_def ex_index_def wf_index_def)

text \<open>A counter index in NV that was written and has the value 5.\<close>

definition ex_counter :: "BYTE list" where
  "ex_counter = index_payload (ex_index 0x01000001 0x20000010) [0, 0, 0, 0, 0, 0, 0, 5]"

lemma ex_counter_fields:
  "entry_handle ex_counter = 0x01000001" "entry_attributes ex_counter = 0x20000010" "entry_dataSize ex_counter = 8"
  "is_index ex_counter" "\<not> entry_orderly ex_counter" "length ex_counter = 156" "\<not> is_persistent ex_counter"
proof -
  have n: "new_index (ex_index 0x01000001 0x20000010)" by (rule ex_index_new) (simp add: HandleGetType_def)
  show "entry_handle ex_counter = 0x01000001" "entry_attributes ex_counter = 0x20000010" "entry_dataSize ex_counter = 8"
    "is_index ex_counter" "\<not> entry_orderly ex_counter" "length ex_counter = 156" "\<not> is_persistent ex_counter"
    using index_payload_fields [OF n, of "[0, 0, 0, 0, 0, 0, 0, 5]"]
    by (simp_all add: ex_counter_def ex_index_def index_orderly_def is_index_def is_persistent_def bit_numeral_rec)
qed

lemma ex_counter_wf: "wf_entry L ex_counter"
  by (simp add: wf_entry_def ex_counter_fields)

lemma ex_counter_inv: "nv_inv ex_layout (state_of ex_layout [ex_counter] [] 2) [ex_counter] [] 2"
  by (rule state_of_inv [OF ex_layout_wf]) (simp_all add: ex_counter_wf ex_counter_fields nv_pos_def ex_layout_def)

lemma nv_count_ex_counter: "nv_count ex_counter = 5"
proof -
  have "length (NV_INDEX_bytes (ex_index 0x01000001 0x20000010)) = SIZEOF_NV_INDEX"
    by (rule length_NV_INDEX_bytes) (simp add: wf_index_def ex_index_def)
  then show ?thesis by (simp add: nv_count_def ex_counter_def index_payload_def ByteArrayToUint64_def ByteArrayToUint32_def ByteArrayToUint16_def)
qed

section \<open>Properties\<close>



lemma index_info_payload:
  assumes new: "new_index ix" and h: "nvIndex (publicArea ix) \<notin> entry_handle ` set rs"
  shows "index_info (rs @ (if index_orderly ix then [ram_payload (publicArea ix)] else [])) (index_payload ix rest) = ix"
proof -
  have w: "wf_index ix" using new by (simp add: new_index_def)
  then have e: "entry_index (index_payload ix rest) = ix"
    by (simp add: entry_index_def index_payload_def length_NV_INDEX_bytes NV_INDEX_round_trip)
  show ?thesis
  proof (cases "index_orderly ix")
    case True
    have "\<forall>u \<in> set rs. entry_handle u \<noteq> nvIndex (publicArea ix)" using h by (metis imageI)
    then have "find (\<lambda>r. entry_handle r = nvIndex (publicArea ix)) (rs @ [ram_payload (publicArea ix)]) = Some (ram_payload (publicArea ix))"
      by (intro find_append_first) (simp_all add: ram_payload_fields)
    then show ?thesis using True e index_payload_fields [OF new, of rest]
      by (simp add: index_info_def ram_payload_fields)
  next
    case False
    then show ?thesis using e index_payload_fields [OF new, of rest] by (simp add: index_info_def)
  qed
qed

text \<open>
  C15. An index that was defined is found again: \<^verbatim>\<open>NvGetIndexInfo\<close> returns the public area
  and the authorization value that \<^verbatim>\<open>NvDefineIndex\<close> was given, at the end of the old list.
\<close>

theorem nv_define_round_trip:
  assumes "nv_inv L st ps rs mc" "g_NvStatus st = TPM_RC_SUCCESS"
    and "new_index ix" "nvIndex (publicArea ix) \<notin> entry_handle ` set ps" "index_room L ps rs ix"
    and "uncached (nvIndex (publicArea ix)) st"
  shows "\<exists>st' st''. NvDefineIndex L (publicArea ix) (authValue ix) st = Inr (TPM_RC_SUCCESS, st') \<and>
    NvGetIndexInfo L (nvIndex (publicArea ix)) st' = Inr (Some ix, nv_pos L ps + 4, st'')"
proof -
  obtain rest st' where d: "NvDefineIndex L (publicArea ix) (authValue ix) st = Inr (TPM_RC_SUCCESS, st')"
    and i: "nv_inv L st' (ps @ [index_payload ix rest]) (rs @ (if index_orderly ix then [ram_payload (publicArea ix)] else [])) (s_maxCounter st)"
    and c: "same_control st st'"
    using NvDefineIndex_ok [OF assms(1-5)] by blast
  note f = index_payload_fields [OF assms(3), of rest]
  have "nvIndex (publicArea ix) \<notin> entry_handle ` set rs" using nv_inv_ram_handles [OF assms(1)] assms(4) by blast
  note info = index_info_payload [OF assms(3) this, of rest]
  have "uncached (entry_handle (index_payload ix rest)) st'"
    using assms(6) c f by (simp add: uncached_def same_control_def)
  then show ?thesis using NvGetIndexInfo_ok [OF i f(4)] d f(1) info by fastforce
qed

theorem nv_define_round_trip_witness:
  "\<exists>st' st''. NvDefineIndex ex_layout (publicArea (ex_index 0x01000002 0x04000000)) (replicate 66 0) (state_of ex_layout [ex_counter] [] 2) = Inr (TPM_RC_SUCCESS, st') \<and>
     NvGetIndexInfo ex_layout 0x01000002 st' = Inr (Some (ex_index 0x01000002 0x04000000), nv_pos ex_layout [ex_counter] + 4, st'')"
proof -
  let ?ix = "ex_index 0x01000002 0x04000000"
  have h: "nvIndex (publicArea ?ix) = 0x01000002" "authValue ?ix = replicate 66 0" by (simp_all add: ex_index_def)
  have "new_index ?ix" by (rule ex_index_new) (simp add: HandleGetType_def)
  moreover have "index_room ex_layout [ex_counter] [] ?ix"
    by (simp add: index_room_def Let_def index_orderly_def ex_index_def nv_pos_def ex_layout_def ex_counter_fields
        reserved_bytes_def num_type_def num_counters_def NV_EVICT_OBJECT_SIZE_def HandleGetType_def IsNvCounterIndex_def GET_TPM_NT_def bit_numeral_rec)
  moreover have "nvIndex (publicArea ?ix) \<notin> entry_handle ` set [ex_counter]" by (simp add: h ex_counter_fields)
  moreover have "uncached (nvIndex (publicArea ?ix)) (state_of ex_layout [ex_counter] [] 2)"
    by (simp add: h HandleGetType_def)
  ultimately show ?thesis using nv_define_round_trip [OF ex_counter_inv, of ?ix] h by simp
qed

text \<open>
  C16. \<^verbatim>\<open>NvFlushHierarchy\<close> ends, succeeds, and removes from NV exactly the entries of the
  hierarchy, in the order of the list, and from RAM the data of the removed indices.  The
  maximal counter never decreases and covers every written counter that was removed from NV.
\<close>

theorem nv_flush_hierarchy_exact:
  assumes "nv_inv L st ps rs (s_maxCounter st)" "g_NvStatus st = TPM_RC_SUCCESS"
  shows "\<exists>st'. NvFlushHierarchy L hierarchy st = Inr (TPM_RC_SUCCESS, st') \<and>
    (let keep = filter (\<lambda>p. \<not> flushed hierarchy p) ps in nv_inv L st' keep (ram_of keep rs) (s_maxCounter st')) \<and>
    s_maxCounter st \<le> s_maxCounter st' \<and>
    (\<forall>p \<in> set ps. flushed hierarchy p \<and> written_counter p \<longrightarrow> nv_count p \<le> s_maxCounter st')"
  using NvFlushHierarchy_ok [OF assms, of hierarchy] by (auto simp: Let_def)

theorem nv_flush_hierarchy_exact_witness:
  "\<exists>st'. NvFlushHierarchy ex_layout TPM_RH_OWNER (state_of ex_layout [ex_counter] [] 2) = Inr (TPM_RC_SUCCESS, st') \<and>
     nv_inv ex_layout st' [] [] (s_maxCounter st') \<and> 5 \<le> s_maxCounter st'"
proof -
  have "flushed TPM_RH_OWNER ex_counter" "written_counter ex_counter"
    by (simp_all add: flushed_def written_counter_def ex_counter_fields IsNvCounterIndex_def GET_TPM_NT_def bit_numeral_rec)
  then show ?thesis
    using nv_flush_hierarchy_exact [of ex_layout "state_of ex_layout [ex_counter] [] 2" "[ex_counter]" "[]" TPM_RH_OWNER]
      ex_counter_inv nv_count_ex_counter
    by (auto simp: ram_of_def)
qed



text \<open>
  C21. \<^verbatim>\<open>NvFlushHierarchy\<close> reads the attributes of an index from NV.  Those of an orderly
  counter are never marked written there, so that flushing the owner hierarchy drops the
  counter without saving its value, while deleting it with \<^verbatim>\<open>NvDeleteIndex\<close> on the
  description that the commands use does save it.
\<close>

theorem nv_flush_forgets_orderly_counter:
  assumes i: "nv_inv L st [p] [r] (s_maxCounter st)" and ok: "g_NvStatus st = TPM_RC_SUCCESS"
    and p: "entry_orderly p" "IsNvCounterIndex (entry_attributes p)" "\<not> bit (entry_attributes p) NV_WRITTEN"
      "\<not> bit (entry_attributes p) NV_PLATFORMCREATE"
    and r: "bit (ram_attributes r) NV_WRITTEN" and v: "s_maxCounter st < stored_count [r] p"
  shows "(\<exists>st'. NvFlushHierarchy L TPM_RH_OWNER st = Inr (TPM_RC_SUCCESS, st') \<and> nv_inv L st' [] [] (s_maxCounter st) \<and>
      s_maxCounter st' = s_maxCounter st) \<and>
    (\<exists>st'. NvDeleteIndex L (Some (index_info [r] p)) (NV_USER_DYNAMIC L + 4) st = Inr (TPM_RC_SUCCESS, st') \<and>
      nv_inv L st' [] [] (stored_count [r] p))"
proof -
  have ix: "is_index p" using p(1) by (simp add: entry_orderly_def)
  have i': "nv_inv L st ([] @ p # []) [r] (s_maxCounter st)" using i by simp
  have h: "entry_handle r = entry_handle p" using nv_inv_orderlyD [OF i _ p(1)] by auto
  have f: "flushed TPM_RH_OWNER p" "\<not> marked_written p" using ix p(3,4) by (simp_all add: flushed_def marked_written_def)
  have info: "index_info [r] p = (entry_index p)\<lparr>publicArea := (publicArea (entry_index p))\<lparr>nv_attributes := ram_attributes r\<rparr>\<rparr>"
    using p(1) h by (simp add: index_info_def)
  have "IsNvCounterIndex (ram_attributes r)"
    using index_info_describes [OF i' ix] p(2) info
      IsNvCounterIndex_cong [of "ram_attributes r" "entry_attributes p"] by (simp add: describes_def)
  then have "deleted_count (index_info [r] p) [r] p = stored_count [r] p"
    using r info by (simp add: deleted_count_def Let_def)
  then have "\<exists>st'. NvDeleteIndex L (Some (index_info [r] p)) (NV_USER_DYNAMIC L + 4) st = Inr (TPM_RC_SUCCESS, st') \<and>
      nv_inv L st' [] [] (stored_count [r] p)"
    using NvDeleteIndex_ok [OF i' ok ix index_info_describes [OF i' ix]]
      max_absorb2 [OF less_imp_le [OF v]] by (auto simp: ram_of_def)
  moreover have "\<exists>st'. NvFlushHierarchy L TPM_RH_OWNER st = Inr (TPM_RC_SUCCESS, st') \<and> nv_inv L st' [] [] (s_maxCounter st) \<and>
      s_maxCounter st' = s_maxCounter st"
    using NvFlushHierarchy_ok [OF i ok, of TPM_RH_OWNER] f by (auto simp: ram_of_def)
  ultimately show ?thesis by blast
qed

definition ex_orderly :: "BYTE list" where
  "ex_orderly = index_payload (ex_index 0x01000003 0x04000010) []"

definition ex_orderly_ram :: "BYTE list" where
  "ex_orderly_ram = le_bytes 4 0x01000003 @ le_bytes 4 0x24000010 @ [0, 0, 0, 0, 0, 0, 0, 9]"

lemma ex_orderly_fields:
  "entry_handle ex_orderly = 0x01000003" "entry_attributes ex_orderly = 0x04000010" "entry_dataSize ex_orderly = 8"
  "is_index ex_orderly" "entry_orderly ex_orderly" "length ex_orderly = 148"
  "entry_handle ex_orderly_ram = 0x01000003" "ram_attributes ex_orderly_ram = 0x24000010" "length ex_orderly_ram = 16"
proof -
  have n: "new_index (ex_index 0x01000003 0x04000010)" by (rule ex_index_new) (simp add: HandleGetType_def)
  show "entry_handle ex_orderly = 0x01000003" "entry_attributes ex_orderly = 0x04000010" "entry_dataSize ex_orderly = 8"
    "is_index ex_orderly" "entry_orderly ex_orderly" "length ex_orderly = 148"
    using index_payload_fields [OF n, of "[]"]
    by (simp_all add: ex_orderly_def ex_index_def index_orderly_def bit_numeral_rec)
  show "entry_handle ex_orderly_ram = 0x01000003" "ram_attributes ex_orderly_ram = 0x24000010" "length ex_orderly_ram = 16"
    by (simp_all add: entry_handle_def ram_attributes_def ex_orderly_ram_def le_nat_le_bytes)
qed

lemma ex_orderly_inv: "nv_inv ex_layout (state_of ex_layout [ex_orderly] [ex_orderly_ram] 2) [ex_orderly] [ex_orderly_ram] 2"
  by (rule state_of_inv [OF ex_layout_wf])
    (simp_all add: wf_entry_def wf_ram_def ex_orderly_fields nv_pos_def ex_layout_def GET_TPM_NT_def bit_numeral_rec)

theorem nv_flush_forgets_orderly_counter_witness:
  "(\<exists>st'. NvFlushHierarchy ex_layout TPM_RH_OWNER (state_of ex_layout [ex_orderly] [ex_orderly_ram] 2) = Inr (TPM_RC_SUCCESS, st') \<and>
      s_maxCounter st' = 2) \<and>
   (\<exists>st'. NvDeleteIndex ex_layout (Some (index_info [ex_orderly_ram] ex_orderly)) 4100 (state_of ex_layout [ex_orderly] [ex_orderly_ram] 2) = Inr (TPM_RC_SUCCESS, st') \<and>
      nv_inv ex_layout st' [] [] 9)"
proof -
  have "stored_count [ex_orderly_ram] ex_orderly = 9"
    by (simp add: stored_count_def ex_orderly_fields)
      (simp add: ex_orderly_ram_def ByteArrayToUint64_def ByteArrayToUint32_def ByteArrayToUint16_def)
  then show ?thesis
    using nv_flush_forgets_orderly_counter [of ex_layout "state_of ex_layout [ex_orderly] [ex_orderly_ram] 2" ex_orderly ex_orderly_ram]
      ex_orderly_inv
    by (auto simp: ex_orderly_fields IsNvCounterIndex_def GET_TPM_NT_def bit_numeral_rec ex_layout_def)
qed

text \<open>
  C19. The capability lists of NV indices and of persistent objects are the handles of the
  type from the start handle on, sorted, cut to the requested count and to
  \<^verbatim>\<open>MAX_CAP_HANDLES\<close>; the more flag tells exactly whether handles were cut off; and the
  queries for one handle tell whether it is defined.
\<close>

theorem nv_capability_lists:
  assumes "nv_list L st ps mc" "HandleGetType ih = TPM_HT_NV_INDEX" "HandleGetType ph = TPM_HT_PERSISTENT"
  shows "NvCapGetIndex L ih cnt st =
      (let hs = handles_from TPM_HT_NV_INDEX ih ps; n = min (unat cnt) MAX_CAP_HANDLES in Inr (n < length hs, take n (sort hs))) \<and>
    NvCapGetPersistent L ph cnt st =
      (let hs = handles_from TPM_HT_PERSISTENT ph ps; n = min (unat cnt) MAX_CAP_HANDLES in Inr (n < length hs, take n (sort hs))) \<and>
    NvCapGetOneIndex L ih st = Inr (ih \<in> entry_handle ` set ps) \<and>
    NvCapGetOnePersistent L ph st = Inr (ph \<in> entry_handle ` set ps)"
  using assms
  by (simp add: NvCapGetIndex_def NvCapGetPersistent_def NvCapGetOneIndex_def NvCapGetOnePersistent_def
      NvCapGet_scan_ok NvCapGetOne_scan_ok Let_def)

theorem nv_capability_lists_witness:
  "NvCapGetIndex ex_layout 0x01000000 1 (state_of ex_layout [ex_orderly, ex_counter] [ex_orderly_ram] 2) = Inr (True, [0x01000001])"
proof -
  have "nv_list ex_layout (state_of ex_layout [ex_orderly, ex_counter] [ex_orderly_ram] 2) [ex_orderly, ex_counter] 2"
    by (rule state_of_nv [OF ex_layout_wf]) (simp_all add: ex_orderly_fields ex_counter_fields nv_pos_def ex_layout_def)
  from nv_capability_lists [OF this, of "0x01000000" "0x81000000" 1] show ?thesis
    by (simp add: handles_from_def ex_orderly_fields ex_counter_fields HandleGetType_def Let_def)
qed



text \<open>
  C22. \<^verbatim>\<open>NvTestSpace\<close> admits an entry that leaves no octet between the terminator and the end of
  NV, and \<^verbatim>\<open>NvAdd\<close> stores it; from then on every startup fails, because \<^verbatim>\<open>NvRead\<close> refuses
  to read the last octet of NV when it fetches the maximal counter.
\<close>

theorem nv_full_area_blocks_startup:
  assumes i: "nv_inv L st ps rs mc" and ok: "g_NvStatus st = TPM_RC_SUCCESS"
    and e: "length entity = sz" "4 \<le> sz" and t: "NvTestSpace L sz isIndex isCounter st = Inr True"
    and full: "nv_pos L ps + 4 + sz + SIZEOF_NV_LIST_TERMINATOR = NV_MEMORY_SIZE"
  shows "\<exists>st'. NvAdd L sz TPM_RH_UNASSIGNED entity st = Inr (TPM_RC_SUCCESS, st') \<and>
    NvEntityStartup L type prev st' = Inl FATAL_ERROR_PARAMETER"
proof -
  obtain st' rest where "NvAdd L sz TPM_RH_UNASSIGNED entity st = Inr (TPM_RC_SUCCESS, st')"
    and l: "nv_list L st' (ps @ [entity @ rest]) (s_maxCounter st)" and "length rest = 0"
    using NvAdd_ok [OF nv_inv_listD(1) [OF i] ok, of entity sz TPM_RH_UNASSIGNED] e full by (auto simp: handle_prefix_def)
  then show ?thesis using NvEntityStartup_full [OF l] full e by simp
qed

definition ex_tight :: nv_layout where
  "ex_tight = \<lparr>NV_USER_DYNAMIC = 32484, SIZEOF_OBJECT = 8, OFFSET_EVICTHANDLE = 4\<rparr>"

definition ex_object :: "TPM_HANDLE \<Rightarrow> BYTE list" where
  "ex_object h = le_bytes 4 (unat h) @ replicate 8 0"

definition ex_objects :: "BYTE list list" where
  "ex_objects = map ex_object [0x81000000, 0x81000001, 0x81000002, 0x81000003, 0x81000004, 0x81000005, 0x81000006]"

lemma ex_object_fields: "entry_handle (ex_object h) = h" "length (ex_object h) = 12"
  by (simp_all add: ex_object_def entry_handle_def le_nat_le_bytes_word)

lemma ex_objects_facts:
  "\<forall>p \<in> set ex_objects. wf_entry ex_tight p" "distinct (map entry_handle ex_objects)"
  "\<forall>p \<in> set ex_objects. \<not> entry_orderly p" "nv_pos ex_tight ex_objects = 32596"
  "reserved_bytes ex_tight ex_objects True True = 16" "wf_layout ex_tight"
  by (simp_all add: ex_objects_def ex_object_fields wf_entry_def is_persistent_def entry_orderly_def is_index_def
      HandleGetType_def ex_tight_def nv_pos_def reserved_bytes_def num_type_def wf_layout_def)

lemma ex_objects_inv: "nv_inv ex_tight (state_of ex_tight ex_objects [] 0) ex_objects [] 0"
  by (rule state_of_inv) (use ex_objects_facts in auto)

theorem nv_full_area_blocks_startup_witness:
  "\<exists>st'. NvAdd ex_tight 156 TPM_RH_UNASSIGNED ex_counter (state_of ex_tight ex_objects [] 0) = Inr (TPM_RC_SUCCESS, st') \<and>
     NvEntityStartup ex_tight SU_RESET 0 st' = Inl FATAL_ERROR_PARAMETER"
proof (rule nv_full_area_blocks_startup [OF ex_objects_inv])
  show "NvTestSpace ex_tight 156 True True (state_of ex_tight ex_objects [] 0) = Inr True"
    using NvTestSpace_ok [OF ex_objects_inv, of 156 True True] ex_objects_facts by simp
qed (simp_all add: ex_counter_fields ex_objects_facts)

lemma ram_list_cong:
  assumes "\<And>x. x < RAM_INDEX_SPACE \<Longrightarrow> s_indexOrderlyRam st x = s_indexOrderlyRam st' x"
  shows "ram_list st rs \<longleftrightarrow> ram_list st' rs"
proof -
  have "holds_at (s_indexOrderlyRam st) a bs \<longleftrightarrow> holds_at (s_indexOrderlyRam st') a bs" if "a + length bs \<le> RAM_INDEX_SPACE" for a bs
    by (rule holds_at_cong) (use assms that in simp)
  then show ?thesis unfolding ram_list_def by (auto simp: le_diff_conv2)
qed

lemma ram_saved_lost: "ram_saved L (st\<lparr>s_indexOrderlyRam := lost\<rparr>) rs \<longleftrightarrow> ram_saved L st rs"
  unfolding ram_saved_def by (rule ram_list_cong) (simp add: restored_def mem_put_def)

lemma startup_ram_fields:
  assumes "8 \<le> length r" "IsNvCounterIndex (ram_attributes r) \<longrightarrow> 16 \<le> length r"
  shows "length (startup_ram type prev r) = length r" "entry_handle (startup_ram type prev r) = entry_handle r"
    "ram_attributes (startup_ram type prev r) = NvSetStartupAttributes (ram_attributes r) type"
    "IsNvCounterIndex (ram_attributes r) \<Longrightarrow> prev = SU_NONE_VALUE \<Longrightarrow>
     ByteArrayToUint64 (take 8 (drop 8 (startup_ram type prev r))) = ByteArrayToUint64 (take 8 (drop 8 r)) OR 0xFF"
proof -
  show "length (startup_ram type prev r) = length r" by (rule length_startup_ram [OF assms])
  let ?r = "set_ram_attributes (NvSetStartupAttributes (ram_attributes r) type) r"
  let ?c = "take 8 (drop 8 r)"
  let ?d = "Uint64ToByteArray (ByteArrayToUint64 ?c OR MAX_ORDERLY_COUNT) ?c"
  note f = set_ram_attributes_fields [OF assms(1), of "NvSetStartupAttributes (ram_attributes r) type"]
  have c: "take n (drop m (bytes_put 8 ?d ?r)) = take n (drop m ?r)" if "m + n \<le> 8" "IsNvCounterIndex (ram_attributes r)" for m n
    by (rule take_drop_bytes_put(2)) (use assms f that in simp_all)
  show "entry_handle (startup_ram type prev r) = entry_handle r"
    "ram_attributes (startup_ram type prev r) = NvSetStartupAttributes (ram_attributes r) type"
    using c [of 0 4] c [of 4 4] f by (simp_all add: startup_ram_def Let_def entry_handle_def ram_attributes_def)
  show "ByteArrayToUint64 (take 8 (drop 8 (startup_ram type prev r))) = ByteArrayToUint64 ?c OR 0xFF"
    if "IsNvCounterIndex (ram_attributes r)" "prev = SU_NONE_VALUE"
  proof -
    have "length ?d = 8" "length ?c = 8" using assms that by simp_all
    then have "take 8 (drop 8 (bytes_put 8 ?d ?r)) = ?d" "ByteArrayToUint64 ?d = ByteArrayToUint64 ?c OR 0xFF"
      using take_drop_bytes_put(1) [of 8 ?d ?r] assms f that
      by (simp_all add: word_unat_eq_iff be_val_conversions)
    then show ?thesis using that by (simp add: startup_ram_def Let_def)
  qed
qed

lemma nv_inv_ram_counter:
  assumes i: "nv_inv L st ps rs mc" and r: "r \<in> set rs" "IsNvCounterIndex (ram_attributes r)"
  shows "16 \<le> length r"
proof -
  obtain p where p: "p \<in> set ps" "entry_orderly p" "length r = 8 + entry_dataSize p"
    "GET_TPM_NT (ram_attributes r) = GET_TPM_NT (entry_attributes p)"
    using nv_inv_ramD [OF i r(1)] unfolding wf_ram_def by blast
  then show ?thesis using nv_inv_entryD [OF i p(1)] r(2) IsNvCounterIndex_cong [OF p(4)]
    by (auto simp: wf_entry_def entry_orderly_def is_index_def is_persistent_def)
qed

lemma NvEntityStartup_inv:
  assumes i: "nv_inv L st ps rs mc" and r: "ram_saved L st rs" and ok: "g_NvStatus st = TPM_RC_SUCCESS"
    and room: "nv_pos L ps + SIZEOF_NV_LIST_TERMINATOR < NV_MEMORY_SIZE" and t: "type \<noteq> SU_RESUME"
  shows "\<exists>st'. NvEntityStartup L type prev (st\<lparr>s_indexOrderlyRam := lost\<rparr>) = Inr st' \<and> s_maxCounter st' = mc \<and>
    nv_inv L st' (map (startup_entry type) ps) (map (startup_ram type prev) rs) mc"
proof -
  have l: "nv_list L (st\<lparr>s_indexOrderlyRam := lost\<rparr>) ps mc" using nv_inv_listD(1) [OF i] by (simp add: nv_list_def)
  have c: "\<forall>r \<in> set rs. IsNvCounterIndex (ram_attributes r) \<longrightarrow> 16 \<le> length r" using nv_inv_ram_counter [OF i] by blast
  obtain st' where e: "NvEntityStartup L type prev (st\<lparr>s_indexOrderlyRam := lost\<rparr>) = Inr st'" "s_maxCounter st' = mc"
    and l': "nv_list L st' (map (startup_entry type) ps) mc" and r': "ram_list st' (map (startup_ram type prev) rs)"
    using NvEntityStartup_ok [OF l _ _ room nv_inv_long [OF i] c, of type prev] r ok t by (auto simp: ram_saved_lost)
  have "nv_inv L st' (map (startup_entry type) ps) (map (startup_ram type prev) rs) mc"
  proof (rule nv_inv_map [OF i _ _ l' r'])
    fix q assume "q \<in> set rs"
    then show "length (startup_ram type prev q) = length q \<and> entry_handle (startup_ram type prev q) = entry_handle q \<and>
      (bit (ram_attributes (startup_ram type prev q)) NV_ORDERLY \<longleftrightarrow> bit (ram_attributes q) NV_ORDERLY) \<and>
      GET_TPM_NT (ram_attributes (startup_ram type prev q)) = GET_TPM_NT (ram_attributes q)"
      using c startup_ram_fields [OF nv_inv_ram_length [OF i]] by (simp add: NvSetStartupAttributes_bits)
  qed (use startup_entry_keeps [OF nv_inv_entryD [OF i]] in blast)
  then show ?thesis using e by blast
qed

lemma or_and_absorb: "(x OR m) AND m = m" for x m :: "'a :: len word"
  by (auto simp: bit_or_iff bit_and_iff intro!: bit_eqI)



text \<open>
  C14. Data written to an index is read back unchanged, for an index whose data is in NV and for
  an orderly one whose data is in RAM, at every offset and length inside the index.
\<close>

theorem nv_write_read_back:
  assumes i: "nv_inv L st (xs @ p # ys) rs mc" and ok: "g_NvStatus st = TPM_RC_SUCCESS"
    and p: "is_index p" "uncached (entry_handle p) st" and range: "offset + length data \<le> entry_dataSize p"
  shows "\<exists>st1 st2. NvGetIndexInfo L (entry_handle p) st = Inr (Some (index_info rs p), nv_pos L xs + 4, st1) \<and>
    NvWriteIndexData offset data st1 = Inr (TPM_RC_SUCCESS, st2) \<and>
    NvGetIndexData (s_cachedNvIndex st2) (s_cachedNvRef st2) offset (length data) st2 = Inr data"
proof -
  obtain st1 where g: "NvGetIndexInfo L (entry_handle p) st = Inr (Some (index_info rs p), nv_pos L xs + 4, st1)"
    and c1: "s_cachedNvIndex st1 = index_info rs p" "s_cachedNvRef st1 = nv_pos L xs + 4" "g_NvStatus st1 = TPM_RC_SUCCESS"
    and i1: "nv_inv L st1 (xs @ p # ys) rs mc"
    and o1: "entry_orderly p \<longrightarrow> (\<exists>us q vs. rs = us @ q # vs \<and> entry_handle q = entry_handle p \<and> entry_handle p \<notin> entry_handle ` set us \<and>
       length q = 8 + entry_dataSize p \<and> s_cachedNvRamRef st1 = Some (ram_end us) \<and>
       nv_attributes (publicArea (index_info rs p)) = ram_attributes q)"
    using NvGetIndexInfo_ok [OF i p] ok by auto
  note d = index_info_describes [OF i p(1)]
  have "\<exists>st2. NvWriteIndexData offset data st1 = Inr (TPM_RC_SUCCESS, st2) \<and>
    NvGetIndexData (s_cachedNvIndex st2) (s_cachedNvRef st2) offset (length data) st2 = Inr data"
  proof (cases "entry_orderly p")
    case True
    then obtain us q vs where rs: "rs = us @ q # vs" "entry_handle q = entry_handle p" "entry_handle p \<notin> entry_handle ` set us"
      "length q = 8 + entry_dataSize p" "s_cachedNvRamRef st1 = Some (ram_end us)"
      "nv_attributes (publicArea (index_info rs p)) = ram_attributes q" using o1 by blast
    have l: "ram_list st1 (us @ q # vs)" using nv_inv_listD(2) [OF i1] rs by simp
    have c: "cached_ram st1 us q" using c1 rs d True by (simp add: cached_ram_def describes_def)
    obtain st2 where w: "NvWriteIndexData offset data st1 = Inr (TPM_RC_SUCCESS, st2)"
      and l2: "ram_list st2 (us @ bytes_put (8 + offset) data (first_write_ram q) # vs)"
      and ix: "s_cachedNvIndex st2 = (s_cachedNvIndex st1)\<lparr>publicArea := (publicArea (s_cachedNvIndex st1))
        \<lparr>nv_attributes := set_bit NV_WRITTEN (ram_attributes q)\<rparr>\<rparr>"
      using NvWriteIndexData_ram [OF l c, of offset data] range rs by auto
    let ?q = "bytes_put (8 + offset) data (first_write_ram q)"
    have f: "length (first_write_ram q) = length q" using rs by (simp add: length_first_write_ram)
    have k: "8 + offset + length data \<le> length (first_write_ram q)" using f range rs by simp
    have "entry_handle ?q = entry_handle (first_write_ram q)"
      using take_drop_bytes_put(2) [OF k, of 0 4] by (simp add: entry_handle_def)
    also have "entry_handle (first_write_ram q) = entry_handle q"
    proof -
      let ?s = "set_ram_attributes (set_bit NV_WRITTEN (ram_attributes q)) q"
      have "take 4 (bytes_put 8 (replicate (length q - 8) 0) ?s) = take 4 ?s"
        using rs take_drop_bytes_put(2) [of 8 "replicate (length q - 8) 0" ?s 0 4] by (simp add: set_ram_attributes_fields)
      then have "entry_handle (bytes_put 8 (replicate (length q - 8) 0) ?s) = entry_handle ?s" by (simp add: entry_handle_def)
      moreover have "entry_handle ?s = entry_handle q" using rs by (simp add: set_ram_attributes_fields)
      ultimately show ?thesis by (simp add: first_write_ram_def Let_def)
    qed
    finally have h: "entry_handle ?q = entry_handle q" .
    have "NvGetIndexData (s_cachedNvIndex st2) (s_cachedNvRef st2) offset (length data) st2 = Inr (take (length data) (drop (8 + offset) ?q))"
      by (rule NvGetIndexData_ram [OF l2]) (use h rs ix c1 d True f range c k in \<open>auto simp: describes_def cached_ram_def bit_set_bit_iff\<close>)
    then show ?thesis using w take_drop_bytes_put(1) [OF k] by simp
  next
    case False
    have w: "wf_entry L p" using nv_inv_entryD [OF i] by simp
    have len: "length p = SIZEOF_NV_INDEX + entry_dataSize p"
      using w False p(1) by (auto simp: wf_entry_def is_index_def is_persistent_def)
    have "cached_nv L st1 xs p" using c1 d False by (simp add: cached_nv_def index_info_def)
    then obtain st2 where w: "NvWriteIndexData offset data st1 = Inr (TPM_RC_SUCCESS, st2)"
      and l2: "nv_list L st2 (xs @ bytes_put (SIZEOF_NV_INDEX + offset) data (first_write (length data) p) # ys) mc"
      and r2: "s_cachedNvRef st2 = nv_pos L xs + 4"
      and ix: "s_cachedNvIndex st2 = (s_cachedNvIndex st1)\<lparr>publicArea := (publicArea (s_cachedNvIndex st1))
        \<lparr>nv_attributes := set_bit NV_WRITTEN (entry_attributes p)\<rparr>\<rparr>"
      using NvWriteIndexData_nv [OF nv_inv_listD(1) [OF i1] c1(3) p(1) False len _ range] c1(2) by auto
    let ?p = "bytes_put (SIZEOF_NV_INDEX + offset) data (first_write (length data) p)"
    have k: "SIZEOF_NV_INDEX + offset + length data \<le> length (first_write (length data) p)"
      using length_first_write [OF len] len range by simp
    have "NvGetIndexData (s_cachedNvIndex st2) (nv_pos L xs + 4) offset (length data) st2 =
        Inr (take (length data) (drop (SIZEOF_NV_INDEX + offset) ?p))"
      by (rule NvGetIndexData_nv [OF l2])
        (use ix c1 d False p(1) k range in \<open>auto simp: describes_def bit_set_bit_iff entry_orderly_def\<close>)
    then show ?thesis using w r2 take_drop_bytes_put(1) [OF k] by simp
  qed
  then show ?thesis using g by blast
qed

theorem nv_write_read_back_witness:
  "\<exists>st1 st2. NvGetIndexInfo ex_layout 0x01000003 (state_of ex_layout [ex_orderly] [ex_orderly_ram] 2) =
       Inr (Some (index_info [ex_orderly_ram] ex_orderly), nv_pos ex_layout [] + 4, st1) \<and>
     NvWriteIndexData 0 (replicate 8 7) st1 = Inr (TPM_RC_SUCCESS, st2) \<and>
     NvGetIndexData (s_cachedNvIndex st2) (s_cachedNvRef st2) 0 8 st2 = Inr (replicate 8 7)"
  using nv_write_read_back [of ex_layout "state_of ex_layout [ex_orderly] [ex_orderly_ram] 2" "[]" ex_orderly "[]" "[ex_orderly_ram]" 2 0 "replicate 8 7"]
    ex_orderly_inv
  by (simp only: append_Nil length_replicate) (simp add: ex_orderly_fields HandleGetType_def)

lemma set_attributes_data: "12 \<le> length p \<Longrightarrow> drop 12 (set_attributes a p) = drop 12 p"
  using take_drop_bytes_put(3) [of 8 "le_bytes 4 (unat a)" p 12] by (simp add: set_attributes_def)

text \<open>
  C18. The global lock write-locks exactly the indices whose GLOBALLOCK attribute is set, in NV and
  in the orderly RAM, and leaves every other entry and all data bytes as they were.
\<close>

theorem nv_global_lock:
  assumes i: "nv_inv L st ps rs mc" and ok: "g_NvStatus st = TPM_RC_SUCCESS"
  shows "\<exists>st' ps' rs'. NvSetGlobalLock L st = Inr (TPM_RC_SUCCESS, st') \<and> nv_inv L st' ps' rs' mc \<and>
    list_all2 (\<lambda>p p'. entry_handle p' = entry_handle p \<and> drop 12 p' = drop 12 p \<and>
      (if is_index p \<and> \<not> entry_orderly p \<and> bit (entry_attributes p) NV_GLOBALLOCK
       then entry_attributes p' = set_bit NV_WRITELOCKED (entry_attributes p) else p' = p)) ps ps' \<and>
    list_all2 (\<lambda>r r'. entry_handle r' = entry_handle r \<and> drop 8 r' = drop 8 r \<and>
      (if bit (ram_attributes r) NV_GLOBALLOCK
       then ram_attributes r' = set_bit NV_WRITELOCKED (ram_attributes r) else r' = r)) rs rs'"
proof -
  obtain st' where "NvSetGlobalLock L st = Inr (TPM_RC_SUCCESS, st')" "nv_inv L st' (map lock_entry ps) (map lock_ram rs) mc"
    using NvSetGlobalLock_inv [OF i ok] by blast
  moreover have "list_all2 (\<lambda>p p'. entry_handle p' = entry_handle p \<and> drop 12 p' = drop 12 p \<and>
      (if is_index p \<and> \<not> entry_orderly p \<and> bit (entry_attributes p) NV_GLOBALLOCK
       then entry_attributes p' = set_bit NV_WRITELOCKED (entry_attributes p) else p' = p)) ps (map lock_entry ps)"
    using nv_inv_long [OF i]
    by (auto simp: list.rel_map lock_entry_def set_attributes_fields set_attributes_data intro!: list.rel_refl_strong)
  moreover have "list_all2 (\<lambda>r r'. entry_handle r' = entry_handle r \<and> drop 8 r' = drop 8 r \<and>
      (if bit (ram_attributes r) NV_GLOBALLOCK
       then ram_attributes r' = set_bit NV_WRITELOCKED (ram_attributes r) else r' = r)) rs (map lock_ram rs)"
    using nv_inv_ram_length [OF i]
    by (auto simp: list.rel_map lock_ram_def set_ram_attributes_fields intro!: list.rel_refl_strong)
  ultimately show ?thesis by blast
qed

definition ex_global :: "BYTE list" where
  "ex_global = index_payload (ex_index 0x01000004 0x00008000) (replicate 8 3)"

lemma ex_global_fields:
  "entry_handle ex_global = 0x01000004" "entry_attributes ex_global = 0x00008000" "entry_dataSize ex_global = 8"
  "is_index ex_global" "\<not> entry_orderly ex_global" "length ex_global = 156"
  using index_payload_fields [OF ex_index_new, of "0x01000004" "0x00008000" "replicate 8 3"]
  by (simp_all add: ex_global_def ex_index_def index_orderly_def bit_numeral_rec HandleGetType_def)

lemma ex_global_inv: "nv_inv ex_layout (state_of ex_layout [ex_global] [] 0) [ex_global] [] 0"
  by (rule state_of_inv [OF ex_layout_wf])
    (simp_all add: wf_entry_def ex_global_fields nv_pos_def ex_layout_def GET_TPM_NT_def bit_numeral_rec)

theorem nv_global_lock_witness:
  "\<exists>st' p'. NvSetGlobalLock ex_layout (state_of ex_layout [ex_global] [] 0) = Inr (TPM_RC_SUCCESS, st') \<and>
    nv_inv ex_layout st' [p'] [] 0 \<and> entry_attributes p' = 0x00008800"
proof -
  have b: "set_bit NV_WRITELOCKED (0x00008000 :: UINT32) = 0x00008800" "bit (0x00008000 :: UINT32) NV_GLOBALLOCK"
    by (simp_all add: set_bit_eq_or push_bit_eq_mult bit_numeral_rec)
  show ?thesis using nv_global_lock [OF ex_global_inv] b
    by (fastforce simp: ex_global_fields list_all2_Cons1)
qed

end
