(* ===== verification/FTPM_NVView.thy ===== *)
theory FTPM_NVView
  imports FTPM_NVTheorems
begin

text \<open>
  The abstract view of the NV storage: a finite map from handles to the description and the
  data of each defined index.  The operations of \<^verbatim>\<open>NVDynamic.c\<close> that the NV commands
  call refine the corresponding operations on the map.
\<close>

section \<open>The map of the indices\<close>

type_synonym nv_view = "NV_INDEX \<times> BYTE list"
type_synonym nv_map = "TPM_HANDLE \<rightharpoonup> nv_view"

definition entry_data :: "BYTE list list \<Rightarrow> BYTE list \<Rightarrow> BYTE list" where
  "entry_data rs p =
     (if entry_orderly p
      then (case find (\<lambda>r. entry_handle r = entry_handle p) rs of None \<Rightarrow> [] | Some r \<Rightarrow> drop 8 r)
      else drop SIZEOF_NV_INDEX p)"

definition view_of :: "BYTE list list \<Rightarrow> BYTE list \<Rightarrow> nv_view" where
  "view_of rs p = (index_info rs p, entry_data rs p)"

definition contents :: "BYTE list list \<Rightarrow> BYTE list list \<Rightarrow> nv_map" where
  "contents ps rs h = map_option (view_of rs) (find (\<lambda>p. is_index p \<and> entry_handle p = h) ps)"

definition nv_rep :: "nv_layout \<Rightarrow> nv_state \<Rightarrow> nv_map \<Rightarrow> bool" where
  "nv_rep L st M \<longleftrightarrow> g_NvStatus st = TPM_RC_SUCCESS \<and>
     (\<exists>ps rs. nv_inv L st ps rs (s_maxCounter st) \<and> M = contents ps rs)"

lemma find_append: "find P (xs @ ys) = (case find P xs of None \<Rightarrow> find P ys | Some x \<Rightarrow> Some x)"
  by (induction xs) auto

lemma find_handle_none: "h \<notin> entry_handle ` set xs \<Longrightarrow> find (\<lambda>p. is_index p \<and> entry_handle p = h) xs = None"
  "h \<notin> entry_handle ` set us \<Longrightarrow> find (\<lambda>r. entry_handle r = h) us = None"
  by (induction xs, auto) (induction us, auto)

lemma contents_at:
  "is_index p \<Longrightarrow> entry_handle p \<notin> entry_handle ` set xs \<Longrightarrow>
    contents (xs @ p # ys) rs (entry_handle p) = Some (view_of rs p)"
  by (simp add: contents_def find_append find_handle_none)

lemma contents_put:
  assumes "is_index p" "is_index p'" "entry_handle p' = entry_handle p" "entry_handle p \<notin> entry_handle ` set xs"
  shows "contents (xs @ p' # ys) rs = (contents (xs @ p # ys) rs)(entry_handle p \<mapsto> view_of rs p')"
  using assms by (auto simp: contents_def find_append find_handle_none fun_eq_iff split: option.split)

lemma contents_remove:
  assumes "is_index p" "entry_handle p \<notin> entry_handle ` set (xs @ ys)"
  shows "contents (xs @ ys) rs = (contents (xs @ p # ys) rs)(entry_handle p := None)"
proof -
  have "entry_handle p \<notin> entry_handle ` set xs" "entry_handle p \<notin> entry_handle ` set ys" using assms(2) by auto
  then show ?thesis using assms(1) by (auto simp: contents_def find_append find_handle_none fun_eq_iff split: option.split)
qed

lemma contents_append:
  assumes "is_index p" "entry_handle p \<notin> entry_handle ` set xs"
  shows "contents (xs @ [p]) rs = (contents xs rs)(entry_handle p \<mapsto> view_of rs p)"
  using assms by (auto simp: contents_def find_append find_handle_none fun_eq_iff split: option.split)

text \<open>What the view of an entry uses of the RAM.\<close>

lemma view_of_ram:
  "find (\<lambda>r. entry_handle r = entry_handle p) rs = find (\<lambda>r. entry_handle r = entry_handle p) rs' \<Longrightarrow>
    view_of rs p = view_of rs' p"
  by (simp add: view_of_def index_info_def entry_data_def)

lemma contents_ram_put:
  assumes p: "is_index p" "entry_handle p \<notin> entry_handle ` set xs" and q: "entry_handle q = entry_handle p" "entry_handle q' = entry_handle p"
  shows "contents (xs @ p # ys) (us @ q' # vs) =
    (contents (xs @ p # ys) (us @ q # vs))(entry_handle p \<mapsto> view_of (us @ q' # vs) p)"
proof
  fix h
  show "contents (xs @ p # ys) (us @ q' # vs) h =
    ((contents (xs @ p # ys) (us @ q # vs))(entry_handle p \<mapsto> view_of (us @ q' # vs) p)) h"
  proof (cases "h = entry_handle p")
    case True
    then show ?thesis using contents_at [OF p] by simp
  next
    case False
    have v: "view_of (us @ q' # vs) x = view_of (us @ q # vs) x" if "entry_handle x = h" for x
      by (rule view_of_ram) (use that q False in \<open>auto simp: find_append split: option.split\<close>)
    have "map_option (view_of (us @ q' # vs)) (find (\<lambda>p. is_index p \<and> entry_handle p = h) zs) =
      map_option (view_of (us @ q # vs)) (find (\<lambda>p. is_index p \<and> entry_handle p = h) zs)" for zs
      by (induction zs) (auto simp: v)
    then show ?thesis using False by (simp add: contents_def)
  qed
qed

lemma contents_none:
  assumes i: "nv_inv L st ps rs mc" and h: "HandleGetType h = TPM_HT_NV_INDEX"
  shows "contents ps rs h = None \<longleftrightarrow> h \<notin> entry_handle ` set ps"
  using h by (auto simp: contents_def find_None_iff is_index_def)

section \<open>Fields of a changed entry\<close>

lemma drop_bytes_put:
  "k + length d \<le> length p \<Longrightarrow> k \<le> n \<Longrightarrow> n \<le> k \<Longrightarrow> drop n (bytes_put k d p) = d @ drop (k + length d) p"
  by (simp add: bytes_put_def)

lemma bytes_put_drop:
  "n + k + length d \<le> length p \<Longrightarrow> drop n (bytes_put (n + k) d p) = bytes_put k d (drop n p)"
  by (simp add: bytes_put_def take_drop drop_append min_def add_ac)

lemma take_bytes_put_before:
  "n \<le> k \<Longrightarrow> k + length d \<le> length p \<Longrightarrow> take n (bytes_put k d p) = take n p"
  by (simp add: bytes_put_def)

definition set_attr :: "UINT32 \<Rightarrow> NV_INDEX \<Rightarrow> NV_INDEX" where
  "set_attr a ix = ix\<lparr>publicArea := (publicArea ix)\<lparr>nv_attributes := a\<rparr>\<rparr>"

lemma entry_index_alt:
  "SIZEOF_NV_INDEX \<le> length p \<Longrightarrow> entry_index p =
     \<lparr>publicArea = \<lparr>nvIndex = word_of_nat (le_nat (take 4 p)), nameAlg = word_of_nat (le_nat (take 2 (drop 4 p))),
        nv_attributes = word_of_nat (le_nat (take 4 (drop 8 p))), authPolicy = take 66 (drop 12 p),
        dataSize = word_of_nat (le_nat (take 2 (drop 78 p)))\<rparr>,
      authValue = take 66 (drop 80 p)\<rparr>"
  by (simp add: entry_index_def NV_INDEX_of_bytes_def drop_take)

lemma entry_index_set_attributes:
  assumes "SIZEOF_NV_INDEX \<le> length p"
  shows "entry_index (set_attributes a p) = set_attr a (entry_index p)"
proof -
  let ?b = "le_bytes 4 (unat a)"
  have len: "8 + length ?b \<le> length p" "SIZEOF_NV_INDEX \<le> length (set_attributes a p)"
    using assms by (simp_all add: set_attributes_fields)
  have "take 4 (drop 8 (set_attributes a p)) = ?b"
    "\<And>k n. k + n \<le> 8 \<Longrightarrow> take n (drop k (set_attributes a p)) = take n (drop k p)"
    "\<And>k. 12 \<le> k \<Longrightarrow> drop k (set_attributes a p) = drop k p"
    using take_drop_bytes_put [OF len(1)] by (simp_all add: set_attributes_def)
  from this(1) this(2) [of 0 4] this(2) [of 4 2] this(3) show ?thesis
    by (simp add: entry_index_alt [OF len(2)] entry_index_alt [OF assms] set_attr_def le_nat_le_bytes_word)
qed

lemma entry_index_data: "SIZEOF_NV_INDEX \<le> k \<Longrightarrow> k + length d \<le> length p \<Longrightarrow> entry_index (bytes_put k d p) = entry_index p"
  by (simp add: entry_index_def take_bytes_put_before)

lemma fields_of_header:
  assumes "take SIZEOF_NV_INDEX p' = take SIZEOF_NV_INDEX p" "length p' = length p"
  shows "entry_handle p' = entry_handle p" "entry_attributes p' = entry_attributes p" "entry_dataSize p' = entry_dataSize p"
    "is_index p' = is_index p" "entry_orderly p' = entry_orderly p"
proof -
  have t: "take n (drop k p') = take n (drop k p)" if "k + n \<le> SIZEOF_NV_INDEX" for k n
  proof -
    have "take n (drop k (take SIZEOF_NV_INDEX p')) = take n (drop k p')" for p' :: "BYTE list"
      using that by (simp add: drop_take min_def)
    then show ?thesis using assms(1) by metis
  qed
  from t [of 0 4] show h: "entry_handle p' = entry_handle p" by (simp add: entry_handle_def)
  from t [of 8 4] show a: "entry_attributes p' = entry_attributes p" by (simp add: entry_attributes_def)
  from t [of 78 2] show "entry_dataSize p' = entry_dataSize p" by (simp add: entry_dataSize_def)
  show i: "is_index p' = is_index p" using h assms(2) by (simp add: is_index_def)
  show "entry_orderly p' = entry_orderly p" using a i by (simp add: entry_orderly_def)
qed

lemma view_of_nv:
  "\<not> entry_orderly p \<Longrightarrow> view_of rs p = (entry_index p, drop SIZEOF_NV_INDEX p)"
  by (simp add: view_of_def index_info_def entry_data_def)

lemma view_of_orderly:
  assumes "entry_orderly p" "entry_handle q = entry_handle p" "entry_handle p \<notin> entry_handle ` set us"
  shows "view_of (us @ q # vs) p = (set_attr (ram_attributes q) (entry_index p), drop 8 q)"
  using assms by (simp add: view_of_def index_info_def entry_data_def find_append find_handle_none set_attr_def)

section \<open>The cached index\<close>

definition nv_at :: "nv_layout \<Rightarrow> nv_state \<Rightarrow> nv_map \<Rightarrow> TPM_HANDLE \<Rightarrow> nat \<Rightarrow> bool" where
  "nv_at L st M h ref \<longleftrightarrow> g_NvStatus st = TPM_RC_SUCCESS \<and>
     (\<exists>xs p ys rs. nv_inv L st (xs @ p # ys) rs (s_maxCounter st) \<and> M = contents (xs @ p # ys) rs \<and>
        is_index p \<and> entry_handle p = h \<and> ref = nv_pos L xs + 4 \<and>
        s_cachedNvRef st = ref \<and> s_cachedNvIndex st = index_info rs p \<and>
        (entry_orderly p \<longrightarrow> (\<exists>us q vs. rs = us @ q # vs \<and> entry_handle q = h \<and> h \<notin> entry_handle ` set us \<and>
           length q = 8 + entry_dataSize p \<and> s_cachedNvRamRef st = Some (ram_end us))))"

lemma nv_at_rep: "nv_at L st M h ref \<Longrightarrow> nv_rep L st M"
  unfolding nv_at_def nv_rep_def by blast

lemma nv_inv_split_new:
  "nv_inv L st (xs @ p # ys) rs mc \<Longrightarrow> entry_handle p \<notin> entry_handle ` set (xs @ ys)"
  by (auto dest: nv_inv_distinct(1))

lemma nv_at_view:
  assumes "nv_at L st M h ref"
  obtains v where "M h = Some v" "s_cachedNvIndex st = fst v" "nvIndex (publicArea (fst v)) = h"
    "length (snd v) = unat (dataSize (publicArea (fst v)))" "NvGetIndexInfo L h st = Inr (Some (fst v), ref, st)"
proof -
  obtain xs p ys rs where i: "nv_inv L st (xs @ p # ys) rs (s_maxCounter st)" "M = contents (xs @ p # ys) rs"
    and p: "is_index p" "entry_handle p = h" and c: "s_cachedNvRef st = ref" "s_cachedNvIndex st = index_info rs p"
    and o: "entry_orderly p \<longrightarrow> (\<exists>us q vs. rs = us @ q # vs \<and> entry_handle q = h \<and> h \<notin> entry_handle ` set us \<and>
           length q = 8 + entry_dataSize p \<and> s_cachedNvRamRef st = Some (ram_end us))"
    using assms unfolding nv_at_def by blast
  have M: "M h = Some (view_of rs p)" using contents_at [of p xs ys rs] nv_inv_split_new [OF i(1)] i(2) p by auto
  note d = index_info_describes [OF i(1) p(1), unfolded describes_def]
  have "length (snd (view_of rs p)) = entry_dataSize p"
  proof (cases "entry_orderly p")
    case True
    with o obtain us q vs where "rs = us @ q # vs" "entry_handle q = h" "h \<notin> entry_handle ` set us" "length q = 8 + entry_dataSize p"
      by blast
    then show ?thesis using view_of_orderly [OF True, of q us vs] p by simp
  next
    case False
    then show ?thesis using nv_inv_entryD [OF i(1), of p] p(1)
      by (auto simp: view_of_nv wf_entry_def is_index_def is_persistent_def)
  qed
  then show ?thesis using that [OF M] c d p by (simp add: view_of_def NvGetIndexInfo_def)
qed

lemma nv_rep_get:
  assumes r: "nv_rep L st M" and u: "uncached h st" and M: "M h = Some v"
  shows "\<exists>ref st'. NvGetIndexInfo L h st = Inr (Some (fst v), ref, st') \<and> nv_at L st' M h ref \<and>
    s_cachedNvIndex st' = fst v \<and> s_maxCounter st' = s_maxCounter st"
proof -
  obtain ps rs where i: "nv_inv L st ps rs (s_maxCounter st)" and M': "M = contents ps rs" and ok: "g_NvStatus st = TPM_RC_SUCCESS"
    using r unfolding nv_rep_def by blast
  obtain p where p: "p \<in> set ps" "is_index p" "entry_handle p = h" and v: "v = view_of rs p"
    using M M' by (auto simp: contents_def find_Some_iff) (metis nth_mem)
  obtain xs ys where ps: "ps = xs @ p # ys" using p(1) by (metis split_list)
  have i': "nv_inv L st (xs @ p # ys) rs (s_maxCounter st)" using i ps by simp
  obtain st' where g: "NvGetIndexInfo L (entry_handle p) st = Inr (Some (index_info rs p), nv_pos L xs + 4, st')"
    and c: "s_cachedNvIndex st' = index_info rs p" "s_cachedNvRef st' = nv_pos L xs + 4"
    and k: "nv_inv L st' (xs @ p # ys) rs (s_maxCounter st)" "s_maxCounter st' = s_maxCounter st" "g_NvStatus st' = g_NvStatus st"
    and o: "entry_orderly p \<longrightarrow> (\<exists>us q vs. rs = us @ q # vs \<and> entry_handle q = entry_handle p \<and> entry_handle p \<notin> entry_handle ` set us \<and>
       length q = 8 + entry_dataSize p \<and> s_cachedNvRamRef st' = Some (ram_end us) \<and>
       nv_attributes (publicArea (index_info rs p)) = ram_attributes q)"
    using NvGetIndexInfo_ok [OF i' p(2)] u p(3) by blast
  have "nv_at L st' M h (nv_pos L xs + 4)" unfolding nv_at_def
  proof (intro conjI exI)
    show "nv_inv L st' (xs @ p # ys) rs (s_maxCounter st')" using k by simp
    show "entry_orderly p \<longrightarrow> (\<exists>us q vs. rs = us @ q # vs \<and> entry_handle q = h \<and> h \<notin> entry_handle ` set us \<and>
           length q = 8 + entry_dataSize p \<and> s_cachedNvRamRef st' = Some (ram_end us))" using o p(3) by blast
  qed (use k ok M' ps p c in auto)
  then show ?thesis using g c k v p(3) by (auto simp: view_of_def)
qed

lemma nv_rep_get_none:
  assumes r: "nv_rep L st M" and u: "uncached h st" and h: "HandleGetType h = TPM_HT_NV_INDEX" and M: "M h = None"
  shows "\<exists>st'. NvGetIndexInfo L h st = Inr (None, 0, st') \<and> nv_rep L st' M \<and> s_maxCounter st' = s_maxCounter st"
proof -
  obtain ps rs where i: "nv_inv L st ps rs (s_maxCounter st)" and M': "M = contents ps rs"
    using r unfolding nv_rep_def by blast
  then have "h \<notin> entry_handle ` set ps" using contents_none [OF i h] M by simp
  from NvGetIndexInfo_none [OF nv_inv_listD(1) [OF i] u this] obtain c where
    g: "NvGetIndexInfo L h st = Inr (None, 0, st\<lparr>s_cachedNvIndex := c, s_cachedNvRamRef := None, s_cachedNvRef := 0\<rparr>)" by blast
  show ?thesis by (intro exI conjI, rule g) (use r in \<open>simp_all add: nv_rep_def nv_inv_def nv_list_def ram_list_def\<close>)
qed

section \<open>Changing one entry\<close>

definition keeps_kind :: "BYTE list \<Rightarrow> BYTE list \<Rightarrow> bool" where
  "keeps_kind p p' \<longleftrightarrow> length p' = length p \<and> entry_handle p' = entry_handle p \<and> entry_dataSize p' = entry_dataSize p \<and>
     (entry_orderly p' \<longleftrightarrow> entry_orderly p) \<and> GET_TPM_NT (entry_attributes p') = GET_TPM_NT (entry_attributes p)"

definition keeps_ram_kind :: "BYTE list \<Rightarrow> BYTE list \<Rightarrow> bool" where
  "keeps_ram_kind q q' \<longleftrightarrow> length q' = length q \<and> entry_handle q' = entry_handle q \<and>
     (bit (ram_attributes q') NV_ORDERLY \<longleftrightarrow> bit (ram_attributes q) NV_ORDERLY) \<and>
     GET_TPM_NT (ram_attributes q') = GET_TPM_NT (ram_attributes q)"

lemma map_replace:
  assumes "distinct (map entry_handle (xs @ p # ys))"
  shows "map (\<lambda>x. if x = p then p' else x) (xs @ p # ys) = xs @ p' # ys"
proof -
  have "p \<notin> set xs" "p \<notin> set ys" using assms by auto
  then have "map (\<lambda>x. if x = p then p' else x) xs = xs" "map (\<lambda>x. if x = p then p' else x) ys = ys"
    by (auto intro!: map_idI)
  then show ?thesis by simp
qed

lemma nv_inv_put:
  assumes i: "nv_inv L st (xs @ p # ys) rs mc" and k: "keeps_kind p p'"
    and l: "nv_list L st' (xs @ p' # ys) mc" and r: "ram_list st' rs"
  shows "nv_inv L st' (xs @ p' # ys) rs mc"
proof -
  note m = map_replace [OF nv_inv_distinct(1) [OF i], of p']
  have "nv_inv L st' (map (\<lambda>x. if x = p then p' else x) (xs @ p # ys)) (map (\<lambda>r. r) rs) mc"
    by (rule nv_inv_map [OF i]) (use k l r m in \<open>auto simp: keeps_kind_def\<close>)
  then show ?thesis using m by simp
qed

lemma nv_inv_ram_put:
  assumes i: "nv_inv L st ps (us @ q # vs) mc" and k: "keeps_ram_kind q q'"
    and l: "nv_list L st' ps mc" and r: "ram_list st' (us @ q' # vs)"
  shows "nv_inv L st' ps (us @ q' # vs) mc"
proof -
  note m = map_replace [OF nv_inv_distinct(2) [OF i], of q']
  have "nv_inv L st' (map (\<lambda>p. p) ps) (map (\<lambda>x. if x = q then q' else x) (us @ q # vs)) mc"
    by (rule nv_inv_map [OF i]) (use k l r m in \<open>auto simp: keeps_ram_kind_def\<close>)
  then show ?thesis using m by simp
qed

lemma set_bit_idem: "bit (a :: 32 word) n \<Longrightarrow> set_bit n a = a"
  by (auto simp: bit_set_bit_iff intro!: bit_eqI)

lemma set_attr_fields [simp]:
  "nv_attributes (publicArea (set_attr a ix)) = a" "dataSize (publicArea (set_attr a ix)) = dataSize (publicArea ix)"
  "nvIndex (publicArea (set_attr a ix)) = nvIndex (publicArea ix)" "nameAlg (publicArea (set_attr a ix)) = nameAlg (publicArea ix)"
  "authValue (set_attr a ix) = authValue ix" "authPolicy (publicArea (set_attr a ix)) = authPolicy (publicArea ix)"
  "set_attr a (set_attr b ix) = set_attr a ix" "set_attr (nv_attributes (publicArea ix)) ix = ix"
  by (simp_all add: set_attr_def)

lemma drop_set_attributes: "12 \<le> n \<Longrightarrow> 12 \<le> length p \<Longrightarrow> drop n (set_attributes a p) = drop n p"
  using take_drop_bytes_put(3) [of 8 "le_bytes 4 (unat a)" p n] by (simp add: set_attributes_def)

text \<open>A write, as the client of the storage sees it.\<close>

definition view_write :: "nat \<Rightarrow> BYTE list \<Rightarrow> nv_view \<Rightarrow> nv_view" where
  "view_write offset data v =
     (let a = nv_attributes (publicArea (fst v)) in
      (set_attr (set_bit NV_WRITTEN a) (fst v),
       bytes_put offset data
         (if \<not> bit a NV_WRITTEN \<and> IsNvOrdinaryIndex a
          then replicate (length (snd v)) (if bit a NV_ORDERLY then 0 else 0xFF) else snd v)))"

lemma bytes_put_keeps_kind:
  assumes "SIZEOF_NV_INDEX \<le> k" "k + length d \<le> length p"
  shows "keeps_kind p (bytes_put k d p)"
proof -
  have "take SIZEOF_NV_INDEX (bytes_put k d p) = take SIZEOF_NV_INDEX p" "length (bytes_put k d p) = length p"
    using assms by (simp_all add: take_bytes_put_before)
  from fields_of_header [OF this] this(2) show ?thesis by (simp add: keeps_kind_def)
qed

lemma set_attributes_keeps_kind:
  assumes "SIZEOF_NV_INDEX \<le> length p" "bit a NV_ORDERLY \<longleftrightarrow> bit (entry_attributes p) NV_ORDERLY"
    "GET_TPM_NT a = GET_TPM_NT (entry_attributes p)"
  shows "keeps_kind p (set_attributes a p)"
  using assms by (simp add: keeps_kind_def set_attributes_fields entry_orderly_def)

lemma keeps_kind_trans: "keeps_kind p q \<Longrightarrow> keeps_kind q r \<Longrightarrow> keeps_kind p r"
  by (simp add: keeps_kind_def)

lemma first_write_view:
  assumes len: "length p = SIZEOF_NV_INDEX + entry_dataSize p"
  shows "keeps_kind p (first_write n p)" "entry_index (first_write n p) = set_attr (set_bit NV_WRITTEN (entry_attributes p)) (entry_index p)"
    "drop SIZEOF_NV_INDEX (first_write n p) =
       (if \<not> bit (entry_attributes p) NV_WRITTEN \<and> IsNvOrdinaryIndex (entry_attributes p) \<and> n < entry_dataSize p
        then replicate (entry_dataSize p) 0xFF else drop SIZEOF_NV_INDEX p)"
proof -
  let ?q = "set_attributes (set_bit NV_WRITTEN (entry_attributes p)) p"
  have lq: "length ?q = length p" using assms by (simp add: set_attributes_fields)
  have q: "keeps_kind p ?q" by (rule set_attributes_keeps_kind) (use len in \<open>simp_all add: bit_set_bit_iff\<close>)
  have iq: "entry_index ?q = set_attr (set_bit NV_WRITTEN (entry_attributes p)) (entry_index p)"
    by (rule entry_index_set_attributes) (use len in simp)
  have d: "keeps_kind ?q (bytes_put SIZEOF_NV_INDEX (replicate (entry_dataSize p) 0xFF) ?q)"
    "entry_index (bytes_put SIZEOF_NV_INDEX (replicate (entry_dataSize p) 0xFF) ?q) = entry_index ?q"
    using bytes_put_keeps_kind [of SIZEOF_NV_INDEX "replicate (entry_dataSize p) 0xFF" ?q]
      entry_index_data [of SIZEOF_NV_INDEX "replicate (entry_dataSize p) 0xFF" ?q] lq len by simp_all
  have idem: "bit (entry_attributes p) NV_WRITTEN \<Longrightarrow> set_attr (set_bit NV_WRITTEN (entry_attributes p)) (entry_index p) = entry_index p"
    using set_attr_fields(8) [of "entry_index p"] by (simp add: set_bit_idem)
  have refl: "keeps_kind p p" by (simp add: keeps_kind_def)
  show "keeps_kind p (first_write n p)"
    using q refl keeps_kind_trans [OF q d(1)] by (simp add: first_write_def Let_def)
  show "entry_index (first_write n p) = set_attr (set_bit NV_WRITTEN (entry_attributes p)) (entry_index p)"
    using iq d(2) idem by (simp add: first_write_def Let_def)
  show "drop SIZEOF_NV_INDEX (first_write n p) =
       (if \<not> bit (entry_attributes p) NV_WRITTEN \<and> IsNvOrdinaryIndex (entry_attributes p) \<and> n < entry_dataSize p
        then replicate (entry_dataSize p) 0xFF else drop SIZEOF_NV_INDEX p)"
    using lq len by (auto simp: first_write_def Let_def drop_set_attributes bytes_put_def)
qed

lemma bytes_put_full: "length d = length e \<Longrightarrow> bytes_put 0 d e = d"
  by (simp add: bytes_put_def)

lemma write_view_nv:
  assumes p: "is_index p" "\<not> entry_orderly p" "length p = SIZEOF_NV_INDEX + entry_dataSize p" and n: "offset + length data \<le> entry_dataSize p"
  defines "p' \<equiv> bytes_put (SIZEOF_NV_INDEX + offset) data (first_write (length data) p)"
  shows "keeps_kind p p'" "view_of rs p' = view_write offset data (view_of rs p)"
proof -
  note f = first_write_view [OF p(3), of "length data"]
  have l: "length (first_write (length data) p) = length p" using f(1) by (simp add: keeps_kind_def)
  have k: "keeps_kind (first_write (length data) p) p'"
    unfolding p'_def by (rule bytes_put_keeps_kind) (use l n p in simp_all)
  show kk: "keeps_kind p p'" by (rule keeps_kind_trans [OF f(1) k])
  have o: "\<not> entry_orderly p'" "\<not> bit (entry_attributes p) NV_ORDERLY"
    using kk p by (simp_all add: keeps_kind_def entry_orderly_def)
  have e: "entry_index p' = set_attr (set_bit NV_WRITTEN (entry_attributes p)) (entry_index p)"
    unfolding p'_def using entry_index_data [of "SIZEOF_NV_INDEX + offset" data "first_write (length data) p"] f(2) l n p by simp
  have dr: "drop SIZEOF_NV_INDEX p' = bytes_put offset data (drop SIZEOF_NV_INDEX (first_write (length data) p))"
    unfolding p'_def by (rule bytes_put_drop) (use l n p in simp)
  have "drop SIZEOF_NV_INDEX p' = bytes_put offset data
     (if \<not> bit (entry_attributes p) NV_WRITTEN \<and> IsNvOrdinaryIndex (entry_attributes p)
      then replicate (entry_dataSize p) 0xFF else drop SIZEOF_NV_INDEX p)"
  proof (cases "length data < entry_dataSize p")
    case True
    then show ?thesis using dr f(3) by simp
  next
    case False
    then have "offset = 0" "length data = entry_dataSize p" using n by simp_all
    then show ?thesis using dr f(3) p(3) by (simp add: bytes_put_full)
  qed
  then show "view_of rs p' = view_write offset data (view_of rs p)"
    using e o p by (simp add: view_of_nv view_write_def Let_def)
qed

lemma ram_bytes_put:
  assumes "8 \<le> k" "k + length d \<le> length q"
  shows "length (bytes_put k d q) = length q" "entry_handle (bytes_put k d q) = entry_handle q"
    "ram_attributes (bytes_put k d q) = ram_attributes q"
  using assms take_drop_bytes_put(2) [OF assms(2), of 0 4] take_drop_bytes_put(2) [OF assms(2), of 4 4]
  by (simp_all add: entry_handle_def ram_attributes_def)

lemma write_view_ram:
  assumes q: "8 \<le> length q" "bit (ram_attributes q) NV_ORDERLY" and n: "8 + offset + length data \<le> length q"
  defines "q' \<equiv> bytes_put (8 + offset) data (first_write_ram q)"
  shows "keeps_ram_kind q q'" "ram_attributes q' = set_bit NV_WRITTEN (ram_attributes q)"
    "drop 8 q' = bytes_put offset data
       (if \<not> bit (ram_attributes q) NV_WRITTEN \<and> IsNvOrdinaryIndex (ram_attributes q) then replicate (length q - 8) 0 else drop 8 q)"
proof -
  let ?f = "first_write_ram q" and ?s = "set_ram_attributes (set_bit NV_WRITTEN (ram_attributes q)) q"
  note s = set_ram_attributes_fields [OF q(1), of "set_bit NV_WRITTEN (ram_attributes q)"]
  note b = ram_bytes_put [of 8 "replicate (length q - 8) 0" ?s]
  have f: "length ?f = length q" "entry_handle ?f = entry_handle q" "ram_attributes ?f = set_bit NV_WRITTEN (ram_attributes q)"
    using b s q set_bit_idem by (auto simp: first_write_ram_def Let_def)
  have fd: "drop 8 ?f = (if \<not> bit (ram_attributes q) NV_WRITTEN \<and> IsNvOrdinaryIndex (ram_attributes q) then replicate (length q - 8) 0 else drop 8 q)"
    using s q by (auto simp: first_write_ram_def Let_def bytes_put_def)
  note b' = ram_bytes_put [of "8 + offset" data ?f]
  show at: "ram_attributes q' = set_bit NV_WRITTEN (ram_attributes q)" using b' f n unfolding q'_def by simp
  show "keeps_ram_kind q q'" using b' f n at unfolding q'_def by (simp add: keeps_ram_kind_def bit_set_bit_iff)
  show "drop 8 q' = bytes_put offset data
       (if \<not> bit (ram_attributes q) NV_WRITTEN \<and> IsNvOrdinaryIndex (ram_attributes q) then replicate (length q - 8) 0 else drop 8 q)"
    unfolding q'_def fd [symmetric] by (rule bytes_put_drop) (use f n in simp)
qed

section \<open>The cached index, in NV and in RAM\<close>

definition at_nv :: "nv_layout \<Rightarrow> nv_state \<Rightarrow> nv_map \<Rightarrow> TPM_HANDLE \<Rightarrow> nat \<Rightarrow> BYTE list list \<Rightarrow> BYTE list \<Rightarrow> BYTE list list \<Rightarrow> BYTE list list \<Rightarrow> bool" where
  "at_nv L st M h ref xs p ys rs \<longleftrightarrow> g_NvStatus st = TPM_RC_SUCCESS \<and> nv_inv L st (xs @ p # ys) rs (s_maxCounter st) \<and>
     M = contents (xs @ p # ys) rs \<and> is_index p \<and> entry_handle p = h \<and> ref = nv_pos L xs + 4 \<and>
     s_cachedNvRef st = ref \<and> s_cachedNvIndex st = index_info rs p"

lemma nv_at_iff:
  "nv_at L st M h ref \<longleftrightarrow> (\<exists>xs p ys rs. at_nv L st M h ref xs p ys rs \<and>
     (entry_orderly p \<longrightarrow> (\<exists>us q vs. rs = us @ q # vs \<and> entry_handle q = h \<and> h \<notin> entry_handle ` set us \<and>
        length q = 8 + entry_dataSize p \<and> s_cachedNvRamRef st = Some (ram_end us))))"
  unfolding nv_at_def at_nv_def by blast

lemma at_nv_facts:
  assumes "at_nv L st M h ref xs p ys rs"
  shows "nv_inv L st (xs @ p # ys) rs (s_maxCounter st)" "nv_list L st (xs @ p # ys) (s_maxCounter st)" "ram_list st rs"
    "g_NvStatus st = TPM_RC_SUCCESS" "is_index p" "entry_handle p = h" "entry_handle p \<notin> entry_handle ` set (xs @ ys)"
    "M h = Some (view_of rs p)" "describes (index_info rs p) p" "SIZEOF_NV_INDEX \<le> length p"
    "\<not> entry_orderly p \<Longrightarrow> length p = SIZEOF_NV_INDEX + entry_dataSize p" "ref = nv_pos L xs + 4"
    "M = contents (xs @ p # ys) rs" "s_cachedNvRef st = ref" "s_cachedNvIndex st = index_info rs p"
proof -
  have i: "nv_inv L st (xs @ p # ys) rs (s_maxCounter st)" and p: "is_index p" "entry_handle p = h"
    and M: "M = contents (xs @ p # ys) rs" using assms by (simp_all add: at_nv_def)
  have n: "entry_handle p \<notin> entry_handle ` set (xs @ ys)" by (rule nv_inv_split_new [OF i])
  show "nv_inv L st (xs @ p # ys) rs (s_maxCounter st)" "is_index p" "entry_handle p = h" "g_NvStatus st = TPM_RC_SUCCESS"
    "ref = nv_pos L xs + 4" "M = contents (xs @ p # ys) rs" "s_cachedNvRef st = ref" "s_cachedNvIndex st = index_info rs p"
    using assms by (simp_all add: at_nv_def)
  show "entry_handle p \<notin> entry_handle ` set (xs @ ys)" by (rule n)
  show "nv_list L st (xs @ p # ys) (s_maxCounter st)" "ram_list st rs" by (rule nv_inv_listD [OF i])+
  show "M h = Some (view_of rs p)" using contents_at [OF p(1), of xs ys rs] n p M by auto
  show "describes (index_info rs p) p" by (rule index_info_describes [OF i p(1)])
  have w: "wf_entry L p" using nv_inv_entryD [OF i] by simp
  show "SIZEOF_NV_INDEX \<le> length p" by (rule wf_entry_length [OF w p(1)])
  show "length p = SIZEOF_NV_INDEX + entry_dataSize p" if "\<not> entry_orderly p"
    using w p(1) that by (auto simp: wf_entry_def is_index_def is_persistent_def)
qed

lemma at_nv_cached:
  assumes "at_nv L st M h ref xs p ys rs" "\<not> entry_orderly p"
  shows "cached_nv L st xs p"
  using at_nv_facts [OF assms(1)] assms(2) by (simp add: cached_nv_def index_info_def)

lemma at_nv_cached_ram:
  assumes a: "at_nv L st M h ref xs p ys (us @ q # vs)" and o: "entry_orderly p"
    and q: "entry_handle q = h" "h \<notin> entry_handle ` set us" "length q = 8 + entry_dataSize p" "s_cachedNvRamRef st = Some (ram_end us)"
  shows "cached_ram st us q" "index_info (us @ q # vs) p = set_attr (ram_attributes q) (entry_index p)" "bit (ram_attributes q) NV_ORDERLY"
    "8 \<le> length q" "view_of (us @ q # vs) p = (set_attr (ram_attributes q) (entry_index p), drop 8 q)"
proof -
  note f = at_nv_facts [OF a]
  show v: "view_of (us @ q # vs) p = (set_attr (ram_attributes q) (entry_index p), drop 8 q)"
    by (rule view_of_orderly) (use o q f in simp_all)
  then show e: "index_info (us @ q # vs) p = set_attr (ram_attributes q) (entry_index p)" by (simp add: view_of_def)
  then show b: "bit (ram_attributes q) NV_ORDERLY" using f(9) o by (simp add: describes_def)
  show "8 \<le> length q" using q by simp
  show "cached_ram st us q" using f(9,15) e q b f(6) by (simp add: cached_ram_def describes_def)
qed

lemma nv_at_cases [consumes 1, case_names nv ram]:
  assumes "nv_at L st M h ref"
  obtains (nv) xs p ys rs where "at_nv L st M h ref xs p ys rs" "\<not> entry_orderly p"
  | (ram) xs p ys us q vs where "at_nv L st M h ref xs p ys (us @ q # vs)" "entry_orderly p" "entry_handle q = h"
      "h \<notin> entry_handle ` set us" "length q = 8 + entry_dataSize p" "s_cachedNvRamRef st = Some (ram_end us)"
  using assms unfolding nv_at_iff by blast

text \<open>The cached entry replaced, with the rest of the state as it was.\<close>

lemma at_nv_put:
  assumes a: "at_nv L st M h ref xs p ys rs" and k: "keeps_kind p p'"
    and l: "nv_list L st' (xs @ p' # ys) (s_maxCounter st)" and r: "ram_list st' rs"
    and s: "s_maxCounter st' = s_maxCounter st" "g_NvStatus st' = g_NvStatus st"
  shows "nv_rep L st' (M(h \<mapsto> view_of rs p'))"
    "\<not> entry_orderly p \<Longrightarrow> s_cachedNvRef st' = s_cachedNvRef st \<Longrightarrow> s_cachedNvIndex st' = fst (view_of rs p') \<Longrightarrow>
      nv_at L st' (M(h \<mapsto> view_of rs p')) h ref"
proof -
  note f = at_nv_facts [OF a]
  have i: "nv_inv L st' (xs @ p' # ys) rs (s_maxCounter st')" using nv_inv_put [OF f(1) k l r] s by simp
  have p': "is_index p'" "entry_handle p' = h" using k f by (simp_all add: keeps_kind_def is_index_def)
  have M: "M(h \<mapsto> view_of rs p') = contents (xs @ p' # ys) rs"
    using contents_put [of p p' xs ys rs] f(5,6,7,13) p' by (simp add: image_Un)
  show "nv_rep L st' (M(h \<mapsto> view_of rs p'))" using i M s f(4) unfolding nv_rep_def by auto
  show "nv_at L st' (M(h \<mapsto> view_of rs p')) h ref"
    if "\<not> entry_orderly p" "s_cachedNvRef st' = s_cachedNvRef st" "s_cachedNvIndex st' = fst (view_of rs p')"
    unfolding nv_at_iff at_nv_def using i M s f p' k that
    by (intro exI [of _ xs] exI [of _ p'] exI [of _ ys] exI [of _ rs]) (simp add: keeps_kind_def view_of_def)
qed

lemma at_ram_put:
  assumes a: "at_nv L st M h ref xs p ys (us @ q # vs)" and k: "keeps_ram_kind q q'" and o: "entry_orderly p"
    and q: "entry_handle q = h" "h \<notin> entry_handle ` set us" "length q = 8 + entry_dataSize p" "s_cachedNvRamRef st = Some (ram_end us)"
    and l: "nv_list L st' (xs @ p # ys) (s_maxCounter st)" and r: "ram_list st' (us @ q' # vs)"
    and s: "s_maxCounter st' = s_maxCounter st" "g_NvStatus st' = g_NvStatus st"
  defines "v \<equiv> (set_attr (ram_attributes q') (entry_index p), drop 8 q')"
  shows "nv_rep L st' (M(h \<mapsto> v))"
    "s_cachedNvRef st' = s_cachedNvRef st \<Longrightarrow> s_cachedNvRamRef st' = s_cachedNvRamRef st \<Longrightarrow>
     s_cachedNvIndex st' = fst v \<Longrightarrow> nv_at L st' (M(h \<mapsto> v)) h ref"
proof -
  note f = at_nv_facts [OF a]
  have i: "nv_inv L st' (xs @ p # ys) (us @ q' # vs) (s_maxCounter st')" using nv_inv_ram_put [OF f(1) k l r] s by simp
  have q': "entry_handle q' = h" "length q' = length q" using k q by (simp_all add: keeps_ram_kind_def)
  have v: "view_of (us @ q' # vs) p = v" unfolding v_def by (rule view_of_orderly) (use o q q' f in simp_all)
  have M: "M(h \<mapsto> v) = contents (xs @ p # ys) (us @ q' # vs)"
    using contents_ram_put [of p xs q q' ys us vs] f(5,6,7,13) q q' v by (simp add: image_Un)
  show "nv_rep L st' (M(h \<mapsto> v))" using i M s f(4) unfolding nv_rep_def by auto
  show "nv_at L st' (M(h \<mapsto> v)) h ref"
    if "s_cachedNvRef st' = s_cachedNvRef st" "s_cachedNvRamRef st' = s_cachedNvRamRef st" "s_cachedNvIndex st' = fst v"
    unfolding nv_at_iff at_nv_def using i M s f q q' o that v
    by (intro exI [of _ xs] exI [of _ p] exI [of _ ys] exI [of _ "us @ q' # vs"]) (auto simp: view_of_def)
qed

section \<open>The operations on the map\<close>

lemma nv_at_write:
  assumes a: "nv_at L st M h ref" and M: "M h = Some v" and n: "offset + length data \<le> length (snd v)"
  shows "\<exists>st'. NvWriteIndexData offset data st = Inr (TPM_RC_SUCCESS, st') \<and>
    nv_at L st' (M(h \<mapsto> view_write offset data v)) h ref \<and> s_maxCounter st' = s_maxCounter st"
  using a
proof (cases rule: nv_at_cases)
  case (nv xs p ys rs)
  note f = at_nv_facts [OF nv(1)]
  have v: "v = view_of rs p" using M f by simp
  have n': "offset + length data \<le> entry_dataSize p" using n v nv f by (simp add: view_of_nv)
  obtain st' where w: "NvWriteIndexData offset data st = Inr (TPM_RC_SUCCESS, st')"
    and l: "nv_list L st' (xs @ bytes_put (SIZEOF_NV_INDEX + offset) data (first_write (length data) p) # ys) (s_maxCounter st)"
    and fr: "s_cachedNvRef st' = s_cachedNvRef st" "writes_nv st st'"
    and c: "s_cachedNvIndex st' = (s_cachedNvIndex st)\<lparr>publicArea := (publicArea (s_cachedNvIndex st))
      \<lparr>nv_attributes := set_bit NV_WRITTEN (entry_attributes p)\<rparr>\<rparr>"
    using NvWriteIndexData_nv [OF f(2,4,5) nv(2) f(11) at_nv_cached [OF nv] n'] nv by blast
  note v' = write_view_nv [OF f(5) nv(2) f(11) n']
  have s: "s_maxCounter st' = s_maxCounter st" "g_NvStatus st' = g_NvStatus st" "s_indexOrderlyRam st' = s_indexOrderlyRam st"
    using fr(2) unfolding writes_nv_def by (metis nv_state.select_convs nv_state.surjective nv_state.update_convs)+
  have "ram_list st' rs" using f(3) s by (simp add: ram_list_def)
  then have "nv_at L st' (M(h \<mapsto> view_write offset data v)) h ref"
    using at_nv_put(2) [OF nv(1) v'(1) l _ s(1,2) nv(2) fr(1)] v'(2) v nv f(15) c
    by (simp add: view_write_def Let_def view_of_def index_info_def set_attr_def)
  then show ?thesis using w s by blast
next
  case (ram xs p ys us q vs)
  note f = at_nv_facts [OF ram(1)] and g = at_nv_cached_ram [OF ram]
  have v: "v = (set_attr (ram_attributes q) (entry_index p), drop 8 q)" using M f g by simp
  have n': "offset + length data \<le> length q - 8" using n v by simp
  obtain st' where w: "NvWriteIndexData offset data st = Inr (TPM_RC_SUCCESS, st')"
    and r: "ram_list st' (us @ bytes_put (8 + offset) data (first_write_ram q) # vs)"
    and fr: "s_cachedNvRef st' = s_cachedNvRef st" "writes_ram st st'"
    and c: "s_cachedNvIndex st' = (s_cachedNvIndex st)\<lparr>publicArea := (publicArea (s_cachedNvIndex st))
      \<lparr>nv_attributes := set_bit NV_WRITTEN (ram_attributes q)\<rparr>\<rparr>"
    using NvWriteIndexData_ram [OF f(3) g(1) n'] by blast
  have n'': "8 + offset + length data \<le> length q" using n' g(4) by simp
  note v' = write_view_ram [OF g(4,3) n'']
  have s: "s_maxCounter st' = s_maxCounter st" "g_NvStatus st' = g_NvStatus st" "s_NV st' = s_NV st" "s_evictNvEnd st' = s_evictNvEnd st"
    "s_cachedNvRamRef st' = s_cachedNvRamRef st"
    using fr(2) unfolding writes_ram_def by (metis nv_state.select_convs nv_state.surjective nv_state.update_convs)+
  have l: "nv_list L st' (xs @ p # ys) (s_maxCounter st)" using f(2) s by (simp add: nv_list_def)
  have e: "view_write offset data v = (set_attr (set_bit NV_WRITTEN (ram_attributes q)) (entry_index p),
      drop 8 (bytes_put (8 + offset) data (first_write_ram q)))"
    using v v'(3) g(3) by (simp add: view_write_def Let_def)
  have "nv_at L st' (M(h \<mapsto> view_write offset data v)) h ref"
    using at_ram_put(2) [OF ram(1) v'(1) ram(2-6) l r s(1,2) fr(1) s(5)] v'(2) g(2) e f(15) c by (simp add: set_attr_def)
  then show ?thesis using w s by blast
qed

lemma nv_at_read:
  assumes a: "nv_at L st M h ref" and M: "M h = Some v" and w: "bit (nv_attributes (publicArea (fst v))) NV_WRITTEN"
    and n: "offset + n \<le> length (snd v)"
  shows "NvGetIndexData (fst v) ref offset n st = Inr (take n (drop offset (snd v)))"
  using a
proof (cases rule: nv_at_cases)
  case (nv xs p ys rs)
  note f = at_nv_facts [OF nv(1)]
  have v: "v = (entry_index p, drop SIZEOF_NV_INDEX p)" using M f nv by (simp add: view_of_nv)
  have o: "\<not> bit (entry_attributes p) NV_ORDERLY" using nv f by (simp add: entry_orderly_def)
  have ds: "unat (dataSize (publicArea (entry_index p))) = entry_dataSize p"
    using f(9) nv by (simp add: index_info_def describes_def)
  have "NvGetIndexData (entry_index p) (nv_pos L xs + 4) offset n st = Inr (take n (drop (SIZEOF_NV_INDEX + offset) p))"
    by (rule NvGetIndexData_nv [OF f(2)]) (use w v o n ds f(11) nv in simp_all)
  then show ?thesis using v f by (simp add: add.commute)
next
  case (ram xs p ys us q vs)
  note f = at_nv_facts [OF ram(1)] and g = at_nv_cached_ram [OF ram]
  have v: "v = (set_attr (ram_attributes q) (entry_index p), drop 8 q)" using M f g by simp
  have "nvIndex (publicArea (entry_index p)) = h" using f(9) g(2) f(6) by (simp add: describes_def)
  then have "NvGetIndexData (fst v) ref offset n st = Inr (take n (drop (8 + offset) q))"
    by (intro NvGetIndexData_ram [OF f(3)]) (use w v n g ram in simp_all)
  then show ?thesis using v by (simp add: add.commute)
qed

lemma nv_at_attributes:
  assumes a: "nv_at L st M h ref" and M: "M h = Some v"
    and k: "bit at NV_ORDERLY \<longleftrightarrow> bit (nv_attributes (publicArea (fst v))) NV_ORDERLY"
      "GET_TPM_NT at = GET_TPM_NT (nv_attributes (publicArea (fst v)))"
  shows "\<exists>st'. NvWriteIndexAttributes h ref at st = Inr (TPM_RC_SUCCESS, st') \<and>
    nv_rep L st' (M(h \<mapsto> (set_attr at (fst v), snd v))) \<and> s_maxCounter st' = s_maxCounter st"
  using a
proof (cases rule: nv_at_cases)
  case (nv xs p ys rs)
  note f = at_nv_facts [OF nv(1)]
  have v: "v = (entry_index p, drop SIZEOF_NV_INDEX p)" using M f nv by (simp add: view_of_nv)
  have o: "\<not> bit at NV_ORDERLY" using nv f k v by (simp add: entry_orderly_def)
  have kk: "keeps_kind p (set_attributes at p)"
    by (rule set_attributes_keeps_kind) (use k v f in simp_all)
  have l12: "12 \<le> length p" using f(10) by simp
  obtain st' where w: "NvWriteNvIndexAttributes (nv_pos L xs + 4) at st = Inr (TPM_RC_SUCCESS, st')"
    and l: "nv_list L st' (xs @ set_attributes at p # ys) (s_maxCounter st)"
    and fr: "st' = st\<lparr>s_NV := mem_put (s_NV st) (nv_pos L xs + 4 + 8) (le_bytes 4 (unat at)), g_updateNV := g_updateNV st'\<rparr>"
    using NvWriteNvIndexAttributes_ok [OF f(2) l12 f(4), of "at"] by blast
  have s: "s_maxCounter st' = s_maxCounter st" "g_NvStatus st' = g_NvStatus st" "s_indexOrderlyRam st' = s_indexOrderlyRam st"
    by (subst fr, simp)+
  have "ram_list st' rs" using f(3) s by (simp add: ram_list_def)
  moreover have "view_of rs (set_attributes at p) = (set_attr at (fst v), snd v)"
    using kk nv v f(10) entry_index_set_attributes [of p "at"]
    by (simp add: view_of_nv keeps_kind_def drop_set_attributes)
  ultimately have "nv_rep L st' (M(h \<mapsto> (set_attr at (fst v), snd v)))"
    using at_nv_put(1) [OF nv(1) kk l _ s(1,2)] by simp
  then show ?thesis using w s o f(12) by (simp add: NvWriteIndexAttributes_def)
next
  case (ram xs p ys us q vs)
  note f = at_nv_facts [OF ram(1)] and g = at_nv_cached_ram [OF ram]
  have v: "v = (set_attr (ram_attributes q) (entry_index p), drop 8 q)" using M f g by simp
  have o: "bit at NV_ORDERLY" using k v g by simp
  obtain st' where w: "NvWriteRamIndexAttributes (Some (ram_end us)) at st = Inr st'"
    and r: "ram_list st' (us @ set_ram_attributes at q # vs)" and fr: "st' = st\<lparr>s_indexOrderlyRam := s_indexOrderlyRam st'\<rparr>"
    using NvWriteRamIndexAttributes_ok [OF f(3)] by blast
  have s: "s_maxCounter st' = s_maxCounter st" "g_NvStatus st' = g_NvStatus st" "s_NV st' = s_NV st" "s_evictNvEnd st' = s_evictNvEnd st"
    by (subst fr, simp)+
  note q' = set_ram_attributes_fields [OF g(4), of "at"]
  have kk: "keeps_ram_kind q (set_ram_attributes at q)" using q' k v by (simp add: keeps_ram_kind_def)
  have "nv_list L st' (xs @ p # ys) (s_maxCounter st)" using f(2) s by (simp add: nv_list_def)
  then have "nv_rep L st' (M(h \<mapsto> (set_attr at (fst v), snd v)))"
    using at_ram_put(1) [OF ram(1) kk ram(2-6) _ r s(1,2)] q' v by simp
  moreover have "NvRamGetIndex h st = Inr (Some (ram_end us))" using NvRamGetIndex_hit [OF f(3)] ram by simp
  ultimately show ?thesis using w s o by (simp add: NvWriteIndexAttributes_def)
qed

definition set_auth :: "BYTE list \<Rightarrow> NV_INDEX \<Rightarrow> NV_INDEX" where
  "set_auth auth ix = ix\<lparr>authValue := bytes_put 0 (le_bytes 2 (length auth) @ auth) (authValue ix)\<rparr>"

lemma entry_index_auth:
  assumes len: "SIZEOF_NV_INDEX \<le> length p" and b: "length auth \<le> 64"
  defines "p' \<equiv> bytes_put 80 (le_bytes 2 (length auth) @ auth) p"
  shows "entry_index p' = set_auth auth (entry_index p)" "keeps_kind p p'" "drop SIZEOF_NV_INDEX p' = drop SIZEOF_NV_INDEX p"
proof -
  let ?b = "le_bytes 2 (length auth) @ auth"
  have k: "80 + length ?b \<le> length p" "length p' = length p" using len b by (simp_all add: p'_def)
  have t: "m + n \<le> 80 \<Longrightarrow> take n (drop m p') = take n (drop m p)" for m n
    unfolding p'_def by (rule take_drop_bytes_put(2) [OF k(1)])
  have "take 66 (drop 80 p') = bytes_put 0 ?b (take 66 (drop 80 p))"
    using len b by (simp add: p'_def bytes_put_def drop_take)
  then show "entry_index p' = set_auth auth (entry_index p)"
    using t [of 0 4] t [of 4 2] t [of 8 4] t [of 12 66] t [of 78 2] len k(2)
    by (simp add: entry_index_alt set_auth_def)
  show "keeps_kind p p'" using t [of 0 4] t [of 8 4] t [of 78 2] k(2)
    by (simp add: keeps_kind_def entry_handle_def entry_dataSize_def entry_attributes_def entry_orderly_def is_index_def)
  show "drop SIZEOF_NV_INDEX p' = drop SIZEOF_NV_INDEX p"
    unfolding p'_def by (rule take_drop_bytes_put(3) [OF k(1)]) (use b in simp)
qed

lemma set_attr_auth: "set_attr a (set_auth auth ix) = set_auth auth (set_attr a ix)"
  by (simp add: set_attr_def set_auth_def)

lemma nv_at_auth:
  assumes a: "nv_at L st M h ref" and M: "M h = Some v" and b: "length auth \<le> 64"
  shows "\<exists>st'. NvWriteIndexAuth ref auth st = Inr (TPM_RC_SUCCESS, st') \<and>
    nv_rep L st' (M(h \<mapsto> (set_auth auth (fst v), snd v))) \<and> s_maxCounter st' = s_maxCounter st"
proof -
  obtain xs p ys rs where n: "at_nv L st M h ref xs p ys rs"
    and o: "entry_orderly p \<longrightarrow> (\<exists>us q vs. rs = us @ q # vs \<and> entry_handle q = h \<and> h \<notin> entry_handle ` set us \<and>
        length q = 8 + entry_dataSize p \<and> s_cachedNvRamRef st = Some (ram_end us))" using a unfolding nv_at_iff by blast
  note f = at_nv_facts [OF n] and e = entry_index_auth [OF at_nv_facts(10) [OF n] b]
  let ?b = "le_bytes 2 (length auth) @ auth" and ?p = "bytes_put 80 (le_bytes 2 (length auth) @ auth) p"
  let ?st = "st\<lparr>s_cachedNvIndex := (s_cachedNvIndex st)\<lparr>authValue := ?b @ drop (2 + length auth) (authValue (s_cachedNvIndex st))\<rparr>\<rparr>"
  have l0: "nv_list L ?st (xs @ p # ys) (s_maxCounter st)" using f(2) by (simp add: nv_list_def)
  have k: "80 + length ?b \<le> length p" using f(10) b by simp
  obtain st' where w: "NvConditionallyWrite (nv_pos L xs + 4 + 80) ?b ?st = Inr (TPM_RC_SUCCESS, st')"
    and l: "nv_list L st' (xs @ ?p # ys) (s_maxCounter st)"
    and fr: "st' = ?st\<lparr>s_NV := mem_put (s_NV ?st) (nv_pos L xs + 4 + 80) ?b, g_updateNV := g_updateNV st'\<rparr>"
    using NvConditionallyWrite_ok [OF l0 k] f(4) by auto
  have s: "s_maxCounter st' = s_maxCounter st" "g_NvStatus st' = g_NvStatus st" "s_indexOrderlyRam st' = s_indexOrderlyRam st"
    by (subst fr, simp)+
  have r: "ram_list st' rs" using f(3) s by (simp add: ram_list_def)
  have "view_of rs ?p = (set_auth auth (fst v), snd v)"
  proof (cases "entry_orderly p")
    case True
    with o obtain us q vs where rs: "rs = us @ q # vs" "entry_handle q = h" "h \<notin> entry_handle ` set us" by blast
    have "entry_orderly ?p" "entry_handle ?p = h" using True e(2) f(6) by (simp_all add: keeps_kind_def)
    then show ?thesis using view_of_orderly [of ?p q us vs] view_of_orderly [OF True, of q us vs] rs f(6,8) e(1) M
      by (simp add: set_attr_auth)
  next
    case False
    then have "\<not> entry_orderly ?p" using e(2) by (simp add: keeps_kind_def)
    then show ?thesis using False e f(8) M by (simp add: view_of_nv)
  qed
  then have "nv_rep L st' (M(h \<mapsto> (set_auth auth (fst v), snd v)))" using at_nv_put(1) [OF n e(2) l r s(1,2)] by simp
  moreover have "u32 (nv_pos L xs + 4 + 80) = nv_pos L xs + 4 + 80"
    using nv_list_at(3) [OF f(2)] f(10) by simp
  ultimately show ?thesis using w s b f(12,14) by (simp add: NvWriteIndexAuth_def)
qed

section \<open>Deleting\<close>

lemma find_filter_handle:
  "h \<in> entry_handle ` set ps \<Longrightarrow> find (\<lambda>r. entry_handle r = h) (ram_of ps rs) = find (\<lambda>r. entry_handle r = h) rs"
  by (induction rs) (auto simp: ram_of_def)

lemma contents_cong:
  "(\<And>p. p \<in> set ps \<Longrightarrow> is_index p \<Longrightarrow> view_of rs p = view_of rs' p) \<Longrightarrow> contents ps rs = contents ps rs'"
proof
  fix h assume "\<And>p. p \<in> set ps \<Longrightarrow> is_index p \<Longrightarrow> view_of rs p = view_of rs' p"
  then show "contents ps rs h = contents ps rs' h" unfolding contents_def by (induction ps) auto
qed

lemma contents_ram_of: "contents ps (ram_of ps rs) = contents ps rs"
  by (rule contents_cong, rule view_of_ram, rule find_filter_handle) simp

definition view_count :: "nv_view \<Rightarrow> UINT64" where
  "view_count v = ByteArrayToUint64 (take 8 (snd v))"

lemma stored_count_view:
  assumes i: "nv_inv L st (xs @ p # ys) rs mc"
  shows "stored_count rs p = view_count (view_of rs p)"
proof (cases "entry_orderly p")
  case True
  then obtain us r vs where "rs = us @ r # vs" "entry_handle r = entry_handle p" "entry_handle p \<notin> entry_handle ` set us"
    by (rule ram_of_orderly [OF i])
  then show ?thesis using True by (simp add: stored_count_def view_count_def view_of_def entry_data_def find_append find_handle_none)
qed (simp add: stored_count_def view_count_def view_of_def entry_data_def)

definition written_count :: "nv_view \<Rightarrow> UINT64" where
  "written_count v =
     (let a = nv_attributes (publicArea (fst v)) in if IsNvCounterIndex a \<and> bit a NV_WRITTEN then view_count v else 0)"

lemma nv_at_delete:
  assumes a: "nv_at L st M h ref" and M: "M h = Some v"
  shows "\<exists>st'. NvDeleteIndex L (Some (fst v)) ref st = Inr (TPM_RC_SUCCESS, st') \<and>
    nv_rep L st' (M(h := None)) \<and> s_maxCounter st' = max (s_maxCounter st) (written_count v)"
proof -
  obtain xs p ys rs where n: "at_nv L st M h ref xs p ys rs" using a unfolding nv_at_iff by blast
  note f = at_nv_facts [OF n]
  have v: "v = view_of rs p" using M f(8) by simp
  obtain st' where d: "NvDeleteIndex L (Some (index_info rs p)) (nv_pos L xs + 4) st = Inr (TPM_RC_SUCCESS, st')"
    and i: "nv_inv L st' (xs @ ys) (ram_of (xs @ ys) rs) (s_maxCounter st')" "g_NvStatus st' = TPM_RC_SUCCESS"
    and m: "s_maxCounter st' = max (s_maxCounter st) (deleted_count (index_info rs p) rs p)"
    using NvDeleteIndex_ok [OF f(1,4,5,9)] by blast
  have "M(h := None) = contents (xs @ ys) (ram_of (xs @ ys) rs)"
    using contents_remove [OF f(5,7), of rs] f(6,13) by (simp add: contents_ram_of)
  then have "nv_rep L st' (M(h := None))" using i unfolding nv_rep_def by blast
  moreover have "deleted_count (index_info rs p) rs p = written_count v"
    using stored_count_view [OF f(1)] v by (simp add: deleted_count_def written_count_def Let_def view_of_def)
  ultimately show ?thesis using d m v f(12) by (simp add: view_of_def)
qed

section \<open>Defining\<close>

lemma nv_rep_defined:
  assumes r: "nv_rep L st M" and h: "HandleGetType h = TPM_HT_NV_INDEX"
  shows "NvIndexIsDefined L h st = Inr (M h \<noteq> None)"
proof -
  obtain ps rs where i: "nv_inv L st ps rs (s_maxCounter st)" and M: "M = contents ps rs"
    using r unfolding nv_rep_def by blast
  show ?thesis
    by (rule NvFindHandle_cases [OF i, of h]) (use contents_none [OF i h] M in \<open>auto simp: NvIndexIsDefined_def\<close>)
qed

lemma entry_index_payload: "new_index ix \<Longrightarrow> entry_index (index_payload ix rest) = ix"
  by (simp add: new_index_def entry_index_def index_payload_def length_NV_INDEX_bytes NV_INDEX_round_trip)

lemma nv_rep_define:
  assumes r: "nv_rep L st M" and new: "new_index ix" and M: "M (nvIndex (publicArea ix)) = None"
    and ne: "NvDefineIndex L (publicArea ix) (authValue ix) st \<noteq> Inr (TPM_RC_NV_SPACE, st)"
  shows "\<exists>d st'. NvDefineIndex L (publicArea ix) (authValue ix) st = Inr (TPM_RC_SUCCESS, st') \<and>
    nv_rep L st' (M(nvIndex (publicArea ix) \<mapsto> (ix, d))) \<and> length d = unat (dataSize (publicArea ix)) \<and>
    s_maxCounter st' = s_maxCounter st"
proof -
  let ?h = "nvIndex (publicArea ix)"
  obtain ps rs where i: "nv_inv L st ps rs (s_maxCounter st)" and M': "M = contents ps rs" and ok: "g_NvStatus st = TPM_RC_SUCCESS"
    using r unfolding nv_rep_def by blast
  have h: "?h \<notin> entry_handle ` set ps" using contents_none [OF i, of ?h] new M M' by (simp add: new_index_def)
  have room: "index_room L ps rs ix" using NvDefineIndex_no_space [OF i new_index_storable [OF new]] ne by blast
  let ?rs = "rs @ (if index_orderly ix then [ram_payload (publicArea ix)] else [])"
  obtain rest st' where d: "NvDefineIndex L (publicArea ix) (authValue ix) st = Inr (TPM_RC_SUCCESS, st')"
    and i': "nv_inv L st' (ps @ [index_payload ix rest]) ?rs (s_maxCounter st)" and c: "same_control st st'"
    and len: "length rest = (if index_orderly ix then 0 else unat (dataSize (publicArea ix)))"
    using NvDefineIndex_ok [OF i ok new h room] by blast
  note f = index_payload_fields [OF new, of rest]
  have hr: "?h \<notin> entry_handle ` set rs" using nv_inv_ram_handles [OF i] h by blast
  have old: "contents ps ?rs = contents ps rs"
  proof (rule contents_cong, rule view_of_ram)
    fix p assume "p \<in> set ps"
    then have "entry_handle p \<noteq> ?h" using h by (metis imageI)
    then show "find (\<lambda>r. entry_handle r = entry_handle p) ?rs = find (\<lambda>r. entry_handle r = entry_handle p) rs"
      by (auto simp: find_append ram_payload_fields split: option.split)
  qed
  have M'': "contents (ps @ [index_payload ix rest]) ?rs = M(?h \<mapsto> view_of ?rs (index_payload ix rest))"
    using contents_append [of "index_payload ix rest" ps ?rs] f h old M' by simp
  have v: "\<exists>d. view_of ?rs (index_payload ix rest) = (ix, d) \<and> length d = unat (dataSize (publicArea ix))"
  proof (cases "index_orderly ix")
    case True
    then have "view_of ?rs (index_payload ix rest) =
      (set_attr (ram_attributes (ram_payload (publicArea ix))) (entry_index (index_payload ix rest)), drop 8 (ram_payload (publicArea ix)))"
      using view_of_orderly [of "index_payload ix rest" "ram_payload (publicArea ix)" rs "[]"] f hr by (simp add: ram_payload_fields)
    then show ?thesis using entry_index_payload [OF new] set_attr_fields(8) [of ix] by (simp add: ram_payload_fields)
  next
    case False
    then show ?thesis using view_of_nv [of "index_payload ix rest"] f entry_index_payload [OF new] len by simp
  qed
  then obtain e where e: "view_of ?rs (index_payload ix rest) = (ix, e)" "length e = unat (dataSize (publicArea ix))" by blast
  have "nv_rep L st' (M(?h \<mapsto> (ix, e)))"
    using i' M'' e c ok unfolding nv_rep_def same_control_def by (metis (no_types, lifting))
  then show ?thesis using d e c by (auto simp: same_control_def)
qed

section \<open>The global lock\<close>

definition lock_view :: "nv_view \<Rightarrow> nv_view" where
  "lock_view v = (let a = nv_attributes (publicArea (fst v)) in
     (if bit a NV_GLOBALLOCK then set_attr (set_bit NV_WRITELOCKED a) (fst v) else fst v, snd v))"

lemma lock_view_of:
  assumes i: "nv_inv L st (xs @ p # ys) rs mc" and p: "is_index p"
  shows "view_of (map lock_ram rs) (lock_entry p) = lock_view (view_of rs p)" "is_index (lock_entry p)" "entry_handle (lock_entry p) = entry_handle p"
proof -
  have w: "wf_entry L p" using nv_inv_entryD [OF i] by simp
  note k = lock_entry_keeps [OF w] and len = wf_entry_length [OF w p]
  show h: "entry_handle (lock_entry p) = entry_handle p" "is_index (lock_entry p)" using k p by (simp_all add: is_index_def)
  show "view_of (map lock_ram rs) (lock_entry p) = lock_view (view_of rs p)"
  proof (cases "entry_orderly p")
    case True
    then obtain us r vs where rs: "rs = us @ r # vs" "entry_handle r = entry_handle p" "entry_handle p \<notin> entry_handle ` set us"
      "length r = 8 + entry_dataSize p" by (rule ram_of_orderly [OF i])
    have e: "lock_entry p = p" using True by (simp add: lock_entry_def)
    have "\<forall>u \<in> set rs. entry_handle (lock_ram u) = entry_handle u"
      using lock_ram_keeps nv_inv_ram_length [OF i] by blast
    then have n: "entry_handle (lock_ram r) = entry_handle p" "entry_handle p \<notin> entry_handle ` set (map lock_ram us)"
      using rs by (auto simp: image_iff)
    have "8 \<le> length r" using rs by simp
    note s = set_ram_attributes_fields [OF this]
    have "view_of (map lock_ram rs) (lock_entry p) = (set_attr (ram_attributes (lock_ram r)) (entry_index p), drop 8 (lock_ram r))"
      using view_of_orderly [OF True n, of "map lock_ram vs"] rs e by simp
    then show ?thesis using view_of_orderly [OF True rs(2,3), of vs] rs s by (auto simp: lock_view_def Let_def lock_ram_def)
  next
    case False
    then have "\<not> entry_orderly (lock_entry p)" using k p by simp
    then show ?thesis using False p len entry_index_set_attributes [OF len] drop_set_attributes [of SIZEOF_NV_INDEX p]
      by (auto simp: view_of_nv lock_view_def Let_def lock_entry_def)
  qed
qed

lemma nv_rep_lock:
  assumes r: "nv_rep L st M"
  shows "\<exists>st'. NvSetGlobalLock L st = Inr (TPM_RC_SUCCESS, st') \<and> nv_rep L st' (\<lambda>h. map_option lock_view (M h)) \<and>
    s_maxCounter st' = s_maxCounter st"
proof -
  obtain ps rs where i: "nv_inv L st ps rs (s_maxCounter st)" and M: "M = contents ps rs" and ok: "g_NvStatus st = TPM_RC_SUCCESS"
    using r unfolding nv_rep_def by blast
  obtain st' where l: "NvSetGlobalLock L st = Inr (TPM_RC_SUCCESS, st')"
    and i': "nv_inv L st' (map lock_entry ps) (map lock_ram rs) (s_maxCounter st)" and c: "same_control st st'"
    using NvSetGlobalLock_inv [OF i ok] by blast
  have v: "view_of (map lock_ram rs) (lock_entry p) = lock_view (view_of rs p)" "is_index (lock_entry p)" "entry_handle (lock_entry p) = entry_handle p"
    if p: "p \<in> set ps" "is_index p" for p
  proof -
    obtain xs ys where "ps = xs @ p # ys" using p(1) by (metis split_list)
    then show "view_of (map lock_ram rs) (lock_entry p) = lock_view (view_of rs p)" "is_index (lock_entry p)" "entry_handle (lock_entry p) = entry_handle p"
      using lock_view_of [of L st xs p ys rs] i p(2) by auto
  qed
  have id: "lock_entry p = p" if "\<not> is_index p" for p using that by (simp add: lock_entry_def)
  have "(\<lambda>h. map_option lock_view (M h)) = contents (map lock_entry ps) (map lock_ram rs)"
  proof
    fix h
    show "map_option lock_view (M h) = contents (map lock_entry ps) (map lock_ram rs) h"
      unfolding M contents_def using v
    proof (induction ps)
      case (Cons p ps)
      show ?case
      proof (cases "is_index p")
        case True
        then show ?thesis using Cons.prems [of p] Cons.IH Cons.prems by auto
      next
        case False
        then show ?thesis using id [OF False] Cons.IH Cons.prems by auto
      qed
    qed simp
  qed
  then have "nv_rep L st' (\<lambda>h. map_option lock_view (M h))"
    using i' c ok unfolding nv_rep_def same_control_def by metis
  then show ?thesis using l c by (auto simp: same_control_def)
qed

end
