(* ===== verification/FTPM_Marshal.thy ===== *)
theory FTPM_Marshal
  imports FTPM_Codec
begin

unbundle bit_operations_syntax

text \<open>
  The simple types of \<^verbatim>\<open>Marshal.c\<close> and \<^verbatim>\<open>Unmarshal.c\<close>: constants, attributes,
  handles, algorithm identifiers and octet strings.  For a type with an interface check,
  \<open>T_ok\<close> is the set of values the check accepts in this configuration, and
  \<open>codec_T\<close> is the contract between the marshaler and the unmarshaler; a type that the TPM
  only reads is paired with the marshaler of the type it is made of.
\<close>

abbreviation (input) TPM_ALG_AES :: TPM_ALG_ID where "TPM_ALG_AES \<equiv> 0x0006"
abbreviation (input) TPM_ALG_CAMELLIA :: TPM_ALG_ID where "TPM_ALG_CAMELLIA \<equiv> 0x0026"
abbreviation (input) TPM_ALG_CBC :: TPM_ALG_ID where "TPM_ALG_CBC \<equiv> 0x0042"
abbreviation (input) TPM_ALG_CFB :: TPM_ALG_ID where "TPM_ALG_CFB \<equiv> 0x0043"
abbreviation (input) TPM_ALG_CMAC :: TPM_ALG_ID where "TPM_ALG_CMAC \<equiv> 0x003F"
abbreviation (input) TPM_ALG_CTR :: TPM_ALG_ID where "TPM_ALG_CTR \<equiv> 0x0040"
abbreviation (input) TPM_ALG_ECB :: TPM_ALG_ID where "TPM_ALG_ECB \<equiv> 0x0044"
abbreviation (input) TPM_ALG_ECC :: TPM_ALG_ID where "TPM_ALG_ECC \<equiv> 0x0023"
abbreviation (input) TPM_ALG_ECDAA :: TPM_ALG_ID where "TPM_ALG_ECDAA \<equiv> 0x001A"
abbreviation (input) TPM_ALG_ECDH :: TPM_ALG_ID where "TPM_ALG_ECDH \<equiv> 0x0019"
abbreviation (input) TPM_ALG_ECDSA :: TPM_ALG_ID where "TPM_ALG_ECDSA \<equiv> 0x0018"
abbreviation (input) TPM_ALG_ECMQV :: TPM_ALG_ID where "TPM_ALG_ECMQV \<equiv> 0x001D"
abbreviation (input) TPM_ALG_ECSCHNORR :: TPM_ALG_ID where "TPM_ALG_ECSCHNORR \<equiv> 0x001C"
abbreviation (input) TPM_ALG_HMAC :: TPM_ALG_ID where "TPM_ALG_HMAC \<equiv> 0x0005"
abbreviation (input) TPM_ALG_KDF1_SP800_108 :: TPM_ALG_ID where "TPM_ALG_KDF1_SP800_108 \<equiv> 0x0022"
abbreviation (input) TPM_ALG_KDF1_SP800_56A :: TPM_ALG_ID where "TPM_ALG_KDF1_SP800_56A \<equiv> 0x0020"
abbreviation (input) TPM_ALG_KDF2 :: TPM_ALG_ID where "TPM_ALG_KDF2 \<equiv> 0x0021"
abbreviation (input) TPM_ALG_KEYEDHASH :: TPM_ALG_ID where "TPM_ALG_KEYEDHASH \<equiv> 0x0008"
abbreviation (input) TPM_ALG_MGF1 :: TPM_ALG_ID where "TPM_ALG_MGF1 \<equiv> 0x0007"
abbreviation (input) TPM_ALG_OAEP :: TPM_ALG_ID where "TPM_ALG_OAEP \<equiv> 0x0017"
abbreviation (input) TPM_ALG_OFB :: TPM_ALG_ID where "TPM_ALG_OFB \<equiv> 0x0041"
abbreviation (input) TPM_ALG_RSA :: TPM_ALG_ID where "TPM_ALG_RSA \<equiv> 0x0001"
abbreviation (input) TPM_ALG_RSAES :: TPM_ALG_ID where "TPM_ALG_RSAES \<equiv> 0x0015"
abbreviation (input) TPM_ALG_RSAPSS :: TPM_ALG_ID where "TPM_ALG_RSAPSS \<equiv> 0x0016"
abbreviation (input) TPM_ALG_RSASSA :: TPM_ALG_ID where "TPM_ALG_RSASSA \<equiv> 0x0014"
abbreviation (input) TPM_ALG_SM2 :: TPM_ALG_ID where "TPM_ALG_SM2 \<equiv> 0x001B"
abbreviation (input) TPM_ALG_SYMCIPHER :: TPM_ALG_ID where "TPM_ALG_SYMCIPHER \<equiv> 0x0025"
abbreviation (input) TPM_ALG_XOR :: TPM_ALG_ID where "TPM_ALG_XOR \<equiv> 0x000A"
abbreviation (input) TPM_CAP_ACT :: UINT32 where "TPM_CAP_ACT \<equiv> 0x0000000a"
abbreviation (input) TPM_CAP_ALGS :: UINT32 where "TPM_CAP_ALGS \<equiv> 0x00000000"
abbreviation (input) TPM_CAP_AUDIT_COMMANDS :: UINT32 where "TPM_CAP_AUDIT_COMMANDS \<equiv> 0x00000004"
abbreviation (input) TPM_CAP_AUTH_POLICIES :: UINT32 where "TPM_CAP_AUTH_POLICIES \<equiv> 0x00000009"
abbreviation (input) TPM_CAP_COMMANDS :: UINT32 where "TPM_CAP_COMMANDS \<equiv> 0x00000002"
abbreviation (input) TPM_CAP_ECC_CURVES :: UINT32 where "TPM_CAP_ECC_CURVES \<equiv> 0x00000008"
abbreviation (input) TPM_CAP_HANDLES :: UINT32 where "TPM_CAP_HANDLES \<equiv> 0x00000001"
abbreviation (input) TPM_CAP_PCRS :: UINT32 where "TPM_CAP_PCRS \<equiv> 0x00000005"
abbreviation (input) TPM_CAP_PCR_PROPERTIES :: UINT32 where "TPM_CAP_PCR_PROPERTIES \<equiv> 0x00000007"
abbreviation (input) TPM_CAP_PP_COMMANDS :: UINT32 where "TPM_CAP_PP_COMMANDS \<equiv> 0x00000003"
abbreviation (input) TPM_CAP_TPM_PROPERTIES :: UINT32 where "TPM_CAP_TPM_PROPERTIES \<equiv> 0x00000006"
abbreviation (input) TPM_CAP_VENDOR_PROPERTY :: UINT32 where "TPM_CAP_VENDOR_PROPERTY \<equiv> 0x00000100"
abbreviation (input) TPM_CLOCK_COARSE_FASTER :: UINT8 where "TPM_CLOCK_COARSE_FASTER \<equiv> 3"
abbreviation (input) TPM_CLOCK_COARSE_SLOWER :: UINT8 where "TPM_CLOCK_COARSE_SLOWER \<equiv> -3"
abbreviation (input) TPM_CLOCK_FINE_FASTER :: UINT8 where "TPM_CLOCK_FINE_FASTER \<equiv> 1"
abbreviation (input) TPM_CLOCK_FINE_SLOWER :: UINT8 where "TPM_CLOCK_FINE_SLOWER \<equiv> -1"
abbreviation (input) TPM_CLOCK_MEDIUM_FASTER :: UINT8 where "TPM_CLOCK_MEDIUM_FASTER \<equiv> 2"
abbreviation (input) TPM_CLOCK_MEDIUM_SLOWER :: UINT8 where "TPM_CLOCK_MEDIUM_SLOWER \<equiv> -2"
abbreviation (input) TPM_CLOCK_NO_CHANGE :: UINT8 where "TPM_CLOCK_NO_CHANGE \<equiv> 0"
abbreviation (input) TPM_ECC_BN_P256 :: UINT16 where "TPM_ECC_BN_P256 \<equiv> 0x0010"
abbreviation (input) TPM_ECC_BN_P638 :: UINT16 where "TPM_ECC_BN_P638 \<equiv> 0x0011"
abbreviation (input) TPM_ECC_NIST_P192 :: UINT16 where "TPM_ECC_NIST_P192 \<equiv> 0x0001"
abbreviation (input) TPM_ECC_NIST_P224 :: UINT16 where "TPM_ECC_NIST_P224 \<equiv> 0x0002"
abbreviation (input) TPM_ECC_NIST_P256 :: UINT16 where "TPM_ECC_NIST_P256 \<equiv> 0x0003"
abbreviation (input) TPM_ECC_NIST_P384 :: UINT16 where "TPM_ECC_NIST_P384 \<equiv> 0x0004"
abbreviation (input) TPM_ECC_NIST_P521 :: UINT16 where "TPM_ECC_NIST_P521 \<equiv> 0x0005"
abbreviation (input) TPM_ECC_NONE :: UINT16 where "TPM_ECC_NONE \<equiv> 0x0000"
abbreviation (input) TPM_ECC_SM2_P256 :: UINT16 where "TPM_ECC_SM2_P256 \<equiv> 0x0020"
abbreviation (input) TPM_EO_BITCLEAR :: UINT16 where "TPM_EO_BITCLEAR \<equiv> 0x000B"
abbreviation (input) TPM_EO_BITSET :: UINT16 where "TPM_EO_BITSET \<equiv> 0x000A"
abbreviation (input) TPM_EO_EQ :: UINT16 where "TPM_EO_EQ \<equiv> 0x0000"
abbreviation (input) TPM_EO_NEQ :: UINT16 where "TPM_EO_NEQ \<equiv> 0x0001"
abbreviation (input) TPM_EO_SIGNED_GE :: UINT16 where "TPM_EO_SIGNED_GE \<equiv> 0x0006"
abbreviation (input) TPM_EO_SIGNED_GT :: UINT16 where "TPM_EO_SIGNED_GT \<equiv> 0x0002"
abbreviation (input) TPM_EO_SIGNED_LE :: UINT16 where "TPM_EO_SIGNED_LE \<equiv> 0x0008"
abbreviation (input) TPM_EO_SIGNED_LT :: UINT16 where "TPM_EO_SIGNED_LT \<equiv> 0x0004"
abbreviation (input) TPM_EO_UNSIGNED_GE :: UINT16 where "TPM_EO_UNSIGNED_GE \<equiv> 0x0007"
abbreviation (input) TPM_EO_UNSIGNED_GT :: UINT16 where "TPM_EO_UNSIGNED_GT \<equiv> 0x0003"
abbreviation (input) TPM_EO_UNSIGNED_LE :: UINT16 where "TPM_EO_UNSIGNED_LE \<equiv> 0x0009"
abbreviation (input) TPM_EO_UNSIGNED_LT :: UINT16 where "TPM_EO_UNSIGNED_LT \<equiv> 0x0005"
abbreviation (input) AC_FIRST :: TPM_HANDLE where "AC_FIRST \<equiv> 0x90000000"
abbreviation (input) AC_LAST :: TPM_HANDLE where "AC_LAST \<equiv> 0x9000FFFF"
abbreviation (input) EXTERNAL_NV_FIRST :: TPM_HANDLE where "EXTERNAL_NV_FIRST \<equiv> 0x11000000"
abbreviation (input) EXTERNAL_NV_LAST :: TPM_HANDLE where "EXTERNAL_NV_LAST \<equiv> 0x11FFFFFF"
abbreviation (input) HMAC_SESSION_LAST :: TPM_HANDLE where "HMAC_SESSION_LAST \<equiv> 0x0200003F"
abbreviation (input) NV_INDEX_FIRST :: TPM_HANDLE where "NV_INDEX_FIRST \<equiv> 0x01000000"
abbreviation (input) NV_INDEX_LAST :: TPM_HANDLE where "NV_INDEX_LAST \<equiv> 0x01FFFFFF"
abbreviation (input) PCR_LAST :: TPM_HANDLE where "PCR_LAST \<equiv> 23"
abbreviation (input) PERMANENT_NV_FIRST :: TPM_HANDLE where "PERMANENT_NV_FIRST \<equiv> 0x12000000"
abbreviation (input) PERMANENT_NV_LAST :: TPM_HANDLE where "PERMANENT_NV_LAST \<equiv> 0x12FFFFFF"
abbreviation (input) POLICY_SESSION_LAST :: TPM_HANDLE where "POLICY_SESSION_LAST \<equiv> 0x0300003F"
abbreviation (input) TRANSIENT_LAST :: TPM_HANDLE where "TRANSIENT_LAST \<equiv> 0x80000002"
abbreviation (input) TPM_RC_BAD_TAG :: TPM_RC where "TPM_RC_BAD_TAG \<equiv> 0x01E"
abbreviation (input) TPM_RC_CURVE :: TPM_RC where "TPM_RC_CURVE \<equiv> 0x0A6"
abbreviation (input) TPM_RC_HASH :: TPM_RC where "TPM_RC_HASH \<equiv> 0x083"
abbreviation (input) TPM_RC_KDF :: TPM_RC where "TPM_RC_KDF \<equiv> 0x08C"
abbreviation (input) TPM_RC_MODE :: TPM_RC where "TPM_RC_MODE \<equiv> 0x089"
abbreviation (input) TPM_RC_RESERVED_BITS :: TPM_RC where "TPM_RC_RESERVED_BITS \<equiv> 0x0A1"
abbreviation (input) TPM_RC_SCHEME :: TPM_RC where "TPM_RC_SCHEME \<equiv> 0x092"
abbreviation (input) TPM_RC_SELECTOR :: TPM_RC where "TPM_RC_SELECTOR \<equiv> 0x098"
abbreviation (input) TPM_RC_SYMMETRIC :: TPM_RC where "TPM_RC_SYMMETRIC \<equiv> 0x096"
abbreviation (input) TPM_RC_TAG :: TPM_RC where "TPM_RC_TAG \<equiv> 0x097"
abbreviation (input) TPM_RC_TYPE :: TPM_RC where "TPM_RC_TYPE \<equiv> 0x08A"
abbreviation (input) TPM_RH_ACT_0 :: TPM_HANDLE where "TPM_RH_ACT_0 \<equiv> 0x40000110"
abbreviation (input) TPM_RH_ACT_F :: TPM_HANDLE where "TPM_RH_ACT_F \<equiv> 0x4000011F"
abbreviation (input) TPM_RH_AUTH_00 :: TPM_HANDLE where "TPM_RH_AUTH_00 \<equiv> 0x40000010"
abbreviation (input) TPM_RH_AUTH_FF :: TPM_HANDLE where "TPM_RH_AUTH_FF \<equiv> 0x4000010F"
abbreviation (input) TPM_SE_HMAC :: UINT8 where "TPM_SE_HMAC \<equiv> 0x00"
abbreviation (input) TPM_SE_POLICY :: UINT8 where "TPM_SE_POLICY \<equiv> 0x01"
abbreviation (input) TPM_SE_TRIAL :: UINT8 where "TPM_SE_TRIAL \<equiv> 0x03"
abbreviation (input) TPM_ST_ATTEST_CERTIFY :: UINT16 where "TPM_ST_ATTEST_CERTIFY \<equiv> 0x8017"
abbreviation (input) TPM_ST_ATTEST_COMMAND_AUDIT :: UINT16 where "TPM_ST_ATTEST_COMMAND_AUDIT \<equiv> 0x8015"
abbreviation (input) TPM_ST_ATTEST_CREATION :: UINT16 where "TPM_ST_ATTEST_CREATION \<equiv> 0x801A"
abbreviation (input) TPM_ST_ATTEST_NV :: UINT16 where "TPM_ST_ATTEST_NV \<equiv> 0x8014"
abbreviation (input) TPM_ST_ATTEST_NV_DIGEST :: UINT16 where "TPM_ST_ATTEST_NV_DIGEST \<equiv> 0x801C"
abbreviation (input) TPM_ST_ATTEST_QUOTE :: UINT16 where "TPM_ST_ATTEST_QUOTE \<equiv> 0x8018"
abbreviation (input) TPM_ST_ATTEST_SESSION_AUDIT :: UINT16 where "TPM_ST_ATTEST_SESSION_AUDIT \<equiv> 0x8016"
abbreviation (input) TPM_ST_ATTEST_TIME :: UINT16 where "TPM_ST_ATTEST_TIME \<equiv> 0x8019"
abbreviation (input) TPM_ST_AUTH_SECRET :: UINT16 where "TPM_ST_AUTH_SECRET \<equiv> 0x8023"
abbreviation (input) TPM_ST_AUTH_SIGNED :: UINT16 where "TPM_ST_AUTH_SIGNED \<equiv> 0x8025"
abbreviation (input) TPM_ST_CREATION :: UINT16 where "TPM_ST_CREATION \<equiv> 0x8021"
abbreviation (input) TPM_ST_HASHCHECK :: UINT16 where "TPM_ST_HASHCHECK \<equiv> 0x8024"
abbreviation (input) TPM_ST_NO_SESSIONS :: UINT16 where "TPM_ST_NO_SESSIONS \<equiv> 0x8001"
abbreviation (input) TPM_ST_NULL :: UINT16 where "TPM_ST_NULL \<equiv> 0x8000"
abbreviation (input) TPM_ST_RSP_COMMAND :: UINT16 where "TPM_ST_RSP_COMMAND \<equiv> 0x00C4"
abbreviation (input) TPM_ST_SESSIONS :: UINT16 where "TPM_ST_SESSIONS \<equiv> 0x8002"
abbreviation (input) TPM_ST_VERIFIED :: UINT16 where "TPM_ST_VERIFIED \<equiv> 0x8022"
abbreviation (input) TPM_SU_CLEAR :: UINT16 where "TPM_SU_CLEAR \<equiv> 0x0000"
abbreviation (input) TPM_SU_STATE :: UINT16 where "TPM_SU_STATE \<equiv> 0x0001"
abbreviation (input) TPMA_ALGORITHM_reserved :: UINT32 where "TPMA_ALGORITHM_reserved \<equiv> 0xfffff8f0"
abbreviation (input) TPMA_CC_reserved :: UINT32 where "TPMA_CC_reserved \<equiv> 0xc03f0000"
abbreviation (input) TPMA_NV_RESERVED :: UINT32 where "TPMA_NV_RESERVED \<equiv> 0x01f00300"
abbreviation (input) TPMA_OBJECT_reserved :: UINT32 where "TPMA_OBJECT_reserved \<equiv> 0xfff0f009"
abbreviation (input) TPMA_NV_EXP_reserved :: UINT64 where "TPMA_NV_EXP_reserved \<equiv> 0xfffffff800000000"
abbreviation (input) NO :: UINT8 where "NO \<equiv> 0"
abbreviation (input) TPMA_SESSION_reserved :: UINT8 where "TPMA_SESSION_reserved \<equiv> 0x18"
abbreviation (input) YES :: UINT8 where "YES \<equiv> 1"

section \<open>Constants and simple types\<close>

definition INT8_Unmarshal :: "UINT8 unmarshaler" where
  "INT8_Unmarshal = UINT8_Unmarshal"

lemma codec_INT8: "codec UINT8_Marshal INT8_Unmarshal (\<lambda>x. True) 1"
  using codec_UINT8 by (simp add: INT8_Unmarshal_def)

definition TPM_KEY_BITS_Marshal :: "UINT16 \<Rightarrow> marshaler" where
  "TPM_KEY_BITS_Marshal = UINT16_Marshal"

definition TPM_KEY_BITS_Unmarshal :: "UINT16 unmarshaler" where
  "TPM_KEY_BITS_Unmarshal = UINT16_Unmarshal"

lemma codec_TPM_KEY_BITS: "codec TPM_KEY_BITS_Marshal TPM_KEY_BITS_Unmarshal (\<lambda>x. True) 2"
  using codec_UINT16 by (simp add: TPM_KEY_BITS_Marshal_def TPM_KEY_BITS_Unmarshal_def)

definition TPM_ALG_ID_Marshal :: "TPM_ALG_ID \<Rightarrow> marshaler" where
  "TPM_ALG_ID_Marshal = UINT16_Marshal"

definition TPM_ALG_ID_Unmarshal :: "TPM_ALG_ID unmarshaler" where
  "TPM_ALG_ID_Unmarshal = UINT16_Unmarshal"

lemma codec_TPM_ALG_ID: "codec TPM_ALG_ID_Marshal TPM_ALG_ID_Unmarshal (\<lambda>x. True) 2"
  using codec_UINT16 by (simp add: TPM_ALG_ID_Marshal_def TPM_ALG_ID_Unmarshal_def)

definition TPM_ECC_CURVE_Marshal :: "UINT16 \<Rightarrow> marshaler" where
  "TPM_ECC_CURVE_Marshal = UINT16_Marshal"

definition TPM_ECC_CURVE_ok :: "UINT16 \<Rightarrow> bool" where
  "TPM_ECC_CURVE_ok target \<longleftrightarrow>
     target \<in> {TPM_ECC_NONE, TPM_ECC_NIST_P192, TPM_ECC_NIST_P224, TPM_ECC_NIST_P256, TPM_ECC_NIST_P384, TPM_ECC_NIST_P521, TPM_ECC_BN_P256, TPM_ECC_BN_P638, TPM_ECC_SM2_P256}"

definition TPM_ECC_CURVE_Unmarshal :: "UINT16 unmarshaler" where
  "TPM_ECC_CURVE_Unmarshal = checked UINT16_Unmarshal TPM_ECC_CURVE_ok TPM_RC_CURVE"

lemma codec_TPM_ECC_CURVE: "codec TPM_ECC_CURVE_Marshal TPM_ECC_CURVE_Unmarshal TPM_ECC_CURVE_ok 2"
  unfolding TPM_ECC_CURVE_Marshal_def TPM_ECC_CURVE_Unmarshal_def by (rule codec_checked_any [OF codec_UINT16])

definition TPM_CC_Marshal :: "TPM_CC \<Rightarrow> marshaler" where
  "TPM_CC_Marshal = UINT32_Marshal"

definition TPM_CC_Unmarshal :: "TPM_CC unmarshaler" where
  "TPM_CC_Unmarshal = UINT32_Unmarshal"

lemma codec_TPM_CC: "codec TPM_CC_Marshal TPM_CC_Unmarshal (\<lambda>x. True) 4"
  using codec_UINT32 by (simp add: TPM_CC_Marshal_def TPM_CC_Unmarshal_def)

definition TPM_CLOCK_ADJUST_ok :: "UINT8 \<Rightarrow> bool" where
  "TPM_CLOCK_ADJUST_ok target \<longleftrightarrow>
     target \<in> {TPM_CLOCK_COARSE_SLOWER, TPM_CLOCK_MEDIUM_SLOWER, TPM_CLOCK_FINE_SLOWER, TPM_CLOCK_NO_CHANGE, TPM_CLOCK_FINE_FASTER, TPM_CLOCK_MEDIUM_FASTER, TPM_CLOCK_COARSE_FASTER}"

definition TPM_CLOCK_ADJUST_Unmarshal :: "UINT8 unmarshaler" where
  "TPM_CLOCK_ADJUST_Unmarshal = checked INT8_Unmarshal TPM_CLOCK_ADJUST_ok TPM_RC_VALUE"

lemma codec_TPM_CLOCK_ADJUST: "codec UINT8_Marshal TPM_CLOCK_ADJUST_Unmarshal TPM_CLOCK_ADJUST_ok 1"
  unfolding TPM_CLOCK_ADJUST_Unmarshal_def by (rule codec_checked_any [OF codec_INT8])

definition TPM_EO_ok :: "UINT16 \<Rightarrow> bool" where
  "TPM_EO_ok target \<longleftrightarrow>
     target \<in> {TPM_EO_EQ, TPM_EO_NEQ, TPM_EO_SIGNED_GT, TPM_EO_UNSIGNED_GT, TPM_EO_SIGNED_LT, TPM_EO_UNSIGNED_LT, TPM_EO_SIGNED_GE, TPM_EO_UNSIGNED_GE, TPM_EO_SIGNED_LE, TPM_EO_UNSIGNED_LE, TPM_EO_BITSET, TPM_EO_BITCLEAR}"

definition TPM_EO_Unmarshal :: "UINT16 unmarshaler" where
  "TPM_EO_Unmarshal = checked UINT16_Unmarshal TPM_EO_ok TPM_RC_VALUE"

lemma codec_TPM_EO: "codec UINT16_Marshal TPM_EO_Unmarshal TPM_EO_ok 2"
  unfolding TPM_EO_Unmarshal_def by (rule codec_checked_any [OF codec_UINT16])

definition TPM_ST_Marshal :: "UINT16 \<Rightarrow> marshaler" where
  "TPM_ST_Marshal = UINT16_Marshal"

definition TPM_ST_ok :: "UINT16 \<Rightarrow> bool" where
  "TPM_ST_ok target \<longleftrightarrow>
     target \<in> {TPM_ST_RSP_COMMAND, TPM_ST_NULL, TPM_ST_NO_SESSIONS, TPM_ST_SESSIONS, TPM_ST_ATTEST_NV, TPM_ST_ATTEST_COMMAND_AUDIT, TPM_ST_ATTEST_SESSION_AUDIT, TPM_ST_ATTEST_CERTIFY, TPM_ST_ATTEST_QUOTE, TPM_ST_ATTEST_TIME, TPM_ST_ATTEST_CREATION, TPM_ST_CREATION, TPM_ST_VERIFIED, TPM_ST_AUTH_SECRET, TPM_ST_HASHCHECK, TPM_ST_AUTH_SIGNED}"

definition TPM_ST_Unmarshal :: "UINT16 unmarshaler" where
  "TPM_ST_Unmarshal = checked UINT16_Unmarshal TPM_ST_ok TPM_RC_VALUE"

lemma codec_TPM_ST: "codec TPM_ST_Marshal TPM_ST_Unmarshal TPM_ST_ok 2"
  unfolding TPM_ST_Marshal_def TPM_ST_Unmarshal_def by (rule codec_checked_any [OF codec_UINT16])

definition TPM_SU_ok :: "UINT16 \<Rightarrow> bool" where
  "TPM_SU_ok target \<longleftrightarrow> target \<in> {TPM_SU_CLEAR, TPM_SU_STATE}"

definition TPM_SU_Unmarshal :: "UINT16 unmarshaler" where
  "TPM_SU_Unmarshal = checked UINT16_Unmarshal TPM_SU_ok TPM_RC_VALUE"

lemma codec_TPM_SU: "codec UINT16_Marshal TPM_SU_Unmarshal TPM_SU_ok 2"
  unfolding TPM_SU_Unmarshal_def by (rule codec_checked_any [OF codec_UINT16])

definition TPM_SE_ok :: "UINT8 \<Rightarrow> bool" where
  "TPM_SE_ok target \<longleftrightarrow> target \<in> {TPM_SE_HMAC, TPM_SE_POLICY, TPM_SE_TRIAL}"

definition TPM_SE_Unmarshal :: "UINT8 unmarshaler" where
  "TPM_SE_Unmarshal = checked UINT8_Unmarshal TPM_SE_ok TPM_RC_VALUE"

lemma codec_TPM_SE: "codec UINT8_Marshal TPM_SE_Unmarshal TPM_SE_ok 1"
  unfolding TPM_SE_Unmarshal_def by (rule codec_checked_any [OF codec_UINT8])

definition TPM_CAP_Marshal :: "UINT32 \<Rightarrow> marshaler" where
  "TPM_CAP_Marshal = UINT32_Marshal"

definition TPM_CAP_ok :: "UINT32 \<Rightarrow> bool" where
  "TPM_CAP_ok target \<longleftrightarrow>
     target \<in> {TPM_CAP_ALGS, TPM_CAP_HANDLES, TPM_CAP_COMMANDS, TPM_CAP_PP_COMMANDS, TPM_CAP_AUDIT_COMMANDS, TPM_CAP_PCRS, TPM_CAP_TPM_PROPERTIES, TPM_CAP_PCR_PROPERTIES, TPM_CAP_ECC_CURVES, TPM_CAP_AUTH_POLICIES, TPM_CAP_ACT, TPM_CAP_VENDOR_PROPERTY}"

definition TPM_CAP_Unmarshal :: "UINT32 unmarshaler" where
  "TPM_CAP_Unmarshal = checked UINT32_Unmarshal TPM_CAP_ok TPM_RC_VALUE"

lemma codec_TPM_CAP: "codec TPM_CAP_Marshal TPM_CAP_Unmarshal TPM_CAP_ok 4"
  unfolding TPM_CAP_Marshal_def TPM_CAP_Unmarshal_def by (rule codec_checked_any [OF codec_UINT32])

definition TPM_PT_Marshal :: "UINT32 \<Rightarrow> marshaler" where
  "TPM_PT_Marshal = UINT32_Marshal"

definition TPM_PT_Unmarshal :: "UINT32 unmarshaler" where
  "TPM_PT_Unmarshal = UINT32_Unmarshal"

lemma codec_TPM_PT: "codec TPM_PT_Marshal TPM_PT_Unmarshal (\<lambda>x. True) 4"
  using codec_UINT32 by (simp add: TPM_PT_Marshal_def TPM_PT_Unmarshal_def)

definition TPM_PT_PCR_Marshal :: "UINT32 \<Rightarrow> marshaler" where
  "TPM_PT_PCR_Marshal = UINT32_Marshal"

definition TPM_PT_PCR_Unmarshal :: "UINT32 unmarshaler" where
  "TPM_PT_PCR_Unmarshal = UINT32_Unmarshal"

lemma codec_TPM_PT_PCR: "codec TPM_PT_PCR_Marshal TPM_PT_PCR_Unmarshal (\<lambda>x. True) 4"
  using codec_UINT32 by (simp add: TPM_PT_PCR_Marshal_def TPM_PT_PCR_Unmarshal_def)

definition TPM_HANDLE_Marshal :: "TPM_HANDLE \<Rightarrow> marshaler" where
  "TPM_HANDLE_Marshal = UINT32_Marshal"

definition TPM_HANDLE_Unmarshal :: "TPM_HANDLE unmarshaler" where
  "TPM_HANDLE_Unmarshal = UINT32_Unmarshal"

lemma codec_TPM_HANDLE: "codec TPM_HANDLE_Marshal TPM_HANDLE_Unmarshal (\<lambda>x. True) 4"
  using codec_UINT32 by (simp add: TPM_HANDLE_Marshal_def TPM_HANDLE_Unmarshal_def)

text \<open>Attributes: the reserved bits must be clear.\<close>

definition TPMA_ALGORITHM_Marshal :: "UINT32 \<Rightarrow> marshaler" where
  "TPMA_ALGORITHM_Marshal = UINT32_Marshal"

definition TPMA_ALGORITHM_ok :: "UINT32 \<Rightarrow> bool" where
  "TPMA_ALGORITHM_ok target \<longleftrightarrow> target AND TPMA_ALGORITHM_reserved = 0"

definition TPMA_ALGORITHM_Unmarshal :: "UINT32 unmarshaler" where
  "TPMA_ALGORITHM_Unmarshal = checked UINT32_Unmarshal TPMA_ALGORITHM_ok TPM_RC_RESERVED_BITS"

lemma codec_TPMA_ALGORITHM: "codec TPMA_ALGORITHM_Marshal TPMA_ALGORITHM_Unmarshal TPMA_ALGORITHM_ok 4"
  unfolding TPMA_ALGORITHM_Marshal_def TPMA_ALGORITHM_Unmarshal_def by (rule codec_checked_any [OF codec_UINT32])

definition TPMA_OBJECT_Marshal :: "UINT32 \<Rightarrow> marshaler" where
  "TPMA_OBJECT_Marshal = UINT32_Marshal"

definition TPMA_OBJECT_ok :: "UINT32 \<Rightarrow> bool" where
  "TPMA_OBJECT_ok target \<longleftrightarrow> target AND TPMA_OBJECT_reserved = 0"

definition TPMA_OBJECT_Unmarshal :: "UINT32 unmarshaler" where
  "TPMA_OBJECT_Unmarshal = checked UINT32_Unmarshal TPMA_OBJECT_ok TPM_RC_RESERVED_BITS"

lemma codec_TPMA_OBJECT: "codec TPMA_OBJECT_Marshal TPMA_OBJECT_Unmarshal TPMA_OBJECT_ok 4"
  unfolding TPMA_OBJECT_Marshal_def TPMA_OBJECT_Unmarshal_def by (rule codec_checked_any [OF codec_UINT32])

definition TPMA_SESSION_Marshal :: "UINT8 \<Rightarrow> marshaler" where
  "TPMA_SESSION_Marshal = UINT8_Marshal"

definition TPMA_SESSION_ok :: "UINT8 \<Rightarrow> bool" where
  "TPMA_SESSION_ok target \<longleftrightarrow> target AND TPMA_SESSION_reserved = 0"

definition TPMA_SESSION_Unmarshal :: "UINT8 unmarshaler" where
  "TPMA_SESSION_Unmarshal = checked UINT8_Unmarshal TPMA_SESSION_ok TPM_RC_RESERVED_BITS"

lemma codec_TPMA_SESSION: "codec TPMA_SESSION_Marshal TPMA_SESSION_Unmarshal TPMA_SESSION_ok 1"
  unfolding TPMA_SESSION_Marshal_def TPMA_SESSION_Unmarshal_def by (rule codec_checked_any [OF codec_UINT8])

definition TPMA_LOCALITY_Marshal :: "UINT8 \<Rightarrow> marshaler" where
  "TPMA_LOCALITY_Marshal = UINT8_Marshal"

definition TPMA_LOCALITY_Unmarshal :: "UINT8 unmarshaler" where
  "TPMA_LOCALITY_Unmarshal = UINT8_Unmarshal"

lemma codec_TPMA_LOCALITY: "codec TPMA_LOCALITY_Marshal TPMA_LOCALITY_Unmarshal (\<lambda>x. True) 1"
  using codec_UINT8 by (simp add: TPMA_LOCALITY_Marshal_def TPMA_LOCALITY_Unmarshal_def)

definition TPMA_CC_Marshal :: "UINT32 \<Rightarrow> marshaler" where
  "TPMA_CC_Marshal = UINT32_Marshal"

definition TPMA_CC_ok :: "UINT32 \<Rightarrow> bool" where
  "TPMA_CC_ok target \<longleftrightarrow> target AND TPMA_CC_reserved = 0"

definition TPMA_CC_Unmarshal :: "UINT32 unmarshaler" where
  "TPMA_CC_Unmarshal = checked UINT32_Unmarshal TPMA_CC_ok TPM_RC_RESERVED_BITS"

lemma codec_TPMA_CC: "codec TPMA_CC_Marshal TPMA_CC_Unmarshal TPMA_CC_ok 4"
  unfolding TPMA_CC_Marshal_def TPMA_CC_Unmarshal_def by (rule codec_checked_any [OF codec_UINT32])

definition TPMA_NV_Marshal :: "UINT32 \<Rightarrow> marshaler" where
  "TPMA_NV_Marshal = UINT32_Marshal"

definition TPMA_NV_ok :: "UINT32 \<Rightarrow> bool" where
  "TPMA_NV_ok target \<longleftrightarrow> target AND TPMA_NV_RESERVED = 0"

definition TPMA_NV_Unmarshal :: "UINT32 unmarshaler" where
  "TPMA_NV_Unmarshal = checked UINT32_Unmarshal TPMA_NV_ok TPM_RC_RESERVED_BITS"

lemma codec_TPMA_NV: "codec TPMA_NV_Marshal TPMA_NV_Unmarshal TPMA_NV_ok 4"
  unfolding TPMA_NV_Marshal_def TPMA_NV_Unmarshal_def by (rule codec_checked_any [OF codec_UINT32])

definition TPMA_NV_EXP_Marshal :: "UINT64 \<Rightarrow> marshaler" where
  "TPMA_NV_EXP_Marshal = UINT64_Marshal"

definition TPMA_NV_EXP_ok :: "UINT64 \<Rightarrow> bool" where
  "TPMA_NV_EXP_ok target \<longleftrightarrow> target AND TPMA_NV_EXP_reserved = 0"

definition TPMA_NV_EXP_Unmarshal :: "UINT64 unmarshaler" where
  "TPMA_NV_EXP_Unmarshal = checked UINT64_Unmarshal TPMA_NV_EXP_ok TPM_RC_RESERVED_BITS"

lemma codec_TPMA_NV_EXP: "codec TPMA_NV_EXP_Marshal TPMA_NV_EXP_Unmarshal TPMA_NV_EXP_ok 8"
  unfolding TPMA_NV_EXP_Marshal_def TPMA_NV_EXP_Unmarshal_def by (rule codec_checked_any [OF codec_UINT64])

definition TPMI_YES_NO_Marshal :: "UINT8 \<Rightarrow> marshaler" where
  "TPMI_YES_NO_Marshal = UINT8_Marshal"

definition TPMI_YES_NO_ok :: "UINT8 \<Rightarrow> bool" where
  "TPMI_YES_NO_ok target \<longleftrightarrow> target \<in> {NO, YES}"

definition TPMI_YES_NO_Unmarshal :: "UINT8 unmarshaler" where
  "TPMI_YES_NO_Unmarshal = checked UINT8_Unmarshal TPMI_YES_NO_ok TPM_RC_VALUE"

lemma codec_TPMI_YES_NO: "codec TPMI_YES_NO_Marshal TPMI_YES_NO_Unmarshal TPMI_YES_NO_ok 1"
  unfolding TPMI_YES_NO_Marshal_def TPMI_YES_NO_Unmarshal_def by (rule codec_checked_any [OF codec_UINT8])

section \<open>Handles\<close>

definition TPMI_DH_OBJECT_ok :: "bool \<Rightarrow> TPM_HANDLE \<Rightarrow> bool" where
  "TPMI_DH_OBJECT_ok allowNull target \<longleftrightarrow>
     TRANSIENT_FIRST \<le> target \<and> target \<le> TRANSIENT_LAST \<or>
     PERSISTENT_FIRST \<le> target \<and> target \<le> PERSISTENT_LAST \<or>
     target = TPM_RH_NULL \<and> allowNull"

definition TPMI_DH_OBJECT_Unmarshal :: "bool \<Rightarrow> TPM_HANDLE unmarshaler" where
  "TPMI_DH_OBJECT_Unmarshal allowNull = checked TPM_HANDLE_Unmarshal (TPMI_DH_OBJECT_ok allowNull) TPM_RC_VALUE"

lemma codec_TPMI_DH_OBJECT: "codec TPM_HANDLE_Marshal (TPMI_DH_OBJECT_Unmarshal allowNull) (TPMI_DH_OBJECT_ok allowNull) 4"
  unfolding TPMI_DH_OBJECT_Unmarshal_def by (rule codec_checked_any [OF codec_TPM_HANDLE])

definition TPMI_DH_PARENT_ok :: "bool \<Rightarrow> TPM_HANDLE \<Rightarrow> bool" where
  "TPMI_DH_PARENT_ok allowNull target \<longleftrightarrow>
     TRANSIENT_FIRST \<le> target \<and> target \<le> TRANSIENT_LAST \<or>
     PERSISTENT_FIRST \<le> target \<and> target \<le> PERSISTENT_LAST \<or>
     target = TPM_RH_OWNER \<or>
     target = TPM_RH_PLATFORM \<or>
     target = TPM_RH_ENDORSEMENT \<or>
     target = TPM_RH_NULL \<and> allowNull"

definition TPMI_DH_PARENT_Unmarshal :: "bool \<Rightarrow> TPM_HANDLE unmarshaler" where
  "TPMI_DH_PARENT_Unmarshal allowNull = checked TPM_HANDLE_Unmarshal (TPMI_DH_PARENT_ok allowNull) TPM_RC_VALUE"

lemma codec_TPMI_DH_PARENT: "codec TPM_HANDLE_Marshal (TPMI_DH_PARENT_Unmarshal allowNull) (TPMI_DH_PARENT_ok allowNull) 4"
  unfolding TPMI_DH_PARENT_Unmarshal_def by (rule codec_checked_any [OF codec_TPM_HANDLE])

definition TPMI_DH_PERSISTENT_ok :: "TPM_HANDLE \<Rightarrow> bool" where
  "TPMI_DH_PERSISTENT_ok target \<longleftrightarrow> PERSISTENT_FIRST \<le> target \<and> target \<le> PERSISTENT_LAST"

definition TPMI_DH_PERSISTENT_Unmarshal :: "TPM_HANDLE unmarshaler" where
  "TPMI_DH_PERSISTENT_Unmarshal = checked TPM_HANDLE_Unmarshal TPMI_DH_PERSISTENT_ok TPM_RC_VALUE"

lemma codec_TPMI_DH_PERSISTENT: "codec TPM_HANDLE_Marshal TPMI_DH_PERSISTENT_Unmarshal TPMI_DH_PERSISTENT_ok 4"
  unfolding TPMI_DH_PERSISTENT_Unmarshal_def by (rule codec_checked_any [OF codec_TPM_HANDLE])

definition TPMI_DH_ENTITY_ok :: "bool \<Rightarrow> TPM_HANDLE \<Rightarrow> bool" where
  "TPMI_DH_ENTITY_ok allowNull target \<longleftrightarrow>
     target = TPM_RH_OWNER \<or>
     target = TPM_RH_ENDORSEMENT \<or>
     target = TPM_RH_PLATFORM \<or>
     target = TPM_RH_LOCKOUT \<or>
     TRANSIENT_FIRST \<le> target \<and> target \<le> TRANSIENT_LAST \<or>
     PERSISTENT_FIRST \<le> target \<and> target \<le> PERSISTENT_LAST \<or>
     NV_INDEX_FIRST \<le> target \<and> target \<le> NV_INDEX_LAST \<or>
     target \<le> PCR_LAST \<or>
     TPM_RH_AUTH_00 \<le> target \<and> target \<le> TPM_RH_AUTH_FF \<or>
     target = TPM_RH_NULL \<and> allowNull"

definition TPMI_DH_ENTITY_Unmarshal :: "bool \<Rightarrow> TPM_HANDLE unmarshaler" where
  "TPMI_DH_ENTITY_Unmarshal allowNull = checked TPM_HANDLE_Unmarshal (TPMI_DH_ENTITY_ok allowNull) TPM_RC_VALUE"

lemma codec_TPMI_DH_ENTITY: "codec TPM_HANDLE_Marshal (TPMI_DH_ENTITY_Unmarshal allowNull) (TPMI_DH_ENTITY_ok allowNull) 4"
  unfolding TPMI_DH_ENTITY_Unmarshal_def by (rule codec_checked_any [OF codec_TPM_HANDLE])

definition TPMI_DH_PCR_ok :: "bool \<Rightarrow> TPM_HANDLE \<Rightarrow> bool" where
  "TPMI_DH_PCR_ok allowNull target \<longleftrightarrow> target \<le> PCR_LAST \<or> target = TPM_RH_NULL \<and> allowNull"

definition TPMI_DH_PCR_Unmarshal :: "bool \<Rightarrow> TPM_HANDLE unmarshaler" where
  "TPMI_DH_PCR_Unmarshal allowNull = checked TPM_HANDLE_Unmarshal (TPMI_DH_PCR_ok allowNull) TPM_RC_VALUE"

lemma codec_TPMI_DH_PCR: "codec TPM_HANDLE_Marshal (TPMI_DH_PCR_Unmarshal allowNull) (TPMI_DH_PCR_ok allowNull) 4"
  unfolding TPMI_DH_PCR_Unmarshal_def by (rule codec_checked_any [OF codec_TPM_HANDLE])

definition TPMI_SH_AUTH_SESSION_ok :: "bool \<Rightarrow> TPM_HANDLE \<Rightarrow> bool" where
  "TPMI_SH_AUTH_SESSION_ok allowPwd target \<longleftrightarrow>
     HMAC_SESSION_FIRST \<le> target \<and> target \<le> HMAC_SESSION_LAST \<or>
     POLICY_SESSION_FIRST \<le> target \<and> target \<le> POLICY_SESSION_LAST \<or>
     target = TPM_RS_PW \<and> allowPwd"

definition TPMI_SH_AUTH_SESSION_Unmarshal :: "bool \<Rightarrow> TPM_HANDLE unmarshaler" where
  "TPMI_SH_AUTH_SESSION_Unmarshal allowPwd = checked TPM_HANDLE_Unmarshal (TPMI_SH_AUTH_SESSION_ok allowPwd) TPM_RC_VALUE"

lemma codec_TPMI_SH_AUTH_SESSION: "codec TPM_HANDLE_Marshal (TPMI_SH_AUTH_SESSION_Unmarshal allowPwd) (TPMI_SH_AUTH_SESSION_ok allowPwd) 4"
  unfolding TPMI_SH_AUTH_SESSION_Unmarshal_def by (rule codec_checked_any [OF codec_TPM_HANDLE])

definition TPMI_SH_HMAC_ok :: "TPM_HANDLE \<Rightarrow> bool" where
  "TPMI_SH_HMAC_ok target \<longleftrightarrow> HMAC_SESSION_FIRST \<le> target \<and> target \<le> HMAC_SESSION_LAST"

definition TPMI_SH_HMAC_Unmarshal :: "TPM_HANDLE unmarshaler" where
  "TPMI_SH_HMAC_Unmarshal = checked TPM_HANDLE_Unmarshal TPMI_SH_HMAC_ok TPM_RC_VALUE"

lemma codec_TPMI_SH_HMAC: "codec TPM_HANDLE_Marshal TPMI_SH_HMAC_Unmarshal TPMI_SH_HMAC_ok 4"
  unfolding TPMI_SH_HMAC_Unmarshal_def by (rule codec_checked_any [OF codec_TPM_HANDLE])

definition TPMI_SH_POLICY_ok :: "TPM_HANDLE \<Rightarrow> bool" where
  "TPMI_SH_POLICY_ok target \<longleftrightarrow> POLICY_SESSION_FIRST \<le> target \<and> target \<le> POLICY_SESSION_LAST"

definition TPMI_SH_POLICY_Unmarshal :: "TPM_HANDLE unmarshaler" where
  "TPMI_SH_POLICY_Unmarshal = checked TPM_HANDLE_Unmarshal TPMI_SH_POLICY_ok TPM_RC_VALUE"

lemma codec_TPMI_SH_POLICY: "codec TPM_HANDLE_Marshal TPMI_SH_POLICY_Unmarshal TPMI_SH_POLICY_ok 4"
  unfolding TPMI_SH_POLICY_Unmarshal_def by (rule codec_checked_any [OF codec_TPM_HANDLE])

definition TPMI_DH_CONTEXT_ok :: "TPM_HANDLE \<Rightarrow> bool" where
  "TPMI_DH_CONTEXT_ok target \<longleftrightarrow>
     HMAC_SESSION_FIRST \<le> target \<and> target \<le> HMAC_SESSION_LAST \<or>
     POLICY_SESSION_FIRST \<le> target \<and> target \<le> POLICY_SESSION_LAST \<or>
     TRANSIENT_FIRST \<le> target \<and> target \<le> TRANSIENT_LAST"

definition TPMI_DH_CONTEXT_Unmarshal :: "TPM_HANDLE unmarshaler" where
  "TPMI_DH_CONTEXT_Unmarshal = checked TPM_HANDLE_Unmarshal TPMI_DH_CONTEXT_ok TPM_RC_VALUE"

lemma codec_TPMI_DH_CONTEXT: "codec TPM_HANDLE_Marshal TPMI_DH_CONTEXT_Unmarshal TPMI_DH_CONTEXT_ok 4"
  unfolding TPMI_DH_CONTEXT_Unmarshal_def by (rule codec_checked_any [OF codec_TPM_HANDLE])

definition TPMI_DH_SAVED_Marshal :: "TPM_HANDLE \<Rightarrow> marshaler" where
  "TPMI_DH_SAVED_Marshal = TPM_HANDLE_Marshal"

definition TPMI_DH_SAVED_ok :: "bool \<Rightarrow> TPM_HANDLE \<Rightarrow> bool" where
  "TPMI_DH_SAVED_ok allowNull target \<longleftrightarrow>
     HMAC_SESSION_FIRST \<le> target \<and> target \<le> HMAC_SESSION_LAST \<or>
     POLICY_SESSION_FIRST \<le> target \<and> target \<le> POLICY_SESSION_LAST \<or>
     target = 0x80000000 \<or>
     target = 0x80000001 \<or>
     target = 0x80000002"

definition TPMI_DH_SAVED_Unmarshal :: "bool \<Rightarrow> TPM_HANDLE unmarshaler" where
  "TPMI_DH_SAVED_Unmarshal allowNull = checked TPM_HANDLE_Unmarshal (TPMI_DH_SAVED_ok allowNull) TPM_RC_VALUE"

lemma codec_TPMI_DH_SAVED: "codec TPMI_DH_SAVED_Marshal (TPMI_DH_SAVED_Unmarshal allowNull) (TPMI_DH_SAVED_ok allowNull) 4"
  unfolding TPMI_DH_SAVED_Marshal_def TPMI_DH_SAVED_Unmarshal_def by (rule codec_checked_any [OF codec_TPM_HANDLE])

definition TPMI_RH_HIERARCHY_Marshal :: "TPM_HANDLE \<Rightarrow> marshaler" where
  "TPMI_RH_HIERARCHY_Marshal = TPM_HANDLE_Marshal"

definition TPMI_RH_HIERARCHY_ok :: "bool \<Rightarrow> TPM_HANDLE \<Rightarrow> bool" where
  "TPMI_RH_HIERARCHY_ok allowNull target \<longleftrightarrow>
     target \<in> {TPM_RH_OWNER, TPM_RH_PLATFORM, TPM_RH_ENDORSEMENT} \<or> target = TPM_RH_NULL \<and> allowNull"

definition TPMI_RH_HIERARCHY_Unmarshal :: "bool \<Rightarrow> TPM_HANDLE unmarshaler" where
  "TPMI_RH_HIERARCHY_Unmarshal allowNull = checked TPM_HANDLE_Unmarshal (TPMI_RH_HIERARCHY_ok allowNull) TPM_RC_VALUE"

lemma codec_TPMI_RH_HIERARCHY: "codec TPMI_RH_HIERARCHY_Marshal (TPMI_RH_HIERARCHY_Unmarshal allowNull) (TPMI_RH_HIERARCHY_ok allowNull) 4"
  unfolding TPMI_RH_HIERARCHY_Marshal_def TPMI_RH_HIERARCHY_Unmarshal_def by (rule codec_checked_any [OF codec_TPM_HANDLE])

definition TPMI_RH_ENABLES_ok :: "bool \<Rightarrow> TPM_HANDLE \<Rightarrow> bool" where
  "TPMI_RH_ENABLES_ok allowNull target \<longleftrightarrow>
     target \<in> {TPM_RH_OWNER, TPM_RH_PLATFORM, TPM_RH_ENDORSEMENT, TPM_RH_PLATFORM_NV} \<or> target = TPM_RH_NULL \<and> allowNull"

definition TPMI_RH_ENABLES_Unmarshal :: "bool \<Rightarrow> TPM_HANDLE unmarshaler" where
  "TPMI_RH_ENABLES_Unmarshal allowNull = checked TPM_HANDLE_Unmarshal (TPMI_RH_ENABLES_ok allowNull) TPM_RC_VALUE"

lemma codec_TPMI_RH_ENABLES: "codec TPM_HANDLE_Marshal (TPMI_RH_ENABLES_Unmarshal allowNull) (TPMI_RH_ENABLES_ok allowNull) 4"
  unfolding TPMI_RH_ENABLES_Unmarshal_def by (rule codec_checked_any [OF codec_TPM_HANDLE])

definition TPMI_RH_HIERARCHY_AUTH_ok :: "TPM_HANDLE \<Rightarrow> bool" where
  "TPMI_RH_HIERARCHY_AUTH_ok target \<longleftrightarrow>
     target \<in> {TPM_RH_OWNER, TPM_RH_PLATFORM, TPM_RH_ENDORSEMENT, TPM_RH_LOCKOUT}"

definition TPMI_RH_HIERARCHY_AUTH_Unmarshal :: "TPM_HANDLE unmarshaler" where
  "TPMI_RH_HIERARCHY_AUTH_Unmarshal = checked TPM_HANDLE_Unmarshal TPMI_RH_HIERARCHY_AUTH_ok TPM_RC_VALUE"

lemma codec_TPMI_RH_HIERARCHY_AUTH: "codec TPM_HANDLE_Marshal TPMI_RH_HIERARCHY_AUTH_Unmarshal TPMI_RH_HIERARCHY_AUTH_ok 4"
  unfolding TPMI_RH_HIERARCHY_AUTH_Unmarshal_def by (rule codec_checked_any [OF codec_TPM_HANDLE])

definition TPMI_RH_HIERARCHY_POLICY_ok :: "TPM_HANDLE \<Rightarrow> bool" where
  "TPMI_RH_HIERARCHY_POLICY_ok target \<longleftrightarrow>
     target \<in> {TPM_RH_OWNER, TPM_RH_PLATFORM, TPM_RH_ENDORSEMENT, TPM_RH_LOCKOUT} \<or> (TPM_RH_ACT_0 \<le> target \<and> target \<le> TPM_RH_ACT_F)"

definition TPMI_RH_HIERARCHY_POLICY_Unmarshal :: "TPM_HANDLE unmarshaler" where
  "TPMI_RH_HIERARCHY_POLICY_Unmarshal = checked TPM_HANDLE_Unmarshal TPMI_RH_HIERARCHY_POLICY_ok TPM_RC_VALUE"

lemma codec_TPMI_RH_HIERARCHY_POLICY: "codec TPM_HANDLE_Marshal TPMI_RH_HIERARCHY_POLICY_Unmarshal TPMI_RH_HIERARCHY_POLICY_ok 4"
  unfolding TPMI_RH_HIERARCHY_POLICY_Unmarshal_def by (rule codec_checked_any [OF codec_TPM_HANDLE])

definition TPMI_RH_PLATFORM_ok :: "TPM_HANDLE \<Rightarrow> bool" where
  "TPMI_RH_PLATFORM_ok target \<longleftrightarrow> target \<in> {TPM_RH_PLATFORM}"

definition TPMI_RH_PLATFORM_Unmarshal :: "TPM_HANDLE unmarshaler" where
  "TPMI_RH_PLATFORM_Unmarshal = checked TPM_HANDLE_Unmarshal TPMI_RH_PLATFORM_ok TPM_RC_VALUE"

lemma codec_TPMI_RH_PLATFORM: "codec TPM_HANDLE_Marshal TPMI_RH_PLATFORM_Unmarshal TPMI_RH_PLATFORM_ok 4"
  unfolding TPMI_RH_PLATFORM_Unmarshal_def by (rule codec_checked_any [OF codec_TPM_HANDLE])

definition TPMI_RH_ENDORSEMENT_ok :: "bool \<Rightarrow> TPM_HANDLE \<Rightarrow> bool" where
  "TPMI_RH_ENDORSEMENT_ok allowNull target \<longleftrightarrow>
     target \<in> {TPM_RH_ENDORSEMENT} \<or> target = TPM_RH_NULL \<and> allowNull"

definition TPMI_RH_ENDORSEMENT_Unmarshal :: "bool \<Rightarrow> TPM_HANDLE unmarshaler" where
  "TPMI_RH_ENDORSEMENT_Unmarshal allowNull = checked TPM_HANDLE_Unmarshal (TPMI_RH_ENDORSEMENT_ok allowNull) TPM_RC_VALUE"

lemma codec_TPMI_RH_ENDORSEMENT: "codec TPM_HANDLE_Marshal (TPMI_RH_ENDORSEMENT_Unmarshal allowNull) (TPMI_RH_ENDORSEMENT_ok allowNull) 4"
  unfolding TPMI_RH_ENDORSEMENT_Unmarshal_def by (rule codec_checked_any [OF codec_TPM_HANDLE])

definition TPMI_RH_PROVISION_ok :: "TPM_HANDLE \<Rightarrow> bool" where
  "TPMI_RH_PROVISION_ok target \<longleftrightarrow> target \<in> {TPM_RH_OWNER, TPM_RH_PLATFORM}"

definition TPMI_RH_PROVISION_Unmarshal :: "TPM_HANDLE unmarshaler" where
  "TPMI_RH_PROVISION_Unmarshal = checked TPM_HANDLE_Unmarshal TPMI_RH_PROVISION_ok TPM_RC_VALUE"

lemma codec_TPMI_RH_PROVISION: "codec TPM_HANDLE_Marshal TPMI_RH_PROVISION_Unmarshal TPMI_RH_PROVISION_ok 4"
  unfolding TPMI_RH_PROVISION_Unmarshal_def by (rule codec_checked_any [OF codec_TPM_HANDLE])

definition TPMI_RH_CLEAR_ok :: "TPM_HANDLE \<Rightarrow> bool" where
  "TPMI_RH_CLEAR_ok target \<longleftrightarrow> target \<in> {TPM_RH_LOCKOUT, TPM_RH_PLATFORM}"

definition TPMI_RH_CLEAR_Unmarshal :: "TPM_HANDLE unmarshaler" where
  "TPMI_RH_CLEAR_Unmarshal = checked TPM_HANDLE_Unmarshal TPMI_RH_CLEAR_ok TPM_RC_VALUE"

lemma codec_TPMI_RH_CLEAR: "codec TPM_HANDLE_Marshal TPMI_RH_CLEAR_Unmarshal TPMI_RH_CLEAR_ok 4"
  unfolding TPMI_RH_CLEAR_Unmarshal_def by (rule codec_checked_any [OF codec_TPM_HANDLE])

definition TPMI_RH_NV_AUTH_ok :: "TPM_HANDLE \<Rightarrow> bool" where
  "TPMI_RH_NV_AUTH_ok target \<longleftrightarrow>
     target \<in> {TPM_RH_OWNER, TPM_RH_PLATFORM} \<or> (NV_INDEX_FIRST \<le> target \<and> target \<le> NV_INDEX_LAST)"

definition TPMI_RH_NV_AUTH_Unmarshal :: "TPM_HANDLE unmarshaler" where
  "TPMI_RH_NV_AUTH_Unmarshal = checked TPM_HANDLE_Unmarshal TPMI_RH_NV_AUTH_ok TPM_RC_VALUE"

lemma codec_TPMI_RH_NV_AUTH: "codec TPM_HANDLE_Marshal TPMI_RH_NV_AUTH_Unmarshal TPMI_RH_NV_AUTH_ok 4"
  unfolding TPMI_RH_NV_AUTH_Unmarshal_def by (rule codec_checked_any [OF codec_TPM_HANDLE])

definition TPMI_RH_LOCKOUT_ok :: "TPM_HANDLE \<Rightarrow> bool" where
  "TPMI_RH_LOCKOUT_ok target \<longleftrightarrow> target \<in> {TPM_RH_LOCKOUT}"

definition TPMI_RH_LOCKOUT_Unmarshal :: "TPM_HANDLE unmarshaler" where
  "TPMI_RH_LOCKOUT_Unmarshal = checked TPM_HANDLE_Unmarshal TPMI_RH_LOCKOUT_ok TPM_RC_VALUE"

lemma codec_TPMI_RH_LOCKOUT: "codec TPM_HANDLE_Marshal TPMI_RH_LOCKOUT_Unmarshal TPMI_RH_LOCKOUT_ok 4"
  unfolding TPMI_RH_LOCKOUT_Unmarshal_def by (rule codec_checked_any [OF codec_TPM_HANDLE])

definition TPMI_RH_NV_INDEX_Marshal :: "TPM_HANDLE \<Rightarrow> marshaler" where
  "TPMI_RH_NV_INDEX_Marshal = TPM_HANDLE_Marshal"

definition TPMI_RH_NV_INDEX_ok :: "TPM_HANDLE \<Rightarrow> bool" where
  "TPMI_RH_NV_INDEX_ok target \<longleftrightarrow>
     NV_INDEX_FIRST \<le> target \<and> target \<le> NV_INDEX_LAST \<or>
     EXTERNAL_NV_FIRST \<le> target \<and> target \<le> EXTERNAL_NV_LAST \<or>
     PERMANENT_NV_FIRST \<le> target \<and> target \<le> PERMANENT_NV_LAST"

definition TPMI_RH_NV_INDEX_Unmarshal :: "TPM_HANDLE unmarshaler" where
  "TPMI_RH_NV_INDEX_Unmarshal = checked TPM_HANDLE_Unmarshal TPMI_RH_NV_INDEX_ok TPM_RC_VALUE"

lemma codec_TPMI_RH_NV_INDEX: "codec TPMI_RH_NV_INDEX_Marshal TPMI_RH_NV_INDEX_Unmarshal TPMI_RH_NV_INDEX_ok 4"
  unfolding TPMI_RH_NV_INDEX_Marshal_def TPMI_RH_NV_INDEX_Unmarshal_def by (rule codec_checked_any [OF codec_TPM_HANDLE])

definition TPMI_RH_NV_DEFINED_INDEX_ok :: "TPM_HANDLE \<Rightarrow> bool" where
  "TPMI_RH_NV_DEFINED_INDEX_ok target \<longleftrightarrow>
     NV_INDEX_FIRST \<le> target \<and> target \<le> NV_INDEX_LAST \<or> EXTERNAL_NV_FIRST \<le> target \<and> target \<le> EXTERNAL_NV_LAST"

definition TPMI_RH_NV_DEFINED_INDEX_Unmarshal :: "TPM_HANDLE unmarshaler" where
  "TPMI_RH_NV_DEFINED_INDEX_Unmarshal = checked TPM_HANDLE_Unmarshal TPMI_RH_NV_DEFINED_INDEX_ok TPM_RC_VALUE"

lemma codec_TPMI_RH_NV_DEFINED_INDEX: "codec TPM_HANDLE_Marshal TPMI_RH_NV_DEFINED_INDEX_Unmarshal TPMI_RH_NV_DEFINED_INDEX_ok 4"
  unfolding TPMI_RH_NV_DEFINED_INDEX_Unmarshal_def by (rule codec_checked_any [OF codec_TPM_HANDLE])

definition TPMI_RH_NV_LEGACY_INDEX_ok :: "TPM_HANDLE \<Rightarrow> bool" where
  "TPMI_RH_NV_LEGACY_INDEX_ok target \<longleftrightarrow> NV_INDEX_FIRST \<le> target \<and> target \<le> NV_INDEX_LAST"

definition TPMI_RH_NV_LEGACY_INDEX_Unmarshal :: "TPM_HANDLE unmarshaler" where
  "TPMI_RH_NV_LEGACY_INDEX_Unmarshal = checked TPM_HANDLE_Unmarshal TPMI_RH_NV_LEGACY_INDEX_ok TPM_RC_VALUE"

lemma codec_TPMI_RH_NV_LEGACY_INDEX: "codec TPM_HANDLE_Marshal TPMI_RH_NV_LEGACY_INDEX_Unmarshal TPMI_RH_NV_LEGACY_INDEX_ok 4"
  unfolding TPMI_RH_NV_LEGACY_INDEX_Unmarshal_def by (rule codec_checked_any [OF codec_TPM_HANDLE])

definition TPMI_RH_NV_EXP_INDEX_Marshal :: "TPM_HANDLE \<Rightarrow> marshaler" where
  "TPMI_RH_NV_EXP_INDEX_Marshal = TPM_HANDLE_Marshal"

definition TPMI_RH_NV_EXP_INDEX_ok :: "TPM_HANDLE \<Rightarrow> bool" where
  "TPMI_RH_NV_EXP_INDEX_ok target \<longleftrightarrow> EXTERNAL_NV_FIRST \<le> target \<and> target \<le> EXTERNAL_NV_LAST"

definition TPMI_RH_NV_EXP_INDEX_Unmarshal :: "TPM_HANDLE unmarshaler" where
  "TPMI_RH_NV_EXP_INDEX_Unmarshal = checked TPM_HANDLE_Unmarshal TPMI_RH_NV_EXP_INDEX_ok TPM_RC_VALUE"

lemma codec_TPMI_RH_NV_EXP_INDEX: "codec TPMI_RH_NV_EXP_INDEX_Marshal TPMI_RH_NV_EXP_INDEX_Unmarshal TPMI_RH_NV_EXP_INDEX_ok 4"
  unfolding TPMI_RH_NV_EXP_INDEX_Marshal_def TPMI_RH_NV_EXP_INDEX_Unmarshal_def by (rule codec_checked_any [OF codec_TPM_HANDLE])

definition TPMI_RH_AC_ok :: "TPM_HANDLE \<Rightarrow> bool" where
  "TPMI_RH_AC_ok target \<longleftrightarrow> AC_FIRST \<le> target \<and> target \<le> AC_LAST"

definition TPMI_RH_AC_Unmarshal :: "TPM_HANDLE unmarshaler" where
  "TPMI_RH_AC_Unmarshal = checked TPM_HANDLE_Unmarshal TPMI_RH_AC_ok TPM_RC_VALUE"

lemma codec_TPMI_RH_AC: "codec TPM_HANDLE_Marshal TPMI_RH_AC_Unmarshal TPMI_RH_AC_ok 4"
  unfolding TPMI_RH_AC_Unmarshal_def by (rule codec_checked_any [OF codec_TPM_HANDLE])

definition TPMI_RH_ACT_ok :: "TPM_HANDLE \<Rightarrow> bool" where
  "TPMI_RH_ACT_ok target \<longleftrightarrow> TPM_RH_ACT_0 \<le> target \<and> target \<le> TPM_RH_ACT_F"

definition TPMI_RH_ACT_Unmarshal :: "TPM_HANDLE unmarshaler" where
  "TPMI_RH_ACT_Unmarshal = checked TPM_HANDLE_Unmarshal TPMI_RH_ACT_ok TPM_RC_VALUE"

lemma codec_TPMI_RH_ACT: "codec TPM_HANDLE_Marshal TPMI_RH_ACT_Unmarshal TPMI_RH_ACT_ok 4"
  unfolding TPMI_RH_ACT_Unmarshal_def by (rule codec_checked_any [OF codec_TPM_HANDLE])

section \<open>Algorithm identifiers\<close>

definition TPMI_ALG_HASH_Marshal :: "TPM_ALG_ID \<Rightarrow> marshaler" where
  "TPMI_ALG_HASH_Marshal = TPM_ALG_ID_Marshal"

definition TPMI_ALG_HASH_ok :: "bool \<Rightarrow> TPM_ALG_ID \<Rightarrow> bool" where
  "TPMI_ALG_HASH_ok allowNull target \<longleftrightarrow>
     target \<in> {TPM_ALG_SHA1, TPM_ALG_SHA256, TPM_ALG_SHA384, TPM_ALG_SHA512} \<or> target = TPM_ALG_NULL \<and> allowNull"

definition TPMI_ALG_HASH_Unmarshal :: "bool \<Rightarrow> TPM_ALG_ID unmarshaler" where
  "TPMI_ALG_HASH_Unmarshal allowNull = checked TPM_ALG_ID_Unmarshal (TPMI_ALG_HASH_ok allowNull) TPM_RC_HASH"

lemma codec_TPMI_ALG_HASH: "codec TPMI_ALG_HASH_Marshal (TPMI_ALG_HASH_Unmarshal allowNull) (TPMI_ALG_HASH_ok allowNull) 2"
  unfolding TPMI_ALG_HASH_Marshal_def TPMI_ALG_HASH_Unmarshal_def by (rule codec_checked_any [OF codec_TPM_ALG_ID])

definition TPMI_ALG_SYM_ok :: "bool \<Rightarrow> TPM_ALG_ID \<Rightarrow> bool" where
  "TPMI_ALG_SYM_ok allowNull target \<longleftrightarrow>
     target \<in> {TPM_ALG_AES, TPM_ALG_CAMELLIA, TPM_ALG_XOR} \<or> target = TPM_ALG_NULL \<and> allowNull"

definition TPMI_ALG_SYM_Unmarshal :: "bool \<Rightarrow> TPM_ALG_ID unmarshaler" where
  "TPMI_ALG_SYM_Unmarshal allowNull = checked TPM_ALG_ID_Unmarshal (TPMI_ALG_SYM_ok allowNull) TPM_RC_SYMMETRIC"

lemma codec_TPMI_ALG_SYM: "codec TPM_ALG_ID_Marshal (TPMI_ALG_SYM_Unmarshal allowNull) (TPMI_ALG_SYM_ok allowNull) 2"
  unfolding TPMI_ALG_SYM_Unmarshal_def by (rule codec_checked_any [OF codec_TPM_ALG_ID])

definition TPMI_ALG_SYM_OBJECT_Marshal :: "TPM_ALG_ID \<Rightarrow> marshaler" where
  "TPMI_ALG_SYM_OBJECT_Marshal = TPM_ALG_ID_Marshal"

definition TPMI_ALG_SYM_OBJECT_ok :: "bool \<Rightarrow> TPM_ALG_ID \<Rightarrow> bool" where
  "TPMI_ALG_SYM_OBJECT_ok allowNull target \<longleftrightarrow>
     target \<in> {TPM_ALG_AES, TPM_ALG_CAMELLIA} \<or> target = TPM_ALG_NULL \<and> allowNull"

definition TPMI_ALG_SYM_OBJECT_Unmarshal :: "bool \<Rightarrow> TPM_ALG_ID unmarshaler" where
  "TPMI_ALG_SYM_OBJECT_Unmarshal allowNull = checked TPM_ALG_ID_Unmarshal (TPMI_ALG_SYM_OBJECT_ok allowNull) TPM_RC_SYMMETRIC"

lemma codec_TPMI_ALG_SYM_OBJECT: "codec TPMI_ALG_SYM_OBJECT_Marshal (TPMI_ALG_SYM_OBJECT_Unmarshal allowNull) (TPMI_ALG_SYM_OBJECT_ok allowNull) 2"
  unfolding TPMI_ALG_SYM_OBJECT_Marshal_def TPMI_ALG_SYM_OBJECT_Unmarshal_def by (rule codec_checked_any [OF codec_TPM_ALG_ID])

definition TPMI_ALG_SYM_MODE_Marshal :: "TPM_ALG_ID \<Rightarrow> marshaler" where
  "TPMI_ALG_SYM_MODE_Marshal = TPM_ALG_ID_Marshal"

definition TPMI_ALG_SYM_MODE_ok :: "bool \<Rightarrow> TPM_ALG_ID \<Rightarrow> bool" where
  "TPMI_ALG_SYM_MODE_ok allowNull target \<longleftrightarrow>
     target \<in> {TPM_ALG_CTR, TPM_ALG_OFB, TPM_ALG_CBC, TPM_ALG_CFB, TPM_ALG_ECB, TPM_ALG_CMAC} \<or> target = TPM_ALG_NULL \<and> allowNull"

definition TPMI_ALG_SYM_MODE_Unmarshal :: "bool \<Rightarrow> TPM_ALG_ID unmarshaler" where
  "TPMI_ALG_SYM_MODE_Unmarshal allowNull = checked TPM_ALG_ID_Unmarshal (TPMI_ALG_SYM_MODE_ok allowNull) TPM_RC_MODE"

lemma codec_TPMI_ALG_SYM_MODE: "codec TPMI_ALG_SYM_MODE_Marshal (TPMI_ALG_SYM_MODE_Unmarshal allowNull) (TPMI_ALG_SYM_MODE_ok allowNull) 2"
  unfolding TPMI_ALG_SYM_MODE_Marshal_def TPMI_ALG_SYM_MODE_Unmarshal_def by (rule codec_checked_any [OF codec_TPM_ALG_ID])

definition TPMI_ALG_KDF_Marshal :: "TPM_ALG_ID \<Rightarrow> marshaler" where
  "TPMI_ALG_KDF_Marshal = TPM_ALG_ID_Marshal"

definition TPMI_ALG_KDF_ok :: "bool \<Rightarrow> TPM_ALG_ID \<Rightarrow> bool" where
  "TPMI_ALG_KDF_ok allowNull target \<longleftrightarrow>
     target \<in> {TPM_ALG_MGF1, TPM_ALG_KDF1_SP800_56A, TPM_ALG_KDF2, TPM_ALG_KDF1_SP800_108} \<or> target = TPM_ALG_NULL \<and> allowNull"

definition TPMI_ALG_KDF_Unmarshal :: "bool \<Rightarrow> TPM_ALG_ID unmarshaler" where
  "TPMI_ALG_KDF_Unmarshal allowNull = checked TPM_ALG_ID_Unmarshal (TPMI_ALG_KDF_ok allowNull) TPM_RC_KDF"

lemma codec_TPMI_ALG_KDF: "codec TPMI_ALG_KDF_Marshal (TPMI_ALG_KDF_Unmarshal allowNull) (TPMI_ALG_KDF_ok allowNull) 2"
  unfolding TPMI_ALG_KDF_Marshal_def TPMI_ALG_KDF_Unmarshal_def by (rule codec_checked_any [OF codec_TPM_ALG_ID])

definition TPMI_ALG_SIG_SCHEME_Marshal :: "TPM_ALG_ID \<Rightarrow> marshaler" where
  "TPMI_ALG_SIG_SCHEME_Marshal = TPM_ALG_ID_Marshal"

definition TPMI_ALG_SIG_SCHEME_ok :: "bool \<Rightarrow> TPM_ALG_ID \<Rightarrow> bool" where
  "TPMI_ALG_SIG_SCHEME_ok allowNull target \<longleftrightarrow>
     target \<in> {TPM_ALG_HMAC, TPM_ALG_RSASSA, TPM_ALG_RSAPSS, TPM_ALG_ECDSA, TPM_ALG_ECDAA, TPM_ALG_SM2, TPM_ALG_ECSCHNORR} \<or> target = TPM_ALG_NULL \<and> allowNull"

definition TPMI_ALG_SIG_SCHEME_Unmarshal :: "bool \<Rightarrow> TPM_ALG_ID unmarshaler" where
  "TPMI_ALG_SIG_SCHEME_Unmarshal allowNull = checked TPM_ALG_ID_Unmarshal (TPMI_ALG_SIG_SCHEME_ok allowNull) TPM_RC_SCHEME"

lemma codec_TPMI_ALG_SIG_SCHEME: "codec TPMI_ALG_SIG_SCHEME_Marshal (TPMI_ALG_SIG_SCHEME_Unmarshal allowNull) (TPMI_ALG_SIG_SCHEME_ok allowNull) 2"
  unfolding TPMI_ALG_SIG_SCHEME_Marshal_def TPMI_ALG_SIG_SCHEME_Unmarshal_def by (rule codec_checked_any [OF codec_TPM_ALG_ID])

definition TPMI_ECC_KEY_EXCHANGE_ok :: "bool \<Rightarrow> TPM_ALG_ID \<Rightarrow> bool" where
  "TPMI_ECC_KEY_EXCHANGE_ok allowNull target \<longleftrightarrow>
     target \<in> {TPM_ALG_ECDH, TPM_ALG_ECMQV, TPM_ALG_SM2} \<or> target = TPM_ALG_NULL \<and> allowNull"

definition TPMI_ECC_KEY_EXCHANGE_Unmarshal :: "bool \<Rightarrow> TPM_ALG_ID unmarshaler" where
  "TPMI_ECC_KEY_EXCHANGE_Unmarshal allowNull = checked TPM_ALG_ID_Unmarshal (TPMI_ECC_KEY_EXCHANGE_ok allowNull) TPM_RC_SCHEME"

lemma codec_TPMI_ECC_KEY_EXCHANGE: "codec TPM_ALG_ID_Marshal (TPMI_ECC_KEY_EXCHANGE_Unmarshal allowNull) (TPMI_ECC_KEY_EXCHANGE_ok allowNull) 2"
  unfolding TPMI_ECC_KEY_EXCHANGE_Unmarshal_def by (rule codec_checked_any [OF codec_TPM_ALG_ID])

definition TPMI_ST_COMMAND_TAG_ok :: "UINT16 \<Rightarrow> bool" where
  "TPMI_ST_COMMAND_TAG_ok target \<longleftrightarrow> target \<in> {TPM_ST_NO_SESSIONS, TPM_ST_SESSIONS}"

definition TPMI_ST_COMMAND_TAG_Unmarshal :: "UINT16 unmarshaler" where
  "TPMI_ST_COMMAND_TAG_Unmarshal = checked TPM_ST_Unmarshal TPMI_ST_COMMAND_TAG_ok TPM_RC_BAD_TAG"

lemma codec_TPMI_ST_COMMAND_TAG: "codec TPM_ST_Marshal TPMI_ST_COMMAND_TAG_Unmarshal (\<lambda>x. TPM_ST_ok x \<and> TPMI_ST_COMMAND_TAG_ok x) 2"
  unfolding TPMI_ST_COMMAND_TAG_Unmarshal_def by (rule codec_checked [OF codec_TPM_ST])

definition TPMI_ALG_MAC_SCHEME_ok :: "bool \<Rightarrow> TPM_ALG_ID \<Rightarrow> bool" where
  "TPMI_ALG_MAC_SCHEME_ok allowNull target \<longleftrightarrow>
     target \<in> {TPM_ALG_SHA1, TPM_ALG_SHA256, TPM_ALG_SHA384, TPM_ALG_SHA512, TPM_ALG_CMAC} \<or> target = TPM_ALG_NULL \<and> allowNull"

definition TPMI_ALG_MAC_SCHEME_Unmarshal :: "bool \<Rightarrow> TPM_ALG_ID unmarshaler" where
  "TPMI_ALG_MAC_SCHEME_Unmarshal allowNull = checked TPM_ALG_ID_Unmarshal (TPMI_ALG_MAC_SCHEME_ok allowNull) TPM_RC_SYMMETRIC"

lemma codec_TPMI_ALG_MAC_SCHEME: "codec TPM_ALG_ID_Marshal (TPMI_ALG_MAC_SCHEME_Unmarshal allowNull) (TPMI_ALG_MAC_SCHEME_ok allowNull) 2"
  unfolding TPMI_ALG_MAC_SCHEME_Unmarshal_def by (rule codec_checked_any [OF codec_TPM_ALG_ID])

definition TPMI_ALG_CIPHER_MODE_ok :: "bool \<Rightarrow> TPM_ALG_ID \<Rightarrow> bool" where
  "TPMI_ALG_CIPHER_MODE_ok allowNull target \<longleftrightarrow>
     target \<in> {TPM_ALG_CTR, TPM_ALG_OFB, TPM_ALG_CBC, TPM_ALG_CFB, TPM_ALG_ECB} \<or> target = TPM_ALG_NULL \<and> allowNull"

definition TPMI_ALG_CIPHER_MODE_Unmarshal :: "bool \<Rightarrow> TPM_ALG_ID unmarshaler" where
  "TPMI_ALG_CIPHER_MODE_Unmarshal allowNull = checked TPM_ALG_ID_Unmarshal (TPMI_ALG_CIPHER_MODE_ok allowNull) TPM_RC_MODE"

lemma codec_TPMI_ALG_CIPHER_MODE: "codec TPM_ALG_ID_Marshal (TPMI_ALG_CIPHER_MODE_Unmarshal allowNull) (TPMI_ALG_CIPHER_MODE_ok allowNull) 2"
  unfolding TPMI_ALG_CIPHER_MODE_Unmarshal_def by (rule codec_checked_any [OF codec_TPM_ALG_ID])

definition TPMI_AES_KEY_BITS_Marshal :: "UINT16 \<Rightarrow> marshaler" where
  "TPMI_AES_KEY_BITS_Marshal = TPM_KEY_BITS_Marshal"

definition TPMI_AES_KEY_BITS_ok :: "UINT16 \<Rightarrow> bool" where
  "TPMI_AES_KEY_BITS_ok target \<longleftrightarrow> target \<in> {128, 256}"

definition TPMI_AES_KEY_BITS_Unmarshal :: "UINT16 unmarshaler" where
  "TPMI_AES_KEY_BITS_Unmarshal = checked TPM_KEY_BITS_Unmarshal TPMI_AES_KEY_BITS_ok TPM_RC_VALUE"

lemma codec_TPMI_AES_KEY_BITS: "codec TPMI_AES_KEY_BITS_Marshal TPMI_AES_KEY_BITS_Unmarshal TPMI_AES_KEY_BITS_ok 2"
  unfolding TPMI_AES_KEY_BITS_Marshal_def TPMI_AES_KEY_BITS_Unmarshal_def by (rule codec_checked_any [OF codec_TPM_KEY_BITS])

definition TPMI_CAMELLIA_KEY_BITS_Marshal :: "UINT16 \<Rightarrow> marshaler" where
  "TPMI_CAMELLIA_KEY_BITS_Marshal = TPM_KEY_BITS_Marshal"

definition TPMI_CAMELLIA_KEY_BITS_ok :: "UINT16 \<Rightarrow> bool" where
  "TPMI_CAMELLIA_KEY_BITS_ok target \<longleftrightarrow> target \<in> {128}"

definition TPMI_CAMELLIA_KEY_BITS_Unmarshal :: "UINT16 unmarshaler" where
  "TPMI_CAMELLIA_KEY_BITS_Unmarshal = checked TPM_KEY_BITS_Unmarshal TPMI_CAMELLIA_KEY_BITS_ok TPM_RC_VALUE"

lemma codec_TPMI_CAMELLIA_KEY_BITS: "codec TPMI_CAMELLIA_KEY_BITS_Marshal TPMI_CAMELLIA_KEY_BITS_Unmarshal TPMI_CAMELLIA_KEY_BITS_ok 2"
  unfolding TPMI_CAMELLIA_KEY_BITS_Marshal_def TPMI_CAMELLIA_KEY_BITS_Unmarshal_def by (rule codec_checked_any [OF codec_TPM_KEY_BITS])

definition TPMI_ALG_KEYEDHASH_SCHEME_Marshal :: "TPM_ALG_ID \<Rightarrow> marshaler" where
  "TPMI_ALG_KEYEDHASH_SCHEME_Marshal = TPM_ALG_ID_Marshal"

definition TPMI_ALG_KEYEDHASH_SCHEME_ok :: "bool \<Rightarrow> TPM_ALG_ID \<Rightarrow> bool" where
  "TPMI_ALG_KEYEDHASH_SCHEME_ok allowNull target \<longleftrightarrow>
     target \<in> {TPM_ALG_HMAC, TPM_ALG_XOR} \<or> target = TPM_ALG_NULL \<and> allowNull"

definition TPMI_ALG_KEYEDHASH_SCHEME_Unmarshal :: "bool \<Rightarrow> TPM_ALG_ID unmarshaler" where
  "TPMI_ALG_KEYEDHASH_SCHEME_Unmarshal allowNull = checked TPM_ALG_ID_Unmarshal (TPMI_ALG_KEYEDHASH_SCHEME_ok allowNull) TPM_RC_VALUE"

lemma codec_TPMI_ALG_KEYEDHASH_SCHEME: "codec TPMI_ALG_KEYEDHASH_SCHEME_Marshal (TPMI_ALG_KEYEDHASH_SCHEME_Unmarshal allowNull) (TPMI_ALG_KEYEDHASH_SCHEME_ok allowNull) 2"
  unfolding TPMI_ALG_KEYEDHASH_SCHEME_Marshal_def TPMI_ALG_KEYEDHASH_SCHEME_Unmarshal_def by (rule codec_checked_any [OF codec_TPM_ALG_ID])

definition TPMI_ALG_RSA_SCHEME_Marshal :: "TPM_ALG_ID \<Rightarrow> marshaler" where
  "TPMI_ALG_RSA_SCHEME_Marshal = TPM_ALG_ID_Marshal"

definition TPMI_ALG_RSA_SCHEME_ok :: "bool \<Rightarrow> TPM_ALG_ID \<Rightarrow> bool" where
  "TPMI_ALG_RSA_SCHEME_ok allowNull target \<longleftrightarrow>
     target \<in> {TPM_ALG_RSASSA, TPM_ALG_RSAPSS, TPM_ALG_RSAES, TPM_ALG_OAEP} \<or> target = TPM_ALG_NULL \<and> allowNull"

definition TPMI_ALG_RSA_SCHEME_Unmarshal :: "bool \<Rightarrow> TPM_ALG_ID unmarshaler" where
  "TPMI_ALG_RSA_SCHEME_Unmarshal allowNull = checked TPM_ALG_ID_Unmarshal (TPMI_ALG_RSA_SCHEME_ok allowNull) TPM_RC_VALUE"

lemma codec_TPMI_ALG_RSA_SCHEME: "codec TPMI_ALG_RSA_SCHEME_Marshal (TPMI_ALG_RSA_SCHEME_Unmarshal allowNull) (TPMI_ALG_RSA_SCHEME_ok allowNull) 2"
  unfolding TPMI_ALG_RSA_SCHEME_Marshal_def TPMI_ALG_RSA_SCHEME_Unmarshal_def by (rule codec_checked_any [OF codec_TPM_ALG_ID])

definition TPMI_ALG_RSA_DECRYPT_ok :: "bool \<Rightarrow> TPM_ALG_ID \<Rightarrow> bool" where
  "TPMI_ALG_RSA_DECRYPT_ok allowNull target \<longleftrightarrow>
     target \<in> {TPM_ALG_RSAES, TPM_ALG_OAEP} \<or> target = TPM_ALG_NULL \<and> allowNull"

definition TPMI_ALG_RSA_DECRYPT_Unmarshal :: "bool \<Rightarrow> TPM_ALG_ID unmarshaler" where
  "TPMI_ALG_RSA_DECRYPT_Unmarshal allowNull = checked TPM_ALG_ID_Unmarshal (TPMI_ALG_RSA_DECRYPT_ok allowNull) TPM_RC_VALUE"

lemma codec_TPMI_ALG_RSA_DECRYPT: "codec TPM_ALG_ID_Marshal (TPMI_ALG_RSA_DECRYPT_Unmarshal allowNull) (TPMI_ALG_RSA_DECRYPT_ok allowNull) 2"
  unfolding TPMI_ALG_RSA_DECRYPT_Unmarshal_def by (rule codec_checked_any [OF codec_TPM_ALG_ID])

definition TPMI_RSA_KEY_BITS_Marshal :: "UINT16 \<Rightarrow> marshaler" where
  "TPMI_RSA_KEY_BITS_Marshal = TPM_KEY_BITS_Marshal"

definition TPMI_RSA_KEY_BITS_ok :: "UINT16 \<Rightarrow> bool" where
  "TPMI_RSA_KEY_BITS_ok target \<longleftrightarrow> target \<in> {1024, 2048, 3072}"

definition TPMI_RSA_KEY_BITS_Unmarshal :: "UINT16 unmarshaler" where
  "TPMI_RSA_KEY_BITS_Unmarshal = checked TPM_KEY_BITS_Unmarshal TPMI_RSA_KEY_BITS_ok TPM_RC_VALUE"

lemma codec_TPMI_RSA_KEY_BITS: "codec TPMI_RSA_KEY_BITS_Marshal TPMI_RSA_KEY_BITS_Unmarshal TPMI_RSA_KEY_BITS_ok 2"
  unfolding TPMI_RSA_KEY_BITS_Marshal_def TPMI_RSA_KEY_BITS_Unmarshal_def by (rule codec_checked_any [OF codec_TPM_KEY_BITS])

definition TPMI_ALG_ECC_SCHEME_Marshal :: "TPM_ALG_ID \<Rightarrow> marshaler" where
  "TPMI_ALG_ECC_SCHEME_Marshal = TPM_ALG_ID_Marshal"

definition TPMI_ALG_ECC_SCHEME_ok :: "bool \<Rightarrow> TPM_ALG_ID \<Rightarrow> bool" where
  "TPMI_ALG_ECC_SCHEME_ok allowNull target \<longleftrightarrow>
     target \<in> {TPM_ALG_ECDSA, TPM_ALG_SM2, TPM_ALG_ECDAA, TPM_ALG_ECSCHNORR, TPM_ALG_ECDH, TPM_ALG_ECMQV} \<or> target = TPM_ALG_NULL \<and> allowNull"

definition TPMI_ALG_ECC_SCHEME_Unmarshal :: "bool \<Rightarrow> TPM_ALG_ID unmarshaler" where
  "TPMI_ALG_ECC_SCHEME_Unmarshal allowNull = checked TPM_ALG_ID_Unmarshal (TPMI_ALG_ECC_SCHEME_ok allowNull) TPM_RC_SCHEME"

lemma codec_TPMI_ALG_ECC_SCHEME: "codec TPMI_ALG_ECC_SCHEME_Marshal (TPMI_ALG_ECC_SCHEME_Unmarshal allowNull) (TPMI_ALG_ECC_SCHEME_ok allowNull) 2"
  unfolding TPMI_ALG_ECC_SCHEME_Marshal_def TPMI_ALG_ECC_SCHEME_Unmarshal_def by (rule codec_checked_any [OF codec_TPM_ALG_ID])

definition TPMI_ECC_CURVE_Marshal :: "UINT16 \<Rightarrow> marshaler" where
  "TPMI_ECC_CURVE_Marshal = TPM_ECC_CURVE_Marshal"

definition TPMI_ECC_CURVE_ok :: "bool \<Rightarrow> UINT16 \<Rightarrow> bool" where
  "TPMI_ECC_CURVE_ok allowNull target \<longleftrightarrow> target \<noteq> TPM_ECC_NONE \<or> allowNull"

definition TPMI_ECC_CURVE_Unmarshal :: "bool \<Rightarrow> UINT16 unmarshaler" where
  "TPMI_ECC_CURVE_Unmarshal allowNull = checked TPM_ECC_CURVE_Unmarshal (TPMI_ECC_CURVE_ok allowNull) TPM_RC_CURVE"

lemma codec_TPMI_ECC_CURVE: "codec TPMI_ECC_CURVE_Marshal (TPMI_ECC_CURVE_Unmarshal allowNull) (\<lambda>x. TPM_ECC_CURVE_ok x \<and> TPMI_ECC_CURVE_ok allowNull x) 2"
  unfolding TPMI_ECC_CURVE_Marshal_def TPMI_ECC_CURVE_Unmarshal_def by (rule codec_checked [OF codec_TPM_ECC_CURVE])

definition TPMI_ALG_PUBLIC_Marshal :: "TPM_ALG_ID \<Rightarrow> marshaler" where
  "TPMI_ALG_PUBLIC_Marshal = TPM_ALG_ID_Marshal"

definition TPMI_ALG_PUBLIC_ok :: "TPM_ALG_ID \<Rightarrow> bool" where
  "TPMI_ALG_PUBLIC_ok target \<longleftrightarrow> target \<in> {TPM_ALG_KEYEDHASH, TPM_ALG_RSA, TPM_ALG_ECC, TPM_ALG_SYMCIPHER}"

definition TPMI_ALG_PUBLIC_Unmarshal :: "TPM_ALG_ID unmarshaler" where
  "TPMI_ALG_PUBLIC_Unmarshal = checked TPM_ALG_ID_Unmarshal TPMI_ALG_PUBLIC_ok TPM_RC_TYPE"

lemma codec_TPMI_ALG_PUBLIC: "codec TPMI_ALG_PUBLIC_Marshal TPMI_ALG_PUBLIC_Unmarshal TPMI_ALG_PUBLIC_ok 2"
  unfolding TPMI_ALG_PUBLIC_Marshal_def TPMI_ALG_PUBLIC_Unmarshal_def by (rule codec_checked_any [OF codec_TPM_ALG_ID])

section \<open>Octet strings\<close>

definition TPM2B_DIGEST_Marshal :: "BYTE list \<Rightarrow> marshaler" where
  "TPM2B_DIGEST_Marshal = TPM2B_Marshal"

definition TPM2B_DIGEST_Unmarshal :: "BYTE list unmarshaler" where
  "TPM2B_DIGEST_Unmarshal = TPM2B_Unmarshal 64"

lemma codec_TPM2B_DIGEST: "codec TPM2B_DIGEST_Marshal TPM2B_DIGEST_Unmarshal (\<lambda>b. length b \<le> 64) 66"
  unfolding TPM2B_DIGEST_Marshal_def TPM2B_DIGEST_Unmarshal_def using codec_TPM2B [of 64] by simp

definition TPM2B_DATA_Marshal :: "BYTE list \<Rightarrow> marshaler" where
  "TPM2B_DATA_Marshal = TPM2B_Marshal"

definition TPM2B_DATA_Unmarshal :: "BYTE list unmarshaler" where
  "TPM2B_DATA_Unmarshal = TPM2B_Unmarshal 66"

lemma codec_TPM2B_DATA: "codec TPM2B_DATA_Marshal TPM2B_DATA_Unmarshal (\<lambda>b. length b \<le> 66) 68"
  unfolding TPM2B_DATA_Marshal_def TPM2B_DATA_Unmarshal_def using codec_TPM2B [of 66] by simp

definition TPM2B_EVENT_Unmarshal :: "BYTE list unmarshaler" where
  "TPM2B_EVENT_Unmarshal = TPM2B_Unmarshal 1024"

lemma codec_TPM2B_EVENT: "codec TPM2B_Marshal TPM2B_EVENT_Unmarshal (\<lambda>b. length b \<le> 1024) 1026"
  unfolding TPM2B_EVENT_Unmarshal_def using codec_TPM2B [of 1024] by simp

definition TPM2B_MAX_BUFFER_Marshal :: "BYTE list \<Rightarrow> marshaler" where
  "TPM2B_MAX_BUFFER_Marshal = TPM2B_Marshal"

definition TPM2B_MAX_BUFFER_Unmarshal :: "BYTE list unmarshaler" where
  "TPM2B_MAX_BUFFER_Unmarshal = TPM2B_Unmarshal 1024"

lemma codec_TPM2B_MAX_BUFFER: "codec TPM2B_MAX_BUFFER_Marshal TPM2B_MAX_BUFFER_Unmarshal (\<lambda>b. length b \<le> 1024) 1026"
  unfolding TPM2B_MAX_BUFFER_Marshal_def TPM2B_MAX_BUFFER_Unmarshal_def using codec_TPM2B [of 1024] by simp

definition TPM2B_MAX_NV_BUFFER_Marshal :: "BYTE list \<Rightarrow> marshaler" where
  "TPM2B_MAX_NV_BUFFER_Marshal = TPM2B_Marshal"

definition TPM2B_MAX_NV_BUFFER_Unmarshal :: "BYTE list unmarshaler" where
  "TPM2B_MAX_NV_BUFFER_Unmarshal = TPM2B_Unmarshal 1024"

lemma codec_TPM2B_MAX_NV_BUFFER: "codec TPM2B_MAX_NV_BUFFER_Marshal TPM2B_MAX_NV_BUFFER_Unmarshal (\<lambda>b. length b \<le> 1024) 1026"
  unfolding TPM2B_MAX_NV_BUFFER_Marshal_def TPM2B_MAX_NV_BUFFER_Unmarshal_def using codec_TPM2B [of 1024] by simp

definition TPM2B_TIMEOUT_Marshal :: "BYTE list \<Rightarrow> marshaler" where
  "TPM2B_TIMEOUT_Marshal = TPM2B_Marshal"

definition TPM2B_TIMEOUT_Unmarshal :: "BYTE list unmarshaler" where
  "TPM2B_TIMEOUT_Unmarshal = TPM2B_Unmarshal 8"

lemma codec_TPM2B_TIMEOUT: "codec TPM2B_TIMEOUT_Marshal TPM2B_TIMEOUT_Unmarshal (\<lambda>b. length b \<le> 8) 10"
  unfolding TPM2B_TIMEOUT_Marshal_def TPM2B_TIMEOUT_Unmarshal_def using codec_TPM2B [of 8] by simp

definition TPM2B_IV_Marshal :: "BYTE list \<Rightarrow> marshaler" where
  "TPM2B_IV_Marshal = TPM2B_Marshal"

definition TPM2B_IV_Unmarshal :: "BYTE list unmarshaler" where
  "TPM2B_IV_Unmarshal = TPM2B_Unmarshal 16"

lemma codec_TPM2B_IV: "codec TPM2B_IV_Marshal TPM2B_IV_Unmarshal (\<lambda>b. length b \<le> 16) 18"
  unfolding TPM2B_IV_Marshal_def TPM2B_IV_Unmarshal_def using codec_TPM2B [of 16] by simp

definition TPM2B_NAME_Marshal :: "BYTE list \<Rightarrow> marshaler" where
  "TPM2B_NAME_Marshal = TPM2B_Marshal"

definition TPM2B_NAME_Unmarshal :: "BYTE list unmarshaler" where
  "TPM2B_NAME_Unmarshal = TPM2B_Unmarshal 68"

lemma codec_TPM2B_NAME: "codec TPM2B_NAME_Marshal TPM2B_NAME_Unmarshal (\<lambda>b. length b \<le> 68) 70"
  unfolding TPM2B_NAME_Marshal_def TPM2B_NAME_Unmarshal_def using codec_TPM2B [of 68] by simp

definition TPM2B_SYM_KEY_Marshal :: "BYTE list \<Rightarrow> marshaler" where
  "TPM2B_SYM_KEY_Marshal = TPM2B_Marshal"

definition TPM2B_SYM_KEY_Unmarshal :: "BYTE list unmarshaler" where
  "TPM2B_SYM_KEY_Unmarshal = TPM2B_Unmarshal 32"

lemma codec_TPM2B_SYM_KEY: "codec TPM2B_SYM_KEY_Marshal TPM2B_SYM_KEY_Unmarshal (\<lambda>b. length b \<le> 32) 34"
  unfolding TPM2B_SYM_KEY_Marshal_def TPM2B_SYM_KEY_Unmarshal_def using codec_TPM2B [of 32] by simp

definition TPM2B_LABEL_Unmarshal :: "BYTE list unmarshaler" where
  "TPM2B_LABEL_Unmarshal = TPM2B_Unmarshal 32"

lemma codec_TPM2B_LABEL: "codec TPM2B_Marshal TPM2B_LABEL_Unmarshal (\<lambda>b. length b \<le> 32) 34"
  unfolding TPM2B_LABEL_Unmarshal_def using codec_TPM2B [of 32] by simp

definition TPM2B_SENSITIVE_DATA_Marshal :: "BYTE list \<Rightarrow> marshaler" where
  "TPM2B_SENSITIVE_DATA_Marshal = TPM2B_Marshal"

definition TPM2B_SENSITIVE_DATA_Unmarshal :: "BYTE list unmarshaler" where
  "TPM2B_SENSITIVE_DATA_Unmarshal = TPM2B_Unmarshal 128"

lemma codec_TPM2B_SENSITIVE_DATA: "codec TPM2B_SENSITIVE_DATA_Marshal TPM2B_SENSITIVE_DATA_Unmarshal (\<lambda>b. length b \<le> 128) 130"
  unfolding TPM2B_SENSITIVE_DATA_Marshal_def TPM2B_SENSITIVE_DATA_Unmarshal_def using codec_TPM2B [of 128] by simp

definition TPM2B_PUBLIC_KEY_RSA_Marshal :: "BYTE list \<Rightarrow> marshaler" where
  "TPM2B_PUBLIC_KEY_RSA_Marshal = TPM2B_Marshal"

definition TPM2B_PUBLIC_KEY_RSA_Unmarshal :: "BYTE list unmarshaler" where
  "TPM2B_PUBLIC_KEY_RSA_Unmarshal = TPM2B_Unmarshal 512"

lemma codec_TPM2B_PUBLIC_KEY_RSA: "codec TPM2B_PUBLIC_KEY_RSA_Marshal TPM2B_PUBLIC_KEY_RSA_Unmarshal (\<lambda>b. length b \<le> 512) 514"
  unfolding TPM2B_PUBLIC_KEY_RSA_Marshal_def TPM2B_PUBLIC_KEY_RSA_Unmarshal_def using codec_TPM2B [of 512] by simp

definition TPM2B_PRIVATE_KEY_RSA_Marshal :: "BYTE list \<Rightarrow> marshaler" where
  "TPM2B_PRIVATE_KEY_RSA_Marshal = TPM2B_Marshal"

definition TPM2B_PRIVATE_KEY_RSA_Unmarshal :: "BYTE list unmarshaler" where
  "TPM2B_PRIVATE_KEY_RSA_Unmarshal = TPM2B_Unmarshal 1280"

lemma codec_TPM2B_PRIVATE_KEY_RSA: "codec TPM2B_PRIVATE_KEY_RSA_Marshal TPM2B_PRIVATE_KEY_RSA_Unmarshal (\<lambda>b. length b \<le> 1280) 1282"
  unfolding TPM2B_PRIVATE_KEY_RSA_Marshal_def TPM2B_PRIVATE_KEY_RSA_Unmarshal_def using codec_TPM2B [of 1280] by simp

definition TPM2B_ECC_PARAMETER_Marshal :: "BYTE list \<Rightarrow> marshaler" where
  "TPM2B_ECC_PARAMETER_Marshal = TPM2B_Marshal"

definition TPM2B_ECC_PARAMETER_Unmarshal :: "BYTE list unmarshaler" where
  "TPM2B_ECC_PARAMETER_Unmarshal = TPM2B_Unmarshal 80"

lemma codec_TPM2B_ECC_PARAMETER: "codec TPM2B_ECC_PARAMETER_Marshal TPM2B_ECC_PARAMETER_Unmarshal (\<lambda>b. length b \<le> 80) 82"
  unfolding TPM2B_ECC_PARAMETER_Marshal_def TPM2B_ECC_PARAMETER_Unmarshal_def using codec_TPM2B [of 80] by simp

definition TPM2B_ENCRYPTED_SECRET_Marshal :: "BYTE list \<Rightarrow> marshaler" where
  "TPM2B_ENCRYPTED_SECRET_Marshal = TPM2B_Marshal"

definition TPM2B_ENCRYPTED_SECRET_Unmarshal :: "BYTE list unmarshaler" where
  "TPM2B_ENCRYPTED_SECRET_Unmarshal = TPM2B_Unmarshal 512"

lemma codec_TPM2B_ENCRYPTED_SECRET: "codec TPM2B_ENCRYPTED_SECRET_Marshal TPM2B_ENCRYPTED_SECRET_Unmarshal (\<lambda>b. length b \<le> 512) 514"
  unfolding TPM2B_ENCRYPTED_SECRET_Marshal_def TPM2B_ENCRYPTED_SECRET_Unmarshal_def using codec_TPM2B [of 512] by simp

definition TPM2B_ID_OBJECT_Marshal :: "BYTE list \<Rightarrow> marshaler" where
  "TPM2B_ID_OBJECT_Marshal = TPM2B_Marshal"

definition TPM2B_ID_OBJECT_Unmarshal :: "BYTE list unmarshaler" where
  "TPM2B_ID_OBJECT_Unmarshal = TPM2B_Unmarshal 132"

lemma codec_TPM2B_ID_OBJECT: "codec TPM2B_ID_OBJECT_Marshal TPM2B_ID_OBJECT_Unmarshal (\<lambda>b. length b \<le> 132) 134"
  unfolding TPM2B_ID_OBJECT_Marshal_def TPM2B_ID_OBJECT_Unmarshal_def using codec_TPM2B [of 132] by simp

definition TPM2B_CONTEXT_SENSITIVE_Unmarshal :: "BYTE list unmarshaler" where
  "TPM2B_CONTEXT_SENSITIVE_Unmarshal = TPM2B_Unmarshal 2680"

lemma codec_TPM2B_CONTEXT_SENSITIVE: "codec TPM2B_Marshal TPM2B_CONTEXT_SENSITIVE_Unmarshal (\<lambda>b. length b \<le> 2680) 2682"
  unfolding TPM2B_CONTEXT_SENSITIVE_Unmarshal_def using codec_TPM2B [of 2680] by simp

definition TPM2B_CONTEXT_DATA_Marshal :: "BYTE list \<Rightarrow> marshaler" where
  "TPM2B_CONTEXT_DATA_Marshal = TPM2B_Marshal"

definition TPM2B_CONTEXT_DATA_Unmarshal :: "BYTE list unmarshaler" where
  "TPM2B_CONTEXT_DATA_Unmarshal = TPM2B_Unmarshal 2748"

lemma codec_TPM2B_CONTEXT_DATA: "codec TPM2B_CONTEXT_DATA_Marshal TPM2B_CONTEXT_DATA_Unmarshal (\<lambda>b. length b \<le> 2748) 2750"
  unfolding TPM2B_CONTEXT_DATA_Marshal_def TPM2B_CONTEXT_DATA_Unmarshal_def using codec_TPM2B [of 2748] by simp

definition TPM2B_NONCE_Marshal :: "BYTE list \<Rightarrow> marshaler" where
  "TPM2B_NONCE_Marshal = TPM2B_DIGEST_Marshal"

definition TPM2B_NONCE_Unmarshal :: "BYTE list unmarshaler" where
  "TPM2B_NONCE_Unmarshal = TPM2B_DIGEST_Unmarshal"

lemma codec_TPM2B_NONCE: "codec TPM2B_NONCE_Marshal TPM2B_NONCE_Unmarshal (\<lambda>b. length b \<le> 64) 66"
  using codec_TPM2B_DIGEST by (simp add: TPM2B_NONCE_Marshal_def TPM2B_NONCE_Unmarshal_def)

definition TPM2B_AUTH_Marshal :: "BYTE list \<Rightarrow> marshaler" where
  "TPM2B_AUTH_Marshal = TPM2B_DIGEST_Marshal"

definition TPM2B_AUTH_Unmarshal :: "BYTE list unmarshaler" where
  "TPM2B_AUTH_Unmarshal = TPM2B_DIGEST_Unmarshal"

lemma codec_TPM2B_AUTH: "codec TPM2B_AUTH_Marshal TPM2B_AUTH_Unmarshal (\<lambda>b. length b \<le> 64) 66"
  using codec_TPM2B_DIGEST by (simp add: TPM2B_AUTH_Marshal_def TPM2B_AUTH_Unmarshal_def)

end
