(* ===== verification/FTPM_Marshal_NV.thy ===== *)
theory FTPM_Marshal_NV
  imports FTPM_Marshal FTPM_NVDynamic
begin

unbundle bit_operations_syntax

text \<open>
  The public area of an NV index in \<^verbatim>\<open>Marshal.c\<close> and \<^verbatim>\<open>Unmarshal.c\<close>.  In the NV model
  the \<^verbatim>\<open>TPM2B_DIGEST\<close> members are the 66 octets of the structure: the size in the byte
  order of the machine, and the buffer.  What the unmarshaler does not write of the buffer is zero,
  because \<^verbatim>\<open>MemoryGetInBuffer\<close> clears the input area of a command.
\<close>

section \<open>Images of digests\<close>

definition digest_size :: "BYTE list \<Rightarrow> nat" where
  "digest_size img = le_nat (take 2 img)"

definition digest_octets :: "BYTE list \<Rightarrow> BYTE list" where
  "digest_octets img = take (digest_size img) (drop 2 img)"

definition digest_image :: "BYTE list \<Rightarrow> BYTE list" where
  "digest_image b = le_bytes 2 (length b) @ b @ replicate (64 - length b) 0"

definition digest_image_ok :: "BYTE list \<Rightarrow> bool" where
  "digest_image_ok img \<longleftrightarrow> length img = 66 \<and> digest_size img \<le> 64 \<and> img = digest_image (digest_octets img)"

definition image_Marshal :: "BYTE list \<Rightarrow> marshaler" where
  "image_Marshal img =
     (if digest_size img \<le> 64 then TPM2B_DIGEST_Marshal (digest_octets img) else failM OUT_OF_BOUNDS)"

definition image_Unmarshal :: "BYTE list unmarshaler" where
  "image_Unmarshal bs = bindU (TPM2B_DIGEST_Unmarshal bs) (\<lambda>b bs. Inr (digest_image b, bs))"

lemma digest_image:
  assumes "length b \<le> 64"
  shows "length (digest_image b) = 66" "digest_size (digest_image b) = length b" "digest_octets (digest_image b) = b"
proof -
  show size: "digest_size (digest_image b) = length b"
    using assms by (simp add: digest_size_def digest_image_def le_nat_le_bytes)
  show "length (digest_image b) = 66" using assms by (simp add: digest_image_def)
  show "digest_octets (digest_image b) = b"
    unfolding digest_octets_def size by (simp add: digest_image_def)
qed

lemma codec_image: "codec image_Marshal image_Unmarshal digest_image_ok 66"
  unfolding image_Unmarshal_def
proof (rule codec_weaken, rule codec_member [OF codec_TPM2B_DIGEST])
  fix b :: "BYTE list"
  assume "length b \<le> 64"
  then show "image_Marshal (digest_image b) = TPM2B_DIGEST_Marshal b" by (simp add: image_Marshal_def digest_image)
next
  fix img
  show "(\<exists>b. img = digest_image b \<and> length b \<le> 64) \<longleftrightarrow> digest_image_ok img"
  proof
    assume "\<exists>b. img = digest_image b \<and> length b \<le> 64"
    then show "digest_image_ok img" by (auto simp: digest_image_ok_def digest_image)
  next
    assume "digest_image_ok img"
    moreover from this have "length (digest_octets img) \<le> 64" by (simp add: digest_image_ok_def digest_octets_def)
    ultimately show "\<exists>b. img = digest_image b \<and> length b \<le> 64" unfolding digest_image_ok_def by blast
  qed
qed simp

section \<open>Public areas\<close>

text \<open>The size of the data is checked against \<^verbatim>\<open>MAX_NV_INDEX_SIZE\<close>.\<close>

definition nv_size_Unmarshal :: "UINT16 unmarshaler" where
  "nv_size_Unmarshal = checked UINT16_Unmarshal (\<lambda>n. n \<le> 2048) TPM_RC_SIZE"

lemma codec_nv_size: "codec UINT16_Marshal nv_size_Unmarshal (\<lambda>n. n \<le> 2048) 2"
  unfolding nv_size_Unmarshal_def by (rule codec_checked_any [OF codec_UINT16])

definition TPMS_NV_PUBLIC_ok :: "TPMS_NV_PUBLIC \<Rightarrow> bool" where
  "TPMS_NV_PUBLIC_ok s \<longleftrightarrow>
     TPMI_RH_NV_INDEX_ok (nvIndex s) \<and> TPMI_ALG_HASH_ok False (nameAlg s) \<and> TPMA_NV_ok (nv_attributes s) \<and>
     digest_image_ok (authPolicy s) \<and> dataSize s \<le> 2048"

definition TPMS_NV_PUBLIC_Marshal :: "TPMS_NV_PUBLIC \<Rightarrow> marshaler" where
  "TPMS_NV_PUBLIC_Marshal s =
     andM (TPMI_RH_NV_INDEX_Marshal (nvIndex s))
     (andM (TPMI_ALG_HASH_Marshal (nameAlg s))
     (andM (TPMA_NV_Marshal (nv_attributes s))
     (andM (image_Marshal (authPolicy s)) (UINT16_Marshal (dataSize s)))))"

definition TPMS_NV_PUBLIC_Unmarshal :: "TPMS_NV_PUBLIC unmarshaler" where
  "TPMS_NV_PUBLIC_Unmarshal bs =
     bindU (TPMI_RH_NV_INDEX_Unmarshal bs) (\<lambda>x bs.
     bindU (TPMI_ALG_HASH_Unmarshal False bs) (\<lambda>y bs.
     bindU (TPMA_NV_Unmarshal bs) (\<lambda>z bs.
     bindU (image_Unmarshal bs) (\<lambda>v bs.
     bindU (nv_size_Unmarshal bs) (\<lambda>w bs.
       Inr (\<lparr>nvIndex = x, nameAlg = y, nv_attributes = z, authPolicy = v, dataSize = w\<rparr>, bs))))))"

lemma codec_TPMS_NV_PUBLIC: "codec TPMS_NV_PUBLIC_Marshal TPMS_NV_PUBLIC_Unmarshal TPMS_NV_PUBLIC_ok 78"
  by (rule codec_struct5 [where C = "\<lambda>x y z v w. \<lparr>nvIndex = x, nameAlg = y, nv_attributes = z, authPolicy = v, dataSize = w\<rparr>",
      OF codec_TPMI_RH_NV_INDEX codec_TPMI_ALG_HASH [of False] codec_TPMA_NV codec_image codec_nv_size])
     (simp_all add: TPMS_NV_PUBLIC_Marshal_def TPMS_NV_PUBLIC_Unmarshal_def TPMS_NV_PUBLIC_ok_def, meson TPMS_NV_PUBLIC.cases)

definition TPM2B_NV_PUBLIC_Marshal :: "TPMS_NV_PUBLIC \<Rightarrow> marshaler" where
  "TPM2B_NV_PUBLIC_Marshal = sized_Marshal TPMS_NV_PUBLIC_Marshal"

definition TPM2B_NV_PUBLIC_Unmarshal :: "TPMS_NV_PUBLIC unmarshaler" where
  "TPM2B_NV_PUBLIC_Unmarshal = sized_Unmarshal TPMS_NV_PUBLIC_Unmarshal"

lemma codec_TPM2B_NV_PUBLIC: "codec TPM2B_NV_PUBLIC_Marshal TPM2B_NV_PUBLIC_Unmarshal TPMS_NV_PUBLIC_ok 80"
  unfolding TPM2B_NV_PUBLIC_Marshal_def TPM2B_NV_PUBLIC_Unmarshal_def
  by (rule codec_weaken [OF codec_sized [OF codec_TPMS_NV_PUBLIC]])
     (simp_all add: TPMS_NV_PUBLIC_Unmarshal_def TPMI_RH_NV_INDEX_Unmarshal_def TPM_HANDLE_Unmarshal_def checked_def UINT32_Unmarshal_def)

record TPMS_NV_PUBLIC_EXP_ATTR =
  exp_nvIndex :: TPM_HANDLE
  exp_nameAlg :: TPM_ALG_ID
  exp_attributes :: UINT64
  exp_authPolicy :: "BYTE list"
  exp_dataSize :: UINT16

definition TPMS_NV_PUBLIC_EXP_ATTR_ok :: "TPMS_NV_PUBLIC_EXP_ATTR \<Rightarrow> bool" where
  "TPMS_NV_PUBLIC_EXP_ATTR_ok s \<longleftrightarrow>
     TPMI_RH_NV_EXP_INDEX_ok (exp_nvIndex s) \<and> TPMI_ALG_HASH_ok False (exp_nameAlg s) \<and> TPMA_NV_EXP_ok (exp_attributes s) \<and>
     digest_image_ok (exp_authPolicy s) \<and> exp_dataSize s \<le> 2048"

definition TPMS_NV_PUBLIC_EXP_ATTR_Marshal :: "TPMS_NV_PUBLIC_EXP_ATTR \<Rightarrow> marshaler" where
  "TPMS_NV_PUBLIC_EXP_ATTR_Marshal s =
     andM (TPMI_RH_NV_EXP_INDEX_Marshal (exp_nvIndex s))
     (andM (TPMI_ALG_HASH_Marshal (exp_nameAlg s))
     (andM (TPMA_NV_EXP_Marshal (exp_attributes s))
     (andM (image_Marshal (exp_authPolicy s)) (UINT16_Marshal (exp_dataSize s)))))"

definition TPMS_NV_PUBLIC_EXP_ATTR_Unmarshal :: "TPMS_NV_PUBLIC_EXP_ATTR unmarshaler" where
  "TPMS_NV_PUBLIC_EXP_ATTR_Unmarshal bs =
     bindU (TPMI_RH_NV_EXP_INDEX_Unmarshal bs) (\<lambda>x bs.
     bindU (TPMI_ALG_HASH_Unmarshal False bs) (\<lambda>y bs.
     bindU (TPMA_NV_EXP_Unmarshal bs) (\<lambda>z bs.
     bindU (image_Unmarshal bs) (\<lambda>v bs.
     bindU (nv_size_Unmarshal bs) (\<lambda>w bs.
       Inr (\<lparr>exp_nvIndex = x, exp_nameAlg = y, exp_attributes = z, exp_authPolicy = v, exp_dataSize = w\<rparr>, bs))))))"

lemma codec_TPMS_NV_PUBLIC_EXP_ATTR:
  "codec TPMS_NV_PUBLIC_EXP_ATTR_Marshal TPMS_NV_PUBLIC_EXP_ATTR_Unmarshal TPMS_NV_PUBLIC_EXP_ATTR_ok 82"
  by (rule codec_struct5 [where C = "\<lambda>x y z v w. \<lparr>exp_nvIndex = x, exp_nameAlg = y, exp_attributes = z, exp_authPolicy = v, exp_dataSize = w\<rparr>",
      OF codec_TPMI_RH_NV_EXP_INDEX codec_TPMI_ALG_HASH [of False] codec_TPMA_NV_EXP codec_image codec_nv_size])
     (simp_all add: TPMS_NV_PUBLIC_EXP_ATTR_Marshal_def TPMS_NV_PUBLIC_EXP_ATTR_Unmarshal_def TPMS_NV_PUBLIC_EXP_ATTR_ok_def,
      meson TPMS_NV_PUBLIC_EXP_ATTR.cases)

section \<open>Public areas selected by the handle type\<close>

abbreviation (input) TPM_HT_NV_INDEX8 :: UINT8 where "TPM_HT_NV_INDEX8 \<equiv> 0x01"
abbreviation (input) TPM_HT_EXTERNAL_NV :: UINT8 where "TPM_HT_EXTERNAL_NV \<equiv> 0x11"
abbreviation (input) TPM_HT_PERMANENT_NV :: UINT8 where "TPM_HT_PERMANENT_NV \<equiv> 0x12"

datatype TPMU_NV_PUBLIC_2 =
    pub2_nvIndex TPMS_NV_PUBLIC
  | pub2_externalNV TPMS_NV_PUBLIC_EXP_ATTR
  | pub2_permanentNV TPMS_NV_PUBLIC

definition TPMU_NV_PUBLIC_2_ok :: "UINT8 \<Rightarrow> TPMU_NV_PUBLIC_2 \<Rightarrow> bool" where
  "TPMU_NV_PUBLIC_2_ok selector source =
     (case source of
        pub2_nvIndex x \<Rightarrow> selector = TPM_HT_NV_INDEX8 \<and> TPMS_NV_PUBLIC_ok x
      | pub2_externalNV x \<Rightarrow> selector = TPM_HT_EXTERNAL_NV \<and> TPMS_NV_PUBLIC_EXP_ATTR_ok x
      | pub2_permanentNV x \<Rightarrow> selector = TPM_HT_PERMANENT_NV \<and> TPMS_NV_PUBLIC_ok x)"

definition TPMU_NV_PUBLIC_2_Marshal :: "TPMU_NV_PUBLIC_2 \<Rightarrow> UINT8 \<Rightarrow> marshaler" where
  "TPMU_NV_PUBLIC_2_Marshal source selector =
     (if selector = TPM_HT_NV_INDEX8 then (case source of pub2_nvIndex x \<Rightarrow> TPMS_NV_PUBLIC_Marshal x | _ \<Rightarrow> failM OUT_OF_BOUNDS)
      else if selector = TPM_HT_EXTERNAL_NV then (case source of pub2_externalNV x \<Rightarrow> TPMS_NV_PUBLIC_EXP_ATTR_Marshal x | _ \<Rightarrow> failM OUT_OF_BOUNDS)
      else if selector = TPM_HT_PERMANENT_NV then (case source of pub2_permanentNV x \<Rightarrow> TPMS_NV_PUBLIC_Marshal x | _ \<Rightarrow> failM OUT_OF_BOUNDS)
      else failM FATAL_ERROR_PARAMETER)"

definition TPMU_NV_PUBLIC_2_Unmarshal :: "UINT8 \<Rightarrow> TPMU_NV_PUBLIC_2 unmarshaler" where
  "TPMU_NV_PUBLIC_2_Unmarshal selector bs =
     (if selector = TPM_HT_NV_INDEX8 then bindU (TPMS_NV_PUBLIC_Unmarshal bs) (\<lambda>x bs. Inr (pub2_nvIndex x, bs))
      else if selector = TPM_HT_EXTERNAL_NV then bindU (TPMS_NV_PUBLIC_EXP_ATTR_Unmarshal bs) (\<lambda>x bs. Inr (pub2_externalNV x, bs))
      else if selector = TPM_HT_PERMANENT_NV then bindU (TPMS_NV_PUBLIC_Unmarshal bs) (\<lambda>x bs. Inr (pub2_permanentNV x, bs))
      else Inl TPM_RC_SELECTOR)"

lemma codec_TPMU_NV_PUBLIC_2:
  "codec (\<lambda>s. TPMU_NV_PUBLIC_2_Marshal s selector) (TPMU_NV_PUBLIC_2_Unmarshal selector) (TPMU_NV_PUBLIC_2_ok selector) 82"
  unfolding TPMU_NV_PUBLIC_2_Marshal_def TPMU_NV_PUBLIC_2_Unmarshal_def
  by (rule codec_weaken, (rule codec_cond codec_fail
        codec_member [OF codec_TPMS_NV_PUBLIC]
        codec_member [OF codec_TPMS_NV_PUBLIC_EXP_ATTR] | (simp; fail))+)
     (auto simp: TPMU_NV_PUBLIC_2_ok_def split: TPMU_NV_PUBLIC_2.splits)

record TPMT_NV_PUBLIC_2 =
  handleType :: UINT8
  nvPublic2 :: TPMU_NV_PUBLIC_2

definition TPMT_NV_PUBLIC_2_ok :: "TPMT_NV_PUBLIC_2 \<Rightarrow> bool" where
  "TPMT_NV_PUBLIC_2_ok s \<longleftrightarrow> TPMU_NV_PUBLIC_2_ok (handleType s) (nvPublic2 s)"

definition TPMT_NV_PUBLIC_2_Marshal :: "TPMT_NV_PUBLIC_2 \<Rightarrow> marshaler" where
  "TPMT_NV_PUBLIC_2_Marshal s =
     andM (UINT8_Marshal (handleType s)) (TPMU_NV_PUBLIC_2_Marshal (nvPublic2 s) (handleType s))"

definition TPMT_NV_PUBLIC_2_Unmarshal :: "TPMT_NV_PUBLIC_2 unmarshaler" where
  "TPMT_NV_PUBLIC_2_Unmarshal bs =
     bindU (UINT8_Unmarshal bs) (\<lambda>x bs.
     bindU (TPMU_NV_PUBLIC_2_Unmarshal x bs) (\<lambda>y bs.
       Inr (\<lparr>handleType = x, nvPublic2 = y\<rparr>, bs)))"

lemma codec_TPMT_NV_PUBLIC_2: "codec TPMT_NV_PUBLIC_2_Marshal TPMT_NV_PUBLIC_2_Unmarshal TPMT_NV_PUBLIC_2_ok 83"
  by (rule codec_struct2 [where C = "\<lambda>x y. \<lparr>handleType = x, nvPublic2 = y\<rparr>", OF codec_UINT8 codec_TPMU_NV_PUBLIC_2])
     (simp_all add: TPMT_NV_PUBLIC_2_Marshal_def TPMT_NV_PUBLIC_2_Unmarshal_def TPMT_NV_PUBLIC_2_ok_def, meson TPMT_NV_PUBLIC_2.cases)

definition TPM2B_NV_PUBLIC_2_Marshal :: "TPMT_NV_PUBLIC_2 \<Rightarrow> marshaler" where
  "TPM2B_NV_PUBLIC_2_Marshal = sized_Marshal TPMT_NV_PUBLIC_2_Marshal"

definition TPM2B_NV_PUBLIC_2_Unmarshal :: "TPMT_NV_PUBLIC_2 unmarshaler" where
  "TPM2B_NV_PUBLIC_2_Unmarshal = sized_Unmarshal TPMT_NV_PUBLIC_2_Unmarshal"

lemma codec_TPM2B_NV_PUBLIC_2: "codec TPM2B_NV_PUBLIC_2_Marshal TPM2B_NV_PUBLIC_2_Unmarshal TPMT_NV_PUBLIC_2_ok 85"
  unfolding TPM2B_NV_PUBLIC_2_Marshal_def TPM2B_NV_PUBLIC_2_Unmarshal_def
  by (rule codec_weaken [OF codec_sized [OF codec_TPMT_NV_PUBLIC_2]])
     (simp_all add: TPMT_NV_PUBLIC_2_Unmarshal_def UINT8_Unmarshal_def)

end
