(* ===== verification/FTPM_NVCommands.thy ===== *)
theory FTPM_NVCommands
  imports FTPM_Hierarchy FTPM_NVView FTPM_Marshal_NV
begin

unbundle bit_operations_syntax

text \<open>
  The NV commands: the support functions of \<^verbatim>\<open>NV_spt.c\<close> and the command actions of
  \<^verbatim>\<open>NVCommands.c\<close> over the NV storage.  An input structure of a command is given by its
  members; a \<^verbatim>\<open>TPM2B_AUTH\<close> or a data buffer is the list of its octets.  A null pointer that
  \<^verbatim>\<open>NvGetIndexInfo\<close> returns is followed by the actions, which is \<open>OUT_OF_BOUNDS\<close>.  The hash
  function is an argument: the digest of a list of octets under an algorithm.
\<close>

section \<open>Constants\<close>

abbreviation (input) TPM_RC_ATTRIBUTES :: TPM_RC where "TPM_RC_ATTRIBUTES \<equiv> 0x082"
abbreviation (input) TPM_RCS_ATTRIBUTES :: TPM_RC where "TPM_RCS_ATTRIBUTES \<equiv> 0x082"
abbreviation (input) TPM_RCS_VALUE :: TPM_RC where "TPM_RCS_VALUE \<equiv> 0x084"
abbreviation (input) TPM_RCS_HIERARCHY :: TPM_RC where "TPM_RCS_HIERARCHY \<equiv> 0x085"
abbreviation (input) TPM_RCS_HANDLE :: TPM_RC where "TPM_RCS_HANDLE \<equiv> 0x08B"
abbreviation (input) TPM_RCS_SIZE :: TPM_RC where "TPM_RCS_SIZE \<equiv> 0x095"
abbreviation (input) TPM_RC_NV_RANGE :: TPM_RC where "TPM_RC_NV_RANGE \<equiv> 0x146"

text \<open>Which handle or parameter of a command is to blame.\<close>

abbreviation (input) RC_HANDLE_1 :: TPM_RC where "RC_HANDLE_1 \<equiv> 0x100"
abbreviation (input) RC_HANDLE_2 :: TPM_RC where "RC_HANDLE_2 \<equiv> 0x200"
abbreviation (input) RC_PARAMETER_1 :: TPM_RC where "RC_PARAMETER_1 \<equiv> 0x140"
abbreviation (input) RC_PARAMETER_2 :: TPM_RC where "RC_PARAMETER_2 \<equiv> 0x240"

abbreviation (input) MAX_NV_INDEX_SIZE :: nat where "MAX_NV_INDEX_SIZE \<equiv> 2048"
abbreviation (input) MAX_NV_BUFFER_SIZE :: nat where "MAX_NV_BUFFER_SIZE \<equiv> 1024"
abbreviation (input) MAX_ORDERLY_COUNT :: UINT64 where "MAX_ORDERLY_COUNT \<equiv> 0xFF"
abbreviation (input) SU_DA_USED_VALUE :: UINT16 where "SU_DA_USED_VALUE \<equiv> 0xFFFE"

abbreviation (input) TPM_NT_ORDINARY :: UINT32 where "TPM_NT_ORDINARY \<equiv> 0"
abbreviation (input) TPM_NT_COUNTER :: UINT32 where "TPM_NT_COUNTER \<equiv> 1"
abbreviation (input) TPM_NT_BITS :: UINT32 where "TPM_NT_BITS \<equiv> 2"
abbreviation (input) TPM_NT_EXTEND :: UINT32 where "TPM_NT_EXTEND \<equiv> 4"
abbreviation (input) TPM_NT_PIN_FAIL :: UINT32 where "TPM_NT_PIN_FAIL \<equiv> 8"
abbreviation (input) TPM_NT_PIN_PASS :: UINT32 where "TPM_NT_PIN_PASS \<equiv> 9"

abbreviation (input) NV_PPWRITE :: nat where "NV_PPWRITE \<equiv> 0"
abbreviation (input) NV_OWNERWRITE :: nat where "NV_OWNERWRITE \<equiv> 1"
abbreviation (input) NV_AUTHWRITE :: nat where "NV_AUTHWRITE \<equiv> 2"
abbreviation (input) NV_POLICYWRITE :: nat where "NV_POLICYWRITE \<equiv> 3"
abbreviation (input) NV_POLICY_DELETE :: nat where "NV_POLICY_DELETE \<equiv> 10"
abbreviation (input) NV_WRITEALL :: nat where "NV_WRITEALL \<equiv> 12"
abbreviation (input) NV_WRITE_STCLEAR :: nat where "NV_WRITE_STCLEAR \<equiv> 14"
abbreviation (input) NV_PPREAD :: nat where "NV_PPREAD \<equiv> 16"
abbreviation (input) NV_OWNERREAD :: nat where "NV_OWNERREAD \<equiv> 17"
abbreviation (input) NV_AUTHREAD :: nat where "NV_AUTHREAD \<equiv> 18"
abbreviation (input) NV_POLICYREAD :: nat where "NV_POLICYREAD \<equiv> 19"
abbreviation (input) NV_NO_DA :: nat where "NV_NO_DA \<equiv> 25"
abbreviation (input) NV_READ_STCLEAR :: nat where "NV_READ_STCLEAR \<equiv> 31"

definition IsNvBitsIndex :: "UINT32 \<Rightarrow> bool" where
  "IsNvBitsIndex attrs \<longleftrightarrow> GET_TPM_NT attrs = TPM_NT_BITS"

definition IsNvExtendIndex :: "UINT32 \<Rightarrow> bool" where
  "IsNvExtendIndex attrs \<longleftrightarrow> GET_TPM_NT attrs = TPM_NT_EXTEND"

definition IsNvPinPassIndex :: "UINT32 \<Rightarrow> bool" where
  "IsNvPinPassIndex attrs \<longleftrightarrow> GET_TPM_NT attrs = TPM_NT_PIN_PASS"

definition RcSafeAddToResult :: "TPM_RC \<Rightarrow> TPM_RC \<Rightarrow> TPM_RC" where
  "RcSafeAddToResult responseCode modifier =
     (if responseCode AND 0x080 \<noteq> 0 \<and> responseCode AND 0xf40 = 0 then responseCode + modifier else responseCode)"

function MemoryRemoveTrailingZeros :: "BYTE list \<Rightarrow> BYTE list" where
  "MemoryRemoveTrailingZeros auth =
     (if length auth > 0 \<and> auth ! (length auth - 1) = 0 then MemoryRemoveTrailingZeros (butlast auth) else auth)"
  by pat_completeness auto
termination
  by (relation "measure length") auto

declare MemoryRemoveTrailingZeros.simps [simp del]

section \<open>Support functions\<close>

definition NvReadAccessChecks :: "TPM_HANDLE \<Rightarrow> TPM_HANDLE \<Rightarrow> UINT32 \<Rightarrow> TPM_RC" where
  "NvReadAccessChecks authHandle nvHandle attrs =
     (if bit attrs NV_READLOCKED then TPM_RC_NV_LOCKED
      else if (if authHandle = TPM_RH_OWNER then \<not> bit attrs NV_OWNERREAD
               else if authHandle = TPM_RH_PLATFORM then \<not> bit attrs NV_PPREAD
               else authHandle \<noteq> nvHandle)
      then TPM_RC_NV_AUTHORIZATION
      else if \<not> bit attrs NV_WRITTEN then TPM_RC_NV_UNINITIALIZED
      else TPM_RC_SUCCESS)"

definition NvWriteAccessChecks :: "TPM_HANDLE \<Rightarrow> TPM_HANDLE \<Rightarrow> UINT32 \<Rightarrow> TPM_RC" where
  "NvWriteAccessChecks authHandle nvHandle attrs =
     (if bit attrs NV_WRITELOCKED then TPM_RC_NV_LOCKED
      else if (if authHandle = TPM_RH_OWNER then \<not> bit attrs NV_OWNERWRITE
               else if authHandle = TPM_RH_PLATFORM then \<not> bit attrs NV_PPWRITE
               else authHandle \<noteq> nvHandle)
      then TPM_RC_NV_AUTHORIZATION
      else TPM_RC_SUCCESS)"

definition NvClearOrderly :: "UINT16 \<Rightarrow> nv_state \<Rightarrow> TPM_RC \<times> nv_state" where
  "NvClearOrderly orderlyState st =
     (if orderlyState < SU_DA_USED_VALUE \<and> g_NvStatus st \<noteq> TPM_RC_SUCCESS then (g_NvStatus st, st)
      else (TPM_RC_SUCCESS, st\<lparr>g_clearOrderly := True\<rparr>))"

definition indexInfo :: "nv_layout \<Rightarrow> TPM_HANDLE \<Rightarrow> nv_state \<Rightarrow> (NV_INDEX \<times> nat \<times> nv_state) fallible" where
  "indexInfo L h st =
     bindE (NvGetIndexInfo L h st) (\<lambda>(ix, locator, st).
     case ix of None \<Rightarrow> Inl OUT_OF_BOUNDS | Some ix \<Rightarrow> Inr (ix, locator, st))"

definition NvIsPinPassIndex :: "nv_layout \<Rightarrow> TPM_HANDLE \<Rightarrow> nv_state \<Rightarrow> (bool \<times> nv_state) fallible" where
  "NvIsPinPassIndex L index st =
     (if HandleGetType index = TPM_HT_NV_INDEX
      then bindE (indexInfo L index st) (\<lambda>(ix, _, st). Inr (IsNvPinPassIndex (nv_attributes (publicArea ix)), st))
      else Inr (False, st))"

definition LegacyAttributesFromExpanded :: "UINT64 \<Rightarrow> UINT32" where
  "LegacyAttributesFromExpanded attrs = ucast attrs"

definition ExpandedAttributesFromLegacy :: "UINT32 \<Rightarrow> UINT64" where
  "ExpandedAttributesFromLegacy attrs = ucast attrs"

definition NvPublic2FromNvPublic :: "TPMS_NV_PUBLIC \<Rightarrow> TPM_RC + TPMT_NV_PUBLIC_2" where
  "NvPublic2FromNvPublic pub =
     (let type = HandleGetType (nvIndex pub) in
      if type = TPM_HT_NV_INDEX then Inr \<lparr>handleType = type, nvPublic2 = pub2_nvIndex pub\<rparr>
      else if type = TPM_HT_PERMANENT_NV then Inr \<lparr>handleType = type, nvPublic2 = pub2_permanentNV pub\<rparr>
      else if type = TPM_HT_EXTERNAL_NV
      then Inr \<lparr>handleType = type, nvPublic2 = pub2_externalNV
             \<lparr>exp_nvIndex = nvIndex pub, exp_nameAlg = nameAlg pub,
              exp_attributes = ExpandedAttributesFromLegacy (nv_attributes pub),
              exp_authPolicy = authPolicy pub, exp_dataSize = dataSize pub\<rparr>\<rparr>
      else Inl TPM_RCS_HANDLE)"

text \<open>
  The destination is passed in, because for an external index its handle is not assigned.  A
  member of the union that was not stored last is never read.
\<close>

definition NvPublicFromNvPublic2 ::
  "TPMT_NV_PUBLIC_2 \<Rightarrow> TPMS_NV_PUBLIC \<Rightarrow> (TPM_RC \<times> TPMS_NV_PUBLIC) fallible" where
  "NvPublicFromNvPublic2 pub2 pub =
     (if handleType pub2 = TPM_HT_NV_INDEX
      then (case nvPublic2 pub2 of pub2_nvIndex p \<Rightarrow> Inr (TPM_RC_SUCCESS, p) | _ \<Rightarrow> Inl OUT_OF_BOUNDS)
      else if handleType pub2 = TPM_HT_PERMANENT_NV
      then (case nvPublic2 pub2 of pub2_permanentNV p \<Rightarrow> Inr (TPM_RC_SUCCESS, p) | _ \<Rightarrow> Inl OUT_OF_BOUNDS)
      else if handleType pub2 = TPM_HT_EXTERNAL_NV
      then (case nvPublic2 pub2 of
              pub2_externalNV p \<Rightarrow>
                Inr (TPM_RC_SUCCESS, pub\<lparr>nv_attributes := LegacyAttributesFromExpanded (exp_attributes p),
                       authPolicy := exp_authPolicy p, dataSize := exp_dataSize p, nameAlg := exp_nameAlg p\<rparr>)
            | _ \<Rightarrow> Inl OUT_OF_BOUNDS)
      else Inr (TPM_RCS_HANDLE, pub))"

type_synonym hash_fun = "TPM_ALG_ID \<Rightarrow> BYTE list \<Rightarrow> BYTE list"

abbreviation (input) SIZEOF_TPMU_NV_PUBLIC_2 :: nat where "SIZEOF_TPMU_NV_PUBLIC_2 \<equiv> 88"

definition NvGetIndexName :: "hash_fun \<Rightarrow> NV_INDEX \<Rightarrow> BYTE list fallible" where
  "NvGetIndexName hash ix =
     (let pub = publicArea ix in
      case NvPublic2FromNvPublic pub of
        Inl _ \<Rightarrow> Inl OUT_OF_BOUNDS
      | Inr public2 \<Rightarrow>
          bindE (TPMU_NV_PUBLIC_2_Marshal (nvPublic2 public2) (HandleGetType (nvIndex pub)) ([], SIZEOF_TPMU_NV_PUBLIC_2))
            (\<lambda>(dataSize, marshalBuffer, _).
              Inr (Uint16ToByteArray (nameAlg pub) [0, 0] @ hash (nameAlg pub) (take (unat dataSize) marshalBuffer))))"

text \<open>
  The handle of the authorization, the authorization value, the public area, whether the
  platform's NV indices are enabled (\<^verbatim>\<open>gc.phEnableNV\<close>), and the three modifiers for a refusal.  The
  octets of the authorization buffer behind its size are zero: \<^verbatim>\<open>MemoryGetInBuffer\<close> clears the
  input area, and only zeros are cut off.
\<close>

definition NvDefineSpace ::
  "nv_layout \<Rightarrow> bool \<Rightarrow> TPM_HANDLE \<Rightarrow> BYTE list \<Rightarrow> TPMS_NV_PUBLIC \<Rightarrow> TPM_RC \<Rightarrow> TPM_RC \<Rightarrow> TPM_RC \<Rightarrow>
   nv_state \<Rightarrow> (TPM_RC \<times> nv_state) fallible" where
  "NvDefineSpace L phNV authHandle auth publicInfo blameAuthHandle blameAuth blamePublic st =
     (let attrs = nv_attributes publicInfo;
          nameSize = CryptHashGetDigestSize (nameAlg publicInfo);
          trimmed = MemoryRemoveTrailingZeros auth;
          nt = GET_TPM_NT attrs in
      if digest_size (authPolicy publicInfo) \<noteq> 0 \<and> digest_size (authPolicy publicInfo) \<noteq> nameSize
      then Inr (TPM_RCS_SIZE + blamePublic, st)
      else if length trimmed > nameSize then Inr (TPM_RCS_SIZE + blameAuth, st)
      else if authHandle = TPM_RH_PLATFORM \<and> \<not> phNV then Inr (TPM_RCS_HIERARCHY + blameAuthHandle, st)
      else if nt \<notin> {TPM_NT_COUNTER, TPM_NT_BITS, TPM_NT_EXTEND, TPM_NT_PIN_PASS, TPM_NT_PIN_FAIL, TPM_NT_ORDINARY}
      then Inr (TPM_RCS_ATTRIBUTES + blamePublic, st)
      else if (if nt = TPM_NT_ORDINARY then unat (dataSize publicInfo) > MAX_NV_INDEX_SIZE
               else if nt = TPM_NT_EXTEND then unat (dataSize publicInfo) \<noteq> nameSize
               else unat (dataSize publicInfo) \<noteq> 8)
      then Inr (TPM_RCS_SIZE + blamePublic, st)
      else if nt = TPM_NT_COUNTER \<and> bit attrs NV_CLEAR_STCLEAR then Inr (TPM_RCS_ATTRIBUTES + blamePublic, st)
      else if nt = TPM_NT_PIN_FAIL \<and> \<not> bit attrs NV_NO_DA then Inr (TPM_RCS_ATTRIBUTES + blamePublic, st)
      else if nt \<in> {TPM_NT_PIN_FAIL, TPM_NT_PIN_PASS} \<and>
              (bit attrs NV_AUTHWRITE \<or> bit attrs NV_GLOBALLOCK \<or> bit attrs NV_WRITEDEFINE)
      then Inr (TPM_RCS_ATTRIBUTES + blamePublic, st)
      else if bit attrs NV_WRITTEN \<or> bit attrs NV_WRITELOCKED \<or> bit attrs NV_READLOCKED
      then Inr (TPM_RCS_ATTRIBUTES + blamePublic, st)
      else if \<not> bit attrs NV_OWNERREAD \<and> \<not> bit attrs NV_PPREAD \<and> \<not> bit attrs NV_AUTHREAD \<and> \<not> bit attrs NV_POLICYREAD
      then Inr (TPM_RCS_ATTRIBUTES + blamePublic, st)
      else if \<not> bit attrs NV_OWNERWRITE \<and> \<not> bit attrs NV_PPWRITE \<and> \<not> bit attrs NV_AUTHWRITE \<and> \<not> bit attrs NV_POLICYWRITE
      then Inr (TPM_RCS_ATTRIBUTES + blamePublic, st)
      else if bit attrs NV_CLEAR_STCLEAR \<and> bit attrs NV_WRITEDEFINE then Inr (TPM_RCS_ATTRIBUTES + blamePublic, st)
      else if bit attrs NV_PLATFORMCREATE \<and> authHandle = TPM_RH_OWNER
              \<or> \<not> bit attrs NV_PLATFORMCREATE \<and> authHandle = TPM_RH_PLATFORM
      then Inr (TPM_RCS_ATTRIBUTES + blameAuthHandle, st)
      else if bit attrs NV_POLICY_DELETE \<and> TPM_RH_PLATFORM \<noteq> authHandle then Inr (TPM_RCS_ATTRIBUTES + blamePublic, st)
      else if unat (dataSize publicInfo) > MAX_NV_BUFFER_SIZE \<and> bit attrs NV_WRITEALL then Inr (TPM_RCS_SIZE + blamePublic, st)
      else bindE (NvIndexIsDefined L (nvIndex publicInfo) st) (\<lambda>defined.
        if defined then Inr (TPM_RC_NV_DEFINED, st)
        else NvDefineIndex L publicInfo (digest_image trimmed) st))"

section \<open>Defining and deleting an index\<close>

text \<open>This command has its own copy of the checks.\<close>

definition TPM2_NV_DefineSpace ::
  "nv_layout \<Rightarrow> bool \<Rightarrow> TPM_HANDLE \<Rightarrow> BYTE list \<Rightarrow> TPMS_NV_PUBLIC \<Rightarrow> nv_state \<Rightarrow> (TPM_RC \<times> nv_state) fallible" where
  "TPM2_NV_DefineSpace L phNV authHandle auth publicInfo st =
     (let attrs = nv_attributes publicInfo;
          nameSize = CryptHashGetDigestSize (nameAlg publicInfo);
          trimmed = MemoryRemoveTrailingZeros auth;
          nt = GET_TPM_NT attrs in
      if digest_size (authPolicy publicInfo) \<noteq> 0 \<and> digest_size (authPolicy publicInfo) \<noteq> nameSize
      then Inr (TPM_RCS_SIZE + RC_PARAMETER_2, st)
      else if length trimmed > nameSize then Inr (TPM_RCS_SIZE + RC_PARAMETER_1, st)
      else if authHandle = TPM_RH_PLATFORM \<and> \<not> phNV then Inr (TPM_RCS_HIERARCHY + RC_HANDLE_1, st)
      else if nt \<notin> {TPM_NT_COUNTER, TPM_NT_BITS, TPM_NT_EXTEND, TPM_NT_PIN_PASS, TPM_NT_PIN_FAIL, TPM_NT_ORDINARY}
      then Inr (TPM_RCS_ATTRIBUTES + RC_PARAMETER_2, st)
      else if (if nt = TPM_NT_ORDINARY then unat (dataSize publicInfo) > MAX_NV_INDEX_SIZE
               else if nt = TPM_NT_EXTEND then unat (dataSize publicInfo) \<noteq> nameSize
               else unat (dataSize publicInfo) \<noteq> 8)
      then Inr (TPM_RCS_SIZE + RC_PARAMETER_2, st)
      else if nt = TPM_NT_COUNTER \<and> bit attrs NV_CLEAR_STCLEAR then Inr (TPM_RCS_ATTRIBUTES + RC_PARAMETER_2, st)
      else if nt = TPM_NT_PIN_FAIL \<and> \<not> bit attrs NV_NO_DA then Inr (TPM_RCS_ATTRIBUTES + RC_PARAMETER_2, st)
      else if nt \<in> {TPM_NT_PIN_FAIL, TPM_NT_PIN_PASS} \<and>
              (bit attrs NV_AUTHWRITE \<or> bit attrs NV_GLOBALLOCK \<or> bit attrs NV_WRITEDEFINE)
      then Inr (TPM_RCS_ATTRIBUTES + RC_PARAMETER_2, st)
      else if bit attrs NV_WRITTEN \<or> bit attrs NV_WRITELOCKED \<or> bit attrs NV_READLOCKED
      then Inr (TPM_RCS_ATTRIBUTES + RC_PARAMETER_2, st)
      else if \<not> bit attrs NV_OWNERREAD \<and> \<not> bit attrs NV_PPREAD \<and> \<not> bit attrs NV_AUTHREAD \<and> \<not> bit attrs NV_POLICYREAD
      then Inr (TPM_RCS_ATTRIBUTES + RC_PARAMETER_2, st)
      else if \<not> bit attrs NV_OWNERWRITE \<and> \<not> bit attrs NV_PPWRITE \<and> \<not> bit attrs NV_AUTHWRITE \<and> \<not> bit attrs NV_POLICYWRITE
      then Inr (TPM_RCS_ATTRIBUTES + RC_PARAMETER_2, st)
      else if bit attrs NV_CLEAR_STCLEAR \<and> bit attrs NV_WRITEDEFINE then Inr (TPM_RCS_ATTRIBUTES + RC_PARAMETER_2, st)
      else if bit attrs NV_PLATFORMCREATE \<and> authHandle = TPM_RH_OWNER
              \<or> \<not> bit attrs NV_PLATFORMCREATE \<and> authHandle = TPM_RH_PLATFORM
      then Inr (TPM_RCS_ATTRIBUTES + RC_HANDLE_1, st)
      else if bit attrs NV_POLICY_DELETE \<and> TPM_RH_PLATFORM \<noteq> authHandle then Inr (TPM_RCS_ATTRIBUTES + RC_PARAMETER_2, st)
      else if unat (dataSize publicInfo) > MAX_NV_BUFFER_SIZE \<and> bit attrs NV_WRITEALL then Inr (TPM_RCS_SIZE + RC_PARAMETER_2, st)
      else bindE (NvIndexIsDefined L (nvIndex publicInfo) st) (\<lambda>defined.
        if defined then Inr (TPM_RC_NV_DEFINED, st)
        else NvDefineIndex L publicInfo (digest_image trimmed) st))"

definition TPM2_NV_UndefineSpace ::
  "nv_layout \<Rightarrow> TPM_HANDLE \<Rightarrow> TPM_HANDLE \<Rightarrow> nv_state \<Rightarrow> (TPM_RC \<times> nv_state) fallible" where
  "TPM2_NV_UndefineSpace L authHandle h st =
     bindE (indexInfo L h st) (\<lambda>(ix, locator, st).
     let attrs = nv_attributes (publicArea ix) in
     if bit attrs NV_POLICY_DELETE then Inr (TPM_RCS_ATTRIBUTES + RC_HANDLE_2, st)
     else if authHandle = TPM_RH_OWNER \<and> bit attrs NV_PLATFORMCREATE then Inr (TPM_RC_NV_AUTHORIZATION, st)
     else NvDeleteIndex L (Some ix) locator st)"

text \<open>The handles of the entities that the authorizations of the command refer to.\<close>

definition SessionRemoveAssociationToHandle :: "TPM_HANDLE \<Rightarrow> TPM_HANDLE list \<Rightarrow> TPM_HANDLE list" where
  "SessionRemoveAssociationToHandle handle s_associatedHandles =
     map (\<lambda>h. if h = HierarchyNormalizeHandle handle then TPM_RH_NULL else h) s_associatedHandles"

definition TPM2_NV_UndefineSpaceSpecial ::
  "nv_layout \<Rightarrow> TPM_HANDLE \<Rightarrow> TPM_HANDLE list \<Rightarrow> nv_state \<Rightarrow> (TPM_RC \<times> TPM_HANDLE list \<times> nv_state) fallible" where
  "TPM2_NV_UndefineSpaceSpecial L h s_associatedHandles st =
     bindE (indexInfo L h st) (\<lambda>(ix, locator, st).
     if \<not> bit (nv_attributes (publicArea ix)) NV_POLICY_DELETE
     then Inr (TPM_RCS_ATTRIBUTES + RC_HANDLE_1, s_associatedHandles, st)
     else bindE (NvDeleteIndex L (Some ix) locator st) (\<lambda>(result, st).
       Inr (result, if result = TPM_RC_SUCCESS then SessionRemoveAssociationToHandle h s_associatedHandles
                    else s_associatedHandles, st)))"

definition TPM2_NV_ReadPublic ::
  "hash_fun \<Rightarrow> nv_layout \<Rightarrow> TPM_HANDLE \<Rightarrow> nv_state \<Rightarrow> (TPM_RC \<times> (TPMS_NV_PUBLIC \<times> BYTE list) \<times> nv_state) fallible" where
  "TPM2_NV_ReadPublic hash L h st =
     bindE (indexInfo L h st) (\<lambda>(ix, _, st).
     bindE (NvGetIndexName hash ix) (\<lambda>nvName. Inr (TPM_RC_SUCCESS, (publicArea ix, nvName), st)))"

section \<open>Changing the data\<close>

definition TPM2_NV_Write ::
  "nv_layout \<Rightarrow> TPM_HANDLE \<Rightarrow> TPM_HANDLE \<Rightarrow> BYTE list \<Rightarrow> UINT16 \<Rightarrow> nv_state \<Rightarrow> (TPM_RC \<times> nv_state) fallible" where
  "TPM2_NV_Write L authHandle h data offset st =
     bindE (indexInfo L h st) (\<lambda>(ix, _, st).
     let attrs = nv_attributes (publicArea ix);
         result = NvWriteAccessChecks authHandle h attrs;
         ds = unat (dataSize (publicArea ix)) in
     if result \<noteq> TPM_RC_SUCCESS then Inr (result, st)
     else if IsNvCounterIndex attrs \<or> IsNvBitsIndex attrs \<or> IsNvExtendIndex attrs then Inr (TPM_RC_ATTRIBUTES, st)
     else if unat offset > ds then Inr (TPM_RCS_VALUE + RC_PARAMETER_2, st)
     else if length data > ds - unat offset then Inr (TPM_RC_NV_RANGE, st)
     else if bit attrs NV_WRITEALL \<and> length data < ds then Inr (TPM_RC_NV_RANGE, st)
     else NvWriteIndexData (unat offset) data st)"

definition TPM2_NV_Increment ::
  "nv_layout \<Rightarrow> TPM_HANDLE \<Rightarrow> TPM_HANDLE \<Rightarrow> nv_state \<Rightarrow> (TPM_RC \<times> nv_state) fallible" where
  "TPM2_NV_Increment L authHandle h st =
     bindE (indexInfo L h st) (\<lambda>(ix, locator, st).
     let attrs = nv_attributes (publicArea ix);
         result = NvWriteAccessChecks authHandle h attrs in
     if result \<noteq> TPM_RC_SUCCESS then Inr (result, st)
     else if \<not> IsNvCounterIndex attrs then Inr (TPM_RCS_ATTRIBUTES + RC_HANDLE_2, st)
     else bindE (if \<not> bit attrs NV_WRITTEN then Inr (NvReadMaxCount st) else NvGetUINT64Data ix locator st) (\<lambda>countValue.
       let countValue = countValue + 1 in
       bindE (NvWriteUINT64Data countValue st) (\<lambda>(result, st).
       if result = TPM_RC_SUCCESS \<and> bit (nv_attributes (publicArea (s_cachedNvIndex st))) NV_ORDERLY
          \<and> countValue AND MAX_ORDERLY_COUNT = 0
       then Inr (result, st\<lparr>g_updateNV := g_updateNV st OR UT_ORDERLY\<rparr>)
       else Inr (result, st))))"

definition TPM2_NV_Extend ::
  "hash_fun \<Rightarrow> nv_layout \<Rightarrow> TPM_HANDLE \<Rightarrow> TPM_HANDLE \<Rightarrow> BYTE list \<Rightarrow> nv_state \<Rightarrow> (TPM_RC \<times> nv_state) fallible" where
  "TPM2_NV_Extend hash L authHandle h data st =
     bindE (indexInfo L h st) (\<lambda>(ix, locator, st).
     let attrs = nv_attributes (publicArea ix);
         result = NvWriteAccessChecks authHandle h attrs;
         oldSize = CryptHashGetDigestSize (nameAlg (publicArea ix)) in
     if result \<noteq> TPM_RC_SUCCESS then Inr (result, st)
     else if \<not> IsNvExtendIndex attrs then Inr (TPM_RCS_ATTRIBUTES + RC_HANDLE_2, st)
     else if \<not> oldSize \<le> 64 then Inl FATAL_ERROR_PARAMETER
     else bindE (if bit attrs NV_WRITTEN then NvGetIndexData ix locator 0 oldSize st else Inr (replicate oldSize 0))
       (\<lambda>oldDigest. NvWriteIndexData 0 (hash (nameAlg (publicArea ix)) (oldDigest @ data)) st))"

definition TPM2_NV_SetBits ::
  "nv_layout \<Rightarrow> TPM_HANDLE \<Rightarrow> TPM_HANDLE \<Rightarrow> UINT64 \<Rightarrow> nv_state \<Rightarrow> (TPM_RC \<times> nv_state) fallible" where
  "TPM2_NV_SetBits L authHandle h bits st =
     bindE (indexInfo L h st) (\<lambda>(ix, locator, st).
     let attrs = nv_attributes (publicArea ix);
         result = NvWriteAccessChecks authHandle h attrs in
     if result \<noteq> TPM_RC_SUCCESS then Inr (result, st)
     else if \<not> IsNvBitsIndex attrs then Inr (TPM_RCS_ATTRIBUTES + RC_HANDLE_2, st)
     else bindE (if \<not> bit attrs NV_WRITTEN then Inr 0 else NvGetUINT64Data ix locator st) (\<lambda>oldValue.
       NvWriteUINT64Data (oldValue OR bits) st))"

section \<open>Locks, reading and authorization\<close>

definition TPM2_NV_WriteLock ::
  "nv_layout \<Rightarrow> TPM_HANDLE \<Rightarrow> TPM_HANDLE \<Rightarrow> nv_state \<Rightarrow> (TPM_RC \<times> nv_state) fallible" where
  "TPM2_NV_WriteLock L authHandle h st =
     bindE (indexInfo L h st) (\<lambda>(ix, locator, st).
     let attrs = nv_attributes (publicArea ix);
         result = NvWriteAccessChecks authHandle h attrs in
     if result \<noteq> TPM_RC_SUCCESS
     then if result = TPM_RC_NV_AUTHORIZATION then Inr (result, st) else Inr (TPM_RC_SUCCESS, st)
     else if \<not> bit attrs NV_WRITEDEFINE \<and> \<not> bit attrs NV_WRITE_STCLEAR then Inr (TPM_RCS_ATTRIBUTES + RC_HANDLE_2, st)
     else NvWriteIndexAttributes (nvIndex (publicArea ix)) locator (set_bit NV_WRITELOCKED attrs) st)"

definition TPM2_NV_GlobalWriteLock :: "nv_layout \<Rightarrow> nv_state \<Rightarrow> (TPM_RC \<times> nv_state) fallible" where
  "TPM2_NV_GlobalWriteLock L st = NvSetGlobalLock L st"

definition TPM2_NV_Read ::
  "nv_layout \<Rightarrow> TPM_HANDLE \<Rightarrow> TPM_HANDLE \<Rightarrow> UINT16 \<Rightarrow> UINT16 \<Rightarrow> nv_state \<Rightarrow> (TPM_RC \<times> BYTE list \<times> nv_state) fallible" where
  "TPM2_NV_Read L authHandle h sz offset st =
     bindE (indexInfo L h st) (\<lambda>(ix, locator, st).
     let result = NvReadAccessChecks authHandle h (nv_attributes (publicArea ix));
         ds = unat (dataSize (publicArea ix)) in
     if result \<noteq> TPM_RC_SUCCESS then Inr (result, [], st)
     else if unat sz > MAX_NV_BUFFER_SIZE then Inr (TPM_RCS_VALUE + RC_PARAMETER_1, [], st)
     else if unat offset > ds then Inr (TPM_RCS_VALUE + RC_PARAMETER_2, [], st)
     else if unat sz > ds - unat offset then Inr (TPM_RC_NV_RANGE, [], st)
     else bindE (NvGetIndexData ix locator (unat offset) (unat sz) st) (\<lambda>data. Inr (TPM_RC_SUCCESS, data, st)))"

definition TPM2_NV_ReadLock ::
  "nv_layout \<Rightarrow> TPM_HANDLE \<Rightarrow> TPM_HANDLE \<Rightarrow> nv_state \<Rightarrow> (TPM_RC \<times> nv_state) fallible" where
  "TPM2_NV_ReadLock L authHandle h st =
     bindE (indexInfo L h st) (\<lambda>(ix, locator, st).
     let attrs = nv_attributes (publicArea ix);
         result = NvReadAccessChecks authHandle h attrs in
     if result = TPM_RC_NV_AUTHORIZATION then Inr (TPM_RC_NV_AUTHORIZATION, st)
     else if result = TPM_RC_NV_LOCKED then Inr (TPM_RC_SUCCESS, st)
     else if \<not> bit attrs NV_READ_STCLEAR then Inr (TPM_RCS_ATTRIBUTES + RC_HANDLE_2, st)
     else NvWriteIndexAttributes (nvIndex (publicArea ix)) locator (set_bit NV_READLOCKED attrs) st)"

definition TPM2_NV_ChangeAuth ::
  "nv_layout \<Rightarrow> TPM_HANDLE \<Rightarrow> BYTE list \<Rightarrow> nv_state \<Rightarrow> (TPM_RC \<times> nv_state) fallible" where
  "TPM2_NV_ChangeAuth L h newAuth st =
     bindE (indexInfo L h st) (\<lambda>(ix, locator, st).
     let newAuth = MemoryRemoveTrailingZeros newAuth in
     if length newAuth > CryptHashGetDigestSize (nameAlg (publicArea ix)) then Inr (TPM_RCS_SIZE + RC_PARAMETER_1, st)
     else NvWriteIndexAuth locator newAuth st)"

section \<open>The general public area\<close>

definition TPM2_NV_ReadPublic2 ::
  "hash_fun \<Rightarrow> nv_layout \<Rightarrow> TPM_HANDLE \<Rightarrow> nv_state \<Rightarrow>
   (TPM_RC \<times> (TPMT_NV_PUBLIC_2 \<times> BYTE list) option \<times> nv_state) fallible" where
  "TPM2_NV_ReadPublic2 hash L h st =
     bindE (indexInfo L h st) (\<lambda>(ix, _, st).
     case NvPublic2FromNvPublic (publicArea ix) of
       Inl result \<Rightarrow> Inr (RcSafeAddToResult result RC_HANDLE_1, None, st)
     | Inr nvPublic \<Rightarrow> bindE (NvGetIndexName hash ix) (\<lambda>nvName. Inr (TPM_RC_SUCCESS, Some (nvPublic, nvName), st)))"

text \<open>The local variable for the converted public area is not initialized; its value is an argument.\<close>

definition TPM2_NV_DefineSpace2 ::
  "nv_layout \<Rightarrow> bool \<Rightarrow> TPM_HANDLE \<Rightarrow> BYTE list \<Rightarrow> TPMT_NV_PUBLIC_2 \<Rightarrow> TPMS_NV_PUBLIC \<Rightarrow>
   nv_state \<Rightarrow> (TPM_RC \<times> nv_state) fallible" where
  "TPM2_NV_DefineSpace2 L phNV authHandle auth publicInfo legacyPublic st =
     (if handleType publicInfo \<noteq> TPM_HT_NV_INDEX \<and> handleType publicInfo \<noteq> TPM_HT_EXTERNAL_NV
      then Inr (TPM_RCS_HANDLE + RC_PARAMETER_2, st)
      else bindE (if handleType publicInfo = TPM_HT_EXTERNAL_NV
                  then (case nvPublic2 publicInfo of
                          pub2_externalNV p \<Rightarrow> Inr (exp_attributes p AND 0xffffffff00000000 \<noteq> 0)
                        | _ \<Rightarrow> Inl OUT_OF_BOUNDS)
                  else Inr False) (\<lambda>extended.
        if extended then Inr (TPM_RCS_ATTRIBUTES + RC_PARAMETER_2, st)
        else bindE (NvPublicFromNvPublic2 publicInfo legacyPublic) (\<lambda>(result, legacyPublic).
          if result \<noteq> TPM_RC_SUCCESS then Inr (RcSafeAddToResult result RC_PARAMETER_2, st)
          else NvDefineSpace L phNV authHandle auth legacyPublic RC_HANDLE_1 RC_PARAMETER_1 RC_PARAMETER_2 st)))"

end
