(* ===== verification/FTPM_NVCommands_Spec.thy ===== *)
theory FTPM_NVCommands_Spec
  imports FTPM_NVCommands
begin

unbundle bit_operations_syntax

text \<open>
  What the NV commands do, on the map of the indices: the refinement of the command actions to
  this abstract machine, and the safety of counters and locks over sequences of commands.
\<close>

section \<open>Commands and their execution\<close>

datatype nv_cmd =
    DefineSpace TPM_HANDLE "BYTE list" TPMS_NV_PUBLIC
  | UndefineSpace TPM_HANDLE TPM_HANDLE
  | UndefineSpaceSpecial TPM_HANDLE
  | Write TPM_HANDLE TPM_HANDLE "BYTE list" UINT16
  | Increment TPM_HANDLE TPM_HANDLE
  | Extend TPM_HANDLE TPM_HANDLE "BYTE list"
  | SetBits TPM_HANDLE TPM_HANDLE UINT64
  | WriteLock TPM_HANDLE TPM_HANDLE
  | GlobalWriteLock
  | Read TPM_HANDLE TPM_HANDLE UINT16 UINT16
  | ReadLock TPM_HANDLE TPM_HANDLE
  | ChangeAuth TPM_HANDLE "BYTE list"

primrec nv_handles :: "nv_cmd \<Rightarrow> TPM_HANDLE list" where
  "nv_handles (DefineSpace a _ _) = [a]"
| "nv_handles (UndefineSpace a h) = [a, h]"
| "nv_handles (UndefineSpaceSpecial h) = [h]"
| "nv_handles (Write a h _ _) = [a, h]"
| "nv_handles (Increment a h) = [a, h]"
| "nv_handles (Extend a h _) = [a, h]"
| "nv_handles (SetBits a h _) = [a, h]"
| "nv_handles (WriteLock a h) = [a, h]"
| "nv_handles GlobalWriteLock = []"
| "nv_handles (Read a h _ _) = [a, h]"
| "nv_handles (ReadLock a h) = [a, h]"
| "nv_handles (ChangeAuth h _) = [h]"

text \<open>The index that a command works on is the last of its handles.\<close>

definition on_index :: "nv_cmd \<Rightarrow> bool" where
  "on_index c \<longleftrightarrow> (case c of DefineSpace _ _ _ \<Rightarrow> False | GlobalWriteLock \<Rightarrow> False | _ \<Rightarrow> True)"

definition nv_target :: "nv_cmd \<Rightarrow> TPM_HANDLE" where
  "nv_target c = last (nv_handles c)"

abbreviation no_out :: "(TPM_RC \<times> nv_state) fallible \<Rightarrow> (TPM_RC \<times> BYTE list \<times> nv_state) fallible" where
  "no_out r \<equiv> bindE r (\<lambda>(rc, st). Inr (rc, [], st))"

primrec nv_action :: "hash_fun \<Rightarrow> nv_layout \<Rightarrow> bool \<Rightarrow> nv_cmd \<Rightarrow> nv_state \<Rightarrow> (TPM_RC \<times> BYTE list \<times> nv_state) fallible" where
  "nv_action hash L phNV (DefineSpace a auth pub) st = no_out (TPM2_NV_DefineSpace L phNV a auth pub st)"
| "nv_action hash L phNV (UndefineSpace a h) st = no_out (TPM2_NV_UndefineSpace L a h st)"
| "nv_action hash L phNV (UndefineSpaceSpecial h) st =
     bindE (TPM2_NV_UndefineSpaceSpecial L h [] st) (\<lambda>(rc, _, st). Inr (rc, [], st))"
| "nv_action hash L phNV (Write a h data offset) st = no_out (TPM2_NV_Write L a h data offset st)"
| "nv_action hash L phNV (Increment a h) st = no_out (TPM2_NV_Increment L a h st)"
| "nv_action hash L phNV (Extend a h data) st = no_out (TPM2_NV_Extend hash L a h data st)"
| "nv_action hash L phNV (SetBits a h bits) st = no_out (TPM2_NV_SetBits L a h bits st)"
| "nv_action hash L phNV (WriteLock a h) st = no_out (TPM2_NV_WriteLock L a h st)"
| "nv_action hash L phNV GlobalWriteLock st = no_out (TPM2_NV_GlobalWriteLock L st)"
| "nv_action hash L phNV (Read a h sz offset) st = TPM2_NV_Read L a h sz offset st"
| "nv_action hash L phNV (ReadLock a h) st = no_out (TPM2_NV_ReadLock L a h st)"
| "nv_action hash L phNV (ChangeAuth h auth) st = no_out (TPM2_NV_ChangeAuth L h auth st)"

text \<open>
  A command starts with an empty index cache (\<^verbatim>\<open>ExecuteCommand\<close>); then the handles are
  checked (\<^verbatim>\<open>EntityGetLoadStatus\<close>), of which only the NV indices matter here.
\<close>

primrec nv_load :: "nv_layout \<Rightarrow> bool \<Rightarrow> bool \<Rightarrow> nat \<Rightarrow> TPM_HANDLE list \<Rightarrow> nv_state \<Rightarrow> (TPM_RC \<times> nv_state) fallible" where
  "nv_load L sh phNV i [] st = Inr (TPM_RC_SUCCESS, st)"
| "nv_load L sh phNV i (h # hs) st =
     bindE (if HandleGetType h = TPM_HT_NV_INDEX then NvIndexIsAccessible L sh phNV h st else Inr (TPM_RC_SUCCESS, st))
       (\<lambda>(result, st). if result \<noteq> TPM_RC_SUCCESS then Inr (RcSafeAddToResult result (0x100 * of_nat (i + 1)), st)
                       else nv_load L sh phNV (i + 1) hs st)"

definition nv_run :: "hash_fun \<Rightarrow> nv_layout \<Rightarrow> bool \<Rightarrow> bool \<Rightarrow> nv_cmd \<Rightarrow> nv_state \<Rightarrow> (TPM_RC \<times> BYTE list \<times> nv_state) fallible" where
  "nv_run hash L sh phNV c st =
     bindE (nv_load L sh phNV 0 (nv_handles c) (NvIndexCacheInit st)) (\<lambda>(result, st).
     if result \<noteq> TPM_RC_SUCCESS then Inr (result, [], st) else nv_action hash L phNV c st)"

section \<open>The abstract machine\<close>

abbreviation view_attr :: "nv_view \<Rightarrow> UINT32" where "view_attr v \<equiv> nv_attributes (publicArea (fst v))"
abbreviation view_size :: "nv_view \<Rightarrow> nat" where "view_size v \<equiv> unat (dataSize (publicArea (fst v)))"
abbreviation view_alg :: "nv_view \<Rightarrow> TPM_ALG_ID" where "view_alg v \<equiv> nameAlg (publicArea (fst v))"
abbreviation put_count :: "UINT64 \<Rightarrow> nv_view \<Rightarrow> nv_view" where
  "put_count n \<equiv> view_write 0 (Uint64ToByteArray n (replicate 8 0))"

text \<open>The refusals of a definition, in the order in which they are tested.\<close>

definition define_table :: "bool \<Rightarrow> TPM_HANDLE \<Rightarrow> BYTE list \<Rightarrow> TPMS_NV_PUBLIC \<Rightarrow> (bool \<times> TPM_RC) list" where
  "define_table phNV authHandle auth pub =
     (let a = nv_attributes pub; nt = GET_TPM_NT a; ns = CryptHashGetDigestSize (nameAlg pub); ds = unat (dataSize pub) in
      [(digest_size (authPolicy pub) \<notin> {0, ns}, TPM_RCS_SIZE + RC_PARAMETER_2),
       (length (MemoryRemoveTrailingZeros auth) > ns, TPM_RCS_SIZE + RC_PARAMETER_1),
       (authHandle = TPM_RH_PLATFORM \<and> \<not> phNV, TPM_RCS_HIERARCHY + RC_HANDLE_1),
       (nt \<notin> {0, 1, 2, 4, 8, 9}, TPM_RCS_ATTRIBUTES + RC_PARAMETER_2),
       (nt = TPM_NT_ORDINARY \<and> ds > MAX_NV_INDEX_SIZE \<or> nt = TPM_NT_EXTEND \<and> ds \<noteq> ns \<or> nt \<notin> {TPM_NT_ORDINARY, TPM_NT_EXTEND} \<and> ds \<noteq> 8,
          TPM_RCS_SIZE + RC_PARAMETER_2),
       (nt = TPM_NT_COUNTER \<and> bit a NV_CLEAR_STCLEAR \<or> nt = TPM_NT_PIN_FAIL \<and> \<not> bit a NV_NO_DA \<or>
        nt \<in> {TPM_NT_PIN_FAIL, TPM_NT_PIN_PASS} \<and> (bit a NV_AUTHWRITE \<or> bit a NV_GLOBALLOCK \<or> bit a NV_WRITEDEFINE) \<or>
        (\<exists>n \<in> {NV_WRITTEN, NV_WRITELOCKED, NV_READLOCKED}. bit a n) \<or>
        (\<forall>n \<in> {NV_OWNERREAD, NV_PPREAD, NV_AUTHREAD, NV_POLICYREAD}. \<not> bit a n) \<or>
        (\<forall>n \<in> {NV_OWNERWRITE, NV_PPWRITE, NV_AUTHWRITE, NV_POLICYWRITE}. \<not> bit a n) \<or>
        bit a NV_CLEAR_STCLEAR \<and> bit a NV_WRITEDEFINE, TPM_RCS_ATTRIBUTES + RC_PARAMETER_2),
       (authHandle = (if bit a NV_PLATFORMCREATE then TPM_RH_OWNER else TPM_RH_PLATFORM), TPM_RCS_ATTRIBUTES + RC_HANDLE_1),
       (bit a NV_POLICY_DELETE \<and> authHandle \<noteq> TPM_RH_PLATFORM, TPM_RCS_ATTRIBUTES + RC_PARAMETER_2),
       (ds > MAX_NV_BUFFER_SIZE \<and> bit a NV_WRITEALL, TPM_RCS_SIZE + RC_PARAMETER_2)])"

definition define_rc :: "bool \<Rightarrow> TPM_HANDLE \<Rightarrow> BYTE list \<Rightarrow> TPMS_NV_PUBLIC \<Rightarrow> TPM_RC" where
  "define_rc phNV authHandle auth pub =
     (case find fst (define_table phNV authHandle auth pub) of None \<Rightarrow> TPM_RC_SUCCESS | Some (_, rc) \<Rightarrow> rc)"

text \<open>
  One command on an index with the maximal counter of the deleted indices: the response code, the
  octets that are returned, the new index or nothing, and the new maximal counter.
\<close>

primrec index_step :: "hash_fun \<Rightarrow> nv_cmd \<Rightarrow> nv_view \<Rightarrow> UINT64 \<Rightarrow> TPM_RC \<times> BYTE list \<times> nv_view option \<times> UINT64" where
  "index_step hash (DefineSpace _ _ _) v mc = (TPM_RC_HANDLE, [], Some v, mc)"
| "index_step hash (UndefineSpace a h) v mc =
     (if bit (view_attr v) NV_POLICY_DELETE then (TPM_RCS_ATTRIBUTES + RC_HANDLE_2, [], Some v, mc)
      else if a = TPM_RH_OWNER \<and> bit (view_attr v) NV_PLATFORMCREATE then (TPM_RC_NV_AUTHORIZATION, [], Some v, mc)
      else (TPM_RC_SUCCESS, [], None, max mc (written_count v)))"
| "index_step hash (UndefineSpaceSpecial h) v mc =
     (if \<not> bit (view_attr v) NV_POLICY_DELETE then (TPM_RCS_ATTRIBUTES + RC_HANDLE_1, [], Some v, mc)
      else (TPM_RC_SUCCESS, [], None, max mc (written_count v)))"
| "index_step hash (Write a h data offset) v mc =
     (let rc = NvWriteAccessChecks a h (view_attr v) in
      if rc \<noteq> TPM_RC_SUCCESS then (rc, [], Some v, mc)
      else if GET_TPM_NT (view_attr v) \<in> {1, 2, 4} then (TPM_RC_ATTRIBUTES, [], Some v, mc)
      else if unat offset > view_size v then (TPM_RCS_VALUE + RC_PARAMETER_2, [], Some v, mc)
      else if unat offset + length data > view_size v \<or> bit (view_attr v) NV_WRITEALL \<and> length data < view_size v
      then (TPM_RC_NV_RANGE, [], Some v, mc)
      else (TPM_RC_SUCCESS, [], Some (view_write (unat offset) data v), mc))"
| "index_step hash (Increment a h) v mc =
     (let rc = NvWriteAccessChecks a h (view_attr v) in
      if rc \<noteq> TPM_RC_SUCCESS then (rc, [], Some v, mc)
      else if \<not> IsNvCounterIndex (view_attr v) then (TPM_RCS_ATTRIBUTES + RC_HANDLE_2, [], Some v, mc)
      else (TPM_RC_SUCCESS, [], Some (put_count ((if bit (view_attr v) NV_WRITTEN then view_count v else mc) + 1) v), mc))"
| "index_step hash (Extend a h data) v mc =
     (let rc = NvWriteAccessChecks a h (view_attr v);
          old = (if bit (view_attr v) NV_WRITTEN then snd v else replicate (view_size v) 0) in
      if rc \<noteq> TPM_RC_SUCCESS then (rc, [], Some v, mc)
      else if GET_TPM_NT (view_attr v) \<noteq> TPM_NT_EXTEND then (TPM_RCS_ATTRIBUTES + RC_HANDLE_2, [], Some v, mc)
      else (TPM_RC_SUCCESS, [], Some (view_write 0 (hash (view_alg v) (old @ data)) v), mc))"
| "index_step hash (SetBits a h bits) v mc =
     (let rc = NvWriteAccessChecks a h (view_attr v) in
      if rc \<noteq> TPM_RC_SUCCESS then (rc, [], Some v, mc)
      else if GET_TPM_NT (view_attr v) \<noteq> TPM_NT_BITS then (TPM_RCS_ATTRIBUTES + RC_HANDLE_2, [], Some v, mc)
      else (TPM_RC_SUCCESS, [], Some (put_count ((if bit (view_attr v) NV_WRITTEN then view_count v else 0) OR bits) v), mc))"
| "index_step hash (WriteLock a h) v mc =
     (let rc = NvWriteAccessChecks a h (view_attr v) in
      if rc \<noteq> TPM_RC_SUCCESS then (if rc = TPM_RC_NV_LOCKED then TPM_RC_SUCCESS else rc, [], Some v, mc)
      else if \<not> bit (view_attr v) NV_WRITEDEFINE \<and> \<not> bit (view_attr v) NV_WRITE_STCLEAR
      then (TPM_RCS_ATTRIBUTES + RC_HANDLE_2, [], Some v, mc)
      else (TPM_RC_SUCCESS, [], Some (set_attr (set_bit NV_WRITELOCKED (view_attr v)) (fst v), snd v), mc))"
| "index_step hash GlobalWriteLock v mc = (TPM_RC_HANDLE, [], Some v, mc)"
| "index_step hash (Read a h sz offset) v mc =
     (let rc = NvReadAccessChecks a h (view_attr v) in
      if rc \<noteq> TPM_RC_SUCCESS then (rc, [], Some v, mc)
      else if unat sz > MAX_NV_BUFFER_SIZE then (TPM_RCS_VALUE + RC_PARAMETER_1, [], Some v, mc)
      else if unat offset > view_size v then (TPM_RCS_VALUE + RC_PARAMETER_2, [], Some v, mc)
      else if unat offset + unat sz > view_size v then (TPM_RC_NV_RANGE, [], Some v, mc)
      else (TPM_RC_SUCCESS, take (unat sz) (drop (unat offset) (snd v)), Some v, mc))"
| "index_step hash (ReadLock a h) v mc =
     (let rc = NvReadAccessChecks a h (view_attr v) in
      if rc = TPM_RC_NV_AUTHORIZATION then (rc, [], Some v, mc)
      else if rc = TPM_RC_NV_LOCKED then (TPM_RC_SUCCESS, [], Some v, mc)
      else if \<not> bit (view_attr v) NV_READ_STCLEAR then (TPM_RCS_ATTRIBUTES + RC_HANDLE_2, [], Some v, mc)
      else (TPM_RC_SUCCESS, [], Some (set_attr (set_bit NV_READLOCKED (view_attr v)) (fst v), snd v), mc))"
| "index_step hash (ChangeAuth h auth) v mc =
     (let auth = MemoryRemoveTrailingZeros auth in
      if length auth > CryptHashGetDigestSize (view_alg v) then (TPM_RCS_SIZE + RC_PARAMETER_1, [], Some v, mc)
      else (TPM_RC_SUCCESS, [], Some (set_auth auth (fst v), snd v), mc))"

definition access_rc :: "bool \<Rightarrow> bool \<Rightarrow> nv_map \<Rightarrow> TPM_HANDLE \<Rightarrow> TPM_RC" where
  "access_rc sh phNV M h =
     (case M h of None \<Rightarrow> TPM_RC_HANDLE
      | Some v \<Rightarrow> if (if bit (view_attr v) NV_PLATFORMCREATE then phNV else sh) then TPM_RC_SUCCESS else TPM_RC_HANDLE)"

primrec handles_rc :: "bool \<Rightarrow> bool \<Rightarrow> nv_map \<Rightarrow> nat \<Rightarrow> TPM_HANDLE list \<Rightarrow> TPM_RC" where
  "handles_rc sh phNV M i [] = TPM_RC_SUCCESS"
| "handles_rc sh phNV M i (h # hs) =
     (if HandleGetType h = TPM_HT_NV_INDEX \<and> access_rc sh phNV M h \<noteq> TPM_RC_SUCCESS
      then RcSafeAddToResult TPM_RC_HANDLE (0x100 * of_nat (i + 1)) else handles_rc sh phNV M (i + 1) hs)"

text \<open>
  The abstract machine.  Whether there is room for a new index, and what its data area holds before
  it is written, is the argument \<open>fresh\<close>.
\<close>

definition nv_spec ::
  "hash_fun \<Rightarrow> bool \<Rightarrow> bool \<Rightarrow> BYTE list option \<Rightarrow> nv_cmd \<Rightarrow> nv_map \<times> UINT64 \<Rightarrow> TPM_RC \<times> BYTE list \<times> nv_map \<times> UINT64" where
  "nv_spec hash sh phNV fresh c S =
     (let (M, mc) = S; rc = handles_rc sh phNV M 0 (nv_handles c) in
      if rc \<noteq> TPM_RC_SUCCESS then (rc, [], M, mc)
      else case c of
        DefineSpace a auth pub \<Rightarrow>
          let rc = define_rc phNV a auth pub in
          if rc \<noteq> TPM_RC_SUCCESS then (rc, [], M, mc)
          else if M (nvIndex pub) \<noteq> None then (TPM_RC_NV_DEFINED, [], M, mc)
          else (case fresh of
              None \<Rightarrow> (TPM_RC_NV_SPACE, [], M, mc)
            | Some d \<Rightarrow> (TPM_RC_SUCCESS, [], M(nvIndex pub \<mapsto>
                 (\<lparr>publicArea = pub, authValue = digest_image (MemoryRemoveTrailingZeros auth)\<rparr>, d)), mc))
      | GlobalWriteLock \<Rightarrow> (TPM_RC_SUCCESS, [], \<lambda>h. map_option lock_view (M h), mc)
      | _ \<Rightarrow> (case M (nv_target c) of
                None \<Rightarrow> (TPM_RC_HANDLE, [], M, mc)
              | Some v \<Rightarrow> let (rc, out, v', mc') = index_step hash c v mc in (rc, out, M(nv_target c := v'), mc')))"


section \<open>The cache between two lookups\<close>

definition nv_coherent :: "nv_layout \<Rightarrow> nv_state \<Rightarrow> nv_map \<Rightarrow> bool" where
  "nv_coherent L st M \<longleftrightarrow> nv_rep L st M \<and>
     (\<forall>h. HandleGetType h = TPM_HT_NV_INDEX \<longrightarrow> uncached h st \<or> (\<exists>ref. nv_at L st M h ref))"

lemma nv_rep_CacheInit: "nv_rep L (NvIndexCacheInit st) M \<longleftrightarrow> nv_rep L st M"
  by (simp add: nv_rep_def nv_inv_CacheInit)

lemma coherent_CacheInit: "nv_rep L st M \<Longrightarrow> nv_coherent L (NvIndexCacheInit st) M"
  by (simp add: nv_coherent_def nv_rep_CacheInit)

lemma coherent_at:
  assumes "nv_at L st M h ref"
  shows "nv_coherent L st M"
proof -
  have "nvIndex (publicArea (s_cachedNvIndex st)) = h" by (rule nv_at_view [OF assms]) simp
  then show ?thesis using assms nv_at_rep [OF assms] by (auto simp: nv_coherent_def uncached_def)
qed

lemma coherent_get:
  assumes c: "nv_coherent L st M" and h: "HandleGetType h = TPM_HT_NV_INDEX" and M: "M h = Some v"
  shows "\<exists>ref st'. NvGetIndexInfo L h st = Inr (Some (fst v), ref, st') \<and> nv_at L st' M h ref \<and> s_maxCounter st' = s_maxCounter st"
proof (cases "uncached h st")
  case True
  have "nv_rep L st M" using c by (simp add: nv_coherent_def)
  from nv_rep_get [OF this True M] show ?thesis by blast
next
  case False
  then obtain ref where a: "nv_at L st M h ref" using c h by (auto simp: nv_coherent_def)
  show ?thesis by (rule nv_at_view [OF a]) (use a M in auto)
qed

lemma coherent_get_none:
  assumes c: "nv_coherent L st M" and h: "HandleGetType h = TPM_HT_NV_INDEX" and M: "M h = None"
  shows "\<exists>st'. NvGetIndexInfo L h st = Inr (None, 0, st') \<and> nv_rep L st' M \<and> s_maxCounter st' = s_maxCounter st"
proof -
  have "uncached h st"
  proof (rule ccontr)
    assume "\<not> uncached h st"
    then obtain ref where "nv_at L st M h ref" using c h by (auto simp: nv_coherent_def)
    then show False by (rule nv_at_view) (simp add: M)
  qed
  moreover have "nv_rep L st M" using c by (simp add: nv_coherent_def)
  ultimately show ?thesis using nv_rep_get_none h M by blast
qed

lemma access_ok:
  assumes c: "nv_coherent L st M" and h: "HandleGetType h = TPM_HT_NV_INDEX"
  shows "\<exists>st'. NvIndexIsAccessible L sh phNV h st = Inr (access_rc sh phNV M h, st') \<and> nv_rep L st' M \<and>
    s_maxCounter st' = s_maxCounter st \<and> (access_rc sh phNV M h = TPM_RC_SUCCESS \<longrightarrow> (\<exists>ref. nv_at L st' M h ref))"
proof (cases "M h")
  case None
  then show ?thesis using coherent_get_none [OF c h None] by (auto simp: NvIndexIsAccessible_def access_rc_def)
next
  case (Some v)
  then show ?thesis using coherent_get [OF c h Some] by (auto simp: NvIndexIsAccessible_def access_rc_def dest: nv_at_rep)
qed

lemma access_rc_cases: "access_rc sh phNV M h = TPM_RC_SUCCESS \<or> access_rc sh phNV M h = TPM_RC_HANDLE"
  by (simp add: access_rc_def split: option.split)

lemma nv_load_ok:
  assumes "nv_coherent L st M"
  shows "\<exists>st'. nv_load L sh phNV i hs st = Inr (handles_rc sh phNV M i hs, st') \<and> nv_rep L st' M \<and>
    s_maxCounter st' = s_maxCounter st \<and> (handles_rc sh phNV M i hs = TPM_RC_SUCCESS \<longrightarrow> hs \<noteq> [] \<longrightarrow>
      HandleGetType (last hs) = TPM_HT_NV_INDEX \<longrightarrow> (\<exists>ref. nv_at L st' M (last hs) ref))"
  using assms
proof (induction hs arbitrary: i st)
  case Nil
  then show ?case by (simp add: nv_coherent_def)
next
  case (Cons h hs)
  have nz: "RcSafeAddToResult TPM_RC_HANDLE (0x100 * of_nat (i + 1)) \<noteq> 0"
    by (auto simp: RcSafeAddToResult_def dest: arg_cong [where f = even])
  show ?case
  proof (cases "HandleGetType h = TPM_HT_NV_INDEX")
    case False
    then show ?thesis using Cons.IH [OF Cons.prems, of "i + 1"] by (cases hs) simp_all
  next
    case True
    obtain st1 where a: "NvIndexIsAccessible L sh phNV h st = Inr (access_rc sh phNV M h, st1)" "nv_rep L st1 M"
      "s_maxCounter st1 = s_maxCounter st" "access_rc sh phNV M h = TPM_RC_SUCCESS \<Longrightarrow> \<exists>ref. nv_at L st1 M h ref"
      using access_ok [OF Cons.prems True, of sh phNV] by blast
    show ?thesis
    proof (cases "access_rc sh phNV M h = TPM_RC_SUCCESS")
      case t: True
      then have "nv_coherent L st1 M" using a(4) coherent_at by blast
      then show ?thesis using Cons.IH [of st1 "i + 1"] True t a by (cases hs) simp_all
    next
      case False
      then show ?thesis using True a nz access_rc_cases [of sh phNV M h] by simp
    qed
  qed
qed


section \<open>The actions on an index\<close>

definition view_ok :: "nv_view \<Rightarrow> bool" where
  "view_ok v \<longleftrightarrow> length (snd v) = view_size v \<and> (GET_TPM_NT (view_attr v) \<in> {1, 2} \<longrightarrow> view_size v = 8) \<and>
     (GET_TPM_NT (view_attr v) = TPM_NT_EXTEND \<longrightarrow> view_size v = CryptHashGetDigestSize (view_alg v))"

definition hash_ok :: "hash_fun \<Rightarrow> bool" where
  "hash_ok hash \<longleftrightarrow> (\<forall>alg x. length (hash alg x) = CryptHashGetDigestSize alg)"

definition step_ok :: "nv_layout \<Rightarrow> nv_map \<Rightarrow> TPM_HANDLE \<Rightarrow> TPM_RC \<times> BYTE list \<times> nv_view option \<times> UINT64 \<Rightarrow>
    (TPM_RC \<times> BYTE list \<times> nv_state) fallible \<Rightarrow> bool" where
  "step_ok L M h s r \<longleftrightarrow> (case s of (rc, out, v', mc') \<Rightarrow>
     \<exists>st'. r = Inr (rc, out, st') \<and> nv_rep L st' (M(h := v')) \<and> s_maxCounter st' = mc')"

lemma CryptHashGetDigestSize_le: "CryptHashGetDigestSize alg \<le> 64"
  by (simp add: CryptHashGetDigestSize_def)

lemma indexInfo_at:
  assumes "nv_at L st M h ref" "M h = Some v"
  shows "indexInfo L h st = Inr (fst v, ref, st)" "nvIndex (publicArea (fst v)) = h" "s_cachedNvIndex st = fst v"
  by (rule nv_at_view [OF assms(1)], use assms(2) in \<open>simp add: indexInfo_def\<close>)+

lemma step_ok_refuse:
  assumes "nv_at L st M h ref" "M h = Some v"
  shows "step_ok L M h (rc, out, Some v, s_maxCounter st) (Inr (rc, out, st))"
  using assms nv_at_rep [OF assms(1)] by (simp add: step_ok_def fun_upd_idem)

lemma step_ok_write:
  assumes a: "nv_at L st M h ref" and M: "M h = Some v" and v: "view_ok v" and n: "offset + length data \<le> view_size v"
  shows "step_ok L M h (TPM_RC_SUCCESS, [], Some (view_write offset data v), s_maxCounter st) (no_out (NvWriteIndexData offset data st))"
  using nv_at_write [OF a M, of offset data] v n by (auto simp: step_ok_def view_ok_def dest: nv_at_rep)

lemma step_ok_write64:
  assumes a: "nv_at L st M h ref" and M: "M h = Some v" and v: "view_ok v" "view_size v = 8"
  shows "step_ok L M h (TPM_RC_SUCCESS, [], Some (put_count n v), s_maxCounter st) (no_out (NvWriteUINT64Data n st))"
  unfolding NvWriteUINT64Data_def by (rule step_ok_write [OF a M v(1)]) (simp add: v(2))

lemma step_ok_attributes:
  assumes a: "nv_at L st M h ref" and M: "M h = Some v" and n: "n \<in> {NV_WRITELOCKED, NV_READLOCKED}"
  shows "step_ok L M h (TPM_RC_SUCCESS, [], Some (set_attr (set_bit n (view_attr v)) (fst v), snd v), s_maxCounter st)
    (no_out (NvWriteIndexAttributes h ref (set_bit n (view_attr v)) st))"
proof -
  have "bit (set_bit n (view_attr v)) NV_ORDERLY \<longleftrightarrow> bit (view_attr v) NV_ORDERLY"
    "GET_TPM_NT (set_bit n (view_attr v)) = GET_TPM_NT (view_attr v)"
    using n by (auto simp: bit_set_bit_iff)
  from nv_at_attributes [OF a M this] show ?thesis by (auto simp: step_ok_def)
qed

lemma step_ok_auth:
  assumes "nv_at L st M h ref" "M h = Some v" "length auth \<le> 64"
  shows "step_ok L M h (TPM_RC_SUCCESS, [], Some (set_auth auth (fst v), snd v), s_maxCounter st) (no_out (NvWriteIndexAuth ref auth st))"
  using nv_at_auth [OF assms] by (auto simp: step_ok_def)

lemma step_ok_delete:
  assumes "nv_at L st M h ref" "M h = Some v"
  shows "step_ok L M h (TPM_RC_SUCCESS, [], None, max (s_maxCounter st) (written_count v)) (no_out (NvDeleteIndex L (Some (fst v)) ref st))"
  using nv_at_delete [OF assms] by (auto simp: step_ok_def)

lemma read_count:
  assumes a: "nv_at L st M h ref" and M: "M h = Some v" and w: "bit (view_attr v) NV_WRITTEN" and v: "view_ok v" "view_size v = 8"
  shows "NvGetUINT64Data (fst v) ref st = Inr (view_count v)"
  using nv_at_read [OF a M w, of 0 8] v by (simp add: NvGetUINT64Data_def view_ok_def view_count_def)

lemma extend_step:
  assumes a: "nv_at L st M h ref" and M: "M h = Some v" and v: "view_ok v" and hash: "hash_ok hash"
  shows "step_ok L M h (index_step hash (Extend au h data) v (s_maxCounter st)) (no_out (TPM2_NV_Extend hash L au h data st))"
proof (cases "GET_TPM_NT (view_attr v) = TPM_NT_EXTEND")
  case True
  then have sz: "view_size v = CryptHashGetDigestSize (view_alg v)" "length (snd v) = view_size v" using v by (simp_all add: view_ok_def)
  show ?thesis
    using step_ok_refuse [OF a M] nv_at_read [OF a M, of 0 "view_size v"] CryptHashGetDigestSize_le [of "view_alg v"] hash sz
      step_ok_write [OF a M v, of 0 "hash (view_alg v) (snd v @ data)"] step_ok_write [OF a M v, of 0 "hash (view_alg v) (replicate (view_size v) 0 @ data)"]
    by (simp add: TPM2_NV_Extend_def indexInfo_at(1) [OF a M] Let_def IsNvExtendIndex_def True hash_ok_def)
next
  case False
  then show ?thesis using step_ok_refuse [OF a M]
    by (simp add: TPM2_NV_Extend_def indexInfo_at(1) [OF a M] Let_def IsNvExtendIndex_def)
qed

lemma set_bits_step:
  assumes a: "nv_at L st M h ref" and M: "M h = Some v" and v: "view_ok v"
  shows "step_ok L M h (index_step hash (SetBits au h bits) v (s_maxCounter st)) (no_out (TPM2_NV_SetBits L au h bits st))"
proof (cases "GET_TPM_NT (view_attr v) = TPM_NT_BITS")
  case True
  then have "view_size v = 8" using v by (simp add: view_ok_def)
  then show ?thesis using step_ok_refuse [OF a M] step_ok_write64 [OF a M v] read_count [OF a M _ v]
    by (simp add: TPM2_NV_SetBits_def indexInfo_at(1) [OF a M] Let_def IsNvBitsIndex_def True)
next
  case False
  then show ?thesis using step_ok_refuse [OF a M]
    by (simp add: TPM2_NV_SetBits_def indexInfo_at(1) [OF a M] Let_def IsNvBitsIndex_def)
qed

lemma nv_rep_updateNV: "nv_rep L (st\<lparr>g_updateNV := u\<rparr>) M \<longleftrightarrow> nv_rep L st M"
  by (simp add: nv_rep_def nv_inv_def nv_list_def ram_list_def)

lemma increment_step:
  assumes a: "nv_at L st M h ref" and M: "M h = Some v" and v: "view_ok v"
  shows "step_ok L M h (index_step hash (Increment au h) v (s_maxCounter st)) (no_out (TPM2_NV_Increment L au h st))"
proof (cases "NvWriteAccessChecks au h (view_attr v) = TPM_RC_SUCCESS \<and> IsNvCounterIndex (view_attr v)")
  case True
  let ?old = "if bit (view_attr v) NV_WRITTEN then view_count v else s_maxCounter st"
  have sz: "view_size v = 8" using True v by (simp add: view_ok_def IsNvCounterIndex_def)
  have old: "(if \<not> bit (view_attr v) NV_WRITTEN then Inr (NvReadMaxCount st) else NvGetUINT64Data (fst v) ref st) = Inr ?old"
    using read_count [OF a M _ v sz] by (simp add: NvReadMaxCount_def)
  obtain st' where w: "NvWriteUINT64Data (?old + 1) st = Inr (TPM_RC_SUCCESS, st')" and
    st': "nv_rep L st' (M(h \<mapsto> put_count (?old + 1) v))" "s_maxCounter st' = s_maxCounter st"
    using step_ok_write64 [OF a M v sz, of "?old + 1"] by (auto simp: step_ok_def bindE_def split: sum.splits)
  show ?thesis
    using True st' unfolding TPM2_NV_Increment_def indexInfo_at(1) [OF a M]
    by (simp add: Let_def old w step_ok_def nv_rep_updateNV)
next
  case False
  then show ?thesis using step_ok_refuse [OF a M]
    by (auto simp: TPM2_NV_Increment_def indexInfo_at(1) [OF a M] Let_def)
qed

lemma nv_action_step:
  assumes a: "nv_at L st M h ref" and M: "M h = Some v" and v: "view_ok v" and hash: "hash_ok hash"
    and c: "on_index c" "nv_target c = h"
  shows "step_ok L M h (index_step hash c v (s_maxCounter st)) (nv_action hash L phNV c st)"
proof -
  note refuse = step_ok_refuse [OF a M] and info = indexInfo_at(1) [OF a M] Let_def and h = indexInfo_at(2) [OF a M]
  show ?thesis
  proof (cases c)
    case (UndefineSpace au h')
    then show ?thesis using c refuse step_ok_delete [OF a M] by (simp add: TPM2_NV_UndefineSpace_def info nv_target_def)
  next
    case (UndefineSpaceSpecial h')
    then show ?thesis using c refuse nv_at_delete [OF a M]
      by (auto simp: TPM2_NV_UndefineSpaceSpecial_def info step_ok_def nv_target_def)
  next
    case (Write au h' data offset)
    then show ?thesis using c refuse step_ok_write [OF a M v, of "unat offset" data]
      by (auto simp: TPM2_NV_Write_def info IsNvCounterIndex_def IsNvBitsIndex_def IsNvExtendIndex_def nv_target_def)
  next
    case (WriteLock au h')
    then show ?thesis using c refuse step_ok_attributes [OF a M, of NV_WRITELOCKED] h
      by (auto simp: TPM2_NV_WriteLock_def info NvWriteAccessChecks_def nv_target_def)
  next
    case (Read au h' sz offset)
    then show ?thesis using c refuse nv_at_read [OF a M, of "unat offset" "unat sz"] v
      by (auto simp: TPM2_NV_Read_def info NvReadAccessChecks_def view_ok_def nv_target_def split: if_splits)
  next
    case (ReadLock au h')
    then show ?thesis using c refuse step_ok_attributes [OF a M, of NV_READLOCKED] h
      by (auto simp: TPM2_NV_ReadLock_def info nv_target_def)
  next
    case (ChangeAuth h' auth)
    then show ?thesis
      using c refuse step_ok_auth [OF a M, of "MemoryRemoveTrailingZeros auth"] CryptHashGetDigestSize_le [of "view_alg v"]
      by (auto simp: TPM2_NV_ChangeAuth_def info nv_target_def)
  qed (use c extend_step [OF a M v hash] set_bits_step [OF a M v] increment_step [OF a M v] in \<open>simp_all add: on_index_def nv_target_def\<close>)
qed


section \<open>Defining an index\<close>

lemma first_refusal:
  "(case find fst ((b, rc) # t) of None \<Rightarrow> d | Some (_, r) \<Rightarrow> r) = (if b then rc else (case find fst t of None \<Rightarrow> d | Some (_, r) \<Rightarrow> r))"
  by simp

lemma refusal_step:
  "rc \<noteq> TPM_RC_SUCCESS \<Longrightarrow> k = (let rc = r in if rc \<noteq> TPM_RC_SUCCESS then Inr (rc, st) else K) \<Longrightarrow> b = b' \<Longrightarrow>
   (if b then Inr (rc, st) else k) = (let rc = (if b' then rc else r) in if rc \<noteq> TPM_RC_SUCCESS then Inr (rc, st) else K)"
  by simp

lemma refusal_merge: "(if b then x else if c then x else y) = (if b \<or> c then x else y)"
  by simp

lemma DefineSpace_table:
  "TPM2_NV_DefineSpace L phNV a auth pub st =
     (let rc = define_rc phNV a auth pub in
      if rc \<noteq> TPM_RC_SUCCESS then Inr (rc, st)
      else bindE (NvIndexIsDefined L (nvIndex pub) st) (\<lambda>defined.
        if defined then Inr (TPM_RC_NV_DEFINED, st)
        else NvDefineIndex L pub (digest_image (MemoryRemoveTrailingZeros auth)) st))"
  unfolding TPM2_NV_DefineSpace_def define_rc_def define_table_def Let_def first_refusal refusal_merge
  by (intro refusal_step [unfolded Let_def]) auto

text \<open>The two copies of the checks agree.\<close>

lemma DefineSpace_copies:
  "TPM2_NV_DefineSpace L phNV a auth pub st = NvDefineSpace L phNV a auth pub RC_HANDLE_1 RC_PARAMETER_1 RC_PARAMETER_2 st"
  by (simp only: TPM2_NV_DefineSpace_def NvDefineSpace_def)


definition cmd_ok :: "nv_cmd \<Rightarrow> bool" where
  "cmd_ok c \<longleftrightarrow> (case c of
       DefineSpace _ auth pub \<Rightarrow> TPMS_NV_PUBLIC_ok pub \<and> HandleGetType (nvIndex pub) = TPM_HT_NV_INDEX \<and> length auth \<le> 64
     | GlobalWriteLock \<Rightarrow> True
     | _ \<Rightarrow> HandleGetType (nv_target c) = TPM_HT_NV_INDEX)"

lemma RemoveTrailingZeros_le: "length (MemoryRemoveTrailingZeros auth) \<le> length auth"
  by (induction auth rule: MemoryRemoveTrailingZeros.induct) (subst MemoryRemoveTrailingZeros.simps, auto)

lemma no_refusal:
  "(case find fst t of None \<Rightarrow> TPM_RC_SUCCESS | Some (_, rc) \<Rightarrow> rc) = TPM_RC_SUCCESS \<Longrightarrow> (\<forall>x \<in> set t. snd x \<noteq> TPM_RC_SUCCESS) \<Longrightarrow>
    list_all (\<lambda>x. \<not> fst x) t"
  by (induction t) (auto split: if_splits)

lemma define_rc_ok:
  assumes "define_rc phNV a auth pub = TPM_RC_SUCCESS"
  shows "unat (dataSize pub) \<le> 2048" "GET_TPM_NT (nv_attributes pub) \<in> {1, 2} \<Longrightarrow> dataSize pub = 8"
    "GET_TPM_NT (nv_attributes pub) = TPM_NT_EXTEND \<Longrightarrow> unat (dataSize pub) = CryptHashGetDigestSize (nameAlg pub)"
    "\<not> bit (nv_attributes pub) NV_WRITTEN" "\<not> bit (nv_attributes pub) NV_WRITELOCKED"
    "length (MemoryRemoveTrailingZeros auth) \<le> 64"
proof -
  let ?ds = "unat (dataSize pub)" and ?nt = "GET_TPM_NT (nv_attributes pub)" and ?ns = "CryptHashGetDigestSize (nameAlg pub)"
  have "list_all (\<lambda>x. \<not> fst x) (define_table phNV a auth pub)"
    by (rule no_refusal) (use assms in \<open>simp_all add: define_rc_def, simp add: define_table_def Let_def\<close>)
  then have el: "\<not> fst (define_table phNV a auth pub ! i)" if "i < 9" for i
    using that by (simp add: list_all_length define_table_def Let_def)
  have len: "length (MemoryRemoveTrailingZeros auth) \<le> ?ns"
    using el [of 1] by (simp add: define_table_def Let_def)
  have size: "?nt = TPM_NT_ORDINARY \<longrightarrow> ?ds \<le> 2048" "?nt = TPM_NT_EXTEND \<longrightarrow> ?ds = ?ns" "?nt \<notin> {0, 4} \<longrightarrow> ?ds = 8"
    using el [of 4] by (auto simp: define_table_def Let_def)
  have bits: "\<not> bit (nv_attributes pub) NV_WRITTEN" "\<not> bit (nv_attributes pub) NV_WRITELOCKED"
    using el [of 5] by (simp_all add: define_table_def Let_def)
  have ns: "?ns \<le> 64" by (rule CryptHashGetDigestSize_le)
  show "?ds \<le> 2048" using size ns by auto
  show "?nt \<in> {1, 2} \<Longrightarrow> dataSize pub = 8" using size(3) by (auto simp: word_unat_eq_iff)
  show "?nt = TPM_NT_EXTEND \<Longrightarrow> ?ds = ?ns" using size(2) by simp
  show "length (MemoryRemoveTrailingZeros auth) \<le> 64" using len ns by simp
  show "\<not> bit (nv_attributes pub) NV_WRITTEN" "\<not> bit (nv_attributes pub) NV_WRITELOCKED" by (fact bits)+
qed


section \<open>Refinement\<close>

declare split_paired_All [simp del] split_paired_Ex [simp del]

definition map_ok :: "nv_map \<Rightarrow> bool" where
  "map_ok M \<longleftrightarrow> (\<forall>h v. M h = Some v \<longrightarrow> view_ok v)"

definition refines ::
  "nv_layout \<Rightarrow> TPM_RC \<times> BYTE list \<times> nv_map \<times> UINT64 \<Rightarrow> (TPM_RC \<times> BYTE list \<times> nv_state) fallible \<Rightarrow> bool" where
  "refines L s r \<longleftrightarrow> (case s of (rc, out, M', mc') \<Rightarrow>
     \<exists>st'. r = Inr (rc, out, st') \<and> nv_rep L st' M' \<and> s_maxCounter st' = mc')"

definition fresh_ok :: "nv_cmd \<Rightarrow> BYTE list option \<Rightarrow> bool" where
  "fresh_ok c fresh \<longleftrightarrow> (case c of
       DefineSpace _ _ pub \<Rightarrow> (\<forall>d. fresh = Some d \<longrightarrow> length d = unat (dataSize pub)) | _ \<Rightarrow> True)"

lemma define_refines:
  assumes r: "nv_rep L st M" and c: "cmd_ok (DefineSpace a auth pub)"
  shows "\<exists>fresh. fresh_ok (DefineSpace a auth pub) fresh \<and>
    (handles_rc sh phNV M 0 [a] = TPM_RC_SUCCESS \<longrightarrow>
      refines L (nv_spec hash sh phNV fresh (DefineSpace a auth pub) (M, s_maxCounter st))
        (nv_action hash L phNV (DefineSpace a auth pub) st))"
proof -
  let ?auth = "digest_image (MemoryRemoveTrailingZeros auth)"
  let ?ix = "\<lparr>publicArea = pub, authValue = ?auth\<rparr>"
  have h: "HandleGetType (nvIndex pub) = TPM_HT_NV_INDEX" using c by (simp add: cmd_ok_def)
  note defined = nv_rep_defined [OF r h]
  show ?thesis
  proof (cases "define_rc phNV a auth pub = TPM_RC_SUCCESS \<and> M (nvIndex pub) = None")
    case False
    then show ?thesis using r defined
      by (intro exI [of _ None])
         (auto simp: refines_def nv_spec_def DefineSpace_table Let_def fresh_ok_def)
  next
    case True
    note ok = define_rc_ok [OF conjunct1 [OF True]]
    have new: "new_index ?ix" using ok c h
      by (auto simp: new_index_def wf_index_def digest_image cmd_ok_def TPMS_NV_PUBLIC_ok_def digest_image_ok_def IsNvCounterIndex_def)
    show ?thesis
    proof (cases "NvDefineIndex L pub ?auth st = Inr (TPM_RC_NV_SPACE, st)")
      case no: True
      then show ?thesis using r defined True
        by (intro exI [of _ None]) (simp add: refines_def nv_spec_def DefineSpace_table Let_def fresh_ok_def)
    next
      case False
      then obtain d st' where "NvDefineIndex L pub ?auth st = Inr (TPM_RC_SUCCESS, st')"
        "nv_rep L st' (M(nvIndex pub \<mapsto> (?ix, d)))" "length d = unat (dataSize pub)" "s_maxCounter st' = s_maxCounter st"
        using nv_rep_define [OF r new] True by auto
      then show ?thesis using r defined True
        by (intro exI [of _ "Some d"]) (simp add: refines_def nv_spec_def DefineSpace_table Let_def fresh_ok_def)
    qed
  qed
qed

lemma handles_rc_target:
  assumes "handles_rc sh phNV M i hs = TPM_RC_SUCCESS" "h \<in> set hs" "HandleGetType h = TPM_HT_NV_INDEX"
  shows "\<exists>v. M h = Some v"
  using assms
proof (induction hs arbitrary: i)
  case (Cons g hs)
  have "RcSafeAddToResult TPM_RC_HANDLE (0x100 * of_nat (i + 1)) \<noteq> 0"
    by (auto simp: RcSafeAddToResult_def dest: arg_cong [where f = even])
  then show ?case using Cons by (auto simp: access_rc_def split: if_splits option.splits)
qed simp

lemma on_index_target: "on_index c \<Longrightarrow> nv_target c \<in> set (nv_handles c)"
  by (cases c) (simp_all add: on_index_def nv_target_def)

lemma nv_spec_index:
  "on_index c \<Longrightarrow> handles_rc sh phNV M 0 (nv_handles c) = TPM_RC_SUCCESS \<Longrightarrow> M (nv_target c) = Some v \<Longrightarrow>
    nv_spec hash sh phNV fresh c (M, mc) = (case index_step hash c v mc of (rc, out, v', mc') \<Rightarrow> (rc, out, M(nv_target c := v'), mc'))"
  by (cases c) (simp_all add: on_index_def nv_spec_def Let_def)

lemma index_refines:
  assumes a: "nv_at L st M (nv_target c) ref" and M: "map_ok M" and hash: "hash_ok hash" and i: "on_index c"
    and rc: "handles_rc sh phNV M 0 (nv_handles c) = TPM_RC_SUCCESS"
  shows "refines L (nv_spec hash sh phNV fresh c (M, s_maxCounter st)) (nv_action hash L phNV c st)"
proof -
  obtain v where v: "M (nv_target c) = Some v" by (rule nv_at_view [OF a])
  then have "view_ok v" using M unfolding map_ok_def by blast
  from nv_action_step [OF a v this hash i refl, of phNV] show ?thesis
    by (auto simp: refines_def step_ok_def nv_spec_index [OF i rc v] split: prod.splits)
qed

lemma nv_run_refines:
  assumes r: "nv_rep L st M" and M: "map_ok M" and hash: "hash_ok hash" and c: "cmd_ok c"
  shows "\<exists>fresh. fresh_ok c fresh \<and> refines L (nv_spec hash sh phNV fresh c (M, s_maxCounter st)) (nv_run hash L sh phNV c st)"
proof -
  let ?rc = "handles_rc sh phNV M 0 (nv_handles c)"
  obtain st1 where l: "nv_load L sh phNV 0 (nv_handles c) (NvIndexCacheInit st) = Inr (?rc, st1)" "nv_rep L st1 M"
    "s_maxCounter st1 = s_maxCounter st" and at: "?rc = TPM_RC_SUCCESS \<Longrightarrow> nv_handles c \<noteq> [] \<Longrightarrow>
      HandleGetType (last (nv_handles c)) = TPM_HT_NV_INDEX \<Longrightarrow> \<exists>ref. nv_at L st1 M (last (nv_handles c)) ref"
    using nv_load_ok [OF coherent_CacheInit [OF r], of sh phNV 0 "nv_handles c"] by auto
  show ?thesis
  proof (cases "?rc = TPM_RC_SUCCESS")
    case False
    then show ?thesis using l by (intro exI [of _ None]) (simp add: refines_def nv_run_def nv_spec_def Let_def fresh_ok_def split: nv_cmd.split)
  next
    case True
    then have run: "nv_run hash L sh phNV c st = nv_action hash L phNV c st1" using l by (simp add: nv_run_def)
    show ?thesis
    proof (cases "on_index c")
      case i: True
      have "nv_handles c \<noteq> []" "HandleGetType (nv_target c) = TPM_HT_NV_INDEX"
        using i c by (cases c; simp add: on_index_def cmd_ok_def)+
      then obtain ref where "nv_at L st1 M (nv_target c) ref" using at True by (auto simp: nv_target_def)
      from index_refines [OF this M hash i True] show ?thesis
        using i run l(3) by (intro exI [of _ None]) (auto simp: fresh_ok_def on_index_def split: nv_cmd.splits)
    next
      case i: False
      then consider a auth pub where "c = DefineSpace a auth pub" | "c = GlobalWriteLock" by (cases c) (simp_all add: on_index_def)
      then show ?thesis
      proof cases
        case 1
        then show ?thesis using define_refines [OF l(2), of a auth pub sh phNV hash] c True run l(3) by auto
      next
        case 2
        then show ?thesis using nv_rep_lock [OF l(2)] run l(3)
          by (auto simp: fresh_ok_def refines_def nv_spec_def TPM2_NV_GlobalWriteLock_def Let_def)
      qed
    qed
  qed
qed


section \<open>Invariants of the abstract machine\<close>

lemma view_write_fields [simp]:
  "view_attr (view_write offset data v) = set_bit NV_WRITTEN (view_attr v)"
  "view_size (view_write offset data v) = view_size v" "view_alg (view_write offset data v) = view_alg v"
  by (simp_all add: view_write_def Let_def)

lemma length_view_write:
  "offset + length data \<le> length (snd v) \<Longrightarrow> length (snd (view_write offset data v)) = length (snd v)"
  by (simp add: view_write_def Let_def bytes_put_def)

lemma view_ok_write:
  "view_ok v \<Longrightarrow> offset + length data \<le> view_size v \<Longrightarrow> view_ok (view_write offset data v)"
  by (simp add: view_ok_def length_view_write)

lemma view_ok_attr: "view_ok v \<Longrightarrow> 8 \<le> n \<Longrightarrow> view_ok (set_attr (set_bit n (view_attr v)) (fst v), snd v)"
  by (simp add: view_ok_def)

lemma view_ok_auth: "view_ok v \<Longrightarrow> view_ok (set_auth auth (fst v), snd v)"
  by (simp add: view_ok_def set_auth_def)

lemma view_ok_lock: "view_ok v \<Longrightarrow> view_ok (lock_view v)"
  using view_ok_attr [of v NV_WRITELOCKED] by (auto simp: lock_view_def Let_def)

lemma view_ok_step:
  assumes v: "view_ok v" and hash: "hash_ok hash" and s: "index_step hash c v mc = (rc, out, Some v', mc')"
  shows "view_ok v'"
proof -
  have sz: "IsNvCounterIndex (view_attr v) \<Longrightarrow> view_size v = 8" "GET_TPM_NT (view_attr v) = TPM_NT_BITS \<Longrightarrow> view_size v = 8"
    "GET_TPM_NT (view_attr v) = TPM_NT_EXTEND \<Longrightarrow> view_size v = CryptHashGetDigestSize (view_alg v)"
    using v by (simp_all add: view_ok_def IsNvCounterIndex_def)
  show ?thesis using s v sz hash
    by (cases c) (auto simp: Let_def hash_ok_def view_ok_attr view_ok_auth intro!: view_ok_write split: if_splits)
qed

lemma map_ok_spec:
  assumes M: "map_ok M" and hash: "hash_ok hash" and c: "cmd_ok c" and f: "fresh_ok c fresh"
    and s: "nv_spec hash sh phNV fresh c (M, mc) = (rc, out, M', mc')"
  shows "map_ok M'"
proof (cases "handles_rc sh phNV M 0 (nv_handles c) = TPM_RC_SUCCESS")
  case False
  then show ?thesis using s M by (simp add: nv_spec_def)
next
  case rc: True
  show ?thesis
  proof (cases "on_index c")
    case True
    then have "HandleGetType (nv_target c) = TPM_HT_NV_INDEX" using c by (cases c) (simp_all add: cmd_ok_def on_index_def)
    from handles_rc_target [OF rc on_index_target [OF True] this] obtain v where v: "M (nv_target c) = Some v" by blast
    then have "view_ok v" using M unfolding map_ok_def by blast
    then show ?thesis using s M view_ok_step [OF _ hash, of v c mc] unfolding nv_spec_index [OF True rc v] map_ok_def
      by (auto split: prod.splits if_splits)
  next
    case False
    then consider a auth pub where "c = DefineSpace a auth pub" | "c = GlobalWriteLock" by (cases c) (simp_all add: on_index_def)
    then show ?thesis
    proof cases
      case 1
      have "view_ok (\<lparr>publicArea = pub, authValue = x\<rparr>, d)" if "define_rc phNV a auth pub = TPM_RC_SUCCESS" "length d = unat (dataSize pub)" for x d
        using define_rc_ok [OF that(1)] that(2) by (auto simp: view_ok_def)
      then show ?thesis using s M f rc unfolding 1 by (auto simp: nv_spec_def map_ok_def fresh_ok_def Let_def split: if_splits option.splits)
    next
      case 2
      then have "M' = (\<lambda>h. map_option lock_view (M h))" using s by (simp add: nv_spec_def)
      then show ?thesis using M view_ok_lock unfolding map_ok_def by (metis (no_types, lifting) map_option_eq_Some)
    qed
  qed
qed


text \<open>
  What a handle is known to have counted: the value of a written counter, and otherwise the maximal
  counter, from which a counter at this handle starts.
\<close>

definition is_count :: "nv_view \<Rightarrow> bool" where
  "is_count v \<longleftrightarrow> IsNvCounterIndex (view_attr v) \<and> bit (view_attr v) NV_WRITTEN"

definition counted :: "nv_map \<Rightarrow> UINT64 \<Rightarrow> TPM_HANDLE \<Rightarrow> UINT64" where
  "counted M mc h = (case M h of Some v \<Rightarrow> if is_count v then view_count v else mc | None \<Rightarrow> mc)"

definition counts_le :: "nat \<Rightarrow> nv_map \<Rightarrow> UINT64 \<Rightarrow> bool" where
  "counts_le b M mc \<longleftrightarrow> unat mc \<le> b \<and> (\<forall>h v. M h = Some v \<longrightarrow> is_count v \<longrightarrow> unat (view_count v) \<le> b)"

lemma count_put:
  assumes "view_ok v" "IsNvCounterIndex (view_attr v)"
  shows "is_count (put_count n v)" "view_count (put_count n v) = n"
proof -
  have "length (snd v) = 8" using assms by (simp add: view_ok_def IsNvCounterIndex_def)
  moreover have "\<not> IsNvOrdinaryIndex (view_attr v)" using assms(2) by (simp add: IsNvCounterIndex_def IsNvOrdinaryIndex_def)
  ultimately have "snd (put_count n v) = Uint64ToByteArray n (replicate 8 0)" by (simp add: view_write_def Let_def bytes_put_full)
  then show "view_count (put_count n v) = n" by (simp add: view_count_def word_unat_eq_iff be_val_conversions)
  show "is_count (put_count n v)" using assms(2) by (simp add: is_count_def IsNvCounterIndex_def bit_set_bit_iff)
qed

text \<open>Every command deletes the index and saves its count, leaves the count, or adds one to it.\<close>

definition index_count :: "nv_view \<Rightarrow> UINT64 \<Rightarrow> UINT64" where
  "index_count v mc = (if is_count v then view_count v else mc)"

definition same_count :: "nv_view \<Rightarrow> nv_view \<Rightarrow> bool" where
  "same_count v w \<longleftrightarrow> \<not> IsNvCounterIndex (view_attr v) \<and> \<not> IsNvCounterIndex (view_attr w) \<or>
     is_count w = is_count v \<and> view_count w = view_count v"

lemma same_count_refl [simp]: "same_count v v"
  by (simp add: same_count_def)

lemma same_count_attr: "8 \<le> n \<Longrightarrow> n \<noteq> NV_WRITTEN \<Longrightarrow> same_count v (set_attr (set_bit n (view_attr v)) (fst v), snd v)"
  by (auto simp: same_count_def is_count_def IsNvCounterIndex_def bit_set_bit_iff view_count_def)

lemma same_count_auth: "same_count v (set_auth auth (fst v), snd v)"
  by (simp add: same_count_def is_count_def view_count_def set_auth_def)

lemma same_count_write: "\<not> IsNvCounterIndex (view_attr v) \<Longrightarrow> same_count v (view_write offset data v)"
  by (simp add: same_count_def IsNvCounterIndex_def)

lemma same_count_lock: "same_count v (lock_view v)"
  using same_count_attr [of NV_WRITELOCKED v] by (simp add: lock_view_def Let_def)

definition count_step :: "nv_view \<Rightarrow> UINT64 \<Rightarrow> nv_view option \<Rightarrow> UINT64 \<Rightarrow> bool" where
  "count_step v mc v' mc' \<longleftrightarrow> (case v' of
       None \<Rightarrow> mc' = max mc (written_count v)
     | Some w \<Rightarrow> mc' = mc \<and> (same_count v w \<or> is_count w \<and> view_count w = index_count v mc + 1))"

lemma index_step_count:
  assumes v: "view_ok v" and s: "index_step hash c v mc = (rc, out, v', mc')"
  shows "count_step v mc v' mc'"
proof (cases "\<exists>a h. c = Increment a h")
  case True
  then show ?thesis using s count_put [OF v] by (auto simp: Let_def index_count_def is_count_def count_step_def split: if_splits)
next
  case False
  then show ?thesis using s
    by (cases c) (auto simp: Let_def count_step_def same_count_attr same_count_auth IsNvCounterIndex_def intro!: same_count_write split: if_splits)
qed

lemma counted_alt: "counted M mc h = (case M h of None \<Rightarrow> mc | Some v \<Rightarrow> index_count v mc)"
  by (simp add: counted_def index_count_def split: option.split)

lemma plus_1_less: "unat (n :: UINT64) \<le> b \<Longrightarrow> b + 1 < 2 ^ 64 \<Longrightarrow> n < n + 1 \<and> unat (n + 1) \<le> b + 1"
  by (simp add: word_less_nat_alt unat_word_ariths)

lemma count_step_mono:
  assumes c: "count_step v mc v' mc'" and b: "unat mc \<le> b" "is_count v \<Longrightarrow> unat (view_count v) \<le> b" "b + 1 < 2 ^ 64"
  shows "mc \<le> mc'" "unat mc' \<le> b" "index_count v mc \<le> (case v' of None \<Rightarrow> mc' | Some w \<Rightarrow> index_count w mc')"
    "v' = Some w \<Longrightarrow> is_count w \<Longrightarrow> unat (view_count w) \<le> b + 1"
proof -
  have ic: "unat (index_count v mc) \<le> b" using b by (simp add: index_count_def)
  note inc = plus_1_less [OF ic b(3)]
  have wc: "written_count v = (if is_count v then view_count v else 0)" by (simp add: written_count_def is_count_def Let_def)
  show "mc \<le> mc'" "unat mc' \<le> b" using c b by (auto simp: count_step_def wc max_def split: option.splits)
  show "index_count v mc \<le> (case v' of None \<Rightarrow> mc' | Some w \<Rightarrow> index_count w mc')"
    using c inc by (auto simp: count_step_def wc index_count_def same_count_def is_count_def split: option.splits if_splits)
  show "v' = Some w \<Longrightarrow> is_count w \<Longrightarrow> unat (view_count w) \<le> b + 1"
    using c inc b by (auto simp: count_step_def same_count_def is_count_def)
qed


lemma same_count_index: "same_count v w \<Longrightarrow> index_count w mc = index_count v mc"
  "same_count v w \<Longrightarrow> is_count w \<Longrightarrow> is_count v \<and> view_count w = view_count v"
  by (auto simp: same_count_def index_count_def is_count_def)

text \<open>The abstract machine changes the index it works on, all indices alike, or adds a new index.\<close>

lemma nv_spec_cases:
  assumes M: "map_ok M" and c: "cmd_ok c" and s: "nv_spec hash sh phNV fresh c (M, mc) = (rc, out, M', mc')"
  obtains (refuse) "M' = M" "mc' = mc"
  | (step) v v' where "on_index c" "M (nv_target c) = Some v" "view_ok v" "index_step hash c v mc = (rc, out, v', mc')" "M' = M(nv_target c := v')"
  | (lock) "c = GlobalWriteLock" "M' = (\<lambda>h. map_option lock_view (M h))" "mc' = mc"
  | (new) a auth pub x d where "c = DefineSpace a auth pub" "M (nvIndex pub) = None" "mc' = mc" "\<not> bit (nv_attributes pub) NV_WRITTEN"
      "M' = M(nvIndex pub \<mapsto> (\<lparr>publicArea = pub, authValue = x\<rparr>, d))"
proof (cases "handles_rc sh phNV M 0 (nv_handles c) = TPM_RC_SUCCESS")
  case False
  then show ?thesis using s refuse by (simp add: nv_spec_def)
next
  case rc: True
  show ?thesis
  proof (cases "on_index c")
    case True
    then have "HandleGetType (nv_target c) = TPM_HT_NV_INDEX" using c by (cases c) (simp_all add: cmd_ok_def on_index_def)
    from handles_rc_target [OF rc on_index_target [OF True] this] obtain v where v: "M (nv_target c) = Some v" by blast
    then have ok: "view_ok v" using M unfolding map_ok_def by blast
    obtain rc1 out1 v1 mc1 where e: "index_step hash c v mc = (rc1, out1, v1, mc1)" by (rule prod_cases4)
    with s show ?thesis unfolding nv_spec_index [OF True rc v] by (intro step [OF True v ok]) auto
  next
    case False
    then consider a auth pub where "c = DefineSpace a auth pub" | "c = GlobalWriteLock" by (cases c) (simp_all add: on_index_def)
    then show ?thesis
    proof cases
      case 1
      show ?thesis
      proof (cases "define_rc phNV a auth pub = TPM_RC_SUCCESS \<and> M (nvIndex pub) = None \<and> fresh \<noteq> None")
        case True
        then show ?thesis using s rc define_rc_ok(4) [of phNV a auth pub] by (intro new [OF 1, of "digest_image (MemoryRemoveTrailingZeros auth)" "the fresh"]) (auto simp: 1 nv_spec_def Let_def)
      next
        case False
        then show ?thesis using s rc unfolding 1 by (intro refuse) (auto simp: nv_spec_def Let_def split: if_splits option.splits)
      qed
    next
      case 2
      then show ?thesis using s lock by (simp add: nv_spec_def)
    qed
  qed
qed

lemma counts_le_mono: "counts_le b M mc \<Longrightarrow> b \<le> b' \<Longrightarrow> counts_le b' M mc"
  unfolding counts_le_def by (meson le_trans)

lemma counts_le_same:
  assumes "counts_le b M mc" "\<And>h w. M' h = Some w \<Longrightarrow> is_count w \<Longrightarrow> \<exists>v. M h = Some v \<and> same_count v w"
  shows "counts_le b M' mc"
  using assms same_count_index(2) unfolding counts_le_def by metis

lemma counted_spec:
  assumes M: "map_ok M" and c: "cmd_ok c" and s: "nv_spec hash sh phNV fresh c (M, mc) = (rc, out, M', mc')"
    and b: "counts_le b M mc" "b + 1 < 2 ^ 64"
  shows "counted M mc h \<le> counted M' mc' h \<and> counts_le (b + 1) M' mc'"
  using M c s
proof (cases rule: nv_spec_cases)
  case refuse
  then show ?thesis using counts_le_mono [OF b(1)] by simp
next
  case (step v v')
  have bv: "unat mc \<le> b" "is_count v \<Longrightarrow> unat (view_count v) \<le> b" using b(1) step(2) unfolding counts_le_def by blast+
  note m = count_step_mono [OF index_step_count [OF step(3,4)] bv b(2)]
  have "counted M mc h \<le> counted M' mc' h"
    using m(1,3) step(2,5) by (auto simp: counted_alt index_count_def split: option.splits if_splits)
  moreover have "counts_le (b + 1) M' mc'"
    using m(2,4) counts_le_mono [OF b(1), of "b + 1"] step(5) by (auto simp: counts_le_def)
  ultimately show ?thesis by simp
next
  case lock
  have "counts_le b M' mc" by (rule counts_le_same [OF b(1)]) (metis lock(2) map_option_eq_Some same_count_lock)
  then show ?thesis using lock counts_le_mono same_count_index(1) [OF same_count_lock]
    by (auto simp: counted_alt split: option.split)
next
  case (new a auth pub x d)
  then have n: "\<not> is_count (\<lparr>publicArea = pub, authValue = x\<rparr>, d)" by (simp add: is_count_def)
  have "counts_le b M' mc" by (rule counts_le_same [OF b(1)]) (use new n in \<open>auto split: if_splits\<close>)
  then show ?thesis using new n counts_le_mono by (auto simp: counted_alt index_count_def)
qed

lemma counted_increment:
  assumes M: "map_ok M" and c: "cmd_ok (Increment a h)" and b: "counts_le b M mc" "b + 1 < 2 ^ 64"
    and s: "nv_spec hash sh phNV fresh (Increment a h) (M, mc) = (TPM_RC_SUCCESS, out, M', mc')"
  shows "\<exists>v'. M' h = Some v' \<and> is_count v' \<and> counted M mc h < view_count v'"
proof -
  let ?c = "Increment a h"
  have i: "on_index ?c" and h: "nv_target ?c = h" by (simp_all add: on_index_def nv_target_def)
  have rc: "handles_rc sh phNV M 0 (nv_handles ?c) = TPM_RC_SUCCESS" using s by (auto simp: nv_spec_def Let_def split: if_splits)
  have "HandleGetType h = TPM_HT_NV_INDEX" using c h by (simp add: cmd_ok_def)
  with handles_rc_target [OF rc on_index_target [OF i]] h obtain v where v: "M (nv_target ?c) = Some v" by auto
  then have ok: "view_ok v" using M unfolding map_ok_def by blast
  obtain rc1 out1 v1 mc1 where e: "index_step hash ?c v mc = (rc1, out1, v1, mc1)" by (rule prod_cases4)
  have step: "index_step hash ?c v mc = (TPM_RC_SUCCESS, out, M' h, mc')"
    using s h unfolding nv_spec_index [OF i rc v] e by auto
  then have counter: "IsNvCounterIndex (view_attr v)" and M': "M' h = Some (put_count (index_count v mc + 1) v)"
    by (auto simp: Let_def index_count_def is_count_def split: if_splits)
  have "unat (index_count v mc) \<le> b" using b(1) v by (auto simp: counts_le_def index_count_def)
  with plus_1_less [OF this b(2)] show ?thesis
    using M' count_put [OF ok counter] v h by (simp add: counted_alt)
qed


text \<open>A locked index keeps its data until it is deleted.\<close>

definition undefines :: "nv_cmd \<Rightarrow> TPM_HANDLE \<Rightarrow> bool" where
  "undefines c h \<longleftrightarrow> (case c of UndefineSpace _ h' \<Rightarrow> h' = h | UndefineSpaceSpecial h' \<Rightarrow> h' = h | _ \<Rightarrow> False)"

definition locked_with :: "BYTE list \<Rightarrow> nv_map \<Rightarrow> TPM_HANDLE \<Rightarrow> bool" where
  "locked_with d M h \<longleftrightarrow> (case M h of None \<Rightarrow> False | Some v \<Rightarrow> bit (view_attr v) NV_WRITELOCKED \<and> snd v = d)"

lemma index_step_locked:
  assumes "bit (view_attr v) NV_WRITELOCKED" "\<not> undefines c (nv_target c)" "index_step hash c v mc = (rc, out, v', mc')"
  shows "\<exists>w. v' = Some w \<and> bit (view_attr w) NV_WRITELOCKED \<and> snd w = snd v"
  using assms
  by (cases c) (auto simp: Let_def NvWriteAccessChecks_def undefines_def nv_target_def bit_set_bit_iff set_auth_def split: if_splits)

lemma locked_spec:
  assumes M: "map_ok M" and c: "cmd_ok c" and s: "nv_spec hash sh phNV fresh c (M, mc) = (rc, out, M', mc')"
    and l: "locked_with d M h" and u: "\<not> undefines c h"
  shows "locked_with d M' h"
  using M c s
proof (cases rule: nv_spec_cases)
  case refuse
  then show ?thesis using l by simp
next
  case (step v v')
  then show ?thesis using l u index_step_locked [of v c hash mc rc out v' mc'] by (auto simp: locked_with_def)
next
  case lock
  then show ?thesis using l by (auto simp: locked_with_def lock_view_def Let_def bit_set_bit_iff split: option.splits)
next
  case (new a auth pub x d)
  then show ?thesis using l by (auto simp: locked_with_def)
qed

section \<open>Sequences of commands\<close>

primrec nv_runs :: "hash_fun \<Rightarrow> nv_layout \<Rightarrow> bool \<Rightarrow> bool \<Rightarrow> nv_cmd list \<Rightarrow> nv_state \<Rightarrow> (TPM_RC list \<times> nv_state) fallible" where
  "nv_runs hash L sh phNV [] st = Inr ([], st)"
| "nv_runs hash L sh phNV (c # cs) st =
     bindE (nv_run hash L sh phNV c st) (\<lambda>(rc, out, st).
     bindE (nv_runs hash L sh phNV cs st) (\<lambda>(rcs, st). Inr (rc # rcs, st)))"

lemma nv_runs_append:
  "nv_runs hash L sh phNV (cs @ ds) st =
     bindE (nv_runs hash L sh phNV cs st) (\<lambda>(rcs, st).
     bindE (nv_runs hash L sh phNV ds st) (\<lambda>(rcs', st). Inr (rcs @ rcs', st)))"
  by (induction cs arbitrary: st) (auto simp: bindE_def split: sum.splits)

lemma nv_run_step:
  assumes "nv_rep L st M" "map_ok M" "hash_ok hash" "cmd_ok c"
  obtains fresh rc out st' M' where "nv_spec hash sh phNV fresh c (M, s_maxCounter st) = (rc, out, M', s_maxCounter st')"
    "nv_run hash L sh phNV c st = Inr (rc, out, st')" "nv_rep L st' M'" "map_ok M'"
proof -
  obtain fresh where f: "fresh_ok c fresh" "refines L (nv_spec hash sh phNV fresh c (M, s_maxCounter st)) (nv_run hash L sh phNV c st)"
    using nv_run_refines [OF assms] by blast
  obtain rc out M' mc' where e: "nv_spec hash sh phNV fresh c (M, s_maxCounter st) = (rc, out, M', mc')" by (rule prod_cases4)
  then show thesis using f that map_ok_spec [OF assms(2,3,4) f(1) e] by (auto simp: refines_def)
qed

lemma nv_runs_count:
  assumes "nv_rep L st M" "map_ok M" "hash_ok hash" "\<forall>c \<in> set cs. cmd_ok c" "counts_le b M (s_maxCounter st)" "b + length cs < 2 ^ 64"
  shows "\<exists>rcs st' M'. nv_runs hash L sh phNV cs st = Inr (rcs, st') \<and> nv_rep L st' M' \<and> map_ok M' \<and>
    counts_le (b + length cs) M' (s_maxCounter st') \<and> counted M (s_maxCounter st) h \<le> counted M' (s_maxCounter st') h"
  using assms
proof (induction cs arbitrary: st M b)
  case (Cons c cs)
  then obtain fresh rc out st1 M1 where s: "nv_spec hash sh phNV fresh c (M, s_maxCounter st) = (rc, out, M1, s_maxCounter st1)"
    and r: "nv_run hash L sh phNV c st = Inr (rc, out, st1)" "nv_rep L st1 M1" "map_ok M1"
    by (auto intro: nv_run_step [of L st M hash c sh phNV])
  have c: "counted M (s_maxCounter st) h \<le> counted M1 (s_maxCounter st1) h" "counts_le (b + 1) M1 (s_maxCounter st1)"
    using counted_spec [OF Cons.prems(2) _ s Cons.prems(5), of h] Cons.prems(4,6) by auto
  have b: "b + 1 + length cs < 2 ^ 64" using Cons.prems(6) by simp
  obtain rcs st' M' where ih: "nv_runs hash L sh phNV cs st1 = Inr (rcs, st')" "nv_rep L st' M'" "map_ok M'"
    "counts_le (b + 1 + length cs) M' (s_maxCounter st')" "counted M1 (s_maxCounter st1) h \<le> counted M' (s_maxCounter st') h"
    using Cons.IH [OF r(2,3) Cons.prems(3) _ c(2) b] Cons.prems(4) by auto
  have "nv_runs hash L sh phNV (c # cs) st = Inr (rc # rcs, st')" using r(1) ih(1) by simp
  moreover have "counts_le (b + length (c # cs)) M' (s_maxCounter st')" using ih(4) by simp
  ultimately show ?case using ih(2,3) order_trans [OF c(1) ih(5)] by blast
qed auto

lemma nv_runs_locked:
  assumes "nv_rep L st M" "map_ok M" "hash_ok hash" "\<forall>c \<in> set cs. cmd_ok c \<and> \<not> undefines c h" "locked_with d M h"
  shows "\<exists>rcs st' M'. nv_runs hash L sh phNV cs st = Inr (rcs, st') \<and> nv_rep L st' M' \<and> locked_with d M' h"
  using assms
proof (induction cs arbitrary: st M)
  case (Cons c cs)
  then obtain fresh rc out st1 M1 where s: "nv_spec hash sh phNV fresh c (M, s_maxCounter st) = (rc, out, M1, s_maxCounter st1)"
    and r: "nv_run hash L sh phNV c st = Inr (rc, out, st1)" "nv_rep L st1 M1" "map_ok M1"
    by (auto intro: nv_run_step [of L st M hash c sh phNV])
  have "locked_with d M1 h" using locked_spec [OF Cons.prems(2) _ s Cons.prems(5)] Cons.prems(4) by simp
  from Cons.IH [OF r(2,3) Cons.prems(3) _ this] Cons.prems(4) show ?case using r(1) by fastforce
qed auto

section \<open>Indices of a foreign type\<close>

lemma flush_pass_foreign:
  assumes l: "nv_list L st (ps @ [p]) mc" and ps: "\<forall>q \<in> set ps. wf_entry L q \<and> \<not> flushed hierarchy q" and o: "4 \<le> SIZEOF_OBJECT L"
    and p: "HandleGetType (entry_handle p) \<notin> {TPM_HT_NV_INDEX, TPM_HT_PERSISTENT}"
  shows "NvFlushHierarchy L hierarchy st = Inl FATAL_ERROR_INTERNAL"
proof -
  let ?body = "\<lambda>currentAddr entityHandle iter (_ :: TPM_RC, _ :: bool, st).
      bindE (NvFlushHierarchy_entry L hierarchy currentAddr entityHandle st) (\<lambda>(result, deleted, st).
      Inr (result \<noteq> TPM_RC_SUCCESS \<or> deleted, iter, (result, deleted, st)))"
  let ?view = "\<lambda>(_ :: TPM_RC, _ :: bool, st :: nv_state). st"
  let ?\<sigma> = "(TPM_RC_SUCCESS, False, st)"
  have "scan_while NV_FUEL (\<lambda>\<sigma>. NvNext L (?view \<sigma>)) ?body NV_REF_INIT ?\<sigma> =
      scan_while NV_FUEL (\<lambda>\<sigma>. NvNext L (?view \<sigma>)) ?body (nv_pos L []) ?\<sigma>"
    by (rule scan_while_start) (use nv.nxt_start [OF nv_goodI [OF l]] in simp)
  also have "\<dots> = Inl FATAL_ERROR_INTERNAL"
  proof (rule nv.scan_fail [where z = p and vs = "[]" and us = ps])
    show "?body (nv_pos L ([] @ as) + 4) (entry_handle u) (nv_pos L ([] @ as @ [u])) ?\<sigma> =
        Inr (False, nv_pos L ([] @ as @ [u]), ?\<sigma>)" if "ps = as @ u # bs" for as u bs
      using flush_entry_keep_list [of L st as u "bs @ [p]" mc hierarchy] l ps o that by simp
  qed (use p nv_goodI [OF l] nv_list_count [OF l] in \<open>simp_all add: NvFlushHierarchy_entry_def\<close>)
  finally have "NvFlushHierarchy_pass L hierarchy st = Inl FATAL_ERROR_INTERNAL"
    unfolding NvFlushHierarchy_pass_def by (simp add: case_prod_unfold)
  then show ?thesis by (simp add: NvFlushHierarchy_def eval_nat_numeral)
qed

lemma define_adds_entry:
  assumes i: "nv_inv L st ps rs mc" and ok: "g_NvStatus st = TPM_RC_SUCCESS" and new: "storable ix"
    and d: "NvDefineIndex L (publicArea ix) (authValue ix) st = Inr (TPM_RC_SUCCESS, st')"
  shows "\<exists>rest. nv_list L st' (ps @ [index_payload ix rest]) (s_maxCounter st)"
proof -
  have room: "index_room L ps rs ix" using NvDefineIndex_no_space [OF i new] d by fastforce
  obtain rest st1 where e: "NvDefineIndex L (publicArea ix) (authValue ix) st =
      (if index_orderly ix then bindE (NvAddRAM (publicArea ix) st1) (\<lambda>st. Inr (TPM_RC_SUCCESS, st)) else Inr (TPM_RC_SUCCESS, st1))"
    and l: "nv_list L st1 (ps @ [index_payload ix rest]) (s_maxCounter st)"
    and fr: "st1 = st\<lparr>s_NV := s_NV st1, g_updateNV := g_updateNV st OR UT_NV\<rparr>"
    using NvDefineIndex_add [OF i ok new room] by blast
  have r1: "ram_list st1 rs" using i ram_list_frame [OF fr] by (simp add: nv_inv_def)
  have "nv_list L st' (ps @ [index_payload ix rest]) (s_maxCounter st)" if o: "index_orderly ix"
  proof -
    obtain st2 where "NvAddRAM (publicArea ix) st1 = Inr st2"
      and fr2: "st2 = st1\<lparr>s_indexOrderlyRam := s_indexOrderlyRam st2, g_updateNV := g_updateNV st1 OR UT_ORDERLY\<rparr>"
      using NvAddRAM_ok [OF r1, of "publicArea ix"] room o by (auto simp: index_room_def Let_def)
    then show ?thesis using e d o l nv_list_frame [OF fr2] by simp
  qed
  then show ?thesis using e d l by (cases "index_orderly ix") auto
qed

lemma nv_index_not_persistent:
  assumes "TPMI_RH_NV_INDEX_ok h"
  shows "HandleGetType h \<noteq> TPM_HT_PERSISTENT"
proof
  assume "HandleGetType h = TPM_HT_PERSISTENT"
  then have "unat h div 2 ^ 24 = 0x81" using unat_HandleGetType [of h] by simp
  moreover have "unat h \<le> 0x12FFFFFF" using assms by (auto simp: TPMI_RH_NV_INDEX_ok_def word_le_nat_alt)
  then have "unat h div 2 ^ 24 \<le> 0x12FFFFFF div 2 ^ 24" by (rule div_le_mono)
  ultimately show False by simp
qed

section \<open>Examples\<close>

definition ex_hash :: hash_fun where
  "ex_hash alg x = replicate (CryptHashGetDigestSize alg) 0"

lemma ex_hash_ok: "hash_ok ex_hash"
  by (simp add: hash_ok_def ex_hash_def)

text \<open>A state whose only index is a written counter with the value 5; the owner may write and read it.\<close>

definition ex_view :: "UINT32 \<Rightarrow> nv_view" where
  "ex_view a = (ex_index 0x01000001 a, [0, 0, 0, 0, 0, 0, 0, 5])"

abbreviation ex_map :: "UINT32 \<Rightarrow> nv_map" where
  "ex_map a \<equiv> [0x01000001 \<mapsto> ex_view a]"

definition ex_state :: "UINT32 \<Rightarrow> nv_state" where
  "ex_state a = state_of ex_layout [index_payload (ex_index 0x01000001 a) [0, 0, 0, 0, 0, 0, 0, 5]] [] 2"

lemma ex_state_rep:
  assumes a: "\<not> bit a NV_ORDERLY"
  shows "nv_rep ex_layout (ex_state a) (ex_map a)" "s_maxCounter (ex_state a) = 2"
proof -
  let ?ix = "ex_index 0x01000001 a" and ?d = "[0, 0, 0, 0, 0, 0, 0, 5] :: BYTE list"
  have n: "new_index ?ix" by (rule ex_index_new) (simp add: HandleGetType_def)
  note f = index_payload_fields [OF n, of ?d]
  have h: "nvIndex (publicArea ?ix) = 0x01000001" "unat (dataSize (publicArea ?ix)) = 8" "\<not> index_orderly ?ix"
    using a by (simp_all add: ex_index_def index_orderly_def)
  have "wf_entry ex_layout (index_payload ?ix ?d)" using f h by (simp add: wf_entry_def)
  then have i: "nv_inv ex_layout (ex_state a) [index_payload ?ix ?d] [] 2"
    unfolding ex_state_def by (intro state_of_inv [OF ex_layout_wf]) (use f h in \<open>simp_all add: nv_pos_def ex_layout_def\<close>)
  have "view_of [] (index_payload ?ix ?d) = ex_view a"
    using f h n by (simp add: view_of_nv entry_index_payload ex_view_def) (simp add: index_payload_def length_NV_INDEX_bytes new_index_def)
  then have "contents [index_payload ?ix ?d] [] = ex_map a" using f h by (auto simp: contents_def)
  moreover show "s_maxCounter (ex_state a) = 2" by (simp add: ex_state_def)
  moreover have "g_NvStatus (ex_state a) = TPM_RC_SUCCESS" by (simp add: ex_state_def)
  ultimately show "nv_rep ex_layout (ex_state a) (ex_map a)" using i unfolding nv_rep_def by metis
qed

lemma ex_view_ok: "GET_TPM_NT a = 1 \<Longrightarrow> view_ok (ex_view a)" "view_count (ex_view a) = 5" "view_attr (ex_view a) = a"
  by (simp_all add: view_ok_def ex_view_def ex_index_def view_count_def ByteArrayToUint64_def ByteArrayToUint32_def ByteArrayToUint16_def)

lemma ex_map_ok: "GET_TPM_NT a = 1 \<Longrightarrow> map_ok (ex_map a)"
  using ex_view_ok(1) by (auto simp: map_ok_def)

lemma ex_increment:
  "cmd_ok (Increment TPM_RH_OWNER 0x01000001)"
  "nv_spec ex_hash True True fresh (Increment TPM_RH_OWNER 0x01000001) (ex_map 0x20020012, 2) =
     (TPM_RC_SUCCESS, [], [0x01000001 \<mapsto> put_count 6 (ex_view 0x20020012)], 2)"
  by (simp_all add: cmd_ok_def nv_target_def HandleGetType_def nv_spec_def Let_def access_rc_def ex_view_ok NvWriteAccessChecks_def
      IsNvCounterIndex_def GET_TPM_NT_def bit_numeral_rec)

definition ex_foreign :: TPMS_NV_PUBLIC where
  "ex_foreign = \<lparr>nvIndex = 0x12000001, nameAlg = 0x000B, nv_attributes = 0x00020002, authPolicy = replicate 66 0, dataSize = 8\<rparr>"

section \<open>Properties\<close>

text \<open>
  C34. Every NV command, from the lookup of its handles to its response, does on the NV image what
  the abstract machine does on the map of the indices, on every branch and with the same response
  code and output; no assertion fails, and the sizes that the index types demand are kept.
\<close>

theorem nv_command_refinement:
  assumes "nv_rep L st M" "map_ok M" "hash_ok hash" "cmd_ok c"
  shows "\<exists>fresh rc out st' M'. nv_spec hash sh phNV fresh c (M, s_maxCounter st) = (rc, out, M', s_maxCounter st') \<and>
    nv_run hash L sh phNV c st = Inr (rc, out, st') \<and> nv_rep L st' M' \<and> map_ok M'"
  by (rule nv_run_step [OF assms]) blast

theorem nv_command_refinement_witness:
  "\<exists>st'. nv_run ex_hash ex_layout True True (Increment TPM_RH_OWNER 0x01000001) (ex_state 0x20020012) = Inr (TPM_RC_SUCCESS, [], st') \<and>
     nv_rep ex_layout st' [0x01000001 \<mapsto> put_count 6 (ex_view 0x20020012)]"
proof -
  have "\<not> bit (0x20020012 :: UINT32) NV_ORDERLY" "GET_TPM_NT (0x20020012 :: UINT32) = 1" by (simp_all add: GET_TPM_NT_def bit_numeral_rec)
  then show ?thesis
    using nv_command_refinement [OF ex_state_rep(1) ex_map_ok ex_hash_ok ex_increment(1), of "0x20020012" True True]
    by (auto simp: ex_state_rep(2) ex_increment(2))
qed

text \<open>
  C35. A counter that was read never shows the same or a smaller value after it was incremented again,
  whatever NV commands come in between, even if they delete the counter and define it anew.  This
  holds as long as fewer than \<open>2 ^ 64\<close> increments are made.
\<close>

theorem nv_counters_never_repeat:
  assumes "nv_rep L st M" "map_ok M" "hash_ok hash" "\<forall>c \<in> set cs. cmd_ok c" "HandleGetType h = TPM_HT_NV_INDEX"
    and "M h = Some v" "is_count v" "counts_le b M (s_maxCounter st)" "b + length cs + 1 < 2 ^ 64"
  shows "\<exists>rcs rc st' M'. nv_runs hash L sh phNV (cs @ [Increment a h]) st = Inr (rcs @ [rc], st') \<and> nv_rep L st' M' \<and>
    (rc = TPM_RC_SUCCESS \<longrightarrow> (\<exists>v'. M' h = Some v' \<and> is_count v' \<and> view_count v < view_count v'))"
proof -
  have b: "b + length cs < 2 ^ 64" using assms(9) by simp
  obtain rcs st1 M1 where r: "nv_runs hash L sh phNV cs st = Inr (rcs, st1)" "nv_rep L st1 M1" "map_ok M1"
    "counts_le (b + length cs) M1 (s_maxCounter st1)" "counted M (s_maxCounter st) h \<le> counted M1 (s_maxCounter st1) h"
    using nv_runs_count [OF assms(1-4,8) b, of sh phNV h] by blast
  have c: "cmd_ok (Increment a h)" using assms(5) by (simp add: cmd_ok_def nv_target_def)
  obtain fresh rc out st2 M2 where s: "nv_spec hash sh phNV fresh (Increment a h) (M1, s_maxCounter st1) = (rc, out, M2, s_maxCounter st2)"
    "nv_run hash L sh phNV (Increment a h) st1 = Inr (rc, out, st2)" "nv_rep L st2 M2"
    by (rule nv_run_step [OF r(2,3) assms(3) c])
  have n: "counted M (s_maxCounter st) h = view_count v" using assms(6,7) by (simp add: counted_def)
  have "\<exists>v'. M2 h = Some v' \<and> is_count v' \<and> view_count v < view_count v'" if ok: "rc = TPM_RC_SUCCESS"
  proof -
    obtain v' where "M2 h = Some v'" "is_count v'" "counted M1 (s_maxCounter st1) h < view_count v'"
      using counted_increment [OF r(3) c r(4) assms(9) s(1) [unfolded ok]] by blast
    then show ?thesis using le_less_trans [OF r(5) [unfolded n]] by blast
  qed
  moreover have "nv_runs hash L sh phNV (cs @ [Increment a h]) st = Inr (rcs @ [rc], st2)"
    using r(1) s(2) by (simp add: nv_runs_append)
  ultimately show ?thesis using s(3) by blast
qed

theorem nv_counters_never_repeat_witness:
  "\<exists>st' M' v'. nv_runs ex_hash ex_layout True True [Increment TPM_RH_OWNER 0x01000001] (ex_state 0x20020012) = Inr ([TPM_RC_SUCCESS], st') \<and>
     nv_rep ex_layout st' M' \<and> M' 0x01000001 = Some v' \<and> 5 < view_count v'"
proof -
  let ?a = "0x20020012 :: UINT32"
  have a: "\<not> bit ?a NV_ORDERLY" "GET_TPM_NT ?a = 1" "bit ?a NV_WRITTEN" by (simp_all add: GET_TPM_NT_def bit_numeral_rec)
  have "is_count (ex_view ?a)" using a by (simp add: is_count_def ex_view_ok IsNvCounterIndex_def)
  moreover have "counts_le 5 (ex_map ?a) (s_maxCounter (ex_state ?a))" by (simp add: counts_le_def ex_state_rep a ex_view_ok)
  ultimately obtain rcs rc st' M' where r: "nv_runs ex_hash ex_layout True True ([] @ [Increment TPM_RH_OWNER 0x01000001]) (ex_state ?a) = Inr (rcs @ [rc], st')"
    "nv_rep ex_layout st' M'" "rc = TPM_RC_SUCCESS \<longrightarrow> (\<exists>v'. M' 0x01000001 = Some v' \<and> is_count v' \<and> view_count (ex_view ?a) < view_count v')"
    using nv_counters_never_repeat [OF ex_state_rep(1) [OF a(1)] ex_map_ok [OF a(2)] ex_hash_ok, of "[]" "0x01000001" "ex_view ?a" 5 True True TPM_RH_OWNER]
    by (auto simp: HandleGetType_def)
  obtain fresh rc1 out st1 M1 where "nv_spec ex_hash True True fresh (Increment TPM_RH_OWNER 0x01000001) (ex_map ?a, s_maxCounter (ex_state ?a)) = (rc1, out, M1, s_maxCounter st1)"
    "nv_run ex_hash ex_layout True True (Increment TPM_RH_OWNER 0x01000001) (ex_state ?a) = Inr (rc1, out, st1)"
    by (rule nv_run_step [OF ex_state_rep(1) [OF a(1)] ex_map_ok [OF a(2)] ex_hash_ok ex_increment(1)])
  then have "rc = TPM_RC_SUCCESS" "rcs = []" using r(1) a by (auto simp: ex_state_rep(2) ex_increment(2))
  then show ?thesis using r by (auto simp: ex_view_ok)
qed

text \<open>
  C36. The data of a write-locked index does not change by any sequence of NV commands that does not
  delete the index, and the index stays locked.
\<close>

theorem nv_write_lock_holds:
  assumes "nv_rep L st M" "map_ok M" "hash_ok hash" "\<forall>c \<in> set cs. cmd_ok c \<and> \<not> undefines c h"
    and "M h = Some v" "bit (view_attr v) NV_WRITELOCKED"
  shows "\<exists>rcs st' M' v'. nv_runs hash L sh phNV cs st = Inr (rcs, st') \<and> nv_rep L st' M' \<and>
    M' h = Some v' \<and> bit (view_attr v') NV_WRITELOCKED \<and> snd v' = snd v"
proof -
  have "locked_with (snd v) M h" using assms(5,6) by (simp add: locked_with_def)
  from nv_runs_locked [OF assms(1-4) this, of sh phNV] show ?thesis by (fastforce simp: locked_with_def split: option.splits)
qed

theorem nv_write_lock_holds_witness:
  "\<exists>rcs st' M' v'. nv_runs ex_hash ex_layout True True [Increment TPM_RH_OWNER 0x01000001, GlobalWriteLock] (ex_state 0x20020812) = Inr (rcs, st') \<and>
     nv_rep ex_layout st' M' \<and> M' 0x01000001 = Some v' \<and> snd v' = [0, 0, 0, 0, 0, 0, 0, 5]"
proof -
  let ?a = "0x20020812 :: UINT32"
  have a: "\<not> bit ?a NV_ORDERLY" "GET_TPM_NT ?a = 1" "bit ?a NV_WRITELOCKED" by (simp_all add: GET_TPM_NT_def bit_numeral_rec)
  have c: "\<forall>c \<in> set [Increment TPM_RH_OWNER 0x01000001, GlobalWriteLock]. cmd_ok c \<and> \<not> undefines c 0x01000001"
    by (simp add: cmd_ok_def nv_target_def HandleGetType_def undefines_def)
  have v: "ex_map ?a 0x01000001 = Some (ex_view ?a)" "bit (view_attr (ex_view ?a)) NV_WRITELOCKED" "snd (ex_view ?a) = [0, 0, 0, 0, 0, 0, 0, 5]"
    using a(3) by (simp_all only: ex_view_ok, simp_all add: ex_view_def)
  from nv_write_lock_holds [OF ex_state_rep(1) [OF a(1)] ex_map_ok [OF a(2)] ex_hash_ok c v(1,2)] show ?thesis
    unfolding v(3) by blast
qed

text \<open>
  C37. \<^verbatim>\<open>TPM2_NV_DefineSpace\<close> accepts handles of external and permanent NV indices, which no other
  command can address.  After such a definition \<^verbatim>\<open>NvFlushHierarchy\<close>, on which \<^verbatim>\<open>TPM2_Clear\<close> relies, fails
  with a fatal error as soon as it comes to the new entry.
\<close>

theorem nv_foreign_index_breaks_flush:
  assumes i: "nv_inv L st ps rs mc" and ok: "g_NvStatus st = TPM_RC_SUCCESS"
    and pub: "TPMS_NV_PUBLIC_ok pub" "HandleGetType (nvIndex pub) \<noteq> TPM_HT_NV_INDEX" and keep: "\<forall>p \<in> set ps. \<not> flushed hierarchy p"
    and d: "TPM2_NV_DefineSpace L phNV a auth pub st = Inr (TPM_RC_SUCCESS, st')"
  shows "NvFlushHierarchy L hierarchy st' = Inl FATAL_ERROR_INTERNAL"
proof -
  let ?ix = "\<lparr>publicArea = pub, authValue = digest_image (MemoryRemoveTrailingZeros auth)\<rparr>"
  have rc: "define_rc phNV a auth pub = TPM_RC_SUCCESS" and n: "NvDefineIndex L pub (authValue ?ix) st = Inr (TPM_RC_SUCCESS, st')"
    using d by (auto simp: DefineSpace_table Let_def bindE_def split: if_splits sum.splits)
  have s: "storable ?ix" using define_rc_ok [OF rc] pub(1)
    by (simp add: storable_def wf_index_def digest_image TPMS_NV_PUBLIC_ok_def digest_image_ok_def)
  obtain rest where l: "nv_list L st' (ps @ [index_payload ?ix rest]) (s_maxCounter st)"
    using define_adds_entry [OF i ok s] n by auto
  have h: "entry_handle (index_payload ?ix rest) = nvIndex pub" using s
    by (simp add: storable_def index_payload_def NV_INDEX_fields)
  have "HandleGetType (nvIndex pub) \<noteq> TPM_HT_PERSISTENT"
    by (rule nv_index_not_persistent) (use pub(1) in \<open>simp add: TPMS_NV_PUBLIC_ok_def\<close>)
  then show ?thesis using flush_pass_foreign [OF l] i keep pub(2) h by (auto simp: nv_inv_def)
qed


theorem nv_foreign_index_breaks_flush_witness:
  "\<exists>st'. TPM2B_NV_PUBLIC_Unmarshal [0, 14, 0x12, 0, 0, 1, 0, 0x0B, 0, 2, 0, 2, 0, 0, 0, 8] = Inr (ex_foreign, []) \<and>
     TPM2_NV_DefineSpace ex_layout True TPM_RH_OWNER [] ex_foreign (state_of ex_layout [] [] 0) = Inr (TPM_RC_SUCCESS, st') \<and>
     NvFlushHierarchy ex_layout TPM_RH_OWNER st' = Inl FATAL_ERROR_INTERNAL"
proof -
  let ?st = "state_of ex_layout [] [] 0" and ?ix = "\<lparr>publicArea = ex_foreign, authValue = digest_image []\<rparr>"
  have u: "TPM2B_NV_PUBLIC_Unmarshal [0, 14, 0x12, 0, 0, 1, 0, 0x0B, 0, 2, 0, 2, 0, 0, 0, 8] = Inr (ex_foreign, [])"
    by code_simp
  have i: "nv_inv ex_layout ?st [] [] 0" by (rule state_of_inv [OF ex_layout_wf]) (simp_all add: nv_pos_def ex_layout_def)
  have pub: "TPMS_NV_PUBLIC_ok ex_foreign" by code_simp
  have rc: "define_rc True TPM_RH_OWNER [] ex_foreign = TPM_RC_SUCCESS" by code_simp
  have z: "MemoryRemoveTrailingZeros [] = []" by code_simp
  have s: "storable ?ix" using pub by (simp add: storable_def wf_index_def digest_image TPMS_NV_PUBLIC_ok_def digest_image_ok_def ex_foreign_def)
  have room: "index_room ex_layout [] [] ?ix"
    by (simp add: index_room_def Let_def index_orderly_def ex_foreign_def nv_pos_def ex_layout_def
        reserved_bytes_def num_type_def num_counters_def NV_EVICT_OBJECT_SIZE_def IsNvCounterIndex_def GET_TPM_NT_def bit_numeral_rec)
  have "NvIndexIsDefined ex_layout (nvIndex ex_foreign) ?st = Inr False"
    using NvFindHandle_none [of ex_layout ?st "[]" 0 "nvIndex ex_foreign"] nv_inv_listD(1) [OF i] by (simp add: NvIndexIsDefined_def)
  moreover obtain st' where "NvDefineIndex ex_layout ex_foreign (digest_image []) ?st = Inr (TPM_RC_SUCCESS, st')"
    using NvDefineIndex_add [OF i _ s room] by (auto simp: index_orderly_def ex_foreign_def bit_numeral_rec)
  ultimately have d: "TPM2_NV_DefineSpace ex_layout True TPM_RH_OWNER [] ex_foreign ?st = Inr (TPM_RC_SUCCESS, st')"
    by (simp add: DefineSpace_table rc z)
  have "HandleGetType (nvIndex ex_foreign) \<noteq> TPM_HT_NV_INDEX" by (simp add: ex_foreign_def HandleGetType_def)
  from nv_foreign_index_breaks_flush [OF i _ pub this _ d] u d show ?thesis by auto
qed

declare split_paired_All [simp] split_paired_Ex [simp]

end
