(* ===== verification/FTPM_Marshal_Struct.thy ===== *)
theory FTPM_Marshal_Struct
  imports FTPM_Marshal FTPM_Session
begin

unbundle bit_operations_syntax

text \<open>
  Structures of \<^verbatim>\<open>Marshal.c\<close> and \<^verbatim>\<open>Unmarshal.c\<close> that are made of the simple
  types: digests, PCR selections, tickets, properties, saved contexts and lists.
\<close>

section \<open>Digests\<close>

text \<open>
  A digest is the octets of the member of the union that its algorithm selects; without an
  algorithm it has none.
\<close>

definition TPMU_HA_ok :: "TPM_ALG_ID \<Rightarrow> BYTE list \<Rightarrow> bool" where
  "TPMU_HA_ok selector d \<longleftrightarrow>
     selector = TPM_ALG_SHA1 \<and> length d = 20 \<or> selector = TPM_ALG_SHA256 \<and> length d = 32 \<or>
     selector = TPM_ALG_SHA384 \<and> length d = 48 \<or> selector = TPM_ALG_SHA512 \<and> length d = 64 \<or>
     selector = TPM_ALG_NULL \<and> d = []"

definition sized_Array_Marshal :: "nat \<Rightarrow> BYTE list \<Rightarrow> marshaler" where
  "sized_Array_Marshal n d = (if n \<le> length d then Array_Marshal (take n d) else failM OUT_OF_BOUNDS)"

definition TPMU_HA_Marshal :: "BYTE list \<Rightarrow> TPM_ALG_ID \<Rightarrow> marshaler" where
  "TPMU_HA_Marshal source selector =
     (if selector = TPM_ALG_SHA1 then sized_Array_Marshal 20 source
      else if selector = TPM_ALG_SHA256 then sized_Array_Marshal 32 source
      else if selector = TPM_ALG_SHA384 then sized_Array_Marshal 48 source
      else if selector = TPM_ALG_SHA512 then sized_Array_Marshal 64 source
      else if selector = TPM_ALG_NULL then doneM
      else failM FATAL_ERROR_PARAMETER)"

definition TPMU_HA_Unmarshal :: "TPM_ALG_ID \<Rightarrow> BYTE list unmarshaler" where
  "TPMU_HA_Unmarshal selector bs =
     (if selector = TPM_ALG_SHA1 then Array_Unmarshal 20 bs
      else if selector = TPM_ALG_SHA256 then Array_Unmarshal 32 bs
      else if selector = TPM_ALG_SHA384 then Array_Unmarshal 48 bs
      else if selector = TPM_ALG_SHA512 then Array_Unmarshal 64 bs
      else if selector = TPM_ALG_NULL then Inr ([], bs)
      else Inl TPM_RC_SELECTOR)"

lemma codec_sized_Array: "codec (sized_Array_Marshal n) (Array_Unmarshal n) (\<lambda>b. length b = n) n"
  by (rule codec_cong [OF codec_Array]) (simp add: sized_Array_Marshal_def)

lemma codec_TPMU_HA:
  "codec (\<lambda>d. TPMU_HA_Marshal d selector) (TPMU_HA_Unmarshal selector) (TPMU_HA_ok selector) 64"
  unfolding TPMU_HA_Marshal_def TPMU_HA_Unmarshal_def
  by (rule codec_weaken, (rule codec_cond codec_sized_Array codec_done codec_fail)+)
     (auto simp: TPMU_HA_ok_def)

record TPMT_HA =
  ha_hashAlg :: TPM_ALG_ID
  ha_digest :: "BYTE list"

definition TPMT_HA_ok :: "bool \<Rightarrow> TPMT_HA \<Rightarrow> bool" where
  "TPMT_HA_ok allowNull s \<longleftrightarrow>
     TPMI_ALG_HASH_ok allowNull (ha_hashAlg s) \<and> TPMU_HA_ok (ha_hashAlg s) (ha_digest s)"

definition TPMT_HA_Marshal :: "TPMT_HA \<Rightarrow> marshaler" where
  "TPMT_HA_Marshal s =
     andM (TPMI_ALG_HASH_Marshal (ha_hashAlg s)) (TPMU_HA_Marshal (ha_digest s) (ha_hashAlg s))"

definition TPMT_HA_Unmarshal :: "bool \<Rightarrow> TPMT_HA unmarshaler" where
  "TPMT_HA_Unmarshal allowNull bs =
     bindU (TPMI_ALG_HASH_Unmarshal allowNull bs) (\<lambda>x bs.
     bindU (TPMU_HA_Unmarshal x bs) (\<lambda>y bs.
       Inr (\<lparr>ha_hashAlg = x, ha_digest = y\<rparr>, bs)))"

lemma codec_TPMT_HA: "codec TPMT_HA_Marshal (TPMT_HA_Unmarshal allowNull) (TPMT_HA_ok allowNull) 66"
  by (rule codec_struct2 [where C = "\<lambda>x y. \<lparr>ha_hashAlg = x, ha_digest = y\<rparr>",
      OF codec_TPMI_ALG_HASH [of allowNull] codec_TPMU_HA])
     (simp_all add: TPMT_HA_Marshal_def TPMT_HA_Unmarshal_def TPMT_HA_ok_def, meson TPMT_HA.cases)

section \<open>PCR selections\<close>

text \<open>The selection has between \<^verbatim>\<open>PCR_SELECT_MIN\<close> and \<^verbatim>\<open>PCR_SELECT_MAX\<close> octets, both of which are 3 for 24 PCR.\<close>

record TPMS_PCR_SELECTION =
  sel_hash :: TPM_ALG_ID
  sizeofSelect :: UINT8
  pcrSelect :: "BYTE list"

definition TPMS_PCR_SELECTION_ok :: "TPMS_PCR_SELECTION \<Rightarrow> bool" where
  "TPMS_PCR_SELECTION_ok s \<longleftrightarrow>
     TPMI_ALG_HASH_ok False (sel_hash s) \<and> sizeofSelect s = 3 \<and> length (pcrSelect s) = 3"

definition TPMS_PCR_SELECTION_Marshal :: "TPMS_PCR_SELECTION \<Rightarrow> marshaler" where
  "TPMS_PCR_SELECTION_Marshal s =
     andM (TPMI_ALG_HASH_Marshal (sel_hash s))
     (andM (UINT8_Marshal (sizeofSelect s)) (sized_Array_Marshal (unat (sizeofSelect s)) (pcrSelect s)))"

definition TPMS_PCR_SELECTION_Unmarshal :: "TPMS_PCR_SELECTION unmarshaler" where
  "TPMS_PCR_SELECTION_Unmarshal bs =
     bindU (TPMI_ALG_HASH_Unmarshal False bs) (\<lambda>x bs.
     bindU (checked UINT8_Unmarshal (\<lambda>n. 3 \<le> n \<and> n \<le> 3) TPM_RC_VALUE bs) (\<lambda>y bs.
     bindU (Array_Unmarshal (unat y) bs) (\<lambda>z bs.
       Inr (\<lparr>sel_hash = x, sizeofSelect = y, pcrSelect = z\<rparr>, bs))))"

lemma codec_TPMS_PCR_SELECTION: "codec TPMS_PCR_SELECTION_Marshal TPMS_PCR_SELECTION_Unmarshal TPMS_PCR_SELECTION_ok 6"
proof -
  have sel: "codec (\<lambda>(n, d). andM (UINT8_Marshal n) (sized_Array_Marshal (unat n) d))
      (\<lambda>bs. bindU (checked UINT8_Unmarshal (\<lambda>n. 3 \<le> n \<and> n \<le> 3) TPM_RC_VALUE bs) (\<lambda>y bs.
            bindU (Array_Unmarshal (unat y) bs) (\<lambda>z bs. Inr ((y, z), bs))))
      (\<lambda>(n, d). (3 \<le> n \<and> n \<le> 3) \<and> length d = unat n) (1 + 3)"
    by (rule codec_pair [OF codec_checked_any [OF codec_UINT8]], rule codec_weaken [OF codec_sized_Array])
       (auto simp: word_le_nat_alt)
  show ?thesis
    by (rule codec_struct2 [where C = "\<lambda>x p. \<lparr>sel_hash = x, sizeofSelect = fst p, pcrSelect = snd p\<rparr>",
          OF codec_TPMI_ALG_HASH [of False] sel])
       (auto simp: TPMS_PCR_SELECTION_Marshal_def TPMS_PCR_SELECTION_Unmarshal_def TPMS_PCR_SELECTION_ok_def
          bindU_assoc TPMI_ALG_HASH_ok_def word_le_nat_alt word_unat_eq_iff intro: TPMS_PCR_SELECTION.cases)
qed

section \<open>Tickets\<close>

text \<open>A ticket carries the structure tag of its kind.\<close>

record ticket =
  tk_tag :: UINT16
  tk_hierarchy :: TPM_HANDLE
  tk_digest :: "BYTE list"

definition ticket_ok :: "UINT16 set \<Rightarrow> ticket \<Rightarrow> bool" where
  "ticket_ok tags s \<longleftrightarrow>
     tk_tag s \<in> tags \<and> TPMI_RH_HIERARCHY_ok True (tk_hierarchy s) \<and> length (tk_digest s) \<le> 64"

lemma codec_TPM_ST_tag:
  "(\<And>x. Q x \<Longrightarrow> TPM_ST_ok x) \<Longrightarrow> codec TPM_ST_Marshal (checked TPM_ST_Unmarshal Q rc) Q 2"
  by (rule codec_weaken [OF codec_checked [OF codec_TPM_ST]]) auto

definition TPMT_TK_CREATION_Marshal :: "ticket \<Rightarrow> marshaler" where
  "TPMT_TK_CREATION_Marshal s =
     andM (TPM_ST_Marshal (tk_tag s)) (andM (TPMI_RH_HIERARCHY_Marshal (tk_hierarchy s)) (TPM2B_DIGEST_Marshal (tk_digest s)))"

definition TPMT_TK_CREATION_Unmarshal :: "ticket unmarshaler" where
  "TPMT_TK_CREATION_Unmarshal bs =
     bindU (checked TPM_ST_Unmarshal (\<lambda>tag. tag = TPM_ST_CREATION) TPM_RC_TAG bs) (\<lambda>x bs.
     bindU (TPMI_RH_HIERARCHY_Unmarshal True bs) (\<lambda>y bs.
     bindU (TPM2B_DIGEST_Unmarshal bs) (\<lambda>z bs.
       Inr (\<lparr>tk_tag = x, tk_hierarchy = y, tk_digest = z\<rparr>, bs))))"

lemma codec_TPMT_TK_CREATION: "codec TPMT_TK_CREATION_Marshal TPMT_TK_CREATION_Unmarshal (ticket_ok {TPM_ST_CREATION}) 72"
  by (rule codec_struct3 [where C = "\<lambda>x y z. \<lparr>tk_tag = x, tk_hierarchy = y, tk_digest = z\<rparr>",
      OF codec_TPM_ST_tag [of "\<lambda>tag. tag = TPM_ST_CREATION"] codec_TPMI_RH_HIERARCHY [of True] codec_TPM2B_DIGEST])
     (auto simp: TPMT_TK_CREATION_Marshal_def TPMT_TK_CREATION_Unmarshal_def ticket_ok_def TPM_ST_ok_def intro: ticket.cases)

definition TPMT_TK_VERIFIED_Marshal :: "ticket \<Rightarrow> marshaler" where
  "TPMT_TK_VERIFIED_Marshal s =
     andM (TPM_ST_Marshal (tk_tag s)) (andM (TPMI_RH_HIERARCHY_Marshal (tk_hierarchy s)) (TPM2B_DIGEST_Marshal (tk_digest s)))"

definition TPMT_TK_VERIFIED_Unmarshal :: "ticket unmarshaler" where
  "TPMT_TK_VERIFIED_Unmarshal bs =
     bindU (checked TPM_ST_Unmarshal (\<lambda>tag. tag = TPM_ST_VERIFIED) TPM_RC_TAG bs) (\<lambda>x bs.
     bindU (TPMI_RH_HIERARCHY_Unmarshal True bs) (\<lambda>y bs.
     bindU (TPM2B_DIGEST_Unmarshal bs) (\<lambda>z bs.
       Inr (\<lparr>tk_tag = x, tk_hierarchy = y, tk_digest = z\<rparr>, bs))))"

lemma codec_TPMT_TK_VERIFIED: "codec TPMT_TK_VERIFIED_Marshal TPMT_TK_VERIFIED_Unmarshal (ticket_ok {TPM_ST_VERIFIED}) 72"
  by (rule codec_struct3 [where C = "\<lambda>x y z. \<lparr>tk_tag = x, tk_hierarchy = y, tk_digest = z\<rparr>",
      OF codec_TPM_ST_tag [of "\<lambda>tag. tag = TPM_ST_VERIFIED"] codec_TPMI_RH_HIERARCHY [of True] codec_TPM2B_DIGEST])
     (auto simp: TPMT_TK_VERIFIED_Marshal_def TPMT_TK_VERIFIED_Unmarshal_def ticket_ok_def TPM_ST_ok_def intro: ticket.cases)

definition TPMT_TK_AUTH_Marshal :: "ticket \<Rightarrow> marshaler" where
  "TPMT_TK_AUTH_Marshal s =
     andM (TPM_ST_Marshal (tk_tag s)) (andM (TPMI_RH_HIERARCHY_Marshal (tk_hierarchy s)) (TPM2B_DIGEST_Marshal (tk_digest s)))"

definition TPMT_TK_AUTH_Unmarshal :: "ticket unmarshaler" where
  "TPMT_TK_AUTH_Unmarshal bs =
     bindU (checked TPM_ST_Unmarshal (\<lambda>tag. tag = TPM_ST_AUTH_SIGNED \<or> tag = TPM_ST_AUTH_SECRET) TPM_RC_TAG bs) (\<lambda>x bs.
     bindU (TPMI_RH_HIERARCHY_Unmarshal True bs) (\<lambda>y bs.
     bindU (TPM2B_DIGEST_Unmarshal bs) (\<lambda>z bs.
       Inr (\<lparr>tk_tag = x, tk_hierarchy = y, tk_digest = z\<rparr>, bs))))"

lemma codec_TPMT_TK_AUTH: "codec TPMT_TK_AUTH_Marshal TPMT_TK_AUTH_Unmarshal (ticket_ok {TPM_ST_AUTH_SIGNED, TPM_ST_AUTH_SECRET}) 72"
  by (rule codec_struct3 [where C = "\<lambda>x y z. \<lparr>tk_tag = x, tk_hierarchy = y, tk_digest = z\<rparr>",
      OF codec_TPM_ST_tag [of "\<lambda>tag. tag = TPM_ST_AUTH_SIGNED \<or> tag = TPM_ST_AUTH_SECRET"] codec_TPMI_RH_HIERARCHY [of True] codec_TPM2B_DIGEST])
     (auto simp: TPMT_TK_AUTH_Marshal_def TPMT_TK_AUTH_Unmarshal_def ticket_ok_def TPM_ST_ok_def intro: ticket.cases)

definition TPMT_TK_HASHCHECK_Marshal :: "ticket \<Rightarrow> marshaler" where
  "TPMT_TK_HASHCHECK_Marshal s =
     andM (TPM_ST_Marshal (tk_tag s)) (andM (TPMI_RH_HIERARCHY_Marshal (tk_hierarchy s)) (TPM2B_DIGEST_Marshal (tk_digest s)))"

definition TPMT_TK_HASHCHECK_Unmarshal :: "ticket unmarshaler" where
  "TPMT_TK_HASHCHECK_Unmarshal bs =
     bindU (checked TPM_ST_Unmarshal (\<lambda>tag. tag = TPM_ST_HASHCHECK) TPM_RC_TAG bs) (\<lambda>x bs.
     bindU (TPMI_RH_HIERARCHY_Unmarshal True bs) (\<lambda>y bs.
     bindU (TPM2B_DIGEST_Unmarshal bs) (\<lambda>z bs.
       Inr (\<lparr>tk_tag = x, tk_hierarchy = y, tk_digest = z\<rparr>, bs))))"

lemma codec_TPMT_TK_HASHCHECK: "codec TPMT_TK_HASHCHECK_Marshal TPMT_TK_HASHCHECK_Unmarshal (ticket_ok {TPM_ST_HASHCHECK}) 72"
  by (rule codec_struct3 [where C = "\<lambda>x y z. \<lparr>tk_tag = x, tk_hierarchy = y, tk_digest = z\<rparr>",
      OF codec_TPM_ST_tag [of "\<lambda>tag. tag = TPM_ST_HASHCHECK"] codec_TPMI_RH_HIERARCHY [of True] codec_TPM2B_DIGEST])
     (auto simp: TPMT_TK_HASHCHECK_Marshal_def TPMT_TK_HASHCHECK_Unmarshal_def ticket_ok_def TPM_ST_ok_def intro: ticket.cases)

section \<open>Properties, clock and contexts\<close>

record TPMS_ALG_PROPERTY =
  alg :: TPM_ALG_ID
  algProperties :: UINT32

definition TPMS_ALG_PROPERTY_ok :: "TPMS_ALG_PROPERTY \<Rightarrow> bool" where
  "TPMS_ALG_PROPERTY_ok s \<longleftrightarrow>
     TPMA_ALGORITHM_ok (algProperties s)"

definition TPMS_ALG_PROPERTY_Marshal :: "TPMS_ALG_PROPERTY \<Rightarrow> marshaler" where
  "TPMS_ALG_PROPERTY_Marshal s =
     andM (TPM_ALG_ID_Marshal (alg s)) (TPMA_ALGORITHM_Marshal (algProperties s))"

definition TPMS_ALG_PROPERTY_Unmarshal :: "TPMS_ALG_PROPERTY unmarshaler" where
  "TPMS_ALG_PROPERTY_Unmarshal bs =
     bindU (TPM_ALG_ID_Unmarshal bs) (\<lambda>x bs.
     bindU (TPMA_ALGORITHM_Unmarshal bs) (\<lambda>y bs.
       Inr (\<lparr>alg = x, algProperties = y\<rparr>, bs)))"

lemma codec_TPMS_ALG_PROPERTY: "codec TPMS_ALG_PROPERTY_Marshal TPMS_ALG_PROPERTY_Unmarshal TPMS_ALG_PROPERTY_ok 6"
  by (rule codec_struct2 [where C = "\<lambda>x y. \<lparr>alg = x, algProperties = y\<rparr>",
      OF codec_TPM_ALG_ID codec_TPMA_ALGORITHM])
     (simp_all add: TPMS_ALG_PROPERTY_Marshal_def TPMS_ALG_PROPERTY_Unmarshal_def TPMS_ALG_PROPERTY_ok_def, meson TPMS_ALG_PROPERTY.cases)

record TPMS_TAGGED_PROPERTY =
  prop_tag :: UINT32
  prop_value :: UINT32

definition TPMS_TAGGED_PROPERTY_ok :: "TPMS_TAGGED_PROPERTY \<Rightarrow> bool" where
  "TPMS_TAGGED_PROPERTY_ok s \<longleftrightarrow>
     True"

definition TPMS_TAGGED_PROPERTY_Marshal :: "TPMS_TAGGED_PROPERTY \<Rightarrow> marshaler" where
  "TPMS_TAGGED_PROPERTY_Marshal s =
     andM (TPM_PT_Marshal (prop_tag s)) (UINT32_Marshal (prop_value s))"

definition TPMS_TAGGED_PROPERTY_Unmarshal :: "TPMS_TAGGED_PROPERTY unmarshaler" where
  "TPMS_TAGGED_PROPERTY_Unmarshal bs =
     bindU (TPM_PT_Unmarshal bs) (\<lambda>x bs.
     bindU (UINT32_Unmarshal bs) (\<lambda>y bs.
       Inr (\<lparr>prop_tag = x, prop_value = y\<rparr>, bs)))"

lemma codec_TPMS_TAGGED_PROPERTY: "codec TPMS_TAGGED_PROPERTY_Marshal TPMS_TAGGED_PROPERTY_Unmarshal TPMS_TAGGED_PROPERTY_ok 8"
  by (rule codec_struct2 [where C = "\<lambda>x y. \<lparr>prop_tag = x, prop_value = y\<rparr>",
      OF codec_TPM_PT codec_UINT32])
     (simp_all add: TPMS_TAGGED_PROPERTY_Marshal_def TPMS_TAGGED_PROPERTY_Unmarshal_def TPMS_TAGGED_PROPERTY_ok_def, meson TPMS_TAGGED_PROPERTY.cases)

text \<open>The context structure with the members that the session management does not look at.\<close>

record TPMS_CONTEXT_full = TPMS_CONTEXT +
  context_hierarchy :: TPM_HANDLE
  contextBlob :: "BYTE list"

definition TPMS_CONTEXT_ok :: "TPMS_CONTEXT_full \<Rightarrow> bool" where
  "TPMS_CONTEXT_ok s \<longleftrightarrow>
     TPMI_DH_SAVED_ok False (savedHandle s) \<and>
     TPMI_RH_HIERARCHY_ok True (context_hierarchy s) \<and>
     length (contextBlob s) \<le> 2748"

definition TPMS_CONTEXT_Marshal :: "TPMS_CONTEXT_full \<Rightarrow> marshaler" where
  "TPMS_CONTEXT_Marshal s =
     andM (UINT64_Marshal (sequence s))
     (andM (TPMI_DH_SAVED_Marshal (savedHandle s))
     (andM (TPMI_RH_HIERARCHY_Marshal (context_hierarchy s)) (TPM2B_CONTEXT_DATA_Marshal (contextBlob s))))"

definition TPMS_CONTEXT_Unmarshal :: "TPMS_CONTEXT_full unmarshaler" where
  "TPMS_CONTEXT_Unmarshal bs =
     bindU (UINT64_Unmarshal bs) (\<lambda>x bs.
     bindU (TPMI_DH_SAVED_Unmarshal False bs) (\<lambda>y bs.
     bindU (TPMI_RH_HIERARCHY_Unmarshal True bs) (\<lambda>z bs.
     bindU (TPM2B_CONTEXT_DATA_Unmarshal bs) (\<lambda>v bs.
       Inr (\<lparr>sequence = x, savedHandle = y, context_hierarchy = z, contextBlob = v\<rparr>, bs)))))"

lemma codec_TPMS_CONTEXT: "codec TPMS_CONTEXT_Marshal TPMS_CONTEXT_Unmarshal TPMS_CONTEXT_ok 2766"
  by (rule codec_struct4 [where C = "\<lambda>x y z v. \<lparr>sequence = x, savedHandle = y, context_hierarchy = z, contextBlob = v\<rparr>",
      OF codec_UINT64 codec_TPMI_DH_SAVED [of False] codec_TPMI_RH_HIERARCHY [of True] codec_TPM2B_CONTEXT_DATA])
     (simp_all add: TPMS_CONTEXT_Marshal_def TPMS_CONTEXT_Unmarshal_def TPMS_CONTEXT_ok_def, meson TPMS_CONTEXT_full.cases)

section \<open>Lists\<close>

definition TPML_CC_Marshal :: "TPM_CC list \<Rightarrow> marshaler" where
  "TPML_CC_Marshal = TPML_Marshal TPM_CC_Marshal"

definition TPML_CC_Unmarshal :: "TPM_CC list unmarshaler" where
  "TPML_CC_Unmarshal = TPML_Unmarshal TPM_CC_Unmarshal 0 254"

lemma codec_TPML_CC: "codec TPML_CC_Marshal TPML_CC_Unmarshal
    (\<lambda>xs. length xs \<le> 254) 1020"
  unfolding TPML_CC_Marshal_def TPML_CC_Unmarshal_def
  using codec_TPML [OF codec_TPM_CC, of 0 254] by simp

definition TPML_CCA_Marshal :: "UINT32 list \<Rightarrow> marshaler" where
  "TPML_CCA_Marshal = TPML_Marshal TPMA_CC_Marshal"

definition TPML_CCA_Unmarshal :: "UINT32 list unmarshaler" where
  "TPML_CCA_Unmarshal = TPML_Unmarshal TPMA_CC_Unmarshal 0 254"

lemma codec_TPML_CCA: "codec TPML_CCA_Marshal TPML_CCA_Unmarshal
    (\<lambda>xs. length xs \<le> 254 \<and> (\<forall>x \<in> set xs. TPMA_CC_ok x)) 1020"
  unfolding TPML_CCA_Marshal_def TPML_CCA_Unmarshal_def
  using codec_TPML [OF codec_TPMA_CC, of 0 254] by simp

definition TPML_ALG_Marshal :: "TPM_ALG_ID list \<Rightarrow> marshaler" where
  "TPML_ALG_Marshal = TPML_Marshal TPM_ALG_ID_Marshal"

definition TPML_ALG_Unmarshal :: "TPM_ALG_ID list unmarshaler" where
  "TPML_ALG_Unmarshal = TPML_Unmarshal TPM_ALG_ID_Unmarshal 0 64"

lemma codec_TPML_ALG: "codec TPML_ALG_Marshal TPML_ALG_Unmarshal
    (\<lambda>xs. length xs \<le> 64) 132"
  unfolding TPML_ALG_Marshal_def TPML_ALG_Unmarshal_def
  using codec_TPML [OF codec_TPM_ALG_ID, of 0 64] by simp

definition TPML_HANDLE_Marshal :: "TPM_HANDLE list \<Rightarrow> marshaler" where
  "TPML_HANDLE_Marshal = TPML_Marshal TPM_HANDLE_Marshal"

definition TPML_HANDLE_Unmarshal :: "TPM_HANDLE list unmarshaler" where
  "TPML_HANDLE_Unmarshal = TPML_Unmarshal TPM_HANDLE_Unmarshal 0 254"

lemma codec_TPML_HANDLE: "codec TPML_HANDLE_Marshal TPML_HANDLE_Unmarshal
    (\<lambda>xs. length xs \<le> 254) 1020"
  unfolding TPML_HANDLE_Marshal_def TPML_HANDLE_Unmarshal_def
  using codec_TPML [OF codec_TPM_HANDLE, of 0 254] by simp

definition TPML_DIGEST_Marshal :: "BYTE list list \<Rightarrow> marshaler" where
  "TPML_DIGEST_Marshal = TPML_Marshal TPM2B_DIGEST_Marshal"

definition TPML_DIGEST_Unmarshal :: "BYTE list list unmarshaler" where
  "TPML_DIGEST_Unmarshal = TPML_Unmarshal TPM2B_DIGEST_Unmarshal 2 8"

lemma codec_TPML_DIGEST: "codec TPML_DIGEST_Marshal TPML_DIGEST_Unmarshal
    (\<lambda>xs. 2 \<le> length xs \<and> length xs \<le> 8 \<and> (\<forall>x \<in> set xs. (\<lambda>b. length b \<le> 64) x)) 532"
  unfolding TPML_DIGEST_Marshal_def TPML_DIGEST_Unmarshal_def
  using codec_TPML [OF codec_TPM2B_DIGEST, of 2 8] by simp

definition TPML_DIGEST_VALUES_Marshal :: "TPMT_HA list \<Rightarrow> marshaler" where
  "TPML_DIGEST_VALUES_Marshal = TPML_Marshal TPMT_HA_Marshal"

definition TPML_DIGEST_VALUES_Unmarshal :: "TPMT_HA list unmarshaler" where
  "TPML_DIGEST_VALUES_Unmarshal = TPML_Unmarshal (TPMT_HA_Unmarshal False) 0 4"

lemma codec_TPML_DIGEST_VALUES: "codec TPML_DIGEST_VALUES_Marshal TPML_DIGEST_VALUES_Unmarshal
    (\<lambda>xs. length xs \<le> 4 \<and> (\<forall>x \<in> set xs. TPMT_HA_ok False x)) 268"
  unfolding TPML_DIGEST_VALUES_Marshal_def TPML_DIGEST_VALUES_Unmarshal_def
  using codec_TPML [OF codec_TPMT_HA [of False], of 0 4] by simp

definition TPML_PCR_SELECTION_Marshal :: "TPMS_PCR_SELECTION list \<Rightarrow> marshaler" where
  "TPML_PCR_SELECTION_Marshal = TPML_Marshal TPMS_PCR_SELECTION_Marshal"

definition TPML_PCR_SELECTION_Unmarshal :: "TPMS_PCR_SELECTION list unmarshaler" where
  "TPML_PCR_SELECTION_Unmarshal = TPML_Unmarshal TPMS_PCR_SELECTION_Unmarshal 0 4"

lemma codec_TPML_PCR_SELECTION: "codec TPML_PCR_SELECTION_Marshal TPML_PCR_SELECTION_Unmarshal
    (\<lambda>xs. length xs \<le> 4 \<and> (\<forall>x \<in> set xs. TPMS_PCR_SELECTION_ok x)) 28"
  unfolding TPML_PCR_SELECTION_Marshal_def TPML_PCR_SELECTION_Unmarshal_def
  using codec_TPML [OF codec_TPMS_PCR_SELECTION, of 0 4] by simp

end
