(* ===== verification/FTPM_PCR.thy ===== *)
theory FTPM_PCR
  imports FTPM_NVCommands_Spec FTPM_Marshal_Struct
begin

unbundle bit_operations_syntax

text \<open>
  Platform configuration registers: \<^verbatim>\<open>PCR.c\<close>, the platform table of
  \<^verbatim>\<open>PlatformPCR.c\<close> and the commands of \<^verbatim>\<open>IntegrityCommands.c\<close>.

  A register is an octet array inside \<^verbatim>\<open>s_pcrs\<close>, one for each PCR number and hash
  algorithm.  A pointer to it is the pair of the algorithm and the number, and
  \<open>s_pcrs st p\<close> is what it points to; the saved registers are reached the same way.
  The loops over registers and banks are folds that stop at the first failure.
\<close>

section \<open>Constants\<close>

abbreviation (input) IMPLEMENTATION_PCR :: nat where "IMPLEMENTATION_PCR \<equiv> 24"
abbreviation (input) NUM_STATIC_PCR :: nat where "NUM_STATIC_PCR \<equiv> 16"
abbreviation (input) PCR_SELECT_MAX :: nat where "PCR_SELECT_MAX \<equiv> 3"
abbreviation (input) HCRTM_PCR :: nat where "HCRTM_PCR \<equiv> 0"
abbreviation (input) DRTM_PCR :: nat where "DRTM_PCR \<equiv> 17"
abbreviation (input) HASH_COUNT :: nat where "HASH_COUNT \<equiv> 4"
abbreviation (input) NUM_POLICY_PCR_GROUP :: nat where "NUM_POLICY_PCR_GROUP \<equiv> 1"
abbreviation (input) NUM_AUTHVALUE_PCR_GROUP :: nat where "NUM_AUTHVALUE_PCR_GROUP \<equiv> 1"
abbreviation (input) MAX_PCR_PROPERTIES :: nat where "MAX_PCR_PROPERTIES \<equiv> 127"
abbreviation (input) TPM_PT_PCR_LAST :: nat where "TPM_PT_PCR_LAST \<equiv> 0x14"
abbreviation (input) PCR_LAST :: nat where "PCR_LAST \<equiv> 23"
abbreviation (input) TPM_RC_LOCALITY :: TPM_RC where "TPM_RC_LOCALITY \<equiv> 0x907"
abbreviation (input) TPM_RC_PCR :: TPM_RC where "TPM_RC_PCR \<equiv> 0x127"
abbreviation (input) RC_PARAMETER_3 :: TPM_RC where "RC_PARAMETER_3 \<equiv> 0x340"
abbreviation (input) TPM_SU_CLEAR :: UINT16 where "TPM_SU_CLEAR \<equiv> 0"
abbreviation (input) TPM_SU_STATE :: UINT16 where "TPM_SU_STATE \<equiv> 1"

text \<open>A loop whose body may fail.\<close>

primrec foldE :: "('a \<Rightarrow> 's \<Rightarrow> 's fallible) \<Rightarrow> 'a list \<Rightarrow> 's \<Rightarrow> 's fallible" where
  "foldE f [] s = Inr s"
| "foldE f (x # xs) s = bindE (f x s) (foldE f xs)"

text \<open>The hash algorithms in the order of \<^verbatim>\<open>HashDefArray\<close>.\<close>

definition HashDefArray :: "TPM_ALG_ID list" where
  "HashDefArray = [TPM_ALG_SHA1, TPM_ALG_SHA256, TPM_ALG_SHA384, TPM_ALG_SHA512]"

definition CryptHashGetAlgByIndex :: "nat \<Rightarrow> TPM_ALG_ID" where
  "CryptHashGetAlgByIndex index = (if index \<ge> HASH_COUNT then TPM_ALG_NULL else HashDefArray ! index)"

section \<open>The platform: PlatformPCR.c\<close>

record PCR_Attributes =
  stateSave :: bool
  doNotIncrementPcrCounter :: bool
  policyAuthGroup :: nat
  authValuesGroup :: nat
  resetLocality :: UINT8
  extendLocality :: UINT8

definition pcr_attributes :: "bool \<Rightarrow> bool \<Rightarrow> nat \<Rightarrow> nat \<Rightarrow> UINT8 \<Rightarrow> UINT8 \<Rightarrow> PCR_Attributes" where
  "pcr_attributes save noinc policy auth rst ext =
     \<lparr>stateSave = save, doNotIncrementPcrCounter = noinc, policyAuthGroup = policy, authValuesGroup = auth,
      resetLocality = rst, extendLocality = ext\<rparr>"

definition s_initAttributes :: "PCR_Attributes list" where
  "s_initAttributes =
     replicate 16 (pcr_attributes True False 0 0 0 0x1F) @
     [pcr_attributes False True 0 0 0x0F 0x1F,
      pcr_attributes False False 0 0 0x10 0x1C,
      pcr_attributes False False 0 0 0x10 0x1C,
      pcr_attributes False False 0 0 0x10 0x0C,
      pcr_attributes False False 0 0 0x1C 0x0E,
      pcr_attributes False True 0 0 0x1C 0x04,
      pcr_attributes False True 0 0 0x1C 0x04,
      pcr_attributes False True 0 0 0x0F 0x1F]"

definition DefaultActivePcrBanks :: "TPM_ALG_ID list" where
  "DefaultActivePcrBanks = [TPM_ALG_SHA256, TPM_ALG_SHA384]"

definition platPcr_NumberOfPcrs :: nat where
  "platPcr_NumberOfPcrs = length s_initAttributes"

definition platPcr_GetPcrInitializationAttributes :: "nat \<Rightarrow> PCR_Attributes" where
  "platPcr_GetPcrInitializationAttributes pcrNumber =
     s_initAttributes ! (if pcrNumber \<ge> platPcr_NumberOfPcrs then 0 else pcrNumber)"

definition platPcr_IsPcrBankDefaultActive :: "TPM_ALG_ID \<Rightarrow> bool" where
  "platPcr_IsPcrBankDefaultActive pcrAlg \<longleftrightarrow> pcrAlg \<in> set DefaultActivePcrBanks"

text \<open>Stores into an octet array: \<open>n\<close> equal octets at its start, and one octet.\<close>

definition mem_fill :: "BYTE \<Rightarrow> nat \<Rightarrow> BYTE list \<Rightarrow> BYTE list fallible" where
  "mem_fill v n d = (if n \<le> length d then Inr (replicate n v @ drop n d) else Inl OUT_OF_BOUNDS)"

definition mem_store :: "nat \<Rightarrow> BYTE \<Rightarrow> BYTE list \<Rightarrow> BYTE list fallible" where
  "mem_store i v d = (if i < length d then Inr (d[i := v]) else Inl OUT_OF_BOUNDS)"

definition platPcr_GetInitialValueForPcr ::
  "nat \<Rightarrow> TPM_ALG_ID \<Rightarrow> BYTE \<Rightarrow> BYTE list \<Rightarrow> nat \<Rightarrow> (TPM_RC \<times> BYTE list \<times> nat) fallible" where
  "platPcr_GetInitialValueForPcr pcrNumber pcrAlg startupLocality pcrData bufferSize =
     (let pcrSize = CryptHashGetDigestSize pcrAlg in
      if \<not> pcrNumber < platPcr_NumberOfPcrs then Inl FATAL_ERROR_ASSERT
      else if \<not> bufferSize \<ge> pcrSize then Inl FATAL_ERROR_ASSERT
      else let pcrAttributes = platPcr_GetPcrInitializationAttributes pcrNumber;
               defaultValue = (if resetLocality pcrAttributes AND 0x10 \<noteq> 0 then 0xFF else 0) in
        bindE (mem_fill defaultValue pcrSize pcrData) (\<lambda>pcrData.
        bindE (if pcrNumber = HCRTM_PCR then mem_store (pcrSize - 1) startupLocality pcrData else Inr pcrData) (\<lambda>pcrData.
        Inr (TPM_RC_SUCCESS, pcrData, pcrSize))))"

section \<open>State\<close>

type_synonym pcr_pointer = "TPM_ALG_ID \<times> nat"

record pcr_state =
  s_pcrs :: "pcr_pointer \<Rightarrow> BYTE list"
  pcrSave :: "pcr_pointer \<Rightarrow> BYTE list"
  pcrAllocated :: "TPMS_PCR_SELECTION list"
  nv_pcrAllocated :: "TPMS_PCR_SELECTION list"
  pcrPolicies :: "(TPM_ALG_ID \<times> BYTE list) list"
  nv_pcrPolicies :: "(TPM_ALG_ID \<times> BYTE list) list"
  pcrAuthValues :: "BYTE list list"
  pcrCounter :: UINT32
  g_pcrReConfig :: bool
  g_DrtmPreStartup :: bool

definition pcr_put :: "pcr_pointer \<Rightarrow> BYTE list \<Rightarrow> pcr_state \<Rightarrow> pcr_state" where
  "pcr_put p d st = st\<lparr>s_pcrs := (s_pcrs st)(p := d)\<rparr>"

section \<open>Groups, authorization values and policies\<close>

definition PCRBelongsAuthGroup :: "TPM_HANDLE \<Rightarrow> nat option fallible" where
  "PCRBelongsAuthGroup handle =
     (let currentPcrAttributes = platPcr_GetPcrInitializationAttributes (unat handle) in
      if authValuesGroup currentPcrAttributes \<noteq> 0
      then if authValuesGroup currentPcrAttributes - 1 < NUM_AUTHVALUE_PCR_GROUP
           then Inr (Some (authValuesGroup currentPcrAttributes - 1)) else Inl FATAL_ERROR_ASSERT
      else Inr None)"

definition PCRBelongsPolicyGroup :: "TPM_HANDLE \<Rightarrow> nat option fallible" where
  "PCRBelongsPolicyGroup handle =
     (let currentPcrAttributes = platPcr_GetPcrInitializationAttributes (unat handle) in
      if policyAuthGroup currentPcrAttributes \<noteq> 0
      then if policyAuthGroup currentPcrAttributes - 1 < NUM_POLICY_PCR_GROUP
           then Inr (Some (policyAuthGroup currentPcrAttributes - 1)) else Inl FATAL_ERROR_ASSERT
      else Inr None)"

definition PCRBelongsTCBGroup :: "TPM_HANDLE \<Rightarrow> bool" where
  "PCRBelongsTCBGroup handle \<longleftrightarrow> doNotIncrementPcrCounter (platPcr_GetPcrInitializationAttributes (unat handle))"

definition PCRPolicyIsAvailable :: "TPM_HANDLE \<Rightarrow> bool fallible" where
  "PCRPolicyIsAvailable handle = bindE (PCRBelongsPolicyGroup handle) (\<lambda>g. Inr (g \<noteq> None))"

definition PCRGetAuthValue :: "TPM_HANDLE \<Rightarrow> pcr_state \<Rightarrow> BYTE list option fallible" where
  "PCRGetAuthValue handle st =
     bindE (PCRBelongsAuthGroup handle) (\<lambda>g.
       case g of Some groupIndex \<Rightarrow> Inr (Some (pcrAuthValues st ! groupIndex)) | None \<Rightarrow> Inr None)"

definition PCRGetAuthPolicy :: "TPM_HANDLE \<Rightarrow> pcr_state \<Rightarrow> (TPM_ALG_ID \<times> BYTE list) fallible" where
  "PCRGetAuthPolicy handle st =
     bindE (PCRBelongsPolicyGroup handle) (\<lambda>g.
       case g of Some groupIndex \<Rightarrow> Inr (pcrPolicies st ! groupIndex) | None \<Rightarrow> Inr (TPM_ALG_NULL, []))"

definition PCRManufacture :: "pcr_state \<Rightarrow> pcr_state" where
  "PCRManufacture st =
     (let policies = replicate NUM_POLICY_PCR_GROUP (TPM_ALG_NULL, []);
          allocated = map (\<lambda>i. let currentBank = CryptHashGetAlgByIndex i;
                                   isBankActive = platPcr_IsPcrBankDefaultActive currentBank in
                             \<lparr>sel_hash = currentBank, sizeofSelect = 3,
                              pcrSelect = replicate PCR_SELECT_MAX (if isBankActive then 0xFF else 0)\<rparr>) [0..<HASH_COUNT] in
      st\<lparr>pcrPolicies := policies, pcrAuthValues := replicate NUM_AUTHVALUE_PCR_GROUP [], pcrAllocated := allocated,
         nv_pcrPolicies := policies, nv_pcrAllocated := allocated\<rparr>)"

section \<open>Access to registers\<close>

definition GetSavedPcrPointer :: "TPM_ALG_ID \<Rightarrow> nat \<Rightarrow> pcr_pointer fallible" where
  "GetSavedPcrPointer bank pcrIndex =
     (if bank \<in> set HashDefArray
      then if pcrIndex < NUM_STATIC_PCR then Inr (bank, pcrIndex) else Inl OUT_OF_BOUNDS
      else Inl FATAL_ERROR_INTERNAL)"

definition pcr_bit :: "nat \<Rightarrow> TPMS_PCR_SELECTION \<Rightarrow> bool" where
  "pcr_bit pcr selection \<longleftrightarrow> (pcrSelect selection ! (pcr div 8)) AND push_bit (pcr mod 8) 1 \<noteq> 0"

definition PcrIsAllocated :: "pcr_state \<Rightarrow> nat \<Rightarrow> TPM_ALG_ID \<Rightarrow> bool" where
  "PcrIsAllocated st pcr hashAlg \<longleftrightarrow>
     pcr < IMPLEMENTATION_PCR \<and>
     (case find (\<lambda>s. sel_hash s = hashAlg) (pcrAllocated st) of None \<Rightarrow> False | Some s \<Rightarrow> pcr_bit pcr s)"

definition GetPcrPointerFromPcrArray :: "TPM_ALG_ID \<Rightarrow> nat \<Rightarrow> pcr_pointer fallible" where
  "GetPcrPointerFromPcrArray bank pcrNumber =
     (if bank = TPM_ALG_SHA1 \<or> bank = TPM_ALG_SHA256 \<or> bank = TPM_ALG_SHA384 \<or> bank = TPM_ALG_SHA512
      then Inr (bank, pcrNumber) else Inl FATAL_ERROR_INTERNAL)"

definition GetPcrPointerIfAllocated :: "pcr_state \<Rightarrow> TPM_ALG_ID \<Rightarrow> nat \<Rightarrow> pcr_pointer option fallible" where
  "GetPcrPointerIfAllocated st bank pcrNumber =
     (if \<not> PcrIsAllocated st pcrNumber bank then Inr None
      else bindE (GetPcrPointerFromPcrArray bank pcrNumber) (\<lambda>p. Inr (Some p)))"

definition GetPcrPointer :: "pcr_state \<Rightarrow> TPM_ALG_ID \<Rightarrow> nat \<Rightarrow> pcr_pointer option fallible" where
  "GetPcrPointer st bank pcrNumber = GetPcrPointerIfAllocated st bank pcrNumber"

definition IsPcrSelected :: "nat \<Rightarrow> TPMS_PCR_SELECTION \<Rightarrow> bool" where
  "IsPcrSelected pcr selection \<longleftrightarrow> pcr < IMPLEMENTATION_PCR \<and> pcr_bit pcr selection"

definition FilterPcr :: "pcr_state \<Rightarrow> TPMS_PCR_SELECTION \<Rightarrow> TPMS_PCR_SELECTION fallible" where
  "FilterPcr st selection =
     (let n = unat (sizeofSelect selection);
          allocated = find (\<lambda>s. sel_hash s = sel_hash selection) (pcrAllocated st) in
      if n > PCR_SELECT_MAX then Inl OUT_OF_BOUNDS
      else Inr (selection\<lparr>pcrSelect :=
        map (\<lambda>i. if i < n then (case allocated of None \<Rightarrow> 0 | Some a \<Rightarrow> (pcrSelect selection ! i) AND (pcrSelect a ! i)) else 0)
          [0..<PCR_SELECT_MAX]\<rparr>))"

section \<open>Changing registers\<close>

definition PCRChanged :: "TPM_HANDLE \<Rightarrow> pcr_state \<Rightarrow> pcr_state fallible" where
  "PCRChanged pcrHandle st =
     (if pcrHandle = 0 \<or> \<not> PCRBelongsTCBGroup pcrHandle
      then let st = st\<lparr>pcrCounter := pcrCounter st + 1\<rparr> in
           if pcrCounter st = 0 then Inl FATAL_ERROR_COUNTER_OVERFLOW else Inr st
      else Inr st)"

definition PCRExtend :: "hash_fun \<Rightarrow> TPM_HANDLE \<Rightarrow> TPM_ALG_ID \<Rightarrow> BYTE list \<Rightarrow> pcr_state \<Rightarrow> pcr_state fallible" where
  "PCRExtend hash handle bank data st =
     bindE (GetPcrPointer st bank (unat handle)) (\<lambda>pcrData.
     case pcrData of
       None \<Rightarrow> Inr st
     | Some p \<Rightarrow>
         let pcrSize = CryptHashGetDigestSize bank;
             new = hash bank (take pcrSize (s_pcrs st p) @ data)
         in PCRChanged handle (pcr_put p (take pcrSize new @ drop pcrSize (s_pcrs st p)) st))"

definition PcrDrtm :: "hash_fun \<Rightarrow> bool \<Rightarrow> TPM_HANDLE \<Rightarrow> TPM_ALG_ID \<Rightarrow> BYTE list \<Rightarrow> pcr_state \<Rightarrow> pcr_state fallible" where
  "PcrDrtm hash started pcrHandle bank digest st =
     bindE (GetPcrPointer st bank (unat pcrHandle)) (\<lambda>pcrData.
     case pcrData of
       None \<Rightarrow> Inr st
     | Some p \<Rightarrow>
         bindE (mem_fill 0 (length digest) (s_pcrs st p)) (\<lambda>d.
         bindE (if started then Inr d
                else if digest = [] then Inl OUT_OF_BOUNDS else mem_store (length digest - 1) 4 d) (\<lambda>d.
         PCRExtend hash pcrHandle bank digest (pcr_put p d st))))"

definition PCR_ClearAuth :: "pcr_state \<Rightarrow> pcr_state" where
  "PCR_ClearAuth st = st\<lparr>pcrAuthValues := replicate NUM_AUTHVALUE_PCR_GROUP []\<rparr>"

section \<open>Startup and state save\<close>

text \<open>One bank of one register in the loops of \<^verbatim>\<open>PCRStartup\<close> and \<^verbatim>\<open>PCRStateSave\<close>.\<close>

definition PCRStartup_bank :: "BYTE \<Rightarrow> nat \<Rightarrow> bool \<Rightarrow> nat \<Rightarrow> TPM_ALG_ID \<Rightarrow> pcr_state \<Rightarrow> pcr_state fallible" where
  "PCRStartup_bank locality pcr stateSaved saveIndex hash st =
     bindE (GetPcrPointer st hash pcr) (\<lambda>pcrData.
     case pcrData of
       None \<Rightarrow> Inr st
     | Some p \<Rightarrow>
         let pcrSize = CryptHashGetDigestSize hash in
         if stateSaved
         then bindE (GetSavedPcrPointer hash saveIndex) (\<lambda>q.
              Inr (pcr_put p (take pcrSize (pcrSave st q) @ drop pcrSize (s_pcrs st p)) st))
         else bindE (platPcr_GetInitialValueForPcr pcr hash locality (s_pcrs st p) pcrSize) (\<lambda>(rc, d, pcrLength).
              if \<not> (rc = TPM_RC_SUCCESS \<or> rc = TPM_RC_PCR) then Inl FATAL_ERROR_ASSERT
              else if rc = TPM_RC_SUCCESS \<and> pcrLength = pcrSize then Inr (pcr_put p d st)
              else bindE (mem_fill (if resetLocality (platPcr_GetPcrInitializationAttributes pcr) AND 0x10 \<noteq> 0 then 0xFF else 0)
                            pcrSize d) (\<lambda>d.
                   bindE (if pcr = HCRTM_PCR then mem_store (pcrSize - 1) locality d else Inr d) (\<lambda>d.
                   Inr (pcr_put p d st)))))"

definition PCRStartup_pcr :: "STARTUP_TYPE \<Rightarrow> BYTE \<Rightarrow> nat \<Rightarrow> nat \<times> pcr_state \<Rightarrow> (nat \<times> pcr_state) fallible" where
  "PCRStartup_pcr type locality pcr = (\<lambda>(saveIndex, st).
     let stateSaved = (type = SU_RESUME \<and> stateSave (platPcr_GetPcrInitializationAttributes pcr)) in
     bindE (if stateSaved then Inr st else PCRChanged (word_of_nat pcr) st) (\<lambda>st.
     if pcr = HCRTM_PCR \<and> type \<noteq> SU_RESUME \<and> g_DrtmPreStartup st then Inr (saveIndex, st)
     else bindE (foldE (\<lambda>s. PCRStartup_bank locality pcr stateSaved saveIndex (sel_hash s)) (pcrAllocated st) st) (\<lambda>st.
          Inr (saveIndex + (if stateSaved then 1 else 0), st))))"

definition PCRStartup :: "STARTUP_TYPE \<Rightarrow> BYTE \<Rightarrow> pcr_state \<Rightarrow> pcr_state fallible" where
  "PCRStartup type locality st =
     (let st = st\<lparr>g_pcrReConfig := False\<rparr>;
          st = (if type \<noteq> SU_RESUME \<and> type \<noteq> SU_RESTART then st\<lparr>pcrCounter := 0\<rparr> else st) in
      if platPcr_NumberOfPcrs \<noteq> IMPLEMENTATION_PCR then Inl FATAL_ERROR_ASSERT
      else bindE (foldE (PCRStartup_pcr type locality) [0..<IMPLEMENTATION_PCR] (0, st)) (\<lambda>(_, st).
           Inr (if type \<noteq> SU_RESUME then PCR_ClearAuth st else st)))"

definition PCRStateSave_bank :: "nat \<Rightarrow> bool \<Rightarrow> nat \<Rightarrow> TPM_ALG_ID \<Rightarrow> pcr_state \<Rightarrow> pcr_state fallible" where
  "PCRStateSave_bank pcr stateSaved saveIndex hash st =
     bindE (GetPcrPointer st hash pcr) (\<lambda>pcrData.
     case pcrData of
       None \<Rightarrow> Inr st
     | Some p \<Rightarrow>
         let pcrSize = CryptHashGetDigestSize hash in
         if stateSaved
         then bindE (GetSavedPcrPointer hash saveIndex) (\<lambda>q.
              Inr (st\<lparr>pcrSave := (pcrSave st)(q := take pcrSize (s_pcrs st p) @ drop pcrSize (pcrSave st q))\<rparr>))
         else Inr st)"

definition PCRStateSave_pcr :: "nat \<Rightarrow> nat \<times> pcr_state \<Rightarrow> (nat \<times> pcr_state) fallible" where
  "PCRStateSave_pcr pcr = (\<lambda>(saveIndex, st).
     let stateSaved = stateSave (platPcr_GetPcrInitializationAttributes pcr) in
     bindE (foldE (\<lambda>s. PCRStateSave_bank pcr stateSaved saveIndex (sel_hash s)) (pcrAllocated st) st) (\<lambda>st.
     Inr (saveIndex + (if stateSaved then 1 else 0), st)))"

definition PCRStateSave :: "UINT16 \<Rightarrow> pcr_state \<Rightarrow> pcr_state fallible" where
  "PCRStateSave type st =
     (if type = TPM_SU_CLEAR then Inr st
      else bindE (foldE PCRStateSave_pcr [0..<IMPLEMENTATION_PCR] (0, st)) (\<lambda>(_, st). Inr st))"

section \<open>Locality checks\<close>

definition PCRIsStateSaved :: "TPM_HANDLE \<Rightarrow> bool" where
  "PCRIsStateSaved handle \<longleftrightarrow> stateSave (platPcr_GetPcrInitializationAttributes (unat handle))"

text \<open>
  The one is promoted to a 32-bit integer before it is shifted, and the result is kept in
  eight bits.  \<^verbatim>\<open>_plat__LocalitySet\<close> lets the localities 32 to 255 through, where
  the shift has no defined result.
\<close>

definition LocalitySet :: "UINT8 \<Rightarrow> UINT8" where
  "LocalitySet locality = (if locality > 4 \<and> locality < 32 then 0 else locality)"

definition localityBits :: "UINT8 \<Rightarrow> UINT8 fallible" where
  "localityBits locality =
     (if locality < 32 then Inr (ucast (push_bit (unat locality) (1 :: UINT32))) else Inl UNDEFINED_SHIFT)"

definition PCRIsResetAllowed :: "UINT8 \<Rightarrow> TPM_HANDLE \<Rightarrow> bool fallible" where
  "PCRIsResetAllowed locality handle =
     (if locality = 4 then Inr False
      else bindE (localityBits locality) (\<lambda>bits.
           Inr (bits AND resetLocality (platPcr_GetPcrInitializationAttributes (unat handle)) \<noteq> 0)))"

definition PCRIsExtendAllowed :: "UINT8 \<Rightarrow> TPM_HANDLE \<Rightarrow> bool fallible" where
  "PCRIsExtendAllowed locality handle =
     bindE (localityBits locality) (\<lambda>bits.
     Inr (bits AND extendLocality (platPcr_GetPcrInitializationAttributes (unat handle)) \<noteq> 0))"

section \<open>Reading registers\<close>

text \<open>The octets that the digest of a selection is computed over, and the filtered selection.\<close>

definition PCRComputeCurrentDigest_pcr ::
  "pcr_state \<Rightarrow> TPMS_PCR_SELECTION \<Rightarrow> nat \<Rightarrow> BYTE list \<Rightarrow> BYTE list fallible" where
  "PCRComputeCurrentDigest_pcr st select pcr hashed =
     (if IsPcrSelected pcr select
      then bindE (GetPcrPointer st (sel_hash select) pcr) (\<lambda>pcrData.
           case pcrData of None \<Rightarrow> Inl FATAL_ERROR_PARAMETER
           | Some p \<Rightarrow> Inr (hashed @ take (CryptHashGetDigestSize (sel_hash select)) (s_pcrs st p)))
      else Inr hashed)"

definition PCRComputeCurrentDigest ::
  "hash_fun \<Rightarrow> TPM_ALG_ID \<Rightarrow> TPMS_PCR_SELECTION list \<Rightarrow> pcr_state \<Rightarrow> (TPMS_PCR_SELECTION list \<times> BYTE list) fallible" where
  "PCRComputeCurrentDigest hash hashAlg selection st =
     (if \<not> CryptHashGetDigestSize hashAlg > 0 then Inl FATAL_ERROR_PARAMETER
      else bindE (foldE (\<lambda>select (out, hashed).
             bindE (FilterPcr st select) (\<lambda>select.
             bindE (foldE (PCRComputeCurrentDigest_pcr st select) [0..<IMPLEMENTATION_PCR] hashed) (\<lambda>hashed.
             Inr (out @ [select], hashed)))) selection ([], []))
           (\<lambda>(out, hashed). Inr (out, hash hashAlg hashed)))"

definition PCRClearSelectBit :: "nat \<Rightarrow> TPMS_PCR_SELECTION \<Rightarrow> TPMS_PCR_SELECTION" where
  "PCRClearSelectBit pcr select =
     select\<lparr>pcrSelect := (pcrSelect select)[pcr div 8 := (pcrSelect select ! (pcr div 8)) AND NOT (push_bit (pcr mod 8) 1)]\<rparr>"

text \<open>
  The inner loops of \<^verbatim>\<open>PCRRead\<close> run over the PCR numbers that are left and also return the
  number at which they stop.
\<close>

primrec PCRRead_clear :: "nat list \<Rightarrow> TPMS_PCR_SELECTION \<Rightarrow> nat \<times> TPMS_PCR_SELECTION" where
  "PCRRead_clear [] select = (IMPLEMENTATION_PCR, select)"
| "PCRRead_clear (pcr # pcrs) select =
     (if pcr div 8 < unat (sizeofSelect select) then PCRRead_clear pcrs (PCRClearSelectBit pcr select) else (pcr, select))"

primrec PCRRead_select :: "pcr_state \<Rightarrow> nat list \<Rightarrow> TPMS_PCR_SELECTION \<Rightarrow> BYTE list list \<Rightarrow>
    (nat \<times> TPMS_PCR_SELECTION \<times> BYTE list list) fallible" where
  "PCRRead_select st [] select digests = Inr (IMPLEMENTATION_PCR, select, digests)"
| "PCRRead_select st (pcr # pcrs) select digests =
     (if IsPcrSelected pcr select
      then if length digests > 7
           then let (stop, select) = PCRRead_clear (pcr # pcrs) select in Inr (stop, select, digests)
           else bindE (GetPcrPointer st (sel_hash select) pcr) (\<lambda>pcrData.
                case pcrData of None \<Rightarrow> Inl FATAL_ERROR_PARAMETER
                | Some p \<Rightarrow> PCRRead_select st pcrs select
                    (digests @ [take (CryptHashGetDigestSize (sel_hash select)) (s_pcrs st p)]))
      else PCRRead_select st pcrs select digests)"

primrec PCRRead_list :: "pcr_state \<Rightarrow> TPMS_PCR_SELECTION list \<Rightarrow> BYTE list list \<Rightarrow>
    (TPMS_PCR_SELECTION list \<times> BYTE list list) fallible" where
  "PCRRead_list st [] digests = Inr ([], digests)"
| "PCRRead_list st (select # selects) digests =
     bindE (FilterPcr st select) (\<lambda>select.
     bindE (PCRRead_select st [0..<IMPLEMENTATION_PCR] select digests) (\<lambda>(pcr, select, digests).
     if length digests > 7 \<and> pcr < IMPLEMENTATION_PCR
     then Inr (map (\<lambda>s. s\<lparr>pcrSelect := replicate (unat (sizeofSelect s)) 0 @ drop (unat (sizeofSelect s)) (pcrSelect s)\<rparr>)
                 (select # selects), digests)
     else bindE (PCRRead_list st selects digests) (\<lambda>(out, digests). Inr (select # out, digests))))"

definition PCRRead :: "TPMS_PCR_SELECTION list \<Rightarrow> pcr_state \<Rightarrow> (TPMS_PCR_SELECTION list \<times> BYTE list list \<times> UINT32) fallible" where
  "PCRRead selection st =
     bindE (PCRRead_list st selection []) (\<lambda>(out, digests). Inr (out, digests, pcrCounter st))"

section \<open>Allocation and reset\<close>

text \<open>The entry of the same bank is replaced; there must be one.\<close>

primrec PCRAllocate_replace :: "TPMS_PCR_SELECTION \<Rightarrow> TPMS_PCR_SELECTION list \<Rightarrow> TPMS_PCR_SELECTION list fallible" where
  "PCRAllocate_replace new [] = Inl FATAL_ERROR_PARAMETER"
| "PCRAllocate_replace new (s # ss) =
     (if sel_hash s = sel_hash new then Inr (new # ss)
      else bindE (PCRAllocate_replace new ss) (\<lambda>ss. Inr (s # ss)))"

definition PCRAllocate_needed :: "TPMS_PCR_SELECTION \<Rightarrow> nat" where
  "PCRAllocate_needed s =
     CryptHashGetDigestSize (sel_hash s) *
       sum_list (map (\<lambda>b. length (filter (\<lambda>k. b AND push_bit k 1 \<noteq> 0) [0..<8])) (take (unat (sizeofSelect s)) (pcrSelect s)))"

definition orTest :: "bool \<Rightarrow> nat \<Rightarrow> TPMS_PCR_SELECTION \<Rightarrow> bool fallible" where
  "orTest b pcr s = (if b then Inr True else TestBit (word_of_nat pcr) (pcrSelect s) (ucast (sizeofSelect s)))"

definition PCRAllocate_count :: "TPMS_PCR_SELECTION \<Rightarrow> bool \<times> bool \<times> UINT32 \<Rightarrow> (bool \<times> bool \<times> UINT32) fallible" where
  "PCRAllocate_count s = (\<lambda>(pcrDrtm, pcrHcrtm, sizeNeeded).
     bindE (orTest pcrDrtm DRTM_PCR s) (\<lambda>pcrDrtm.
     bindE (orTest pcrHcrtm HCRTM_PCR s) (\<lambda>pcrHcrtm.
     Inr (pcrDrtm, pcrHcrtm, sizeNeeded + word_of_nat (PCRAllocate_needed s)))))"

definition PCRAllocate ::
  "TPMS_PCR_SELECTION list \<Rightarrow> pcr_state \<Rightarrow> nv_state \<Rightarrow> (TPM_RC \<times> UINT32 \<times> UINT32 \<times> UINT32 \<times> pcr_state \<times> nv_state) fallible" where
  "PCRAllocate allocate st nv =
     bindE (foldE PCRAllocate_replace allocate (pcrAllocated st)) (\<lambda>newAllocate.
     bindE (foldE PCRAllocate_count newAllocate (False, False, 0)) (\<lambda>(pcrDrtm, pcrHcrtm, sizeNeeded).
     let maxPCR = word_of_nat (min platPcr_NumberOfPcrs IMPLEMENTATION_PCR) in
     if \<not> pcrDrtm \<or> \<not> pcrHcrtm then Inr (TPM_RC_PCR, maxPCR, sizeNeeded, 0, st, nv)
     else Inr (TPM_RC_SUCCESS, maxPCR, sizeNeeded, 24 * (20 + 32 + 48 + 64),
               st\<lparr>nv_pcrAllocated := newAllocate\<rparr>, nv\<lparr>g_updateNV := g_updateNV nv OR UT_NV\<rparr>)))"

text \<open>The value is signed and extended into the whole register, here of one bank.\<close>

definition PCRSetValue_bank :: "TPM_HANDLE \<Rightarrow> 8 word \<Rightarrow> nat \<Rightarrow> pcr_state \<Rightarrow> pcr_state fallible" where
  "PCRSetValue_bank handle initialValue i st =
     (if i < length (pcrAllocated st)
      then bindE (GetPcrPointer st (sel_hash (pcrAllocated st ! i)) (unat handle)) (\<lambda>pcrData.
           case pcrData of
             None \<Rightarrow> Inr st
           | Some p \<Rightarrow>
               let digestSize = CryptHashGetDigestSize (CryptHashGetAlgByIndex i) in
               bindE (mem_store (digestSize - 1) initialValue (s_pcrs st p)) (\<lambda>d.
               bindE (mem_fill (if 0 \<le> sint initialValue then 0 else -1) (digestSize - 1) d) (\<lambda>d.
               Inr (pcr_put p d st))))
      else Inl OUT_OF_BOUNDS)"

definition PCRSetValue :: "TPM_HANDLE \<Rightarrow> 8 word \<Rightarrow> pcr_state \<Rightarrow> pcr_state fallible" where
  "PCRSetValue handle initialValue st = foldE (PCRSetValue_bank handle initialValue) [0..<HASH_COUNT] st"

definition PCRResetDynamics_bank :: "nat \<Rightarrow> TPM_ALG_ID \<Rightarrow> pcr_state \<Rightarrow> pcr_state fallible" where
  "PCRResetDynamics_bank pcr hash st =
     bindE (GetPcrPointer st hash pcr) (\<lambda>pcrData.
     case pcrData of
       None \<Rightarrow> Inr st
     | Some p \<Rightarrow>
         if resetLocality (platPcr_GetPcrInitializationAttributes pcr) AND 0x10 \<noteq> 0
         then bindE (mem_fill 0 (CryptHashGetDigestSize hash) (s_pcrs st p)) (\<lambda>d. Inr (pcr_put p d st))
         else Inr st)"

definition PCRResetDynamics :: "pcr_state \<Rightarrow> pcr_state fallible" where
  "PCRResetDynamics st =
     foldE (\<lambda>pcr st. foldE (\<lambda>s. PCRResetDynamics_bank pcr (sel_hash s)) (pcrAllocated st) st) [0..<IMPLEMENTATION_PCR] st"

section \<open>Capabilities\<close>

definition PCRCapGetAllocation :: "UINT32 \<Rightarrow> pcr_state \<Rightarrow> bool \<times> TPMS_PCR_SELECTION list" where
  "PCRCapGetAllocation cnt st = (if cnt = 0 then (True, []) else (False, pcrAllocated st))"

record TPMS_TAGGED_PCR_SELECT =
  pt_tag :: UINT32
  pt_sizeofSelect :: UINT8
  pt_pcrSelect :: "BYTE list"

definition PCRSetSelectBit :: "nat \<Rightarrow> BYTE list \<Rightarrow> BYTE list" where
  "PCRSetSelectBit pcr bitmap = bitmap[pcr div 8 := (bitmap ! (pcr div 8)) OR push_bit (pcr mod 8) 1]"

text \<open>The test of each property on one register; \<open>None\<close> for a property that is not implemented.\<close>

definition PCRGetProperty_test :: "UINT32 \<Rightarrow> nat \<Rightarrow> bool option fallible" where
  "PCRGetProperty_test property pcr =
     (let currentPcrAttributes = platPcr_GetPcrInitializationAttributes pcr;
          ext = extendLocality currentPcrAttributes; rst = resetLocality currentPcrAttributes in
      if property = 0x00 then Inr (Some (stateSave currentPcrAttributes))
      else if property = 0x01 then Inr (Some (ext AND 0x01 \<noteq> 0))
      else if property = 0x02 then Inr (Some (rst AND 0x01 \<noteq> 0))
      else if property = 0x03 then Inr (Some (ext AND 0x02 \<noteq> 0))
      else if property = 0x04 then Inr (Some (rst AND 0x02 \<noteq> 0))
      else if property = 0x05 then Inr (Some (ext AND 0x04 \<noteq> 0))
      else if property = 0x06 then Inr (Some (rst AND 0x04 \<noteq> 0))
      else if property = 0x07 then Inr (Some (ext AND 0x08 \<noteq> 0))
      else if property = 0x08 then Inr (Some (rst AND 0x08 \<noteq> 0))
      else if property = 0x09 then Inr (Some (ext AND 0x10 \<noteq> 0))
      else if property = 0x0A then Inr (Some (rst AND 0x10 \<noteq> 0))
      else if property = 0x12 then Inr (Some (rst AND 0x10 \<noteq> 0))
      else if property = 0x13 then bindE (PCRBelongsPolicyGroup (word_of_nat pcr)) (\<lambda>g. Inr (Some (g \<noteq> None)))
      else if property = 0x14 then bindE (PCRBelongsAuthGroup (word_of_nat pcr)) (\<lambda>g. Inr (Some (g \<noteq> None)))
      else if property = 0x11 then Inr (Some (PCRBelongsTCBGroup (word_of_nat pcr)))
      else Inr None)"

primrec PCRGetProperty_scan :: "UINT32 \<Rightarrow> nat list \<Rightarrow> BYTE list \<Rightarrow> (bool \<times> BYTE list) fallible" where
  "PCRGetProperty_scan property [] bitmap = Inr (True, bitmap)"
| "PCRGetProperty_scan property (pcr # pcrs) bitmap =
     bindE (PCRGetProperty_test property pcr) (\<lambda>t.
     case t of None \<Rightarrow> Inr (False, bitmap)
     | Some b \<Rightarrow> PCRGetProperty_scan property pcrs (if b then PCRSetSelectBit pcr bitmap else bitmap))"

definition PCRGetProperty :: "UINT32 \<Rightarrow> (bool \<times> TPMS_TAGGED_PCR_SELECT) fallible" where
  "PCRGetProperty property =
     bindE (PCRGetProperty_scan property [0..<IMPLEMENTATION_PCR] (replicate ((IMPLEMENTATION_PCR + 7) div 8) 0)) (\<lambda>(ok, bitmap).
     Inr (ok, \<lparr>pt_tag = property, pt_sizeofSelect = word_of_nat ((IMPLEMENTATION_PCR + 7) div 8), pt_pcrSelect = bitmap\<rparr>))"

primrec PCRCapGetProperties_loop :: "nat \<Rightarrow> nat list \<Rightarrow> TPMS_TAGGED_PCR_SELECT list \<Rightarrow>
    (bool \<times> TPMS_TAGGED_PCR_SELECT list) fallible" where
  "PCRCapGetProperties_loop cnt [] select = Inr (False, select)"
| "PCRCapGetProperties_loop cnt (i # is) select =
     (if length select < cnt
      then bindE (PCRGetProperty (word_of_nat i)) (\<lambda>(ok, s).
           PCRCapGetProperties_loop cnt is (if ok then select @ [s] else select))
      else Inr (True, select))"

definition PCRCapGetProperties :: "UINT32 \<Rightarrow> UINT32 \<Rightarrow> (bool \<times> TPMS_TAGGED_PCR_SELECT list) fallible" where
  "PCRCapGetProperties property cnt =
     PCRCapGetProperties_loop (min (unat cnt) MAX_PCR_PROPERTIES) [unat property..<Suc TPM_PT_PCR_LAST] []"

definition PCRCapGetHandles :: "TPM_HANDLE \<Rightarrow> UINT32 \<Rightarrow> (bool \<times> TPM_HANDLE list) fallible" where
  "PCRCapGetHandles handle cnt =
     (if HandleGetType handle \<noteq> TPM_HT_PCR then Inl FATAL_ERROR_PARAMETER
      else let n = min (unat cnt) MAX_CAP_HANDLES;
               handles = [unat (handle AND HR_HANDLE_MASK)..<Suc PCR_LAST]
           in Inr (n < length handles, map word_of_nat (take n handles)))"

definition PCRCapGetOneHandle :: "TPM_HANDLE \<Rightarrow> bool fallible" where
  "PCRCapGetOneHandle handle =
     (if HandleGetType handle \<noteq> TPM_HT_PCR then Inl FATAL_ERROR_PARAMETER
      else Inr (unat (handle AND HR_HANDLE_MASK) \<le> PCR_LAST))"

section \<open>Commands: IntegrityCommands.c\<close>

text \<open>
  A command gets the locality, \<^verbatim>\<open>gp.orderlyState\<close>, its input and the state of the registers
  and of NV.  \<open>unlessOrderly\<close> is \<^verbatim>\<open>RETURN_IF_ORDERLY\<close>.
\<close>

definition unlessOrderly :: "UINT16 \<Rightarrow> nv_state \<Rightarrow> (TPM_RC \<Rightarrow> nv_state \<Rightarrow> 'a) \<Rightarrow> (nv_state \<Rightarrow> 'a) \<Rightarrow> 'a" where
  "unlessOrderly orderly nv refuse continue =
     (case NvClearOrderly orderly nv of (rc, nv) \<Rightarrow>
        if rc \<noteq> TPM_RC_SUCCESS then refuse (g_NvStatus nv) nv else continue nv)"

definition TPM2_PCR_Extend ::
  "hash_fun \<Rightarrow> UINT8 \<Rightarrow> UINT16 \<Rightarrow> TPM_HANDLE \<Rightarrow> TPMT_HA list \<Rightarrow> pcr_state \<Rightarrow> nv_state \<Rightarrow> (TPM_RC \<times> pcr_state \<times> nv_state) fallible" where
  "TPM2_PCR_Extend hash locality orderly pcrHandle digests st nv =
     (let update = (\<lambda>nv. bindE (foldE (\<lambda>d. PCRExtend hash pcrHandle (ha_hashAlg d)
                            (take (CryptHashGetDigestSize (ha_hashAlg d)) (ha_digest d))) digests st)
                          (\<lambda>st. Inr (TPM_RC_SUCCESS, st, nv))) in
      if pcrHandle = TPM_RH_NULL then Inr (TPM_RC_SUCCESS, st, nv)
      else bindE (PCRIsExtendAllowed locality pcrHandle) (\<lambda>allowed.
        if \<not> allowed then Inr (TPM_RC_LOCALITY, st, nv)
        else if PCRIsStateSaved pcrHandle then unlessOrderly orderly nv (\<lambda>rc nv. Inr (rc, st, nv)) update
        else update nv))"

definition TPM2_PCR_Event ::
  "hash_fun \<Rightarrow> UINT8 \<Rightarrow> UINT16 \<Rightarrow> TPM_HANDLE \<Rightarrow> BYTE list \<Rightarrow> pcr_state \<Rightarrow> nv_state \<Rightarrow>
     (TPM_RC \<times> TPMT_HA list \<times> pcr_state \<times> nv_state) fallible" where
  "TPM2_PCR_Event hash locality orderly pcrHandle eventData st nv =
     (let update = (\<lambda>nv. bindE (foldE (\<lambda>i (out, st).
                            let bank = CryptHashGetAlgByIndex i; digest = hash bank eventData in
                            bindE (if pcrHandle \<noteq> TPM_RH_NULL then PCRExtend hash pcrHandle bank digest st else Inr st) (\<lambda>st.
                            Inr (out @ [\<lparr>ha_hashAlg = bank, ha_digest = digest\<rparr>], st))) [0..<HASH_COUNT] ([], st))
                          (\<lambda>(out, st). Inr (TPM_RC_SUCCESS, out, st, nv))) in
      if pcrHandle \<noteq> TPM_RH_NULL
      then bindE (PCRIsExtendAllowed locality pcrHandle) (\<lambda>allowed.
        if \<not> allowed then Inr (TPM_RC_LOCALITY, [], st, nv)
        else if PCRIsStateSaved pcrHandle then unlessOrderly orderly nv (\<lambda>rc nv. Inr (rc, [], st, nv)) update
        else update nv)
      else update nv)"

definition TPM2_PCR_Read ::
  "TPMS_PCR_SELECTION list \<Rightarrow> pcr_state \<Rightarrow> (TPM_RC \<times> UINT32 \<times> TPMS_PCR_SELECTION list \<times> BYTE list list) fallible" where
  "TPM2_PCR_Read pcrSelectionIn st =
     bindE (PCRRead pcrSelectionIn st) (\<lambda>(out, values, counter). Inr (TPM_RC_SUCCESS, counter, out, values))"

definition TPM2_PCR_Allocate ::
  "TPMS_PCR_SELECTION list \<Rightarrow> pcr_state \<Rightarrow> nv_state \<Rightarrow>
     (TPM_RC \<times> (bool \<times> UINT32 \<times> UINT32 \<times> UINT32) option \<times> pcr_state \<times> nv_state) fallible" where
  "TPM2_PCR_Allocate pcrAllocation st nv =
     (if g_NvStatus nv \<noteq> TPM_RC_SUCCESS then Inr (g_NvStatus nv, None, st, nv)
      else bindE (PCRAllocate pcrAllocation st nv) (\<lambda>(result, maxPCR, sizeNeeded, sizeAvailable, st, nv).
        if result = TPM_RC_PCR then Inr (result, None, st, nv)
        else let allocationSuccess = (result = TPM_RC_SUCCESS);
                 st = (if allocationSuccess then st\<lparr>g_pcrReConfig := True\<rparr> else st)
             in Inr (TPM_RC_SUCCESS, Some (allocationSuccess, maxPCR, sizeNeeded, sizeAvailable), st, nv)))"

definition TPM2_PCR_SetAuthPolicy ::
  "BYTE list \<Rightarrow> TPM_ALG_ID \<Rightarrow> TPM_HANDLE \<Rightarrow> pcr_state \<Rightarrow> nv_state \<Rightarrow> (TPM_RC \<times> pcr_state \<times> nv_state) fallible" where
  "TPM2_PCR_SetAuthPolicy policy hashAlg pcrNum st nv =
     (if g_NvStatus nv \<noteq> TPM_RC_SUCCESS then Inr (g_NvStatus nv, st, nv)
      else if length policy \<noteq> CryptHashGetDigestSize hashAlg then Inr (TPM_RCS_SIZE + RC_PARAMETER_1, st, nv)
      else bindE (PCRBelongsPolicyGroup pcrNum) (\<lambda>g.
        case g of
          None \<Rightarrow> Inr (TPM_RCS_VALUE + RC_PARAMETER_3, st, nv)
        | Some groupIndex \<Rightarrow>
            let policies = (pcrPolicies st)[groupIndex := (hashAlg, policy)] in
            Inr (TPM_RC_SUCCESS, st\<lparr>pcrPolicies := policies, nv_pcrPolicies := policies\<rparr>,
                 nv\<lparr>g_updateNV := g_updateNV nv OR UT_NV\<rparr>)))"

definition TPM2_PCR_SetAuthValue ::
  "UINT16 \<Rightarrow> TPM_HANDLE \<Rightarrow> BYTE list \<Rightarrow> pcr_state \<Rightarrow> nv_state \<Rightarrow> (TPM_RC \<times> pcr_state \<times> nv_state) fallible" where
  "TPM2_PCR_SetAuthValue orderly pcrHandle auth st nv =
     bindE (PCRBelongsAuthGroup pcrHandle) (\<lambda>g.
       case g of
         None \<Rightarrow> Inr (TPM_RC_VALUE, st, nv)
       | Some groupIndex \<Rightarrow>
           unlessOrderly orderly nv (\<lambda>rc nv. Inr (rc, st, nv)) (\<lambda>nv.
             Inr (TPM_RC_SUCCESS, st\<lparr>pcrAuthValues := (pcrAuthValues st)[groupIndex := MemoryRemoveTrailingZeros auth]\<rparr>, nv)))"

definition TPM2_PCR_Reset ::
  "UINT8 \<Rightarrow> UINT16 \<Rightarrow> TPM_HANDLE \<Rightarrow> pcr_state \<Rightarrow> nv_state \<Rightarrow> (TPM_RC \<times> pcr_state \<times> nv_state) fallible" where
  "TPM2_PCR_Reset locality orderly pcrHandle st nv =
     (let update = (\<lambda>nv. bindE (PCRSetValue pcrHandle 0 st) (\<lambda>st.
                          bindE (PCRChanged pcrHandle st) (\<lambda>st. Inr (TPM_RC_SUCCESS, st, nv)))) in
      bindE (PCRIsResetAllowed locality pcrHandle) (\<lambda>allowed.
        if \<not> allowed then Inr (TPM_RC_LOCALITY, st, nv)
        else if PCRIsStateSaved pcrHandle then unlessOrderly orderly nv (\<lambda>rc nv. Inr (rc, st, nv)) update
        else update nv))"

end
