(* ===== verification/FTPM_PCR_Spec.thy ===== *)
theory FTPM_PCR_Spec
  imports FTPM_PCR
begin

unbundle bit_operations_syntax

text \<open>
  What the registers promise.  A well-formed state has one allocation entry for each hash
  algorithm and registers of the size of their digest.  On such a state the commands are
  described by events on single registers, a digest that is extended and a reset, and the
  value of a register is the replay of its events.
\<close>

section \<open>Well-formed states\<close>

definition alloc_ok :: "TPMS_PCR_SELECTION list \<Rightarrow> bool" where
  "alloc_ok ss \<longleftrightarrow> map sel_hash ss = HashDefArray \<and> (\<forall>s \<in> set ss. sizeofSelect s = 3 \<and> length (pcrSelect s) = 3)"

definition pcr_wf :: "pcr_state \<Rightarrow> bool" where
  "pcr_wf st \<longleftrightarrow>
     alloc_ok (pcrAllocated st) \<and> alloc_ok (nv_pcrAllocated st) \<and>
     (\<forall>b n. b \<in> set HashDefArray \<and> n < IMPLEMENTATION_PCR \<longrightarrow> length (s_pcrs st (b, n)) = CryptHashGetDigestSize b) \<and>
     (\<forall>b n. b \<in> set HashDefArray \<and> n < NUM_STATIC_PCR \<longrightarrow> length (pcrSave st (b, n)) = CryptHashGetDigestSize b) \<and>
     length (pcrPolicies st) = NUM_POLICY_PCR_GROUP \<and> length (pcrAuthValues st) = NUM_AUTHVALUE_PCR_GROUP"

lemma HashDefArray_size: "b \<in> set HashDefArray \<Longrightarrow> 0 < CryptHashGetDigestSize b"
  by (auto simp: HashDefArray_def CryptHashGetDigestSize_def)

lemma HashDefArray_basic [simp]: "length HashDefArray = 4" "distinct HashDefArray"
  by (simp_all add: HashDefArray_def)

lemma find_key: "find (\<lambda>s. f s = k) xs = Some s \<Longrightarrow> s \<in> set xs \<and> f s = k"
  by (auto simp: find_Some_iff)

lemma allocated_hash:
  assumes "pcr_wf st" "PcrIsAllocated st n b"
  shows "b \<in> set HashDefArray" "n < IMPLEMENTATION_PCR" "length (s_pcrs st (b, n)) = CryptHashGetDigestSize b"
proof -
  obtain s where s: "s \<in> set (pcrAllocated st)" "sel_hash s = b" and n: "n < 24"
    using assms(2) find_key [of sel_hash b "pcrAllocated st"]
    by (auto simp: PcrIsAllocated_def split: option.splits)
  then show b: "b \<in> set HashDefArray"
    using assms(1) by (metis pcr_wf_def alloc_ok_def image_eqI list.set_map)
  from b n assms(1) show "length (s_pcrs st (b, n)) = CryptHashGetDigestSize b" by (simp add: pcr_wf_def)
  show "n < 24" by (rule n)
qed

lemma GetPcrPointer_wf:
  assumes "pcr_wf st"
  shows "GetPcrPointer st b n = Inr (if PcrIsAllocated st n b then Some (b, n) else None)"
  using allocated_hash(1) [OF assms]
  by (auto simp: GetPcrPointer_def GetPcrPointerIfAllocated_def GetPcrPointerFromPcrArray_def HashDefArray_def)

lemma PcrIsAllocated_cong: "pcrAllocated st' = pcrAllocated st \<Longrightarrow> PcrIsAllocated st' = PcrIsAllocated st"
  by (simp add: PcrIsAllocated_def fun_eq_iff)

lemma pcr_put_simps [simp]:
  "s_pcrs (pcr_put p d st) = (s_pcrs st)(p := d)" "pcrAllocated (pcr_put p d st) = pcrAllocated st"
  "nv_pcrAllocated (pcr_put p d st) = nv_pcrAllocated st" "pcrSave (pcr_put p d st) = pcrSave st"
  "pcrPolicies (pcr_put p d st) = pcrPolicies st" "pcrAuthValues (pcr_put p d st) = pcrAuthValues st"
  "pcrCounter (pcr_put p d st) = pcrCounter st" "g_DrtmPreStartup (pcr_put p d st) = g_DrtmPreStartup st"
  "nv_pcrPolicies (pcr_put p d st) = nv_pcrPolicies st" "g_pcrReConfig (pcr_put p d st) = g_pcrReConfig st"
  by (simp_all add: pcr_put_def)

lemma pcr_put_wf: "pcr_wf st \<Longrightarrow> length d = CryptHashGetDigestSize b \<Longrightarrow> pcr_wf (pcr_put (b, n) d st)"
  by (auto simp: pcr_wf_def)

section \<open>The platform table\<close>

lemma number_of_pcrs [simp]: "platPcr_NumberOfPcrs = 24"
  by (simp add: platPcr_NumberOfPcrs_def s_initAttributes_def)

text \<open>Which registers are saved, may be extended and may be reset, and which do not count.\<close>

definition may_extend :: "UINT8 \<Rightarrow> nat \<Rightarrow> bool" where
  "may_extend locality n \<longleftrightarrow>
     n \<le> 16 \<or> n = 23 \<or>
     n \<in> {17, 18} \<and> locality \<in> {2, 3, 4} \<or> n = 19 \<and> locality \<in> {2, 3} \<or>
     n = 20 \<and> locality \<in> {1, 2, 3} \<or> n \<in> {21, 22} \<and> locality = 2"

definition may_reset :: "UINT8 \<Rightarrow> nat \<Rightarrow> bool" where
  "may_reset locality n \<longleftrightarrow>
     n \<in> {16, 23} \<and> locality \<in> {0, 1, 2, 3} \<or> n \<in> {20, 21, 22} \<and> locality \<in> {2, 3}"

definition uncounted :: "nat \<Rightarrow> bool" where
  "uncounted n \<longleftrightarrow> n \<in> {16, 21, 22, 23}"

definition reset_to_ones :: "nat \<Rightarrow> bool" where
  "reset_to_ones n \<longleftrightarrow> 17 \<le> n \<and> n \<le> 22"

lemma less_24_cases:
  assumes "n < (24 :: nat)"
  obtains "n < 16" | "n = 16" | "n = 17" | "n = 18" | "n = 19" | "n = 20" | "n = 21" | "n = 22" | "n = 23"
  using assms by linarith

lemma attributes_low: "n < 16 \<Longrightarrow> platPcr_GetPcrInitializationAttributes n = pcr_attributes True False 0 0 0 0x1F"
  by (simp add: platPcr_GetPcrInitializationAttributes_def s_initAttributes_def nth_append)

lemma attributes_high:
  "platPcr_GetPcrInitializationAttributes 16 = pcr_attributes False True 0 0 0x0F 0x1F"
  "platPcr_GetPcrInitializationAttributes 17 = pcr_attributes False False 0 0 0x10 0x1C"
  "platPcr_GetPcrInitializationAttributes 18 = pcr_attributes False False 0 0 0x10 0x1C"
  "platPcr_GetPcrInitializationAttributes 19 = pcr_attributes False False 0 0 0x10 0x0C"
  "platPcr_GetPcrInitializationAttributes 20 = pcr_attributes False False 0 0 0x1C 0x0E"
  "platPcr_GetPcrInitializationAttributes 21 = pcr_attributes False True 0 0 0x1C 0x04"
  "platPcr_GetPcrInitializationAttributes 22 = pcr_attributes False True 0 0 0x1C 0x04"
  "platPcr_GetPcrInitializationAttributes 23 = pcr_attributes False True 0 0 0x0F 0x1F"
  by (simp_all add: platPcr_GetPcrInitializationAttributes_def s_initAttributes_def nth_append)

lemma localities:
  assumes "locality \<le> (4 :: UINT8)"
  obtains "locality = 0" | "locality = 1" | "locality = 2" | "locality = 3" | "locality = 4"
proof -
  have "unat locality \<le> 4" using assms by (simp add: word_le_nat_alt)
  then have "unat locality = 0 \<or> unat locality = 1 \<or> unat locality = 2 \<or> unat locality = 3 \<or> unat locality = 4" by linarith
  then show thesis using that by (auto simp: word_unat_eq_iff)
qed

lemma platform_attributes:
  assumes "n < 24"
  shows "stateSave (platPcr_GetPcrInitializationAttributes n) \<longleftrightarrow> n < 16"
    and "doNotIncrementPcrCounter (platPcr_GetPcrInitializationAttributes n) \<longleftrightarrow> uncounted n"
    and "policyAuthGroup (platPcr_GetPcrInitializationAttributes n) = 0"
    and "authValuesGroup (platPcr_GetPcrInitializationAttributes n) = 0"
    and "resetLocality (platPcr_GetPcrInitializationAttributes n) AND 0x10 \<noteq> 0 \<longleftrightarrow> reset_to_ones n"
  using assms
  by (cases rule: less_24_cases;
      simp add: attributes_low attributes_high pcr_attributes_def uncounted_def reset_to_ones_def)+

text \<open>The bits of a locality and the masks of the table, register by register.\<close>

definition locality_bit :: "UINT8 \<Rightarrow> UINT8" where
  "locality_bit locality = push_bit (unat locality) 1"

lemma localityBits_ok: "locality \<le> 4 \<Longrightarrow> localityBits locality = Inr (locality_bit locality)"
  by (erule localities) (simp_all add: localityBits_def locality_bit_def)

lemma extend_mask:
  assumes "locality \<le> 4" "n < 24"
  shows "locality_bit locality AND extendLocality (platPcr_GetPcrInitializationAttributes n) \<noteq> 0 \<longleftrightarrow> may_extend locality n"
  using assms(2)
  by (cases rule: less_24_cases)
     (rule localities [OF assms(1)];
      simp add: locality_bit_def attributes_low attributes_high pcr_attributes_def may_extend_def)+

lemma reset_mask:
  assumes "locality \<le> 4" "n < 24"
  shows "locality \<noteq> 4 \<and> locality_bit locality AND resetLocality (platPcr_GetPcrInitializationAttributes n) \<noteq> 0 \<longleftrightarrow> may_reset locality n"
  using assms(2)
  by (cases rule: less_24_cases)
     (rule localities [OF assms(1)];
      simp add: locality_bit_def attributes_low attributes_high pcr_attributes_def may_reset_def)+

lemma PCRIsExtendAllowed_spec:
  assumes "locality \<le> 4" "unat h < 24"
  shows "PCRIsExtendAllowed locality h = Inr (may_extend locality (unat h))"
  by (simp add: PCRIsExtendAllowed_def localityBits_ok assms extend_mask)

lemma PCRIsResetAllowed_spec:
  assumes "locality \<le> 4" "unat h < 24"
  shows "PCRIsResetAllowed locality h = Inr (may_reset locality (unat h))"
  using reset_mask [OF assms] by (auto simp: PCRIsResetAllowed_def localityBits_ok assms)

section \<open>Selections\<close>

definition sel_ok :: "TPMS_PCR_SELECTION \<Rightarrow> bool" where
  "sel_ok s \<longleftrightarrow> sel_hash s \<in> set HashDefArray \<and> sizeofSelect s = 3 \<and> length (pcrSelect s) = 3"

definition sel_bits :: "TPMS_PCR_SELECTION \<Rightarrow> nat list" where
  "sel_bits s = filter (\<lambda>n. pcr_bit n s) [0..<24]"

lemma pcr_bit_iff: "pcr_bit n s \<longleftrightarrow> bit (pcrSelect s ! (n div 8)) (n mod 8)"
  by (simp only: pcr_bit_def bit_iff_and_push_bit_not_eq_0)

lemma PCRClearSelectBit_simps [simp]:
  "sel_hash (PCRClearSelectBit p s) = sel_hash s" "sizeofSelect (PCRClearSelectBit p s) = sizeofSelect s"
  "length (pcrSelect (PCRClearSelectBit p s)) = length (pcrSelect s)"
  by (simp_all add: PCRClearSelectBit_def)

lemma pcr_bit_clear:
  assumes "length (pcrSelect s) = 3" "n < 24" "p < 24"
  shows "pcr_bit n (PCRClearSelectBit p s) \<longleftrightarrow> pcr_bit n s \<and> n \<noteq> p"
proof (cases "n div 8 = p div 8")
  case True
  have "bit ((pcrSelect s ! (p div 8)) AND NOT (push_bit (p mod 8) 1)) (n mod 8) \<longleftrightarrow> bit (pcrSelect s ! (p div 8)) (n mod 8) \<and> n mod 8 \<noteq> p mod 8"
    by (auto simp: bit_simps)
  moreover have "p div 8 < 3" using assms(3) by simp
  ultimately show ?thesis
    using assms True div_mod_8_eq [OF True] by (auto simp: pcr_bit_iff PCRClearSelectBit_def)
next
  case False
  then show ?thesis by (auto simp: pcr_bit_iff PCRClearSelectBit_def)
qed

lemma find_allocated:
  assumes "pcr_wf st" "b \<in> set HashDefArray"
  obtains a where "find (\<lambda>s. sel_hash s = b) (pcrAllocated st) = Some a" "length (pcrSelect a) = 3"
    "\<And>n. n < 24 \<Longrightarrow> PcrIsAllocated st n b = pcr_bit n a"
proof -
  have "b \<in> sel_hash ` set (pcrAllocated st)"
    using assms by (metis pcr_wf_def alloc_ok_def list.set_map)
  then have "find (\<lambda>s. sel_hash s = b) (pcrAllocated st) \<noteq> None" by (auto simp: find_None_iff)
  then obtain a where a: "find (\<lambda>s. sel_hash s = b) (pcrAllocated st) = Some a" by auto
  then have "length (pcrSelect a) = 3"
    using find_key [OF a] assms(1) by (simp add: pcr_wf_def alloc_ok_def)
  with a show thesis using that by (simp add: PcrIsAllocated_def)
qed

lemma FilterPcr_ok:
  assumes "pcr_wf st" "sel_ok s"
  obtains s' where "FilterPcr st s = Inr s'" "sel_ok s'" "sel_hash s' = sel_hash s"
    "\<And>n. n < 24 \<Longrightarrow> pcr_bit n s' \<longleftrightarrow> pcr_bit n s \<and> PcrIsAllocated st n (sel_hash s)"
proof -
  have h: "sel_hash s \<in> set HashDefArray" and sz: "sizeofSelect s = 3" "length (pcrSelect s) = 3"
    using assms(2) by (simp_all add: sel_ok_def)
  obtain a where a: "find (\<lambda>x. sel_hash x = sel_hash s) (pcrAllocated st) = Some a" "length (pcrSelect a) = 3"
    "\<And>n. n < 24 \<Longrightarrow> PcrIsAllocated st n (sel_hash s) = pcr_bit n a"
    using find_allocated [OF assms(1) h] by blast
  define s' where "s' = s\<lparr>pcrSelect := map (\<lambda>i. (pcrSelect s ! i) AND (pcrSelect a ! i)) [0..<3]\<rparr>"
  have "FilterPcr st s = Inr s'"
    by (simp add: FilterPcr_def a(1) sz s'_def)
  moreover have "sel_ok s'" "sel_hash s' = sel_hash s" using assms(2) by (simp_all add: s'_def sel_ok_def)
  moreover have "pcr_bit n s' \<longleftrightarrow> pcr_bit n s \<and> PcrIsAllocated st n (sel_hash s)" if "n < 24" for n
  proof -
    have "n div 8 < 3" using that by simp
    then show ?thesis by (simp add: a(3) [OF that] pcr_bit_iff s'_def bit_and_iff del: upt.simps upt_rec_numeral)
  qed
  ultimately show thesis using that by blast
qed

section \<open>Reading\<close>

lemma PCRRead_clear_ok:
  "\<forall>p \<in> set ps. p < 24 \<Longrightarrow> sizeofSelect s = 3 \<Longrightarrow> PCRRead_clear ps s = (24, fold PCRClearSelectBit ps s)"
  by (induction ps arbitrary: s) auto

lemma fold_clear:
  assumes "length (pcrSelect s) = 3" "\<forall>p \<in> set ps. p < 24"
  shows "sel_hash (fold PCRClearSelectBit ps s) = sel_hash s" "sizeofSelect (fold PCRClearSelectBit ps s) = sizeofSelect s"
    "length (pcrSelect (fold PCRClearSelectBit ps s)) = 3"
    "n < 24 \<Longrightarrow> pcr_bit n (fold PCRClearSelectBit ps s) \<longleftrightarrow> pcr_bit n s \<and> n \<notin> set ps"
  using assms by (induction ps arbitrary: s) (auto simp: pcr_bit_clear)

text \<open>
  The loop over the registers of a filtered selection: it takes the selected registers until
  there are eight digests and clears the bits of the others.
\<close>

lemma PCRRead_select_ok:
  assumes "pcr_wf st" "sel_ok s" "\<And>n. n < 24 \<Longrightarrow> pcr_bit n s \<Longrightarrow> PcrIsAllocated st n (sel_hash s)"
    "\<forall>p \<in> set ps. p < 24" "distinct ps" "length ds \<le> 8"
  shows "\<exists>s'. PCRRead_select st ps s ds =
      Inr (24, s', ds @ map (\<lambda>n. s_pcrs st (sel_hash s, n)) (take (8 - length ds) (filter (\<lambda>n. pcr_bit n s) ps))) \<and>
    sel_ok s' \<and> sel_hash s' = sel_hash s \<and>
    (\<forall>n < 24. pcr_bit n s' \<longleftrightarrow> pcr_bit n s \<and> (n \<in> set ps \<longrightarrow> n \<in> set (take (8 - length ds) (filter (\<lambda>n. pcr_bit n s) ps))))"
  using assms(4-6)
proof (induction ps arbitrary: ds)
  case Nil
  then show ?case using assms(2) by auto
next
  case (Cons p ps)
  show ?case
  proof (cases "pcr_bit p s")
    case False
    obtain s' where "PCRRead_select st ps s ds =
        Inr (24, s', ds @ map (\<lambda>n. s_pcrs st (sel_hash s, n)) (take (8 - length ds) (filter (\<lambda>n. pcr_bit n s) ps)))"
      "sel_ok s'" "sel_hash s' = sel_hash s"
      "\<forall>n < 24. pcr_bit n s' \<longleftrightarrow> pcr_bit n s \<and> (n \<in> set ps \<longrightarrow> n \<in> set (take (8 - length ds) (filter (\<lambda>n. pcr_bit n s) ps)))"
      using Cons.IH [of ds] Cons.prems by auto
    then show ?thesis using False by (intro exI [of _ s']) (auto simp: IsPcrSelected_def)
  next
    case True
    note sel = True
    show ?thesis
    proof (cases "length ds > 7")
      case True
      have len: "length (pcrSelect s) = 3" "sizeofSelect s = 3" using assms(2) by (simp_all add: sel_ok_def)
      have ps: "\<forall>q \<in> set (p # ps). q < 24" using Cons.prems by auto
      have "PCRRead_select st (p # ps) s ds = Inr (24, fold PCRClearSelectBit (p # ps) s, ds)"
        using True sel ps PCRRead_clear_ok [OF ps len(2)] by (simp add: IsPcrSelected_def del: PCRRead_clear.simps)
      then show ?thesis
        using True Cons.prems(3) fold_clear [OF len(1) ps] assms(2) by (auto simp: sel_ok_def)
    next
      case False
      have p: "p < 24" using Cons.prems by simp
      let ?d = "s_pcrs st (sel_hash s, p)"
      have al: "PcrIsAllocated st p (sel_hash s)" using assms(3) sel p by blast
      then have d: "take (CryptHashGetDigestSize (sel_hash s)) ?d = ?d" using allocated_hash(3) [OF assms(1) al] by simp
      have step: "PCRRead_select st (p # ps) s ds = PCRRead_select st ps s (ds @ [?d])"
        using False sel p al d by (simp add: IsPcrSelected_def GetPcrPointer_wf [OF assms(1)])
      have "length (ds @ [?d]) \<le> 8" "\<forall>q \<in> set ps. q < 24" "distinct ps" "p \<notin> set ps" using False Cons.prems by auto
      moreover have "8 - length ds = Suc (8 - length (ds @ [?d]))" using False by simp
      note facts = calculation this
      obtain s' where "PCRRead_select st ps s (ds @ [?d]) = Inr (24, s', (ds @ [?d]) @
            map (\<lambda>n. s_pcrs st (sel_hash s, n)) (take (8 - length (ds @ [?d])) (filter (\<lambda>n. pcr_bit n s) ps)))"
        "sel_ok s'" "sel_hash s' = sel_hash s"
        "\<forall>n < 24. pcr_bit n s' \<longleftrightarrow> pcr_bit n s \<and> (n \<in> set ps \<longrightarrow> n \<in> set (take (8 - length (ds @ [?d])) (filter (\<lambda>n. pcr_bit n s) ps)))"
        using Cons.IH [of "ds @ [?d]"] facts by blast
      then show ?thesis unfolding step
        by (intro exI [of _ s']) (use sel facts in \<open>auto simp del: PCRRead_select.simps\<close>)
    qed
  qed
qed

primrec cut :: "nat \<Rightarrow> 'a list list \<Rightarrow> 'a list list" where
  "cut k [] = []"
| "cut k (xs # xss) = take k xs # cut (k - length xs) xss"

lemma concat_cut: "concat (cut k xss) = take k (concat xss)"
  by (induction xss arbitrary: k) simp_all

text \<open>The registers that a selection asks for and that exist.\<close>

definition wanted :: "pcr_state \<Rightarrow> TPMS_PCR_SELECTION \<Rightarrow> nat list" where
  "wanted st s = filter (\<lambda>n. PcrIsAllocated st n (sel_hash s)) (sel_bits s)"

definition values_of :: "pcr_state \<Rightarrow> TPMS_PCR_SELECTION \<Rightarrow> BYTE list list" where
  "values_of st s = map (\<lambda>n. s_pcrs st (sel_hash s, n)) (sel_bits s)"

lemma filter_mem_take: "distinct xs \<Longrightarrow> filter (\<lambda>x. x \<in> set (take k xs)) xs = take k xs"
proof -
  assume "distinct xs"
  then have "distinct (take k xs @ drop k xs)" by simp
  then have d: "set (take k xs) \<inter> set (drop k xs) = {}" by (simp only: distinct_append)
  have "filter (\<lambda>x. x \<in> set (take k xs)) (take k xs @ drop k xs) = take k xs"
    using d by (auto simp: filter_empty_conv filter_id_conv simp del: append_take_drop_id)
  then show ?thesis by simp
qed

lemma PCRRead_list_ok:
  assumes "pcr_wf st"
  shows "\<forall>s \<in> set ss. sel_ok s \<Longrightarrow> length ds \<le> 8 \<Longrightarrow>
    \<exists>out. PCRRead_list st ss ds = Inr (out, ds @ concat (map (values_of st) out)) \<and>
      map sel_bits out = cut (8 - length ds) (map (wanted st) ss) \<and> map sel_hash out = map sel_hash ss \<and> (\<forall>s \<in> set out. sel_ok s)"
proof (induction ss arbitrary: ds)
  case Nil
  then show ?case by simp
next
  case (Cons s ss)
  obtain s1 where s1: "FilterPcr st s = Inr s1" "sel_ok s1" "sel_hash s1 = sel_hash s"
    "\<And>n. n < 24 \<Longrightarrow> pcr_bit n s1 \<longleftrightarrow> pcr_bit n s \<and> PcrIsAllocated st n (sel_hash s)"
    using FilterPcr_ok [OF assms] Cons.prems by (metis list.set_intros(1))
  let ?k = "8 - length ds"
  have w: "filter (\<lambda>n. pcr_bit n s1) [0..<24] = wanted st s"
    unfolding wanted_def sel_bits_def filter_filter by (rule filter_cong) (auto simp: s1(4))
  obtain s2 where s2: "PCRRead_select st [0..<24] s1 ds =
      Inr (24, s2, ds @ map (\<lambda>n. s_pcrs st (sel_hash s1, n)) (take ?k (wanted st s)))"
    "sel_ok s2" "sel_hash s2 = sel_hash s1"
    "\<forall>n < 24. pcr_bit n s2 \<longleftrightarrow> pcr_bit n s1 \<and> n \<in> set (take ?k (wanted st s))"
    using PCRRead_select_ok [OF assms s1(2), of "[0..<24]" ds] s1(3,4) Cons.prems(2)
    unfolding w by auto
  have "distinct (wanted st s)" by (simp add: wanted_def sel_bits_def)
  then have b2: "sel_bits s2 = take ?k (wanted st s)"
    using filter_mem_take [of "wanted st s" ?k] unfolding sel_bits_def
    by (simp add: w [symmetric] conj_commute filter_filter cong: filter_cong) (metis (mono_tags, lifting) filter_cong s2(4) w atLeastLessThan_iff set_upt)
  let ?ds = "ds @ values_of st s2"
  have v: "ds @ map (\<lambda>n. s_pcrs st (sel_hash s1, n)) (take ?k (wanted st s)) = ?ds"
    by (simp add: values_of_def b2 s2(3))
  have l: "length ?ds \<le> 8" "8 - length ?ds = ?k - length (wanted st s)"
    using Cons.prems(2) by (auto simp: values_of_def b2 min_def)
  obtain out where out: "PCRRead_list st ss ?ds = Inr (out, ?ds @ concat (map (values_of st) out))"
      "map sel_bits out = cut (8 - length ?ds) (map (wanted st) ss)" "map sel_hash out = map sel_hash ss" "\<forall>s \<in> set out. sel_ok s"
    using Cons.IH [OF _ l(1)] Cons.prems(1) by auto
  have "PCRRead_list st (s # ss) ds = Inr (s2 # out, ds @ concat (map (values_of st) (s2 # out)))"
    using s2(1) out(1) by (simp add: s1(1) v)
  then show ?case using b2 out l s1(3) s2(2,3) by auto
qed

section \<open>Events on registers\<close>

datatype pcr_event = EXT "BYTE list" | RST

primrec replay :: "hash_fun \<Rightarrow> TPM_ALG_ID \<Rightarrow> BYTE list \<Rightarrow> pcr_event list \<Rightarrow> BYTE list" where
  "replay hash b v [] = v"
| "replay hash b v (e # es) =
     replay hash b (case e of EXT d \<Rightarrow> hash b (v @ d) | RST \<Rightarrow> replicate (CryptHashGetDigestSize b) 0) es"

lemma replay_append: "replay hash b v (es @ fs) = replay hash b (replay hash b v es) fs"
  by (induction es arbitrary: v) simp_all

lemma length_replay:
  "hash_ok hash \<Longrightarrow> length v = CryptHashGetDigestSize b \<Longrightarrow> length (replay hash b v es) = CryptHashGetDigestSize b"
  by (induction es arbitrary: v) (auto simp: hash_ok_def split: pcr_event.splits)

type_synonym pcr_log = "TPM_ALG_ID \<Rightarrow> nat \<Rightarrow> pcr_event list"

definition apply_events :: "hash_fun \<Rightarrow> pcr_log \<Rightarrow> nat \<Rightarrow> pcr_state \<Rightarrow> pcr_state" where
  "apply_events hash E k st =
     st\<lparr>s_pcrs := (\<lambda>(b, n). if PcrIsAllocated st n b then replay hash b (s_pcrs st (b, n)) (E b n) else s_pcrs st (b, n)),
        pcrCounter := pcrCounter st + word_of_nat k\<rparr>"

lemma apply_events_simps [simp]:
  "pcrAllocated (apply_events hash E k st) = pcrAllocated st"
  "PcrIsAllocated (apply_events hash E k st) = PcrIsAllocated st"
  "s_pcrs (apply_events hash E k st) (b, n) =
     (if PcrIsAllocated st n b then replay hash b (s_pcrs st (b, n)) (E b n) else s_pcrs st (b, n))"
  "pcrCounter (apply_events hash E k st) = pcrCounter st + word_of_nat k"
  by (simp_all add: apply_events_def PcrIsAllocated_def fun_eq_iff)

lemma apply_events_wf: "pcr_wf st \<Longrightarrow> hash_ok hash \<Longrightarrow> pcr_wf (apply_events hash E k st)"
  by (auto simp: pcr_wf_def apply_events_def length_replay)

lemma apply_events_append:
  "apply_events hash F l (apply_events hash E k st) = apply_events hash (\<lambda>b n. E b n @ F b n) (k + l) st"
  by (simp add: apply_events_def replay_append fun_eq_iff PcrIsAllocated_def add.assoc)

lemma apply_events_cong:
  assumes "\<And>b n. PcrIsAllocated st n b \<Longrightarrow> replay hash b (s_pcrs st (b, n)) (E b n) = replay hash b (s_pcrs st (b, n)) (F b n)" "k = l"
  shows "apply_events hash E k st = apply_events hash F l st"
proof -
  have "(\<lambda>(b, n). if PcrIsAllocated st n b then replay hash b (s_pcrs st (b, n)) (E b n) else s_pcrs st (b, n)) =
      (\<lambda>(b, n). if PcrIsAllocated st n b then replay hash b (s_pcrs st (b, n)) (F b n) else s_pcrs st (b, n))"
    using assms(1) by (auto simp: fun_eq_iff)
  then show ?thesis by (simp add: apply_events_def assms(2))
qed

definition on_bank :: "TPM_ALG_ID \<Rightarrow> nat \<Rightarrow> pcr_event list \<Rightarrow> pcr_log" where
  "on_bank b n es = (\<lambda>b' n'. if b' = b \<and> n' = n then es else [])"

lemma apply_events_put:
  assumes "PcrIsAllocated st n b" "replay hash b (s_pcrs st (b, n)) es = d"
  shows "pcr_put (b, n) d st = apply_events hash (on_bank b n es) 0 st"
proof -
  have "(s_pcrs st)((b, n) := d) =
      (\<lambda>(b', n'). if PcrIsAllocated st n' b' then replay hash b' (s_pcrs st (b', n')) (on_bank b n es b' n') else s_pcrs st (b', n'))"
    using assms by (auto simp: fun_eq_iff on_bank_def)
  then show ?thesis by (simp add: apply_events_def pcr_put_def)
qed

lemma apply_events_none: "(\<And>b n. PcrIsAllocated st n b \<Longrightarrow> E b n = []) \<Longrightarrow> apply_events hash E 0 st = st"
proof -
  assume "\<And>b n. PcrIsAllocated st n b \<Longrightarrow> E b n = []"
  then have "(\<lambda>(b, n). if PcrIsAllocated st n b then replay hash b (s_pcrs st (b, n)) (E b n) else s_pcrs st (b, n)) = s_pcrs st"
    by (auto simp: fun_eq_iff)
  then show ?thesis by (simp add: apply_events_def)
qed

lemma apply_events_count: "apply_events hash (\<lambda>_ _. []) k st = st\<lparr>pcrCounter := pcrCounter st + word_of_nat k\<rparr>"
proof -
  have "(\<lambda>(b, n). if PcrIsAllocated st n b then replay hash b (s_pcrs st (b, n)) [] else s_pcrs st (b, n)) = s_pcrs st"
    by (auto simp: fun_eq_iff)
  then show ?thesis by (simp add: apply_events_def)
qed

text \<open>The counter moves with every change of a register that counts.\<close>

definition bump :: "nat \<Rightarrow> nat" where
  "bump n = (if uncounted n then 0 else 1)"

definition room :: "nat \<Rightarrow> pcr_state \<Rightarrow> bool" where
  "room k st \<longleftrightarrow> unat (pcrCounter st) + k < 2 ^ 32"

lemma room_mono: "room k st \<Longrightarrow> j \<le> k \<Longrightarrow> room j st"
  by (simp add: room_def)

lemma unat_counter: "room k st \<Longrightarrow> unat (pcrCounter st + word_of_nat k) = unat (pcrCounter st) + k"
  by (simp add: room_def unat_word_ariths(1) unat_of_nat take_bit_nat_eq_self)

lemma room_apply: "room (k + l) st \<Longrightarrow> room l (apply_events hash E k st)"
  using unat_counter [OF room_mono, of "k + l" st k] by (simp add: room_def)

lemma PCRChanged_ok:
  assumes "unat h < 24" "room (bump (unat h)) st"
  shows "PCRChanged h st = Inr (apply_events hash (\<lambda>_ _. []) (bump (unat h)) st)"
proof (cases "uncounted (unat h)")
  case True
  then have "h \<noteq> 0" by (auto simp: uncounted_def)
  then show ?thesis
    using True platform_attributes(2) [OF assms(1)]
    by (simp add: PCRChanged_def PCRBelongsTCBGroup_def bump_def apply_events_none)
next
  case False
  then have "unat (pcrCounter st + 1) = unat (pcrCounter st) + 1"
    using unat_counter [OF assms(2)] by (simp add: bump_def)
  then have "pcrCounter st + 1 \<noteq> 0" by force
  then show ?thesis
    using False platform_attributes(2) [OF assms(1)]
    by (simp add: PCRChanged_def PCRBelongsTCBGroup_def bump_def apply_events_count Let_def)
qed

definition extend_cost :: "pcr_state \<Rightarrow> nat \<Rightarrow> TPM_ALG_ID \<Rightarrow> nat" where
  "extend_cost st n b = (if PcrIsAllocated st n b then bump n else 0)"

lemma extend_cost_apply [simp]: "extend_cost (apply_events hash E k st) = extend_cost st"
  by (simp add: extend_cost_def fun_eq_iff)

lemma PCRExtend_ok:
  assumes wf: "pcr_wf st" and hash: "hash_ok hash" and h: "unat h < 24" and room: "room (extend_cost st (unat h) b) st"
  shows "PCRExtend hash h b d st = Inr (apply_events hash (on_bank b (unat h) [EXT d]) (extend_cost st (unat h) b) st)"
proof (cases "PcrIsAllocated st (unat h) b")
  case False
  have "apply_events hash (on_bank b (unat h) [EXT d]) 0 st = st"
    by (rule apply_events_none) (use False in \<open>auto simp: on_bank_def\<close>)
  then show ?thesis using False by (simp add: PCRExtend_def GetPcrPointer_wf [OF wf] extend_cost_def)
next
  case True
  let ?v = "s_pcrs st (b, unat h)" and ?new = "hash b (s_pcrs st (b, unat h) @ d)"
  have len: "length ?v = CryptHashGetDigestSize b" "length ?new = CryptHashGetDigestSize b"
    using allocated_hash(3) [OF wf True] hash by (simp_all add: hash_ok_def)
  have "pcr_put (b, unat h) ?new st = apply_events hash (on_bank b (unat h) [EXT d]) 0 st"
    by (rule apply_events_put [OF True]) simp
  then show ?thesis
    using True len room PCRChanged_ok [OF h, of "pcr_put (b, unat h) ?new st" hash]
    by (simp add: PCRExtend_def GetPcrPointer_wf [OF wf] extend_cost_def room_def Let_def apply_events_append)
qed

lemma PCRExtend_list:
  assumes hash: "hash_ok hash" and h: "unat h < 24"
  shows "pcr_wf st \<Longrightarrow> room (sum_list (map (\<lambda>x. extend_cost st (unat h) (f x)) xs)) st \<Longrightarrow>
    foldE (\<lambda>x. PCRExtend hash h (f x) (g x)) xs st =
      Inr (apply_events hash (\<lambda>b n. if n = unat h then map (\<lambda>x. EXT (g x)) (filter (\<lambda>x. f x = b) xs) else [])
        (sum_list (map (\<lambda>x. extend_cost st (unat h) (f x)) xs)) st)"
proof (induction xs arbitrary: st)
  case Nil
  then show ?case by (simp add: apply_events_none)
next
  case (Cons x xs)
  let ?c = "extend_cost st (unat h) (f x)"
  let ?st = "apply_events hash (on_bank (f x) (unat h) [EXT (g x)]) ?c st"
  have r: "room ?c st" using Cons.prems(2) by (auto elim: room_mono)
  have "foldE (\<lambda>x. PCRExtend hash h (f x) (g x)) (x # xs) st = foldE (\<lambda>x. PCRExtend hash h (f x) (g x)) xs ?st"
    using PCRExtend_ok [OF Cons.prems(1) hash h r] by simp
  also have "\<dots> = Inr (apply_events hash (\<lambda>b n. if n = unat h then map (\<lambda>x. EXT (g x)) (filter (\<lambda>x. f x = b) xs) else [])
        (sum_list (map (\<lambda>x. extend_cost st (unat h) (f x)) xs)) ?st)"
    using Cons.IH [of ?st] apply_events_wf [OF Cons.prems(1) hash] room_apply Cons.prems(2) by simp
  finally show ?case
    by (simp only: apply_events_append) (rule arg_cong [of _ _ Inr], rule apply_events_cong, auto simp: on_bank_def)
qed

section \<open>Reset\<close>

lemma allocated_nth:
  assumes "pcr_wf st" "i < 4"
  shows "i < length (pcrAllocated st)" "sel_hash (pcrAllocated st ! i) = CryptHashGetAlgByIndex i"
    "CryptHashGetAlgByIndex i \<in> set HashDefArray"
proof -
  have m: "map sel_hash (pcrAllocated st) = HashDefArray" using assms(1) by (simp add: pcr_wf_def alloc_ok_def)
  then show i: "i < length (pcrAllocated st)" using assms(2) by (metis HashDefArray_basic(1) length_map)
  then show "sel_hash (pcrAllocated st ! i) = CryptHashGetAlgByIndex i"
    using m assms(2) by (metis CryptHashGetAlgByIndex_def not_le nth_map)
  show "CryptHashGetAlgByIndex i \<in> set HashDefArray"
    using assms(2) by (simp add: CryptHashGetAlgByIndex_def)
qed

lemma zero_register: "0 < n \<Longrightarrow> length d = n \<Longrightarrow> replicate (n - 1) 0 @ drop (n - 1) (d[n - 1 := 0]) = replicate n (0 :: BYTE)"
  by (rule nth_equalityI) (auto simp: nth_append)

lemma PCRSetValue_bank_ok:
  assumes "pcr_wf st" "i < 4"
  shows "PCRSetValue_bank h 0 i st = Inr (apply_events hash (on_bank (CryptHashGetAlgByIndex i) (unat h) [RST]) 0 st)"
proof (cases "PcrIsAllocated st (unat h) (CryptHashGetAlgByIndex i)")
  case False
  have "apply_events hash (on_bank (CryptHashGetAlgByIndex i) (unat h) [RST]) 0 st = st"
    by (rule apply_events_none) (use False in \<open>auto simp: on_bank_def\<close>)
  then show ?thesis using False by (simp add: PCRSetValue_bank_def GetPcrPointer_wf [OF assms(1)] allocated_nth [OF assms])
next
  case True
  let ?b = "CryptHashGetAlgByIndex i"
  have l: "length (s_pcrs st (?b, unat h)) = CryptHashGetDigestSize ?b" "0 < CryptHashGetDigestSize ?b"
    using allocated_hash [OF assms(1) True] HashDefArray_size by auto
  have "pcr_put (?b, unat h) (replicate (CryptHashGetDigestSize ?b) 0) st = apply_events hash (on_bank ?b (unat h) [RST]) 0 st"
    by (rule apply_events_put [OF True]) simp
  then show ?thesis
    using True l zero_register [OF l(2,1)]
    by (simp add: PCRSetValue_bank_def GetPcrPointer_wf [OF assms(1)] allocated_nth [OF assms] mem_store_def mem_fill_def Let_def)
qed

lemma HashDefArray_index: "map CryptHashGetAlgByIndex [0..<4] = HashDefArray"
  by (simp add: CryptHashGetAlgByIndex_def HashDefArray_def upt_rec)

lemma PCRSetValue_ok:
  assumes wf: "pcr_wf st" and hash: "hash_ok hash"
  shows "PCRSetValue h 0 st = Inr (apply_events hash (\<lambda>b n. if n = unat h then [RST] else []) 0 st)"
proof -
  have "foldE (PCRSetValue_bank h 0) xs st =
    Inr (apply_events hash (\<lambda>b n. if n = unat h then replicate (count_list (map CryptHashGetAlgByIndex xs) b) RST else []) 0 st)"
    if "\<forall>i \<in> set xs. i < 4" for xs
    using wf that
  proof (induction xs arbitrary: st)
    case Nil
    then show ?case by (simp add: apply_events_none)
  next
    case (Cons i xs)
    have i: "i < 4" using Cons.prems by simp
    have "pcr_wf (apply_events hash (on_bank (CryptHashGetAlgByIndex i) (unat h) [RST]) 0 st)"
      by (rule apply_events_wf [OF Cons.prems(1) hash])
    then show ?case
      using Cons.IH Cons.prems(2) PCRSetValue_bank_ok [OF Cons.prems(1) i, of h hash]
      by (simp add: apply_events_append) (rule apply_events_cong, auto simp: on_bank_def)
  qed
  from this [of "[0..<4]"] have "PCRSetValue h 0 st =
      Inr (apply_events hash (\<lambda>b n. if n = unat h then replicate (count_list HashDefArray b) RST else []) 0 st)"
    unfolding PCRSetValue_def HashDefArray_index by simp
  moreover have "count_list HashDefArray b = 1" if "PcrIsAllocated st n b" for n b
    using allocated_hash(1) [OF wf that] by (auto simp: HashDefArray_def)
  ultimately show ?thesis by (auto intro: apply_events_cong)
qed

section \<open>Allocation\<close>

definition merge_bank :: "TPMS_PCR_SELECTION \<Rightarrow> TPMS_PCR_SELECTION list \<Rightarrow> TPMS_PCR_SELECTION list" where
  "merge_bank new ss = map (\<lambda>s. if sel_hash s = sel_hash new then new else s) ss"

lemma PCRAllocate_replace_ok:
  "distinct (map sel_hash ss) \<Longrightarrow> sel_hash new \<in> sel_hash ` set ss \<Longrightarrow> PCRAllocate_replace new ss = Inr (merge_bank new ss)"
proof (induction ss)
  case Nil
  then show ?case by simp
next
  case (Cons s ss)
  show ?case
  proof (cases "sel_hash s = sel_hash new")
    case True
    then have "map (\<lambda>s. if sel_hash s = sel_hash new then new else s) ss = ss"
      using Cons.prems(1) by (intro map_idI) (metis distinct.simps(2) image_eqI list.set_map list.simps(9))
    then show ?thesis using True by (simp add: merge_bank_def)
  next
    case False
    then show ?thesis using Cons by (auto simp: merge_bank_def)
  qed
qed

lemma merge_bank_ok: "alloc_ok ss \<Longrightarrow> sel_ok new \<Longrightarrow> alloc_ok (merge_bank new ss)"
proof -
  assume ss: "alloc_ok ss" and new: "sel_ok new"
  have "map sel_hash (merge_bank new ss) = map sel_hash ss" by (simp add: merge_bank_def)
  moreover have "set (merge_bank new ss) \<subseteq> insert new (set ss)" by (auto simp: merge_bank_def)
  ultimately show ?thesis using ss new by (auto simp: alloc_ok_def sel_ok_def)
qed

lemma alloc_ok_hash: "alloc_ok ss \<Longrightarrow> sel_ok s \<Longrightarrow> sel_hash s \<in> sel_hash ` set ss"
  by (metis alloc_ok_def list.set_map sel_ok_def)

lemma PCRAllocate_fold:
  "alloc_ok ss \<Longrightarrow> \<forall>s \<in> set news. sel_ok s \<Longrightarrow>
   foldE PCRAllocate_replace news ss = Inr (fold merge_bank news ss) \<and> alloc_ok (fold merge_bank news ss)"
proof (induction news arbitrary: ss)
  case Nil
  then show ?case by simp
next
  case (Cons s news)
  have "distinct (map sel_hash ss)" using Cons.prems(1) by (simp add: alloc_ok_def)
  then show ?case
    using Cons merge_bank_ok PCRAllocate_replace_ok [of ss s] alloc_ok_hash [of ss s] by simp
qed

lemma orTest_ok:
  assumes "sizeofSelect s = 3" "length (pcrSelect s) = 3"
  shows "orTest b 17 s = Inr (b \<or> pcr_bit 17 s)" "orTest b 0 s = Inr (b \<or> pcr_bit 0 s)"
  using assms by (simp_all add: orTest_def TestBit_def pcr_bit_def Let_def)

definition allocation_rc :: "TPMS_PCR_SELECTION list \<Rightarrow> TPM_RC" where
  "allocation_rc ss =
     (if (\<exists>s \<in> set ss. pcr_bit 17 s) \<and> (\<exists>s \<in> set ss. pcr_bit 0 s) then TPM_RC_SUCCESS else TPM_RC_PCR)"

lemma PCRAllocate_count_ok:
  "\<forall>s \<in> set ss. sizeofSelect s = 3 \<and> length (pcrSelect s) = 3 \<Longrightarrow>
   foldE PCRAllocate_count ss (d, h, n) =
     Inr (d \<or> (\<exists>s \<in> set ss. pcr_bit 17 s), h \<or> (\<exists>s \<in> set ss. pcr_bit 0 s),
          n + word_of_nat (sum_list (map PCRAllocate_needed ss)))"
  by (induction ss arbitrary: d h n) (simp_all add: PCRAllocate_count_def orTest_ok disj_ac add_ac)

lemma PCRAllocate_ok:
  assumes "pcr_wf st" "\<forall>s \<in> set news. sel_ok s"
  defines "new \<equiv> fold merge_bank news (pcrAllocated st)"
  shows "\<exists>avail. PCRAllocate news st nv = Inr (allocation_rc new, 24, word_of_nat (sum_list (map PCRAllocate_needed new)), avail,
     (if allocation_rc new = TPM_RC_SUCCESS
      then (st\<lparr>nv_pcrAllocated := new\<rparr>, nv\<lparr>g_updateNV := g_updateNV nv OR UT_NV\<rparr>)
      else (st, nv)))"
    and "alloc_ok new"
proof -
  have new: "foldE PCRAllocate_replace news (pcrAllocated st) = Inr new" "alloc_ok new"
    using PCRAllocate_fold [of "pcrAllocated st" news] assms by (simp_all add: pcr_wf_def)
  then show "\<exists>avail. PCRAllocate news st nv = Inr (allocation_rc new, 24, word_of_nat (sum_list (map PCRAllocate_needed new)), avail,
     (if allocation_rc new = TPM_RC_SUCCESS
      then (st\<lparr>nv_pcrAllocated := new\<rparr>, nv\<lparr>g_updateNV := g_updateNV nv OR UT_NV\<rparr>)
      else (st, nv)))"
    using PCRAllocate_count_ok [of new False False 0] by (auto simp: PCRAllocate_def allocation_rc_def Let_def alloc_ok_def)
  show "alloc_ok new" by (rule new(2))
qed

section \<open>The commands as events\<close>

datatype pcr_cmd =
    PExtend TPM_HANDLE "TPMT_HA list"
  | PEvent TPM_HANDLE "BYTE list"
  | PReset TPM_HANDLE
  | PRead "TPMS_PCR_SELECTION list"
  | PAllocate "TPMS_PCR_SELECTION list"
  | PSetAuthPolicy "BYTE list" TPM_ALG_ID TPM_HANDLE
  | PSetAuthValue TPM_HANDLE "BYTE list"

fun pcr_step :: "hash_fun \<Rightarrow> UINT16 \<Rightarrow> UINT8 \<Rightarrow> pcr_cmd \<Rightarrow> pcr_state \<Rightarrow> nv_state \<Rightarrow> (TPM_RC \<times> pcr_state \<times> nv_state) fallible" where
  "pcr_step hash orderly loc (PExtend h ds) st nv = TPM2_PCR_Extend hash loc orderly h ds st nv"
| "pcr_step hash orderly loc (PEvent h e) st nv =
     bindE (TPM2_PCR_Event hash loc orderly h e st nv) (\<lambda>(rc, _, st, nv). Inr (rc, st, nv))"
| "pcr_step hash orderly loc (PReset h) st nv = TPM2_PCR_Reset loc orderly h st nv"
| "pcr_step hash orderly loc (PRead ss) st nv = bindE (TPM2_PCR_Read ss st) (\<lambda>(rc, _). Inr (rc, st, nv))"
| "pcr_step hash orderly loc (PAllocate ss) st nv = bindE (TPM2_PCR_Allocate ss st nv) (\<lambda>(rc, _, st, nv). Inr (rc, st, nv))"
| "pcr_step hash orderly loc (PSetAuthPolicy p a h) st nv = TPM2_PCR_SetAuthPolicy p a h st nv"
| "pcr_step hash orderly loc (PSetAuthValue h a) st nv = TPM2_PCR_SetAuthValue orderly h a st nv"

text \<open>What unmarshaling guarantees of the input.\<close>

definition pcr_handle_ok :: "bool \<Rightarrow> TPM_HANDLE \<Rightarrow> bool" where
  "pcr_handle_ok allowNull h \<longleftrightarrow> unat h < 24 \<or> allowNull \<and> h = TPM_RH_NULL"

fun pcr_cmd_ok :: "pcr_cmd \<Rightarrow> bool" where
  "pcr_cmd_ok (PExtend h ds) \<longleftrightarrow> pcr_handle_ok True h \<and> (\<forall>d \<in> set ds. TPMU_HA_ok (ha_hashAlg d) (ha_digest d))"
| "pcr_cmd_ok (PEvent h e) \<longleftrightarrow> pcr_handle_ok True h"
| "pcr_cmd_ok (PReset h) \<longleftrightarrow> pcr_handle_ok False h"
| "pcr_cmd_ok (PRead ss) \<longleftrightarrow> (\<forall>s \<in> set ss. sel_ok s)"
| "pcr_cmd_ok (PAllocate ss) \<longleftrightarrow> (\<forall>s \<in> set ss. sel_ok s)"
| "pcr_cmd_ok (PSetAuthPolicy p a h) \<longleftrightarrow> pcr_handle_ok False h"
| "pcr_cmd_ok (PSetAuthValue h a) \<longleftrightarrow> pcr_handle_ok False h"

text \<open>
  The response code: \<open>blocked\<close> says that the TPM was shut down orderly and NV cannot be
  written, and \<open>status\<close> is the state of NV.
\<close>

fun pcr_rc :: "TPMS_PCR_SELECTION list \<Rightarrow> bool \<Rightarrow> TPM_RC \<Rightarrow> UINT8 \<Rightarrow> pcr_cmd \<Rightarrow> TPM_RC" where
  "pcr_rc banks blocked status loc (PExtend h ds) =
     (if h = TPM_RH_NULL then TPM_RC_SUCCESS else if \<not> may_extend loc (unat h) then TPM_RC_LOCALITY
      else if unat h < 16 \<and> blocked then status else TPM_RC_SUCCESS)"
| "pcr_rc banks blocked status loc (PEvent h e) =
     (if h = TPM_RH_NULL then TPM_RC_SUCCESS else if \<not> may_extend loc (unat h) then TPM_RC_LOCALITY
      else if unat h < 16 \<and> blocked then status else TPM_RC_SUCCESS)"
| "pcr_rc banks blocked status loc (PReset h) = (if may_reset loc (unat h) then TPM_RC_SUCCESS else TPM_RC_LOCALITY)"
| "pcr_rc banks blocked status loc (PRead ss) = TPM_RC_SUCCESS"
| "pcr_rc banks blocked status loc (PAllocate ss) =
     (if status \<noteq> TPM_RC_SUCCESS then status else allocation_rc (fold merge_bank ss banks))"
| "pcr_rc banks blocked status loc (PSetAuthPolicy p a h) =
     (if status \<noteq> TPM_RC_SUCCESS then status
      else if length p \<noteq> CryptHashGetDigestSize a then TPM_RCS_SIZE + RC_PARAMETER_1 else TPM_RCS_VALUE + RC_PARAMETER_3)"
| "pcr_rc banks blocked status loc (PSetAuthValue h a) = TPM_RC_VALUE"

text \<open>The events of a command that is accepted, and how often it moves the counter.\<close>

fun pcr_log_of :: "hash_fun \<Rightarrow> pcr_cmd \<Rightarrow> pcr_log" where
  "pcr_log_of hash (PExtend h ds) b n =
     (if n = unat h then map (\<lambda>d. EXT (ha_digest d)) (filter (\<lambda>d. ha_hashAlg d = b) ds) else [])"
| "pcr_log_of hash (PEvent h e) b n = (if n = unat h then [EXT (hash b e)] else [])"
| "pcr_log_of hash (PReset h) b n = (if n = unat h then [RST] else [])"
| "pcr_log_of hash _ b n = []"

fun pcr_cost :: "pcr_state \<Rightarrow> pcr_cmd \<Rightarrow> nat" where
  "pcr_cost st (PExtend h ds) = sum_list (map (\<lambda>d. extend_cost st (unat h) (ha_hashAlg d)) ds)"
| "pcr_cost st (PEvent h e) = sum_list (map (extend_cost st (unat h)) HashDefArray)"
| "pcr_cost st (PReset h) = bump (unat h)"
| "pcr_cost st _ = 0"

definition orderly_blocked :: "UINT16 \<Rightarrow> nv_state \<Rightarrow> bool" where
  "orderly_blocked orderly nv \<longleftrightarrow> orderly < SU_DA_USED_VALUE \<and> g_NvStatus nv \<noteq> TPM_RC_SUCCESS"

lemma unlessOrderly_ok:
  "unlessOrderly orderly nv refuse continue =
     (if orderly_blocked orderly nv then refuse (g_NvStatus nv) nv else continue (nv\<lparr>g_clearOrderly := True\<rparr>))"
  by (simp add: unlessOrderly_def NvClearOrderly_def orderly_blocked_def)

text \<open>A step of the registers: everything but the events leaves them alone.\<close>

definition pcr_step_ok :: "hash_fun \<Rightarrow> TPM_RC \<Rightarrow> pcr_log \<Rightarrow> nat \<Rightarrow> pcr_state \<Rightarrow> nv_state \<Rightarrow>
    (TPM_RC \<times> pcr_state \<times> nv_state) fallible \<Rightarrow> bool" where
  "pcr_step_ok hash rc E k st nv r \<longleftrightarrow>
     (\<exists>st' nv'. r = Inr (rc, st', nv') \<and> pcr_wf st' \<and> pcrAllocated st' = pcrAllocated st \<and>
        s_pcrs st' = s_pcrs (apply_events hash E k st) \<and> pcrCounter st' = pcrCounter st + word_of_nat k \<and>
        pcrSave st' = pcrSave st \<and> g_NvStatus nv' = g_NvStatus nv)"

lemma pcr_step_okI:
  assumes "r = Inr (rc, apply_events hash E k st, nv')" "pcr_wf st" "hash_ok hash" "g_NvStatus nv' = g_NvStatus nv"
  shows "pcr_step_ok hash rc E k st nv r"
proof -
  have "pcrSave (apply_events hash E k st) = pcrSave st" by (simp add: apply_events_def)
  then show ?thesis using assms apply_events_wf [OF assms(2,3)] by (simp add: pcr_step_ok_def)
qed

lemma pcr_step_ok_idle:
  assumes "r = Inr (rc, st, nv')" "pcr_wf st" "hash_ok hash" "g_NvStatus nv' = g_NvStatus nv"
  shows "pcr_step_ok hash rc (\<lambda>_ _. []) 0 st nv r"
  using pcr_step_okI [of r rc hash "\<lambda>_ _. []" 0 st nv' nv] assms apply_events_none [of st "\<lambda>_ _. []" hash] by simp

lemma handle_null [simp]: "unat h < 24 \<Longrightarrow> h \<noteq> TPM_RH_NULL"
  by auto

lemma IsStateSaved_ok: "unat h < 24 \<Longrightarrow> PCRIsStateSaved h \<longleftrightarrow> unat h < 16"
  by (simp add: PCRIsStateSaved_def platform_attributes)

lemma TPMU_HA_size: "TPMU_HA_ok b d \<Longrightarrow> length d = CryptHashGetDigestSize b"
  by (auto simp: TPMU_HA_ok_def CryptHashGetDigestSize_def split: if_splits)

lemma extend_step_ok:
  assumes "pcr_wf st" "hash_ok hash" "loc \<le> 4" "pcr_cmd_ok (PExtend h ds)"
    and room: "pcr_rc (pcrAllocated st) (orderly_blocked orderly nv) (g_NvStatus nv) loc (PExtend h ds) = TPM_RC_SUCCESS \<Longrightarrow>
      room (pcr_cost st (PExtend h ds)) st"
  defines "rc \<equiv> pcr_rc (pcrAllocated st) (orderly_blocked orderly nv) (g_NvStatus nv) loc (PExtend h ds)"
  shows "pcr_step_ok hash rc (if rc = TPM_RC_SUCCESS then pcr_log_of hash (PExtend h ds) else (\<lambda>_ _. []))
     (if rc = TPM_RC_SUCCESS then pcr_cost st (PExtend h ds) else 0) st nv (TPM2_PCR_Extend hash loc orderly h ds st nv)"
proof (cases "h = TPM_RH_NULL")
  case True
  have none: "extend_cost st 0x40000007 b = 0" for b by (simp add: extend_cost_def PcrIsAllocated_def)
  have "apply_events hash (pcr_log_of hash (PExtend TPM_RH_NULL ds)) 0 st = st"
    by (rule apply_events_none) (auto simp: PcrIsAllocated_def)
  then have "TPM2_PCR_Extend hash loc orderly TPM_RH_NULL ds st nv =
      Inr (TPM_RC_SUCCESS, apply_events hash (pcr_log_of hash (PExtend TPM_RH_NULL ds)) 0 st, nv)"
    by (simp add: TPM2_PCR_Extend_def)
  then show ?thesis
    using pcr_step_okI [OF _ assms(1,2), of _ TPM_RC_SUCCESS "pcr_log_of hash (PExtend TPM_RH_NULL ds)" 0 nv nv] True
    by (simp add: rc_def none)
next
  case False
  then have h: "unat h < 24" using assms(4) by (simp add: pcr_handle_ok_def)
  show ?thesis
  proof (cases "rc = TPM_RC_SUCCESS")
    case True
    have take: "length (ha_digest d) \<le> CryptHashGetDigestSize (ha_hashAlg d)" if "d \<in> set ds" for d
      using assms(4) that TPMU_HA_size by auto
    have eqs: "foldE (\<lambda>d. PCRExtend hash h (ha_hashAlg d) (take (CryptHashGetDigestSize (ha_hashAlg d)) (ha_digest d))) ds st =
        Inr (apply_events hash (\<lambda>b n. if n = unat h then map (\<lambda>d. EXT (take (CryptHashGetDigestSize (ha_hashAlg d)) (ha_digest d)))
          (filter (\<lambda>d. ha_hashAlg d = b) ds) else []) (pcr_cost st (PExtend h ds)) st)"
      using PCRExtend_list [OF assms(2) h assms(1), of ha_hashAlg ds "\<lambda>d. take (CryptHashGetDigestSize (ha_hashAlg d)) (ha_digest d)"]
        room True by (simp add: rc_def)
    also have "\<dots> = Inr (apply_events hash (pcr_log_of hash (PExtend h ds)) (pcr_cost st (PExtend h ds)) st)"
      by (rule arg_cong [of _ _ Inr], rule apply_events_cong) (auto simp: take intro!: arg_cong2 [of _ _ _ _ "replay hash _"] map_cong)
    finally show ?thesis
      using True h False pcr_step_okI [OF _ assms(1,2)]
      by (auto simp: rc_def TPM2_PCR_Extend_def PCRIsExtendAllowed_spec [OF assms(3)] IsStateSaved_ok unlessOrderly_ok orderly_blocked_def
          split: if_splits simp del: pcr_log_of.simps pcr_cost.simps)
  next
    case F: False
    then show ?thesis
      using h False pcr_step_ok_idle [OF _ assms(1,2)]
      by (auto simp: rc_def TPM2_PCR_Extend_def PCRIsExtendAllowed_spec [OF assms(3)] IsStateSaved_ok unlessOrderly_ok orderly_blocked_def
          split: if_splits simp del: pcr_log_of.simps pcr_cost.simps)
  qed
qed

lemma event_step_ok:
  assumes "pcr_wf st" "hash_ok hash" "loc \<le> 4" "pcr_cmd_ok (PEvent h e)"
    and room: "pcr_rc (pcrAllocated st) (orderly_blocked orderly nv) (g_NvStatus nv) loc (PEvent h e) = TPM_RC_SUCCESS \<Longrightarrow>
      room (pcr_cost st (PEvent h e)) st"
  defines "rc \<equiv> pcr_rc (pcrAllocated st) (orderly_blocked orderly nv) (g_NvStatus nv) loc (PEvent h e)"
  shows "pcr_step_ok hash rc (if rc = TPM_RC_SUCCESS then pcr_log_of hash (PEvent h e) else (\<lambda>_ _. []))
     (if rc = TPM_RC_SUCCESS then pcr_cost st (PEvent h e) else 0) st nv (pcr_step hash orderly loc (PEvent h e) st nv)"
proof -
  let ?body = "\<lambda>i (out, st). let b = CryptHashGetAlgByIndex i; digest = hash b e in
      bindE (if h \<noteq> TPM_RH_NULL then PCRExtend hash h b digest st else Inr st) (\<lambda>st.
      Inr (out @ [\<lparr>ha_hashAlg = b, ha_digest = digest\<rparr>], st))"
  have fold: "foldE ?body is (out, st) = bindE
      (foldE (\<lambda>i st. if h \<noteq> TPM_RH_NULL then PCRExtend hash h (CryptHashGetAlgByIndex i) (hash (CryptHashGetAlgByIndex i) e) st else Inr st) is st)
      (\<lambda>st. Inr (out @ map (\<lambda>i. \<lparr>ha_hashAlg = CryptHashGetAlgByIndex i, ha_digest = hash (CryptHashGetAlgByIndex i) e\<rparr>) is, st))" for "is" out st
    by (induction "is" arbitrary: out st) (auto simp: Let_def bindE_def split: sum.splits)
  show ?thesis
  proof (cases "h = TPM_RH_NULL")
    case True
    have none: "extend_cost st 0x40000007 b = 0" for b by (simp add: extend_cost_def PcrIsAllocated_def)
    have cost: "pcr_cost st (PEvent TPM_RH_NULL e) = 0" by (simp add: none HashDefArray_def)
    have "foldE (\<lambda>i st. Inr st) is st = Inr st" for "is" :: "nat list" by (induction "is") auto
    moreover have "apply_events hash (pcr_log_of hash (PEvent TPM_RH_NULL e)) 0 st = st"
      by (rule apply_events_none) (auto simp: PcrIsAllocated_def)
    ultimately show ?thesis
      using pcr_step_okI [OF _ assms(1,2), of _ TPM_RC_SUCCESS "pcr_log_of hash (PEvent TPM_RH_NULL e)" 0 nv nv] True fold
      by (simp add: rc_def cost TPM2_PCR_Event_def Let_def del: upt_rec_numeral pcr_cost.simps)
  next
    case False
    then have h: "unat h < 24" using assms(4) by (simp add: pcr_handle_ok_def)
    have upd: "foldE (\<lambda>i st. PCRExtend hash h (CryptHashGetAlgByIndex i) (hash (CryptHashGetAlgByIndex i) e) st) [0..<4] st =
        Inr (apply_events hash (pcr_log_of hash (PEvent h e)) (pcr_cost st (PEvent h e)) st)" if "rc = TPM_RC_SUCCESS"
    proof -
      have cost: "sum_list (map (\<lambda>i. extend_cost st (unat h) (CryptHashGetAlgByIndex i)) [0..<4]) = pcr_cost st (PEvent h e)"
        by (simp add: HashDefArray_index [symmetric] comp_def del: upt_rec_numeral)
      have "foldE (\<lambda>i st. PCRExtend hash h (CryptHashGetAlgByIndex i) (hash (CryptHashGetAlgByIndex i) e) st) [0..<4] st =
          Inr (apply_events hash (\<lambda>b n. if n = unat h then map (\<lambda>i. EXT (hash (CryptHashGetAlgByIndex i) e))
            (filter (\<lambda>i. CryptHashGetAlgByIndex i = b) [0..<4]) else []) (pcr_cost st (PEvent h e)) st)"
        using PCRExtend_list [OF assms(2) h assms(1), of CryptHashGetAlgByIndex "[0..<4]" "\<lambda>i. hash (CryptHashGetAlgByIndex i) e"]
          room that unfolding cost rc_def by blast
      also have "\<dots> = Inr (apply_events hash (pcr_log_of hash (PEvent h e)) (pcr_cost st (PEvent h e)) st)"
      proof (rule arg_cong [of _ _ Inr], rule apply_events_cong)
        fix b n assume "PcrIsAllocated st n b"
        then have "b \<in> set HashDefArray" by (rule allocated_hash(1) [OF assms(1)])
        then have "map (\<lambda>i. EXT (hash (CryptHashGetAlgByIndex i) e)) (filter (\<lambda>i. CryptHashGetAlgByIndex i = b) [0..<4]) = [EXT (hash b e)]"
          by (auto simp: HashDefArray_def CryptHashGetAlgByIndex_def upt_rec)
        then show "replay hash b (s_pcrs st (b, n)) (if n = unat h then map (\<lambda>i. EXT (hash (CryptHashGetAlgByIndex i) e))
            (filter (\<lambda>i. CryptHashGetAlgByIndex i = b) [0..<4]) else []) = replay hash b (s_pcrs st (b, n)) (pcr_log_of hash (PEvent h e) b n)"
          by simp
      qed simp
      finally show ?thesis .
    qed
    show ?thesis
      using h False pcr_step_okI [OF _ assms(1,2)] pcr_step_ok_idle [OF _ assms(1,2)] upd fold
      by (auto simp: rc_def TPM2_PCR_Event_def PCRIsExtendAllowed_spec [OF assms(3)] IsStateSaved_ok unlessOrderly_ok orderly_blocked_def Let_def
          split: if_splits simp del: pcr_log_of.simps pcr_cost.simps upt_rec_numeral)
  qed
qed

lemma reset_step_ok:
  assumes "pcr_wf st" "hash_ok hash" "loc \<le> 4" "pcr_cmd_ok (PReset h)"
    and room: "may_reset loc (unat h) \<Longrightarrow> room (bump (unat h)) st"
  shows "pcr_step_ok hash (if may_reset loc (unat h) then TPM_RC_SUCCESS else TPM_RC_LOCALITY)
     (if may_reset loc (unat h) then pcr_log_of hash (PReset h) else (\<lambda>_ _. []))
     (if may_reset loc (unat h) then bump (unat h) else 0) st nv (TPM2_PCR_Reset loc orderly h st nv)"
proof -
  have h: "unat h < 24" using assms(4) by (simp add: pcr_handle_ok_def)
  show ?thesis
  proof (cases "may_reset loc (unat h)")
    case True
    then have "\<not> unat h < 16" by (auto simp: may_reset_def)
    let ?st = "apply_events hash (\<lambda>b n. if n = unat h then [RST] else []) 0 st"
    have "room (bump (unat h)) ?st" using room True by (simp add: room_def)
    then have "PCRChanged h ?st = Inr (apply_events hash (\<lambda>b n. if n = unat h then [RST] else []) (bump (unat h)) st)"
      using PCRChanged_ok [OF h, of ?st hash] by (simp add: apply_events_append)
    moreover have "pcr_log_of hash (PReset h) = (\<lambda>b n. if n = unat h then [RST] else [])" by (simp add: fun_eq_iff)
    ultimately show ?thesis
      using True \<open>\<not> unat h < 16\<close> pcr_step_okI [OF _ assms(1,2)]
      by (simp add: TPM2_PCR_Reset_def PCRIsResetAllowed_spec [OF assms(3) h] IsStateSaved_ok [OF h] PCRSetValue_ok [OF assms(1,2)])
  next
    case False
    then show ?thesis
      using pcr_step_ok_idle [OF _ assms(1,2)]
      by (simp add: TPM2_PCR_Reset_def PCRIsResetAllowed_spec [OF assms(3) h])
  qed
qed

lemma no_groups: "unat h < 24 \<Longrightarrow> PCRBelongsAuthGroup h = Inr None \<and> PCRBelongsPolicyGroup h = Inr None"
  by (simp add: PCRBelongsAuthGroup_def PCRBelongsPolicyGroup_def platform_attributes Let_def)

lemma allocate_step_ok:
  assumes "pcr_wf st" "hash_ok hash" "pcr_cmd_ok (PAllocate ss)"
  shows "pcr_step_ok hash (pcr_rc (pcrAllocated st) blocked (g_NvStatus nv) loc (PAllocate ss)) (\<lambda>_ _. []) 0 st nv
    (pcr_step hash orderly loc (PAllocate ss) st nv)"
proof -
  let ?new = "fold merge_bank ss (pcrAllocated st)"
  have ss: "\<forall>s \<in> set ss. sel_ok s" using assms(3) by simp
  obtain avail where al: "PCRAllocate ss st nv = Inr (allocation_rc ?new, 24, word_of_nat (sum_list (map PCRAllocate_needed ?new)), avail,
     (if allocation_rc ?new = TPM_RC_SUCCESS
      then (st\<lparr>nv_pcrAllocated := ?new\<rparr>, nv\<lparr>g_updateNV := g_updateNV nv OR UT_NV\<rparr>)
      else (st, nv)))" and ok: "alloc_ok ?new"
    using PCRAllocate_ok [OF assms(1) ss] by blast
  have "pcr_wf (st\<lparr>nv_pcrAllocated := ?new, g_pcrReConfig := True\<rparr>)" using assms(1) ok by (simp add: pcr_wf_def)
  moreover have "s_pcrs (apply_events hash (\<lambda>_ _. []) 0 st) = s_pcrs st"
    by (simp add: apply_events_none)
  moreover have "allocation_rc ?new = TPM_RC_SUCCESS \<or> allocation_rc ?new = TPM_RC_PCR" by (simp add: allocation_rc_def)
  ultimately show ?thesis
    using assms(1) by (auto simp: pcr_step_ok_def TPM2_PCR_Allocate_def al Let_def)
qed

text \<open>Every command, on every branch.\<close>

lemma pcr_step_spec:
  fixes nv :: nv_state and orderly :: UINT16
  assumes "pcr_wf st" "hash_ok hash" "loc \<le> 4" "pcr_cmd_ok c"
  defines "rc \<equiv> pcr_rc (pcrAllocated st) (orderly_blocked orderly nv) (g_NvStatus nv) loc c"
  assumes "rc = TPM_RC_SUCCESS \<Longrightarrow> room (pcr_cost st c) st"
  shows "pcr_step_ok hash rc (if rc = TPM_RC_SUCCESS then pcr_log_of hash c else (\<lambda>_ _. []))
     (if rc = TPM_RC_SUCCESS then pcr_cost st c else 0) st nv (pcr_step hash orderly loc c st nv)"
proof (cases c)
  case (PExtend h ds)
  show ?thesis using extend_step_ok [OF assms(1-3), of h ds orderly nv] assms(4-) unfolding PExtend pcr_step.simps by blast
next
  case (PEvent h e)
  show ?thesis using event_step_ok [OF assms(1-3), of h e orderly nv] assms(4-) unfolding PEvent by blast
next
  case (PReset h)
  show ?thesis using reset_step_ok [OF assms(1-3), of h nv orderly] assms(4-) unfolding PReset
    by (auto simp: fun_eq_iff split: if_splits)
next
  case (PRead ss)
  obtain out ds where "PCRRead_list st ss [] = Inr (out, ds)"
    using PCRRead_list_ok [OF assms(1), of ss "[]"] assms(4) PRead by auto
  moreover have "pcr_log_of hash (PRead ss) = (\<lambda>_ _. [])" by (simp add: fun_eq_iff)
  ultimately show ?thesis
    using PRead pcr_step_ok_idle [OF _ assms(1,2), of _ TPM_RC_SUCCESS nv nv] by (simp add: rc_def TPM2_PCR_Read_def PCRRead_def)
next
  case (PAllocate ss)
  moreover have "pcr_log_of hash (PAllocate ss) = (\<lambda>_ _. [])" by (simp add: fun_eq_iff)
  ultimately show ?thesis
    using allocate_step_ok [OF assms(1,2), of ss "orderly_blocked orderly nv" nv loc orderly] assms(4) unfolding rc_def
    by (auto simp del: pcr_step.simps pcr_rc.simps)
next
  case (PSetAuthPolicy p a h)
  moreover have "pcr_log_of hash (PSetAuthPolicy p a h) = (\<lambda>_ _. [])" by (simp add: fun_eq_iff)
  ultimately show ?thesis
    using assms(4) no_groups [of h] pcr_step_ok_idle [OF _ assms(1,2)]
    by (simp add: rc_def TPM2_PCR_SetAuthPolicy_def pcr_handle_ok_def)
next
  case (PSetAuthValue h a)
  moreover have "pcr_log_of hash (PSetAuthValue h a) = (\<lambda>_ _. [])" by (simp add: fun_eq_iff)
  ultimately show ?thesis
    using assms(4) no_groups [of h] pcr_step_ok_idle [OF _ assms(1,2)]
    by (simp add: rc_def TPM2_PCR_SetAuthValue_def pcr_handle_ok_def)
qed

section \<open>Sequences of commands\<close>

text \<open>A call is the orderly state it finds, the locality it comes from and the command.\<close>

type_synonym pcr_call = "UINT16 \<times> UINT8 \<times> pcr_cmd"

primrec pcr_runs :: "hash_fun \<Rightarrow> pcr_call list \<Rightarrow> pcr_state \<Rightarrow> nv_state \<Rightarrow> (TPM_RC list \<times> pcr_state \<times> nv_state) fallible" where
  "pcr_runs hash [] st nv = Inr ([], st, nv)"
| "pcr_runs hash (x # xs) st nv = (case x of (orderly, loc, c) \<Rightarrow>
     bindE (pcr_step hash orderly loc c st nv) (\<lambda>(rc, st, nv).
     bindE (pcr_runs hash xs st nv) (\<lambda>(rcs, st, nv). Inr (rc # rcs, st, nv))))"

definition call_ok :: "pcr_call \<Rightarrow> bool" where
  "call_ok x \<longleftrightarrow> (case x of (orderly, loc, c) \<Rightarrow> loc \<le> 4 \<and> pcr_cmd_ok c)"

definition call_rc :: "TPMS_PCR_SELECTION list \<Rightarrow> TPM_RC \<Rightarrow> pcr_call \<Rightarrow> TPM_RC" where
  "call_rc banks status x = (case x of (orderly, loc, c) \<Rightarrow>
     pcr_rc banks (orderly < SU_DA_USED_VALUE \<and> status \<noteq> TPM_RC_SUCCESS) status loc c)"

definition call_log :: "hash_fun \<Rightarrow> TPMS_PCR_SELECTION list \<Rightarrow> TPM_RC \<Rightarrow> pcr_call \<Rightarrow> pcr_log" where
  "call_log hash banks status x = (if call_rc banks status x = TPM_RC_SUCCESS then pcr_log_of hash (snd (snd x)) else (\<lambda>_ _. []))"

definition call_cost :: "TPM_RC \<Rightarrow> pcr_state \<Rightarrow> pcr_call \<Rightarrow> nat" where
  "call_cost status st x = (if call_rc (pcrAllocated st) status x = TPM_RC_SUCCESS then pcr_cost st (snd (snd x)) else 0)"

definition run_log :: "hash_fun \<Rightarrow> TPMS_PCR_SELECTION list \<Rightarrow> TPM_RC \<Rightarrow> pcr_call list \<Rightarrow> pcr_log" where
  "run_log hash banks status xs b n = concat (map (\<lambda>x. call_log hash banks status x b n) xs)"

definition run_cost :: "TPM_RC \<Rightarrow> pcr_state \<Rightarrow> pcr_call list \<Rightarrow> nat" where
  "run_cost status st xs = sum_list (map (call_cost status st) xs)"

lemma pcr_cost_cong:
  assumes "pcrAllocated st' = pcrAllocated st"
  shows "pcr_cost st' c = pcr_cost st c"
proof -
  have "extend_cost st' = extend_cost st"
    by (simp add: extend_cost_def [abs_def] PcrIsAllocated_cong [OF assms])
  then show ?thesis by (cases c) simp_all
qed

lemma run_cost_cong:
  assumes "pcrAllocated st' = pcrAllocated st"
  shows "run_cost status st' xs = run_cost status st xs"
proof -
  have "call_cost status st' = call_cost status st"
    by (simp add: fun_eq_iff call_cost_def pcr_cost_cong [OF assms] assms)
  then show ?thesis by (simp add: run_cost_def)
qed

lemma pcr_runs_ok:
  assumes "hash_ok hash"
  shows "pcr_wf st \<Longrightarrow> \<forall>x \<in> set xs. call_ok x \<Longrightarrow> room (run_cost (g_NvStatus nv) st xs) st \<Longrightarrow>
    \<exists>st' nv'. pcr_runs hash xs st nv = Inr (map (call_rc (pcrAllocated st) (g_NvStatus nv)) xs, st', nv') \<and> pcr_wf st' \<and>
      pcrAllocated st' = pcrAllocated st \<and> pcrSave st' = pcrSave st \<and>
      s_pcrs st' = s_pcrs (apply_events hash (run_log hash (pcrAllocated st) (g_NvStatus nv) xs) 0 st) \<and>
      unat (pcrCounter st') = unat (pcrCounter st) + run_cost (g_NvStatus nv) st xs"
proof (induction xs arbitrary: st nv)
  case Nil
  moreover have "run_log hash (pcrAllocated st) (g_NvStatus nv) [] = (\<lambda>_ _. [])" by (simp add: run_log_def fun_eq_iff)
  ultimately show ?case by (simp add: run_cost_def apply_events_none)
next
  case (Cons x xs)
  obtain orderly loc c where x: "x = (orderly, loc, c)" by (cases x)
  let ?rc = "call_rc (pcrAllocated st) (g_NvStatus nv) x" and ?E = "call_log hash (pcrAllocated st) (g_NvStatus nv) x"
    and ?k = "call_cost (g_NvStatus nv) st x"
  have room: "room ?k st" and cost: "run_cost (g_NvStatus nv) st (x # xs) = ?k + run_cost (g_NvStatus nv) st xs"
    using Cons.prems(3) by (auto simp: run_cost_def elim: room_mono)
  have rc: "?rc = pcr_rc (pcrAllocated st) (orderly_blocked orderly nv) (g_NvStatus nv) loc c"
    by (simp add: x call_rc_def orderly_blocked_def)
  have ok: "loc \<le> 4" "pcr_cmd_ok c" using Cons.prems(2) by (simp_all add: x call_ok_def)
  have "?rc = TPM_RC_SUCCESS \<Longrightarrow> room (pcr_cost st c) st" using room by (simp add: call_cost_def x)
  from pcr_step_spec [OF Cons.prems(1) assms ok, of orderly nv, folded rc, OF this]
  have "pcr_step_ok hash ?rc ?E ?k st nv (pcr_step hash orderly loc c st nv)"
    by (simp only: call_log_def call_cost_def x snd_conv)
  then obtain st1 nv1 where s1: "pcr_step hash orderly loc c st nv = Inr (?rc, st1, nv1)" "pcr_wf st1"
      "pcrAllocated st1 = pcrAllocated st" "s_pcrs st1 = s_pcrs (apply_events hash ?E ?k st)"
      "pcrCounter st1 = pcrCounter st + word_of_nat ?k" "pcrSave st1 = pcrSave st" "g_NvStatus nv1 = g_NvStatus nv"
    unfolding pcr_step_ok_def by blast
  have u: "unat (pcrCounter st1) = unat (pcrCounter st) + ?k" using unat_counter [OF room] s1(5) by simp
  then have "room (run_cost (g_NvStatus nv1) st1 xs) st1"
    using Cons.prems(3) cost by (simp add: room_def s1(7) run_cost_cong [OF s1(3)])
  then obtain st2 nv2 where s2: "pcr_runs hash xs st1 nv1 = Inr (map (call_rc (pcrAllocated st1) (g_NvStatus nv1)) xs, st2, nv2)" "pcr_wf st2"
      "pcrAllocated st2 = pcrAllocated st1" "pcrSave st2 = pcrSave st1"
      "s_pcrs st2 = s_pcrs (apply_events hash (run_log hash (pcrAllocated st1) (g_NvStatus nv1) xs) 0 st1)"
      "unat (pcrCounter st2) = unat (pcrCounter st1) + run_cost (g_NvStatus nv1) st1 xs"
    using Cons.IH [OF s1(2), of nv1] Cons.prems(2) by (meson list.set_intros(2))
  have "s_pcrs st2 (b, n) = s_pcrs (apply_events hash (run_log hash (pcrAllocated st) (g_NvStatus nv) (x # xs)) 0 st) (b, n)" for b n
    using s1(3,4,7) PcrIsAllocated_cong [OF s1(3)] by (simp add: s2(5) run_log_def replay_append)
  then have "s_pcrs st2 = s_pcrs (apply_events hash (run_log hash (pcrAllocated st) (g_NvStatus nv) (x # xs)) 0 st)"
    by (metis ext surj_pair)
  moreover have "pcr_runs hash (x # xs) st nv = Inr (map (call_rc (pcrAllocated st) (g_NvStatus nv)) (x # xs), st2, nv2)"
    using s1(1) s2(1) unfolding x by (simp only: pcr_runs.simps prod.case bindE_simps s1(3,7) list.map)
  moreover have "unat (pcrCounter st2) = unat (pcrCounter st) + run_cost (g_NvStatus nv) st (x # xs)"
    using s2(6) u cost run_cost_cong [OF s1(3)] s1(7) by simp
  moreover have "pcrAllocated st2 = pcrAllocated st" "pcrSave st2 = pcrSave st" using s2(3,4) s1(3,6) by simp_all
  ultimately show ?case using s2(2) by blast
qed

lemma run_log_reset:
  assumes "RST \<in> set (run_log hash banks status xs b n)" "\<forall>x \<in> set xs. call_ok x"
  shows "n \<in> {16, 20, 21, 22, 23}"
proof -
  obtain orderly loc c where x: "(orderly, loc, c) \<in> set xs" "RST \<in> set (call_log hash banks status (orderly, loc, c) b n)"
    using assms(1) by (auto simp: run_log_def)
  then have log: "RST \<in> set (pcr_log_of hash c b n)" and rc: "call_rc banks status (orderly, loc, c) = TPM_RC_SUCCESS"
    by (simp_all add: call_log_def split: if_splits)
  from log obtain h where c: "c = PReset h" "n = unat h"
    by (cases c) (auto split: if_splits)
  with rc have "may_reset loc n" by (simp add: call_rc_def split: if_splits)
  then show ?thesis unfolding may_reset_def by blast
qed

lemma sum_list_zero: "sum_list (map f xs) = (0 :: nat) \<Longrightarrow> x \<in> set xs \<Longrightarrow> f x = 0"
  by (induction xs) auto

lemma free_command_no_events:
  assumes "pcr_wf st" "pcr_cost st c = 0" "PcrIsAllocated st n b" "\<not> uncounted n"
  shows "pcr_log_of hash c b n = []"
proof (cases c)
  case (PExtend h ds)
  have "ha_hashAlg d \<noteq> b" if "d \<in> set ds" "n = unat h" for d
  proof
    assume "ha_hashAlg d = b"
    moreover have "extend_cost st (unat h) (ha_hashAlg d) = 0"
      using assms(2) that(1) unfolding PExtend pcr_cost.simps by (rule sum_list_zero)
    ultimately show False using assms(3,4) that(2) by (simp add: extend_cost_def bump_def)
  qed
  then show ?thesis unfolding PExtend pcr_log_of.simps by (simp add: filter_empty_conv)
next
  case (PEvent h e)
  have "extend_cost st (unat h) b = 0"
    using assms(2) allocated_hash(1) [OF assms(1,3)] unfolding PEvent pcr_cost.simps by (rule sum_list_zero)
  then have "n \<noteq> unat h" using assms(3,4) by (auto simp: extend_cost_def bump_def)
  then show ?thesis unfolding PEvent pcr_log_of.simps by simp
next
  case (PReset h)
  then have "n \<noteq> unat h" using assms(2,4) by (auto simp: bump_def)
  then show ?thesis unfolding PReset pcr_log_of.simps by simp
qed simp_all

lemma free_run_no_events:
  assumes "pcr_wf st" "run_cost status st xs = 0" "PcrIsAllocated st n b" "\<not> uncounted n"
  shows "run_log hash (pcrAllocated st) status xs b n = []"
  using sum_list_zero [OF assms(2) [unfolded run_cost_def]] free_command_no_events [OF assms(1) _ assms(3,4)]
  by (fastforce simp: run_log_def call_log_def call_cost_def)

end
