(* ===== verification/FTPM_PCR_Theorems.thy ===== *)
theory FTPM_PCR_Theorems
  imports FTPM_PCR_Spec
begin

unbundle bit_operations_syntax

text \<open>
  Startup and state save of the registers, and the properties of the registers: what any sequence
  of commands leaves in them, what an orderly shutdown keeps, and what a read reports.
\<close>

section \<open>Loops over registers and banks\<close>

lemma foldE_append: "foldE f (xs @ ys) s = bindE (foldE f xs s) (foldE f ys)"
  by (induction xs arbitrary: s) (auto simp: bindE_def split: sum.splits)

lemma foldE_Suc: "foldE f [0..<Suc k] s = bindE (foldE f [0..<k] s) (f k)"
  by (simp add: foldE_append) (auto simp: bindE_def split: sum.splits)

text \<open>A loop over the banks of one register that stores a value that does not depend on the other banks.\<close>

definition set_banks :: "nat \<Rightarrow> TPM_ALG_ID set \<Rightarrow> (TPM_ALG_ID \<Rightarrow> BYTE list) \<Rightarrow> pcr_state \<Rightarrow> pcr_state" where
  "set_banks n B v st =
     st\<lparr>s_pcrs := (\<lambda>(b, m). if m = n \<and> b \<in> B \<and> PcrIsAllocated st n b then v b else s_pcrs st (b, m))\<rparr>"

lemma set_banks_simps [simp]:
  "pcrAllocated (set_banks n B v st) = pcrAllocated st" "pcrSave (set_banks n B v st) = pcrSave st"
  "g_DrtmPreStartup (set_banks n B v st) = g_DrtmPreStartup st" "pcrCounter (set_banks n B v st) = pcrCounter st"
  "PcrIsAllocated (set_banks n B v st) = PcrIsAllocated st"
  by (simp_all add: set_banks_def PcrIsAllocated_def fun_eq_iff)

lemma set_banks_empty: "set_banks n {} v st = st"
  by (simp add: set_banks_def case_prod_beta')

lemma set_banks_insert:
  "set_banks n B v (if PcrIsAllocated st n b then pcr_put (b, n) (v b) st else st) = set_banks n (insert b B) v st"
proof (cases "PcrIsAllocated st n b")
  case True
  have "PcrIsAllocated (pcr_put (b, n) (v b) st) = PcrIsAllocated st" by (rule PcrIsAllocated_cong) simp
  then show ?thesis using True by (auto simp: set_banks_def pcr_put_def fun_eq_iff intro!: arg_cong [of _ _ "\<lambda>f. s_pcrs_update f st"])
next
  case False
  then have "(\<lambda>(b', m). if m = n \<and> b' \<in> B \<and> PcrIsAllocated st n b' then v b' else s_pcrs st (b', m)) =
      (\<lambda>(b', m). if m = n \<and> b' \<in> insert b B \<and> PcrIsAllocated st n b' then v b' else s_pcrs st (b', m))"
    by (auto simp: fun_eq_iff)
  then show ?thesis using False by (simp add: set_banks_def)
qed

lemma set_banks_wf:
  assumes "pcr_wf st" "\<And>b. PcrIsAllocated st n b \<Longrightarrow> length (v b) = CryptHashGetDigestSize b"
  shows "pcr_wf (set_banks n B v st)"
  using assms by (auto simp: pcr_wf_def set_banks_def)

lemma bank_loop:
  assumes step: "\<And>s st. s \<in> set ss \<Longrightarrow> P st \<Longrightarrow>
      f (sel_hash s) st = Inr (if PcrIsAllocated st n (sel_hash s) then pcr_put (sel_hash s, n) (v (sel_hash s)) st else st)"
    and keep: "\<And>b st. P st \<Longrightarrow> PcrIsAllocated st n b \<Longrightarrow> P (pcr_put (b, n) (v b) st)"
  shows "P st \<Longrightarrow> foldE (\<lambda>s. f (sel_hash s)) ss st = Inr (set_banks n (sel_hash ` set ss) v st)"
  using step
proof (induction ss arbitrary: st)
  case Nil
  then show ?case by (simp add: set_banks_empty)
next
  case (Cons s ss)
  let ?st = "if PcrIsAllocated st n (sel_hash s) then pcr_put (sel_hash s, n) (v (sel_hash s)) st else st"
  have "P ?st" using keep Cons.prems(1) by simp
  moreover have "f (sel_hash s) st = Inr ?st" using Cons.prems by simp
  ultimately have "foldE (\<lambda>s. f (sel_hash s)) (s # ss) st = Inr (set_banks n (sel_hash ` set ss) v ?st)"
    using Cons.IH [of ?st] Cons.prems(2) by simp
  then show ?case by (simp only: set_banks_insert list.set image_insert)
qed

section \<open>Startup\<close>

text \<open>The value a register starts with when it is not restored.\<close>

definition startup_value :: "BYTE \<Rightarrow> nat \<Rightarrow> TPM_ALG_ID \<Rightarrow> BYTE list" where
  "startup_value loc n b =
     (let d = replicate (CryptHashGetDigestSize b) (if reset_to_ones n then 0xFF else 0) in
      if n = 0 then d[length d - 1 := loc] else d)"

lemma length_startup_value [simp]: "length (startup_value loc n b) = CryptHashGetDigestSize b"
  by (simp add: startup_value_def Let_def)

lemma initial_value_ok:
  assumes "n < 24" "0 < CryptHashGetDigestSize b" "length d = CryptHashGetDigestSize b"
  shows "platPcr_GetInitialValueForPcr n b loc d (CryptHashGetDigestSize b) =
    Inr (TPM_RC_SUCCESS, startup_value loc n b, CryptHashGetDigestSize b)"
  using assms platform_attributes(5) [OF assms(1)]
  by (auto simp: platPcr_GetInitialValueForPcr_def startup_value_def mem_fill_def mem_store_def Let_def)

definition resumes :: "STARTUP_TYPE \<Rightarrow> nat \<Rightarrow> bool" where
  "resumes type n \<longleftrightarrow> type = SU_RESUME \<and> n < 16"

definition startup_reg :: "STARTUP_TYPE \<Rightarrow> BYTE \<Rightarrow> pcr_state \<Rightarrow> nat \<Rightarrow> TPM_ALG_ID \<Rightarrow> BYTE list" where
  "startup_reg type loc st n b = (if resumes type n then pcrSave st (b, n) else startup_value loc n b)"

lemma length_startup_reg:
  "pcr_wf st \<Longrightarrow> PcrIsAllocated st n b \<Longrightarrow> length (startup_reg type loc st n b) = CryptHashGetDigestSize b"
  using allocated_hash [of st n b] by (auto simp: startup_reg_def resumes_def pcr_wf_def)

lemma PCRStartup_bank_ok:
  assumes wf: "pcr_wf st" and n: "n < 24"
  shows "PCRStartup_bank loc n (resumes type n) n b st =
    Inr (if PcrIsAllocated st n b then pcr_put (b, n) (startup_reg type loc st n b) st else st)"
proof (cases "PcrIsAllocated st n b")
  case True
  note b = allocated_hash [OF wf True]
  have sz: "0 < CryptHashGetDigestSize b" using HashDefArray_size b(1) by blast
  have save: "length (pcrSave st (b, n)) = CryptHashGetDigestSize b" if "n < 16"
    using wf b(1) that by (simp add: pcr_wf_def)
  show ?thesis
    using True b save initial_value_ok [OF n sz b(3)]
    by (auto simp: PCRStartup_bank_def GetPcrPointer_wf [OF wf] GetSavedPcrPointer_def startup_reg_def resumes_def Let_def)
qed (simp add: PCRStartup_bank_def GetPcrPointer_wf [OF wf])

lemma alloc_banks: "pcr_wf st \<Longrightarrow> sel_hash ` set (pcrAllocated st) = set HashDefArray"
  by (metis pcr_wf_def alloc_ok_def list.set_map)

definition keeps_shape :: "pcr_state \<Rightarrow> pcr_state \<Rightarrow> bool" where
  "keeps_shape st st' \<longleftrightarrow> pcr_wf st' \<and> pcrSave st' = pcrSave st"

lemma PCRStartup_banks_ok:
  assumes wf: "pcr_wf st" and n: "n < 24"
  shows "foldE (\<lambda>s. PCRStartup_bank loc n (resumes type n) n (sel_hash s)) (pcrAllocated st) st =
    Inr (set_banks n UNIV (startup_reg type loc st n) st)"
proof -
  have "foldE (\<lambda>s. PCRStartup_bank loc n (resumes type n) n (sel_hash s)) (pcrAllocated st) st =
      Inr (set_banks n (sel_hash ` set (pcrAllocated st)) (startup_reg type loc st n) st)"
  proof (rule bank_loop [where P = "\<lambda>st'. keeps_shape st st'"])
    fix s st' assume "keeps_shape st st'"
    then have "pcr_wf st'" "startup_reg type loc st' n = startup_reg type loc st n"
      by (simp_all add: keeps_shape_def startup_reg_def fun_eq_iff)
    then show "PCRStartup_bank loc n (resumes type n) n (sel_hash s) st' =
        Inr (if PcrIsAllocated st' n (sel_hash s) then pcr_put (sel_hash s, n) (startup_reg type loc st n (sel_hash s)) st' else st')"
      using PCRStartup_bank_ok [OF _ n] by simp
  next
    fix b st' assume k: "keeps_shape st st'" and "PcrIsAllocated st' n b"
    then have "length (startup_reg type loc st' n b) = CryptHashGetDigestSize b" "startup_reg type loc st' n b = startup_reg type loc st n b"
      using length_startup_reg by (auto simp: keeps_shape_def startup_reg_def)
    then show "keeps_shape st (pcr_put (b, n) (startup_reg type loc st n b) st')"
      using k by (simp add: keeps_shape_def pcr_put_wf)
  qed (simp add: keeps_shape_def wf)
  moreover have "set_banks n (set HashDefArray) v st = set_banks n UNIV v st" for v
    using allocated_hash(1) [OF wf] by (auto simp: set_banks_def fun_eq_iff intro!: arg_cong [of _ _ "\<lambda>f. s_pcrs_update f st"])
  ultimately show ?thesis by (simp add: alloc_banks [OF wf])
qed

text \<open>The loop over the registers, up to a register.\<close>

definition startup_cost :: "STARTUP_TYPE \<Rightarrow> nat \<Rightarrow> nat" where
  "startup_cost type k = sum_list (map (\<lambda>n. if resumes type n then 0 else bump n) [0..<k])"

definition startup_skips :: "STARTUP_TYPE \<Rightarrow> pcr_state \<Rightarrow> nat \<Rightarrow> bool" where
  "startup_skips type st n \<longleftrightarrow> n = 0 \<and> type \<noteq> SU_RESUME \<and> g_DrtmPreStartup st"

definition started :: "STARTUP_TYPE \<Rightarrow> BYTE \<Rightarrow> nat \<Rightarrow> pcr_state \<Rightarrow> pcr_state" where
  "started type loc k st =
     st\<lparr>s_pcrs := (\<lambda>(b, n). if n < k \<and> PcrIsAllocated st n b \<and> \<not> startup_skips type st n
                            then startup_reg type loc st n b else s_pcrs st (b, n)),
        pcrCounter := pcrCounter st + word_of_nat (startup_cost type k)\<rparr>"

lemma started_simps [simp]:
  "pcrAllocated (started type loc k st) = pcrAllocated st" "pcrSave (started type loc k st) = pcrSave st"
  "g_DrtmPreStartup (started type loc k st) = g_DrtmPreStartup st" "PcrIsAllocated (started type loc k st) = PcrIsAllocated st"
  "pcrCounter (started type loc k st) = pcrCounter st + word_of_nat (startup_cost type k)"
  by (simp_all add: started_def PcrIsAllocated_def fun_eq_iff)

lemma started_wf: "pcr_wf st \<Longrightarrow> pcr_wf (started type loc k st)"
  using length_startup_reg [of st] by (auto simp: pcr_wf_def started_def)

lemma startup_cost_Suc: "startup_cost type (Suc k) = startup_cost type k + (if resumes type k then 0 else bump k)"
  by (simp add: startup_cost_def)

lemma startup_cost_mono: "j \<le> k \<Longrightarrow> startup_cost type j \<le> startup_cost type k"
proof (induction k)
  case (Suc k)
  then show ?case by (cases "j = Suc k") (auto simp: startup_cost_Suc)
qed simp

lemma started_step:
  assumes st1: "st1 = (started type loc k st)\<lparr>pcrCounter := pcrCounter (started type loc k st) + word_of_nat j\<rparr>"
    and cost: "startup_cost type (Suc k) = startup_cost type k + j"
  shows "started type loc (Suc k) st = (if startup_skips type st k then st1 else set_banks k UNIV (startup_reg type loc st1 k) st1)"
proof -
  have al: "PcrIsAllocated st1 = PcrIsAllocated st" by (rule PcrIsAllocated_cong) (simp add: st1)
  have rg: "startup_reg type loc st1 k = startup_reg type loc st k" by (simp add: st1 startup_reg_def fun_eq_iff)
  have "s_pcrs (started type loc (Suc k) st) = s_pcrs (if startup_skips type st k then st1 else set_banks k UNIV (startup_reg type loc st1 k) st1)"
    unfolding rg
  proof (rule ext)
    fix p :: pcr_pointer
    obtain b n where p: "p = (b, n)" by (cases p)
    have s1: "s_pcrs st1 = s_pcrs (started type loc k st)" by (simp add: st1)
    show "s_pcrs (started type loc (Suc k) st) p =
        s_pcrs (if startup_skips type st k then st1 else set_banks k UNIV (startup_reg type loc st k) st1) p"
      by (cases "n = k") (auto simp: p set_banks_def al s1 started_def less_Suc_eq)
  qed
  then show ?thesis
    using cost by (simp add: st1 started_def set_banks_def add.assoc split: if_splits)
qed

lemma PCRStartup_bank_index: "PCRStartup_bank loc n False i = PCRStartup_bank loc n False j"
  by (intro ext) (simp only: PCRStartup_bank_def if_False Let_def)

lemma PCRStartup_pcr_ok:
  assumes wf: "pcr_wf st" and n: "n < 24" and room: "room (startup_cost type (Suc n)) st"
  shows "PCRStartup_pcr type loc n (if type = SU_RESUME then min n 16 else 0, started type loc n st) =
    Inr (if type = SU_RESUME then min (Suc n) 16 else 0, started type loc (Suc n) st)"
proof -
  let ?s = "started type loc n st" and ?j = "if resumes type n then 0 else bump n"
  let ?s1 = "?s\<lparr>pcrCounter := pcrCounter ?s + word_of_nat ?j\<rparr>"
  have attr: "stateSave (platPcr_GetPcrInitializationAttributes n) \<longleftrightarrow> n < 16" by (rule platform_attributes(1) [OF n])
  have sv: "(type = SU_RESUME \<and> stateSave (platPcr_GetPcrInitializationAttributes n)) = resumes type n"
    by (simp add: attr resumes_def)
  have w1: "pcr_wf ?s1" using started_wf [OF wf, of type loc n] by (simp add: pcr_wf_def)
  have un: "unat (word_of_nat n :: UINT32) = n" using n by (simp add: unat_of_nat take_bit_nat_eq_self)
  have "room (bump n) ?s" if "\<not> resumes type n"
    using room that unat_counter [OF room_mono [OF room, of "startup_cost type n"]] by (simp add: room_def startup_cost_Suc)
  then have c: "(if resumes type n then Inr ?s else PCRChanged (word_of_nat n) ?s) = Inr ?s1"
    using PCRChanged_ok [of "word_of_nat n" ?s] n by (auto simp: un apply_events_count)
  have b: "foldE (\<lambda>s. PCRStartup_bank loc n (resumes type n) n (sel_hash s)) (pcrAllocated ?s1) ?s1 =
      Inr (set_banks n UNIV (startup_reg type loc ?s1 n) ?s1)"
    by (rule PCRStartup_banks_ok [OF w1 n])
  have ix: "foldE (\<lambda>s. PCRStartup_bank loc n (resumes type n) i (sel_hash s)) xs t =
      foldE (\<lambda>s. PCRStartup_bank loc n (resumes type n) n (sel_hash s)) xs t"
    if "i = (if type = SU_RESUME then min n 16 else 0)" for i xs t
  proof (cases "resumes type n")
    case True
    then show ?thesis using that by (simp add: resumes_def)
  next
    case False
    then show ?thesis using PCRStartup_bank_index [of loc n i n] by simp
  qed
  have st: "started type loc (Suc n) st = (if startup_skips type st n then ?s1 else set_banks n UNIV (startup_reg type loc ?s1 n) ?s1)"
    by (rule started_step [OF refl]) (simp add: startup_cost_Suc)
  have ck: "n = 0 \<and> type \<noteq> SU_RESUME \<and> g_DrtmPreStartup ?s1 \<longleftrightarrow> startup_skips type st n" by (simp add: startup_skips_def)
  have res: "startup_skips type st n \<Longrightarrow> type \<noteq> SU_RESUME" by (simp add: startup_skips_def)
  show ?thesis
    unfolding PCRStartup_pcr_def prod.case Let_def sv c bindE_simps ck st ix [OF refl] b
    using res by (auto simp: resumes_def)
qed

lemma PCRStartup_loop:
  assumes "pcr_wf st" "room (startup_cost type 24) st" "k \<le> 24"
  shows "foldE (PCRStartup_pcr type loc) [0..<k] (0, st) = Inr (if type = SU_RESUME then min k 16 else 0, started type loc k st)"
  using assms(3)
proof (induction k)
  case 0
  have "(\<lambda>(b, n). s_pcrs st (b, n)) = s_pcrs st" by auto
  then show ?case by (simp add: started_def startup_cost_def)
next
  case (Suc k)
  have "room (startup_cost type (Suc k)) st" using room_mono [OF assms(2)] startup_cost_mono [OF Suc.prems] by blast
  then show ?case
    using Suc PCRStartup_pcr_ok [OF assms(1), of k type loc] unfolding foldE_Suc by simp
qed

lemma PCRStartup_ok:
  assumes "pcr_wf st" "type \<noteq> SU_RESET \<Longrightarrow> room (startup_cost type 24) st"
  defines "st0 \<equiv> (if type = SU_RESET then st\<lparr>pcrCounter := 0, g_pcrReConfig := False\<rparr> else st\<lparr>g_pcrReConfig := False\<rparr>)"
  shows "PCRStartup type loc st = Inr (if type = SU_RESUME then started type loc 24 st0 else PCR_ClearAuth (started type loc 24 st0))"
proof -
  have "room (startup_cost type 24) st0"
  proof (cases "type = SU_RESET")
    case True
    have "startup_cost SU_RESET 24 = 20" by (simp add: startup_cost_def resumes_def bump_def uncounted_def upt_rec)
    then show ?thesis using True by (simp add: room_def st0_def)
  next
    case False
    then show ?thesis using assms(2) by (simp add: room_def st0_def)
  qed
  moreover have "pcr_wf st0" using assms(1) by (simp add: pcr_wf_def st0_def)
  ultimately have "foldE (PCRStartup_pcr type loc) [0..<24] (0, st0) = Inr (if type = SU_RESUME then 16 else 0, started type loc 24 st0)"
    using PCRStartup_loop [of st0 type 24 loc] by simp
  moreover have "(let st = st\<lparr>g_pcrReConfig := False\<rparr> in if type \<noteq> SU_RESUME \<and> type \<noteq> SU_RESTART then st\<lparr>pcrCounter := 0\<rparr> else st) = st0"
    by (cases type) (simp_all add: st0_def)
  ultimately show ?thesis by (simp add: PCRStartup_def Let_def del: upt_rec_numeral split: if_splits)
qed

section \<open>State save\<close>

definition saved :: "nat \<Rightarrow> pcr_state \<Rightarrow> pcr_state" where
  "saved k st = st\<lparr>pcrSave := (\<lambda>(b, n). if n < k \<and> n < 16 \<and> PcrIsAllocated st n b then s_pcrs st (b, n) else pcrSave st (b, n))\<rparr>"

definition save_banks :: "nat \<Rightarrow> TPM_ALG_ID set \<Rightarrow> pcr_state \<Rightarrow> pcr_state" where
  "save_banks n B st =
     st\<lparr>pcrSave := (\<lambda>(b, m). if m = n \<and> b \<in> B \<and> PcrIsAllocated st n b then s_pcrs st (b, n) else pcrSave st (b, m))\<rparr>"

lemma saved_wf: "pcr_wf st \<Longrightarrow> pcr_wf (saved k st)"
  by (auto simp: pcr_wf_def saved_def)

lemma PCRStateSave_bank_ok:
  assumes wf: "pcr_wf st" and n: "n < 24"
  shows "PCRStateSave_bank n (n < 16) (min n 16) b st = Inr (if n < 16 then save_banks n {b} st else st)"
proof (cases "PcrIsAllocated st n b")
  case True
  note b = allocated_hash [OF wf True]
  have "length (pcrSave st (b, n)) = CryptHashGetDigestSize b" if "n < 16"
    using wf b(1) that by (simp add: pcr_wf_def)
  moreover have "(\<lambda>(b', m). if m = n \<and> b' \<in> {b} \<and> PcrIsAllocated st n b' then s_pcrs st (b', n) else pcrSave st (b', m)) =
      (pcrSave st)((b, n) := s_pcrs st (b, n))"
    using True by (auto simp: fun_eq_iff)
  ultimately show ?thesis
    using True b by (simp add: PCRStateSave_bank_def GetPcrPointer_wf [OF wf] GetSavedPcrPointer_def save_banks_def Let_def min_def)
next
  case False
  then have "(\<lambda>(b', m). if m = n \<and> b' \<in> {b} \<and> PcrIsAllocated st n b' then s_pcrs st (b', n) else pcrSave st (b', m)) = pcrSave st"
    by (auto simp: fun_eq_iff)
  then show ?thesis using False by (simp add: PCRStateSave_bank_def GetPcrPointer_wf [OF wf] save_banks_def)
qed

lemma save_banks_join: "save_banks n B (save_banks n {b} st) = save_banks n (insert b B) st"
proof -
  have al: "PcrIsAllocated (save_banks n {b} st) = PcrIsAllocated st" by (rule PcrIsAllocated_cong) (simp add: save_banks_def)
  have "pcrSave (save_banks n B (save_banks n {b} st)) = pcrSave (save_banks n (insert b B) st)"
    unfolding save_banks_def [of n B] al by (auto simp: save_banks_def fun_eq_iff)
  then show ?thesis by (simp add: save_banks_def)
qed

lemma save_banks_wf: "pcr_wf st \<Longrightarrow> n < 16 \<Longrightarrow> pcr_wf (save_banks n B st)"
  by (auto simp: pcr_wf_def save_banks_def)

lemma PCRStateSave_banks_ok:
  assumes "pcr_wf st" "n < 24"
  shows "foldE (\<lambda>s. PCRStateSave_bank n (n < 16) (min n 16) (sel_hash s)) ss st =
    Inr (if n < 16 then save_banks n (sel_hash ` set ss) st else st)"
  using assms(1)
proof (induction ss arbitrary: st)
  case Nil
  have "(\<lambda>(b, m). pcrSave st (b, m)) = pcrSave st" by auto
  then show ?case by (simp add: save_banks_def)
next
  case (Cons s ss)
  let ?st = "if n < 16 then save_banks n {sel_hash s} st else st"
  have "pcr_wf ?st" using Cons.prems save_banks_wf by simp
  from Cons.IH [OF this] show ?case
    using PCRStateSave_bank_ok [OF Cons.prems assms(2)] by (simp add: save_banks_join)
qed

lemma PCRStateSave_loop:
  assumes "pcr_wf st" "k \<le> 24"
  shows "foldE PCRStateSave_pcr [0..<k] (0, st) = Inr (min k 16, saved k st)"
  using assms(2)
proof (induction k)
  case 0
  have "(\<lambda>(b, n). pcrSave st (b, n)) = pcrSave st" by auto
  then show ?case by (simp add: saved_def)
next
  case (Suc k)
  have k: "k < 24" using Suc.prems by simp
  have al: "PcrIsAllocated (saved k st) = PcrIsAllocated st" by (rule PcrIsAllocated_cong) (simp add: saved_def)
  have "pcrSave (if k < 16 then save_banks k (set HashDefArray) (saved k st) else saved k st) = pcrSave (saved (Suc k) st)"
    using allocated_hash(1) [OF assms(1)] unfolding save_banks_def al by (auto simp: saved_def fun_eq_iff less_Suc_eq)
  then have "(if k < 16 then save_banks k (set HashDefArray) (saved k st) else saved k st) = saved (Suc k) st"
    by (simp add: save_banks_def saved_def split: if_splits)
  then have "foldE (\<lambda>s. PCRStateSave_bank k (k < 16) (min k 16) (sel_hash s)) (pcrAllocated (saved k st)) (saved k st) = Inr (saved (Suc k) st)"
    using PCRStateSave_banks_ok [OF saved_wf [OF assms(1), of k] k, of "pcrAllocated (saved k st)"]
    by (simp only: alloc_banks [OF saved_wf [OF assms(1), of k]])
  then have "PCRStateSave_pcr k (min k 16, saved k st) = Inr (min (Suc k) 16, saved (Suc k) st)"
    by (simp add: PCRStateSave_pcr_def platform_attributes(1) [OF k])
  then show ?case using Suc by (simp add: foldE_Suc del: upt_Suc)
qed

lemma PCRStateSave_ok: "pcr_wf st \<Longrightarrow> PCRStateSave TPM_SU_STATE st = Inr (saved 16 st)"
proof -
  assume wf: "pcr_wf st"
  have "n < 24 \<and> n < 16 \<and> A \<longleftrightarrow> n < 16 \<and> n < 16 \<and> A" for n :: nat and A by auto
  then have "saved 24 st = saved 16 st" unfolding saved_def by presburger
  then show ?thesis
    using PCRStateSave_loop [OF wf, of 24] by (simp add: PCRStateSave_def del: upt_rec_numeral)
qed

section \<open>A manufactured TPM\<close>

definition ex_pcr :: pcr_state where
  "ex_pcr = PCRManufacture \<lparr>s_pcrs = (\<lambda>(b, n). replicate (CryptHashGetDigestSize b) (word_of_nat n)),
     pcrSave = (\<lambda>(b, n). replicate (CryptHashGetDigestSize b) 0), pcrAllocated = [], nv_pcrAllocated = [],
     pcrPolicies = [], nv_pcrPolicies = [], pcrAuthValues = [], pcrCounter = 0, g_pcrReConfig = False, g_DrtmPreStartup = False\<rparr>"

lemma PCRManufacture_wf:
  assumes "\<And>b n. length (s_pcrs st (b, n)) = CryptHashGetDigestSize b" "\<And>b n. length (pcrSave st (b, n)) = CryptHashGetDigestSize b"
  shows "pcr_wf (PCRManufacture st)"
proof -
  have "alloc_ok (pcrAllocated (PCRManufacture st))"
    by (auto simp: PCRManufacture_def alloc_ok_def Let_def HashDefArray_index [symmetric] simp del: upt_rec_numeral)
  moreover have "nv_pcrAllocated (PCRManufacture st) = pcrAllocated (PCRManufacture st)" by (simp add: PCRManufacture_def Let_def)
  ultimately show ?thesis using assms by (simp add: pcr_wf_def) (simp add: PCRManufacture_def Let_def)
qed

lemma ex_pcr_wf: "pcr_wf ex_pcr"
  unfolding ex_pcr_def by (rule PCRManufacture_wf) simp_all

lemma ex_pcr_allocated: "PcrIsAllocated ex_pcr n b \<longleftrightarrow> n < 24 \<and> b \<in> {TPM_ALG_SHA256, TPM_ALG_SHA384}"
proof -
  have ff: "bit (0xFF :: BYTE) (n mod 8)"
  proof -
    have "bit (mask 8 :: BYTE) (n mod 8)" by (simp add: bit_mask_iff)
    then show ?thesis by (simp add: mask_eq_exp_minus_1)
  qed
  have al: "pcrAllocated ex_pcr =
    [\<lparr>sel_hash = TPM_ALG_SHA1, sizeofSelect = 3, pcrSelect = [0, 0, 0]\<rparr>, \<lparr>sel_hash = TPM_ALG_SHA256, sizeofSelect = 3, pcrSelect = [0xFF, 0xFF, 0xFF]\<rparr>,
     \<lparr>sel_hash = TPM_ALG_SHA384, sizeofSelect = 3, pcrSelect = [0xFF, 0xFF, 0xFF]\<rparr>, \<lparr>sel_hash = TPM_ALG_SHA512, sizeofSelect = 3, pcrSelect = [0, 0, 0]\<rparr>]"
    by (simp add: ex_pcr_def PCRManufacture_def Let_def CryptHashGetAlgByIndex_def HashDefArray_def platPcr_IsPcrBankDefaultActive_def
        DefaultActivePcrBanks_def upt_rec numeral_3_eq_3)
  have "n div 8 < 3" if "n < 24" using that by simp
  then have "pcr_bit n \<lparr>sel_hash = h, sizeofSelect = 3, pcrSelect = [0xFF, 0xFF, 0xFF]\<rparr>"
      "\<not> pcr_bit n \<lparr>sel_hash = h, sizeofSelect = 3, pcrSelect = [0, 0, 0]\<rparr>" if "n < 24" for h
    using that ff nth_mem [of "n div 8" "[0xFF, 0xFF, 0xFF :: BYTE]"] nth_mem [of "n div 8" "[0, 0, 0 :: BYTE]"]
    by (auto simp: pcr_bit_iff simp del: nth_mem)
  then show ?thesis by (auto simp: PcrIsAllocated_def al)
qed

section \<open>Properties\<close>

text \<open>
  C38. A register holds exactly the log of what was done to it.  Take any sequence of PCR commands, each from
  any of the localities 0 to 4, with any orderly state and with NV available or not.  As long as the
  counter does not run out, no assertion fails, every command returns the code of the table
  \<open>pcr_rc\<close>, and every register holds the value that replaying the accepted extends and resets
  on its former value gives; a refused command changes nothing.  Only the registers 16 and 20 to 23 can be
  set back, so that the others only ever get extended.  When the update counter is the same as before,
  no register outside the group that does not count has changed.
\<close>

theorem pcr_registers_replay:
  assumes "pcr_wf st" and "hash_ok hash" and "\<forall>x \<in> set xs. call_ok x" and "room (run_cost (g_NvStatus nv) st xs) st"
  shows "\<exists>st' nv'. pcr_runs hash xs st nv = Inr (map (call_rc (pcrAllocated st) (g_NvStatus nv)) xs, st', nv') \<and> pcr_wf st' \<and>
    (\<forall>b n. PcrIsAllocated st n b \<longrightarrow>
       s_pcrs st' (b, n) = replay hash b (s_pcrs st (b, n)) (run_log hash (pcrAllocated st) (g_NvStatus nv) xs b n)) \<and>
    (\<forall>b n. RST \<in> set (run_log hash (pcrAllocated st) (g_NvStatus nv) xs b n) \<longrightarrow> n \<in> {16, 20, 21, 22, 23}) \<and>
    (pcrCounter st' = pcrCounter st \<longrightarrow> (\<forall>b n. \<not> uncounted n \<longrightarrow> s_pcrs st' (b, n) = s_pcrs st (b, n)))"
proof -
  let ?L = "run_log hash (pcrAllocated st) (g_NvStatus nv) xs"
  obtain st' nv' where r: "pcr_runs hash xs st nv = Inr (map (call_rc (pcrAllocated st) (g_NvStatus nv)) xs, st', nv')" "pcr_wf st'"
      "s_pcrs st' = s_pcrs (apply_events hash ?L 0 st)" "unat (pcrCounter st') = unat (pcrCounter st) + run_cost (g_NvStatus nv) st xs"
    using pcr_runs_ok [OF assms(2,1,3,4)] by blast
  have "s_pcrs st' (b, n) = s_pcrs st (b, n)" if "pcrCounter st' = pcrCounter st" "\<not> uncounted n" for b n
  proof -
    have "run_cost (g_NvStatus nv) st xs = 0" using r(4) that(1) by simp
    then show ?thesis using free_run_no_events [OF assms(1) _ _ that(2)] by (simp add: r(3))
  qed
  then show ?thesis using r run_log_reset [OF _ assms(3)] by (intro exI [of _ st'] exI [of _ nv']) auto
qed

text \<open>An extend that is accepted and a reset that is refused.\<close>

definition ex_calls :: "pcr_call list" where
  "ex_calls = [(0xFFFF, 0, PExtend 7 [\<lparr>ha_hashAlg = TPM_ALG_SHA256, ha_digest = replicate 32 1\<rparr>]), (0xFFFF, 0, PReset 7)]"

lemma ex_pcr_fields:
  "s_pcrs ex_pcr (b, n) = replicate (CryptHashGetDigestSize b) (word_of_nat n)" "pcrCounter ex_pcr = 0"
  by (simp_all add: ex_pcr_def PCRManufacture_def Let_def del: upt_rec_numeral)

lemma ex_calls_rc:
  "call_rc banks TPM_RC_SUCCESS (0xFFFF, 0, PExtend 7 ds) = TPM_RC_SUCCESS"
  "call_rc banks TPM_RC_SUCCESS (0xFFFF, 0, PReset 7) = TPM_RC_LOCALITY"
  by (simp_all add: call_rc_def may_extend_def may_reset_def)

lemma ex_calls_ok: "\<forall>x \<in> set ex_calls. call_ok x"
  by (simp add: ex_calls_def call_ok_def pcr_handle_ok_def TPMU_HA_ok_def)

lemma ex_calls_cost: "run_cost TPM_RC_SUCCESS ex_pcr ex_calls = 1"
  by (simp add: ex_calls_def run_cost_def call_cost_def ex_calls_rc extend_cost_def bump_def uncounted_def ex_pcr_allocated)

lemma ex_calls_log: "run_log ex_hash banks TPM_RC_SUCCESS ex_calls b 7 = (if b = TPM_ALG_SHA256 then [EXT (replicate 32 1)] else [])"
  by (simp add: ex_calls_def run_log_def call_log_def ex_calls_rc)

theorem pcr_registers_replay_witness:
  "\<exists>st' nv'. pcr_runs ex_hash ex_calls ex_pcr (ex_state 0) = Inr ([TPM_RC_SUCCESS, TPM_RC_LOCALITY], st', nv') \<and>
    s_pcrs st' (TPM_ALG_SHA256, 7) = ex_hash TPM_ALG_SHA256 (replicate 32 7 @ replicate 32 1) \<and>
    s_pcrs st' (TPM_ALG_SHA384, 7) = replicate 48 7"
proof -
  have nv: "g_NvStatus (ex_state 0) = TPM_RC_SUCCESS" by (simp only: ex_state_def state_of_def nv_state.select_convs)
  have room: "room (run_cost (g_NvStatus (ex_state 0)) ex_pcr ex_calls) ex_pcr"
    unfolding nv ex_calls_cost by (simp add: room_def ex_pcr_fields)
  have rc: "map (call_rc (pcrAllocated ex_pcr) TPM_RC_SUCCESS) ex_calls = [TPM_RC_SUCCESS, TPM_RC_LOCALITY]"
    by (simp add: ex_calls_def ex_calls_rc)
  obtain st' nv' where r: "pcr_runs ex_hash ex_calls ex_pcr (ex_state 0) = Inr ([TPM_RC_SUCCESS, TPM_RC_LOCALITY], st', nv')"
    and v: "\<And>b n. PcrIsAllocated ex_pcr n b \<Longrightarrow>
       s_pcrs st' (b, n) = replay ex_hash b (s_pcrs ex_pcr (b, n)) (run_log ex_hash (pcrAllocated ex_pcr) TPM_RC_SUCCESS ex_calls b n)"
    using pcr_registers_replay [OF ex_pcr_wf ex_hash_ok ex_calls_ok room, unfolded nv rc] by (elim exE conjE) (rule that, assumption, simp only:)
  have "s_pcrs st' (TPM_ALG_SHA256, 7) = ex_hash TPM_ALG_SHA256 (replicate 32 7 @ replicate 32 1)"
    using v [of 7 TPM_ALG_SHA256] by (simp add: ex_pcr_allocated ex_calls_log ex_pcr_fields CryptHashGetDigestSize_def)
  moreover have "s_pcrs st' (TPM_ALG_SHA384, 7) = replicate 48 7"
    using v [of 7 TPM_ALG_SHA384] by (simp add: ex_pcr_allocated ex_calls_log ex_pcr_fields CryptHashGetDigestSize_def)
  ultimately show ?thesis using r by blast
qed

lemma startup_costs: "startup_cost SU_RESUME 24 = 4" "type \<noteq> SU_RESUME \<Longrightarrow> startup_cost type 24 = 20"
  by (simp_all add: startup_cost_def resumes_def bump_def uncounted_def upt_rec)

text \<open>A startup of either kind on a well-formed state.\<close>

lemma PCRStartup_regs:
  assumes wf: "pcr_wf st" and room: "room 20 st"
  shows "\<exists>st'. PCRStartup type loc st = Inr st' \<and> pcr_wf st' \<and>
    (\<forall>b n. PcrIsAllocated st n b \<longrightarrow>
       s_pcrs st' (b, n) = (if startup_skips type st n then s_pcrs st (b, n) else startup_reg type loc st n b)) \<and>
    pcrAuthValues st' = (if type = SU_RESUME then pcrAuthValues st else [[]]) \<and>
    unat (pcrCounter st') = (if type = SU_RESET then 0 else unat (pcrCounter st)) + startup_cost type 24"
proof -
  define st0 where "st0 = (if type = SU_RESET then st\<lparr>pcrCounter := 0, g_pcrReConfig := False\<rparr> else st\<lparr>g_pcrReConfig := False\<rparr>)"
  define st1 where "st1 = started type loc 24 st0"
  define st2 where "st2 = (if type = SU_RESUME then st1 else PCR_ClearAuth st1)"
  have r: "room (startup_cost type 24) st" "room (startup_cost type 24) st0"
    using room startup_costs by (cases type; simp add: room_def st0_def)+
  have run: "PCRStartup type loc st = Inr st2"
    unfolding st2_def st1_def st0_def by (rule PCRStartup_ok [OF wf]) (rule r(1))
  have w0: "pcr_wf st0" using wf by (simp add: st0_def pcr_wf_def)
  have w2: "pcr_wf st2" using started_wf [OF w0, of type loc 24] by (auto simp: st2_def st1_def PCR_ClearAuth_def pcr_wf_def)
  have al: "PcrIsAllocated st0 = PcrIsAllocated st" by (rule PcrIsAllocated_cong) (simp add: st0_def)
  have f0: "s_pcrs st0 = s_pcrs st" "startup_skips type st0 = startup_skips type st" "startup_reg type loc st0 = startup_reg type loc st"
      "pcrAuthValues st0 = pcrAuthValues st" "pcrCounter st0 = (if type = SU_RESET then 0 else pcrCounter st)"
    by (simp_all add: st0_def startup_skips_def startup_reg_def fun_eq_iff)
  have f2: "s_pcrs st2 = s_pcrs st1" "pcrCounter st2 = pcrCounter st1" by (simp_all add: st2_def PCR_ClearAuth_def)
  have "s_pcrs st2 (b, n) = (if startup_skips type st n then s_pcrs st (b, n) else startup_reg type loc st n b)" if "PcrIsAllocated st n b" for b n
    using that allocated_hash(2) [OF wf that] by (simp add: f2 st1_def started_def al f0)
  moreover have "pcrAuthValues st2 = (if type = SU_RESUME then pcrAuthValues st else [[]])"
    using f0(4) by (simp add: st2_def st1_def started_def PCR_ClearAuth_def)
  moreover have "unat (pcrCounter st2) = (if type = SU_RESET then 0 else unat (pcrCounter st)) + startup_cost type 24"
    using unat_counter [OF r(2)] f0(5) by (simp add: f2 st1_def)
  ultimately show ?thesis using run w2 by blast
qed

text \<open>
  C39. What an orderly shutdown saves, the next resume restores.  After \<^verbatim>\<open>TPM2_Shutdown(STATE)\<close> saved the
  registers, a startup that resumes from the saved data, with the same banks and whatever the RAM
  registers hold by then, gives back the registers 0 to 15 of every allocated bank and initializes all others: to
  ones where a reset from locality 4 is provided for, to zeros elsewhere.  A startup that does
  not resume initializes every register, register 0 with the startup locality in its last octet
  unless a measurement of the host firmware came before it, and clears the authorization values.
  The counter starts again at a reset and otherwise moves on.
\<close>

theorem pcr_save_resume:
  assumes "pcr_wf st"
  shows "\<exists>st1. PCRStateSave TPM_SU_STATE st = Inr st1 \<and> s_pcrs st1 = s_pcrs st \<and>
    (\<forall>st2 loc. pcr_wf st2 \<and> pcrSave st2 = pcrSave st1 \<and> pcrAllocated st2 = pcrAllocated st1 \<and> room 20 st2 \<longrightarrow>
      (\<exists>st3. PCRStartup SU_RESUME loc st2 = Inr st3 \<and> pcr_wf st3 \<and>
         (\<forall>b n. PcrIsAllocated st n b \<longrightarrow> s_pcrs st3 (b, n) = (if n < 16 then s_pcrs st (b, n) else startup_value loc n b)) \<and>
         pcrAuthValues st3 = pcrAuthValues st2 \<and> unat (pcrCounter st3) = unat (pcrCounter st2) + 4) \<and>
      (\<forall>type. type \<noteq> SU_RESUME \<longrightarrow> (\<exists>st3. PCRStartup type loc st2 = Inr st3 \<and> pcr_wf st3 \<and>
         (\<forall>b n. PcrIsAllocated st n b \<longrightarrow>
            s_pcrs st3 (b, n) = (if n = 0 \<and> g_DrtmPreStartup st2 then s_pcrs st2 (b, n) else startup_value loc n b)) \<and>
         pcrAuthValues st3 = [[]] \<and> unat (pcrCounter st3) = (if type = SU_RESET then 0 else unat (pcrCounter st2)) + 20)))"
proof (rule exI [of _ "saved 16 st"], intro conjI allI impI)
  show "PCRStateSave TPM_SU_STATE st = Inr (saved 16 st)" by (rule PCRStateSave_ok [OF assms])
  show "s_pcrs (saved 16 st) = s_pcrs st" by (simp add: saved_def)
  fix st2 :: pcr_state and loc :: BYTE
  assume st2: "pcr_wf st2 \<and> pcrSave st2 = pcrSave (saved 16 st) \<and> pcrAllocated st2 = pcrAllocated (saved 16 st) \<and> room 20 st2"
  then have al: "PcrIsAllocated st2 = PcrIsAllocated st" by (intro PcrIsAllocated_cong) (simp add: saved_def)
  have sv: "pcrSave st2 (b, n) = s_pcrs st (b, n)" if "PcrIsAllocated st n b" "n < 16" for b n
    using st2 that by (simp add: saved_def)
  have reg: "startup_reg SU_RESUME loc st2 n b = (if n < 16 then s_pcrs st (b, n) else startup_value loc n b)" if "PcrIsAllocated st n b" for b n
    using sv [OF that] by (simp add: startup_reg_def resumes_def)
  obtain st3 where "PCRStartup SU_RESUME loc st2 = Inr st3" "pcr_wf st3"
      "\<forall>b n. PcrIsAllocated st n b \<longrightarrow>
         s_pcrs st3 (b, n) = (if startup_skips SU_RESUME st2 n then s_pcrs st2 (b, n) else startup_reg SU_RESUME loc st2 n b)"
      "pcrAuthValues st3 = pcrAuthValues st2" "unat (pcrCounter st3) = unat (pcrCounter st2) + 4"
    using PCRStartup_regs [of st2 SU_RESUME loc] st2 by (auto simp: al startup_costs)
  then show "\<exists>st3. PCRStartup SU_RESUME loc st2 = Inr st3 \<and> pcr_wf st3 \<and>
         (\<forall>b n. PcrIsAllocated st n b \<longrightarrow> s_pcrs st3 (b, n) = (if n < 16 then s_pcrs st (b, n) else startup_value loc n b)) \<and>
         pcrAuthValues st3 = pcrAuthValues st2 \<and> unat (pcrCounter st3) = unat (pcrCounter st2) + 4"
    using reg by (intro exI [of _ st3]) (simp add: startup_skips_def)
  fix type :: STARTUP_TYPE
  assume ty: "type \<noteq> SU_RESUME"
  then have sk: "startup_skips type st2 n \<longleftrightarrow> n = 0 \<and> g_DrtmPreStartup st2" "startup_reg type loc st2 n b = startup_value loc n b" for n b
    by (simp_all add: startup_skips_def startup_reg_def resumes_def)
  show "\<exists>st3. PCRStartup type loc st2 = Inr st3 \<and> pcr_wf st3 \<and>
         (\<forall>b n. PcrIsAllocated st n b \<longrightarrow>
            s_pcrs st3 (b, n) = (if n = 0 \<and> g_DrtmPreStartup st2 then s_pcrs st2 (b, n) else startup_value loc n b)) \<and>
         pcrAuthValues st3 = [[]] \<and> unat (pcrCounter st3) = (if type = SU_RESET then 0 else unat (pcrCounter st2)) + 20"
    using PCRStartup_regs [of st2 type loc] st2 by (simp only: al sk startup_costs(2) [OF ty] ty if_False)
qed

theorem pcr_save_resume_witness:
  "\<exists>st1 st3. PCRStateSave TPM_SU_STATE ex_pcr = Inr st1 \<and>
     PCRStartup SU_RESUME 3 (st1\<lparr>s_pcrs := (\<lambda>(b, n). replicate (CryptHashGetDigestSize b) 0x55)\<rparr>) = Inr st3 \<and>
     s_pcrs st3 (TPM_ALG_SHA256, 9) = replicate 32 9 \<and> s_pcrs st3 (TPM_ALG_SHA256, 18) = replicate 32 0xFF"
proof -
  obtain st1 where st1: "PCRStateSave TPM_SU_STATE ex_pcr = Inr st1" and
    st3: "\<And>st2 loc. pcr_wf st2 \<Longrightarrow> pcrSave st2 = pcrSave st1 \<Longrightarrow> pcrAllocated st2 = pcrAllocated st1 \<Longrightarrow> room 20 st2 \<Longrightarrow>
      \<exists>st3. PCRStartup SU_RESUME loc st2 = Inr st3 \<and>
         (\<forall>b n. PcrIsAllocated ex_pcr n b \<longrightarrow> s_pcrs st3 (b, n) = (if n < 16 then s_pcrs ex_pcr (b, n) else startup_value loc n b))"
    using pcr_save_resume [OF ex_pcr_wf] by metis
  let ?st2 = "st1\<lparr>s_pcrs := (\<lambda>(b, n). replicate (CryptHashGetDigestSize b) 0x55)\<rparr>"
  have s: "st1 = saved 16 ex_pcr" using st1 PCRStateSave_ok [OF ex_pcr_wf] by simp
  have "pcr_wf ?st2" using saved_wf [OF ex_pcr_wf, of 16] by (simp add: s pcr_wf_def)
  moreover have "room 20 ?st2" by (simp add: s saved_def room_def ex_pcr_fields)
  ultimately obtain st3 where "PCRStartup SU_RESUME 3 ?st2 = Inr st3"
    and v: "\<forall>b n. PcrIsAllocated ex_pcr n b \<longrightarrow> s_pcrs st3 (b, n) = (if n < 16 then s_pcrs ex_pcr (b, n) else startup_value 3 n b)"
    using st3 [of ?st2 3] by auto
  moreover have "s_pcrs st3 (TPM_ALG_SHA256, 9) = replicate 32 9" "s_pcrs st3 (TPM_ALG_SHA256, 18) = replicate 32 0xFF"
    using v [rule_format, of 9 TPM_ALG_SHA256] v [rule_format, of 18 TPM_ALG_SHA256]
    by (simp_all add: ex_pcr_allocated ex_pcr_fields startup_value_def reset_to_ones_def CryptHashGetDigestSize_def)
  ultimately show ?thesis using st1 by blast
qed

text \<open>
  C40. A read of registers reports what it returns.  For every list of selections that
  \<^verbatim>\<open>TPM2_PCR_Read\<close> can unmarshal, the selections of the response name, bank by bank, the first
  eight of the registers that were asked for and are allocated, in order, and the digests
  of the response are the values of exactly those registers in that order.  A client that asks again for what is
  left therefore gets every register.
\<close>

theorem pcr_read_exact:
  assumes "pcr_wf st" and "TPML_PCR_SELECTION_Unmarshal bs = Inr (ss, rest)"
  shows "\<exists>out. TPM2_PCR_Read ss st = Inr (TPM_RC_SUCCESS, pcrCounter st, out, concat (map (values_of st) out)) \<and>
    map sel_hash out = map sel_hash ss \<and> map sel_bits out = cut 8 (map (wanted st) ss) \<and>
    concat (map sel_bits out) = take 8 (concat (map (wanted st) ss))"
proof -
  have "\<forall>s \<in> set ss. TPMS_PCR_SELECTION_ok s"
    using codec.sound [OF codec_TPML_PCR_SELECTION assms(2)] by blast
  then have "\<forall>s \<in> set ss. sel_ok s"
    by (auto simp: sel_ok_def TPMS_PCR_SELECTION_ok_def TPMI_ALG_HASH_ok_def HashDefArray_def)
  from PCRRead_list_ok [OF assms(1) this, of "[]"] obtain out where
    "PCRRead_list st ss [] = Inr (out, concat (map (values_of st) out))" "map sel_bits out = cut 8 (map (wanted st) ss)"
    "map sel_hash out = map sel_hash ss"
    by auto
  then show ?thesis
    by (intro exI [of _ out]) (simp add: TPM2_PCR_Read_def PCRRead_def concat_cut)
qed

theorem pcr_read_exact_witness:
  "\<exists>ss out. TPML_PCR_SELECTION_Unmarshal [0, 0, 0, 1, 0, 0x0B, 3, 0xFF, 0x03, 0] = Inr (ss, []) \<and>
     TPM2_PCR_Read ss ex_pcr = Inr (TPM_RC_SUCCESS, 0, out, concat (map (values_of ex_pcr) out)) \<and>
     map sel_bits out = [[0, 1, 2, 3, 4, 5, 6, 7]]"
proof -
  let ?s = "\<lparr>sel_hash = TPM_ALG_SHA256, sizeofSelect = 3, pcrSelect = [0xFF, 0x03, 0]\<rparr>"
  have u: "TPML_PCR_SELECTION_Unmarshal [0, 0, 0, 1, 0, 0x0B, 3, 0xFF, 0x03, 0] = Inr ([?s], [])"
    by code_simp
  have "wanted ex_pcr ?s = [0, 1, 2, 3, 4, 5, 6, 7, 8, 9]"
    by (simp add: wanted_def sel_bits_def ex_pcr_allocated pcr_bit_def upt_rec)
  then show ?thesis
    using pcr_read_exact [OF ex_pcr_wf u] u by (auto simp: ex_pcr_fields)
qed

end
