(* ===== verification/FTPM_Time.thy ===== *)
theory FTPM_Time
  imports FTPM_Handle
begin

text \<open>
  The tick timer of the platform (\<^verbatim>\<open>Clock.c\<close>, \<^verbatim>\<open>intercept.c\<close>), the TPM's
  time and clock (\<^verbatim>\<open>Time.c\<close>, \<^verbatim>\<open>ClockCommands.c\<close>) and the dictionary attack
  logic (\<^verbatim>\<open>DA.c\<close>, \<^verbatim>\<open>DictionaryCommands.c\<close> and the lockout functions of
  \<^verbatim>\<open>SessionProcess.c\<close>).

  The cycle counter of the hart is an argument of every routine that reads it.  The parts of
  \<^verbatim>\<open>gp\<close> and \<^verbatim>\<open>go\<close> that these routines use are records; \<open>nv_gp\<close> and
  \<open>nv_go\<close> are their images in NV, which \<^verbatim>\<open>NV_SYNC_PERSISTENT\<close> and
  \<^verbatim>\<open>NvWrite\<close> bring up to date.
\<close>

section \<open>Clock.c\<close>

abbreviation CLOCK_NOMINAL :: "'a::len word" where "CLOCK_NOMINAL \<equiv> 30000"
abbreviation CLOCK_ADJUST_COARSE :: UINT32 where "CLOCK_ADJUST_COARSE \<equiv> 300"
abbreviation CLOCK_ADJUST_MEDIUM :: UINT32 where "CLOCK_ADJUST_MEDIUM \<equiv> 30"
abbreviation CLOCK_ADJUST_FINE :: UINT32 where "CLOCK_ADJUST_FINE \<equiv> 1"
abbreviation CLOCK_ADJUST_LIMIT :: UINT32 where "CLOCK_ADJUST_LIMIT \<equiv> 5000"

record clock_state =
  s_realTimePrevious :: UINT64
  s_lastSystemTime :: UINT64
  s_lastReportedTime :: UINT64
  s_tpmTime :: UINT64
  s_timerReset :: bool
  s_timerStopped :: bool
  s_adjustRate :: UINT32

definition intercept_clock_gettime :: "UINT64 \<Rightarrow> UINT32 \<times> UINT32" where
  "intercept_clock_gettime cycles = (ucast (drop_bit 32 cycles), ucast cycles)"

definition plat_RealTime :: "UINT64 \<Rightarrow> UINT64" where
  "plat_RealTime cycles =
     (let (tv_sec, tv_nsec) = intercept_clock_gettime cycles in ucast tv_sec * 1000 + ucast tv_nsec div 1000000)"

definition plat_TimerReset :: "clock_state \<Rightarrow> clock_state" where
  "plat_TimerReset c = c\<lparr>s_lastSystemTime := 0, s_tpmTime := 0, s_adjustRate := CLOCK_NOMINAL,
     s_timerReset := True, s_timerStopped := True\<rparr>"

definition plat_TimerRestart :: "clock_state \<Rightarrow> clock_state" where
  "plat_TimerRestart c = c\<lparr>s_timerStopped := True\<rparr>"

text \<open>The part of \<^verbatim>\<open>_plat__TimerRead\<close> that follows the system time, up to the value of \<^verbatim>\<open>timeNow\<close>.\<close>

definition TimerRead_report :: "UINT64 \<Rightarrow> clock_state \<Rightarrow> clock_state" where
  "TimerRead_report timeNow c =
     (let c = (if s_lastSystemTime c = 0
               then c\<lparr>s_lastSystemTime := timeNow, s_lastReportedTime := 0, s_realTimePrevious := 0\<rparr> else c);
          c = (if timeNow < s_lastReportedTime c then c\<lparr>s_lastSystemTime := timeNow\<rparr> else c)
      in c\<lparr>s_lastReportedTime := s_lastReportedTime c + timeNow - s_lastSystemTime c, s_lastSystemTime := timeNow\<rparr>)"

definition plat_TimerRead :: "UINT64 \<Rightarrow> clock_state \<Rightarrow> UINT64 \<times> clock_state" where
  "plat_TimerRead cycles c =
     (let c = TimerRead_report (plat_RealTime cycles) c;
          timeNow = s_lastReportedTime c
      in if timeNow \<le> s_realTimePrevious c then (s_tpmTime c, c)
         else let timeDiff = timeNow - s_realTimePrevious c;
                  adjustedTimeDiff = (timeDiff * CLOCK_NOMINAL) div ucast (s_adjustRate c);
                  c = c\<lparr>s_tpmTime := s_tpmTime c + adjustedTimeDiff\<rparr>;
                  readjustedTimeDiff = (adjustedTimeDiff * ucast (s_adjustRate c)) div CLOCK_NOMINAL;
                  c = c\<lparr>s_realTimePrevious := s_realTimePrevious c + readjustedTimeDiff\<rparr>
              in (s_tpmTime c, c))"

definition plat_TimerWasReset :: "clock_state \<Rightarrow> bool \<times> clock_state" where
  "plat_TimerWasReset c = (s_timerReset c, c\<lparr>s_timerReset := False\<rparr>)"

definition plat_TimerWasStopped :: "clock_state \<Rightarrow> bool \<times> clock_state" where
  "plat_TimerWasStopped c = (s_timerStopped c, c\<lparr>s_timerStopped := False\<rparr>)"

datatype ClockAdjustStep =
    COARSE_SLOWER | MEDIUM_SLOWER | FINE_SLOWER | FINE_FASTER | MEDIUM_FASTER | COARSE_FASTER

definition plat_ClockRateAdjust :: "ClockAdjustStep \<Rightarrow> clock_state \<Rightarrow> clock_state" where
  "plat_ClockRateAdjust adjust c =
     (let r = s_adjustRate c;
          r = (case adjust of
                 COARSE_SLOWER \<Rightarrow> r + CLOCK_ADJUST_COARSE | MEDIUM_SLOWER \<Rightarrow> r + CLOCK_ADJUST_MEDIUM
               | FINE_SLOWER \<Rightarrow> r + CLOCK_ADJUST_FINE | FINE_FASTER \<Rightarrow> r - CLOCK_ADJUST_FINE
               | MEDIUM_FASTER \<Rightarrow> r - CLOCK_ADJUST_MEDIUM | COARSE_FASTER \<Rightarrow> r - CLOCK_ADJUST_COARSE);
          r = (if r > CLOCK_NOMINAL + CLOCK_ADJUST_LIMIT then CLOCK_NOMINAL + CLOCK_ADJUST_LIMIT else r);
          r = (if r < CLOCK_NOMINAL - CLOCK_ADJUST_LIMIT then CLOCK_NOMINAL - CLOCK_ADJUST_LIMIT else r)
      in c\<lparr>s_adjustRate := r\<rparr>)"

section \<open>State of Time.c and DA.c\<close>

text \<open>The fields of \<^verbatim>\<open>PERSISTENT_DATA\<close> and \<^verbatim>\<open>ORDERLY_DATA\<close> that time and DA use.\<close>

record time_persistent =
  failedTries :: UINT32
  maxTries :: UINT32
  recoveryTime :: UINT32
  lockoutRecovery :: UINT32
  lockOutAuthEnabled :: bool
  orderlyState :: UINT16
  timeEpoch :: UINT32
  resetCount :: UINT32

record time_orderly =
  go_clock :: UINT64
  clockSafe :: bool
  selfHealTimer :: UINT64
  lockoutTimer :: UINT64
  go_time :: UINT64

record time_state =
  plat :: clock_state
  gp :: time_persistent
  go :: time_orderly
  nv_gp :: time_persistent
  nv_go :: time_orderly
  g_time :: UINT64
  t_NvStatus :: TPM_RC
  t_updateNV :: BYTE
  g_prevOrderlyState :: UINT16
  g_initialized :: bool
  restartCount :: UINT32
  s_DAPendingOnNV :: bool

abbreviation NV_IS_AVAILABLE :: "time_state \<Rightarrow> bool" where "NV_IS_AVAILABLE st \<equiv> t_NvStatus st = TPM_RC_SUCCESS"

definition IS_ORDERLY :: "UINT16 \<Rightarrow> bool" where
  "IS_ORDERLY value = (value < 0xFFFE)"

abbreviation NV_IS_ORDERLY :: "time_state \<Rightarrow> bool" where "NV_IS_ORDERLY st \<equiv> IS_ORDERLY (orderlyState (gp st))"

text \<open>
  \<^verbatim>\<open>NV_SYNC_PERSISTENT(item)\<close> is \<^verbatim>\<open>NvWrite\<close> at the offset of one member of
  \<^verbatim>\<open>gp\<close>; the argument copies that member.
\<close>

definition NV_SYNC_PERSISTENT ::
  "(time_persistent \<Rightarrow> time_persistent \<Rightarrow> time_persistent) \<Rightarrow> time_state \<Rightarrow> time_state" where
  "NV_SYNC_PERSISTENT item st = st\<lparr>nv_gp := item (gp st) (nv_gp st), t_updateNV := t_updateNV st OR 1\<rparr>"

definition NvWrite_orderly :: "time_state \<Rightarrow> time_state" where
  "NvWrite_orderly st = st\<lparr>nv_go := go st, t_updateNV := t_updateNV st OR 1\<rparr>"

abbreviation "sync_failedTries \<equiv> NV_SYNC_PERSISTENT (\<lambda>s d. d\<lparr>failedTries := failedTries s\<rparr>)"
abbreviation "sync_maxTries \<equiv> NV_SYNC_PERSISTENT (\<lambda>s d. d\<lparr>maxTries := maxTries s\<rparr>)"
abbreviation "sync_recoveryTime \<equiv> NV_SYNC_PERSISTENT (\<lambda>s d. d\<lparr>recoveryTime := recoveryTime s\<rparr>)"
abbreviation "sync_lockoutRecovery \<equiv> NV_SYNC_PERSISTENT (\<lambda>s d. d\<lparr>lockoutRecovery := lockoutRecovery s\<rparr>)"
abbreviation "sync_lockOutAuthEnabled \<equiv> NV_SYNC_PERSISTENT (\<lambda>s d. d\<lparr>lockOutAuthEnabled := lockOutAuthEnabled s\<rparr>)"
abbreviation "sync_timeEpoch \<equiv> NV_SYNC_PERSISTENT (\<lambda>s d. d\<lparr>timeEpoch := timeEpoch s\<rparr>)"
abbreviation "upd_gp f st \<equiv> st\<lparr>gp := f (gp st)\<rparr>"
abbreviation "upd_go f st \<equiv> st\<lparr>go := f (go st)\<rparr>"

section \<open>DA.c\<close>

definition DAPreInstall_Init :: "time_state \<Rightarrow> time_state" where
  "DAPreInstall_Init st =
     (let st = upd_gp (\<lambda>g. g\<lparr>failedTries := 0, maxTries := 3, recoveryTime := 1000, lockoutRecovery := 1000,
                 lockOutAuthEnabled := True\<rparr>) st
      in sync_lockOutAuthEnabled (sync_lockoutRecovery (sync_recoveryTime (sync_maxTries (sync_failedTries st)))))"

definition DARegisterFailure :: "TPM_HANDLE \<Rightarrow> time_state \<Rightarrow> time_state" where
  "DARegisterFailure handle st =
     (if handle = TPM_RH_LOCKOUT then upd_go (\<lambda>o'. o'\<lparr>lockoutTimer := g_time st\<rparr>) st
      else upd_go (\<lambda>o'. o'\<lparr>selfHealTimer := g_time st\<rparr>) st)"

definition DASelfHeal_tries :: "time_state \<Rightarrow> time_state" where
  "DASelfHeal_tries st =
     (if failedTries (gp st) \<noteq> 0
      then if recoveryTime (gp st) = 0
        then sync_failedTries (upd_gp (\<lambda>g. g\<lparr>failedTries := 0\<rparr>) st)
        else let decreaseCount = ((g_time st - selfHealTimer (go st)) div 1000) div ucast (recoveryTime (gp st));
                 st = upd_gp (\<lambda>g. g\<lparr>failedTries :=
                        (if failedTries g \<le> ucast decreaseCount then 0 else failedTries g - ucast decreaseCount)\<rparr>) st;
                 st = upd_go (\<lambda>o'. o'\<lparr>selfHealTimer := selfHealTimer o' +
                        (decreaseCount * ucast (recoveryTime (gp st))) * 1000\<rparr>) st
             in if decreaseCount \<noteq> 0 then sync_failedTries st else st
      else st)"

definition DASelfHeal_lockout :: "time_state \<Rightarrow> time_state" where
  "DASelfHeal_lockout st =
     (if \<not> lockOutAuthEnabled (gp st) \<and> lockoutRecovery (gp st) \<noteq> 0 \<and>
         (g_time st - lockoutTimer (go st)) div 1000 \<ge> ucast (lockoutRecovery (gp st))
      then sync_lockOutAuthEnabled (upd_gp (\<lambda>g. g\<lparr>lockOutAuthEnabled := True\<rparr>) st)
      else st)"

definition DASelfHeal :: "time_state \<Rightarrow> time_state" where
  "DASelfHeal st = DASelfHeal_lockout (DASelfHeal_tries st)"

section \<open>Time.c\<close>

definition TimePowerOn :: "UINT64 \<Rightarrow> time_state \<Rightarrow> time_state" where
  "TimePowerOn cycles st = (let (t, c) = plat_TimerRead cycles (plat st) in st\<lparr>plat := c, g_time := t\<rparr>)"

definition TimeNewEpoch :: "time_state \<Rightarrow> time_state" where
  "TimeNewEpoch st =
     (let st = sync_timeEpoch (upd_gp (\<lambda>g. g\<lparr>timeEpoch := timeEpoch g + 1\<rparr>) st)
      in st\<lparr>plat := snd (plat_TimerWasStopped (plat st))\<rparr>)"

definition TimeStartup :: "time_state \<Rightarrow> bool \<times> time_state" where
  "TimeStartup st = (True, if \<not> NV_IS_ORDERLY st then upd_go (\<lambda>o'. o'\<lparr>clockSafe := False\<rparr>) st else st)"

definition CLOCK_UPDATE_MASK :: UINT64 where "CLOCK_UPDATE_MASK = 2 ^ 22 - 1"

definition TimeClockUpdate :: "UINT64 \<Rightarrow> time_state \<Rightarrow> time_state fallible" where
  "TimeClockUpdate newTime st =
     (if newTime OR CLOCK_UPDATE_MASK > go_clock (go st) OR CLOCK_UPDATE_MASK
      then if t_NvStatus st \<noteq> TPM_RC_SUCCESS then Inl FATAL_ERROR_PARAMETER
        else Inr (NvWrite_orderly (upd_go (\<lambda>o'. o'\<lparr>clockSafe := True, go_clock := newTime\<rparr>) st))
      else Inr (upd_go (\<lambda>o'. o'\<lparr>go_clock := newTime\<rparr>) st))"

definition TimeUpdate :: "UINT64 \<Rightarrow> time_state \<Rightarrow> time_state fallible" where
  "TimeUpdate cycles st =
     (let (stopped, c) = plat_TimerWasStopped (plat st);
          st = st\<lparr>plat := c\<rparr>;
          st = (if stopped then TimeNewEpoch st else st);
          (t, c) = plat_TimerRead cycles (plat st);
          elapsed = t - g_time st;
          st = st\<lparr>plat := c, g_time := g_time st + elapsed\<rparr>
      in bindE (TimeClockUpdate (go_clock (go st) + elapsed) st) (\<lambda>st. Inr (DASelfHeal st)))"

definition TimeUpdateToCurrent :: "UINT64 \<Rightarrow> time_state \<Rightarrow> time_state fallible" where
  "TimeUpdateToCurrent cycles st =
     (if \<not> NV_IS_AVAILABLE st \<or> \<not> g_initialized st then Inr st else TimeUpdate cycles st)"

text \<open>\<^verbatim>\<open>TPM_CLOCK_ADJUST\<close> is an \<^verbatim>\<open>INT8\<close> with the values -3 to 3.\<close>

definition TimeSetAdjustRate :: "BYTE \<Rightarrow> time_state \<Rightarrow> time_state fallible" where
  "TimeSetAdjustRate adjust st =
     (let step = (\<lambda>a. Inr (st\<lparr>plat := plat_ClockRateAdjust a (plat st)\<rparr>)) in
      if adjust = - 3 then step COARSE_SLOWER
      else if adjust = 3 then step COARSE_FASTER
      else if adjust = - 2 then step MEDIUM_SLOWER
      else if adjust = 2 then step MEDIUM_FASTER
      else if adjust = - 1 then step FINE_SLOWER
      else if adjust = 1 then step FINE_FASTER
      else if adjust = 0 then Inr st
      else Inl FATAL_ERROR_INTERNAL)"

record TPMS_CLOCK_INFO =
  ci_clock :: UINT64
  ci_resetCount :: UINT32
  ci_restartCount :: UINT32
  ci_safe :: bool

definition TimeFillInfo :: "time_state \<Rightarrow> TPMS_CLOCK_INFO" where
  "TimeFillInfo st = \<lparr>ci_clock = go_clock (go st), ci_resetCount = resetCount (gp st), ci_restartCount = restartCount st,
     ci_safe = (if NV_IS_AVAILABLE st then clockSafe (go st) else False)\<rparr>"

section \<open>DAStartup and the commands\<close>

definition DAStartup :: "UINT64 \<Rightarrow> time_state \<Rightarrow> (bool \<times> time_state) fallible" where
  "DAStartup cycles st =
     (let (was, c) = plat_TimerWasReset (plat st);
          st = st\<lparr>plat := c\<rparr>;
          st = (if was
                then if \<not> NV_IS_ORDERLY st then upd_go (\<lambda>o'. o'\<lparr>selfHealTimer := 0, lockoutTimer := 0\<rparr>) st
                  else upd_go (\<lambda>o'. o'\<lparr>selfHealTimer := selfHealTimer o' - go_time o',
                                       lockoutTimer := lockoutTimer o' - go_time o'\<rparr>) st
                else st);
          st = (if lockoutRecovery (gp st) = 0
                then sync_lockOutAuthEnabled (upd_gp (\<lambda>g. g\<lparr>lockOutAuthEnabled := True\<rparr>) st) else st);
          st = (if recoveryTime (gp st) \<noteq> 0 \<and> failedTries (gp st) < maxTries (gp st) \<and> \<not> IS_ORDERLY (g_prevOrderlyState st)
                then sync_failedTries (upd_gp (\<lambda>g. g\<lparr>failedTries := failedTries g + 1\<rparr>) st) else st)
      in bindE (TimeUpdate cycles st) (\<lambda>st. Inr (True, st)))"

definition TPM2_DictionaryAttackLockReset :: "time_state \<Rightarrow> TPM_RC \<times> time_state" where
  "TPM2_DictionaryAttackLockReset st =
     (if t_NvStatus st \<noteq> TPM_RC_SUCCESS then (t_NvStatus st, st)
      else (TPM_RC_SUCCESS, sync_failedTries (upd_gp (\<lambda>g. g\<lparr>failedTries := 0\<rparr>) st)))"

definition TPM2_DictionaryAttackParameters :: "UINT32 \<Rightarrow> UINT32 \<Rightarrow> UINT32 \<Rightarrow> time_state \<Rightarrow> TPM_RC \<times> time_state" where
  "TPM2_DictionaryAttackParameters newMaxTries newRecoveryTime in_lockoutRecovery st =
     (if t_NvStatus st \<noteq> TPM_RC_SUCCESS then (t_NvStatus st, st)
      else let st = upd_gp (\<lambda>g. g\<lparr>maxTries := newMaxTries, recoveryTime := newRecoveryTime, lockoutRecovery := in_lockoutRecovery\<rparr>) st
           in (TPM_RC_SUCCESS, sync_lockoutRecovery (sync_recoveryTime (sync_maxTries (sync_failedTries st)))))"

definition TPM2_ReadClock :: "time_state \<Rightarrow> UINT64 \<times> TPMS_CLOCK_INFO" where
  "TPM2_ReadClock st = (g_time st, TimeFillInfo st)"

abbreviation TPM_RCS_VALUE_newTime :: TPM_RC where "TPM_RCS_VALUE_newTime \<equiv> 0x1C4"

definition TPM2_ClockSet :: "UINT64 \<Rightarrow> time_state \<Rightarrow> (TPM_RC \<times> time_state) fallible" where
  "TPM2_ClockSet newTime st =
     (if newTime > 0xFFFF000000000000 \<or> newTime < go_clock (go st) then Inr (TPM_RCS_VALUE_newTime, st)
      else if t_NvStatus st \<noteq> TPM_RC_SUCCESS then Inr (t_NvStatus st, st)
      else bindE (TimeClockUpdate newTime st) (\<lambda>st. Inr (TPM_RC_SUCCESS, st)))"

definition TPM2_ClockRateAdjust :: "BYTE \<Rightarrow> time_state \<Rightarrow> (TPM_RC \<times> time_state) fallible" where
  "TPM2_ClockRateAdjust rateAdjust st = bindE (TimeSetAdjustRate rateAdjust st) (\<lambda>st. Inr (TPM_RC_SUCCESS, st))"

section \<open>Lockout (SessionProcess.c)\<close>

abbreviation TPM_RC_LOCKOUT :: TPM_RC where "TPM_RC_LOCKOUT \<equiv> 0x921"
abbreviation TPM_RC_AUTH_FAIL :: TPM_RC where "TPM_RC_AUTH_FAIL \<equiv> 0x08E"
abbreviation TPM_RC_BAD_AUTH :: TPM_RC where "TPM_RC_BAD_AUTH \<equiv> 0x0A2"

definition CheckLockedOut :: "bool \<Rightarrow> time_state \<Rightarrow> TPM_RC \<times> time_state" where
  "CheckLockedOut lockoutAuthCheck st =
     (if \<not> NV_IS_AVAILABLE st \<and> NV_IS_ORDERLY st then (t_NvStatus st, st)
      else if s_DAPendingOnNV st \<and> t_NvStatus st \<noteq> TPM_RC_SUCCESS then (t_NvStatus st, st)
      else let st = (if s_DAPendingOnNV st
                     then (sync_failedTries (sync_lockOutAuthEnabled st))\<lparr>s_DAPendingOnNV := False\<rparr> else st)
           in if lockoutAuthCheck
              then if \<not> lockOutAuthEnabled (gp st) then (TPM_RC_LOCKOUT, st) else (TPM_RC_SUCCESS, st)
              else if failedTries (gp st) \<ge> maxTries (gp st) then (TPM_RC_LOCKOUT, st) else (TPM_RC_SUCCESS, st))"

text \<open>
  What \<^verbatim>\<open>IncrementLockout\<close> reads of the session: \<open>None\<close> for a password session,
  else the attributes \<^verbatim>\<open>isLockoutBound\<close>, \<^verbatim>\<open>isDaBound\<close> and
  \<^verbatim>\<open>includeAuth\<close>.  \<^verbatim>\<open>IsDAExempted\<close> depends on the objects and NV indices
  that are defined and is the argument \<open>exempted\<close>.
\<close>

definition IncrementLockout_failed :: "TPM_HANDLE \<Rightarrow> time_state \<Rightarrow> (TPM_RC \<times> time_state) fallible" where
  "IncrementLockout_failed handle st =
     bindE
       (if handle = TPM_RH_LOCKOUT
        then if \<not> lockOutAuthEnabled (gp st) then Inl FATAL_ERROR_PARAMETER
          else let st = upd_gp (\<lambda>g. g\<lparr>lockOutAuthEnabled := False\<rparr>) st
               in Inr (if lockoutRecovery (gp st) \<noteq> 0
                       then if NV_IS_AVAILABLE st then sync_lockOutAuthEnabled st else st\<lparr>s_DAPendingOnNV := True\<rparr>
                       else st)
        else if recoveryTime (gp st) \<noteq> 0
        then let st = upd_gp (\<lambda>g. g\<lparr>failedTries := failedTries g + 1\<rparr>) st
             in Inr (if NV_IS_AVAILABLE st then sync_failedTries st else st\<lparr>s_DAPendingOnNV := True\<rparr>)
        else Inr st)
       (\<lambda>st. Inr (TPM_RC_AUTH_FAIL, DARegisterFailure handle st))"

definition IncrementLockout ::
  "(TPM_HANDLE \<Rightarrow> bool) \<Rightarrow> TPM_HANDLE \<Rightarrow> (bool \<times> bool \<times> bool) option \<Rightarrow> time_state \<Rightarrow> (TPM_RC \<times> time_state) fallible" where
  "IncrementLockout exempted handle session st =
     (case session of
        None \<Rightarrow> if exempted handle then Inr (TPM_RC_BAD_AUTH, st) else IncrementLockout_failed handle st
      | Some (isLockoutBound, isDaBound, includeAuth) \<Rightarrow>
          let handle = (if isLockoutBound then TPM_RH_LOCKOUT else handle)
          in if \<not> isDaBound \<and> (exempted handle \<or> \<not> includeAuth) then Inr (TPM_RC_BAD_AUTH, st)
             else IncrementLockout_failed handle st)"

section \<open>Power cycles (PowerPlat.c, StartupCommands.c)\<close>

text \<open>
  The statements of \<^verbatim>\<open>_TPM_Init\<close>, \<^verbatim>\<open>TPM2_Startup\<close> and \<^verbatim>\<open>TPM2_Shutdown\<close> that
  touch time and DA, in their order.
\<close>

definition plat_Signal_PowerOn :: "time_state \<Rightarrow> time_state" where
  "plat_Signal_PowerOn st = st\<lparr>plat := plat_TimerReset (plat st)\<rparr>"

definition TPM_Init_time :: "UINT64 \<Rightarrow> time_state \<Rightarrow> time_state" where
  "TPM_Init_time cycles st = TimePowerOn cycles (st\<lparr>g_initialized := False, gp := nv_gp st, go := nv_go st\<rparr>)"

abbreviation "sync_orderlyState \<equiv> NV_SYNC_PERSISTENT (\<lambda>s d. d\<lparr>orderlyState := orderlyState s\<rparr>)"
abbreviation "sync_resetCount \<equiv> NV_SYNC_PERSISTENT (\<lambda>s d. d\<lparr>resetCount := resetCount s\<rparr>)"
abbreviation PRE_STARTUP_FLAG :: UINT16 where "PRE_STARTUP_FLAG \<equiv> 0x8000"
abbreviation STARTUP_LOCALITY_3 :: UINT16 where "STARTUP_LOCALITY_3 \<equiv> 0x4000"
abbreviation SU_NONE :: UINT16 where "SU_NONE \<equiv> 0xFFFF"

definition Startup_time :: "STARTUP_TYPE \<Rightarrow> UINT64 \<Rightarrow> time_state \<Rightarrow> time_state fallible" where
  "Startup_time startup cycles st =
     (let prev = orderlyState (gp st);
          prev = (if IS_ORDERLY prev then prev AND NOT (PRE_STARTUP_FLAG OR STARTUP_LOCALITY_3) else prev);
          st = upd_gp (\<lambda>g. g\<lparr>orderlyState := prev\<rparr>) (st\<lparr>g_prevOrderlyState := prev\<rparr>);
          st = st\<lparr>g_initialized := True\<rparr>;
          (_, st) = TimeStartup st
      in bindE (DAStartup cycles st) (\<lambda>(_, st).
           let st = (case startup of
                       SU_RESUME \<Rightarrow> st\<lparr>restartCount := restartCount st + 1\<rparr>
                     | SU_RESTART \<Rightarrow> st\<lparr>restartCount := restartCount st + 1\<rparr>
                     | SU_RESET \<Rightarrow> (sync_resetCount (upd_gp (\<lambda>g. g\<lparr>resetCount := resetCount g + 1\<rparr>) st))\<lparr>restartCount := 0\<rparr>)
           in Inr (sync_orderlyState (upd_gp (\<lambda>g. g\<lparr>orderlyState := SU_NONE\<rparr>) st))))"

definition Shutdown_time :: "UINT16 \<Rightarrow> time_state \<Rightarrow> TPM_RC \<times> time_state" where
  "Shutdown_time shutdownType st =
     (if t_NvStatus st \<noteq> TPM_RC_SUCCESS then (t_NvStatus st, st)
      else let st = upd_gp (\<lambda>g. g\<lparr>orderlyState := shutdownType\<rparr>) st;
               st = upd_go (\<lambda>o'. o'\<lparr>go_time := g_time st\<rparr>) st;
               st = NvWrite_orderly st
           in (TPM_RC_SUCCESS, sync_orderlyState st))"

end
