(* ===== verification/FTPM_Time_Spec.thy ===== *)
theory FTPM_Time_Spec
  imports FTPM_Time
begin

text \<open>
  Properties of the tick timer, of the clock and of the dictionary attack logic.
\<close>

section \<open>The tick timer\<close>

lemma unat_add_small: "unat (a :: 'a::len word) + unat b < 2 ^ LENGTH('a) \<Longrightarrow> unat (a + b) = unat a + unat b"
  by (simp add: unat_add_lem [symmetric])

lemma unat_mult_small: "unat (a :: 'a::len word) * unat b < 2 ^ LENGTH('a) \<Longrightarrow> unat (a * b) = unat a * unat b"
  by (simp add: unat_mult_lem [symmetric])

lemma unat_ucast_mod: "unat (ucast (w :: 'a::len word) :: 'b::len word) = unat w mod 2 ^ LENGTH('b)"
  by (simp only: unsigned_ucast_eq unsigned_take_bit_eq take_bit_eq_mod)

lemma unat_RealTime: "unat (plat_RealTime cycles) = unat cycles div 2 ^ 32 * 1000 + unat cycles mod 2 ^ 32 div 1000000"
proof -
  have hi: "unat (ucast (ucast (drop_bit 32 cycles) :: UINT32) :: UINT64) = unat cycles div 2 ^ 32"
  proof -
    have b: "unat (drop_bit 32 cycles) < 2 ^ 32" using unat_lt [of cycles] by (simp add: unat_shift less_mult_imp_div_less)
    have "unat (ucast (drop_bit 32 cycles) :: UINT32) = unat (drop_bit 32 cycles)"
      using b by (simp only: unat_ucast_mod) simp
    then show ?thesis by (simp add: unat_shift)
  qed
  have lo: "unat (ucast (ucast cycles :: UINT32) :: UINT64) = unat cycles mod 2 ^ 32"
    by (simp add: unat_ucast_mod)
  have h: "unat cycles div 2 ^ 32 < 2 ^ 32" using unat_lt [of cycles] by (simp add: less_mult_imp_div_less)
  have m: "unat (ucast (ucast (drop_bit 32 cycles) :: UINT32) * (1000 :: UINT64)) = unat cycles div 2 ^ 32 * 1000"
    using unat_mult_small [of "ucast (ucast (drop_bit 32 cycles) :: UINT32)" "1000 :: UINT64"] hi h by simp
  have d: "unat (ucast (ucast cycles :: UINT32) div (1000000 :: UINT64)) = unat cycles mod 2 ^ 32 div 1000000"
    using lo by (simp add: unat_div)
  have "unat cycles mod 2 ^ 32 div 1000000 < 4295" by (simp add: less_mult_imp_div_less)
  then show ?thesis
    using unat_add_small [of "ucast (ucast (drop_bit 32 cycles) :: UINT32) * (1000 :: UINT64)" "ucast (ucast cycles :: UINT32) div (1000000 :: UINT64)"] m d h
    by (simp add: plat_RealTime_def intercept_clock_gettime_def)
qed

lemma RealTime_bound: "unat (plat_RealTime cycles) < 2 ^ 43"
proof -
  have "unat cycles div 2 ^ 32 < 2 ^ 32" using unat_lt [of cycles] by (simp add: less_mult_imp_div_less)
  moreover have "unat cycles mod 2 ^ 32 div 1000000 < 4295" by (simp add: less_mult_imp_div_less)
  ultimately show ?thesis by (simp add: unat_RealTime)
qed

definition rate_ok :: "clock_state \<Rightarrow> bool" where
  "rate_ok c \<longleftrightarrow> 25000 \<le> s_adjustRate c \<and> s_adjustRate c \<le> 35000"

definition clock_ok :: "clock_state \<Rightarrow> bool" where
  "clock_ok c \<longleftrightarrow> rate_ok c \<and> s_lastSystemTime c \<noteq> 0 \<and> s_realTimePrevious c \<le> s_lastReportedTime c \<and>
     s_lastReportedTime c \<le> s_lastSystemTime c \<and> unat (s_lastSystemTime c) < 2 ^ 43"

lemma rate_ok_nat: "rate_ok c \<longleftrightarrow> 25000 \<le> unat (s_adjustRate c) \<and> unat (s_adjustRate c) \<le> 35000"
  by (simp add: rate_ok_def word_le_nat_alt)

lemma ClockRateAdjust_ok:
  assumes "rate_ok c"
  shows "rate_ok (plat_ClockRateAdjust a c)"
  by (auto simp: rate_ok_def plat_ClockRateAdjust_def Let_def not_less intro: less_imp_le)

text \<open>Dividing by the rate and multiplying again loses at most two units.\<close>

lemma adjust_remainder:
  fixes d r :: nat
  assumes "25000 \<le> r" "r \<le> 35000"
  shows "d * 30000 div r * r div 30000 \<le> d" "d \<le> d * 30000 div r * r div 30000 + 2" "d * 30000 div r \<le> 2 * d"
proof -
  have le: "d * 30000 div r * r \<le> d * 30000" by simp
  then have "d * 30000 div r * r div 30000 \<le> d * 30000 div 30000" by (rule div_le_mono)
  then show "d * 30000 div r * r div 30000 \<le> d" by simp
  have "0 < r" using assms(1) by simp
  then have "d * 30000 < d * 30000 div r * r + r" using dividend_less_div_times [of r "d * 30000"] by simp
  then show "d \<le> d * 30000 div r * r div 30000 + 2" using assms(2) by linarith
  have "d * 30000 div r * 25000 \<le> d * 30000 div r * r" using assms(1) by (rule mult_le_mono2)
  then show "d * 30000 div r \<le> 2 * d" using le by linarith
qed

lemma TimerRead_report_ok:
  assumes "clock_ok c" "s_lastSystemTime c \<le> now"
  shows "TimerRead_report now c = c\<lparr>s_lastReportedTime := s_lastReportedTime c + (now - s_lastSystemTime c), s_lastSystemTime := now\<rparr>"
proof -
  have "\<not> now < s_lastReportedTime c" using assms by (auto simp: clock_ok_def)
  then show ?thesis using assms by (simp add: TimerRead_report_def clock_ok_def)
qed

lemma adjust_scale:
  fixes t a :: UINT64 and rate :: UINT32
  assumes r: "25000 \<le> unat rate" "unat rate \<le> 35000" and t: "unat t = d" and d: "d < 2 ^ 43" and a: "a = t * 30000 div ucast rate"
  shows "unat a = d * 30000 div unat rate" "unat (a * ucast rate div 30000) = d * 30000 div unat rate * unat rate div 30000"
proof -
  have "unat (t * 30000) = d * 30000" using unat_mult_small [of t 30000] t d by simp
  then show ua: "unat a = d * 30000 div unat rate" by (simp add: a unat_div)
  have "d * 30000 div unat rate * unat rate < 2 ^ 64"
    by (rule le_less_trans [of _ "d * 30000"]) (use d in simp_all)
  then have "unat (a * ucast rate) = d * 30000 div unat rate * unat rate"
    using unat_mult_small [of a "ucast rate"] ua by simp
  then show "unat (a * ucast rate div 30000) = d * 30000 div unat rate * unat rate div 30000" by (simp add: unat_div)
qed

lemma plat_TimerRead_ok:
  assumes c: "clock_ok c" and now: "s_lastSystemTime c \<le> plat_RealTime cycles"
  defines "d \<equiv> unat (s_lastReportedTime c) + (unat (plat_RealTime cycles) - unat (s_lastSystemTime c)) - unat (s_realTimePrevious c)"
  shows "\<exists>c'. plat_TimerRead cycles c = (s_tpmTime c', c') \<and>
    s_tpmTime c' = s_tpmTime c + word_of_nat (d * 30000 div unat (s_adjustRate c)) \<and>
    unat (s_realTimePrevious c') = unat (s_realTimePrevious c) + d * 30000 div unat (s_adjustRate c) * unat (s_adjustRate c) div 30000 \<and>
    unat (s_lastReportedTime c') = unat (s_realTimePrevious c) + d \<and> s_lastSystemTime c' = plat_RealTime cycles \<and>
    s_adjustRate c' = s_adjustRate c"
proof -
  let ?now = "plat_RealTime cycles" and ?r = "unat (s_adjustRate c)"
  have r: "25000 \<le> ?r" "?r \<le> 35000" using c by (simp_all add: clock_ok_def rate_ok_nat)
  have le: "unat (s_lastSystemTime c) \<le> unat ?now" "unat (s_realTimePrevious c) \<le> unat (s_lastReportedTime c)"
    "unat (s_lastReportedTime c) \<le> unat (s_lastSystemTime c)"
    using c now by (simp_all add: clock_ok_def word_le_nat_alt)
  have b: "unat ?now < 2 ^ 43" by (rule RealTime_bound)
  have dif: "unat (?now - s_lastSystemTime c) = unat ?now - unat (s_lastSystemTime c)" using now by (rule unat_sub)
  have rep: "unat (s_lastReportedTime c + (?now - s_lastSystemTime c)) = unat (s_realTimePrevious c) + d"
    using unat_add_small [of "s_lastReportedTime c" "?now - s_lastSystemTime c"] dif le b by (simp add: d_def)
  have dlt: "d < 2 ^ 43" using le b by (simp add: d_def)
  note report = TimerRead_report_ok [OF c now]
  show ?thesis
  proof (cases "d = 0")
    case True
    then have "s_lastReportedTime c + (?now - s_lastSystemTime c) \<le> s_realTimePrevious c" using rep by (simp add: word_le_nat_alt)
    then have "plat_TimerRead cycles c = (s_tpmTime c, TimerRead_report ?now c)"
      by (simp add: plat_TimerRead_def report Let_def)
    then show ?thesis using True rep by (simp add: report)
  next
    case False
    define t where "t = s_lastReportedTime c + (?now - s_lastSystemTime c) - s_realTimePrevious c"
    have gt: "\<not> s_lastReportedTime c + (?now - s_lastSystemTime c) \<le> s_realTimePrevious c" using rep False by (simp add: word_le_nat_alt)
    then have t: "unat t = d" unfolding t_def using rep by (subst unat_sub) simp_all
    define a where "a = t * 30000 div ucast (s_adjustRate c)"
    note scale = adjust_scale [OF r t dlt a_def]
    have prev: "unat (s_realTimePrevious c + a * ucast (s_adjustRate c) div 30000) = unat (s_realTimePrevious c) + d * 30000 div ?r * ?r div 30000"
      using unat_add_small [of "s_realTimePrevious c" "a * ucast (s_adjustRate c) div 30000"] scale(2) adjust_remainder(1) [OF r, of d] dlt le b
      by simp
    have aw: "a = word_of_nat (d * 30000 div ?r)" using scale(1) by (metis of_nat_unat ucast_id)
    have "plat_TimerRead cycles c = (s_tpmTime c + a, (TimerRead_report ?now c)\<lparr>s_tpmTime := s_tpmTime c + a,
        s_realTimePrevious := s_realTimePrevious c + a * ucast (s_adjustRate c) div 30000\<rparr>)"
      using gt by (simp add: plat_TimerRead_def report Let_def a_def t_def)
    then show ?thesis using rep prev aw by (simp add: report)
  qed
qed


text \<open>
  C25. As long as the system time does not run backwards between two reads, the tick timer
  does not either, and nothing of the elapsed time is lost for good: of the reported system time
  all but at most two milliseconds have been converted, each at the adjusted rate, and at the nominal
  rate the TPM time advances exactly by the elapsed system time.  The timer stays in its invariant.
\<close>

theorem timer_follows_system_time:
  assumes c: "clock_ok c" and now: "s_lastSystemTime c \<le> plat_RealTime cycles" and small: "unat (s_tpmTime c) < 2 ^ 63"
  shows "\<exists>c'. plat_TimerRead cycles c = (s_tpmTime c', c') \<and> clock_ok c' \<and> s_tpmTime c \<le> s_tpmTime c' \<and>
    unat (s_lastReportedTime c') \<le> unat (s_realTimePrevious c') + 2 \<and>
    unat (s_realTimePrevious c') - unat (s_realTimePrevious c) =
      (unat (s_tpmTime c') - unat (s_tpmTime c)) * unat (s_adjustRate c) div 30000 \<and>
    (s_adjustRate c = CLOCK_NOMINAL \<and> s_realTimePrevious c = s_lastReportedTime c \<longrightarrow>
       s_tpmTime c' = s_tpmTime c + (plat_RealTime cycles - s_lastSystemTime c) \<and> s_realTimePrevious c' = s_lastReportedTime c')"
proof -
  let ?now = "plat_RealTime cycles" and ?r = "unat (s_adjustRate c)"
  define d where "d = unat (s_lastReportedTime c) + (unat ?now - unat (s_lastSystemTime c)) - unat (s_realTimePrevious c)"
  obtain c' where c': "plat_TimerRead cycles c = (s_tpmTime c', c')"
    "s_tpmTime c' = s_tpmTime c + word_of_nat (d * 30000 div ?r)"
    "unat (s_realTimePrevious c') = unat (s_realTimePrevious c) + d * 30000 div ?r * ?r div 30000"
    "unat (s_lastReportedTime c') = unat (s_realTimePrevious c) + d" "s_lastSystemTime c' = ?now" "s_adjustRate c' = s_adjustRate c"
    using plat_TimerRead_ok [OF c now] by (auto simp: d_def)
  have r: "25000 \<le> ?r" "?r \<le> 35000" using c by (simp_all add: clock_ok_def rate_ok_nat)
  have le: "unat (s_lastSystemTime c) \<le> unat ?now" "unat (s_realTimePrevious c) \<le> unat (s_lastReportedTime c)"
    "unat (s_lastReportedTime c) \<le> unat (s_lastSystemTime c)" "unat (s_lastSystemTime c) \<noteq> 0"
    using c now by (simp_all add: clock_ok_def word_le_nat_alt unat_eq_zero)
  have b: "unat ?now < 2 ^ 43" by (rule RealTime_bound)
  note rem = adjust_remainder [OF r, of d]
  have "d < 2 ^ 43" using le b by (simp add: d_def)
  then have a: "d * 30000 div ?r < 2 ^ 44" using rem(3) by simp
  then have t: "unat (s_tpmTime c') = unat (s_tpmTime c) + d * 30000 div ?r"
    using unat_add_small [of "s_tpmTime c" "word_of_nat (d * 30000 div ?r)"] small c'(2) by (simp add: unat_of_nat)
  have "clock_ok c'" using c c'(3-6) rem(1) le b
    by (auto simp: clock_ok_def rate_ok_def word_le_nat_alt d_def)
  moreover have "s_tpmTime c' = s_tpmTime c + (?now - s_lastSystemTime c) \<and> s_realTimePrevious c' = s_lastReportedTime c'"
    if "s_adjustRate c = CLOCK_NOMINAL" "s_realTimePrevious c = s_lastReportedTime c"
  proof -
    have "d = unat (?now - s_lastSystemTime c)" using that le now by (simp add: d_def unat_sub)
    then show ?thesis using that c'(2-4) by (simp add: word_unat_eq_iff)
  qed
  ultimately show ?thesis using c'(1,3,4) t rem(2) by (auto simp: word_le_nat_alt)
qed

definition ex_clock :: clock_state where
  "ex_clock = \<lparr>s_realTimePrevious = 0, s_lastSystemTime = 4000, s_lastReportedTime = 0, s_tpmTime = 0,
     s_timerReset = False, s_timerStopped = False, s_adjustRate = 30000\<rparr>"

theorem timer_follows_system_time_witness:
  "\<exists>c'. plat_TimerRead (4200 * 1000000) ex_clock = (200, c') \<and> clock_ok c'"
proof -
  have "clock_ok ex_clock" by (simp add: clock_ok_def rate_ok_def ex_clock_def)
  moreover have "plat_RealTime (4200 * 1000000) = 4200" by (simp add: word_unat_eq_iff unat_RealTime)
  ultimately show ?thesis using timer_follows_system_time [of ex_clock "4200 * 1000000"] by (auto simp: ex_clock_def)
qed

text \<open>
  C28. With the rate set faster than nominal the timer counts its own reads: once a
  millisecond of system time is left over, every further read adds a millisecond to the TPM time,
  although no time has passed.
\<close>

theorem timer_counts_reads:
  assumes c: "clock_ok c" and fast: "s_adjustRate c < CLOCK_NOMINAL"
    and left: "s_lastReportedTime c = s_realTimePrevious c + 1" and now: "plat_RealTime cycles = s_lastSystemTime c"
  shows "((\<lambda>c. snd (plat_TimerRead cycles c)) ^^ n) c = c\<lparr>s_tpmTime := s_tpmTime c + word_of_nat n\<rparr>"
proof (induction n)
  case 0
  then show ?case by simp
next
  case (Suc n)
  let ?c = "c\<lparr>s_tpmTime := s_tpmTime c + word_of_nat n\<rparr>"
  have r: "25000 \<le> unat (s_adjustRate c)" "unat (s_adjustRate c) < 30000"
    using c fast by (simp_all add: clock_ok_def rate_ok_nat word_less_nat_alt)
  have a: "(30000 :: UINT64) div ucast (s_adjustRate c) = 1"
    using r by (simp add: word_unat_eq_iff unat_div) (simp add: div_nat_eqI)
  have b: "(ucast (s_adjustRate c) :: UINT64) div 30000 = 0" using r by (simp add: word_unat_eq_iff unat_div)
  have ok: "clock_ok ?c" using c by (simp add: clock_ok_def rate_ok_def)
  have "unat (s_lastReportedTime c) = unat (s_realTimePrevious c) + 1"
    using left c unat_add_small [of "s_realTimePrevious c" 1] unat_lt [of "s_lastSystemTime c"]
    by (auto simp: clock_ok_def word_le_nat_alt unat_word_ariths split: if_splits)
  then have "\<not> s_lastReportedTime c \<le> s_realTimePrevious c" by (simp add: word_le_nat_alt)
  then have "snd (plat_TimerRead cycles ?c) = ?c\<lparr>s_tpmTime := s_tpmTime ?c + 1\<rparr>"
    using TimerRead_report_ok [OF ok, of "plat_RealTime cycles"] now left a b
    by (simp add: plat_TimerRead_def Let_def)
  then show ?case using Suc by (simp add: add.assoc)
qed

theorem timer_counts_reads_witness:
  "s_tpmTime (((\<lambda>c. snd (plat_TimerRead (4 * 1000000000) c)) ^^ 1000)
     (ex_clock\<lparr>s_adjustRate := 29000, s_lastReportedTime := 1\<rparr>)) = 1000"
proof -
  have "plat_RealTime (4 * 1000000000) = 4000" by (simp add: word_unat_eq_iff unat_RealTime)
  then show ?thesis
    using timer_counts_reads [of "ex_clock\<lparr>s_adjustRate := 29000, s_lastReportedTime := 1\<rparr>" "4 * 1000000000" 1000]
    by (simp add: clock_ok_def rate_ok_def ex_clock_def)
qed

text \<open>
  C27. When the system time steps back after the first read, the guard of
  \<^verbatim>\<open>_plat__TimerRead\<close> does not notice: it compares with the reported time, which starts at
  zero, and not with the last system time.  The reported time wraps around and the TPM time jumps
  ahead by more than nineteen thousand years.
\<close>

theorem timer_jumps_when_time_steps_back:
  assumes c: "s_lastSystemTime c \<noteq> 0" "s_lastReportedTime c = 0" "s_realTimePrevious c = 0" "s_tpmTime c = 0" "s_adjustRate c = CLOCK_NOMINAL"
    and bk: "plat_RealTime cycles < s_lastSystemTime c" and small: "unat (s_lastSystemTime c) < 2 ^ 43"
  shows "unat (fst (plat_TimerRead cycles c)) = 614891469123651 - (unat (s_lastSystemTime c) - unat (plat_RealTime cycles))"
proof -
  let ?now = "plat_RealTime cycles"
  define e where "e = unat (s_lastSystemTime c) - unat ?now"
  have e: "0 < e" "e < 2 ^ 43" using bk small by (simp_all add: e_def word_less_nat_alt)
  have t: "unat (?now - s_lastSystemTime c) = 2 ^ 64 - e"
    using bk unat_lt [of "s_lastSystemTime c"] by (simp add: unat_sub_if' e_def word_less_nat_alt)
  have m: "unat ((?now - s_lastSystemTime c) * 30000) = 2 ^ 64 - e * 30000"
  proof -
    have "(2 ^ 64 - e) * 30000 = (2 ^ 64 - e * 30000) + 29999 * 2 ^ 64" using e by simp
    then have "(2 ^ 64 - e) * 30000 mod 2 ^ 64 = 2 ^ 64 - e * 30000" 
      using e by (simp only: mod_mult_self1) simp
    then show ?thesis using t unat_word_ariths(2) [of "?now - s_lastSystemTime c" 30000] by (simp del: right_diff_distrib' left_diff_distrib' left_diff_distrib_numeral)
  qed
  have "(2 ^ 64 - e * 30000) div 30000 = 614891469123651 - e" using e by simp
  moreover have "\<not> ?now - s_lastSystemTime c \<le> 0" using bk by auto
  ultimately show ?thesis using c m by (simp add: plat_TimerRead_def TimerRead_report_def Let_def unat_div e_def)
qed


theorem timer_jumps_when_time_steps_back_witness:
  "plat_RealTime 4294967296 = 1000 \<and> unat (fst (plat_TimerRead 4294967296 ex_clock)) = 614891469120651"
proof -
  have r: "plat_RealTime 4294967296 = 1000" by (simp add: word_unat_eq_iff unat_RealTime)
  show ?thesis using timer_jumps_when_time_steps_back [of ex_clock 4294967296] r by (simp add: ex_clock_def)
qed

section \<open>The clock\<close>

definition interval :: "UINT64 \<Rightarrow> nat" where
  "interval t = unat t div 2 ^ 22"

lemma CLOCK_UPDATE_MASK_eq: "CLOCK_UPDATE_MASK = mask 22"
  by (simp add: CLOCK_UPDATE_MASK_def mask_eq_exp_minus_1)

lemma or_mask_less_iff: "a OR CLOCK_UPDATE_MASK < b OR CLOCK_UPDATE_MASK \<longleftrightarrow> interval a < interval b"
proof -
  have "unat (x OR mask 22) = interval x * 2 ^ 22 + (2 ^ 22 - 1)" for x :: UINT64
  proof -
    have "unat (x OR mask 22) = (unat x OR mask 22)" by (simp add: unsigned_or_eq) (simp add: mask_eq_exp_minus_1)
    also have "\<dots> = push_bit 22 (drop_bit 22 (unat x)) OR mask 22"
      by (rule bit_eqI) (auto simp: bit_or_iff bit_push_bit_iff bit_drop_bit_eq bit_mask_iff)
    also have "\<dots> = push_bit 22 (drop_bit 22 (unat x)) + mask 22"
      by (rule disjunctive_add [symmetric]) (auto simp: bit_push_bit_iff bit_mask_iff)
    finally show ?thesis by (simp add: interval_def push_bit_eq_mult drop_bit_eq_div mask_eq_exp_minus_1)
  qed
  then show ?thesis by (simp add: CLOCK_UPDATE_MASK_eq word_less_nat_alt)
qed

lemma TimeClockUpdate_cases:
  assumes "TimeClockUpdate newTime st = Inr st'"
  obtains "interval (go_clock (go st)) < interval newTime" "go st' = (go st)\<lparr>clockSafe := True, go_clock := newTime\<rparr>"
      "nv_go st' = go st'" "gp st' = gp st" "nv_gp st' = nv_gp st" "g_time st' = g_time st" "plat st' = plat st"
    | "interval newTime \<le> interval (go_clock (go st))" "st' = upd_go (\<lambda>o'. o'\<lparr>go_clock := newTime\<rparr>) st"
  using assms by (auto simp: TimeClockUpdate_def or_mask_less_iff NvWrite_orderly_def not_less split: if_splits)

lemma NV_SYNC_PERSISTENT_frame [simp]:
  "gp (NV_SYNC_PERSISTENT f st) = gp st" "go (NV_SYNC_PERSISTENT f st) = go st" "nv_go (NV_SYNC_PERSISTENT f st) = nv_go st"
  "nv_gp (NV_SYNC_PERSISTENT f st) = f (gp st) (nv_gp st)" "g_time (NV_SYNC_PERSISTENT f st) = g_time st"
  "plat (NV_SYNC_PERSISTENT f st) = plat st" "t_NvStatus (NV_SYNC_PERSISTENT f st) = t_NvStatus st"
  "g_prevOrderlyState (NV_SYNC_PERSISTENT f st) = g_prevOrderlyState st" "s_DAPendingOnNV (NV_SYNC_PERSISTENT f st) = s_DAPendingOnNV st"
  "g_initialized (NV_SYNC_PERSISTENT f st) = g_initialized st" "restartCount (NV_SYNC_PERSISTENT f st) = restartCount st"
  by (simp_all add: NV_SYNC_PERSISTENT_def)

lemma DASelfHeal_frame [simp]:
  "go_clock (go (DASelfHeal st)) = go_clock (go st)" "clockSafe (go (DASelfHeal st)) = clockSafe (go st)"
  "nv_go (DASelfHeal st) = nv_go st" "orderlyState (gp (DASelfHeal st)) = orderlyState (gp st)"
  "orderlyState (nv_gp (DASelfHeal st)) = orderlyState (nv_gp st)" "g_time (DASelfHeal st) = g_time st" "plat (DASelfHeal st) = plat st"
  "t_NvStatus (DASelfHeal st) = t_NvStatus st" "go_time (go (DASelfHeal st)) = go_time (go st)"
  by (simp_all add: DASelfHeal_def DASelfHeal_tries_def DASelfHeal_lockout_def Let_def)


text \<open>\<^verbatim>\<open>TimeUpdate\<close> is an update of the clock followed by self healing.\<close>

definition same_da :: "time_state \<Rightarrow> time_state \<Rightarrow> bool" where
  "same_da st st' \<longleftrightarrow> failedTries (gp st') = failedTries (gp st) \<and> maxTries (gp st') = maxTries (gp st) \<and>
     recoveryTime (gp st') = recoveryTime (gp st) \<and> lockoutRecovery (gp st') = lockoutRecovery (gp st) \<and>
     lockOutAuthEnabled (gp st') = lockOutAuthEnabled (gp st) \<and> orderlyState (gp st') = orderlyState (gp st) \<and>
     orderlyState (nv_gp st') = orderlyState (nv_gp st) \<and> failedTries (nv_gp st') = failedTries (nv_gp st) \<and>
     selfHealTimer (go st') = selfHealTimer (go st) \<and> lockoutTimer (go st') = lockoutTimer (go st) \<and> go_time (go st') = go_time (go st)"

lemma TimeUpdate_split:
  assumes "TimeUpdate cycles st = Inr st'"
  obtains t s2 s3 where "TimeClockUpdate (go_clock (go st) + t) s2 = Inr s3" "st' = DASelfHeal s3" "g_time s2 = g_time st + t"
    "go s2 = go st" "nv_go s2 = nv_go st" "same_da st s2"
proof -
  define s1 where "s1 = (let (stopped, c) = plat_TimerWasStopped (plat st) in if stopped then TimeNewEpoch (st\<lparr>plat := c\<rparr>) else st\<lparr>plat := c\<rparr>)"
  have s1: "go s1 = go st" "nv_go s1 = nv_go st" "g_time s1 = g_time st" "same_da st s1"
    by (simp_all add: s1_def plat_TimerWasStopped_def TimeNewEpoch_def Let_def same_da_def)
  obtain t c where r: "plat_TimerRead cycles (plat s1) = (t, c)" by force
  let ?e = "t - g_time s1"
  let ?s2 = "s1\<lparr>plat := c, g_time := g_time s1 + ?e\<rparr>"
  have "TimeUpdate cycles st = bindE (TimeClockUpdate (go_clock (go ?s2) + ?e) ?s2) (\<lambda>st. Inr (DASelfHeal st))"
    using r by (simp add: TimeUpdate_def s1_def Let_def split_beta)
  then have "bindE (TimeClockUpdate (go_clock (go ?s2) + ?e) ?s2) (\<lambda>st. Inr (DASelfHeal st)) = Inr st'" using assms by metis
  then obtain s3 where s3: "TimeClockUpdate (go_clock (go ?s2) + ?e) ?s2 = Inr s3" "st' = DASelfHeal s3"
    unfolding bindE_eq_Inr_iff by blast
  show ?thesis by (rule that [of ?e ?s2 s3]) (use s1 s3 in \<open>simp_all add: same_da_def\<close>)
qed

lemma TimeUpdate_cases:
  assumes "TimeUpdate cycles st = Inr st'"
  obtains t where "go_clock (go st') = go_clock (go st) + t" "g_time st' = g_time st + t"
    "orderlyState (gp st') = orderlyState (gp st)" "orderlyState (nv_gp st') = orderlyState (nv_gp st)"
    "interval (go_clock (go st)) < interval (go_clock (go st')) \<and> clockSafe (go st') \<and> go_clock (nv_go st') = go_clock (go st') \<or>
     interval (go_clock (go st')) \<le> interval (go_clock (go st)) \<and> clockSafe (go st') = clockSafe (go st) \<and> nv_go st' = nv_go st"
proof -
  from assms obtain t s2 s3 where s: "TimeClockUpdate (go_clock (go st) + t) s2 = Inr s3" "st' = DASelfHeal s3" "g_time s2 = g_time st + t"
    "go s2 = go st" "nv_go s2 = nv_go st" "same_da st s2" by (rule TimeUpdate_split)
  from s(1) show ?thesis
    by (cases rule: TimeClockUpdate_cases) (use s(2-6) that [of t] in \<open>auto simp: same_da_def\<close>)
qed

text \<open>
  The history of the clock: \<open>clock_history st H\<close> means that \<open>st\<close> is reached from a state whose
  orderly data is in NV and that \<open>H\<close> is the greatest value the clock has had on the way, also
  before losses of power.  The clock itself does not wrap around, and no time is read after an
  orderly shutdown.
\<close>

inductive clock_history :: "time_state \<Rightarrow> UINT64 \<Rightarrow> bool" where
  manufactured: "nv_go st = go st \<Longrightarrow> orderlyState (nv_gp st) = orderlyState (gp st) \<Longrightarrow> clock_history st (go_clock (go st))"
| tick: "clock_history st H \<Longrightarrow> \<not> NV_IS_ORDERLY st \<Longrightarrow> TimeUpdateToCurrent cycles st = Inr st' \<Longrightarrow>
    go_clock (go st) \<le> go_clock (go st') \<Longrightarrow> clock_history st' (max H (go_clock (go st')))"
| set: "clock_history st H \<Longrightarrow> \<not> NV_IS_ORDERLY st \<Longrightarrow> TPM2_ClockSet newTime st = Inr (rc, st') \<Longrightarrow>
    clock_history st' (max H (go_clock (go st')))"
| nv_state: "clock_history st H \<Longrightarrow> clock_history (st\<lparr>t_NvStatus := rc, t_updateNV := u\<rparr>) H"
| shutdown: "clock_history st H \<Longrightarrow> clock_history (snd (Shutdown_time type st)) H"
| power_cycle: "clock_history st H \<Longrightarrow>
    Startup_time startup cycles2 (TPM_Init_time cycles1 (plat_Signal_PowerOn st)) = Inr st' \<Longrightarrow>
    go_clock (nv_go st) \<le> go_clock (go st') \<Longrightarrow> clock_history st' (max H (go_clock (go st')))"

definition clock_inv :: "time_state \<Rightarrow> UINT64 \<Rightarrow> bool" where
  "clock_inv st H \<longleftrightarrow> orderlyState (nv_gp st) = orderlyState (gp st) \<and>
     interval (go_clock (nv_go st)) = interval (go_clock (go st)) \<and> interval H = interval (go_clock (go st)) \<and>
     (clockSafe (go st) \<longrightarrow> H \<le> go_clock (go st)) \<and>
     (NV_IS_ORDERLY st \<longrightarrow> go_clock (nv_go st) = go_clock (go st) \<and> clockSafe (nv_go st) = clockSafe (go st))"


lemma interval_mono: "a \<le> b \<Longrightarrow> interval a \<le> interval b"
  by (simp add: interval_def word_le_nat_alt div_le_mono)

lemma interval_less: "interval a < interval b \<Longrightarrow> a < b"
  using interval_mono [of b a] by (cases "b \<le> a") auto

lemma interval_max: "interval (max a b) = max (interval a) (interval b)"
  using interval_mono [of a b] interval_mono [of b a] by (cases "a \<le> b") (auto simp: max_def)

text \<open>One advance of the clock, to a value not below the present one.\<close>

lemma clock_inv_advance:
  assumes i: "clock_inv st H" and mono: "go_clock (go st) \<le> go_clock (go st')"
    and o: "orderlyState (nv_gp st') = orderlyState (gp st')" "\<not> IS_ORDERLY (orderlyState (gp st'))"
    and cs: "interval (go_clock (go st)) < interval (go_clock (go st')) \<and> clockSafe (go st') \<and> go_clock (nv_go st') = go_clock (go st') \<or>
     interval (go_clock (go st')) \<le> interval (go_clock (go st)) \<and> clockSafe (go st') = clockSafe (go st) \<and> nv_go st' = nv_go st"
  shows "clock_inv st' (max H (go_clock (go st')))"
  using cs
proof
  assume a: "interval (go_clock (go st)) < interval (go_clock (go st')) \<and> clockSafe (go st') \<and> go_clock (nv_go st') = go_clock (go st')"
  then have "H < go_clock (go st')" using i interval_less [of H "go_clock (go st')"] by (simp add: clock_inv_def)
  then show ?thesis using a o by (simp add: clock_inv_def interval_max max_def)
next
  assume a: "interval (go_clock (go st')) \<le> interval (go_clock (go st)) \<and> clockSafe (go st') = clockSafe (go st) \<and> nv_go st' = nv_go st"
  then have "interval (go_clock (go st')) = interval (go_clock (go st))" using interval_mono [OF mono] by simp
  then show ?thesis using a i o mono by (auto simp: clock_inv_def interval_max)
qed

lemma DAStartup_cases:
  assumes "DAStartup cycles st = Inr (b, st')"
  obtains s1 where "TimeUpdate cycles s1 = Inr st'" "go_clock (go s1) = go_clock (go st)" "clockSafe (go s1) = clockSafe (go st)"
    "nv_go s1 = nv_go st" "orderlyState (gp s1) = orderlyState (gp st)" "orderlyState (nv_gp s1) = orderlyState (nv_gp st)"
    "g_time s1 = g_time st"
proof -
  have "\<exists>s1. DAStartup cycles st = bindE (TimeUpdate cycles s1) (\<lambda>st. Inr (True, st)) \<and> go_clock (go s1) = go_clock (go st) \<and>
    clockSafe (go s1) = clockSafe (go st) \<and> nv_go s1 = nv_go st \<and> orderlyState (gp s1) = orderlyState (gp st) \<and>
    orderlyState (nv_gp s1) = orderlyState (nv_gp st) \<and> g_time s1 = g_time st"
    unfolding DAStartup_def Let_def plat_TimerWasReset_def split_beta fst_conv snd_conv
    by (rule exI, rule conjI, rule refl) simp
  then obtain s1 where s1: "DAStartup cycles st = bindE (TimeUpdate cycles s1) (\<lambda>st. Inr (True, st))"
    "go_clock (go s1) = go_clock (go st)" "clockSafe (go s1) = clockSafe (go st)" "nv_go s1 = nv_go st"
    "orderlyState (gp s1) = orderlyState (gp st)" "orderlyState (nv_gp s1) = orderlyState (nv_gp st)" "g_time s1 = g_time st" by blast
  then have "bindE (TimeUpdate cycles s1) (\<lambda>st. Inr (True, st)) = Inr (b, st')" using assms by metis
  then have "TimeUpdate cycles s1 = Inr st'" by (auto simp: bindE_eq_Inr_iff)
  then show ?thesis using s1 that by blast
qed

lemma TPM_Init_time_fields [simp]:
  "gp (TPM_Init_time c (plat_Signal_PowerOn st)) = nv_gp st" "go (TPM_Init_time c (plat_Signal_PowerOn st)) = nv_go st"
  "nv_gp (TPM_Init_time c (plat_Signal_PowerOn st)) = nv_gp st" "nv_go (TPM_Init_time c (plat_Signal_PowerOn st)) = nv_go st"
  by (simp_all add: TPM_Init_time_def TimePowerOn_def plat_Signal_PowerOn_def split_beta)

lemma IS_ORDERLY_and [simp]: "IS_ORDERLY s \<Longrightarrow> IS_ORDERLY (s AND m)"
  using word_and_le2 [of s m] by (auto simp: IS_ORDERLY_def)

lemma Startup_time_cases:
  assumes "Startup_time startup c2 (TPM_Init_time c1 (plat_Signal_PowerOn st)) = Inr st'"
    and "orderlyState (nv_gp st) = orderlyState (gp st)"
  obtains s1 s2 where "TimeUpdate c2 s1 = Inr s2" "go_clock (go s1) = go_clock (nv_go st)" "nv_go s1 = nv_go st"
    "clockSafe (go s1) = (clockSafe (nv_go st) \<and> NV_IS_ORDERLY st)"
    "go st' = go s2" "nv_go st' = nv_go s2" "orderlyState (gp st') = SU_NONE" "orderlyState (nv_gp st') = SU_NONE"
proof -
  define i where "i = TPM_Init_time c1 (plat_Signal_PowerOn st)"
  define prev where "prev = (if NV_IS_ORDERLY st then orderlyState (gp st) AND NOT (PRE_STARTUP_FLAG OR STARTUP_LOCALITY_3) else orderlyState (gp st))"
  define s0 where "s0 = snd (TimeStartup (upd_gp (\<lambda>g. g\<lparr>orderlyState := prev\<rparr>) (i\<lparr>g_prevOrderlyState := prev\<rparr>)\<lparr>g_initialized := True\<rparr>))"
  have prev: "IS_ORDERLY prev = NV_IS_ORDERLY st" by (simp add: prev_def)
  have i: "gp i = nv_gp st" "go i = nv_go st" "nv_go i = nv_go st" "nv_gp i = nv_gp st" by (simp_all add: i_def)
  have s0: "go_clock (go s0) = go_clock (nv_go st)" "nv_go s0 = nv_go st" "clockSafe (go s0) = (clockSafe (nv_go st) \<and> NV_IS_ORDERLY st)"
    using i prev by (auto simp: s0_def TimeStartup_def)
  define fin where "fin = (\<lambda>st. let st = (case startup of
                       SU_RESUME \<Rightarrow> st\<lparr>restartCount := restartCount st + 1\<rparr>
                     | SU_RESTART \<Rightarrow> st\<lparr>restartCount := restartCount st + 1\<rparr>
                     | SU_RESET \<Rightarrow> (sync_resetCount (upd_gp (\<lambda>g. g\<lparr>resetCount := resetCount g + 1\<rparr>) st))\<lparr>restartCount := 0\<rparr>)
           in sync_orderlyState (upd_gp (\<lambda>g. g\<lparr>orderlyState := SU_NONE\<rparr>) st))"
  have fin: "go (fin s) = go s" "nv_go (fin s) = nv_go s" "orderlyState (gp (fin s)) = SU_NONE" "orderlyState (nv_gp (fin s)) = SU_NONE" for s
    by (cases startup; simp add: fin_def)+
  have "Startup_time startup c2 i = bindE (DAStartup c2 s0) (\<lambda>(_, st). Inr (fin st))"
    using i assms(2) by (simp add: Startup_time_def Let_def split_beta s0_def prev_def fin_def cong: STARTUP_TYPE.case_cong)
  then have "bindE (DAStartup c2 s0) (\<lambda>(_, st). Inr (fin st)) = Inr st'" using assms(1) i_def by simp
  then obtain b s2 where d: "DAStartup c2 s0 = Inr (b, s2)" and s2: "st' = fin s2" by (auto simp: bindE_eq_Inr_iff)
  from d show ?thesis
  proof (cases rule: DAStartup_cases)
    case (1 s1)
    show ?thesis by (rule that [of s1 s2]) (simp_all add: 1(1-4) s0 s2 fin)
  qed
qed

lemma clock_inv_update:
  assumes i: "clock_inv st H" and "TimeUpdate cycles st = Inr st'" "\<not> NV_IS_ORDERLY st" "go_clock (go st) \<le> go_clock (go st')"
  shows "clock_inv st' (max H (go_clock (go st')))"
  using assms(2)
proof (cases rule: TimeUpdate_cases)
  case (1 t)
  then show ?thesis using clock_inv_advance [OF i assms(4)] i assms(3) by (simp add: clock_inv_def)
qed

lemma clock_inv_history: "clock_history st H \<Longrightarrow> clock_inv st H"
proof (induction rule: clock_history.induct)
  case (manufactured st)
  then show ?case by (simp add: clock_inv_def)
next
  case (tick st H cycles st')
  show ?case
  proof (cases "TimeUpdate cycles st = Inr st'")
    case True
    then show ?thesis using clock_inv_update tick by blast
  next
    case False
    then have "st' = st" using tick by (auto simp: TimeUpdateToCurrent_def split: if_splits)
    then show ?thesis using tick by (auto simp: clock_inv_def interval_max)
  qed
next
  case (set st H newTime rc st')
  then consider "st' = st" | "TimeClockUpdate newTime st = Inr st'" "go_clock (go st) \<le> newTime"
    by (auto simp: TPM2_ClockSet_def bindE_eq_Inr_iff split: if_splits)
  then show ?case
  proof cases
    case 1
    then show ?thesis using set by (auto simp: clock_inv_def interval_max)
  next
    case 2
    from 2(1) show ?thesis
    proof (cases rule: TimeClockUpdate_cases)
      case 1
      then show ?thesis using set 2 by (intro clock_inv_advance [of st H st']) (simp_all add: clock_inv_def)
    next
      case c2: 2
      then show ?thesis using set 2 by (intro clock_inv_advance [of st H st']) (simp_all add: clock_inv_def)
    qed
  qed
next
  case (nv_state st H rc u)
  then show ?case by (simp add: clock_inv_def)
next
  case (shutdown st H type)
  then show ?case by (simp add: clock_inv_def Shutdown_time_def NvWrite_orderly_def Let_def)
next
  case (power_cycle st H startup c2 c1 st')
  have "orderlyState (nv_gp st) = orderlyState (gp st)" using power_cycle.IH by (simp add: clock_inv_def)
  with power_cycle.hyps(2) show ?case
  proof (cases rule: Startup_time_cases)
    case (1 s1 s2)
    let ?s1 = "s1\<lparr>gp := (gp s1)\<lparr>orderlyState := SU_NONE\<rparr>, nv_gp := (nv_gp s1)\<lparr>orderlyState := SU_NONE\<rparr>\<rparr>"
    have n: "\<not> IS_ORDERLY SU_NONE" by (simp add: IS_ORDERLY_def)
    have ci: "clock_inv ?s1 H" using power_cycle.IH 1(2-4) n by (auto simp: clock_inv_def)
    show ?thesis
    proof (rule clock_inv_advance [OF ci])
      show "go_clock (go ?s1) \<le> go_clock (go st')" using 1(2) power_cycle.hyps(3) by simp
      show "orderlyState (nv_gp st') = orderlyState (gp st')" "\<not> NV_IS_ORDERLY st'" using 1(7,8) n by simp_all
      from 1(1) show "interval (go_clock (go ?s1)) < interval (go_clock (go st')) \<and> clockSafe (go st') \<and> go_clock (nv_go st') = go_clock (go st') \<or>
        interval (go_clock (go st')) \<le> interval (go_clock (go ?s1)) \<and> clockSafe (go st') = clockSafe (go ?s1) \<and> nv_go st' = nv_go ?s1"
      proof (cases rule: TimeUpdate_cases)
        case u: (1 t)
        show ?thesis using u(5) 1(5,6) by simp
      qed
    qed
  qed
qed



definition ex_gp :: time_persistent where
  "ex_gp = \<lparr>failedTries = 0, maxTries = 3, recoveryTime = 1000, lockoutRecovery = 1000, lockOutAuthEnabled = True,
     orderlyState = SU_NONE, timeEpoch = 0, resetCount = 0\<rparr>"

definition ex_go :: time_orderly where
  "ex_go = \<lparr>go_clock = 5, clockSafe = True, selfHealTimer = 0, lockoutTimer = 0, go_time = 0\<rparr>"

definition ex_time :: time_state where
  "ex_time = \<lparr>plat = ex_clock, gp = ex_gp, go = ex_go, nv_gp = ex_gp, nv_go = ex_go, g_time = 0, t_NvStatus = TPM_RC_SUCCESS,
     t_updateNV = 0, g_prevOrderlyState = SU_NONE, g_initialized = True, restartCount = 0, s_DAPendingOnNV = False\<rparr>"

lemmas ex_time_defs = ex_time_def ex_gp_def ex_go_def ex_clock_def


section \<open>Dictionary attacks\<close>

text \<open>
  A run of an attacker who does not know \<^verbatim>\<open>lockoutAuth\<close>: wrong guesses of
  authorization values that dictionary attack protection covers, each admitted by
  \<^verbatim>\<open>CheckLockedOut\<close>, commands that only let time pass, and changes of the state of NV.
  \<open>n\<close> counts the guesses and \<open>T\<close> the milliseconds.
\<close>

inductive da_run :: "time_state \<Rightarrow> nat \<Rightarrow> nat \<Rightarrow> time_state \<Rightarrow> bool" for st0 where
  start: "da_run st0 0 0 st0"
| guess: "da_run st0 n T st \<Longrightarrow> CheckLockedOut False st = (TPM_RC_SUCCESS, st1) \<Longrightarrow> handle \<noteq> TPM_RH_LOCKOUT \<Longrightarrow>
    session = None \<or> session = Some (False, isDaBound, includeAuth) \<Longrightarrow>
    IncrementLockout exempted handle session st1 = Inr (TPM_RC_AUTH_FAIL, st') \<Longrightarrow> da_run st0 (n + 1) T st'"
| wait: "da_run st0 n T st \<Longrightarrow> TimeUpdateToCurrent cycles st = Inr st' \<Longrightarrow> da_run st0 n (T + unat (g_time st' - g_time st)) st'"
| nv: "da_run st0 n T st \<Longrightarrow> da_run st0 n T (st\<lparr>t_NvStatus := rc\<rparr>)"

definition heal_age :: "time_state \<Rightarrow> nat" where
  "heal_age st = unat (g_time st - selfHealTimer (go st))"

definition healed :: "time_state \<Rightarrow> nat \<Rightarrow> nat \<Rightarrow> nat \<Rightarrow> time_state \<Rightarrow> bool" where
  "healed st0 n T e st \<longleftrightarrow> unat (failedTries (gp st)) + e = unat (failedTries (gp st0)) + n \<and>
     e * (unat (recoveryTime (gp st0)) * 1000) + heal_age st \<le> heal_age st0 + T \<and>
     failedTries (gp st) \<le> maxTries (gp st) \<and> maxTries (gp st) = maxTries (gp st0) \<and> recoveryTime (gp st) = recoveryTime (gp st0)"

lemma CheckLockedOut_success:
  assumes "CheckLockedOut False st = (TPM_RC_SUCCESS, st1)"
  shows "failedTries (gp st) < maxTries (gp st)" "gp st1 = gp st" "go st1 = go st" "g_time st1 = g_time st"
  using assms by (auto simp: CheckLockedOut_def Let_def not_le split: if_splits)

lemma IncrementLockout_guess:
  assumes "IncrementLockout exempted handle session st = Inr (TPM_RC_AUTH_FAIL, st')" "handle \<noteq> TPM_RH_LOCKOUT"
    "session = None \<or> session = Some (False, isDaBound, includeAuth)"
  shows "gp st' = (if recoveryTime (gp st) = 0 then gp st else (gp st)\<lparr>failedTries := failedTries (gp st) + 1\<rparr>)"
    "selfHealTimer (go st') = g_time st'" "g_time st' = g_time st"
  using assms by (auto simp: IncrementLockout_def IncrementLockout_failed_def DARegisterFailure_def Let_def split: if_splits)

lemma DASelfHeal_healed:
  assumes "recoveryTime (gp st) \<noteq> 0"
  obtains d where "unat (failedTries (gp (DASelfHeal st))) + d = unat (failedTries (gp st))"
    "d * (unat (recoveryTime (gp st)) * 1000) + heal_age (DASelfHeal st) \<le> heal_age st"
    "maxTries (gp (DASelfHeal st)) = maxTries (gp st)" "recoveryTime (gp (DASelfHeal st)) = recoveryTime (gp st)"
proof -
  let ?R = "unat (recoveryTime (gp st))" and ?a = "g_time st - selfHealTimer (go st)"
  define dc where "dc = (?a div 1000) div ucast (recoveryTime (gp st))"
  have dc: "unat dc = heal_age st div (?R * 1000)"
    by (simp add: dc_def unat_div heal_age_def div_mult2_eq [symmetric] mult.commute)
  have prod: "unat dc * (?R * 1000) \<le> heal_age st" by (simp add: dc)
  have age: "unat (?a - dc * ucast (recoveryTime (gp st)) * 1000) = heal_age st - unat dc * (?R * 1000)"
  proof -
    have h: "heal_age st < 2 ^ 64" using unat_lt [of "g_time st - selfHealTimer (go st)"] by (simp add: heal_age_def)
    have "unat dc * ?R \<le> unat dc * (?R * 1000)" by simp
    then have "unat (dc * ucast (recoveryTime (gp st))) = unat dc * ?R"
      using unat_mult_small [of dc "ucast (recoveryTime (gp st))"] prod h by simp
    then have m: "unat (dc * ucast (recoveryTime (gp st)) * 1000) = unat dc * (?R * 1000)"
      using unat_mult_small [of "dc * ucast (recoveryTime (gp st))" 1000] prod h by (simp add: mult.assoc)
    then have "dc * ucast (recoveryTime (gp st)) * 1000 \<le> ?a" using prod by (simp add: word_le_nat_alt heal_age_def)
    then show ?thesis using m by (simp add: unat_sub heal_age_def)
  qed
  define d where "d = (if failedTries (gp st) = 0 then 0 else min (unat (failedTries (gp st))) (unat (ucast dc :: UINT32)))"
  have "unat (ucast dc :: UINT32) \<le> unat dc" by (simp add: unat_ucast_mod)
  then have "d \<le> unat dc" by (auto simp: d_def intro: min.coboundedI2)
  then have d: "d * (?R * 1000) \<le> unat dc * (?R * 1000)" by (rule mult_le_mono1)
  show ?thesis
  proof (rule that [of d])
    show "unat (failedTries (gp (DASelfHeal st))) + d = unat (failedTries (gp st))"
      using assms by (auto simp: DASelfHeal_def DASelfHeal_tries_def DASelfHeal_lockout_def Let_def d_def dc_def [symmetric]
          word_le_nat_alt unat_sub min_def)
    have h: "heal_age (DASelfHeal st) = (if failedTries (gp st) = 0 then heal_age st else heal_age st - unat dc * (?R * 1000))"
      using assms age by (auto simp: DASelfHeal_def DASelfHeal_tries_def DASelfHeal_lockout_def Let_def dc_def [symmetric] heal_age_def
          diff_diff_eq)
    show "d * (?R * 1000) + heal_age (DASelfHeal st) \<le> heal_age st"
    proof (cases "failedTries (gp st) = 0")
      case True
      then show ?thesis using h by (simp add: d_def)
    next
      case False
      then have "heal_age (DASelfHeal st) = heal_age st - unat dc * (?R * 1000)" using h by simp
      then show ?thesis using d prod by linarith
    qed
  qed (auto simp: DASelfHeal_def DASelfHeal_tries_def DASelfHeal_lockout_def Let_def)
qed

lemma da_run_healed:
  assumes "da_run st0 n T st" "recoveryTime (gp st0) \<noteq> 0" "failedTries (gp st0) \<le> maxTries (gp st0)" "heal_age st0 + T < 2 ^ 64"
  shows "\<exists>e. healed st0 n T e st"
  using assms
proof (induction rule: da_run.induct)
  case start
  then show ?case by (auto simp: healed_def)
next
  case (guess n T st st1 handle session isDaBound includeAuth exempted st')
  then obtain e where e: "healed st0 n T e st" by blast
  note c = CheckLockedOut_success [OF guess.hyps(2)] and f = IncrementLockout_guess [OF guess.hyps(5,3,4)]
  have "unat (failedTries (gp st) + 1) = unat (failedTries (gp st)) + 1"
    using c(1) unat_lt [of "maxTries (gp st)"] unat_add_small [of "failedTries (gp st)" 1] by (simp add: word_less_nat_alt)
  then have "healed st0 (n + 1) T e st'"
    using e c f guess.prems(1) by (auto simp: healed_def heal_age_def word_le_nat_alt word_less_nat_alt)
  then show ?case by blast
next
  case (wait n T st cycles st')
  then obtain e where e: "healed st0 n T e st" by auto
  show ?case
  proof (cases "TimeUpdate cycles st = Inr st'")
    case False
    then have "st' = st" using wait.hyps(2) by (auto simp: TimeUpdateToCurrent_def split: if_splits)
    then show ?thesis using e by auto
  next
    case True
    then obtain t s2 s3 where s: "TimeClockUpdate (go_clock (go st) + t) s2 = Inr s3" "st' = DASelfHeal s3" "g_time s2 = g_time st + t"
      "go s2 = go st" "nv_go s2 = nv_go st" "same_da st s2" by (rule TimeUpdate_split)
    have s3: "g_time s3 = g_time st + t" "selfHealTimer (go s3) = selfHealTimer (go st)" "gp s3 = gp s2"
      using s(1) by (cases rule: TimeClockUpdate_cases; use s(3,4) in simp)+
    have age: "heal_age s3 = heal_age st + unat t"
    proof -
      have "heal_age st + unat t < 2 ^ 64" using e wait.prems(3) s(2) s3 by (simp add: healed_def)
      then have "unat ((g_time st - selfHealTimer (go st)) + t) = heal_age st + unat t"
        using unat_add_small [of "g_time st - selfHealTimer (go st)" t] by (simp add: heal_age_def)
      then show ?thesis using s3 by (simp add: heal_age_def algebra_simps)
    qed
    have r: "recoveryTime (gp s3) = recoveryTime (gp st)" "failedTries (gp s3) = failedTries (gp st)" "maxTries (gp s3) = maxTries (gp st)"
      using s(6) s3 by (simp_all add: same_da_def)
    then have "recoveryTime (gp s3) \<noteq> 0" using e wait.prems(1) by (simp add: healed_def)
    then obtain d where d: "unat (failedTries (gp st')) + d = unat (failedTries (gp st))"
      "d * (unat (recoveryTime (gp st)) * 1000) + heal_age st' \<le> heal_age st + unat t"
      "maxTries (gp st') = maxTries (gp st)" "recoveryTime (gp st') = recoveryTime (gp st)"
      using r s(2) age by (metis DASelfHeal_healed)
    have "unat (g_time st' - g_time st) = unat t" using s(2) s3 by simp
    then have "healed st0 n (T + unat (g_time st' - g_time st)) (e + d) st'"
      using e d by (auto simp: healed_def word_le_nat_alt add_mult_distrib)
    then show ?thesis by blast
  qed
next
  case (nv n T st rc)
  then show ?case by (auto simp: healed_def heal_age_def)
qed





lemma plat_TimerRead_reset: "s_timerReset (snd (plat_TimerRead cycles c)) = s_timerReset c"
  by (simp add: plat_TimerRead_def TimerRead_report_def Let_def)

lemma Startup_time_orderly:
  assumes "Startup_time startup c2 (TPM_Init_time c1 (plat_Signal_PowerOn st)) = Inr st'" "IS_ORDERLY (orderlyState (nv_gp st))"
  obtains s where "gp st' = (gp (DASelfHeal s))\<lparr>orderlyState := SU_NONE, resetCount := resetCount (gp st')\<rparr>" "go st' = go (DASelfHeal s)"
    "g_time st' = g_time s" "failedTries (gp s) = failedTries (nv_gp st)" "recoveryTime (gp s) = recoveryTime (nv_gp st)"
    "selfHealTimer (go s) = selfHealTimer (nv_go st) - go_time (nv_go st)"
proof -
  define i where "i = TPM_Init_time c1 (plat_Signal_PowerOn st)"
  define prev where "prev = orderlyState (nv_gp st) AND NOT (PRE_STARTUP_FLAG OR STARTUP_LOCALITY_3)"
  define s0 where "s0 = (upd_gp (\<lambda>g. g\<lparr>orderlyState := prev\<rparr>) (i\<lparr>g_prevOrderlyState := prev\<rparr>)\<lparr>g_initialized := True\<rparr>)"
  have prev: "IS_ORDERLY prev" using assms(2) by (simp add: prev_def)
  have i: "gp i = nv_gp st" "go i = nv_go st" "nv_go i = nv_go st" "nv_gp i = nv_gp st" "s_timerReset (plat i)"
    by (simp_all add: i_def) (simp add: TPM_Init_time_def TimePowerOn_def split_beta plat_TimerRead_reset plat_Signal_PowerOn_def plat_TimerReset_def)
  have s0: "gp s0 = (nv_gp st)\<lparr>orderlyState := prev\<rparr>" "go s0 = nv_go st" "s_timerReset (plat s0)" "g_prevOrderlyState s0 = prev"
    using i by (simp_all add: s0_def)
  define s1 where "s1 = (let st = upd_go (\<lambda>o'. o'\<lparr>selfHealTimer := selfHealTimer o' - go_time o', lockoutTimer := lockoutTimer o' - go_time o'\<rparr>)
      (s0\<lparr>plat := snd (plat_TimerWasReset (plat s0))\<rparr>) in
    if lockoutRecovery (gp st) = 0 then sync_lockOutAuthEnabled (upd_gp (\<lambda>g. g\<lparr>lockOutAuthEnabled := True\<rparr>) st) else st)"
  have s1: "selfHealTimer (go s1) = selfHealTimer (nv_go st) - go_time (nv_go st)" "failedTries (gp s1) = failedTries (nv_gp st)"
    "recoveryTime (gp s1) = recoveryTime (nv_gp st)" using s0 by (simp_all add: s1_def Let_def)
  have da: "DAStartup c2 s0 = bindE (TimeUpdate c2 s1) (\<lambda>st. Inr (True, st))"
    using s0 prev by (simp add: DAStartup_def plat_TimerWasReset_def s1_def Let_def)
  have "Startup_time startup c2 i = bindE (DAStartup c2 s0) (\<lambda>(_, st). let st = (case startup of
                       SU_RESUME \<Rightarrow> st\<lparr>restartCount := restartCount st + 1\<rparr>
                     | SU_RESTART \<Rightarrow> st\<lparr>restartCount := restartCount st + 1\<rparr>
                     | SU_RESET \<Rightarrow> (sync_resetCount (upd_gp (\<lambda>g. g\<lparr>resetCount := resetCount g + 1\<rparr>) st))\<lparr>restartCount := 0\<rparr>)
           in Inr (sync_orderlyState (upd_gp (\<lambda>g. g\<lparr>orderlyState := SU_NONE\<rparr>) st)))"
    using i prev assms(2) by (simp add: Startup_time_def TimeStartup_def Let_def s0_def prev_def cong: STARTUP_TYPE.case_cong)
  then obtain s2 where s2: "TimeUpdate c2 s1 = Inr s2" "go st' = go s2" "g_time st' = g_time s2"
    "gp st' = (gp s2)\<lparr>orderlyState := SU_NONE, resetCount := resetCount (gp st')\<rparr>"
    using assms(1) da unfolding i_def by (cases startup) (auto simp: bindE_eq_Inr_iff)
  from s2(1) obtain t u s3 where s3: "TimeClockUpdate (go_clock (go s1) + t) u = Inr s3" "s2 = DASelfHeal s3" "g_time u = g_time s1 + t"
    "go u = go s1" "nv_go u = nv_go s1" "same_da s1 u" by (rule TimeUpdate_split)
  have "gp s3 = gp u" "selfHealTimer (go s3) = selfHealTimer (go u)"
    using s3(1) by (cases rule: TimeClockUpdate_cases; use s3(4) in simp)+
  then show ?thesis using that [of s3] s2 s3 s1 by (simp add: same_da_def)
qed


text \<open>
  C26. The bound on wrong guesses does not extend over power cycles.  A guess after an orderly
  \<^verbatim>\<open>TPM2_Shutdown\<close> leaves the orderly state as it is, and the self healing timer goes to NV
  only at shutdown: after the next startup the age of the last failure is what it was at the
  shutdown, as if neither the healing that admitted the guess nor the guess had been.
\<close>

theorem da_shutdown_replays_healing:
  assumes nv: "t_NvStatus st = TPM_RC_SUCCESS" and st1: "Shutdown_time 0 st = (TPM_RC_SUCCESS, st1)"
    and st2: "TimeUpdateToCurrent c st1 = Inr st2" "interval (go_clock (go st2)) \<le> interval (go_clock (go st1))"
    and st3: "CheckLockedOut False st2 = (TPM_RC_SUCCESS, st3)" "handle \<noteq> TPM_RH_LOCKOUT"
    and st4: "IncrementLockout exempted handle None st3 = Inr (TPM_RC_AUTH_FAIL, st4)" "t_NvStatus st3 = TPM_RC_SUCCESS"
    and st5: "Startup_time startup c2 (TPM_Init_time c1 (plat_Signal_PowerOn st4)) = Inr st5"
    and young: "heal_age st1 + unat (g_time st5) < unat (recoveryTime (nv_gp st4)) * 1000"
  shows "heal_age st5 = heal_age st1 + unat (g_time st5) \<and> failedTries (gp st5) = failedTries (nv_gp st4)"
proof -
  have s1: "nv_go st1 = go st1" "go_time (go st1) = g_time st1" "orderlyState (nv_gp st1) = 0"
    using st1 nv by (auto simp: Shutdown_time_def NvWrite_orderly_def Let_def)
  have s2: "nv_go st2 = nv_go st1 \<and> orderlyState (nv_gp st2) = orderlyState (nv_gp st1)"
  proof (cases "TimeUpdate c st1 = Inr st2")
    case True
    then show ?thesis using st2(2) by (cases rule: TimeUpdate_cases) auto
  next
    case False
    then show ?thesis using st2(1) by (auto simp: TimeUpdateToCurrent_def split: if_splits)
  qed
  have s3: "nv_go st3 = nv_go st2" "orderlyState (nv_gp st3) = orderlyState (nv_gp st2)"
    using st3 by (auto simp: CheckLockedOut_def Let_def split: if_splits)
  have s4: "nv_go st4 = nv_go st3" "orderlyState (nv_gp st4) = orderlyState (nv_gp st3)"
    using st4 st3(2) by (auto simp: IncrementLockout_def IncrementLockout_failed_def DARegisterFailure_def Let_def split: if_splits)
  have o4: "IS_ORDERLY (orderlyState (nv_gp st4))" using s1 s2 s3 s4 by (simp add: IS_ORDERLY_def)
  obtain s where s: "gp st5 = (gp (DASelfHeal s))\<lparr>orderlyState := SU_NONE, resetCount := resetCount (gp st5)\<rparr>" "go st5 = go (DASelfHeal s)"
    "g_time st5 = g_time s" "failedTries (gp s) = failedTries (nv_gp st4)" "recoveryTime (gp s) = recoveryTime (nv_gp st4)"
    "selfHealTimer (go s) = selfHealTimer (nv_go st4) - go_time (nv_go st4)"
    by (rule Startup_time_orderly [OF st5 o4])
  have R: "unat (recoveryTime (nv_gp st4)) * 1000 < 2 ^ 64" using unat_lt [of "recoveryTime (nv_gp st4)"] by simp
  have age: "heal_age s = heal_age st1 + unat (g_time st5)"
  proof -
    have "unat ((g_time st1 - selfHealTimer (go st1)) + g_time s) = heal_age st1 + unat (g_time s)"
      using young R s(3) unat_add_small [of "g_time st1 - selfHealTimer (go st1)" "g_time s"] by (simp add: heal_age_def)
    moreover have "g_time s - selfHealTimer (go s) = (g_time st1 - selfHealTimer (go st1)) + g_time s"
      using s(6) s1 s2 s3 s4 by simp
    ultimately show ?thesis using s(3) unfolding heal_age_def by metis
  qed
  have r0: "recoveryTime (gp s) \<noteq> 0" using young s(5) by auto
  obtain d where d: "unat (failedTries (gp (DASelfHeal s))) + d = unat (failedTries (gp s))"
    "d * (unat (recoveryTime (gp s)) * 1000) + heal_age (DASelfHeal s) \<le> heal_age s" by (rule DASelfHeal_healed [OF r0])
  have "d * (unat (recoveryTime (nv_gp st4)) * 1000) < unat (recoveryTime (nv_gp st4)) * 1000" using d(2) [unfolded s(5)] age young by linarith
  then have d0: "d = 0" by (cases d) simp_all
  have same: "selfHealTimer (go (DASelfHeal s)) = selfHealTimer (go s)"
  proof -
    have "heal_age s div (unat (recoveryTime (gp s)) * 1000) = 0" using age young s(5) by simp
    then have "((g_time s - selfHealTimer (go s)) div 1000) div ucast (recoveryTime (gp s)) = 0"
      by (simp add: word_unat_eq_iff unat_div heal_age_def div_mult2_eq [symmetric] mult.commute)
    then show ?thesis using r0 by (auto simp: DASelfHeal_def DASelfHeal_tries_def DASelfHeal_lockout_def Let_def)
  qed
  have "failedTries (gp st5) = failedTries (gp (DASelfHeal s))" by (subst s(1)) simp
  moreover have "failedTries (gp (DASelfHeal s)) = failedTries (gp s)" using d(1) d0 by (simp add: word_unat_eq_iff)
  moreover have "heal_age st5 = heal_age s" using s(2,3) same by (simp add: heal_age_def)
  ultimately show ?thesis using age s(4) by simp
qed


text \<open>A TPM in lockout ten milliseconds before the next guess would be admitted.\<close>

definition ex_locked :: time_state where
  "ex_locked = ex_time\<lparr>plat := \<lparr>s_realTimePrevious = 999990, s_lastSystemTime = 1003990, s_lastReportedTime = 999990, s_tpmTime = 999990,
     s_timerReset = False, s_timerStopped = False, s_adjustRate = 30000\<rparr>,
     gp := ex_gp\<lparr>failedTries := 3\<rparr>, nv_gp := ex_gp\<lparr>failedTries := 3\<rparr>, g_time := 999990\<rparr>"

lemma ex_cycles: "plat_RealTime 4312157165184 = 1004010" "plat_RealTime 1000000 = 1" "plat_RealTime 3000000 = 3"
  by (simp_all add: word_unat_eq_iff unat_RealTime)

theorem da_shutdown_replays_healing_witness:
  "\<exists>st1 st4 st5. Shutdown_time 0 ex_locked = (TPM_RC_SUCCESS, st1) \<and> heal_age st1 = 999990 \<and>
     Startup_time SU_RESET 3000000 (TPM_Init_time 1000000 (plat_Signal_PowerOn st4)) = Inr st5 \<and> heal_age st5 = 999992"
proof -
  let ?h = "0x80000000 :: TPM_HANDLE"
  define st1 where "st1 = ex_locked\<lparr>gp := ex_gp\<lparr>failedTries := 3, orderlyState := 0\<rparr>, nv_gp := ex_gp\<lparr>failedTries := 3, orderlyState := 0\<rparr>,
      go := ex_go\<lparr>go_time := 999990\<rparr>, nv_go := ex_go\<lparr>go_time := 999990\<rparr>, t_updateNV := 1\<rparr>"
  define st2 where "st2 = st1\<lparr>plat := \<lparr>s_realTimePrevious = 1000010, s_lastSystemTime = 1004010, s_lastReportedTime = 1000010, s_tpmTime = 1000010,
      s_timerReset = False, s_timerStopped = False, s_adjustRate = 30000\<rparr>, g_time := 1000010,
      go := ex_go\<lparr>go_time := 999990, go_clock := 25, selfHealTimer := 1000000\<rparr>,
      gp := ex_gp\<lparr>failedTries := 2, orderlyState := 0\<rparr>, nv_gp := ex_gp\<lparr>failedTries := 2, orderlyState := 0\<rparr>\<rparr>"
  define st4 where "st4 = st2\<lparr>gp := ex_gp\<lparr>failedTries := 3, orderlyState := 0\<rparr>, nv_gp := ex_gp\<lparr>failedTries := 3, orderlyState := 0\<rparr>,
      go := ex_go\<lparr>go_time := 999990, go_clock := 25, selfHealTimer := 1000010\<rparr>\<rparr>"
  note st = st1_def st2_def st4_def ex_locked_def ex_time_def ex_gp_def ex_go_def
  have s1: "Shutdown_time 0 ex_locked = (TPM_RC_SUCCESS, st1)" "heal_age st1 = 999990"
    by (simp_all add: st Shutdown_time_def NvWrite_orderly_def NV_SYNC_PERSISTENT_def heal_age_def)
  have "plat_TimerRead 4312157165184 (plat st1) = (1000010, plat st2)"
    by (simp add: st2_def st1_def ex_locked_def plat_TimerRead_def TimerRead_report_def ex_cycles)
  then have s2: "TimeUpdateToCurrent 4312157165184 st1 = Inr st2" "interval (go_clock (go st2)) \<le> interval (go_clock (go st1))"
    by (simp_all add: TimeUpdateToCurrent_def TimeUpdate_def plat_TimerWasStopped_def Let_def ex_time_def ex_gp_def ex_go_def TimeClockUpdate_def
       NV_SYNC_PERSISTENT_def or_mask_less_iff interval_def DASelfHeal_def DASelfHeal_tries_def DASelfHeal_lockout_def st2_def st1_def ex_locked_def word_le_nat_alt)
  have s3: "CheckLockedOut False st2 = (TPM_RC_SUCCESS, st2)" "t_NvStatus st2 = TPM_RC_SUCCESS"
    by (simp_all add: st CheckLockedOut_def word_le_nat_alt)
  have s4: "IncrementLockout (\<lambda>_. False) ?h None st2 = Inr (TPM_RC_AUTH_FAIL, st4)"
    by (simp add: st IncrementLockout_def IncrementLockout_failed_def NV_SYNC_PERSISTENT_def DARegisterFailure_def)
  define s6 where "s6 = st2\<lparr>plat := \<lparr>s_realTimePrevious = 0, s_lastSystemTime = 1, s_lastReportedTime = 0, s_tpmTime = 0,
      s_timerReset = True, s_timerStopped = True, s_adjustRate = 30000\<rparr>, g_time := 0, g_initialized := False,
      gp := ex_gp\<lparr>failedTries := 3, orderlyState := 0\<rparr>, nv_gp := ex_gp\<lparr>failedTries := 3, orderlyState := 0\<rparr>, go := ex_go\<lparr>go_time := 999990\<rparr>\<rparr>"
  have "plat_TimerRead 1000000 (plat_TimerReset (plat st4)) = (0, plat s6)"
    by (simp add: st4_def st2_def s6_def plat_TimerReset_def plat_TimerRead_def TimerRead_report_def ex_cycles)
  then have s6: "TPM_Init_time 1000000 (plat_Signal_PowerOn st4) = s6"
    by (simp add: TPM_Init_time_def TimePowerOn_def plat_Signal_PowerOn_def) (simp add: st4_def st2_def s6_def st1_def)
  define s7 where "s7 = s6\<lparr>plat := \<lparr>s_realTimePrevious = 2, s_lastSystemTime = 3, s_lastReportedTime = 2, s_tpmTime = 2,
      s_timerReset = False, s_timerStopped = False, s_adjustRate = 30000\<rparr>, g_time := 2, g_initialized := True, g_prevOrderlyState := 0,
      gp := ex_gp\<lparr>failedTries := 3, orderlyState := 0, timeEpoch := 1\<rparr>, nv_gp := ex_gp\<lparr>failedTries := 3, orderlyState := 0, timeEpoch := 1\<rparr>,
      go := ex_go\<lparr>go_time := 999990, go_clock := 7, selfHealTimer := - 999990, lockoutTimer := - 999990\<rparr>\<rparr>"
  have "plat_TimerRead 3000000 (plat s6\<lparr>s_timerReset := False, s_timerStopped := False\<rparr>) = (2, plat s7)"
    by (simp add: s6_def s7_def plat_TimerRead_def TimerRead_report_def ex_cycles)
  then have s7: "DAStartup 3000000 (upd_gp (\<lambda>g. g\<lparr>orderlyState := 0\<rparr>) (s6\<lparr>g_prevOrderlyState := 0\<rparr>)\<lparr>g_initialized := True\<rparr>) = Inr (True, s7)"
    by (simp add: DAStartup_def plat_TimerWasReset_def TimeUpdate_def plat_TimerWasStopped_def TimeNewEpoch_def s6_def Let_def IS_ORDERLY_def ex_gp_def ex_go_def TimeClockUpdate_def
       NV_SYNC_PERSISTENT_def or_mask_less_iff interval_def DASelfHeal_def DASelfHeal_tries_def DASelfHeal_lockout_def s7_def
       st2_def st1_def ex_locked_def ex_time_def)
  have "Startup_time SU_RESET 3000000 s6 = Inr (sync_orderlyState (upd_gp (\<lambda>g. g\<lparr>orderlyState := SU_NONE\<rparr>)
      ((sync_resetCount (upd_gp (\<lambda>g. g\<lparr>resetCount := resetCount g + 1\<rparr>) s7))\<lparr>restartCount := 0\<rparr>)))"
  proof -
    have "orderlyState (gp s6) = 0" by (simp add: s6_def)
    then show ?thesis using s7 by (simp add: Startup_time_def TimeStartup_def IS_ORDERLY_def)
  qed
  then have "\<exists>st5. Startup_time SU_RESET 3000000 (TPM_Init_time 1000000 (plat_Signal_PowerOn st4)) = Inr st5 \<and> g_time st5 = 2"
    using s6 by (simp add: s7_def)
  then obtain st5 where s5: "Startup_time SU_RESET 3000000 (TPM_Init_time 1000000 (plat_Signal_PowerOn st4)) = Inr st5" "g_time st5 = 2"
    by blast
  have "heal_age st5 = heal_age st1 + unat (g_time st5) \<and> failedTries (gp st5) = failedTries (nv_gp st4)"
    by (rule da_shutdown_replays_healing [OF _ s1(1) s2 s3(1) _ s4 s3(2) s5(1)]) (use s1(2) s5(2) in \<open>simp_all add: st\<close>)
  then show ?thesis using s1 s5 by auto
qed

end
