(* ===== verification/FTPM_Marshal_Public.thy ===== *)
theory FTPM_Marshal_Public
  imports FTPM_Marshal_Struct
begin

unbundle bit_operations_syntax

text \<open>
  The structures of keys and objects in \<^verbatim>\<open>Marshal.c\<close> and \<^verbatim>\<open>Unmarshal.c\<close>:
  symmetric algorithms, schemes, signatures, public and sensitive areas.  A union is a datatype
  with a constructor for each distinct member type; the value of a union whose selector reads
  nothing is the constructor without argument.
\<close>

section \<open>Symmetric algorithms\<close>

text \<open>
  The members of \<^verbatim>\<open>TPMU_SYM_KEY_BITS\<close> and of \<^verbatim>\<open>TPMU_SYM_MODE\<close> are 16-bit integers
  that share their storage.  A union that is not read keeps the zero of the cleared input buffer.
\<close>

definition TPMU_SYM_KEY_BITS_ok :: "TPM_ALG_ID \<Rightarrow> UINT16 \<Rightarrow> bool" where
  "TPMU_SYM_KEY_BITS_ok selector k \<longleftrightarrow>
     selector = TPM_ALG_AES \<and> TPMI_AES_KEY_BITS_ok k \<or>
     selector = TPM_ALG_CAMELLIA \<and> TPMI_CAMELLIA_KEY_BITS_ok k \<or>
     selector = TPM_ALG_XOR \<and> TPMI_ALG_HASH_ok False k \<or>
     selector = TPM_ALG_NULL \<and> k = 0"

definition TPMU_SYM_KEY_BITS_Marshal :: "UINT16 \<Rightarrow> TPM_ALG_ID \<Rightarrow> marshaler" where
  "TPMU_SYM_KEY_BITS_Marshal source selector =
     (if selector = TPM_ALG_AES then TPMI_AES_KEY_BITS_Marshal source
      else if selector = TPM_ALG_CAMELLIA then TPMI_CAMELLIA_KEY_BITS_Marshal source
      else if selector = TPM_ALG_XOR then TPMI_ALG_HASH_Marshal source
      else if selector = TPM_ALG_NULL then doneM
      else failM FATAL_ERROR_PARAMETER)"

definition TPMU_SYM_KEY_BITS_Unmarshal :: "TPM_ALG_ID \<Rightarrow> UINT16 unmarshaler" where
  "TPMU_SYM_KEY_BITS_Unmarshal selector bs =
     (if selector = TPM_ALG_AES then TPMI_AES_KEY_BITS_Unmarshal bs
      else if selector = TPM_ALG_CAMELLIA then TPMI_CAMELLIA_KEY_BITS_Unmarshal bs
      else if selector = TPM_ALG_XOR then TPMI_ALG_HASH_Unmarshal False bs
      else if selector = TPM_ALG_NULL then Inr (0, bs)
      else Inl TPM_RC_SELECTOR)"

lemma codec_TPMU_SYM_KEY_BITS:
  "codec (\<lambda>k. TPMU_SYM_KEY_BITS_Marshal k selector) (TPMU_SYM_KEY_BITS_Unmarshal selector) (TPMU_SYM_KEY_BITS_ok selector) 2"
  unfolding TPMU_SYM_KEY_BITS_Marshal_def TPMU_SYM_KEY_BITS_Unmarshal_def
  by (rule codec_weaken, (rule codec_cond codec_TPMI_AES_KEY_BITS codec_TPMI_CAMELLIA_KEY_BITS codec_TPMI_ALG_HASH
        codec_done codec_fail)+)
     (auto simp: TPMU_SYM_KEY_BITS_ok_def)

definition TPMU_SYM_MODE_ok :: "TPM_ALG_ID \<Rightarrow> UINT16 \<Rightarrow> bool" where
  "TPMU_SYM_MODE_ok selector m \<longleftrightarrow>
     (selector = TPM_ALG_AES \<or> selector = TPM_ALG_CAMELLIA) \<and> TPMI_ALG_SYM_MODE_ok True m \<or>
     (selector = TPM_ALG_XOR \<or> selector = TPM_ALG_NULL) \<and> m = 0"

definition TPMU_SYM_MODE_Marshal :: "UINT16 \<Rightarrow> TPM_ALG_ID \<Rightarrow> marshaler" where
  "TPMU_SYM_MODE_Marshal source selector =
     (if selector = TPM_ALG_AES then TPMI_ALG_SYM_MODE_Marshal source
      else if selector = TPM_ALG_CAMELLIA then TPMI_ALG_SYM_MODE_Marshal source
      else if selector = TPM_ALG_XOR \<or> selector = TPM_ALG_NULL then doneM
      else failM FATAL_ERROR_PARAMETER)"

definition TPMU_SYM_MODE_Unmarshal :: "TPM_ALG_ID \<Rightarrow> UINT16 unmarshaler" where
  "TPMU_SYM_MODE_Unmarshal selector bs =
     (if selector = TPM_ALG_AES then TPMI_ALG_SYM_MODE_Unmarshal True bs
      else if selector = TPM_ALG_CAMELLIA then TPMI_ALG_SYM_MODE_Unmarshal True bs
      else if selector = TPM_ALG_XOR \<or> selector = TPM_ALG_NULL then Inr (0, bs)
      else Inl TPM_RC_SELECTOR)"

lemma codec_TPMU_SYM_MODE:
  "codec (\<lambda>m. TPMU_SYM_MODE_Marshal m selector) (TPMU_SYM_MODE_Unmarshal selector) (TPMU_SYM_MODE_ok selector) 2"
  unfolding TPMU_SYM_MODE_Marshal_def TPMU_SYM_MODE_Unmarshal_def
  by (rule codec_weaken, (rule codec_cond codec_TPMI_ALG_SYM_MODE codec_done codec_fail)+)
     (auto simp: TPMU_SYM_MODE_ok_def)

record TPMT_SYM_DEF_OBJECT =
  so_algorithm :: TPM_ALG_ID
  so_keyBits :: UINT16
  so_mode :: UINT16

definition TPMT_SYM_DEF_OBJECT_ok :: "bool \<Rightarrow> TPMT_SYM_DEF_OBJECT \<Rightarrow> bool" where
  "TPMT_SYM_DEF_OBJECT_ok allowNull s \<longleftrightarrow>
     TPMI_ALG_SYM_OBJECT_ok allowNull (so_algorithm s) \<and>
     TPMU_SYM_KEY_BITS_ok (so_algorithm s) (so_keyBits s) \<and>
     TPMU_SYM_MODE_ok (so_algorithm s) (so_mode s)"

definition TPMT_SYM_DEF_OBJECT_Marshal :: "TPMT_SYM_DEF_OBJECT \<Rightarrow> marshaler" where
  "TPMT_SYM_DEF_OBJECT_Marshal s =
     andM (TPMI_ALG_SYM_OBJECT_Marshal (so_algorithm s))
     (andM (TPMU_SYM_KEY_BITS_Marshal (so_keyBits s) (so_algorithm s)) (TPMU_SYM_MODE_Marshal (so_mode s) (so_algorithm s)))"

definition TPMT_SYM_DEF_OBJECT_Unmarshal :: "bool \<Rightarrow> TPMT_SYM_DEF_OBJECT unmarshaler" where
  "TPMT_SYM_DEF_OBJECT_Unmarshal allowNull bs =
     bindU (TPMI_ALG_SYM_OBJECT_Unmarshal allowNull bs) (\<lambda>x bs.
     bindU (TPMU_SYM_KEY_BITS_Unmarshal x bs) (\<lambda>y bs.
     bindU (TPMU_SYM_MODE_Unmarshal x bs) (\<lambda>z bs.
       Inr (\<lparr>so_algorithm = x, so_keyBits = y, so_mode = z\<rparr>, bs))))"

lemma codec_TPMT_SYM_DEF_OBJECT: "codec TPMT_SYM_DEF_OBJECT_Marshal (TPMT_SYM_DEF_OBJECT_Unmarshal allowNull) (TPMT_SYM_DEF_OBJECT_ok allowNull) 6"
  by (rule codec_struct3 [where C = "\<lambda>x y z. \<lparr>so_algorithm = x, so_keyBits = y, so_mode = z\<rparr>",
      OF codec_TPMI_ALG_SYM_OBJECT [of allowNull] codec_TPMU_SYM_KEY_BITS codec_TPMU_SYM_MODE])
     (simp_all add: TPMT_SYM_DEF_OBJECT_Marshal_def TPMT_SYM_DEF_OBJECT_Unmarshal_def TPMT_SYM_DEF_OBJECT_ok_def, meson TPMT_SYM_DEF_OBJECT.cases)

definition TPMS_SYMCIPHER_PARMS_Marshal :: "TPMT_SYM_DEF_OBJECT \<Rightarrow> marshaler" where
  "TPMS_SYMCIPHER_PARMS_Marshal = TPMT_SYM_DEF_OBJECT_Marshal"

definition TPMS_SYMCIPHER_PARMS_Unmarshal :: "TPMT_SYM_DEF_OBJECT unmarshaler" where
  "TPMS_SYMCIPHER_PARMS_Unmarshal = TPMT_SYM_DEF_OBJECT_Unmarshal False"

lemma codec_TPMS_SYMCIPHER_PARMS:
  "codec TPMS_SYMCIPHER_PARMS_Marshal TPMS_SYMCIPHER_PARMS_Unmarshal (TPMT_SYM_DEF_OBJECT_ok False) 6"
  using codec_TPMT_SYM_DEF_OBJECT by (simp add: TPMS_SYMCIPHER_PARMS_Marshal_def TPMS_SYMCIPHER_PARMS_Unmarshal_def)

section \<open>Schemes\<close>

text \<open>The structure with the one member \<^verbatim>\<open>hashAlg\<close> is the algorithm; its typedefs share the functions.\<close>

definition TPMS_SCHEME_HASH_Marshal :: "TPM_ALG_ID \<Rightarrow> marshaler" where
  "TPMS_SCHEME_HASH_Marshal = TPMI_ALG_HASH_Marshal"

definition TPMS_SCHEME_HASH_Unmarshal :: "TPM_ALG_ID unmarshaler" where
  "TPMS_SCHEME_HASH_Unmarshal = TPMI_ALG_HASH_Unmarshal False"

lemma codec_TPMS_SCHEME_HASH: "codec TPMS_SCHEME_HASH_Marshal TPMS_SCHEME_HASH_Unmarshal (TPMI_ALG_HASH_ok False) 2"
  using codec_TPMI_ALG_HASH by (simp add: TPMS_SCHEME_HASH_Marshal_def TPMS_SCHEME_HASH_Unmarshal_def)

record TPMS_SCHEME_ECDAA =
  ecdaa_hashAlg :: TPM_ALG_ID
  ecdaa_count :: UINT16

definition TPMS_SCHEME_ECDAA_ok :: "TPMS_SCHEME_ECDAA \<Rightarrow> bool" where
  "TPMS_SCHEME_ECDAA_ok s \<longleftrightarrow>
     TPMI_ALG_HASH_ok False (ecdaa_hashAlg s)"

definition TPMS_SCHEME_ECDAA_Marshal :: "TPMS_SCHEME_ECDAA \<Rightarrow> marshaler" where
  "TPMS_SCHEME_ECDAA_Marshal s =
     andM (TPMI_ALG_HASH_Marshal (ecdaa_hashAlg s)) (UINT16_Marshal (ecdaa_count s))"

definition TPMS_SCHEME_ECDAA_Unmarshal :: "TPMS_SCHEME_ECDAA unmarshaler" where
  "TPMS_SCHEME_ECDAA_Unmarshal bs =
     bindU (TPMI_ALG_HASH_Unmarshal False bs) (\<lambda>x bs.
     bindU (UINT16_Unmarshal bs) (\<lambda>y bs.
       Inr (\<lparr>ecdaa_hashAlg = x, ecdaa_count = y\<rparr>, bs)))"

lemma codec_TPMS_SCHEME_ECDAA: "codec TPMS_SCHEME_ECDAA_Marshal TPMS_SCHEME_ECDAA_Unmarshal TPMS_SCHEME_ECDAA_ok 4"
  by (rule codec_struct2 [where C = "\<lambda>x y. \<lparr>ecdaa_hashAlg = x, ecdaa_count = y\<rparr>",
      OF codec_TPMI_ALG_HASH [of False] codec_UINT16])
     (simp_all add: TPMS_SCHEME_ECDAA_Marshal_def TPMS_SCHEME_ECDAA_Unmarshal_def TPMS_SCHEME_ECDAA_ok_def, meson TPMS_SCHEME_ECDAA.cases)

record TPMS_SCHEME_XOR =
  xor_hashAlg :: TPM_ALG_ID
  xor_kdf :: TPM_ALG_ID

definition TPMS_SCHEME_XOR_ok :: "TPMS_SCHEME_XOR \<Rightarrow> bool" where
  "TPMS_SCHEME_XOR_ok s \<longleftrightarrow>
     TPMI_ALG_HASH_ok False (xor_hashAlg s) \<and> TPMI_ALG_KDF_ok True (xor_kdf s)"

definition TPMS_SCHEME_XOR_Marshal :: "TPMS_SCHEME_XOR \<Rightarrow> marshaler" where
  "TPMS_SCHEME_XOR_Marshal s =
     andM (TPMI_ALG_HASH_Marshal (xor_hashAlg s)) (TPMI_ALG_KDF_Marshal (xor_kdf s))"

definition TPMS_SCHEME_XOR_Unmarshal :: "TPMS_SCHEME_XOR unmarshaler" where
  "TPMS_SCHEME_XOR_Unmarshal bs =
     bindU (TPMI_ALG_HASH_Unmarshal False bs) (\<lambda>x bs.
     bindU (TPMI_ALG_KDF_Unmarshal True bs) (\<lambda>y bs.
       Inr (\<lparr>xor_hashAlg = x, xor_kdf = y\<rparr>, bs)))"

lemma codec_TPMS_SCHEME_XOR: "codec TPMS_SCHEME_XOR_Marshal TPMS_SCHEME_XOR_Unmarshal TPMS_SCHEME_XOR_ok 4"
  by (rule codec_struct2 [where C = "\<lambda>x y. \<lparr>xor_hashAlg = x, xor_kdf = y\<rparr>",
      OF codec_TPMI_ALG_HASH [of False] codec_TPMI_ALG_KDF [of True]])
     (simp_all add: TPMS_SCHEME_XOR_Marshal_def TPMS_SCHEME_XOR_Unmarshal_def TPMS_SCHEME_XOR_ok_def, meson TPMS_SCHEME_XOR.cases)

definition TPMS_SCHEME_HMAC_Marshal :: "TPM_ALG_ID \<Rightarrow> marshaler" where
  "TPMS_SCHEME_HMAC_Marshal = TPMS_SCHEME_HASH_Marshal"

definition TPMS_SCHEME_HMAC_Unmarshal :: "TPM_ALG_ID unmarshaler" where
  "TPMS_SCHEME_HMAC_Unmarshal = TPMS_SCHEME_HASH_Unmarshal"

lemma codec_TPMS_SCHEME_HMAC: "codec TPMS_SCHEME_HMAC_Marshal TPMS_SCHEME_HMAC_Unmarshal (TPMI_ALG_HASH_ok False) 2"
  using codec_TPMS_SCHEME_HASH by (simp add: TPMS_SCHEME_HMAC_Marshal_def TPMS_SCHEME_HMAC_Unmarshal_def)

definition TPMS_SIG_SCHEME_RSASSA_Marshal :: "TPM_ALG_ID \<Rightarrow> marshaler" where
  "TPMS_SIG_SCHEME_RSASSA_Marshal = TPMS_SCHEME_HASH_Marshal"

definition TPMS_SIG_SCHEME_RSASSA_Unmarshal :: "TPM_ALG_ID unmarshaler" where
  "TPMS_SIG_SCHEME_RSASSA_Unmarshal = TPMS_SCHEME_HASH_Unmarshal"

lemma codec_TPMS_SIG_SCHEME_RSASSA: "codec TPMS_SIG_SCHEME_RSASSA_Marshal TPMS_SIG_SCHEME_RSASSA_Unmarshal (TPMI_ALG_HASH_ok False) 2"
  using codec_TPMS_SCHEME_HASH by (simp add: TPMS_SIG_SCHEME_RSASSA_Marshal_def TPMS_SIG_SCHEME_RSASSA_Unmarshal_def)

definition TPMS_SIG_SCHEME_RSAPSS_Marshal :: "TPM_ALG_ID \<Rightarrow> marshaler" where
  "TPMS_SIG_SCHEME_RSAPSS_Marshal = TPMS_SCHEME_HASH_Marshal"

definition TPMS_SIG_SCHEME_RSAPSS_Unmarshal :: "TPM_ALG_ID unmarshaler" where
  "TPMS_SIG_SCHEME_RSAPSS_Unmarshal = TPMS_SCHEME_HASH_Unmarshal"

lemma codec_TPMS_SIG_SCHEME_RSAPSS: "codec TPMS_SIG_SCHEME_RSAPSS_Marshal TPMS_SIG_SCHEME_RSAPSS_Unmarshal (TPMI_ALG_HASH_ok False) 2"
  using codec_TPMS_SCHEME_HASH by (simp add: TPMS_SIG_SCHEME_RSAPSS_Marshal_def TPMS_SIG_SCHEME_RSAPSS_Unmarshal_def)

definition TPMS_SIG_SCHEME_ECDSA_Marshal :: "TPM_ALG_ID \<Rightarrow> marshaler" where
  "TPMS_SIG_SCHEME_ECDSA_Marshal = TPMS_SCHEME_HASH_Marshal"

definition TPMS_SIG_SCHEME_ECDSA_Unmarshal :: "TPM_ALG_ID unmarshaler" where
  "TPMS_SIG_SCHEME_ECDSA_Unmarshal = TPMS_SCHEME_HASH_Unmarshal"

lemma codec_TPMS_SIG_SCHEME_ECDSA: "codec TPMS_SIG_SCHEME_ECDSA_Marshal TPMS_SIG_SCHEME_ECDSA_Unmarshal (TPMI_ALG_HASH_ok False) 2"
  using codec_TPMS_SCHEME_HASH by (simp add: TPMS_SIG_SCHEME_ECDSA_Marshal_def TPMS_SIG_SCHEME_ECDSA_Unmarshal_def)

definition TPMS_SIG_SCHEME_SM2_Marshal :: "TPM_ALG_ID \<Rightarrow> marshaler" where
  "TPMS_SIG_SCHEME_SM2_Marshal = TPMS_SCHEME_HASH_Marshal"

definition TPMS_SIG_SCHEME_SM2_Unmarshal :: "TPM_ALG_ID unmarshaler" where
  "TPMS_SIG_SCHEME_SM2_Unmarshal = TPMS_SCHEME_HASH_Unmarshal"

lemma codec_TPMS_SIG_SCHEME_SM2: "codec TPMS_SIG_SCHEME_SM2_Marshal TPMS_SIG_SCHEME_SM2_Unmarshal (TPMI_ALG_HASH_ok False) 2"
  using codec_TPMS_SCHEME_HASH by (simp add: TPMS_SIG_SCHEME_SM2_Marshal_def TPMS_SIG_SCHEME_SM2_Unmarshal_def)

definition TPMS_SIG_SCHEME_ECSCHNORR_Marshal :: "TPM_ALG_ID \<Rightarrow> marshaler" where
  "TPMS_SIG_SCHEME_ECSCHNORR_Marshal = TPMS_SCHEME_HASH_Marshal"

definition TPMS_SIG_SCHEME_ECSCHNORR_Unmarshal :: "TPM_ALG_ID unmarshaler" where
  "TPMS_SIG_SCHEME_ECSCHNORR_Unmarshal = TPMS_SCHEME_HASH_Unmarshal"

lemma codec_TPMS_SIG_SCHEME_ECSCHNORR: "codec TPMS_SIG_SCHEME_ECSCHNORR_Marshal TPMS_SIG_SCHEME_ECSCHNORR_Unmarshal (TPMI_ALG_HASH_ok False) 2"
  using codec_TPMS_SCHEME_HASH by (simp add: TPMS_SIG_SCHEME_ECSCHNORR_Marshal_def TPMS_SIG_SCHEME_ECSCHNORR_Unmarshal_def)

definition TPMS_ENC_SCHEME_OAEP_Marshal :: "TPM_ALG_ID \<Rightarrow> marshaler" where
  "TPMS_ENC_SCHEME_OAEP_Marshal = TPMS_SCHEME_HASH_Marshal"

definition TPMS_ENC_SCHEME_OAEP_Unmarshal :: "TPM_ALG_ID unmarshaler" where
  "TPMS_ENC_SCHEME_OAEP_Unmarshal = TPMS_SCHEME_HASH_Unmarshal"

lemma codec_TPMS_ENC_SCHEME_OAEP: "codec TPMS_ENC_SCHEME_OAEP_Marshal TPMS_ENC_SCHEME_OAEP_Unmarshal (TPMI_ALG_HASH_ok False) 2"
  using codec_TPMS_SCHEME_HASH by (simp add: TPMS_ENC_SCHEME_OAEP_Marshal_def TPMS_ENC_SCHEME_OAEP_Unmarshal_def)

definition TPMS_KEY_SCHEME_ECDH_Marshal :: "TPM_ALG_ID \<Rightarrow> marshaler" where
  "TPMS_KEY_SCHEME_ECDH_Marshal = TPMS_SCHEME_HASH_Marshal"

definition TPMS_KEY_SCHEME_ECDH_Unmarshal :: "TPM_ALG_ID unmarshaler" where
  "TPMS_KEY_SCHEME_ECDH_Unmarshal = TPMS_SCHEME_HASH_Unmarshal"

lemma codec_TPMS_KEY_SCHEME_ECDH: "codec TPMS_KEY_SCHEME_ECDH_Marshal TPMS_KEY_SCHEME_ECDH_Unmarshal (TPMI_ALG_HASH_ok False) 2"
  using codec_TPMS_SCHEME_HASH by (simp add: TPMS_KEY_SCHEME_ECDH_Marshal_def TPMS_KEY_SCHEME_ECDH_Unmarshal_def)

definition TPMS_KEY_SCHEME_ECMQV_Marshal :: "TPM_ALG_ID \<Rightarrow> marshaler" where
  "TPMS_KEY_SCHEME_ECMQV_Marshal = TPMS_SCHEME_HASH_Marshal"

definition TPMS_KEY_SCHEME_ECMQV_Unmarshal :: "TPM_ALG_ID unmarshaler" where
  "TPMS_KEY_SCHEME_ECMQV_Unmarshal = TPMS_SCHEME_HASH_Unmarshal"

lemma codec_TPMS_KEY_SCHEME_ECMQV: "codec TPMS_KEY_SCHEME_ECMQV_Marshal TPMS_KEY_SCHEME_ECMQV_Unmarshal (TPMI_ALG_HASH_ok False) 2"
  using codec_TPMS_SCHEME_HASH by (simp add: TPMS_KEY_SCHEME_ECMQV_Marshal_def TPMS_KEY_SCHEME_ECMQV_Unmarshal_def)

definition TPMS_KDF_SCHEME_MGF1_Marshal :: "TPM_ALG_ID \<Rightarrow> marshaler" where
  "TPMS_KDF_SCHEME_MGF1_Marshal = TPMS_SCHEME_HASH_Marshal"

definition TPMS_KDF_SCHEME_MGF1_Unmarshal :: "TPM_ALG_ID unmarshaler" where
  "TPMS_KDF_SCHEME_MGF1_Unmarshal = TPMS_SCHEME_HASH_Unmarshal"

lemma codec_TPMS_KDF_SCHEME_MGF1: "codec TPMS_KDF_SCHEME_MGF1_Marshal TPMS_KDF_SCHEME_MGF1_Unmarshal (TPMI_ALG_HASH_ok False) 2"
  using codec_TPMS_SCHEME_HASH by (simp add: TPMS_KDF_SCHEME_MGF1_Marshal_def TPMS_KDF_SCHEME_MGF1_Unmarshal_def)

definition TPMS_KDF_SCHEME_KDF1_SP800_56A_Marshal :: "TPM_ALG_ID \<Rightarrow> marshaler" where
  "TPMS_KDF_SCHEME_KDF1_SP800_56A_Marshal = TPMS_SCHEME_HASH_Marshal"

definition TPMS_KDF_SCHEME_KDF1_SP800_56A_Unmarshal :: "TPM_ALG_ID unmarshaler" where
  "TPMS_KDF_SCHEME_KDF1_SP800_56A_Unmarshal = TPMS_SCHEME_HASH_Unmarshal"

lemma codec_TPMS_KDF_SCHEME_KDF1_SP800_56A: "codec TPMS_KDF_SCHEME_KDF1_SP800_56A_Marshal TPMS_KDF_SCHEME_KDF1_SP800_56A_Unmarshal (TPMI_ALG_HASH_ok False) 2"
  using codec_TPMS_SCHEME_HASH by (simp add: TPMS_KDF_SCHEME_KDF1_SP800_56A_Marshal_def TPMS_KDF_SCHEME_KDF1_SP800_56A_Unmarshal_def)

definition TPMS_KDF_SCHEME_KDF2_Marshal :: "TPM_ALG_ID \<Rightarrow> marshaler" where
  "TPMS_KDF_SCHEME_KDF2_Marshal = TPMS_SCHEME_HASH_Marshal"

definition TPMS_KDF_SCHEME_KDF2_Unmarshal :: "TPM_ALG_ID unmarshaler" where
  "TPMS_KDF_SCHEME_KDF2_Unmarshal = TPMS_SCHEME_HASH_Unmarshal"

lemma codec_TPMS_KDF_SCHEME_KDF2: "codec TPMS_KDF_SCHEME_KDF2_Marshal TPMS_KDF_SCHEME_KDF2_Unmarshal (TPMI_ALG_HASH_ok False) 2"
  using codec_TPMS_SCHEME_HASH by (simp add: TPMS_KDF_SCHEME_KDF2_Marshal_def TPMS_KDF_SCHEME_KDF2_Unmarshal_def)

definition TPMS_KDF_SCHEME_KDF1_SP800_108_Marshal :: "TPM_ALG_ID \<Rightarrow> marshaler" where
  "TPMS_KDF_SCHEME_KDF1_SP800_108_Marshal = TPMS_SCHEME_HASH_Marshal"

definition TPMS_KDF_SCHEME_KDF1_SP800_108_Unmarshal :: "TPM_ALG_ID unmarshaler" where
  "TPMS_KDF_SCHEME_KDF1_SP800_108_Unmarshal = TPMS_SCHEME_HASH_Unmarshal"

lemma codec_TPMS_KDF_SCHEME_KDF1_SP800_108: "codec TPMS_KDF_SCHEME_KDF1_SP800_108_Marshal TPMS_KDF_SCHEME_KDF1_SP800_108_Unmarshal (TPMI_ALG_HASH_ok False) 2"
  using codec_TPMS_SCHEME_HASH by (simp add: TPMS_KDF_SCHEME_KDF1_SP800_108_Marshal_def TPMS_KDF_SCHEME_KDF1_SP800_108_Unmarshal_def)

definition TPMS_SIG_SCHEME_ECDAA_Marshal :: "TPMS_SCHEME_ECDAA \<Rightarrow> marshaler" where
  "TPMS_SIG_SCHEME_ECDAA_Marshal = TPMS_SCHEME_ECDAA_Marshal"

definition TPMS_SIG_SCHEME_ECDAA_Unmarshal :: "TPMS_SCHEME_ECDAA unmarshaler" where
  "TPMS_SIG_SCHEME_ECDAA_Unmarshal = TPMS_SCHEME_ECDAA_Unmarshal"

lemma codec_TPMS_SIG_SCHEME_ECDAA: "codec TPMS_SIG_SCHEME_ECDAA_Marshal TPMS_SIG_SCHEME_ECDAA_Unmarshal TPMS_SCHEME_ECDAA_ok 4"
  using codec_TPMS_SCHEME_ECDAA by (simp add: TPMS_SIG_SCHEME_ECDAA_Marshal_def TPMS_SIG_SCHEME_ECDAA_Unmarshal_def)

definition TPMS_EMPTY_Unmarshal :: "unit unmarshaler" where
  "TPMS_EMPTY_Unmarshal bs = Inr ((), bs)"

definition TPMS_ENC_SCHEME_RSAES_Marshal :: marshaler where
  "TPMS_ENC_SCHEME_RSAES_Marshal = doneM"

definition TPMS_ENC_SCHEME_RSAES_Unmarshal :: "unit unmarshaler" where
  "TPMS_ENC_SCHEME_RSAES_Unmarshal = TPMS_EMPTY_Unmarshal"

lemma codec_TPMS_ENC_SCHEME_RSAES:
  "codec (\<lambda>u. TPMS_ENC_SCHEME_RSAES_Marshal) TPMS_ENC_SCHEME_RSAES_Unmarshal (\<lambda>u. True) 0"
  unfolding TPMS_ENC_SCHEME_RSAES_Marshal_def TPMS_ENC_SCHEME_RSAES_Unmarshal_def TPMS_EMPTY_Unmarshal_def
  by (rule codec_weaken [OF codec_done]) simp_all

datatype TPMU_SCHEME_KEYEDHASH =
    keyedhash_hmac TPM_ALG_ID
  | keyedhash_xor TPMS_SCHEME_XOR
  | keyedhash_none

definition TPMU_SCHEME_KEYEDHASH_ok :: "TPM_ALG_ID \<Rightarrow> TPMU_SCHEME_KEYEDHASH \<Rightarrow> bool" where
  "TPMU_SCHEME_KEYEDHASH_ok selector source =
     (case source of
        keyedhash_hmac x \<Rightarrow> selector = TPM_ALG_HMAC \<and> TPMI_ALG_HASH_ok False x
      | keyedhash_xor x \<Rightarrow> selector = TPM_ALG_XOR \<and> TPMS_SCHEME_XOR_ok x
      | keyedhash_none \<Rightarrow> selector = TPM_ALG_NULL)"

definition TPMU_SCHEME_KEYEDHASH_Marshal :: "TPMU_SCHEME_KEYEDHASH \<Rightarrow> TPM_ALG_ID \<Rightarrow> marshaler" where
  "TPMU_SCHEME_KEYEDHASH_Marshal source selector =
     (if selector = TPM_ALG_HMAC then (case source of keyedhash_hmac x \<Rightarrow> TPMS_SCHEME_HMAC_Marshal x | _ \<Rightarrow> failM OUT_OF_BOUNDS)
      else if selector = TPM_ALG_XOR then (case source of keyedhash_xor x \<Rightarrow> TPMS_SCHEME_XOR_Marshal x | _ \<Rightarrow> failM OUT_OF_BOUNDS)
      else if selector = TPM_ALG_NULL then doneM
      else failM FATAL_ERROR_PARAMETER)"

definition TPMU_SCHEME_KEYEDHASH_Unmarshal :: "TPM_ALG_ID \<Rightarrow> TPMU_SCHEME_KEYEDHASH unmarshaler" where
  "TPMU_SCHEME_KEYEDHASH_Unmarshal selector bs =
     (if selector = TPM_ALG_HMAC then bindU (TPMS_SCHEME_HMAC_Unmarshal bs) (\<lambda>x bs. Inr (keyedhash_hmac x, bs))
      else if selector = TPM_ALG_XOR then bindU (TPMS_SCHEME_XOR_Unmarshal bs) (\<lambda>x bs. Inr (keyedhash_xor x, bs))
      else if selector = TPM_ALG_NULL then Inr (keyedhash_none, bs)
      else Inl TPM_RC_SELECTOR)"

lemma codec_TPMU_SCHEME_KEYEDHASH:
  "codec (\<lambda>s. TPMU_SCHEME_KEYEDHASH_Marshal s selector) (TPMU_SCHEME_KEYEDHASH_Unmarshal selector) (TPMU_SCHEME_KEYEDHASH_ok selector) 4"
  unfolding TPMU_SCHEME_KEYEDHASH_Marshal_def TPMU_SCHEME_KEYEDHASH_Unmarshal_def
  by (rule codec_weaken, (rule codec_cond codec_done codec_fail
        codec_member [OF codec_TPMS_SCHEME_HMAC]
        codec_member [OF codec_TPMS_SCHEME_XOR] | (simp; fail))+)
     (auto simp: TPMU_SCHEME_KEYEDHASH_ok_def split: TPMU_SCHEME_KEYEDHASH.splits)

record TPMT_KEYEDHASH_SCHEME =
  ks_scheme :: TPM_ALG_ID
  ks_details :: TPMU_SCHEME_KEYEDHASH

definition TPMT_KEYEDHASH_SCHEME_ok :: "bool \<Rightarrow> TPMT_KEYEDHASH_SCHEME \<Rightarrow> bool" where
  "TPMT_KEYEDHASH_SCHEME_ok allowNull s \<longleftrightarrow>
     TPMI_ALG_KEYEDHASH_SCHEME_ok allowNull (ks_scheme s) \<and>
     TPMU_SCHEME_KEYEDHASH_ok (ks_scheme s) (ks_details s)"

definition TPMT_KEYEDHASH_SCHEME_Marshal :: "TPMT_KEYEDHASH_SCHEME \<Rightarrow> marshaler" where
  "TPMT_KEYEDHASH_SCHEME_Marshal s =
     andM (TPMI_ALG_KEYEDHASH_SCHEME_Marshal (ks_scheme s)) (TPMU_SCHEME_KEYEDHASH_Marshal (ks_details s) (ks_scheme s))"

definition TPMT_KEYEDHASH_SCHEME_Unmarshal :: "bool \<Rightarrow> TPMT_KEYEDHASH_SCHEME unmarshaler" where
  "TPMT_KEYEDHASH_SCHEME_Unmarshal allowNull bs =
     bindU (TPMI_ALG_KEYEDHASH_SCHEME_Unmarshal allowNull bs) (\<lambda>x bs.
     bindU (TPMU_SCHEME_KEYEDHASH_Unmarshal x bs) (\<lambda>y bs.
       Inr (\<lparr>ks_scheme = x, ks_details = y\<rparr>, bs)))"

lemma codec_TPMT_KEYEDHASH_SCHEME: "codec TPMT_KEYEDHASH_SCHEME_Marshal (TPMT_KEYEDHASH_SCHEME_Unmarshal allowNull) (TPMT_KEYEDHASH_SCHEME_ok allowNull) 6"
  by (rule codec_struct2 [where C = "\<lambda>x y. \<lparr>ks_scheme = x, ks_details = y\<rparr>",
      OF codec_TPMI_ALG_KEYEDHASH_SCHEME [of allowNull] codec_TPMU_SCHEME_KEYEDHASH])
     (simp_all add: TPMT_KEYEDHASH_SCHEME_Marshal_def TPMT_KEYEDHASH_SCHEME_Unmarshal_def TPMT_KEYEDHASH_SCHEME_ok_def, meson TPMT_KEYEDHASH_SCHEME.cases)

datatype TPMU_KDF_SCHEME =
    kdf_hash TPM_ALG_ID
  | kdf_none

definition TPMU_KDF_SCHEME_ok :: "TPM_ALG_ID \<Rightarrow> TPMU_KDF_SCHEME \<Rightarrow> bool" where
  "TPMU_KDF_SCHEME_ok selector source =
     (case source of
        kdf_hash x \<Rightarrow> selector \<in> {TPM_ALG_MGF1, TPM_ALG_KDF1_SP800_56A, TPM_ALG_KDF2, TPM_ALG_KDF1_SP800_108} \<and> TPMI_ALG_HASH_ok False x
      | kdf_none \<Rightarrow> selector = TPM_ALG_NULL)"

definition TPMU_KDF_SCHEME_Marshal :: "TPMU_KDF_SCHEME \<Rightarrow> TPM_ALG_ID \<Rightarrow> marshaler" where
  "TPMU_KDF_SCHEME_Marshal source selector =
     (if selector = TPM_ALG_MGF1 then (case source of kdf_hash x \<Rightarrow> TPMS_KDF_SCHEME_MGF1_Marshal x | _ \<Rightarrow> failM OUT_OF_BOUNDS)
      else if selector = TPM_ALG_KDF1_SP800_56A then (case source of kdf_hash x \<Rightarrow> TPMS_KDF_SCHEME_KDF1_SP800_56A_Marshal x | _ \<Rightarrow> failM OUT_OF_BOUNDS)
      else if selector = TPM_ALG_KDF2 then (case source of kdf_hash x \<Rightarrow> TPMS_KDF_SCHEME_KDF2_Marshal x | _ \<Rightarrow> failM OUT_OF_BOUNDS)
      else if selector = TPM_ALG_KDF1_SP800_108 then (case source of kdf_hash x \<Rightarrow> TPMS_KDF_SCHEME_KDF1_SP800_108_Marshal x | _ \<Rightarrow> failM OUT_OF_BOUNDS)
      else if selector = TPM_ALG_NULL then doneM
      else failM FATAL_ERROR_PARAMETER)"

definition TPMU_KDF_SCHEME_Unmarshal :: "TPM_ALG_ID \<Rightarrow> TPMU_KDF_SCHEME unmarshaler" where
  "TPMU_KDF_SCHEME_Unmarshal selector bs =
     (if selector = TPM_ALG_MGF1 then bindU (TPMS_KDF_SCHEME_MGF1_Unmarshal bs) (\<lambda>x bs. Inr (kdf_hash x, bs))
      else if selector = TPM_ALG_KDF1_SP800_56A then bindU (TPMS_KDF_SCHEME_KDF1_SP800_56A_Unmarshal bs) (\<lambda>x bs. Inr (kdf_hash x, bs))
      else if selector = TPM_ALG_KDF2 then bindU (TPMS_KDF_SCHEME_KDF2_Unmarshal bs) (\<lambda>x bs. Inr (kdf_hash x, bs))
      else if selector = TPM_ALG_KDF1_SP800_108 then bindU (TPMS_KDF_SCHEME_KDF1_SP800_108_Unmarshal bs) (\<lambda>x bs. Inr (kdf_hash x, bs))
      else if selector = TPM_ALG_NULL then Inr (kdf_none, bs)
      else Inl TPM_RC_SELECTOR)"

lemma codec_TPMU_KDF_SCHEME:
  "codec (\<lambda>s. TPMU_KDF_SCHEME_Marshal s selector) (TPMU_KDF_SCHEME_Unmarshal selector) (TPMU_KDF_SCHEME_ok selector) 2"
  unfolding TPMU_KDF_SCHEME_Marshal_def TPMU_KDF_SCHEME_Unmarshal_def
  by (rule codec_weaken, (rule codec_cond codec_done codec_fail
        codec_member [OF codec_TPMS_KDF_SCHEME_MGF1]
        codec_member [OF codec_TPMS_KDF_SCHEME_KDF1_SP800_56A]
        codec_member [OF codec_TPMS_KDF_SCHEME_KDF2]
        codec_member [OF codec_TPMS_KDF_SCHEME_KDF1_SP800_108] | (simp; fail))+)
     (auto simp: TPMU_KDF_SCHEME_ok_def split: TPMU_KDF_SCHEME.splits)

record TPMT_KDF_SCHEME =
  kdf_scheme :: TPM_ALG_ID
  kdf_details :: TPMU_KDF_SCHEME

definition TPMT_KDF_SCHEME_ok :: "bool \<Rightarrow> TPMT_KDF_SCHEME \<Rightarrow> bool" where
  "TPMT_KDF_SCHEME_ok allowNull s \<longleftrightarrow>
     TPMI_ALG_KDF_ok allowNull (kdf_scheme s) \<and> TPMU_KDF_SCHEME_ok (kdf_scheme s) (kdf_details s)"

definition TPMT_KDF_SCHEME_Marshal :: "TPMT_KDF_SCHEME \<Rightarrow> marshaler" where
  "TPMT_KDF_SCHEME_Marshal s =
     andM (TPMI_ALG_KDF_Marshal (kdf_scheme s)) (TPMU_KDF_SCHEME_Marshal (kdf_details s) (kdf_scheme s))"

definition TPMT_KDF_SCHEME_Unmarshal :: "bool \<Rightarrow> TPMT_KDF_SCHEME unmarshaler" where
  "TPMT_KDF_SCHEME_Unmarshal allowNull bs =
     bindU (TPMI_ALG_KDF_Unmarshal allowNull bs) (\<lambda>x bs.
     bindU (TPMU_KDF_SCHEME_Unmarshal x bs) (\<lambda>y bs.
       Inr (\<lparr>kdf_scheme = x, kdf_details = y\<rparr>, bs)))"

lemma codec_TPMT_KDF_SCHEME: "codec TPMT_KDF_SCHEME_Marshal (TPMT_KDF_SCHEME_Unmarshal allowNull) (TPMT_KDF_SCHEME_ok allowNull) 4"
  by (rule codec_struct2 [where C = "\<lambda>x y. \<lparr>kdf_scheme = x, kdf_details = y\<rparr>",
      OF codec_TPMI_ALG_KDF [of allowNull] codec_TPMU_KDF_SCHEME])
     (simp_all add: TPMT_KDF_SCHEME_Marshal_def TPMT_KDF_SCHEME_Unmarshal_def TPMT_KDF_SCHEME_ok_def, meson TPMT_KDF_SCHEME.cases)

datatype TPMU_ASYM_SCHEME =
    asym_hash TPM_ALG_ID
  | asym_ecdaa TPMS_SCHEME_ECDAA
  | asym_none

definition TPMU_ASYM_SCHEME_ok :: "TPM_ALG_ID \<Rightarrow> TPMU_ASYM_SCHEME \<Rightarrow> bool" where
  "TPMU_ASYM_SCHEME_ok selector source =
     (case source of
        asym_hash x \<Rightarrow> selector \<in> {TPM_ALG_ECDH, TPM_ALG_ECMQV, TPM_ALG_RSASSA, TPM_ALG_RSAPSS, TPM_ALG_ECDSA, TPM_ALG_SM2, TPM_ALG_ECSCHNORR, TPM_ALG_OAEP} \<and> TPMI_ALG_HASH_ok False x
      | asym_ecdaa x \<Rightarrow> selector = TPM_ALG_ECDAA \<and> TPMS_SCHEME_ECDAA_ok x
      | asym_none \<Rightarrow> selector \<in> {TPM_ALG_RSAES, TPM_ALG_NULL})"

definition TPMU_ASYM_SCHEME_Marshal :: "TPMU_ASYM_SCHEME \<Rightarrow> TPM_ALG_ID \<Rightarrow> marshaler" where
  "TPMU_ASYM_SCHEME_Marshal source selector =
     (if selector = TPM_ALG_ECDH then (case source of asym_hash x \<Rightarrow> TPMS_KEY_SCHEME_ECDH_Marshal x | _ \<Rightarrow> failM OUT_OF_BOUNDS)
      else if selector = TPM_ALG_ECMQV then (case source of asym_hash x \<Rightarrow> TPMS_KEY_SCHEME_ECMQV_Marshal x | _ \<Rightarrow> failM OUT_OF_BOUNDS)
      else if selector = TPM_ALG_RSASSA then (case source of asym_hash x \<Rightarrow> TPMS_SIG_SCHEME_RSASSA_Marshal x | _ \<Rightarrow> failM OUT_OF_BOUNDS)
      else if selector = TPM_ALG_RSAPSS then (case source of asym_hash x \<Rightarrow> TPMS_SIG_SCHEME_RSAPSS_Marshal x | _ \<Rightarrow> failM OUT_OF_BOUNDS)
      else if selector = TPM_ALG_ECDSA then (case source of asym_hash x \<Rightarrow> TPMS_SIG_SCHEME_ECDSA_Marshal x | _ \<Rightarrow> failM OUT_OF_BOUNDS)
      else if selector = TPM_ALG_ECDAA then (case source of asym_ecdaa x \<Rightarrow> TPMS_SIG_SCHEME_ECDAA_Marshal x | _ \<Rightarrow> failM OUT_OF_BOUNDS)
      else if selector = TPM_ALG_SM2 then (case source of asym_hash x \<Rightarrow> TPMS_SIG_SCHEME_SM2_Marshal x | _ \<Rightarrow> failM OUT_OF_BOUNDS)
      else if selector = TPM_ALG_ECSCHNORR then (case source of asym_hash x \<Rightarrow> TPMS_SIG_SCHEME_ECSCHNORR_Marshal x | _ \<Rightarrow> failM OUT_OF_BOUNDS)
      else if selector = TPM_ALG_RSAES then (TPMS_ENC_SCHEME_RSAES_Marshal)
      else if selector = TPM_ALG_OAEP then (case source of asym_hash x \<Rightarrow> TPMS_ENC_SCHEME_OAEP_Marshal x | _ \<Rightarrow> failM OUT_OF_BOUNDS)
      else if selector = TPM_ALG_NULL then doneM
      else failM FATAL_ERROR_PARAMETER)"

definition TPMU_ASYM_SCHEME_Unmarshal :: "TPM_ALG_ID \<Rightarrow> TPMU_ASYM_SCHEME unmarshaler" where
  "TPMU_ASYM_SCHEME_Unmarshal selector bs =
     (if selector = TPM_ALG_ECDH then bindU (TPMS_KEY_SCHEME_ECDH_Unmarshal bs) (\<lambda>x bs. Inr (asym_hash x, bs))
      else if selector = TPM_ALG_ECMQV then bindU (TPMS_KEY_SCHEME_ECMQV_Unmarshal bs) (\<lambda>x bs. Inr (asym_hash x, bs))
      else if selector = TPM_ALG_RSASSA then bindU (TPMS_SIG_SCHEME_RSASSA_Unmarshal bs) (\<lambda>x bs. Inr (asym_hash x, bs))
      else if selector = TPM_ALG_RSAPSS then bindU (TPMS_SIG_SCHEME_RSAPSS_Unmarshal bs) (\<lambda>x bs. Inr (asym_hash x, bs))
      else if selector = TPM_ALG_ECDSA then bindU (TPMS_SIG_SCHEME_ECDSA_Unmarshal bs) (\<lambda>x bs. Inr (asym_hash x, bs))
      else if selector = TPM_ALG_ECDAA then bindU (TPMS_SIG_SCHEME_ECDAA_Unmarshal bs) (\<lambda>x bs. Inr (asym_ecdaa x, bs))
      else if selector = TPM_ALG_SM2 then bindU (TPMS_SIG_SCHEME_SM2_Unmarshal bs) (\<lambda>x bs. Inr (asym_hash x, bs))
      else if selector = TPM_ALG_ECSCHNORR then bindU (TPMS_SIG_SCHEME_ECSCHNORR_Unmarshal bs) (\<lambda>x bs. Inr (asym_hash x, bs))
      else if selector = TPM_ALG_RSAES then bindU (TPMS_ENC_SCHEME_RSAES_Unmarshal bs) (\<lambda>x bs. Inr (asym_none, bs))
      else if selector = TPM_ALG_OAEP then bindU (TPMS_ENC_SCHEME_OAEP_Unmarshal bs) (\<lambda>x bs. Inr (asym_hash x, bs))
      else if selector = TPM_ALG_NULL then Inr (asym_none, bs)
      else Inl TPM_RC_SELECTOR)"

lemma codec_TPMU_ASYM_SCHEME:
  "codec (\<lambda>s. TPMU_ASYM_SCHEME_Marshal s selector) (TPMU_ASYM_SCHEME_Unmarshal selector) (TPMU_ASYM_SCHEME_ok selector) 4"
  unfolding TPMU_ASYM_SCHEME_Marshal_def TPMU_ASYM_SCHEME_Unmarshal_def
  by (rule codec_weaken, (rule codec_cond codec_done codec_fail
        codec_member [OF codec_TPMS_KEY_SCHEME_ECDH]
        codec_member [OF codec_TPMS_KEY_SCHEME_ECMQV]
        codec_member [OF codec_TPMS_SIG_SCHEME_RSASSA]
        codec_member [OF codec_TPMS_SIG_SCHEME_RSAPSS]
        codec_member [OF codec_TPMS_SIG_SCHEME_ECDSA]
        codec_member [OF codec_TPMS_SIG_SCHEME_ECDAA]
        codec_member [OF codec_TPMS_SIG_SCHEME_SM2]
        codec_member [OF codec_TPMS_SIG_SCHEME_ECSCHNORR]
        codec_member [OF codec_TPMS_ENC_SCHEME_RSAES]
        codec_member [OF codec_TPMS_ENC_SCHEME_OAEP] | (simp; fail))+)
     (auto simp: TPMU_ASYM_SCHEME_ok_def split: TPMU_ASYM_SCHEME.splits)

record TPMT_RSA_SCHEME =
  rsa_scheme :: TPM_ALG_ID
  rsa_details :: TPMU_ASYM_SCHEME

definition TPMT_RSA_SCHEME_ok :: "bool \<Rightarrow> TPMT_RSA_SCHEME \<Rightarrow> bool" where
  "TPMT_RSA_SCHEME_ok allowNull s \<longleftrightarrow>
     TPMI_ALG_RSA_SCHEME_ok allowNull (rsa_scheme s) \<and>
     TPMU_ASYM_SCHEME_ok (rsa_scheme s) (rsa_details s)"

definition TPMT_RSA_SCHEME_Marshal :: "TPMT_RSA_SCHEME \<Rightarrow> marshaler" where
  "TPMT_RSA_SCHEME_Marshal s =
     andM (TPMI_ALG_RSA_SCHEME_Marshal (rsa_scheme s)) (TPMU_ASYM_SCHEME_Marshal (rsa_details s) (rsa_scheme s))"

definition TPMT_RSA_SCHEME_Unmarshal :: "bool \<Rightarrow> TPMT_RSA_SCHEME unmarshaler" where
  "TPMT_RSA_SCHEME_Unmarshal allowNull bs =
     bindU (TPMI_ALG_RSA_SCHEME_Unmarshal allowNull bs) (\<lambda>x bs.
     bindU (TPMU_ASYM_SCHEME_Unmarshal x bs) (\<lambda>y bs.
       Inr (\<lparr>rsa_scheme = x, rsa_details = y\<rparr>, bs)))"

lemma codec_TPMT_RSA_SCHEME: "codec TPMT_RSA_SCHEME_Marshal (TPMT_RSA_SCHEME_Unmarshal allowNull) (TPMT_RSA_SCHEME_ok allowNull) 6"
  by (rule codec_struct2 [where C = "\<lambda>x y. \<lparr>rsa_scheme = x, rsa_details = y\<rparr>",
      OF codec_TPMI_ALG_RSA_SCHEME [of allowNull] codec_TPMU_ASYM_SCHEME])
     (simp_all add: TPMT_RSA_SCHEME_Marshal_def TPMT_RSA_SCHEME_Unmarshal_def TPMT_RSA_SCHEME_ok_def, meson TPMT_RSA_SCHEME.cases)

record TPMT_ECC_SCHEME =
  ecc_scheme :: TPM_ALG_ID
  ecc_details :: TPMU_ASYM_SCHEME

definition TPMT_ECC_SCHEME_ok :: "bool \<Rightarrow> TPMT_ECC_SCHEME \<Rightarrow> bool" where
  "TPMT_ECC_SCHEME_ok allowNull s \<longleftrightarrow>
     TPMI_ALG_ECC_SCHEME_ok allowNull (ecc_scheme s) \<and>
     TPMU_ASYM_SCHEME_ok (ecc_scheme s) (ecc_details s)"

definition TPMT_ECC_SCHEME_Marshal :: "TPMT_ECC_SCHEME \<Rightarrow> marshaler" where
  "TPMT_ECC_SCHEME_Marshal s =
     andM (TPMI_ALG_ECC_SCHEME_Marshal (ecc_scheme s)) (TPMU_ASYM_SCHEME_Marshal (ecc_details s) (ecc_scheme s))"

definition TPMT_ECC_SCHEME_Unmarshal :: "bool \<Rightarrow> TPMT_ECC_SCHEME unmarshaler" where
  "TPMT_ECC_SCHEME_Unmarshal allowNull bs =
     bindU (TPMI_ALG_ECC_SCHEME_Unmarshal allowNull bs) (\<lambda>x bs.
     bindU (TPMU_ASYM_SCHEME_Unmarshal x bs) (\<lambda>y bs.
       Inr (\<lparr>ecc_scheme = x, ecc_details = y\<rparr>, bs)))"

lemma codec_TPMT_ECC_SCHEME: "codec TPMT_ECC_SCHEME_Marshal (TPMT_ECC_SCHEME_Unmarshal allowNull) (TPMT_ECC_SCHEME_ok allowNull) 6"
  by (rule codec_struct2 [where C = "\<lambda>x y. \<lparr>ecc_scheme = x, ecc_details = y\<rparr>",
      OF codec_TPMI_ALG_ECC_SCHEME [of allowNull] codec_TPMU_ASYM_SCHEME])
     (simp_all add: TPMT_ECC_SCHEME_Marshal_def TPMT_ECC_SCHEME_Unmarshal_def TPMT_ECC_SCHEME_ok_def, meson TPMT_ECC_SCHEME.cases)

section \<open>Keys and signatures\<close>

record TPMS_ECC_POINT =
  point_x :: "BYTE list"
  point_y :: "BYTE list"

definition TPMS_ECC_POINT_ok :: "TPMS_ECC_POINT \<Rightarrow> bool" where
  "TPMS_ECC_POINT_ok s \<longleftrightarrow>
     length (point_x s) \<le> 80 \<and> length (point_y s) \<le> 80"

definition TPMS_ECC_POINT_Marshal :: "TPMS_ECC_POINT \<Rightarrow> marshaler" where
  "TPMS_ECC_POINT_Marshal s =
     andM (TPM2B_ECC_PARAMETER_Marshal (point_x s)) (TPM2B_ECC_PARAMETER_Marshal (point_y s))"

definition TPMS_ECC_POINT_Unmarshal :: "TPMS_ECC_POINT unmarshaler" where
  "TPMS_ECC_POINT_Unmarshal bs =
     bindU (TPM2B_ECC_PARAMETER_Unmarshal bs) (\<lambda>x bs.
     bindU (TPM2B_ECC_PARAMETER_Unmarshal bs) (\<lambda>y bs.
       Inr (\<lparr>point_x = x, point_y = y\<rparr>, bs)))"

lemma codec_TPMS_ECC_POINT: "codec TPMS_ECC_POINT_Marshal TPMS_ECC_POINT_Unmarshal TPMS_ECC_POINT_ok 164"
  by (rule codec_struct2 [where C = "\<lambda>x y. \<lparr>point_x = x, point_y = y\<rparr>",
      OF codec_TPM2B_ECC_PARAMETER codec_TPM2B_ECC_PARAMETER])
     (simp_all add: TPMS_ECC_POINT_Marshal_def TPMS_ECC_POINT_Unmarshal_def TPMS_ECC_POINT_ok_def, meson TPMS_ECC_POINT.cases)

definition TPM2B_ECC_POINT_Marshal :: "TPMS_ECC_POINT \<Rightarrow> marshaler" where
  "TPM2B_ECC_POINT_Marshal = sized_Marshal TPMS_ECC_POINT_Marshal"

definition TPM2B_ECC_POINT_Unmarshal :: "TPMS_ECC_POINT unmarshaler" where
  "TPM2B_ECC_POINT_Unmarshal = sized_Unmarshal TPMS_ECC_POINT_Unmarshal"

lemma codec_TPM2B_ECC_POINT: "codec TPM2B_ECC_POINT_Marshal TPM2B_ECC_POINT_Unmarshal TPMS_ECC_POINT_ok 166"
  unfolding TPM2B_ECC_POINT_Marshal_def TPM2B_ECC_POINT_Unmarshal_def
  by (rule codec_weaken [OF codec_sized [OF codec_TPMS_ECC_POINT]])
     (simp_all add: TPMS_ECC_POINT_Unmarshal_def TPM2B_ECC_PARAMETER_Unmarshal_def TPM2B_Unmarshal_def UINT16_Unmarshal_def)

record TPMS_SIGNATURE_RSA =
  rsasig_hash :: TPM_ALG_ID
  rsasig_sig :: "BYTE list"

definition TPMS_SIGNATURE_RSA_ok :: "TPMS_SIGNATURE_RSA \<Rightarrow> bool" where
  "TPMS_SIGNATURE_RSA_ok s \<longleftrightarrow>
     TPMI_ALG_HASH_ok False (rsasig_hash s) \<and> length (rsasig_sig s) \<le> 512"

definition TPMS_SIGNATURE_RSA_Marshal :: "TPMS_SIGNATURE_RSA \<Rightarrow> marshaler" where
  "TPMS_SIGNATURE_RSA_Marshal s =
     andM (TPMI_ALG_HASH_Marshal (rsasig_hash s)) (TPM2B_PUBLIC_KEY_RSA_Marshal (rsasig_sig s))"

definition TPMS_SIGNATURE_RSA_Unmarshal :: "TPMS_SIGNATURE_RSA unmarshaler" where
  "TPMS_SIGNATURE_RSA_Unmarshal bs =
     bindU (TPMI_ALG_HASH_Unmarshal False bs) (\<lambda>x bs.
     bindU (TPM2B_PUBLIC_KEY_RSA_Unmarshal bs) (\<lambda>y bs.
       Inr (\<lparr>rsasig_hash = x, rsasig_sig = y\<rparr>, bs)))"

lemma codec_TPMS_SIGNATURE_RSA: "codec TPMS_SIGNATURE_RSA_Marshal TPMS_SIGNATURE_RSA_Unmarshal TPMS_SIGNATURE_RSA_ok 516"
  by (rule codec_struct2 [where C = "\<lambda>x y. \<lparr>rsasig_hash = x, rsasig_sig = y\<rparr>",
      OF codec_TPMI_ALG_HASH [of False] codec_TPM2B_PUBLIC_KEY_RSA])
     (simp_all add: TPMS_SIGNATURE_RSA_Marshal_def TPMS_SIGNATURE_RSA_Unmarshal_def TPMS_SIGNATURE_RSA_ok_def, meson TPMS_SIGNATURE_RSA.cases)

record TPMS_SIGNATURE_ECC =
  eccsig_hash :: TPM_ALG_ID
  signatureR :: "BYTE list"
  signatureS :: "BYTE list"

definition TPMS_SIGNATURE_ECC_ok :: "TPMS_SIGNATURE_ECC \<Rightarrow> bool" where
  "TPMS_SIGNATURE_ECC_ok s \<longleftrightarrow>
     TPMI_ALG_HASH_ok False (eccsig_hash s) \<and>
     length (signatureR s) \<le> 80 \<and>
     length (signatureS s) \<le> 80"

definition TPMS_SIGNATURE_ECC_Marshal :: "TPMS_SIGNATURE_ECC \<Rightarrow> marshaler" where
  "TPMS_SIGNATURE_ECC_Marshal s =
     andM (TPMI_ALG_HASH_Marshal (eccsig_hash s))
     (andM (TPM2B_ECC_PARAMETER_Marshal (signatureR s)) (TPM2B_ECC_PARAMETER_Marshal (signatureS s)))"

definition TPMS_SIGNATURE_ECC_Unmarshal :: "TPMS_SIGNATURE_ECC unmarshaler" where
  "TPMS_SIGNATURE_ECC_Unmarshal bs =
     bindU (TPMI_ALG_HASH_Unmarshal False bs) (\<lambda>x bs.
     bindU (TPM2B_ECC_PARAMETER_Unmarshal bs) (\<lambda>y bs.
     bindU (TPM2B_ECC_PARAMETER_Unmarshal bs) (\<lambda>z bs.
       Inr (\<lparr>eccsig_hash = x, signatureR = y, signatureS = z\<rparr>, bs))))"

lemma codec_TPMS_SIGNATURE_ECC: "codec TPMS_SIGNATURE_ECC_Marshal TPMS_SIGNATURE_ECC_Unmarshal TPMS_SIGNATURE_ECC_ok 166"
  by (rule codec_struct3 [where C = "\<lambda>x y z. \<lparr>eccsig_hash = x, signatureR = y, signatureS = z\<rparr>",
      OF codec_TPMI_ALG_HASH [of False] codec_TPM2B_ECC_PARAMETER codec_TPM2B_ECC_PARAMETER])
     (simp_all add: TPMS_SIGNATURE_ECC_Marshal_def TPMS_SIGNATURE_ECC_Unmarshal_def TPMS_SIGNATURE_ECC_ok_def, meson TPMS_SIGNATURE_ECC.cases)

definition TPMS_SIGNATURE_RSASSA_Marshal :: "TPMS_SIGNATURE_RSA \<Rightarrow> marshaler" where
  "TPMS_SIGNATURE_RSASSA_Marshal = TPMS_SIGNATURE_RSA_Marshal"

definition TPMS_SIGNATURE_RSASSA_Unmarshal :: "TPMS_SIGNATURE_RSA unmarshaler" where
  "TPMS_SIGNATURE_RSASSA_Unmarshal = TPMS_SIGNATURE_RSA_Unmarshal"

lemma codec_TPMS_SIGNATURE_RSASSA: "codec TPMS_SIGNATURE_RSASSA_Marshal TPMS_SIGNATURE_RSASSA_Unmarshal TPMS_SIGNATURE_RSA_ok 516"
  using codec_TPMS_SIGNATURE_RSA by (simp add: TPMS_SIGNATURE_RSASSA_Marshal_def TPMS_SIGNATURE_RSASSA_Unmarshal_def)

definition TPMS_SIGNATURE_RSAPSS_Marshal :: "TPMS_SIGNATURE_RSA \<Rightarrow> marshaler" where
  "TPMS_SIGNATURE_RSAPSS_Marshal = TPMS_SIGNATURE_RSA_Marshal"

definition TPMS_SIGNATURE_RSAPSS_Unmarshal :: "TPMS_SIGNATURE_RSA unmarshaler" where
  "TPMS_SIGNATURE_RSAPSS_Unmarshal = TPMS_SIGNATURE_RSA_Unmarshal"

lemma codec_TPMS_SIGNATURE_RSAPSS: "codec TPMS_SIGNATURE_RSAPSS_Marshal TPMS_SIGNATURE_RSAPSS_Unmarshal TPMS_SIGNATURE_RSA_ok 516"
  using codec_TPMS_SIGNATURE_RSA by (simp add: TPMS_SIGNATURE_RSAPSS_Marshal_def TPMS_SIGNATURE_RSAPSS_Unmarshal_def)

definition TPMS_SIGNATURE_ECDSA_Marshal :: "TPMS_SIGNATURE_ECC \<Rightarrow> marshaler" where
  "TPMS_SIGNATURE_ECDSA_Marshal = TPMS_SIGNATURE_ECC_Marshal"

definition TPMS_SIGNATURE_ECDSA_Unmarshal :: "TPMS_SIGNATURE_ECC unmarshaler" where
  "TPMS_SIGNATURE_ECDSA_Unmarshal = TPMS_SIGNATURE_ECC_Unmarshal"

lemma codec_TPMS_SIGNATURE_ECDSA: "codec TPMS_SIGNATURE_ECDSA_Marshal TPMS_SIGNATURE_ECDSA_Unmarshal TPMS_SIGNATURE_ECC_ok 166"
  using codec_TPMS_SIGNATURE_ECC by (simp add: TPMS_SIGNATURE_ECDSA_Marshal_def TPMS_SIGNATURE_ECDSA_Unmarshal_def)

definition TPMS_SIGNATURE_ECDAA_Marshal :: "TPMS_SIGNATURE_ECC \<Rightarrow> marshaler" where
  "TPMS_SIGNATURE_ECDAA_Marshal = TPMS_SIGNATURE_ECC_Marshal"

definition TPMS_SIGNATURE_ECDAA_Unmarshal :: "TPMS_SIGNATURE_ECC unmarshaler" where
  "TPMS_SIGNATURE_ECDAA_Unmarshal = TPMS_SIGNATURE_ECC_Unmarshal"

lemma codec_TPMS_SIGNATURE_ECDAA: "codec TPMS_SIGNATURE_ECDAA_Marshal TPMS_SIGNATURE_ECDAA_Unmarshal TPMS_SIGNATURE_ECC_ok 166"
  using codec_TPMS_SIGNATURE_ECC by (simp add: TPMS_SIGNATURE_ECDAA_Marshal_def TPMS_SIGNATURE_ECDAA_Unmarshal_def)

definition TPMS_SIGNATURE_SM2_Marshal :: "TPMS_SIGNATURE_ECC \<Rightarrow> marshaler" where
  "TPMS_SIGNATURE_SM2_Marshal = TPMS_SIGNATURE_ECC_Marshal"

definition TPMS_SIGNATURE_SM2_Unmarshal :: "TPMS_SIGNATURE_ECC unmarshaler" where
  "TPMS_SIGNATURE_SM2_Unmarshal = TPMS_SIGNATURE_ECC_Unmarshal"

lemma codec_TPMS_SIGNATURE_SM2: "codec TPMS_SIGNATURE_SM2_Marshal TPMS_SIGNATURE_SM2_Unmarshal TPMS_SIGNATURE_ECC_ok 166"
  using codec_TPMS_SIGNATURE_ECC by (simp add: TPMS_SIGNATURE_SM2_Marshal_def TPMS_SIGNATURE_SM2_Unmarshal_def)

definition TPMS_SIGNATURE_ECSCHNORR_Marshal :: "TPMS_SIGNATURE_ECC \<Rightarrow> marshaler" where
  "TPMS_SIGNATURE_ECSCHNORR_Marshal = TPMS_SIGNATURE_ECC_Marshal"

definition TPMS_SIGNATURE_ECSCHNORR_Unmarshal :: "TPMS_SIGNATURE_ECC unmarshaler" where
  "TPMS_SIGNATURE_ECSCHNORR_Unmarshal = TPMS_SIGNATURE_ECC_Unmarshal"

lemma codec_TPMS_SIGNATURE_ECSCHNORR: "codec TPMS_SIGNATURE_ECSCHNORR_Marshal TPMS_SIGNATURE_ECSCHNORR_Unmarshal TPMS_SIGNATURE_ECC_ok 166"
  using codec_TPMS_SIGNATURE_ECC by (simp add: TPMS_SIGNATURE_ECSCHNORR_Marshal_def TPMS_SIGNATURE_ECSCHNORR_Unmarshal_def)

datatype TPMU_SIGNATURE =
    sig_rsa TPMS_SIGNATURE_RSA
  | sig_ecc TPMS_SIGNATURE_ECC
  | sig_hmac TPMT_HA
  | sig_none

definition TPMU_SIGNATURE_ok :: "TPM_ALG_ID \<Rightarrow> TPMU_SIGNATURE \<Rightarrow> bool" where
  "TPMU_SIGNATURE_ok selector source =
     (case source of
        sig_rsa x \<Rightarrow> selector \<in> {TPM_ALG_RSASSA, TPM_ALG_RSAPSS} \<and> TPMS_SIGNATURE_RSA_ok x
      | sig_ecc x \<Rightarrow> selector \<in> {TPM_ALG_ECDSA, TPM_ALG_ECDAA, TPM_ALG_SM2, TPM_ALG_ECSCHNORR} \<and> TPMS_SIGNATURE_ECC_ok x
      | sig_hmac x \<Rightarrow> selector = TPM_ALG_HMAC \<and> TPMT_HA_ok False x
      | sig_none \<Rightarrow> selector = TPM_ALG_NULL)"

definition TPMU_SIGNATURE_Marshal :: "TPMU_SIGNATURE \<Rightarrow> TPM_ALG_ID \<Rightarrow> marshaler" where
  "TPMU_SIGNATURE_Marshal source selector =
     (if selector = TPM_ALG_RSASSA then (case source of sig_rsa x \<Rightarrow> TPMS_SIGNATURE_RSASSA_Marshal x | _ \<Rightarrow> failM OUT_OF_BOUNDS)
      else if selector = TPM_ALG_RSAPSS then (case source of sig_rsa x \<Rightarrow> TPMS_SIGNATURE_RSAPSS_Marshal x | _ \<Rightarrow> failM OUT_OF_BOUNDS)
      else if selector = TPM_ALG_ECDSA then (case source of sig_ecc x \<Rightarrow> TPMS_SIGNATURE_ECDSA_Marshal x | _ \<Rightarrow> failM OUT_OF_BOUNDS)
      else if selector = TPM_ALG_ECDAA then (case source of sig_ecc x \<Rightarrow> TPMS_SIGNATURE_ECDAA_Marshal x | _ \<Rightarrow> failM OUT_OF_BOUNDS)
      else if selector = TPM_ALG_SM2 then (case source of sig_ecc x \<Rightarrow> TPMS_SIGNATURE_SM2_Marshal x | _ \<Rightarrow> failM OUT_OF_BOUNDS)
      else if selector = TPM_ALG_ECSCHNORR then (case source of sig_ecc x \<Rightarrow> TPMS_SIGNATURE_ECSCHNORR_Marshal x | _ \<Rightarrow> failM OUT_OF_BOUNDS)
      else if selector = TPM_ALG_HMAC then (case source of sig_hmac x \<Rightarrow> TPMT_HA_Marshal x | _ \<Rightarrow> failM OUT_OF_BOUNDS)
      else if selector = TPM_ALG_NULL then doneM
      else failM FATAL_ERROR_PARAMETER)"

definition TPMU_SIGNATURE_Unmarshal :: "TPM_ALG_ID \<Rightarrow> TPMU_SIGNATURE unmarshaler" where
  "TPMU_SIGNATURE_Unmarshal selector bs =
     (if selector = TPM_ALG_RSASSA then bindU (TPMS_SIGNATURE_RSASSA_Unmarshal bs) (\<lambda>x bs. Inr (sig_rsa x, bs))
      else if selector = TPM_ALG_RSAPSS then bindU (TPMS_SIGNATURE_RSAPSS_Unmarshal bs) (\<lambda>x bs. Inr (sig_rsa x, bs))
      else if selector = TPM_ALG_ECDSA then bindU (TPMS_SIGNATURE_ECDSA_Unmarshal bs) (\<lambda>x bs. Inr (sig_ecc x, bs))
      else if selector = TPM_ALG_ECDAA then bindU (TPMS_SIGNATURE_ECDAA_Unmarshal bs) (\<lambda>x bs. Inr (sig_ecc x, bs))
      else if selector = TPM_ALG_SM2 then bindU (TPMS_SIGNATURE_SM2_Unmarshal bs) (\<lambda>x bs. Inr (sig_ecc x, bs))
      else if selector = TPM_ALG_ECSCHNORR then bindU (TPMS_SIGNATURE_ECSCHNORR_Unmarshal bs) (\<lambda>x bs. Inr (sig_ecc x, bs))
      else if selector = TPM_ALG_HMAC then bindU (TPMT_HA_Unmarshal False bs) (\<lambda>x bs. Inr (sig_hmac x, bs))
      else if selector = TPM_ALG_NULL then Inr (sig_none, bs)
      else Inl TPM_RC_SELECTOR)"

lemma codec_TPMU_SIGNATURE:
  "codec (\<lambda>s. TPMU_SIGNATURE_Marshal s selector) (TPMU_SIGNATURE_Unmarshal selector) (TPMU_SIGNATURE_ok selector) 516"
  unfolding TPMU_SIGNATURE_Marshal_def TPMU_SIGNATURE_Unmarshal_def
  by (rule codec_weaken, (rule codec_cond codec_done codec_fail
        codec_member [OF codec_TPMS_SIGNATURE_RSASSA]
        codec_member [OF codec_TPMS_SIGNATURE_RSAPSS]
        codec_member [OF codec_TPMS_SIGNATURE_ECDSA]
        codec_member [OF codec_TPMS_SIGNATURE_ECDAA]
        codec_member [OF codec_TPMS_SIGNATURE_SM2]
        codec_member [OF codec_TPMS_SIGNATURE_ECSCHNORR]
        codec_member [OF codec_TPMT_HA [of False]] | (simp; fail))+)
     (auto simp: TPMU_SIGNATURE_ok_def split: TPMU_SIGNATURE.splits)

record TPMT_SIGNATURE =
  sigAlg :: TPM_ALG_ID
  signature :: TPMU_SIGNATURE

definition TPMT_SIGNATURE_ok :: "bool \<Rightarrow> TPMT_SIGNATURE \<Rightarrow> bool" where
  "TPMT_SIGNATURE_ok allowNull s \<longleftrightarrow>
     TPMI_ALG_SIG_SCHEME_ok allowNull (sigAlg s) \<and> TPMU_SIGNATURE_ok (sigAlg s) (signature s)"

definition TPMT_SIGNATURE_Marshal :: "TPMT_SIGNATURE \<Rightarrow> marshaler" where
  "TPMT_SIGNATURE_Marshal s =
     andM (TPMI_ALG_SIG_SCHEME_Marshal (sigAlg s)) (TPMU_SIGNATURE_Marshal (signature s) (sigAlg s))"

definition TPMT_SIGNATURE_Unmarshal :: "bool \<Rightarrow> TPMT_SIGNATURE unmarshaler" where
  "TPMT_SIGNATURE_Unmarshal allowNull bs =
     bindU (TPMI_ALG_SIG_SCHEME_Unmarshal allowNull bs) (\<lambda>x bs.
     bindU (TPMU_SIGNATURE_Unmarshal x bs) (\<lambda>y bs.
       Inr (\<lparr>sigAlg = x, signature = y\<rparr>, bs)))"

lemma codec_TPMT_SIGNATURE: "codec TPMT_SIGNATURE_Marshal (TPMT_SIGNATURE_Unmarshal allowNull) (TPMT_SIGNATURE_ok allowNull) 518"
  by (rule codec_struct2 [where C = "\<lambda>x y. \<lparr>sigAlg = x, signature = y\<rparr>",
      OF codec_TPMI_ALG_SIG_SCHEME [of allowNull] codec_TPMU_SIGNATURE])
     (simp_all add: TPMT_SIGNATURE_Marshal_def TPMT_SIGNATURE_Unmarshal_def TPMT_SIGNATURE_ok_def, meson TPMT_SIGNATURE.cases)

section \<open>Public areas\<close>

datatype TPMU_PUBLIC_ID =
    id_keyedHash "BYTE list"
  | id_sym "BYTE list"
  | id_rsa "BYTE list"
  | id_ecc TPMS_ECC_POINT

definition TPMU_PUBLIC_ID_ok :: "TPM_ALG_ID \<Rightarrow> TPMU_PUBLIC_ID \<Rightarrow> bool" where
  "TPMU_PUBLIC_ID_ok selector source =
     (case source of
        id_keyedHash x \<Rightarrow> selector = TPM_ALG_KEYEDHASH \<and> length x \<le> 64
      | id_sym x \<Rightarrow> selector = TPM_ALG_SYMCIPHER \<and> length x \<le> 64
      | id_rsa x \<Rightarrow> selector = TPM_ALG_RSA \<and> length x \<le> 512
      | id_ecc x \<Rightarrow> selector = TPM_ALG_ECC \<and> TPMS_ECC_POINT_ok x)"

definition TPMU_PUBLIC_ID_Marshal :: "TPMU_PUBLIC_ID \<Rightarrow> TPM_ALG_ID \<Rightarrow> marshaler" where
  "TPMU_PUBLIC_ID_Marshal source selector =
     (if selector = TPM_ALG_KEYEDHASH then (case source of id_keyedHash x \<Rightarrow> TPM2B_DIGEST_Marshal x | _ \<Rightarrow> failM OUT_OF_BOUNDS)
      else if selector = TPM_ALG_SYMCIPHER then (case source of id_sym x \<Rightarrow> TPM2B_DIGEST_Marshal x | _ \<Rightarrow> failM OUT_OF_BOUNDS)
      else if selector = TPM_ALG_RSA then (case source of id_rsa x \<Rightarrow> TPM2B_PUBLIC_KEY_RSA_Marshal x | _ \<Rightarrow> failM OUT_OF_BOUNDS)
      else if selector = TPM_ALG_ECC then (case source of id_ecc x \<Rightarrow> TPMS_ECC_POINT_Marshal x | _ \<Rightarrow> failM OUT_OF_BOUNDS)
      else failM FATAL_ERROR_PARAMETER)"

definition TPMU_PUBLIC_ID_Unmarshal :: "TPM_ALG_ID \<Rightarrow> TPMU_PUBLIC_ID unmarshaler" where
  "TPMU_PUBLIC_ID_Unmarshal selector bs =
     (if selector = TPM_ALG_KEYEDHASH then bindU (TPM2B_DIGEST_Unmarshal bs) (\<lambda>x bs. Inr (id_keyedHash x, bs))
      else if selector = TPM_ALG_SYMCIPHER then bindU (TPM2B_DIGEST_Unmarshal bs) (\<lambda>x bs. Inr (id_sym x, bs))
      else if selector = TPM_ALG_RSA then bindU (TPM2B_PUBLIC_KEY_RSA_Unmarshal bs) (\<lambda>x bs. Inr (id_rsa x, bs))
      else if selector = TPM_ALG_ECC then bindU (TPMS_ECC_POINT_Unmarshal bs) (\<lambda>x bs. Inr (id_ecc x, bs))
      else Inl TPM_RC_SELECTOR)"

lemma codec_TPMU_PUBLIC_ID:
  "codec (\<lambda>s. TPMU_PUBLIC_ID_Marshal s selector) (TPMU_PUBLIC_ID_Unmarshal selector) (TPMU_PUBLIC_ID_ok selector) 514"
  unfolding TPMU_PUBLIC_ID_Marshal_def TPMU_PUBLIC_ID_Unmarshal_def
  by (rule codec_weaken, (rule codec_cond codec_done codec_fail
        codec_member [OF codec_TPM2B_DIGEST]
        codec_member [OF codec_TPM2B_PUBLIC_KEY_RSA]
        codec_member [OF codec_TPMS_ECC_POINT] | (simp; fail))+)
     (auto simp: TPMU_PUBLIC_ID_ok_def split: TPMU_PUBLIC_ID.splits)

definition TPMS_KEYEDHASH_PARMS_Marshal :: "TPMT_KEYEDHASH_SCHEME \<Rightarrow> marshaler" where
  "TPMS_KEYEDHASH_PARMS_Marshal = TPMT_KEYEDHASH_SCHEME_Marshal"

definition TPMS_KEYEDHASH_PARMS_Unmarshal :: "TPMT_KEYEDHASH_SCHEME unmarshaler" where
  "TPMS_KEYEDHASH_PARMS_Unmarshal = TPMT_KEYEDHASH_SCHEME_Unmarshal True"

lemma codec_TPMS_KEYEDHASH_PARMS:
  "codec TPMS_KEYEDHASH_PARMS_Marshal TPMS_KEYEDHASH_PARMS_Unmarshal (TPMT_KEYEDHASH_SCHEME_ok True) 6"
  using codec_TPMT_KEYEDHASH_SCHEME by (simp add: TPMS_KEYEDHASH_PARMS_Marshal_def TPMS_KEYEDHASH_PARMS_Unmarshal_def)

record TPMS_RSA_PARMS =
  rp_symmetric :: TPMT_SYM_DEF_OBJECT
  rp_scheme :: TPMT_RSA_SCHEME
  rp_keyBits :: UINT16
  rp_exponent :: UINT32

definition TPMS_RSA_PARMS_ok :: "TPMS_RSA_PARMS \<Rightarrow> bool" where
  "TPMS_RSA_PARMS_ok s \<longleftrightarrow>
     TPMT_SYM_DEF_OBJECT_ok True (rp_symmetric s) \<and>
     TPMT_RSA_SCHEME_ok True (rp_scheme s) \<and>
     TPMI_RSA_KEY_BITS_ok (rp_keyBits s)"

definition TPMS_RSA_PARMS_Marshal :: "TPMS_RSA_PARMS \<Rightarrow> marshaler" where
  "TPMS_RSA_PARMS_Marshal s =
     andM (TPMT_SYM_DEF_OBJECT_Marshal (rp_symmetric s))
     (andM (TPMT_RSA_SCHEME_Marshal (rp_scheme s))
     (andM (TPMI_RSA_KEY_BITS_Marshal (rp_keyBits s)) (UINT32_Marshal (rp_exponent s))))"

definition TPMS_RSA_PARMS_Unmarshal :: "TPMS_RSA_PARMS unmarshaler" where
  "TPMS_RSA_PARMS_Unmarshal bs =
     bindU (TPMT_SYM_DEF_OBJECT_Unmarshal True bs) (\<lambda>x bs.
     bindU (TPMT_RSA_SCHEME_Unmarshal True bs) (\<lambda>y bs.
     bindU (TPMI_RSA_KEY_BITS_Unmarshal bs) (\<lambda>z bs.
     bindU (UINT32_Unmarshal bs) (\<lambda>v bs.
       Inr (\<lparr>rp_symmetric = x, rp_scheme = y, rp_keyBits = z, rp_exponent = v\<rparr>, bs)))))"

lemma codec_TPMS_RSA_PARMS: "codec TPMS_RSA_PARMS_Marshal TPMS_RSA_PARMS_Unmarshal TPMS_RSA_PARMS_ok 18"
  by (rule codec_struct4 [where C = "\<lambda>x y z v. \<lparr>rp_symmetric = x, rp_scheme = y, rp_keyBits = z, rp_exponent = v\<rparr>",
      OF codec_TPMT_SYM_DEF_OBJECT [of True] codec_TPMT_RSA_SCHEME [of True] codec_TPMI_RSA_KEY_BITS codec_UINT32])
     (simp_all add: TPMS_RSA_PARMS_Marshal_def TPMS_RSA_PARMS_Unmarshal_def TPMS_RSA_PARMS_ok_def, meson TPMS_RSA_PARMS.cases)

record TPMS_ECC_PARMS =
  ep_symmetric :: TPMT_SYM_DEF_OBJECT
  ep_scheme :: TPMT_ECC_SCHEME
  ep_curveID :: UINT16
  ep_kdf :: TPMT_KDF_SCHEME

definition TPMS_ECC_PARMS_ok :: "TPMS_ECC_PARMS \<Rightarrow> bool" where
  "TPMS_ECC_PARMS_ok s \<longleftrightarrow>
     TPMT_SYM_DEF_OBJECT_ok True (ep_symmetric s) \<and>
     TPMT_ECC_SCHEME_ok True (ep_scheme s) \<and>
     TPM_ECC_CURVE_ok (ep_curveID s) \<and> TPMI_ECC_CURVE_ok False (ep_curveID s) \<and>
     TPMT_KDF_SCHEME_ok True (ep_kdf s)"

definition TPMS_ECC_PARMS_Marshal :: "TPMS_ECC_PARMS \<Rightarrow> marshaler" where
  "TPMS_ECC_PARMS_Marshal s =
     andM (TPMT_SYM_DEF_OBJECT_Marshal (ep_symmetric s))
     (andM (TPMT_ECC_SCHEME_Marshal (ep_scheme s))
     (andM (TPMI_ECC_CURVE_Marshal (ep_curveID s)) (TPMT_KDF_SCHEME_Marshal (ep_kdf s))))"

definition TPMS_ECC_PARMS_Unmarshal :: "TPMS_ECC_PARMS unmarshaler" where
  "TPMS_ECC_PARMS_Unmarshal bs =
     bindU (TPMT_SYM_DEF_OBJECT_Unmarshal True bs) (\<lambda>x bs.
     bindU (TPMT_ECC_SCHEME_Unmarshal True bs) (\<lambda>y bs.
     bindU (TPMI_ECC_CURVE_Unmarshal False bs) (\<lambda>z bs.
     bindU (TPMT_KDF_SCHEME_Unmarshal True bs) (\<lambda>v bs.
       Inr (\<lparr>ep_symmetric = x, ep_scheme = y, ep_curveID = z, ep_kdf = v\<rparr>, bs)))))"

lemma codec_TPMS_ECC_PARMS: "codec TPMS_ECC_PARMS_Marshal TPMS_ECC_PARMS_Unmarshal TPMS_ECC_PARMS_ok 18"
  by (rule codec_struct4 [where C = "\<lambda>x y z v. \<lparr>ep_symmetric = x, ep_scheme = y, ep_curveID = z, ep_kdf = v\<rparr>",
      OF codec_TPMT_SYM_DEF_OBJECT [of True] codec_TPMT_ECC_SCHEME [of True] codec_TPMI_ECC_CURVE [of False] codec_TPMT_KDF_SCHEME [of True]])
     (simp_all add: TPMS_ECC_PARMS_Marshal_def TPMS_ECC_PARMS_Unmarshal_def TPMS_ECC_PARMS_ok_def, meson TPMS_ECC_PARMS.cases)

datatype TPMU_PUBLIC_PARMS =
    keyedHashDetail TPMT_KEYEDHASH_SCHEME
  | symDetail TPMT_SYM_DEF_OBJECT
  | rsaDetail TPMS_RSA_PARMS
  | eccDetail TPMS_ECC_PARMS

definition TPMU_PUBLIC_PARMS_ok :: "TPM_ALG_ID \<Rightarrow> TPMU_PUBLIC_PARMS \<Rightarrow> bool" where
  "TPMU_PUBLIC_PARMS_ok selector source =
     (case source of
        keyedHashDetail x \<Rightarrow> selector = TPM_ALG_KEYEDHASH \<and> TPMT_KEYEDHASH_SCHEME_ok True x
      | symDetail x \<Rightarrow> selector = TPM_ALG_SYMCIPHER \<and> TPMT_SYM_DEF_OBJECT_ok False x
      | rsaDetail x \<Rightarrow> selector = TPM_ALG_RSA \<and> TPMS_RSA_PARMS_ok x
      | eccDetail x \<Rightarrow> selector = TPM_ALG_ECC \<and> TPMS_ECC_PARMS_ok x)"

definition TPMU_PUBLIC_PARMS_Marshal :: "TPMU_PUBLIC_PARMS \<Rightarrow> TPM_ALG_ID \<Rightarrow> marshaler" where
  "TPMU_PUBLIC_PARMS_Marshal source selector =
     (if selector = TPM_ALG_KEYEDHASH then (case source of keyedHashDetail x \<Rightarrow> TPMS_KEYEDHASH_PARMS_Marshal x | _ \<Rightarrow> failM OUT_OF_BOUNDS)
      else if selector = TPM_ALG_SYMCIPHER then (case source of symDetail x \<Rightarrow> TPMS_SYMCIPHER_PARMS_Marshal x | _ \<Rightarrow> failM OUT_OF_BOUNDS)
      else if selector = TPM_ALG_RSA then (case source of rsaDetail x \<Rightarrow> TPMS_RSA_PARMS_Marshal x | _ \<Rightarrow> failM OUT_OF_BOUNDS)
      else if selector = TPM_ALG_ECC then (case source of eccDetail x \<Rightarrow> TPMS_ECC_PARMS_Marshal x | _ \<Rightarrow> failM OUT_OF_BOUNDS)
      else failM FATAL_ERROR_PARAMETER)"

definition TPMU_PUBLIC_PARMS_Unmarshal :: "TPM_ALG_ID \<Rightarrow> TPMU_PUBLIC_PARMS unmarshaler" where
  "TPMU_PUBLIC_PARMS_Unmarshal selector bs =
     (if selector = TPM_ALG_KEYEDHASH then bindU (TPMS_KEYEDHASH_PARMS_Unmarshal bs) (\<lambda>x bs. Inr (keyedHashDetail x, bs))
      else if selector = TPM_ALG_SYMCIPHER then bindU (TPMS_SYMCIPHER_PARMS_Unmarshal bs) (\<lambda>x bs. Inr (symDetail x, bs))
      else if selector = TPM_ALG_RSA then bindU (TPMS_RSA_PARMS_Unmarshal bs) (\<lambda>x bs. Inr (rsaDetail x, bs))
      else if selector = TPM_ALG_ECC then bindU (TPMS_ECC_PARMS_Unmarshal bs) (\<lambda>x bs. Inr (eccDetail x, bs))
      else Inl TPM_RC_SELECTOR)"

lemma codec_TPMU_PUBLIC_PARMS:
  "codec (\<lambda>s. TPMU_PUBLIC_PARMS_Marshal s selector) (TPMU_PUBLIC_PARMS_Unmarshal selector) (TPMU_PUBLIC_PARMS_ok selector) 18"
  unfolding TPMU_PUBLIC_PARMS_Marshal_def TPMU_PUBLIC_PARMS_Unmarshal_def
  by (rule codec_weaken, (rule codec_cond codec_done codec_fail
        codec_member [OF codec_TPMS_KEYEDHASH_PARMS]
        codec_member [OF codec_TPMS_SYMCIPHER_PARMS]
        codec_member [OF codec_TPMS_RSA_PARMS]
        codec_member [OF codec_TPMS_ECC_PARMS] | (simp; fail))+)
     (auto simp: TPMU_PUBLIC_PARMS_ok_def split: TPMU_PUBLIC_PARMS.splits)

record TPMT_PUBLIC =
  pub_type :: TPM_ALG_ID
  pub_nameAlg :: TPM_ALG_ID
  objectAttributes :: UINT32
  pub_authPolicy :: "BYTE list"
  pub_parameters :: TPMU_PUBLIC_PARMS
  pub_unique :: TPMU_PUBLIC_ID

definition TPMT_PUBLIC_ok :: "bool \<Rightarrow> TPMT_PUBLIC \<Rightarrow> bool" where
  "TPMT_PUBLIC_ok allowNull s \<longleftrightarrow>
     TPMI_ALG_PUBLIC_ok (pub_type s) \<and>
     TPMI_ALG_HASH_ok allowNull (pub_nameAlg s) \<and>
     TPMA_OBJECT_ok (objectAttributes s) \<and>
     length (pub_authPolicy s) \<le> 64 \<and>
     TPMU_PUBLIC_PARMS_ok (pub_type s) (pub_parameters s) \<and>
     TPMU_PUBLIC_ID_ok (pub_type s) (pub_unique s)"

definition TPMT_PUBLIC_Marshal :: "TPMT_PUBLIC \<Rightarrow> marshaler" where
  "TPMT_PUBLIC_Marshal s =
     andM (TPMI_ALG_PUBLIC_Marshal (pub_type s))
     (andM (TPMI_ALG_HASH_Marshal (pub_nameAlg s))
     (andM (TPMA_OBJECT_Marshal (objectAttributes s))
     (andM (TPM2B_DIGEST_Marshal (pub_authPolicy s))
     (andM (TPMU_PUBLIC_PARMS_Marshal (pub_parameters s) (pub_type s)) (TPMU_PUBLIC_ID_Marshal (pub_unique s) (pub_type s))))))"

definition TPMT_PUBLIC_Unmarshal :: "bool \<Rightarrow> TPMT_PUBLIC unmarshaler" where
  "TPMT_PUBLIC_Unmarshal allowNull bs =
     bindU (TPMI_ALG_PUBLIC_Unmarshal bs) (\<lambda>x bs.
     bindU (TPMI_ALG_HASH_Unmarshal allowNull bs) (\<lambda>y bs.
     bindU (TPMA_OBJECT_Unmarshal bs) (\<lambda>z bs.
     bindU (TPM2B_DIGEST_Unmarshal bs) (\<lambda>v bs.
     bindU (TPMU_PUBLIC_PARMS_Unmarshal x bs) (\<lambda>w bs.
     bindU (TPMU_PUBLIC_ID_Unmarshal x bs) (\<lambda>q bs.
       Inr (\<lparr>pub_type = x, pub_nameAlg = y, objectAttributes = z, pub_authPolicy = v, pub_parameters = w, pub_unique = q\<rparr>, bs)))))))"

lemma codec_TPMT_PUBLIC: "codec TPMT_PUBLIC_Marshal (TPMT_PUBLIC_Unmarshal allowNull) (TPMT_PUBLIC_ok allowNull) 606"
  by (rule codec_struct6 [where C = "\<lambda>x y z v w q. \<lparr>pub_type = x, pub_nameAlg = y, objectAttributes = z, pub_authPolicy = v, pub_parameters = w, pub_unique = q\<rparr>",
      OF codec_TPMI_ALG_PUBLIC codec_TPMI_ALG_HASH [of allowNull] codec_TPMA_OBJECT codec_TPM2B_DIGEST codec_TPMU_PUBLIC_PARMS codec_TPMU_PUBLIC_ID])
     (simp_all add: TPMT_PUBLIC_Marshal_def TPMT_PUBLIC_Unmarshal_def TPMT_PUBLIC_ok_def, meson TPMT_PUBLIC.cases)

definition TPM2B_PUBLIC_Marshal :: "TPMT_PUBLIC \<Rightarrow> marshaler" where
  "TPM2B_PUBLIC_Marshal = sized_Marshal TPMT_PUBLIC_Marshal"

definition TPM2B_PUBLIC_Unmarshal :: "bool \<Rightarrow> TPMT_PUBLIC unmarshaler" where
  "TPM2B_PUBLIC_Unmarshal allowNull = sized_Unmarshal (TPMT_PUBLIC_Unmarshal allowNull)"

lemma codec_TPM2B_PUBLIC: "codec TPM2B_PUBLIC_Marshal (TPM2B_PUBLIC_Unmarshal allowNull) (TPMT_PUBLIC_ok allowNull) 608"
  unfolding TPM2B_PUBLIC_Marshal_def TPM2B_PUBLIC_Unmarshal_def
  by (rule codec_weaken [OF codec_sized [OF codec_TPMT_PUBLIC]])
     (simp_all add: TPMT_PUBLIC_Unmarshal_def TPMI_ALG_PUBLIC_Unmarshal_def TPM_ALG_ID_Unmarshal_def checked_def UINT16_Unmarshal_def)

section \<open>Sensitive areas\<close>

datatype TPMU_SENSITIVE_COMPOSITE =
    sens_rsa "BYTE list"
  | sens_ecc "BYTE list"
  | sens_bits "BYTE list"
  | sens_sym "BYTE list"

definition TPMU_SENSITIVE_COMPOSITE_ok :: "TPM_ALG_ID \<Rightarrow> TPMU_SENSITIVE_COMPOSITE \<Rightarrow> bool" where
  "TPMU_SENSITIVE_COMPOSITE_ok selector source =
     (case source of
        sens_rsa x \<Rightarrow> selector = TPM_ALG_RSA \<and> length x \<le> 1280
      | sens_ecc x \<Rightarrow> selector = TPM_ALG_ECC \<and> length x \<le> 80
      | sens_bits x \<Rightarrow> selector = TPM_ALG_KEYEDHASH \<and> length x \<le> 128
      | sens_sym x \<Rightarrow> selector = TPM_ALG_SYMCIPHER \<and> length x \<le> 32)"

definition TPMU_SENSITIVE_COMPOSITE_Marshal :: "TPMU_SENSITIVE_COMPOSITE \<Rightarrow> TPM_ALG_ID \<Rightarrow> marshaler" where
  "TPMU_SENSITIVE_COMPOSITE_Marshal source selector =
     (if selector = TPM_ALG_RSA then (case source of sens_rsa x \<Rightarrow> TPM2B_PRIVATE_KEY_RSA_Marshal x | _ \<Rightarrow> failM OUT_OF_BOUNDS)
      else if selector = TPM_ALG_ECC then (case source of sens_ecc x \<Rightarrow> TPM2B_ECC_PARAMETER_Marshal x | _ \<Rightarrow> failM OUT_OF_BOUNDS)
      else if selector = TPM_ALG_KEYEDHASH then (case source of sens_bits x \<Rightarrow> TPM2B_SENSITIVE_DATA_Marshal x | _ \<Rightarrow> failM OUT_OF_BOUNDS)
      else if selector = TPM_ALG_SYMCIPHER then (case source of sens_sym x \<Rightarrow> TPM2B_SYM_KEY_Marshal x | _ \<Rightarrow> failM OUT_OF_BOUNDS)
      else failM FATAL_ERROR_PARAMETER)"

definition TPMU_SENSITIVE_COMPOSITE_Unmarshal :: "TPM_ALG_ID \<Rightarrow> TPMU_SENSITIVE_COMPOSITE unmarshaler" where
  "TPMU_SENSITIVE_COMPOSITE_Unmarshal selector bs =
     (if selector = TPM_ALG_RSA then bindU (TPM2B_PRIVATE_KEY_RSA_Unmarshal bs) (\<lambda>x bs. Inr (sens_rsa x, bs))
      else if selector = TPM_ALG_ECC then bindU (TPM2B_ECC_PARAMETER_Unmarshal bs) (\<lambda>x bs. Inr (sens_ecc x, bs))
      else if selector = TPM_ALG_KEYEDHASH then bindU (TPM2B_SENSITIVE_DATA_Unmarshal bs) (\<lambda>x bs. Inr (sens_bits x, bs))
      else if selector = TPM_ALG_SYMCIPHER then bindU (TPM2B_SYM_KEY_Unmarshal bs) (\<lambda>x bs. Inr (sens_sym x, bs))
      else Inl TPM_RC_SELECTOR)"

lemma codec_TPMU_SENSITIVE_COMPOSITE:
  "codec (\<lambda>s. TPMU_SENSITIVE_COMPOSITE_Marshal s selector) (TPMU_SENSITIVE_COMPOSITE_Unmarshal selector) (TPMU_SENSITIVE_COMPOSITE_ok selector) 1282"
  unfolding TPMU_SENSITIVE_COMPOSITE_Marshal_def TPMU_SENSITIVE_COMPOSITE_Unmarshal_def
  by (rule codec_weaken, (rule codec_cond codec_done codec_fail
        codec_member [OF codec_TPM2B_PRIVATE_KEY_RSA]
        codec_member [OF codec_TPM2B_ECC_PARAMETER]
        codec_member [OF codec_TPM2B_SENSITIVE_DATA]
        codec_member [OF codec_TPM2B_SYM_KEY] | (simp; fail))+)
     (auto simp: TPMU_SENSITIVE_COMPOSITE_ok_def split: TPMU_SENSITIVE_COMPOSITE.splits)

record TPMT_SENSITIVE =
  sensitiveType :: TPM_ALG_ID
  sens_authValue :: "BYTE list"
  seedValue :: "BYTE list"
  sensitive :: TPMU_SENSITIVE_COMPOSITE

definition TPMT_SENSITIVE_ok :: "TPMT_SENSITIVE \<Rightarrow> bool" where
  "TPMT_SENSITIVE_ok s \<longleftrightarrow>
     TPMI_ALG_PUBLIC_ok (sensitiveType s) \<and>
     length (sens_authValue s) \<le> 64 \<and>
     length (seedValue s) \<le> 64 \<and>
     TPMU_SENSITIVE_COMPOSITE_ok (sensitiveType s) (sensitive s)"

definition TPMT_SENSITIVE_Marshal :: "TPMT_SENSITIVE \<Rightarrow> marshaler" where
  "TPMT_SENSITIVE_Marshal s =
     andM (TPMI_ALG_PUBLIC_Marshal (sensitiveType s))
     (andM (TPM2B_AUTH_Marshal (sens_authValue s))
     (andM (TPM2B_DIGEST_Marshal (seedValue s)) (TPMU_SENSITIVE_COMPOSITE_Marshal (sensitive s) (sensitiveType s))))"

definition TPMT_SENSITIVE_Unmarshal :: "TPMT_SENSITIVE unmarshaler" where
  "TPMT_SENSITIVE_Unmarshal bs =
     bindU (TPMI_ALG_PUBLIC_Unmarshal bs) (\<lambda>x bs.
     bindU (TPM2B_AUTH_Unmarshal bs) (\<lambda>y bs.
     bindU (TPM2B_DIGEST_Unmarshal bs) (\<lambda>z bs.
     bindU (TPMU_SENSITIVE_COMPOSITE_Unmarshal x bs) (\<lambda>v bs.
       Inr (\<lparr>sensitiveType = x, sens_authValue = y, seedValue = z, sensitive = v\<rparr>, bs)))))"

lemma codec_TPMT_SENSITIVE: "codec TPMT_SENSITIVE_Marshal TPMT_SENSITIVE_Unmarshal TPMT_SENSITIVE_ok 1416"
  by (rule codec_struct4 [where C = "\<lambda>x y z v. \<lparr>sensitiveType = x, sens_authValue = y, seedValue = z, sensitive = v\<rparr>",
      OF codec_TPMI_ALG_PUBLIC codec_TPM2B_AUTH codec_TPM2B_DIGEST codec_TPMU_SENSITIVE_COMPOSITE])
     (simp_all add: TPMT_SENSITIVE_Marshal_def TPMT_SENSITIVE_Unmarshal_def TPMT_SENSITIVE_ok_def, meson TPMT_SENSITIVE.cases)

section \<open>The wire format\<close>

interpretation tpm2b_public: codec TPM2B_PUBLIC_Marshal "TPM2B_PUBLIC_Unmarshal allowNull" "TPMT_PUBLIC_ok allowNull" 608 for allowNull
  by (rule codec_TPM2B_PUBLIC)

interpretation tpmt_sensitive: codec TPMT_SENSITIVE_Marshal TPMT_SENSITIVE_Unmarshal TPMT_SENSITIVE_ok 1416
  by (rule codec_TPMT_SENSITIVE)

interpretation tpmt_signature: codec TPMT_SIGNATURE_Marshal "TPMT_SIGNATURE_Unmarshal allowNull" "TPMT_SIGNATURE_ok allowNull" 518 for allowNull
  by (rule codec_TPMT_SIGNATURE)

interpretation tpms_context: codec TPMS_CONTEXT_Marshal TPMS_CONTEXT_Unmarshal TPMS_CONTEXT_ok 2766
  by (rule codec_TPMS_CONTEXT)

text \<open>
  C31. The wire format of public areas is unambiguous and complete:
  \<^verbatim>\<open>TPM2B_PUBLIC_Unmarshal\<close> accepts an octet string with a public area and a remainder if
  and only if the public area is well-formed (its algorithms, sizes and attributes are supported
  and its parameters and unique field fit its type) and the octets in front of the remainder are
  the ones \<^verbatim>\<open>TPM2B_PUBLIC_Marshal\<close> writes for it into a buffer of 608 octets.
\<close>

theorem public_area_wire_format:
  "TPM2B_PUBLIC_Unmarshal allowNull bs = Inr (p, rest) \<longleftrightarrow>
     TPMT_PUBLIC_ok allowNull p \<and>
     (\<exists>os. TPM2B_PUBLIC_Marshal p ([], 608) = Inr (word_of_nat (length os), os, 608 - length os) \<and> bs = os @ rest)"
  by (rule tpm2b_public.exact)

text \<open>
  C32. The same holds of saved contexts, signatures and sensitive areas: what is accepted is exactly
  the encoding of a well-formed value, followed by the remainder.  So a value that is marshaled is
  read back unchanged, and no octet string is read in two ways.
\<close>

theorem structures_wire_format:
  "(TPMS_CONTEXT_Unmarshal bs = Inr (c, rest) \<longleftrightarrow>
      TPMS_CONTEXT_ok c \<and> (\<exists>os. TPMS_CONTEXT_Marshal c ([], 2766) = Inr (word_of_nat (length os), os, 2766 - length os) \<and> bs = os @ rest)) \<and>
   (TPMT_SIGNATURE_Unmarshal allowNull bs = Inr (s, rest) \<longleftrightarrow>
      TPMT_SIGNATURE_ok allowNull s \<and> (\<exists>os. TPMT_SIGNATURE_Marshal s ([], 518) = Inr (word_of_nat (length os), os, 518 - length os) \<and> bs = os @ rest)) \<and>
   (TPMT_SENSITIVE_Unmarshal bs = Inr (t, rest) \<longleftrightarrow>
      TPMT_SENSITIVE_ok t \<and> (\<exists>os. TPMT_SENSITIVE_Marshal t ([], 1416) = Inr (word_of_nat (length os), os, 1416 - length os) \<and> bs = os @ rest))"
  by (intro conjI tpms_context.exact tpmt_signature.exact tpmt_sensitive.exact)



end
