(* ===== verification/Spec2Isabelle.thy ===== *)
theory Spec2Isabelle
  imports FTPM_Session_Spec FTPM_PCR_Theorems FTPM_Time_Spec FTPM_Marshal_Public
begin

text \<open>
  \<^bold>\<open>The program.\<close>  RfTPM (\<^verbatim>\<open>src/ftpm-opensbi\<close>) is a firmware TPM 2.0 that runs in the machine
  mode of a RISC-V processor as a part of OpenSBI.  It is the reference implementation of
  the TPM with its platform layer rewritten: the NV memory is an encrypted file on an SD
  card, the clock is the cycle counter, and the C library calls are intercepted.

  \<^bold>\<open>Conventions.\<close>  The model is a shallow embedding.  A global variable of the C code is a field
  of a state record, an operation is a function that returns the new state, and integers are
  words of their C width.  A failed assertion (\<^verbatim>\<open>pAssert\<close>, \<^verbatim>\<open>FAIL\<close>) is the value
  \<open>Inl FATAL_ERROR_...\<close> of the type \<open>'a fallible\<close>; a null pointer that is followed, or an access
  outside of an array, is \<open>Inl OUT_OF_BOUNDS\<close>.  Response codes are ordinary values.

  \<^bold>\<open>The theories.\<close>
  \<^item> \<^verbatim>\<open>FTPM_Prelude\<close>: word types, constants, \<open>fallible\<close> and list lemmas.
  \<^item> \<^verbatim>\<open>FTPM_Bytes\<close>: \<^verbatim>\<open>Bits.c\<close> and \<^verbatim>\<open>Memory.c\<close>: bit vectors, moves, comparison, big-endian integers.
  \<^item> \<^verbatim>\<open>FTPM_Handle\<close>: \<^verbatim>\<open>Handle.c\<close>.
  \<^item> \<^verbatim>\<open>FTPM_Session\<close>, \<^verbatim>\<open>FTPM_Session_Inv\<close>, \<^verbatim>\<open>FTPM_Session_Spec\<close>: \<^verbatim>\<open>Session.c\<close>.  The state has the array of
    context identifiers, of which only 16 bits are kept, and the three session slots.  The
    invariant ties the 16-bit entries to 64-bit sequence numbers.  On top of it: a saved
    context is loaded at most once, the 16-bit check is exact, a full context gap can be left,
    and the operations refine a machine of free, loaded and saved sessions.
  \<^item> \<^verbatim>\<open>FTPM_NVMem\<close>: \<^verbatim>\<open>NVMem.c\<close>, the image of NV and its encrypted file.
  \<^item> \<^verbatim>\<open>FTPM_NVDynamic\<close>: \<^verbatim>\<open>NVDynamic.c\<close> over a byte memory: the linked list of indices and
    persistent objects in NV and the list of orderly indices in RAM.
  \<^item> \<^verbatim>\<open>FTPM_NVList\<close>, \<^verbatim>\<open>FTPM_NVOps\<close>, \<^verbatim>\<open>FTPM_NVSpec\<close>, \<^verbatim>\<open>FTPM_NVData\<close>, \<^verbatim>\<open>FTPM_NVCap\<close>, \<^verbatim>\<open>FTPM_NVWrite\<close>: the walk over
    an entry list as a locale that both lists interpret, and what every operation does to
    the lists that the memory represents.
  \<^item> \<^verbatim>\<open>FTPM_NVTheorems\<close>: the invariant of every reachable NV state, round trips, counters that
    never go back, hierarchy flush, startup and locks.
  \<^item> \<^verbatim>\<open>FTPM_NVView\<close>: the NV storage as a map from handles to descriptions and data, and the
    operations of \<^verbatim>\<open>NVDynamic.c\<close> as operations on the map.
  \<^item> \<^verbatim>\<open>FTPM_Time\<close>, \<^verbatim>\<open>FTPM_Time_Spec\<close>: \<^verbatim>\<open>Clock.c\<close>, \<^verbatim>\<open>Time.c\<close>, \<^verbatim>\<open>DA.c\<close>, the clock and dictionary attack
    commands: the timer follows the system time, a safe clock never went back, the number
    of wrong guesses is bounded, and three ways in which the code misses its purpose.
  \<^item> \<^verbatim>\<open>FTPM_Codec\<close>: the marshaling of \<^verbatim>\<open>Marshal.c\<close> and \<^verbatim>\<open>Unmarshal.c\<close> as functions between values and
    octet strings, with the base types, lists and size-prefixed structures.  The locale \<open>codec\<close>
    says that an unmarshaling function accepts exactly what a marshaling function writes; it
    is closed under the ways in which the source builds structures from fields.
  \<^item> \<^verbatim>\<open>FTPM_Marshal\<close>, \<^verbatim>\<open>FTPM_Marshal_Struct\<close>, \<^verbatim>\<open>FTPM_Marshal_Public\<close>, \<^verbatim>\<open>FTPM_Marshal_NV\<close>: the types and
    interface types, and the structures and unions of signatures, tickets, contexts,
    public and sensitive areas and NV public areas, each with its contract as a \<open>codec\<close>.
  \<^item> \<^verbatim>\<open>FTPM_Hierarchy\<close>: \<^verbatim>\<open>Hierarchy.c\<close> with the secrets of \<^verbatim>\<open>VendorInfo.c\<close>.
  \<^item> \<^verbatim>\<open>FTPM_NVCommands\<close>, \<^verbatim>\<open>FTPM_NVCommands_Spec\<close>: \<^verbatim>\<open>NV_spt.c\<close> and \<^verbatim>\<open>NVCommands.c\<close>.  The commands refine an
    abstract machine on the map of the indices; over sequences of commands, counters never
    repeat a value and locked data does not change; and a handle of a foreign type that the
    unmarshaler lets through makes a later hierarchy flush fail.
  \<^item> \<^verbatim>\<open>FTPM_PCR\<close>, \<^verbatim>\<open>FTPM_PCR_Spec\<close>, \<^verbatim>\<open>FTPM_PCR_Theorems\<close>: \<^verbatim>\<open>PCR.c\<close>, the platform table of \<^verbatim>\<open>PlatformPCR.c\<close> and the PCR commands of
    \<^verbatim>\<open>IntegrityCommands.c\<close>.  A register is the replay of the extends and resets that were accepted, whatever
    sequence of commands ran; saved registers survive a resume; and a read returns exactly
    the registers that its response names.
  \<^bold>\<open>Bounds and fuel.\<close>  The loops over the NV list and the RAM list run with the fuel
  \<open>NV_FUEL\<close> and \<open>RAM_FUEL\<close>, 4097 and 44.  An entry of the NV list takes at least 8 of 32768 octets and an
  entry of the RAM list at least 12 of 512, so the fuel is never used up on a well-formed list; the lemmas of the locale
  \<open>entry_walk\<close> show that the loops return.  All other loops are structural recursions or have
  a termination proof.

  \<^bold>\<open>Arguments of the model.\<close>  The file system and the cipher of the NV file, the sizes of C
  structures the compiler lays out (\<open>nv_layout\<close>), the cycle counter and hash functions are
  arguments; what is assumed of them stands in the theorem that needs it.

  \<^bold>\<open>Not modelled.\<close>  The crypto library (\<^verbatim>\<open>src/cryptomini\<close>), the host software stack
  (\<^verbatim>\<open>src/ibmtss-ftpm\<close>), the Linux driver, OpenSBI itself and the FAT file system are third-party
  code the firmware only calls or is called by.  Of the firmware, key generation, signing and
  the random number generator are not modelled, because their meaning is that of the crypto library; neither are
  the remaining command actions and the dispatcher.  Of the marshaling tables, the structures that are only written (attestation, capabilities) and the templates for object creation are left out.
\<close>

text \<open>
  C9. The big-endian conversions are inverse to each other at all three widths: an integer
  written into a byte array and read back is unchanged, and a byte array read as an
  integer and written back gives the same bytes.
\<close>

theorem big_endian_round_trip:
  assumes "length a2 = 2" "length b2 = 2" "length a4 = 4" "length b4 = 4" "length a8 = 8" "length b8 = 8"
  shows "ByteArrayToUint16 (Uint16ToByteArray i a2) = i \<and> Uint16ToByteArray (ByteArrayToUint16 a2) b2 = a2 \<and>
         ByteArrayToUint32 (Uint32ToByteArray j a4) = j \<and> Uint32ToByteArray (ByteArrayToUint32 a4) b4 = a4 \<and>
         ByteArrayToUint64 (Uint64ToByteArray k a8) = k \<and> Uint64ToByteArray (ByteArrayToUint64 a8) b8 = a8"
  using assms by (auto simp: word_unat_eq_iff be_val_conversions intro!: be_val_inj)

theorem big_endian_round_trip_witness:
  "ByteArrayToUint16 (Uint16ToByteArray 0x1234 [0, 0]) = 0x1234 \<and>
   Uint32ToByteArray (ByteArrayToUint32 [1, 2, 3, 4]) [0, 0, 0, 0] = [1, 2, 3, 4]"
  using big_endian_round_trip [of "[0, 0]" "[0, 0]" "[1, 2, 3, 4]" "[0, 0, 0, 0]"
      "[0, 0, 0, 0, 0, 0, 0, 0]" "[0, 0, 0, 0, 0, 0, 0, 0]" "0x1234"]
  by simp

end
